(* ===== verification/Prelude.thy ===== *)
theory Prelude
  imports Main "HOL-Library.Word" "HOL-Library.List_Lexorder" "HOL-Library.Char_ord"
begin

text \<open>
  Shared vocabulary of the development: Rust's \<open>Result\<close> as a sum type with its early
  return (\<open>?\<close>), a state-and-error monad for code with effects, a small logic of triples
  for it, and ordered maps (\<open>BTreeMap\<close>) as strictly sorted association lists.
\<close>

section \<open>Collections of facts\<close>

named_theorems result_simps "equations that evaluate results and their early return"
named_theorems triple_intros "rules that build a triple from the triples of its parts"

section \<open>Results\<close>

text \<open>
  \<open>Result<T, E>\<close> is \<open>'e + 't\<close>, the error on the left. \<open>and_then\<close> is the
  operator \<open>?\<close> followed by the rest of the function body.
\<close>

definition and_then :: "'e + 'a \<Rightarrow> ('a \<Rightarrow> 'e + 'b) \<Rightarrow> 'e + 'b" where
  "and_then r f = (case r of Inl e \<Rightarrow> Inl e | Inr x \<Rightarrow> f x)"

lemma and_then_simps [simp, result_simps]:
  "and_then (Inl e) f = Inl e"
  "and_then (Inr x) f = f x"
  by (simp_all add: and_then_def)

lemma and_then_Inr_iff: "and_then r f = Inr y \<longleftrightarrow> (\<exists>x. r = Inr x \<and> f x = Inr y)"
  by (cases r) auto

lemma and_then_Inl_iff: "and_then r f = Inl e \<longleftrightarrow> r = Inl e \<or> (\<exists>x. r = Inr x \<and> f x = Inl e)"
  by (cases r) auto

lemma and_then_InrE [elim!]:
  assumes "and_then r f = Inr y"
  obtains x where "r = Inr x" "f x = Inr y"
  using assms by (auto simp: and_then_Inr_iff)

definition map_err :: "('e \<Rightarrow> 'f) \<Rightarrow> 'e + 'a \<Rightarrow> 'f + 'a" where
  "map_err g r = (case r of Inl e \<Rightarrow> Inl (g e) | Inr x \<Rightarrow> Inr x)"

lemma map_err_simps [simp, result_simps]:
  "map_err g (Inl e) = Inl (g e)"
  "map_err g (Inr x) = Inr x"
  by (simp_all add: map_err_def)

lemma map_err_Inr_iff [simp]: "map_err g r = Inr x \<longleftrightarrow> r = Inr x"
  by (cases r) auto

definition ok_or :: "'e \<Rightarrow> 'a option \<Rightarrow> 'e + 'a" where
  "ok_or e x = (case x of None \<Rightarrow> Inl e | Some y \<Rightarrow> Inr y)"

lemma ok_or_simps [simp, result_simps]:
  "ok_or e None = Inl e"
  "ok_or e (Some x) = Inr x"
  by (simp_all add: ok_or_def)

lemma ok_or_Inr_iff [simp]: "ok_or e x = Inr y \<longleftrightarrow> x = Some y"
  by (cases x) auto

lemma ok_or_Inl_iff [simp]: "ok_or e x = Inl d \<longleftrightarrow> x = None \<and> d = e"
  by (cases x) auto

definition guard_err :: "bool \<Rightarrow> 'e \<Rightarrow> 'e + unit" where
  "guard_err b e = (if b then Inr () else Inl e)"

lemma guard_err_iff [simp]:
  "guard_err b e = Inr u \<longleftrightarrow> b"
  "guard_err b e = Inl d \<longleftrightarrow> \<not> b \<and> d = e"
  by (auto simp: guard_err_def)

definition is_ok :: "'e + 'a \<Rightarrow> bool" where
  "is_ok r = (case r of Inl _ \<Rightarrow> False | Inr _ \<Rightarrow> True)"

lemma is_ok_simps [simp]: "\<not> is_ok (Inl e)" "is_ok (Inr x)"
  by (simp_all add: is_ok_def)

lemma is_ok_iff: "is_ok r \<longleftrightarrow> (\<exists>x. r = Inr x)"
  by (cases r) auto

text \<open>
  \<open>iter().enumerate().map(f).collect::<Result<Vec<_>, _>>()\<close>: elements in order, stopping
  at the first error. The index is the position of the element.
\<close>

fun collect_from :: "nat \<Rightarrow> (nat \<Rightarrow> 'a \<Rightarrow> 'e + 'b) \<Rightarrow> 'a list \<Rightarrow> 'e + 'b list" where
  "collect_from i f [] = Inr []"
| "collect_from i f (x # xs) =
     and_then (f i x) (\<lambda>y. and_then (collect_from (Suc i) f xs) (\<lambda>ys. Inr (y # ys)))"

definition collect_enumerated :: "(nat \<Rightarrow> 'a \<Rightarrow> 'e + 'b) \<Rightarrow> 'a list \<Rightarrow> 'e + 'b list" where
  "collect_enumerated f xs = collect_from 0 f xs"

lemma collect_from_Inr_iff:
  "collect_from i f xs = Inr ys \<longleftrightarrow>
     length ys = length xs \<and> (\<forall>j < length xs. f (i + j) (xs ! j) = Inr (ys ! j))"
proof (induction xs arbitrary: i ys)
  case Nil
  then show ?case by auto
next
  case (Cons x xs)
  show ?case
    by (cases ys) (auto simp: and_then_Inr_iff Cons.IH nth_Cons less_Suc_eq_0_disj)
qed

lemma collect_enumerated_Inr_iff:
  "collect_enumerated f xs = Inr ys \<longleftrightarrow>
     length ys = length xs \<and> (\<forall>j < length xs. f j (xs ! j) = Inr (ys ! j))"
  by (simp add: collect_enumerated_def collect_from_Inr_iff)

lemma collect_from_Inl:
  assumes "collect_from i f xs = Inl e"
  shows "\<exists>j < length xs. f (i + j) (xs ! j) = Inl e \<and> (\<forall>k < j. is_ok (f (i + k) (xs ! k)))"
  using assms
proof (induction xs arbitrary: i)
  case Nil
  then show ?case by simp
next
  case (Cons x xs)
  show ?case
  proof (cases "f i x")
    case (Inl d)
    with Cons.prems show ?thesis by (intro exI [of _ 0]) simp
  next
    case (Inr y)
    with Cons.prems have "collect_from (Suc i) f xs = Inl e"
      by (auto simp: and_then_Inl_iff)
    from Cons.IH [OF this] obtain j where
      j: "j < length xs" "f (Suc i + j) (xs ! j) = Inl e"
         "\<forall>k < j. is_ok (f (Suc i + k) (xs ! k))"
      by blast
    have "is_ok (f (i + k) ((x # xs) ! k))" if "k < Suc j" for k
      using that Inr j(3) by (cases k) auto
    with j show ?thesis by (intro exI [of _ "Suc j"]) auto
  qed
qed

section \<open>Code with effects\<close>

text \<open>
  An effectful Rust function over a state \<open>'s\<close> is a map from the state before the call
  to its result and the state after it. The state survives an early return, so what a
  failing call has already done to the world stays visible.
\<close>

type_synonym ('s, 'e, 'a) io = "'s \<Rightarrow> ('e + 'a) \<times> 's"

definition io_return :: "'a \<Rightarrow> ('s, 'e, 'a) io" where
  "io_return x = (\<lambda>s. (Inr x, s))"

definition io_fail :: "'e \<Rightarrow> ('s, 'e, 'a) io" where
  "io_fail e = (\<lambda>s. (Inl e, s))"

definition io_bind :: "('s, 'e, 'a) io \<Rightarrow> ('a \<Rightarrow> ('s, 'e, 'b) io) \<Rightarrow> ('s, 'e, 'b) io" where
  "io_bind m f = (\<lambda>s. case m s of (Inl e, t) \<Rightarrow> (Inl e, t) | (Inr x, t) \<Rightarrow> f x t)"

definition io_lift :: "'e + 'a \<Rightarrow> ('s, 'e, 'a) io" where
  "io_lift r = (\<lambda>s. (r, s))"

definition io_map_err :: "('e \<Rightarrow> 'f) \<Rightarrow> ('s, 'e, 'a) io \<Rightarrow> ('s, 'f, 'a) io" where
  "io_map_err g m = (\<lambda>s. case m s of (r, t) \<Rightarrow> (map_err g r, t))"

definition io_try :: "('s, 'e, 'a) io \<Rightarrow> ('s, 'f, 'e + 'a) io" where
  "io_try m = (\<lambda>s. case m s of (r, t) \<Rightarrow> (Inr r, t))"

definition io_get :: "('s \<Rightarrow> 'a) \<Rightarrow> ('s, 'e, 'a) io" where
  "io_get f = (\<lambda>s. (Inr (f s), s))"

definition io_modify :: "('s \<Rightarrow> 's) \<Rightarrow> ('s, 'e, unit) io" where
  "io_modify f = (\<lambda>s. (Inr (), f s))"

text \<open>A \<open>for\<close> loop over a list with a loop state, left by the first error.\<close>

fun io_fold :: "('a \<Rightarrow> 'b \<Rightarrow> ('s, 'e, 'b) io) \<Rightarrow> 'a list \<Rightarrow> 'b \<Rightarrow> ('s, 'e, 'b) io" where
  "io_fold f [] b = io_return b"
| "io_fold f (x # xs) b = io_bind (f x b) (io_fold f xs)"

text \<open>\<open>iter().enumerate().map(f).collect()\<close> where \<open>f\<close> has effects.\<close>

fun io_collect_from ::
  "nat \<Rightarrow> (nat \<Rightarrow> 'a \<Rightarrow> ('s, 'e, 'b) io) \<Rightarrow> 'a list \<Rightarrow> ('s, 'e, 'b list) io" where
  "io_collect_from i f [] = io_return []"
| "io_collect_from i f (x # xs) =
     io_bind (f i x) (\<lambda>y. io_bind (io_collect_from (Suc i) f xs) (\<lambda>ys. io_return (y # ys)))"

definition io_collect :: "(nat \<Rightarrow> 'a \<Rightarrow> ('s, 'e, 'b) io) \<Rightarrow> 'a list \<Rightarrow> ('s, 'e, 'b list) io" where
  "io_collect f xs = io_collect_from 0 f xs"

lemmas io_defs = io_return_def io_fail_def io_bind_def io_lift_def io_map_err_def io_try_def
  io_get_def io_modify_def

lemma io_apply_simps:
  "io_return x s = (Inr x, s)"
  "io_fail e s = (Inl e, s)"
  "io_lift r s = (r, s)"
  "io_get f s = (Inr (f s), s)"
  "io_modify h s = (Inr (), h s)"
  by (simp_all add: io_defs)

lemma io_bind_apply:
  "m s = (Inl e, t) \<Longrightarrow> io_bind m f s = (Inl e, t)"
  "m s = (Inr x, t) \<Longrightarrow> io_bind m f s = f x t"
  by (simp_all add: io_defs)

lemma io_map_err_apply: "m s = (r, t) \<Longrightarrow> io_map_err g m s = (map_err g r, t)"
  by (simp add: io_defs)

lemma io_try_apply: "m s = (r, t) \<Longrightarrow> io_try m s = (Inr r, t)"
  by (simp add: io_defs)

lemma io_bind_simps [simp]:
  "io_bind (io_return x) f = f x"
  "io_bind (io_fail e) f = io_fail e"
  "io_bind (io_lift (Inr x)) f = f x"
  "io_bind (io_lift (Inl e)) f = io_fail e"
  by (simp_all add: io_defs fun_eq_iff)

lemma io_bind_assoc: "io_bind (io_bind m f) g = io_bind m (\<lambda>x. io_bind (f x) g)"
  by (auto simp: io_defs fun_eq_iff split: prod.split sum.split)

lemma io_bind_InrE:
  assumes "io_bind m f s = (Inr y, t)"
  obtains x u where "m s = (Inr x, u)" "f x u = (Inr y, t)"
  using assms by (auto simp: io_defs split: prod.splits sum.splits)

lemma io_bind_InlE:
  assumes "io_bind m f s = (Inl e, t)"
  obtains "m s = (Inl e, t)" | x u where "m s = (Inr x, u)" "f x u = (Inl e, t)"
  using assms by (auto simp: io_defs split: prod.splits sum.splits)

lemma io_map_err_InrE:
  assumes "io_map_err g m s = (Inr y, t)"
  obtains "m s = (Inr y, t)"
  using assms by (auto simp: io_defs split: prod.splits)

subsection \<open>Triples\<close>

text \<open>
  \<open>triple P m Q E\<close>: started where \<open>P\<close> holds, \<open>m\<close> either returns a value \<open>x\<close> in a
  state with \<open>Q x\<close>, or fails with an error \<open>e\<close> in a state with \<open>E e\<close>.
\<close>

definition triple ::
  "('s \<Rightarrow> bool) \<Rightarrow> ('s, 'e, 'a) io \<Rightarrow> ('a \<Rightarrow> 's \<Rightarrow> bool) \<Rightarrow> ('e \<Rightarrow> 's \<Rightarrow> bool) \<Rightarrow> bool" where
  "triple P m Q E \<longleftrightarrow>
     (\<forall>s. P s \<longrightarrow> (case m s of (Inr x, t) \<Rightarrow> Q x t | (Inl e, t) \<Rightarrow> E e t))"

lemma tripleI:
  assumes "\<And>s x t. P s \<Longrightarrow> m s = (Inr x, t) \<Longrightarrow> Q x t"
    and "\<And>s e t. P s \<Longrightarrow> m s = (Inl e, t) \<Longrightarrow> E e t"
  shows "triple P m Q E"
  using assms by (auto simp: triple_def split: prod.splits sum.splits)

lemma triple_InrD: "triple P m Q E \<Longrightarrow> P s \<Longrightarrow> m s = (Inr x, t) \<Longrightarrow> Q x t"
  by (auto simp: triple_def dest: spec [of _ s])

lemma triple_InlD: "triple P m Q E \<Longrightarrow> P s \<Longrightarrow> m s = (Inl e, t) \<Longrightarrow> E e t"
  by (auto simp: triple_def dest: spec [of _ s])

lemma triple_bind [triple_intros]:
  assumes "triple P m R E" and "\<And>x. triple (R x) (f x) Q E"
  shows "triple P (io_bind m f) Q E"
  using assms by (fastforce simp: triple_def io_defs split: prod.splits sum.splits)

lemma triple_result:
  assumes "triple P m Q E" and "\<And>s x t. m s = (Inr x, t) \<Longrightarrow> R x"
  shows "triple P m (\<lambda>x s. Q x s \<and> R x) E"
  by (rule tripleI) (auto intro: triple_InrD [OF assms(1)] triple_InlD [OF assms(1)] assms(2))

lemma triple_conseq:
  assumes "triple P m Q E"
    and "\<And>s. P' s \<Longrightarrow> P s" and "\<And>x s. Q x s \<Longrightarrow> Q' x s" and "\<And>e s. E e s \<Longrightarrow> E' e s"
  shows "triple P' m Q' E'"
  using assms by (fastforce simp: triple_def split: prod.splits sum.splits)

lemma triple_pre: "triple P m Q E \<Longrightarrow> (\<And>s. P' s \<Longrightarrow> P s) \<Longrightarrow> triple P' m Q E"
  by (erule triple_conseq)

lemma triple_return [triple_intros]: "(\<And>s. P s \<Longrightarrow> Q x s) \<Longrightarrow> triple P (io_return x) Q E"
  by (simp add: triple_def io_defs)

lemma triple_fail [triple_intros]: "(\<And>s. P s \<Longrightarrow> E e s) \<Longrightarrow> triple P (io_fail e) Q E"
  by (simp add: triple_def io_defs)

lemma triple_lift:
  "(\<And>s x. P s \<Longrightarrow> r = Inr x \<Longrightarrow> Q x s) \<Longrightarrow> (\<And>s e. P s \<Longrightarrow> r = Inl e \<Longrightarrow> E e s) \<Longrightarrow>
   triple P (io_lift r) Q E"
  by (cases r) (auto simp: triple_def io_defs)

lemma triple_map_err [triple_intros]:
  assumes "triple P m Q (\<lambda>e. E (g e))"
  shows "triple P (io_map_err g m) Q E"
proof (rule tripleI)
  fix s x t
  assume "P s" "io_map_err g m s = (Inr x, t)"
  then show "Q x t"
    by (auto simp: io_defs split: prod.splits intro: triple_InrD [OF assms])
next
  fix s e t
  assume "P s" "io_map_err g m s = (Inl e, t)"
  then show "E e t"
    by (auto simp: io_defs map_err_def split: prod.splits sum.splits intro: triple_InlD [OF assms])
qed

lemma triple_map_err_const:
  "triple P m Q (\<lambda>_. E) \<Longrightarrow> triple P (io_map_err g m) Q (\<lambda>_. E)"
  by (rule triple_map_err)

lemma triple_try:
  assumes "triple P m (\<lambda>x. Q (Inr x)) (\<lambda>e. Q (Inl e))"
  shows "triple P (io_try m) Q E"
proof (rule tripleI)
  fix s x t
  assume "P s" "io_try m s = (Inr x, t)"
  then show "Q x t"
    by (cases x) (auto simp: io_defs split: prod.splits intro: triple_InrD [OF assms]
        triple_InlD [OF assms])
qed (auto simp: io_defs split: prod.splits)

lemma triple_get: "(\<And>s. P s \<Longrightarrow> Q (f s) s) \<Longrightarrow> triple P (io_get f) Q E"
  by (simp add: triple_def io_defs)

lemma triple_modify: "(\<And>s. P s \<Longrightarrow> Q () (f s)) \<Longrightarrow> triple P (io_modify f) Q E"
  by (simp add: triple_def io_defs)

lemma triple_if [triple_intros]:
  "(b \<Longrightarrow> triple P m Q E) \<Longrightarrow> (\<not> b \<Longrightarrow> triple P n Q E) \<Longrightarrow> triple P (if b then m else n) Q E"
  by simp

lemma triple_conj:
  "triple P m Q E \<Longrightarrow> triple P m Q' E' \<Longrightarrow>
   triple P m (\<lambda>x s. Q x s \<and> Q' x s) (\<lambda>e s. E e s \<and> E' e s)"
  by (fastforce simp: triple_def split: prod.splits sum.splits)

lemma triple_pure: "(C \<Longrightarrow> triple (\<lambda>_. True) m Q E) \<Longrightarrow> triple (\<lambda>_. C) m Q E"
  by (cases C) (simp_all add: triple_def)

lemma triple_any: "triple P m (\<lambda>_ _. True) (\<lambda>_ _. True)"
  by (rule tripleI) simp_all

lemma triple_pre_imp: "(C \<Longrightarrow> triple P m Q E) \<Longrightarrow> triple (\<lambda>s. C \<and> P s) m Q E"
  by (auto simp: triple_def)

lemma triple_pre_ex: "(\<And>z. triple (P z) m Q E) \<Longrightarrow> triple (\<lambda>s. \<exists>z. P z s) m Q E"
  by (rule tripleI) (meson triple_InrD triple_InlD)+

text \<open>
  The rule for loops: \<open>I done b\<close> holds after the elements \<open>done\<close> with loop state \<open>b\<close>.
\<close>

lemma triple_fold:
  assumes "\<And>ys x zs b. xs = ys @ x # zs \<Longrightarrow> triple (I ys b) (f x b) (\<lambda>b'. I (ys @ [x]) b') E"
  shows "triple (I [] b) (io_fold f xs b) (\<lambda>b'. I xs b') E"
proof -
  have "triple (I ys b) (io_fold f zs b) (\<lambda>b'. I xs b') E" if "xs = ys @ zs" for ys zs b
    using that
  proof (induction zs arbitrary: ys b)
    case Nil
    then show ?case by (auto intro: triple_return)
  next
    case (Cons z zs)
    show ?case
      unfolding io_fold.simps
      by (rule triple_bind [OF assms [OF Cons.prems]], rule Cons.IH) (simp add: Cons.prems)
  qed
  from this [of "[]" xs] show ?thesis by simp
qed

lemma triple_collect:
  assumes "\<And>i x. i < length xs \<Longrightarrow> x = xs ! i \<Longrightarrow>
      triple P (f i x) (\<lambda>y s. P s \<and> R i x y) E"
  shows "triple P (io_collect f xs)
    (\<lambda>ys s. P s \<and> length ys = length xs \<and> (\<forall>i < length xs. R i (xs ! i) (ys ! i))) E"
proof -
  have "triple P (io_collect_from k f zs)
      (\<lambda>ys s. P s \<and> length ys = length zs \<and> (\<forall>i < length zs. R (k + i) (zs ! i) (ys ! i))) E"
    if "\<And>i. i < length zs \<Longrightarrow> k + i < length xs \<and> xs ! (k + i) = zs ! i" for k zs
    using that
  proof (induction zs arbitrary: k)
    case Nil
    then show ?case by (auto intro: triple_return)
  next
    case (Cons z zs)
    have hd: "triple P (f k z) (\<lambda>y s. P s \<and> R k z y) E"
      using assms [of k z] Cons.prems [of 0] by simp
    have tl: "triple P (io_collect_from (Suc k) f zs)
        (\<lambda>ys s. P s \<and> length ys = length zs \<and> (\<forall>i < length zs. R (Suc k + i) (zs ! i) (ys ! i))) E"
      using Cons.prems by (intro Cons.IH) (metis Suc_less_eq add_Suc_shift length_Cons nth_Cons_Suc)
    show ?case
      unfolding io_collect_from.simps
    proof (rule triple_bind [OF hd], rule triple_bind)
      fix y
      show "triple (\<lambda>s. P s \<and> R k z y) (io_collect_from (Suc k) f zs)
          (\<lambda>ys s. P s \<and> R k z y \<and> length ys = length zs \<and>
             (\<forall>i < length zs. R (Suc k + i) (zs ! i) (ys ! i))) E"
        using tl by (fastforce simp: triple_def split: prod.splits sum.splits)
    next
      fix y ys
      show "triple (\<lambda>s. P s \<and> R k z y \<and> length ys = length zs \<and>
             (\<forall>i < length zs. R (Suc k + i) (zs ! i) (ys ! i))) (io_return (y # ys))
          (\<lambda>ys s. P s \<and> length ys = length (z # zs) \<and>
             (\<forall>i < length (z # zs). R (k + i) ((z # zs) ! i) (ys ! i))) E"
        by (rule triple_return) (auto simp: nth_Cons split: nat.split)
    qed
  qed
  from this [of xs 0] show ?thesis by (simp add: io_collect_def)
qed

text \<open>
  When the state part of a condition is constant, what a step adds is a fact about its
  result, which the rest of the code may use.
\<close>

lemma triple_bind_fact:
  assumes "triple P m (\<lambda>x s. P s \<and> R x) E" and "\<And>x. R x \<Longrightarrow> triple P (f x) Q E"
  shows "triple P (io_bind m f) Q E"
  by (rule triple_bind [OF assms(1)]) (use assms(2) in \<open>fastforce simp: triple_def\<close>)

lemma triple_lift_fact:
  "(\<And>s e. P s \<Longrightarrow> E e s) \<Longrightarrow> triple P (io_lift r) (\<lambda>x s. P s \<and> r = Inr x) E"
  by (rule triple_lift) auto

lemma triple_fold_fact:
  assumes "\<And>x b. x \<in> set xs \<Longrightarrow> triple P (f x b) (\<lambda>_ s. P s \<and> R x) E"
  shows "triple P (io_fold f xs b) (\<lambda>_ s. P s \<and> (\<forall>x \<in> set xs. R x)) E"
  using assms
proof (induction xs arbitrary: b)
  case Nil
  then show ?case by (auto intro: triple_return)
next
  case (Cons x xs)
  have "triple P (f x b) (\<lambda>_ s. P s \<and> R x) E"
    using Cons.prems by simp
  moreover have "triple P (io_fold f xs b') (\<lambda>_ s. P s \<and> (\<forall>x \<in> set xs. R x)) E" for b'
    using Cons.prems by (intro Cons.IH) simp
  ultimately show ?case
    by (auto intro!: triple_bind_fact [where R = "\<lambda>_. R x"] elim: triple_conseq)
qed

text \<open>An invariant of the state that a call keeps, whether it succeeds or fails.\<close>

definition keeps :: "('s \<Rightarrow> bool) \<Rightarrow> ('s, 'e, 'a) io \<Rightarrow> bool" where
  "keeps I m \<longleftrightarrow> (\<forall>s. I s \<longrightarrow> I (snd (m s)))"

lemma keeps_iff_triple: "keeps I m \<longleftrightarrow> triple I m (\<lambda>_. I) (\<lambda>_. I)"
proof -
  have "(case m s of (Inr x, t) \<Rightarrow> I t | (Inl e, t) \<Rightarrow> I t) = I (snd (m s))" for s
    by (simp split: prod.split sum.split)
  then show ?thesis by (simp add: keeps_def triple_def)
qed

lemma keeps_simps [simp, intro]:
  "keeps I (io_return x)" "keeps I (io_fail e)" "keeps I (io_lift r)" "keeps I (io_get f)"
  by (simp_all add: keeps_def io_apply_simps)

lemma keeps_bind [intro]: "keeps I m \<Longrightarrow> (\<And>x. keeps I (f x)) \<Longrightarrow> keeps I (io_bind m f)"
  by (auto simp: keeps_iff_triple intro: triple_bind)

lemma keeps_map_err [intro]: "keeps I m \<Longrightarrow> keeps I (io_map_err g m)"
  by (auto simp: keeps_iff_triple intro: triple_map_err)

lemma keeps_try [intro]: "keeps I m \<Longrightarrow> keeps I (io_try m)"
  by (auto simp: keeps_iff_triple intro: triple_try)

lemma keeps_if [intro]: "keeps I m \<Longrightarrow> keeps I n \<Longrightarrow> keeps I (if b then m else n)"
  by simp

lemma keeps_fold [intro]: "(\<And>x b. keeps I (f x b)) \<Longrightarrow> keeps I (io_fold f xs b)"
  by (induction xs arbitrary: b) auto

text \<open>What errors a call can give.\<close>

definition fails_with :: "('e \<Rightarrow> bool) \<Rightarrow> ('s, 'e, 'a) io \<Rightarrow> bool" where
  "fails_with F m \<longleftrightarrow> (\<forall>s e. fst (m s) = Inl e \<longrightarrow> F e)"

lemma fails_withD: "fails_with F m \<Longrightarrow> m s = (Inl e, t) \<Longrightarrow> F e"
  by (auto simp: fails_with_def) (metis fst_conv)

lemma fails_with_simps [simp]:
  "fails_with F (io_return x)"
  "fails_with F (io_fail e) \<longleftrightarrow> F e"
  "fails_with F (io_lift r) \<longleftrightarrow> (\<forall>e. r = Inl e \<longrightarrow> F e)"
  "fails_with F (io_try m)"
  by (simp_all add: fails_with_def io_apply_simps io_try_def split: prod.split)

lemma fails_with_bind [intro]:
  assumes "fails_with F m" and "\<And>x. fails_with F (f x)"
  shows "fails_with F (io_bind m f)"
  unfolding fails_with_def
proof (intro allI impI)
  fix s e
  assume "fst (io_bind m f s) = Inl e"
  then obtain t where "io_bind m f s = (Inl e, t)" by (cases "io_bind m f s") auto
  then show "F e"
    by (rule io_bind_InlE) (use assms in \<open>auto dest: fails_withD\<close>)
qed

lemma fails_with_map_err [intro]: "fails_with (\<lambda>e. F (g e)) m \<Longrightarrow> fails_with F (io_map_err g m)"
  by (auto simp: fails_with_def io_map_err_def map_err_def split: prod.splits sum.splits)
    (metis fst_conv)

lemma fails_with_fold [intro]:
  "(\<And>x b. x \<in> set xs \<Longrightarrow> fails_with F (f x b)) \<Longrightarrow> fails_with F (io_fold f xs b)"
  by (induction xs arbitrary: b) auto

section \<open>Ordered maps\<close>

text \<open>
  A \<open>BTreeMap<String, V>\<close> is its list of entries in key order. Strings are compared byte by
  byte, which is the order of lists of characters of the library.
\<close>

type_synonym 'v btree = "(string \<times> 'v) list"

fun bt_insert :: "string \<Rightarrow> 'v \<Rightarrow> 'v btree \<Rightarrow> 'v btree" where
  "bt_insert k v [] = [(k, v)]"
| "bt_insert k v ((k', v') # m) =
     (if k = k' then (k, v) # m
      else if k < k' then (k, v) # (k', v') # m
      else (k', v') # bt_insert k v m)"

definition bt_of_list :: "(string \<times> 'v) list \<Rightarrow> 'v btree" where
  "bt_of_list kvs = fold (\<lambda>(k, v). bt_insert k v) kvs []"

definition bt_sorted :: "'v btree \<Rightarrow> bool" where
  "bt_sorted m \<longleftrightarrow> sorted_wrt (<) (map fst m)"

lemma bt_sorted_simps [simp]:
  "bt_sorted []"
  "bt_sorted ((k, v) # m) \<longleftrightarrow> (\<forall>k' \<in> fst ` set m. k < k') \<and> bt_sorted m"
  by (auto simp: bt_sorted_def)

lemma fst_set_bt_insert: "fst ` set (bt_insert k v m) = insert k (fst ` set m)"
  by (induction m rule: bt_insert.induct) auto

lemma bt_insert_sorted [simp]: "bt_sorted m \<Longrightarrow> bt_sorted (bt_insert k v m)"
proof (induction k v m rule: bt_insert.induct)
  case (2 k v k' v' m)
  then show ?case
    by (auto simp: fst_set_bt_insert ball_Un)
qed simp

lemma map_of_bt_insert [simp]: "map_of (bt_insert k v m) = (map_of m)(k \<mapsto> v)"
  by (induction k v m rule: bt_insert.induct) (auto simp: fun_eq_iff)

lemma bt_fold_sorted: "bt_sorted m \<Longrightarrow> bt_sorted (fold (\<lambda>(k, v). bt_insert k v) kvs m)"
  by (induction kvs arbitrary: m) auto

lemma bt_of_list_sorted [simp]: "bt_sorted (bt_of_list kvs)"
  by (simp add: bt_of_list_def bt_fold_sorted)

lemma map_of_bt_fold:
  "map_of (fold (\<lambda>(k, v). bt_insert k v) kvs m) = map_of m ++ map_of (rev kvs)"
  by (induction kvs arbitrary: m) (auto simp: fun_eq_iff map_add_def split: option.splits)

lemma map_of_bt_of_list: "map_of (bt_of_list kvs) = map_of (rev kvs)"
  by (simp add: bt_of_list_def map_of_bt_fold)

lemma bt_sorted_distinct: "bt_sorted m \<Longrightarrow> distinct (map fst m)"
  unfolding bt_sorted_def by (simp add: strict_sorted_iff)

text \<open>Two ordered maps with the same lookups are the same list: the order is canonical.\<close>

lemma bt_sorted_map_of_eq:
  assumes "bt_sorted m" and "bt_sorted n" and "map_of m = map_of n"
  shows "m = n"
proof -
  have keys: "map fst m = map fst n"
  proof (rule sorted_distinct_set_unique)
    show "sorted (map fst m)" "sorted (map fst n)"
      using assms(1,2) by (simp_all add: bt_sorted_def strict_sorted_imp_sorted)
    show "distinct (map fst m)" "distinct (map fst n)"
      using assms(1,2) by (simp_all add: bt_sorted_distinct)
    show "set (map fst m) = set (map fst n)"
      using arg_cong [OF assms(3), of dom] by (simp add: dom_map_of_conv_image_fst)
  qed
  have "m ! i = n ! i" if "i < length m" for i
  proof -
    have len: "i < length n" using that arg_cong [OF keys, of length] by simp
    have fst_eq: "fst (m ! i) = fst (n ! i)"
      using keys that len by (metis nth_map)
    have "map_of m (fst (m ! i)) = Some (snd (m ! i))"
      using that by (simp add: map_of_is_SomeI bt_sorted_distinct [OF assms(1)])
    moreover have "map_of n (fst (n ! i)) = Some (snd (n ! i))"
      using len by (simp add: map_of_is_SomeI bt_sorted_distinct [OF assms(2)])
    ultimately show ?thesis
      using fst_eq assms(3) by (simp add: prod_eq_iff)
  qed
  then show ?thesis
    using arg_cong [OF keys, of length] by (intro nth_equalityI) simp_all
qed

text \<open>Inserting a list with distinct keys: the order does not matter.\<close>

lemma map_of_rev_distinct:
  assumes "distinct (map fst kvs)"
  shows "map_of (rev kvs) = map_of kvs"
proof
  fix k
  have rev_distinct: "distinct (map fst (rev kvs))"
    using assms by (simp add: rev_map [symmetric])
  show "map_of (rev kvs) k = map_of kvs k"
  proof (cases "map_of kvs k")
    case None
    then have "map_of (rev kvs) k = None" by (simp add: map_of_eq_None_iff)
    with None show ?thesis by simp
  next
    case (Some v)
    then have "(k, v) \<in> set (rev kvs)" by (simp add: map_of_SomeD)
    with Some rev_distinct show ?thesis by (simp add: map_of_is_SomeI)
  qed
qed

lemma map_add_apply: "(f ++ g) k = (case g k of None \<Rightarrow> f k | Some x \<Rightarrow> Some x)"
  by (simp add: map_add_def)

lemma case_option_or [simp]: "(case v of None \<Rightarrow> None | Some x \<Rightarrow> Some x) = v"
  by (cases v) auto

end
