(* ===== verification/Rust_String.thy ===== *)
theory Rust_String
  imports Prelude
begin

text \<open>
  Rust strings. A \<open>String\<close> or \<open>&str\<close> is its UTF-8 byte sequence, one \<open>char\<close> of the
  logic per byte, so \<open>len()\<close> is \<open>length\<close> and \<open>as_bytes()\<close> is the identity. The
  predicates on characters that the source applies are on ASCII, or on white space, whose
  encodings are written out.
\<close>

type_synonym bytes = "char list"

definition code_of :: "char \<Rightarrow> nat" where
  "code_of c = of_char c"

definition is_ascii_lowercase :: "char \<Rightarrow> bool" where
  "is_ascii_lowercase c \<longleftrightarrow> 97 \<le> code_of c \<and> code_of c \<le> 122"

definition is_ascii_uppercase :: "char \<Rightarrow> bool" where
  "is_ascii_uppercase c \<longleftrightarrow> 65 \<le> code_of c \<and> code_of c \<le> 90"

definition is_ascii_digit :: "char \<Rightarrow> bool" where
  "is_ascii_digit c \<longleftrightarrow> 48 \<le> code_of c \<and> code_of c \<le> 57"

definition is_ascii_alphanumeric :: "char \<Rightarrow> bool" where
  "is_ascii_alphanumeric c \<longleftrightarrow>
     is_ascii_lowercase c \<or> is_ascii_uppercase c \<or> is_ascii_digit c"

definition is_lower_hex :: "char \<Rightarrow> bool" where
  "is_lower_hex c \<longleftrightarrow> is_ascii_digit c \<or> (97 \<le> code_of c \<and> code_of c \<le> 102)"

lemmas ascii_defs = is_ascii_lowercase_def is_ascii_uppercase_def is_ascii_digit_def
  is_ascii_alphanumeric_def is_lower_hex_def code_of_def

text \<open>The classes on the bits of a character, so that they evaluate without arithmetic.\<close>

lemma code_of_bits:
  "code_of (Char b0 b1 b2 b3 b4 b5 b6 b7) =
     of_bool b0 + 2 * (of_bool b1 + 2 * (of_bool b2 + 2 * (of_bool b3 + 2 * (of_bool b4 + 2 * (of_bool b5 +
       2 * (of_bool b6 + 2 * of_bool b7))))))"
  by (simp add: code_of_def)

lemma is_ascii_digit_bits [code]:
  "is_ascii_digit (Char b0 b1 b2 b3 b4 b5 b6 b7) \<longleftrightarrow>
     \<not> b7 \<and> \<not> b6 \<and> b5 \<and> b4 \<and> (\<not> b3 \<or> \<not> b2 \<and> \<not> b1)"
  unfolding is_ascii_digit_def code_of_bits
  by (cases b7; cases b6; cases b5; cases b4) (auto simp: of_bool_def)

lemma is_ascii_lowercase_bits [code]:
  "is_ascii_lowercase (Char b0 b1 b2 b3 b4 b5 b6 b7) \<longleftrightarrow>
     \<not> b7 \<and> b6 \<and> b5 \<and> (b0 \<or> b1 \<or> b2 \<or> b3 \<or> b4) \<and> \<not> (b4 \<and> b3 \<and> (b2 \<or> b1 \<and> b0))"
  unfolding is_ascii_lowercase_def code_of_bits
  by (cases b7; cases b6; cases b5; cases b4) (auto simp: of_bool_def)

lemma is_ascii_uppercase_bits [code]:
  "is_ascii_uppercase (Char b0 b1 b2 b3 b4 b5 b6 b7) \<longleftrightarrow>
     \<not> b7 \<and> b6 \<and> \<not> b5 \<and> (b0 \<or> b1 \<or> b2 \<or> b3 \<or> b4) \<and> \<not> (b4 \<and> b3 \<and> (b2 \<or> b1 \<and> b0))"
  unfolding is_ascii_uppercase_def code_of_bits
  by (cases b7; cases b6; cases b5; cases b4) (auto simp: of_bool_def)

lemma is_lower_hex_bits [code]:
  "is_lower_hex (Char b0 b1 b2 b3 b4 b5 b6 b7) \<longleftrightarrow>
     is_ascii_digit (Char b0 b1 b2 b3 b4 b5 b6 b7) \<or>
     \<not> b7 \<and> b6 \<and> b5 \<and> \<not> b4 \<and> \<not> b3 \<and> (b0 \<or> b1 \<or> b2) \<and> \<not> (b0 \<and> b1 \<and> b2)"
  unfolding is_lower_hex_def code_of_bits
  by (cases b7; cases b6; cases b5; cases b4) (auto simp: of_bool_def)

text \<open>Messages of errors: the pieces of a \<open>format!\<close>, with \<open>{:?}\<close> kept symbolic.\<close>

datatype fmt = Txt string | Dbg string

type_synonym message = "fmt list"

section \<open>Splitting and searching\<close>

fun split_once :: "char \<Rightarrow> string \<Rightarrow> (string \<times> string) option" where
  "split_once c [] = None"
| "split_once c (x # xs) =
     (if x = c then Some ([], xs)
      else map_option (\<lambda>(a, b). (x # a, b)) (split_once c xs))"

fun rsplit_once :: "char \<Rightarrow> string \<Rightarrow> (string \<times> string) option" where
  "rsplit_once c [] = None"
| "rsplit_once c (x # xs) =
     (case rsplit_once c xs of
        Some (a, b) \<Rightarrow> Some (x # a, b)
      | None \<Rightarrow> if x = c then Some ([], xs) else None)"

fun starts_with :: "string \<Rightarrow> string \<Rightarrow> bool" where
  "starts_with s [] \<longleftrightarrow> True"
| "starts_with [] (y # ys) \<longleftrightarrow> False"
| "starts_with (x # xs) (y # ys) \<longleftrightarrow> x = y \<and> starts_with xs ys"

definition ends_with :: "string \<Rightarrow> string \<Rightarrow> bool" where
  "ends_with s t \<longleftrightarrow> starts_with (rev s) (rev t)"

fun contains_str :: "string \<Rightarrow> string \<Rightarrow> bool" where
  "contains_str [] t \<longleftrightarrow> t = []"
| "contains_str (x # xs) t \<longleftrightarrow> starts_with (x # xs) t \<or> contains_str xs t"

definition contains_char :: "string \<Rightarrow> char \<Rightarrow> bool" where
  "contains_char s c \<longleftrightarrow> c \<in> set s"

fun find_str :: "string \<Rightarrow> string \<Rightarrow> nat option" where
  "find_str [] t = (if t = [] then Some 0 else None)"
| "find_str (x # xs) t =
     (if starts_with (x # xs) t then Some 0 else map_option Suc (find_str xs t))"

fun find_char :: "string \<Rightarrow> char \<Rightarrow> nat option" where
  "find_char [] c = None"
| "find_char (x # xs) c = (if x = c then Some 0 else map_option Suc (find_char xs c))"

definition trim_start_matches :: "char \<Rightarrow> string \<Rightarrow> string" where
  "trim_start_matches c s = dropWhile (\<lambda>x. x = c) s"

definition trim_end_matches :: "char \<Rightarrow> string \<Rightarrow> string" where
  "trim_end_matches c s = rev (dropWhile (\<lambda>x. x = c) (rev s))"

definition replace_char :: "char \<Rightarrow> char \<Rightarrow> string \<Rightarrow> string" where
  "replace_char a b s = map (\<lambda>x. if x = a then b else x) s"

lemma split_once_Some_iff:
  "split_once c s = Some (a, b) \<longleftrightarrow> s = a @ c # b \<and> c \<notin> set a"
proof (induction s arbitrary: a)
  case Nil
  then show ?case by simp
next
  case (Cons x xs)
  show ?case
    by (cases a) (auto simp: Cons.IH)
qed

lemma split_once_None_iff [simp]: "split_once c s = None \<longleftrightarrow> c \<notin> set s"
  by (induction s) auto

lemma split_once_append: "c \<notin> set a \<Longrightarrow> split_once c (a @ c # b) = Some (a, b)"
  by (simp add: split_once_Some_iff)

lemma rsplit_once_None_iff [simp]: "rsplit_once c s = None \<longleftrightarrow> c \<notin> set s"
  by (induction s) (auto split: option.split)

lemma rsplit_once_Some_iff:
  "rsplit_once c s = Some (a, b) \<longleftrightarrow> s = a @ c # b \<and> c \<notin> set b"
proof (induction s arbitrary: a b)
  case Nil
  then show ?case by simp
next
  case (Cons x xs)
  show ?case
  proof (cases "rsplit_once c xs")
    case None
    then have notin: "c \<notin> set xs" by simp
    have "rsplit_once c (x # xs) = (if x = c then Some ([], xs) else None)"
      using None by (simp only: rsplit_once.simps option.case)
    with notin show ?thesis by (cases a) auto
  next
    case (Some p)
    obtain a' b' where p: "p = (a', b')" by (cases p)
    have eq: "xs = a' @ c # b'" and nb: "c \<notin> set b'"
      using Cons.IH [of a' b'] Some p by simp_all
    have in_xs: "c \<in> set xs" using eq by simp
    show ?thesis
    proof (cases a)
      case Nil
      then show ?thesis using Some p in_xs by auto
    next
      case (Cons y ys)
      have "Some (a', b') = Some (ys, b) \<longleftrightarrow> xs = ys @ c # b \<and> c \<notin> set b"
        using Cons.IH [of ys b] Some p by simp
      then show ?thesis using Some p Cons by auto
    qed
  qed
qed

lemma starts_with_iff: "starts_with s t \<longleftrightarrow> (\<exists>u. s = t @ u)"
  by (induction s t rule: starts_with.induct) auto

lemma ends_with_iff: "ends_with s t \<longleftrightarrow> (\<exists>u. s = u @ t)"
  unfolding ends_with_def starts_with_iff
  by (metis append_eq_rev_conv rev_append rev_rev_ident rev_swap)

lemma contains_str_iff: "contains_str s t \<longleftrightarrow> (\<exists>u v. s = u @ t @ v)"
proof (induction s)
  case Nil
  then show ?case by auto
next
  case (Cons x xs)
  show ?case
  proof
    assume "contains_str (x # xs) t"
    then consider "starts_with (x # xs) t" | "contains_str xs t" by auto
    then show "\<exists>u v. x # xs = u @ t @ v"
    proof cases
      case 1
      then show ?thesis by (metis append_Nil starts_with_iff)
    next
      case 2
      then show ?thesis using Cons.IH by (metis append_Cons)
    qed
  next
    assume "\<exists>u v. x # xs = u @ t @ v"
    then obtain u v where uv: "x # xs = u @ t @ v" by blast
    show "contains_str (x # xs) t"
    proof (cases u)
      case Nil
      then have "starts_with (x # xs) t"
        unfolding starts_with_iff using uv by simp
      then show ?thesis by simp
    next
      case (Cons y ys)
      with uv have "xs = ys @ t @ v" by simp
      with Cons.IH show ?thesis by auto
    qed
  qed
qed

lemma find_char_None_iff [simp]: "find_char s c = None \<longleftrightarrow> c \<notin> set s"
  by (induction s) auto

lemma find_char_Some_iff:
  "find_char s c = Some i \<longleftrightarrow> i < length s \<and> s ! i = c \<and> c \<notin> set (take i s)"
proof (induction s arbitrary: i)
  case Nil
  then show ?case by simp
next
  case (Cons x xs)
  show ?case by (cases i) (auto simp: Cons.IH)
qed

lemma trim_start_matches_hd: "\<not> starts_with (trim_start_matches c s) [c]"
  by (induction s) (auto simp: trim_start_matches_def)

lemma replace_char_notin: "a \<noteq> b \<Longrightarrow> a \<notin> set (replace_char a b s)"
  by (auto simp: replace_char_def)

lemma replace_char_id: "a \<notin> set s \<Longrightarrow> replace_char a b s = s"
  unfolding replace_char_def by (rule map_idI) auto

lemma length_replace_char [simp]: "length (replace_char a b s) = length s"
  by (simp add: replace_char_def)

section \<open>White space\<close>

text \<open>
  \<open>ws_len s\<close> is the number of bytes of the white space character (\<open>char::is_whitespace\<close>,
  the Unicode property) at the start of \<open>s\<close>, 0 when there is none. In valid UTF-8 these
  byte sequences occur at character boundaries only.
\<close>

fun ws_len_codes :: "nat list \<Rightarrow> nat" where
  "ws_len_codes (a # rest) =
     (if (9 \<le> a \<and> a \<le> 13) \<or> a = 32 then 1
      else case rest of
        [] \<Rightarrow> 0
      | b # rest' \<Rightarrow>
          if a = 194 \<and> (b = 133 \<or> b = 160) then 2
          else case rest' of
            [] \<Rightarrow> 0
          | c # _ \<Rightarrow>
              if (a = 225 \<and> b = 154 \<and> c = 128) \<or>
                 (a = 226 \<and> b = 128 \<and> ((128 \<le> c \<and> c \<le> 138) \<or> c = 168 \<or> c = 169 \<or> c = 175)) \<or>
                 (a = 226 \<and> b = 129 \<and> c = 159) \<or>
                 (a = 227 \<and> b = 128 \<and> c = 128)
              then 3 else 0)"
| "ws_len_codes [] = 0"

definition ws_len :: "string \<Rightarrow> nat" where
  "ws_len s = ws_len_codes (map code_of (take 3 s))"

fun has_whitespace :: "string \<Rightarrow> bool" where
  "has_whitespace [] \<longleftrightarrow> False"
| "has_whitespace (c # s) \<longleftrightarrow> ws_len (c # s) > 0 \<or> has_whitespace s"

text \<open>\<open>s.trim().is_empty()\<close>: nothing but white space.\<close>

function trims_to_empty :: "string \<Rightarrow> bool" where
  "trims_to_empty s \<longleftrightarrow>
     (if s = [] then True
      else if ws_len s = 0 then False
      else trims_to_empty (drop (ws_len s) s))"
  by pat_completeness auto
termination
  by (relation "measure length") auto

declare trims_to_empty.simps [simp del]

lemma trims_to_empty_Nil [simp]: "trims_to_empty []"
  by (simp add: trims_to_empty.simps)

lemma trims_to_empty_no_ws: "s \<noteq> [] \<Longrightarrow> ws_len s = 0 \<Longrightarrow> \<not> trims_to_empty s"
  by (simp add: trims_to_empty.simps)

section \<open>UTF-8\<close>

text \<open>
  The byte sequences \<open>str::from_utf8\<close> accepts: no overlong forms, no surrogates, nothing
  above U+10FFFF.
\<close>

definition utf8_cont :: "nat \<Rightarrow> bool" where
  "utf8_cont b \<longleftrightarrow> 128 \<le> b \<and> b \<le> 191"

fun utf8_codes :: "nat list \<Rightarrow> bool" where
  "utf8_codes [] \<longleftrightarrow> True"
| "utf8_codes (a # rest) \<longleftrightarrow>
     (if a < 128 then utf8_codes rest
      else case rest of
        [] \<Rightarrow> False
      | b # rest2 \<Rightarrow>
          if 194 \<le> a \<and> a \<le> 223 then utf8_cont b \<and> utf8_codes rest2
          else case rest2 of
            [] \<Rightarrow> False
          | c # rest3 \<Rightarrow>
              if 224 \<le> a \<and> a \<le> 239 then
                utf8_cont b \<and> (a = 224 \<longrightarrow> 160 \<le> b) \<and> (a = 237 \<longrightarrow> b \<le> 159) \<and>
                utf8_cont c \<and> utf8_codes rest3
              else case rest3 of
                [] \<Rightarrow> False
              | d # rest4 \<Rightarrow>
                  240 \<le> a \<and> a \<le> 244 \<and> utf8_cont b \<and> (a = 240 \<longrightarrow> 144 \<le> b) \<and>
                  (a = 244 \<longrightarrow> b \<le> 143) \<and> utf8_cont c \<and> utf8_cont d \<and> utf8_codes rest4)"

definition valid_utf8 :: "bytes \<Rightarrow> bool" where
  "valid_utf8 bs \<longleftrightarrow> utf8_codes (map code_of bs)"

section \<open>Decimal numbers\<close>

fun dec_of_nat :: "nat \<Rightarrow> string" where
  "dec_of_nat n =
     (if n < 10 then [char_of (48 + n)] else dec_of_nat (n div 10) @ [char_of (48 + n mod 10)])"

declare dec_of_nat.simps [simp del]

lemma dec_of_nat_not_Nil [simp]: "dec_of_nat n \<noteq> []"
  by (subst dec_of_nat.simps) simp

end
