(* ===== verification/System.thy ===== *)
theory System
  imports Rust_String "HOL-Library.Multiset"
begin

text \<open>
  The parts of Rust's standard library that the program runs on: paths (Unix rules), a file
  system whose calls can fail at any point, and environment variables. The file system is
  a map from normalised paths to nodes. The environment scripts the faults: every call
  takes the next entry of \<open>fs_faults\<close>, and a fault of a writing call may leave the first
  bytes on disk. \<open>fs_seen\<close> records every node map that became visible to other processes,
  in order, so that a statement over all its elements is a statement about every moment at
  which a consumer may look or the machine may stop.

  Not modelled: symbolic links, permissions, concurrent writers, and the removal of only a
  part of a directory tree by a failing \<open>remove_dir_all\<close>.
\<close>

section \<open>Paths\<close>

type_synonym path = string

definition path_is_absolute :: "path \<Rightarrow> bool" where
  "path_is_absolute p \<longleftrightarrow> starts_with p ''/''"

text \<open>\<open>Path::join\<close>: an absolute argument replaces the base.\<close>

definition path_join :: "path \<Rightarrow> path \<Rightarrow> path" where
  "path_join a b =
     (if path_is_absolute b then b
      else if a = [] \<or> last a = CHR ''/'' then a @ b
      else a @ CHR ''/'' # b)"

fun split_all :: "char \<Rightarrow> string \<Rightarrow> string list" where
  "split_all c [] = [[]]"
| "split_all c (x # xs) =
     (if x = c then [] # split_all c xs
      else case split_all c xs of [] \<Rightarrow> [[x]] | w # ws \<Rightarrow> (x # w) # ws)"

text \<open>
  The components of a path, with the marker \<open>''/''\<close> first when it is absolute. Two paths
  with the same components name the same file.
\<close>

type_synonym fkey = "string list"

definition names_of :: "path \<Rightarrow> string list" where
  "names_of p = filter (\<lambda>w. w \<noteq> [] \<and> w \<noteq> ''.'') (split_all (CHR ''/'') p)"

definition fs_key :: "path \<Rightarrow> fkey" where
  "fs_key p = (if path_is_absolute p then [''/''] else []) @ names_of p"

text \<open>\<open>Path::parent\<close>, on the reversed path: trailing separators and dots go first.\<close>

fun trim_sep_rev :: "string \<Rightarrow> string" where
  "trim_sep_rev (c # s) =
     (if c = CHR ''/'' then trim_sep_rev s
      else if c = CHR ''.'' \<and> s \<noteq> [] \<and> hd s = CHR ''/'' then trim_sep_rev s
      else c # s)"
| "trim_sep_rev [] = []"

definition path_parent :: "path \<Rightarrow> path option" where
  "path_parent p =
     (let t = trim_sep_rev (rev p) in
      if t = [] then None
      else let rest = dropWhile (\<lambda>c. c \<noteq> CHR ''/'') t in
        if rest = [] then Some []
        else let u = trim_sep_rev rest in
          if u = [] then Some ''/'' else Some (rev u))"

lemma split_all_not_Nil [simp]: "split_all c s \<noteq> []"
  by (induction s) (auto split: list.split)

lemma split_all_append_sep: "split_all c (a @ c # b) = split_all c a @ split_all c b"
proof (induction a)
  case Nil
  then show ?case by simp
next
  case (Cons x a)
  then show ?case
    by (cases "split_all c a") auto
qed

lemma split_all_no_sep: "c \<notin> set s \<Longrightarrow> split_all c s = [s]"
  by (induction s) auto

lemma split_all_no_sep_mem: "w \<in> set (split_all c s) \<Longrightarrow> c \<notin> set w"
proof (induction s arbitrary: w)
  case Nil
  then show ?case by simp
next
  case (Cons x s)
  then show ?case
    by (cases "split_all c s") (auto split: if_splits)
qed

lemma names_of_join_sep: "names_of (a @ CHR ''/'' # b) = names_of a @ names_of b"
  by (simp add: names_of_def split_all_append_sep)

lemma names_of_Nil [simp]: "names_of [] = []"
  by (simp add: names_of_def)

lemma names_of_no_sep:
  "CHR ''/'' \<notin> set s \<Longrightarrow> s \<noteq> [] \<Longrightarrow> s \<noteq> ''.'' \<Longrightarrow> names_of s = [s]"
  by (simp add: names_of_def split_all_no_sep)

lemma path_is_absolute_append:
  "a \<noteq> [] \<Longrightarrow> path_is_absolute (a @ b) = path_is_absolute a"
  by (cases a) (auto simp: path_is_absolute_def)

lemma names_of_ends_sep:
  assumes "a \<noteq> []" and "last a = CHR ''/''"
  shows "names_of (a @ b) = names_of a @ names_of b"
proof -
  obtain a' where a: "a = a' @ [CHR ''/'']"
    using assms by (metis append_butlast_last_id)
  have "names_of a = names_of a'"
    using names_of_join_sep [of a' "[]"] a by simp
  then show ?thesis
    using names_of_join_sep [of a' b] a by simp
qed

lemma fs_key_join:
  assumes "\<not> path_is_absolute b"
  shows "fs_key (path_join a b) = fs_key a @ names_of b"
proof -
  consider "a = []" | "a \<noteq> []" "last a = CHR ''/''" | "a \<noteq> []" "last a \<noteq> CHR ''/''"
    by blast
  then show ?thesis
  proof cases
    case 1
    with assms show ?thesis
      by (simp add: path_join_def fs_key_def path_is_absolute_def)
  next
    case 2
    with assms show ?thesis
      by (simp add: path_join_def fs_key_def path_is_absolute_append names_of_ends_sep)
  next
    case 3
    with assms show ?thesis
      by (simp add: path_join_def fs_key_def path_is_absolute_append names_of_join_sep)
  qed
qed

lemma path_join_not_Nil: "b \<noteq> [] \<Longrightarrow> path_join a b \<noteq> []"
  by (simp add: path_join_def)

lemma fs_key_absolute_join: "path_is_absolute b \<Longrightarrow> path_join a b = b"
  by (simp add: path_join_def)

text \<open>A name that is one ordinary component.\<close>

definition plain_name :: "string \<Rightarrow> bool" where
  "plain_name s \<longleftrightarrow> s \<noteq> [] \<and> s \<noteq> ''.'' \<and> CHR ''/'' \<notin> set s"

lemma plain_name_names_of: "plain_name s \<Longrightarrow> names_of s = [s]"
  by (simp add: plain_name_def names_of_no_sep)

lemma plain_name_relative: "plain_name s \<Longrightarrow> \<not> path_is_absolute s"
  by (cases s) (auto simp: plain_name_def path_is_absolute_def)

lemma fs_key_join_plain: "plain_name s \<Longrightarrow> fs_key (path_join a s) = fs_key a @ [s]"
  by (simp add: fs_key_join plain_name_relative plain_name_names_of)

section \<open>Errors and nodes\<close>

datatype io_error_kind =
    NotFound | AlreadyExists | InvalidInput | InvalidData | IsADirectory | NotADirectory
  | DirectoryNotEmpty | Interrupted | OtherKind
  | OutOfFuel \<comment> \<open>the recursion bound of the model, not an error of the program\<close>

datatype io_error = IoError io_error_kind message

definition io_error_kind_of :: "io_error \<Rightarrow> io_error_kind" where
  "io_error_kind_of e = (case e of IoError k _ \<Rightarrow> k)"

text \<open>\<open>SpecialNode\<close> is what is neither a regular file nor a directory.\<close>

datatype fnode = FileNode bytes | DirNode | SpecialNode

type_synonym nodes = "fkey \<Rightarrow> fnode option"

text \<open>A fault of a call: its error, and for a writing call how much it wrote before it failed.\<close>

datatype io_fault = Fault io_error "nat option"

record fs =
  fs_nodes :: nodes
  fs_faults :: "io_fault option list"
  fs_seen :: "nodes list"
  fs_order :: "fkey \<Rightarrow> string list"

text \<open>The file system, the environment variables, and a world outside of it.\<close>

record 'w sys = fs +
  sy_env :: "string \<Rightarrow> string option"
  sy_world :: 'w

section \<open>File-system calls\<close>

text \<open>
  A call is given as a function of the directory listing order, the nodes and the fault of
  this call; it returns its result and the node maps that become visible one after the
  other, the last one being the state it leaves (none when it changes nothing).
\<close>

type_synonym 'a syscall =
  "(fkey \<Rightarrow> string list) \<Rightarrow> nodes \<Rightarrow> io_fault option \<Rightarrow> (io_error + 'a) \<times> nodes list"

definition fs_call :: "'a syscall \<Rightarrow> ('x fs_scheme, io_error, 'a) io" where
  "fs_call g = (\<lambda>s.
     let f = (case fs_faults s of [] \<Rightarrow> None | f # _ \<Rightarrow> f);
         (r, ms) = g (fs_order s) (fs_nodes s) f
     in (r, s\<lparr>fs_faults := tl (fs_faults s), fs_nodes := last (fs_nodes s # ms),
              fs_seen := fs_seen s @ ms\<rparr>))"

definition look :: "path \<Rightarrow> nodes \<Rightarrow> fnode option" where
  "look p m = (if p = [] then None else m (fs_key p))"

definition under :: "fkey \<Rightarrow> fkey \<Rightarrow> bool" where
  "under k k' \<longleftrightarrow> take (length k) k' = k"

definition parent_is_dir :: "fkey \<Rightarrow> nodes \<Rightarrow> bool" where
  "parent_is_dir k m \<longleftrightarrow> k \<noteq> [] \<and> m (butlast k) = Some DirNode"

definition dir_entries :: "(fkey \<Rightarrow> string list) \<Rightarrow> fkey \<Rightarrow> nodes \<Rightarrow> string list" where
  "dir_entries ord k m = filter (\<lambda>n. plain_name n \<and> n \<noteq> ''..'' \<and> m (k @ [n]) \<noteq> None) (ord k)"

definition io_err :: "io_error_kind \<Rightarrow> io_error + 'a" where
  "io_err k = Inl (IoError k [])"

definition call_read :: "path \<Rightarrow> bytes syscall" where
  "call_read p ord m f =
     (case f of
        Some (Fault e _) \<Rightarrow> (Inl e, [])
      | None \<Rightarrow>
          (case look p m of
             Some (FileNode bs) \<Rightarrow> (Inr bs, [])
           | Some _ \<Rightarrow> (io_err IsADirectory, [])
           | None \<Rightarrow> (io_err NotFound, [])))"

definition call_metadata :: "path \<Rightarrow> fnode syscall" where
  "call_metadata p ord m f =
     (case f of
        Some (Fault e _) \<Rightarrow> (Inl e, [])
      | None \<Rightarrow> (case look p m of Some n \<Rightarrow> (Inr n, []) | None \<Rightarrow> (io_err NotFound, [])))"

definition call_exists :: "path \<Rightarrow> bool syscall" where
  "call_exists p ord m f = (Inr (f = None \<and> look p m \<noteq> None), [])"

definition is_file_node :: "fnode option \<Rightarrow> bool" where
  "is_file_node n = (case n of Some (FileNode _) \<Rightarrow> True | _ \<Rightarrow> False)"

definition call_is_file :: "path \<Rightarrow> bool syscall" where
  "call_is_file p ord m f = (Inr (f = None \<and> is_file_node (look p m)), [])"

definition call_is_dir :: "path \<Rightarrow> bool syscall" where
  "call_is_dir p ord m f = (Inr (f = None \<and> look p m = Some DirNode), [])"

definition call_read_dir :: "path \<Rightarrow> string list syscall" where
  "call_read_dir p ord m f =
     (case f of
        Some (Fault e _) \<Rightarrow> (Inl e, [])
      | None \<Rightarrow>
          (case look p m of
             Some DirNode \<Rightarrow> (Inr (dir_entries ord (fs_key p) m), [])
           | Some _ \<Rightarrow> (io_err NotADirectory, [])
           | None \<Rightarrow> (io_err NotFound, [])))"

text \<open>
  \<open>fs::write\<close>: create or truncate, then write. Every prefix of the content is visible on
  the way.
\<close>

definition written :: "fkey \<Rightarrow> bytes \<Rightarrow> nat \<Rightarrow> nodes \<Rightarrow> nodes list" where
  "written k bs n m = map (\<lambda>i. m(k \<mapsto> FileNode (take i bs))) [0..<Suc n]"

definition call_write :: "path \<Rightarrow> bytes \<Rightarrow> unit syscall" where
  "call_write p bs ord m f =
     (let k = fs_key p in
      if p = [] \<or> \<not> parent_is_dir k m then (io_err NotFound, [])
      else if m k = Some DirNode then (io_err IsADirectory, [])
      else if m k = Some SpecialNode then (io_err OtherKind, [])
      else case f of
        Some (Fault e None) \<Rightarrow> (Inl e, [])
      | Some (Fault e (Some n)) \<Rightarrow> (Inl e, written k bs (min n (length bs)) m)
      | None \<Rightarrow> (Inr (), written k bs (length bs) m))"

definition call_remove_file :: "path \<Rightarrow> unit syscall" where
  "call_remove_file p ord m f =
     (case f of
        Some (Fault e _) \<Rightarrow> (Inl e, [])
      | None \<Rightarrow>
          (case look p m of
             None \<Rightarrow> (io_err NotFound, [])
           | Some DirNode \<Rightarrow> (io_err IsADirectory, [])
           | Some _ \<Rightarrow> (Inr (), [m(fs_key p := None)])))"

definition call_remove_dir_all :: "path \<Rightarrow> unit syscall" where
  "call_remove_dir_all p ord m f =
     (case f of
        Some (Fault e _) \<Rightarrow> (Inl e, [])
      | None \<Rightarrow>
          (case look p m of
             None \<Rightarrow> (io_err NotFound, [])
           | Some DirNode \<Rightarrow> (Inr (), [\<lambda>k. if under (fs_key p) k then None else m k])
           | Some _ \<Rightarrow> (io_err NotADirectory, [])))"

text \<open>\<open>fs::create_dir_all\<close> makes the missing directories from the root downwards.\<close>

definition prefixes_of :: "fkey \<Rightarrow> fkey list" where
  "prefixes_of k = map (\<lambda>i. take i k) [1..<Suc (length k)]"

fun make_dirs :: "fkey list \<Rightarrow> nodes \<Rightarrow> nodes list" where
  "make_dirs [] m = []"
| "make_dirs (k # ks) m = (let m' = m(k \<mapsto> DirNode) in m' # make_dirs ks m')"

definition call_create_dir_all :: "path \<Rightarrow> unit syscall" where
  "call_create_dir_all p ord m f =
     (let ks = prefixes_of (fs_key p);
          new = filter (\<lambda>k. m k = None) ks
      in if p = [] then (Inr (), [])
         else if list_ex (\<lambda>k. m k \<noteq> None \<and> m k \<noteq> Some DirNode) ks
         then (io_err NotADirectory, [])
         else case f of
           Some (Fault e None) \<Rightarrow> (Inl e, [])
         | Some (Fault e (Some n)) \<Rightarrow> (Inl e, make_dirs (take n new) m)
         | None \<Rightarrow> (Inr (), make_dirs new m))"

text \<open>\<open>rename(2)\<close>: one visible step, or no change.\<close>

definition moved :: "fkey \<Rightarrow> fkey \<Rightarrow> nodes \<Rightarrow> nodes" where
  "moved ka kb m = (\<lambda>k.
     if under kb k then m (ka @ drop (length kb) k)
     else if under ka k then None
     else m k)"

definition call_rename :: "path \<Rightarrow> path \<Rightarrow> unit syscall" where
  "call_rename a b ord m f =
     (let ka = fs_key a; kb = fs_key b in
      case f of
        Some (Fault e _) \<Rightarrow> (Inl e, [])
      | None \<Rightarrow>
          (if b = [] \<or> look a m = None \<or> \<not> parent_is_dir kb m then (io_err NotFound, [])
           else if ka = kb then (Inr (), [])
           else if look a m = Some DirNode then
             (if under ka kb then (io_err InvalidInput, [])
              else if look b m \<noteq> None \<and> look b m \<noteq> Some DirNode then (io_err NotADirectory, [])
              else if look b m = Some DirNode \<and> dir_entries ord kb m \<noteq> []
              then (io_err DirectoryNotEmpty, [])
              else (Inr (), [moved ka kb m]))
           else
             (if look b m = Some DirNode then (io_err IsADirectory, [])
              else (Inr (), [m(ka := None, kb := look a m)]))))"

definition fs_read :: "path \<Rightarrow> ('x fs_scheme, io_error, bytes) io" where
  "fs_read p = fs_call (call_read p)"

text \<open>\<open>fs::read_to_string\<close> refuses what is not UTF-8.\<close>

definition fs_read_to_string :: "path \<Rightarrow> ('x fs_scheme, io_error, string) io" where
  "fs_read_to_string p = io_bind (fs_read p) (\<lambda>bs.
     if valid_utf8 bs then io_return bs
     else io_fail (IoError InvalidData [Txt ''stream did not contain valid UTF-8'']))"

definition fs_metadata :: "path \<Rightarrow> ('x fs_scheme, io_error, fnode) io" where
  "fs_metadata p = fs_call (call_metadata p)"

text \<open>\<open>File::open\<close> for reading; the content is read later, by \<open>fs_read\<close>.\<close>

definition fs_open :: "path \<Rightarrow> ('x fs_scheme, io_error, unit) io" where
  "fs_open p = io_bind (fs_metadata p) (\<lambda>_. io_return ())"

definition fs_read_dir :: "path \<Rightarrow> ('x fs_scheme, io_error, string list) io" where
  "fs_read_dir p = fs_call (call_read_dir p)"

definition fs_write :: "path \<Rightarrow> bytes \<Rightarrow> ('x fs_scheme, io_error, unit) io" where
  "fs_write p bs = fs_call (call_write p bs)"

definition fs_remove_file :: "path \<Rightarrow> ('x fs_scheme, io_error, unit) io" where
  "fs_remove_file p = fs_call (call_remove_file p)"

definition fs_remove_dir_all :: "path \<Rightarrow> ('x fs_scheme, io_error, unit) io" where
  "fs_remove_dir_all p = fs_call (call_remove_dir_all p)"

definition fs_create_dir_all :: "path \<Rightarrow> ('x fs_scheme, io_error, unit) io" where
  "fs_create_dir_all p = fs_call (call_create_dir_all p)"

definition fs_rename :: "path \<Rightarrow> path \<Rightarrow> ('x fs_scheme, io_error, unit) io" where
  "fs_rename a b = fs_call (call_rename a b)"

text \<open>\<open>exists\<close>, \<open>is_file\<close> and \<open>is_dir\<close> answer \<open>false\<close> when the call fails.\<close>

definition fs_query :: "bool syscall \<Rightarrow> ('x fs_scheme, 'e, bool) io" where
  "fs_query g = (\<lambda>s. case fs_call g s of (Inl _, t) \<Rightarrow> (Inr False, t) | (Inr b, t) \<Rightarrow> (Inr b, t))"

definition fs_exists :: "path \<Rightarrow> ('x fs_scheme, 'e, bool) io" where
  "fs_exists p = fs_query (call_exists p)"

definition fs_is_file :: "path \<Rightarrow> ('x fs_scheme, 'e, bool) io" where
  "fs_is_file p = fs_query (call_is_file p)"

definition fs_is_dir :: "path \<Rightarrow> ('x fs_scheme, 'e, bool) io" where
  "fs_is_dir p = fs_query (call_is_dir p)"

lemmas call_defs = call_read_def call_metadata_def call_exists_def call_is_file_def
  call_is_dir_def call_read_dir_def call_write_def call_remove_file_def
  call_remove_dir_all_def call_create_dir_all_def call_rename_def io_err_def

lemmas fs_op_defs = fs_read_def fs_metadata_def fs_read_dir_def fs_write_def
  fs_remove_file_def fs_remove_dir_all_def fs_create_dir_all_def fs_rename_def
  fs_exists_def fs_is_file_def fs_is_dir_def

section \<open>Reasoning about calls\<close>

text \<open>
  Statements about the file system are triples over the current nodes and the visible
  history: \<open>disk P J\<close> says that \<open>P\<close> holds of the nodes now and \<open>J\<close> of every node map seen
  so far.
\<close>

definition disk :: "(nodes \<Rightarrow> bool) \<Rightarrow> (nodes \<Rightarrow> bool) \<Rightarrow> 'x fs_scheme \<Rightarrow> bool" where
  "disk P J s \<longleftrightarrow> P (fs_nodes s) \<and> (\<forall>m \<in> set (fs_seen s). J m)"

lemma disk_mono: "disk P J s \<Longrightarrow> (\<And>m. P m \<Longrightarrow> P' m) \<Longrightarrow> disk P' J s"
  by (auto simp: disk_def)

lemma triple_fs_call:
  assumes "\<And>ord m f r ms. P m \<Longrightarrow> g ord m f = (r, ms) \<Longrightarrow>
      (\<forall>m' \<in> set ms. J m') \<and>
      (case r of Inr x \<Rightarrow> Q x (last (m # ms)) | Inl e \<Rightarrow> E e (last (m # ms)))"
  shows "triple (disk P J) (fs_call g :: ('x fs_scheme, io_error, 'a) io)
    (\<lambda>x. disk (Q x) J) (\<lambda>e. disk (E e) J)"
proof -
  have "case fs_call g s of (Inr x, t) \<Rightarrow> disk (Q x) J t | (Inl e, t) \<Rightarrow> disk (E e) J t"
    if "disk P J s" for s :: "'x fs_scheme"
  proof -
    define f where "f = (case fs_faults s of [] \<Rightarrow> None | f # _ \<Rightarrow> f)"
    obtain r ms where g: "g (fs_order s) (fs_nodes s) f = (r, ms)"
      by (cases "g (fs_order s) (fs_nodes s) f")
    from that have "P (fs_nodes s)" and seen: "\<forall>m \<in> set (fs_seen s). J m"
      by (simp_all add: disk_def)
    from assms [OF this(1) g] seen show ?thesis
      by (cases r) (auto simp: fs_call_def f_def [symmetric] g disk_def)
  qed
  then show ?thesis by (simp add: triple_def)
qed

lemma triple_fs_query:
  assumes "triple P (fs_call g :: ('x fs_scheme, io_error, bool) io) Q (\<lambda>_. Q False)"
  shows "triple P (fs_query g) Q E"
proof (rule tripleI)
  fix s x t
  assume "P s" and "fs_query g s = (Inr x, t)"
  then show "Q x t"
    by (auto simp: fs_query_def split: prod.splits sum.splits
        intro: triple_InrD [OF assms] triple_InlD [OF assms])
qed (auto simp: fs_query_def split: prod.splits sum.splits)

text \<open>
  Calls that write nothing. They leave the nodes and the history alone; without a fault
  they leave the whole state alone.
\<close>

definition reads :: "'a syscall \<Rightarrow> bool" where
  "reads g \<longleftrightarrow> (\<forall>ord m f. snd (g ord m f) = [])"

definition still :: "nodes \<Rightarrow> nodes list \<Rightarrow> 'x fs_scheme \<Rightarrow> bool" where
  "still m h s \<longleftrightarrow> fs_nodes s = m \<and> fs_seen s = h"

lemma reads_calls [simp]:
  "reads (call_read p)" "reads (call_metadata p)" "reads (call_exists p)"
  "reads (call_is_file p)" "reads (call_is_dir p)" "reads (call_read_dir p)"
  by (auto simp: reads_def call_defs split: option.split io_fault.split fnode.split)

lemma triple_fs_call_reads:
  assumes "reads g"
  shows "triple (still m h) (fs_call g :: ('x fs_scheme, io_error, 'a) io)
    (\<lambda>x s. still m h s \<and> (\<exists>ord f. fst (g ord m f) = Inr x)) (\<lambda>_. still m h)"
proof (rule tripleI)
  fix s t :: "'x fs_scheme" and x
  define f where "f = (case fs_faults s of [] \<Rightarrow> None | f # _ \<Rightarrow> f)"
  have snd_g: "snd (g (fs_order s) m f) = []"
    using assms by (simp add: reads_def)
  assume "still m h s" and "fs_call g s = (Inr x, t)"
  then show "still m h t \<and> (\<exists>ord f. fst (g ord m f) = Inr x)"
    using snd_g by (cases "g (fs_order s) m f")
      (auto simp: fs_call_def f_def [symmetric] still_def, metis fst_conv)
next
  fix s t :: "'x fs_scheme" and e
  define f where "f = (case fs_faults s of [] \<Rightarrow> None | f # _ \<Rightarrow> f)"
  have snd_g: "snd (g (fs_order s) m f) = []"
    using assms by (simp add: reads_def)
  assume "still m h s" and "fs_call g s = (Inl e, t)"
  then show "still m h t"
    using snd_g by (cases "g (fs_order s) m f")
      (auto simp: fs_call_def f_def [symmetric] still_def)
qed

definition next_fault :: "'x fs_scheme \<Rightarrow> io_fault option" where
  "next_fault s = (case fs_faults s of [] \<Rightarrow> None | f # _ \<Rightarrow> f)"

lemma fs_call_reads:
  assumes "reads g"
  shows "fs_call g s =
    (fst (g (fs_order s) (fs_nodes s) (next_fault s)), s\<lparr>fs_faults := tl (fs_faults s)\<rparr>)"
proof -
  have "snd (g (fs_order s) (fs_nodes s) (next_fault s)) = []"
    using assms by (simp add: reads_def)
  then show ?thesis
    by (cases "g (fs_order s) (fs_nodes s) (next_fault s)")
      (simp add: fs_call_def next_fault_def [symmetric])
qed

lemma fs_call_no_fault:
  assumes "reads g" and "fs_faults s = []"
  shows "fs_call g s = (fst (g (fs_order s) (fs_nodes s) None), s)"
proof -
  have "snd (g (fs_order s) (fs_nodes s) None) = []"
    using assms(1) by (simp add: reads_def)
  then show ?thesis
    using assms(2) by (cases "g (fs_order s) (fs_nodes s) None") (simp add: fs_call_def)
qed

lemma fs_query_no_fault:
  assumes "reads g" and "fs_faults s = []"
    and "fst (g (fs_order s) (fs_nodes s) None) = Inr b"
  shows "fs_query g s = (Inr b, s)"
  using assms by (simp add: fs_query_def fs_call_no_fault)

lemma triple_metadata_still:
  "triple (still m h) (fs_metadata p) (\<lambda>n s. still m h s \<and> look p m = Some n) (\<lambda>_. still m h)"
  unfolding fs_metadata_def
  by (rule triple_conseq [OF triple_fs_call_reads])
    (auto simp: call_defs split: option.splits io_fault.splits, (metis io_fault.exhaust)+)

lemma triple_exists_still:
  "triple (still m h) (fs_exists p)
     (\<lambda>b s. still m h s \<and> (b \<longrightarrow> look p m \<noteq> None)) (\<lambda>_. still m h)"
  unfolding fs_exists_def
  by (rule triple_fs_query, rule triple_conseq [OF triple_fs_call_reads])
    (auto simp: call_defs)

lemma triple_read_still:
  "triple (still m h) (fs_read p)
     (\<lambda>bs s. still m h s \<and> look p m = Some (FileNode bs)) (\<lambda>_. still m h)"
  unfolding fs_read_def
  by (rule triple_conseq [OF triple_fs_call_reads])
    (auto simp: call_defs split: option.splits io_fault.splits fnode.splits,
      (metis io_fault.exhaust)+)

lemma metadata_no_fault:
  "fs_faults s = [] \<Longrightarrow>
   fs_metadata p s = ((case look p (fs_nodes s) of
      Some n \<Rightarrow> Inr n | None \<Rightarrow> Inl (IoError NotFound [])), s)"
  by (simp add: fs_metadata_def fs_call_no_fault) (simp add: call_defs split: option.split)

lemma exists_no_fault:
  "fs_faults s = [] \<Longrightarrow> fs_exists p s = (Inr (look p (fs_nodes s) \<noteq> None), s)"
  unfolding fs_exists_def by (rule fs_query_no_fault) (simp_all add: call_defs)

lemma read_no_fault:
  "fs_faults s = [] \<Longrightarrow> look p (fs_nodes s) = Some (FileNode bs) \<Longrightarrow> fs_read p s = (Inr bs, s)"
  by (simp add: fs_read_def fs_call_no_fault call_defs)

section \<open>The order of directory listings\<close>

text \<open>
  Two states of the same disk that may list directories in different orders. Code that
  is \<open>order_free\<close> does not depend on the listing order.
\<close>

definition same_disk :: "'x fs_scheme \<Rightarrow> 'x fs_scheme \<Rightarrow> bool" where
  "same_disk s t \<longleftrightarrow>
     fs_nodes s = fs_nodes t \<and> fs_faults s = fs_faults t \<and> fs_seen s = fs_seen t \<and>
     (\<forall>k. mset (fs_order s k) = mset (fs_order t k))"

definition order_free :: "('x fs_scheme, 'e, 'a) io \<Rightarrow> bool" where
  "order_free m \<longleftrightarrow>
     (\<forall>s t. same_disk s t \<longrightarrow> fst (m s) = fst (m t) \<and> same_disk (snd (m s)) (snd (m t)))"

lemma order_free_simps [simp]:
  "order_free (io_return x)" "order_free (io_fail e)" "order_free (io_lift r)"
  by (simp_all add: order_free_def io_apply_simps)

lemma order_free_bind [intro]:
  fixes m :: "('x fs_scheme, 'e, 'a) io"
  assumes "order_free m" and "\<And>x. order_free (f x)"
  shows "order_free (io_bind m f)"
  unfolding order_free_def
proof (intro allI impI)
  fix s t :: "'x fs_scheme"
  assume "same_disk s t"
  with assms(1) have m: "fst (m s) = fst (m t)" "same_disk (snd (m s)) (snd (m t))"
    by (auto simp: order_free_def)
  show "fst (io_bind m f s) = fst (io_bind m f t) \<and>
      same_disk (snd (io_bind m f s)) (snd (io_bind m f t))"
    using m assms(2)
    by (cases "m s"; cases "m t"; cases "fst (m s)") (auto simp: io_bind_def order_free_def)
qed

lemma order_free_try [intro]: "order_free m \<Longrightarrow> order_free (io_try m)"
  by (auto simp: order_free_def io_try_def split: prod.split) (metis fst_conv, metis snd_conv)

lemma order_free_fold [intro]: "(\<And>x b. order_free (f x b)) \<Longrightarrow> order_free (io_fold f xs b)"
  by (induction xs arbitrary: b) auto

lemma order_free_fs_call:
  fixes g :: "'a syscall"
  assumes "\<And>ord ord' m f. (\<forall>k. mset (ord k) = mset (ord' k)) \<Longrightarrow> g ord m f = g ord' m f"
  shows "order_free (fs_call g :: ('x fs_scheme, io_error, 'a) io)"
  unfolding order_free_def
proof (intro allI impI)
  fix s t :: "'x fs_scheme"
  assume st: "same_disk s t"
  define f where "f = (case fs_faults s of [] \<Rightarrow> None | f # _ \<Rightarrow> f)"
  have "g (fs_order s) (fs_nodes s) f = g (fs_order t) (fs_nodes s) f"
    using st by (intro assms) (simp add: same_disk_def)
  with st show "fst (fs_call g s) = fst (fs_call g t) \<and>
      same_disk (snd (fs_call g s)) (snd (fs_call g t))"
    by (cases "g (fs_order t) (fs_nodes s) f")
      (auto simp: fs_call_def same_disk_def f_def)
qed

lemma order_free_reads [simp]: "order_free (fs_metadata p)" "order_free (fs_read p)" "order_free (fs_open p)"
  by (auto simp: fs_metadata_def fs_read_def fs_open_def call_defs intro!: order_free_fs_call)

lemma mset_dir_entries:
  "(\<forall>k. mset (ord k) = mset (ord' k)) \<Longrightarrow> mset (dir_entries ord k m) = mset (dir_entries ord' k m)"
  by (simp add: dir_entries_def)

lemma sort_mset_cong: "mset xs = mset ys \<Longrightarrow> sort xs = sort (ys :: string list)"
  by (metis mset_sort properties_for_sort sorted_sort)

text \<open>A listing that is sorted before it is used.\<close>

lemma order_free_sorted_read_dir:
  fixes f :: "string list \<Rightarrow> ('x fs_scheme, io_error, 'a) io"
  assumes "\<And>names. order_free (f names)"
  shows "order_free (io_bind (fs_read_dir p) (\<lambda>names. f (sort names)))"
  unfolding order_free_def
proof (intro allI impI)
  fix s t :: "'x fs_scheme"
  assume st: "same_disk s t"
  have ms: "mset (dir_entries (fs_order s) k m) = mset (dir_entries (fs_order t) k m)" for k m
    using st by (intro mset_dir_entries) (simp add: same_disk_def)
  have same: "next_fault t = next_fault s" "fs_nodes t = fs_nodes s" "fs_faults t = fs_faults s"
    using st by (simp_all add: same_disk_def next_fault_def)
  let ?u = "s\<lparr>fs_faults := tl (fs_faults s)\<rparr>" and ?v = "t\<lparr>fs_faults := tl (fs_faults s)\<rparr>"
  have uv: "same_disk ?u ?v" using st by (simp add: same_disk_def)
  have run: "fs_read_dir p s = (fst (call_read_dir p (fs_order s) (fs_nodes s) (next_fault s)), ?u)"
    "fs_read_dir p t = (fst (call_read_dir p (fs_order t) (fs_nodes s) (next_fault s)), ?v)"
    by (simp_all add: fs_read_dir_def fs_call_reads same)
  consider (err) e where "fs_read_dir p s = (Inl e, ?u)" "fs_read_dir p t = (Inl e, ?v)"
    | (ok) xs ys where "fs_read_dir p s = (Inr xs, ?u)" "fs_read_dir p t = (Inr ys, ?v)"
        "mset xs = mset ys"
  proof (cases "\<exists>e. next_fault s = Some e \<or> look p (fs_nodes s) \<noteq> Some DirNode")
    case True
    then have "fst (call_read_dir p (fs_order s) (fs_nodes s) (next_fault s)) =
        fst (call_read_dir p (fs_order t) (fs_nodes s) (next_fault s)) \<and>
        \<not> is_ok (fst (call_read_dir p (fs_order s) (fs_nodes s) (next_fault s)))"
      by (auto simp: call_read_dir_def io_err_def split: option.split io_fault.split fnode.split)
    with run err show ?thesis
      by (metis (no_types) is_ok_iff sum.exhaust)
  next
    case False
    with run ok ms show ?thesis by (simp add: call_read_dir_def)
  qed
  then show "fst (io_bind (fs_read_dir p) (\<lambda>names. f (sort names)) s) =
      fst (io_bind (fs_read_dir p) (\<lambda>names. f (sort names)) t) \<and>
      same_disk (snd (io_bind (fs_read_dir p) (\<lambda>names. f (sort names)) s))
        (snd (io_bind (fs_read_dir p) (\<lambda>names. f (sort names)) t))"
  proof cases
    case err
    with uv show ?thesis by (simp add: io_bind_def)
  next
    case ok
    then have "sort xs = sort ys" by (intro sort_mset_cong)
    with ok uv assms show ?thesis by (simp add: io_bind_def order_free_def)
  qed
qed

end
