(* ===== verification/Http_Client.thy ===== *)
theory Http_Client
  imports System
begin

text \<open>
  What the program uses of \<open>reqwest\<close> and of the process: requests and answers as values, the
  blocking client as a parameter, the loop over the attempts, and the log of the exchanges.
  The state adds the process id, the readings of the clock, the sleeps and the exchanges to
  the system; the log is what statements about the order of requests speak of.
\<close>

section \<open>State\<close>

datatype http_method = MHead | MGet | MPost | MPut

text \<open>
  Header names are in lower case. A body that streams from a file fails with the error of the
  read. The body of an answer may end in an error.
\<close>

record http_request =
  rq_method :: http_method
  rq_url :: string
  rq_headers :: "(string \<times> string) list"
  rq_body :: "io_error + bytes"

record http_response =
  rs_status :: nat
  rs_headers :: "(string \<times> bytes) list"
  rs_body :: bytes
  rs_body_error :: "string option"

type_synonym exchange = "http_request \<times> (string + http_response)"

record 'w pub = "'w sys" +
  pb_pid :: nat
  pb_nanos :: "nat list"
  pb_slept :: "nat list"
  pb_sent :: "exchange list"

text \<open>
  The client: building one with a timeout in seconds, sending (a timeout, a bad URL or a
  broken connection is the text of the error), \<open>HeaderValue::from_str\<close> and \<open>to_str\<close>.
\<close>

record 'w http_lib =
  hl_build :: "nat \<Rightarrow> string + unit"
  hl_send :: "http_request \<Rightarrow> 'w \<Rightarrow> (string + http_response) \<times> 'w"
  hl_header_value :: "string \<Rightarrow> string + string"
  hl_header_text :: "bytes \<Rightarrow> string + string"

definition env_var :: "string \<Rightarrow> (('w, 'x) sys_scheme, 'e, string option) io" where
  "env_var v = io_get (\<lambda>s. sy_env s v)"

definition http_send ::
  "'w http_lib \<Rightarrow> http_request \<Rightarrow> (('w, 'x) pub_scheme, 'e, string + http_response) io" where
  "http_send hl req = (\<lambda>s.
     case hl_send hl req (sy_world s) of
       (r, w) \<Rightarrow> (Inr r, s\<lparr>sy_world := w, pb_sent := pb_sent s @ [(req, r)]\<rparr>))"

definition sleep_millis :: "nat \<Rightarrow> (('w, 'x) pub_scheme, 'e, unit) io" where
  "sleep_millis n = io_modify (\<lambda>s. s\<lparr>pb_slept := pb_slept s @ [n]\<rparr>)"

text \<open>\<open>StatusCode\<close>.\<close>

definition is_server_error :: "nat \<Rightarrow> bool" where
  "is_server_error n \<longleftrightarrow> 500 \<le> n \<and> n < 600"

definition is_success :: "nat \<Rightarrow> bool" where
  "is_success n \<longleftrightarrow> 200 \<le> n \<and> n < 300"

text \<open>\<open>read\<close> into a buffer of \<open>n\<close> bytes: the bytes read, and the rest of the answer.\<close>

definition body_read :: "nat \<Rightarrow> http_response \<Rightarrow> (string + bytes) \<times> http_response" where
  "body_read n r =
     (if rs_body r = [] then
        (case rs_body_error r of Some e \<Rightarrow> (Inl e, r) | None \<Rightarrow> (Inr [], r))
      else (Inr (take n (rs_body r)), r\<lparr>rs_body := drop n (rs_body r)\<rparr>))"

text \<open>\<open>Response::bytes\<close>.\<close>

definition body_bytes :: "http_response \<Rightarrow> string + bytes" where
  "body_bytes r = (case rs_body_error r of Some e \<Rightarrow> Inl e | None \<Rightarrow> Inr (rs_body r))"

text \<open>The loop that fills a buffer of \<open>cap\<close> bytes and stops at the end or at an error.\<close>

function read_capped :: "nat \<Rightarrow> bytes \<Rightarrow> http_response \<Rightarrow> bytes" where
  "read_capped cap got r =
     (if cap \<le> length got then got
      else case body_read (cap - length got) r of
        (Inr [], _) \<Rightarrow> got
      | (Inr (c # cs), r') \<Rightarrow> read_capped cap (got @ c # cs) r'
      | (Inl _, _) \<Rightarrow> got)"
  by pat_completeness auto
termination
  by (relation "measure (\<lambda>(cap, got, r). cap - length got)") auto

declare read_capped.simps [simp del]

lemma read_capped_take: "read_capped cap [] r = take cap (rs_body r)"
proof (cases "cap = 0 \<or> rs_body r = []")
  case True
  then show ?thesis
    by (auto simp: read_capped.simps [of cap "[]"] body_read_def split: option.split)
next
  case False
  then obtain c cs where take: "take cap (rs_body r) = c # cs"
    by (metis neq_Nil_conv take_eq_Nil)
  let ?r = "r\<lparr>rs_body := drop cap (rs_body r)\<rparr>"
  have "read_capped cap [] r = read_capped cap (take cap (rs_body r)) ?r"
    using False by (subst read_capped.simps) (simp add: body_read_def take)
  also have "\<dots> = take cap (rs_body r)"
  proof (cases "cap \<le> length (rs_body r)")
    case True
    then show ?thesis by (subst read_capped.simps) simp
  next
    case short: False
    then have "body_read n ?r = (case rs_body_error r of Some e \<Rightarrow> (Inl e, ?r) | None \<Rightarrow> (Inr [], ?r))" for n
      by (simp add: body_read_def split: option.split)
    then have "read_capped cap (take cap (rs_body r)) ?r = take cap (rs_body r)"
      by (subst read_capped.simps) (simp split: option.split del: take_all drop_all)
    then show ?thesis .
  qed
  finally show ?thesis .
qed

section \<open>Attempts\<close>

text \<open>
  \<open>for attempt in ...\<close>: the body either goes on with a loop state (\<open>continue\<close>) or returns.
  A loop that runs out of attempts ends with its state.
\<close>

fun for_attempts ::
  "nat list \<Rightarrow> (nat \<Rightarrow> 'l \<Rightarrow> ('s, 'e, 'l + 'a) io) \<Rightarrow> 'l \<Rightarrow> ('s, 'e, 'l + 'a) io" where
  "for_attempts [] body l = io_return (Inl l)"
| "for_attempts (a # as) body l =
     io_bind (body a l) (\<lambda>r. case r of
       Inl l' \<Rightarrow> for_attempts as body l'
     | Inr x \<Rightarrow> io_return (Inr x))"

text \<open>
  The delay after an attempt, on \<open>u64\<close>: \<open>checked_shl\<close> has a value when the shift is below
  64, \<open>saturating_mul\<close> stops at the largest value.
\<close>

definition u64_max :: nat where
  "u64_max = 2 ^ 64 - 1"

definition checked_shl_one :: "nat \<Rightarrow> nat option" where
  "checked_shl_one n = (if n < 64 then Some (2 ^ n) else None)"

definition backoff_millis :: "nat \<Rightarrow> nat \<Rightarrow> nat" where
  "backoff_millis cap attempt =
     (let shift = min attempt 8;
          factor = (case checked_shl_one shift of Some f \<Rightarrow> f | None \<Rightarrow> u64_max)
      in min (min (200 * factor) u64_max) cap)"

lemma backoff_millis_cap: "backoff_millis cap a \<le> cap"
  by (simp add: backoff_millis_def Let_def)

lemma backoff_millis_simps:
  "backoff_millis 800 0 = 200" "backoff_millis 800 1 = 400" "backoff_millis 800 (Suc 0) = 400"
  "backoff_millis 800 2 = 800" "2 \<le> a \<Longrightarrow> backoff_millis 800 a = 800"
proof -
  show "backoff_millis 800 0 = 200" "backoff_millis 800 1 = 400" "backoff_millis 800 (Suc 0) = 400"
    "backoff_millis 800 2 = 800"
    by (simp_all add: backoff_millis_def checked_shl_one_def u64_max_def)
  assume "2 \<le> a"
  then have "(4 :: nat) \<le> 2 ^ min a 8"
    using power_increasing [of 2 "min a 8" "2 :: nat"] by simp
  then show "backoff_millis 800 a = 800"
    by (auto simp: backoff_millis_def Let_def checked_shl_one_def u64_max_def)
qed

section \<open>Conversations\<close>

text \<open>
  \<open>talks s t xs ms\<close>: from \<open>s\<close> to \<open>t\<close> the exchanges \<open>xs\<close> took place, the process slept
  \<open>ms\<close>, and no file, variable or process id changed.
\<close>

definition talks ::
  "('w, 'x) pub_scheme \<Rightarrow> ('w, 'x) pub_scheme \<Rightarrow> exchange list \<Rightarrow> nat list \<Rightarrow> bool" where
  "talks s t xs ms \<longleftrightarrow>
     pb_sent t = pb_sent s @ xs \<and> pb_slept t = pb_slept s @ ms \<and>
     fs_nodes t = fs_nodes s \<and> fs_seen t = fs_seen s \<and> sy_env t = sy_env s"

lemma talks_refl: "talks s s [] []"
  by (simp add: talks_def)

lemma talks_trans: "talks s t xs ms \<Longrightarrow> talks t u ys ns \<Longrightarrow> talks s u (xs @ ys) (ms @ ns)"
  by (simp add: talks_def)

text \<open>
  \<open>sends m R c\<close>: on the nodes \<open>m\<close> every run of \<open>c\<close> is a conversation that, with the
  result, satisfies \<open>R\<close>.
\<close>

definition sends ::
  "nodes \<Rightarrow> (exchange list \<Rightarrow> nat list \<Rightarrow> 'e + 'a \<Rightarrow> bool) \<Rightarrow>
   (('w, 'x) pub_scheme, 'e, 'a) io \<Rightarrow> bool" where
  "sends m R c \<longleftrightarrow>
     (\<forall>s r t. fs_nodes s = m \<longrightarrow> c s = (r, t) \<longrightarrow> (\<exists>xs ms. talks s t xs ms \<and> R xs ms r))"

lemma sendsD:
  assumes "sends m R c" and "fs_nodes s = m" and "c s = (r, t)"
  obtains xs ms where "talks s t xs ms" "R xs ms r"
  using assms unfolding sends_def by blast

lemma sends_conseq: "sends m R c \<Longrightarrow> (\<And>xs ms r. R xs ms r \<Longrightarrow> R' xs ms r) \<Longrightarrow> sends m R' c"
  unfolding sends_def by blast

lemma sends_return: "R [] [] (Inr x) \<Longrightarrow> sends m R (io_return x)"
  unfolding sends_def io_return_def using talks_refl by blast

lemma sends_fail: "R [] [] (Inl e) \<Longrightarrow> sends m R (io_fail e)"
  unfolding sends_def io_fail_def using talks_refl by blast

lemma sends_lift: "R [] [] r \<Longrightarrow> sends m R (io_lift r)"
  unfolding sends_def io_lift_def using talks_refl by blast

lemma sends_bind:
  assumes "sends m R c"
    and "\<And>xs ms e. R xs ms (Inl e) \<Longrightarrow> Q xs ms (Inl e)"
    and "\<And>xs ms x. R xs ms (Inr x) \<Longrightarrow> sends m (\<lambda>ys ns r. Q (xs @ ys) (ms @ ns) r) (f x)"
  shows "sends m Q (io_bind c f)"
  unfolding sends_def
proof (intro allI impI)
  fix s r t
  assume s: "fs_nodes s = m" and run: "io_bind c f s = (r, t)"
  obtain q u where u: "c s = (q, u)" by (cases "c s")
  obtain xs ms where t1: "talks s u xs ms" "R xs ms q"
    by (rule sendsD [OF assms(1) s u])
  show "\<exists>xs ms. talks s t xs ms \<and> Q xs ms r"
  proof (cases q)
    case (Inl e)
    with run u have "r = Inl e" "t = u" by (simp_all add: io_bind_def)
    with t1 Inl assms(2) show ?thesis by blast
  next
    case (Inr x)
    with run u have f: "f x u = (r, t)" by (simp add: io_bind_def)
    have "fs_nodes u = m" using t1(1) s by (simp add: talks_def)
    with assms(3) [OF t1(2) [unfolded Inr]] f obtain ys ns where
      "talks u t ys ns" "Q (xs @ ys) (ms @ ns) r"
      using sendsD by blast
    with talks_trans [OF t1(1)] show ?thesis by blast
  qed
qed

lemma sends_send:
  assumes "\<And>r. R [(req, r)] [] (Inr r)"
  shows "sends m R (http_send hl req)"
  unfolding sends_def http_send_def
  by (auto split: prod.splits simp: talks_def intro!: exI [of _ "[]"] assms)

lemma sends_sleep: "R [] [n] (Inr ()) \<Longrightarrow> sends m R (sleep_millis n)"
  unfolding sends_def sleep_millis_def
  by (intro allI impI exI [of _ "[]"] exI [of _ "[n]"]) (auto simp: io_apply_simps talks_def)

lemma sends_reads:
  assumes "reads g" and "\<And>ord f. R [] [] (fst (g ord m f))"
  shows "sends m R (fs_call g)"
  unfolding sends_def fs_call_reads [OF assms(1)]
  by (auto simp: talks_def intro!: exI [of _ "[]"] assms(2))

lemma sends_map_err:
  "sends m (\<lambda>xs ms r. R xs ms (map_err g r)) c \<Longrightarrow> sends m R (io_map_err g c)"
  unfolding sends_def io_map_err_def by (fastforce split: prod.splits)

lemma sends_try: "sends m (\<lambda>xs ms r. R xs ms (Inr r)) c \<Longrightarrow> sends m R (io_try c)"
  unfolding sends_def io_try_def by (fastforce split: prod.splits)

lemma sends_if: "(b \<Longrightarrow> sends m R c) \<Longrightarrow> (\<not> b \<Longrightarrow> sends m R d) \<Longrightarrow> sends m R (if b then c else d)"
  by simp

lemma sends_env: "(\<And>v. R [] [] (Inr v)) \<Longrightarrow> sends m R (env_var n)"
  unfolding sends_def env_var_def io_get_def using talks_refl by blast

text \<open>The shapes of code that occur: a request and what is done with its answer, a silent step.\<close>

lemma sends_send_bind:
  "(\<And>r. sends m (\<lambda>ys. Q ((req, r) # ys)) (f r)) \<Longrightarrow> sends m Q (io_bind (http_send hl req) f)"
  by (rule sends_bind [OF sends_send [where R = "\<lambda>xs ms r. \<exists>q. r = Inr q \<and> xs = [(req, q)] \<and> ms = []"]]) auto

definition silent :: "nodes \<Rightarrow> ('e + 'a \<Rightarrow> bool) \<Rightarrow> (('w, 'x) pub_scheme, 'e, 'a) io \<Rightarrow> bool" where
  "silent m R c \<longleftrightarrow> sends m (\<lambda>xs ms r. xs = [] \<and> ms = [] \<and> R r) c"

lemma sends_silent_bind:
  assumes "silent m R c" and "\<And>e. R (Inl e) \<Longrightarrow> Q [] [] (Inl e)"
    and "\<And>x. R (Inr x) \<Longrightarrow> sends m Q (f x)"
  shows "sends m Q (io_bind c f)"
  by (rule sends_bind [OF assms(1) [unfolded silent_def]]) (use assms(2,3) in auto)

lemma sends_lift_bind:
  "(\<And>e. r = Inl e \<Longrightarrow> Q [] [] (Inl e)) \<Longrightarrow> (\<And>x. r = Inr x \<Longrightarrow> sends m Q (f x)) \<Longrightarrow>
   sends m Q (io_bind (io_lift r) f)"
  by (cases r) (auto intro: sends_fail)

lemma silent_reads: "reads g \<Longrightarrow> (\<And>ord f. R (fst (g ord m f))) \<Longrightarrow> silent m R (fs_call g)"
  unfolding silent_def by (rule sends_reads) auto

lemma silent_map_err: "silent m (\<lambda>r. R (map_err g r)) c \<Longrightarrow> silent m R (io_map_err g c)"
  unfolding silent_def by (rule sends_map_err)

lemma silent_try: "silent m (\<lambda>r. R (Inr r)) c \<Longrightarrow> silent m R (io_try c)"
  unfolding silent_def by (rule sends_try)

lemma silent_bind:
  assumes "silent m R c" and "\<And>e. R (Inl e) \<Longrightarrow> Q (Inl e)" and "\<And>x. R (Inr x) \<Longrightarrow> silent m Q (f x)"
  shows "silent m Q (io_bind c f)"
  unfolding silent_def
  by (rule sends_silent_bind [OF assms(1)]) (use assms(2,3) in \<open>auto simp: silent_def\<close>)

lemma silent_return: "R (Inr x) \<Longrightarrow> silent m R (io_return x)"
  unfolding silent_def by (rule sends_return) simp

lemma silent_fail: "R (Inl e) \<Longrightarrow> silent m R (io_fail e)"
  unfolding silent_def by (rule sends_fail) simp

lemma silent_lift: "R r \<Longrightarrow> silent m R (io_lift r)"
  unfolding silent_def by (rule sends_lift) simp

lemma silent_env: "(\<And>v. R (Inr v)) \<Longrightarrow> silent m R (env_var n)"
  unfolding silent_def by (rule sends_env) simp

lemma silent_if: "(b \<Longrightarrow> silent m R c) \<Longrightarrow> (\<not> b \<Longrightarrow> silent m R d) \<Longrightarrow> silent m R (if b then c else d)"
  by simp

lemma silent_conseq: "silent m R c \<Longrightarrow> (\<And>r. R r \<Longrightarrow> R' r) \<Longrightarrow> silent m R' c"
  unfolding silent_def by (erule sends_conseq) blast

lemma sends_of_silent: "silent m (R [] []) c \<Longrightarrow> sends m R c"
  unfolding silent_def by (erule sends_conseq) blast

lemma silent_read:
  "silent m (\<lambda>r. \<forall>b. r = Inr b \<longrightarrow> look p m = Some (FileNode b)) (fs_read p)"
  unfolding fs_read_def
  by (rule silent_reads)
    (auto simp: call_read_def io_err_def split: option.splits io_fault.splits fnode.splits)

lemma silent_metadata: "silent m (\<lambda>r. \<forall>n. r = Inr n \<longrightarrow> look p m = Some n) (fs_metadata p)"
  unfolding fs_metadata_def
  by (rule silent_reads) (auto simp: call_metadata_def io_err_def split: option.splits io_fault.splits)

lemma silent_open: "silent m (\<lambda>_. True) (fs_open p)"
  unfolding fs_open_def by (rule silent_bind [OF silent_metadata]) (auto intro: silent_return)

text \<open>A loop whose every step is a conversation: the conversations follow each other.\<close>

lemma sends_fold:
  assumes "\<And>ys x zs b. xs = ys @ x # zs \<Longrightarrow>
      sends m (\<lambda>es ns r. (\<forall>b'. r = Inr b' \<longrightarrow> S x b es ns b') \<and> (\<forall>e. r = Inl e \<longrightarrow> F x b es ns e)) (f x b)"
    and "\<And>b. I [] b [] [] b"
    and "\<And>ys x zs a b es ns b' fs ks. xs = ys @ x # zs \<Longrightarrow> I ys a es ns b \<Longrightarrow> S x b fs ks b' \<Longrightarrow>
      I (ys @ [x]) a (es @ fs) (ns @ ks) b'"
    and "\<And>ys x zs a b es ns e fs ks. xs = ys @ x # zs \<Longrightarrow> I ys a es ns b \<Longrightarrow> F x b fs ks e \<Longrightarrow>
      G a (es @ fs) (ns @ ks) e"
  shows "sends m (\<lambda>es ns r. (\<forall>b'. r = Inr b' \<longrightarrow> I xs b es ns b') \<and> (\<forall>e. r = Inl e \<longrightarrow> G b es ns e))
    (io_fold f xs b)"
proof -
  have "sends m (\<lambda>fs ks r. (\<forall>b'. r = Inr b' \<longrightarrow> I xs a (es @ fs) (ns @ ks) b') \<and>
      (\<forall>e. r = Inl e \<longrightarrow> G a (es @ fs) (ns @ ks) e)) (io_fold f zs b)"
    if "xs = ys @ zs" "I ys a es ns b" for ys zs a b es ns
    using that
  proof (induction zs arbitrary: ys b es ns)
    case Nil
    then show ?case by (auto intro: sends_return)
  next
    case (Cons z zs)
    show ?case
      unfolding io_fold.simps
    proof (rule sends_bind [OF assms(1) [OF Cons.prems(1)]])
      fix fs ks and b' :: 'b
      assume "(\<forall>c. Inr b' = (Inr c :: 'c + 'b) \<longrightarrow> S z b fs ks c) \<and>
        (\<forall>e. Inr b' = (Inl e :: 'c + 'b) \<longrightarrow> F z b fs ks e)"
      then have "I (ys @ [z]) a (es @ fs) (ns @ ks) b'"
        using assms(3) [OF Cons.prems] by simp
      from Cons.IH [OF _ this] Cons.prems(1)
      show "sends m (\<lambda>gs js r.
          (\<forall>b'. r = Inr b' \<longrightarrow> I xs a (es @ fs @ gs) (ns @ ks @ js) b') \<and>
          (\<forall>e. r = Inl e \<longrightarrow> G a (es @ fs @ gs) (ns @ ks @ js) e)) (io_fold f zs b')"
        by simp
    qed (use assms(4) [OF Cons.prems] in auto)
  qed
  from this [of "[]" xs b "[]" "[]" b] assms(2) show ?thesis by simp
qed

section \<open>The contract of a loop over attempts\<close>

text \<open>What the delays from an attempt on can sum up to.\<close>

definition delay_left :: "nat \<Rightarrow> nat" where
  "delay_left a = (if a = 0 then 1400 else if a = 1 then 1200 else if a = 2 then 800 else 0)"

lemma delay_left_step:
  assumes "a < 3"
  shows "delay_left a = backoff_millis 800 a + delay_left (Suc a)"
proof -
  from assms consider "a = 0" | "a = 1" | "a = 2" by linarith
  then show ?thesis by cases (simp_all add: delay_left_def backoff_millis_simps(1-4))
qed

text \<open>
  One turn of the loop sends at most one request, an allowed one. It goes on only
  after the delay of its attempt, and in the last attempt only with a final state; it returns
  only what the answer to its request justifies, and fails only with a refusal.
\<close>

locale attempt_loop =
  fixes m :: nodes
    and body :: "nat \<Rightarrow> 'l \<Rightarrow> (('w, 'x) pub_scheme, 'e, 'l + 'a) io"
    and allowed :: "http_request \<Rightarrow> bool"
    and answer :: "http_request \<Rightarrow> http_response \<Rightarrow> 'a \<Rightarrow> bool"
    and final :: "'l \<Rightarrow> bool"
    and refusal :: "'e \<Rightarrow> bool"
  assumes turn: "a \<le> 3 \<Longrightarrow> sends m (\<lambda>xs ms r.
      length xs \<le> 1 \<and> (\<forall>x \<in> set xs. allowed (fst x)) \<and>
      (\<forall>e. r = Inl e \<longrightarrow> ms = [] \<and> refusal e) \<and>
      (\<forall>l'. r = Inr (Inl l') \<longrightarrow>
         ms = (if a < 3 then [backoff_millis 800 a] else []) \<and> (a = 3 \<longrightarrow> final l')) \<and>
      (\<forall>v. r = Inr (Inr v) \<longrightarrow>
         ms = [] \<and> (\<exists>q resp. xs = [(q, Inr resp)] \<and> answer q resp v))) (body a l)"
begin

definition outcome :: "exchange list \<Rightarrow> 'e + 'l + 'a \<Rightarrow> bool" where
  "outcome xs r \<longleftrightarrow> (\<forall>x \<in> set xs. allowed (fst x)) \<and> (\<forall>e. r = Inl e \<longrightarrow> refusal e) \<and>
     (\<forall>l'. r = Inr (Inl l') \<longrightarrow> final l') \<and>
     (\<forall>v. r = Inr (Inr v) \<longrightarrow> (\<exists>ys q resp. xs = ys @ [(q, Inr resp)] \<and> answer q resp v))"

lemma outcome_append: "\<forall>x \<in> set xs. allowed (fst x) \<Longrightarrow> outcome ys r \<Longrightarrow> outcome (xs @ ys) r"
  unfolding outcome_def by auto

lemma loop_from:
  assumes "a \<le> 3"
  shows "sends m (\<lambda>xs ms r. length xs \<le> 4 - a \<and> sum_list ms \<le> delay_left a \<and> outcome xs r)
    (for_attempts [a..<4] body l)"
  using assms
proof (induction "3 - a" arbitrary: a l)
  case 0
  then have a: "a = 3" "[3..<4] = [3 :: nat]" by (simp_all add: upt_rec)
  show ?case
    unfolding a for_attempts.simps
    by (rule sends_bind [OF turn]) (auto simp: outcome_def split: sum.splits intro!: sends_return)
next
  case (Suc n)
  then have split: "[a..<4] = a # [Suc a..<4]" and a: "a < 3" by (simp_all add: upt_rec)
  have IH: "sends m (\<lambda>xs ms r. length xs \<le> 4 - Suc a \<and> sum_list ms \<le> delay_left (Suc a) \<and> outcome xs r)
    (for_attempts [Suc a..<4] body l')" for l'
    using Suc.hyps(1) [of "Suc a" l'] Suc.hyps(2) a by simp
  show ?case
    unfolding split for_attempts.simps
  proof (rule sends_bind [OF turn])
    fix xs :: "exchange list" and ms and r :: "'l + 'a"
    assume turn: "length xs \<le> 1 \<and> (\<forall>x \<in> set xs. allowed (fst x)) \<and>
      (\<forall>e :: 'e. Inr r = Inl e \<longrightarrow> ms = [] \<and> refusal e) \<and>
      (\<forall>l'. Inr r = (Inr (Inl l') :: 'e + 'l + 'a) \<longrightarrow>
         ms = (if a < 3 then [backoff_millis 800 a] else []) \<and> (a = 3 \<longrightarrow> final l')) \<and>
      (\<forall>v. Inr r = (Inr (Inr v) :: 'e + 'l + 'a) \<longrightarrow>
         ms = [] \<and> (\<exists>q resp. xs = [(q, Inr resp)] \<and> answer q resp v))"
    show "sends m (\<lambda>ys ns r. length (xs @ ys) \<le> 4 - a \<and> sum_list (ms @ ns) \<le> delay_left a \<and>
          outcome (xs @ ys) r)
        (case r of Inl l' \<Rightarrow> for_attempts [Suc a..<4] body l' | Inr x \<Rightarrow> io_return (Inr x))"
    proof (cases r)
      case (Inr v)
      with turn a show ?thesis by (auto intro!: sends_return simp: outcome_def)
    next
      case (Inl l')
      with turn a have ms: "ms = [backoff_millis 800 a]" by simp
      show ?thesis
        unfolding Inl sum.case ms
        by (rule sends_conseq [OF IH])
          (use turn a delay_left_step [OF a] in \<open>auto intro: outcome_append\<close>)
    qed
  qed (use a in \<open>auto simp: outcome_def\<close>)
qed

text \<open>Four requests and 1.4 seconds of sleep at most.\<close>

lemma loop:
  "sends m (\<lambda>xs ms r. length xs \<le> 4 \<and> sum_list ms \<le> 1400 \<and> (\<forall>x \<in> set xs. allowed (fst x)) \<and>
      (\<forall>e. r = Inl e \<longrightarrow> refusal e) \<and> (\<forall>l'. r = Inr (Inl l') \<longrightarrow> final l') \<and>
      (\<forall>v. r = Inr (Inr v) \<longrightarrow> (\<exists>ys q resp. xs = ys @ [(q, Inr resp)] \<and> answer q resp v)))
    (for_attempts [0..<4] body l)"
  by (rule sends_conseq [OF loop_from [of 0]]) (auto simp: outcome_def delay_left_def)

end

end
