(* ===== verification/Publish_Types.thy ===== *)
theory Publish_Types
  imports System
begin

text \<open>
  \<open>api/error.rs\<close> and \<open>api/sink.rs\<close> of the crate \<open>publish\<close>, and the error type of
  \<open>api/image_dir.rs\<close>. A boxed \<open>dyn Error\<close> is a value of \<open>err_source\<close>, one constructor per
  kind of source the crate boxes; \<open>CasError\<close> belongs to the crate \<open>cas\<close> and is opaque.
\<close>

section \<open>Errors\<close>

datatype image_dir_error =
    MissingFile string path
  | MalformedJson string path message
  | UnsupportedLayoutVersion path string string
  | NoPrimaryManifest path
  | MultiplePrimaryManifests path nat
  | MissingBlob string message
  | UnsupportedManifestMediaType string string
  | InvalidDigestFormat string message
  | ImageDirIo path io_error

text \<open>The text of the I/O error is what the error carries.\<close>

definition io_error_text :: "io_error \<Rightarrow> message" where
  "io_error_text e = (case e of IoError _ m \<Rightarrow> m)"

definition em_dash :: string where
  "em_dash = map char_of [226 :: nat, 128, 148]"

definition display_image_dir_error :: "image_dir_error \<Rightarrow> message" where
  "display_image_dir_error e =
     (case e of
        MissingFile f p \<Rightarrow> [Txt f, Txt '' not found at '', Dbg p]
      | MalformedJson f p d \<Rightarrow> [Txt f, Txt '' at '', Dbg p, Txt '': malformed JSON: ''] @ d
      | UnsupportedLayoutVersion p found expected \<Rightarrow>
          [Txt ''oci-layout at '', Dbg p, Txt '' reports imageLayoutVersion '', Dbg found,
           Txt '', only '', Dbg expected, Txt '' is supported'']
      | NoPrimaryManifest p \<Rightarrow>
          [Txt ''index.json at '', Dbg p, Txt '' contains no primary artifact manifest '',
           Txt ''(every manifest has a `subject` '', Txt em_dash,
           Txt '' there'', Txt [CHR 0x27], Txt ''s no top-level artifact to publish)'']
      | MultiplePrimaryManifests p n \<Rightarrow>
          [Txt ''index.json at '', Dbg p, Txt '' contains '', Txt (dec_of_nat n),
           Txt '' primary-artifact manifests; '', Txt ''publish only supports a single primary'']
      | MissingBlob d c \<Rightarrow>
          [Txt ''blob '', Txt d, Txt '' referenced by ''] @ c @ [Txt '' is missing under blobs/sha256/'']
      | UnsupportedManifestMediaType d found \<Rightarrow>
          [Txt ''manifest '', Txt d, Txt '' has unsupported mediaType '', Dbg found]
      | InvalidDigestFormat d detail \<Rightarrow>
          [Txt ''descriptor '', Txt d, Txt '' has invalid digest format: ''] @ detail
      | ImageDirIo p src \<Rightarrow> [Txt ''i/o reading '', Dbg p, Txt '': ''] @ io_error_text src)"

typedecl cas_error

datatype err_source =
    SrcIo io_error
  | SrcHttp string
  | SrcText message
  | SrcLike message string
  | SrcHeader string

datatype publish_error =
    PublishIo io_error
  | BlobUpload string err_source
  | ManifestUpload err_source
  | RegistryRefused nat message
  | Auth err_source
  | Cas cas_error
  | MalformedImageDir message
  | Destination path io_error
  | PublishPanic string \<comment> \<open>a panic, not an error value of the program\<close>

definition publish_error_of :: "image_dir_error \<Rightarrow> publish_error" where
  "publish_error_of e = MalformedImageDir (display_image_dir_error e)"

section \<open>Bounded previews of a response\<close>

definition max_registry_body_preview :: nat where
  "max_registry_body_preview = 4 * 1024"

text \<open>
  \<open>String::from_utf8_lossy\<close>: the length of the next character, or of the longest part of one
  that is to be replaced by U+FFFD.
\<close>

fun utf8_step :: "nat list \<Rightarrow> bool \<times> nat" where
  "utf8_step [] = (True, 0)"
| "utf8_step (a # rest) =
     (if a < 128 then (True, 1)
      else if 194 \<le> a \<and> a \<le> 244 then
        (case rest of
           [] \<Rightarrow> (False, 1)
         | b # rest2 \<Rightarrow>
             if \<not> utf8_cont b \<or> (a = 224 \<and> b < 160) \<or> (a = 237 \<and> 159 < b) \<or>
                (a = 240 \<and> b < 144) \<or> (a = 244 \<and> 143 < b) then (False, 1)
             else if a \<le> 223 then (True, 2)
             else (case rest2 of
                [] \<Rightarrow> (False, 2)
              | c # rest3 \<Rightarrow>
                  if \<not> utf8_cont c then (False, 2)
                  else if a \<le> 239 then (True, 3)
                  else (case rest3 of
                     [] \<Rightarrow> (False, 3)
                   | d # _ \<Rightarrow> if utf8_cont d then (True, 4) else (False, 3))))
      else (False, 1))"

definition replacement_char :: string where
  "replacement_char = map char_of [239 :: nat, 191, 189]"

function utf8_lossy :: "bytes \<Rightarrow> string" where
  "utf8_lossy bs =
     (if bs = [] then []
      else case utf8_step (map code_of bs) of
        (ok, n) \<Rightarrow> (if ok then take n bs else replacement_char) @ utf8_lossy (drop (max n 1) bs))"
  by pat_completeness auto
termination
  by (relation "measure length") auto

declare utf8_lossy.simps [simp del]

definition preview_body :: "bytes \<Rightarrow> string" where
  "preview_body raw = utf8_lossy (take (min (length raw) max_registry_body_preview) raw)"

text \<open>A replaced byte becomes three, so the preview is bounded by three times the cap.\<close>

lemma utf8_step_pos: "utf8_step (a # rest) = (ok, n) \<Longrightarrow> 0 < n"
  by (auto split: if_splits list.splits)

lemma length_utf8_lossy: "length (utf8_lossy bs) \<le> 3 * length bs"
proof (induction bs rule: utf8_lossy.induct)
  case (1 bs)
  show ?case
  proof (cases bs)
    case Nil
    then show ?thesis by (simp add: utf8_lossy.simps)
  next
    case (Cons c cs)
    obtain ok n where st: "utf8_step (map code_of bs) = (ok, n)" by fastforce
    with Cons have n: "0 < n" using utf8_step_pos [of "code_of c" "map code_of cs"] by simp
    have rest: "length (utf8_lossy (drop (max n 1) bs)) \<le> 3 * length (drop (max n 1) bs)"
      using "1.IH" [OF _ st [symmetric]] Cons by simp
    have eq: "utf8_lossy bs =
        (if ok then take n bs else replacement_char) @ utf8_lossy (drop (max n 1) bs)"
      using Cons st by (subst utf8_lossy.simps) simp
    from rest n Cons show ?thesis
      unfolding eq by (auto simp: replacement_char_def min_def)
  qed
qed

lemma length_preview_body: "length (preview_body raw) \<le> 3 * max_registry_body_preview"
  unfolding preview_body_def by (rule order_trans [OF length_utf8_lossy]) simp

section \<open>Sinks and outcomes\<close>

datatype registry_auth =
    Basic string string
  | Bearer string
  | FromEnv

datatype publish_sink =
    HttpSink path
  | RegistrySink string string string "registry_auth option"

record publish_outcome =
  digests_pushed :: "string list"
  digests_skipped :: "string list"
  bytes_uploaded :: nat

definition empty_outcome :: publish_outcome where
  "empty_outcome = \<lparr>digests_pushed = [], digests_skipped = [], bytes_uploaded = 0\<rparr>"

definition add_skipped :: "string \<Rightarrow> publish_outcome \<Rightarrow> publish_outcome" where
  "add_skipped d out = out\<lparr>digests_skipped := digests_skipped out @ [d]\<rparr>"

definition add_pushed :: "string \<Rightarrow> nat \<Rightarrow> publish_outcome \<Rightarrow> publish_outcome" where
  "add_pushed d n out =
     out\<lparr>digests_pushed := digests_pushed out @ [d],
         bytes_uploaded := bytes_uploaded out + n\<rparr>"

lemma outcome_simps [simp]:
  "digests_pushed empty_outcome = []" "digests_skipped empty_outcome = []"
  "bytes_uploaded empty_outcome = 0"
  "digests_pushed (add_skipped d out) = digests_pushed out"
  "digests_skipped (add_skipped d out) = digests_skipped out @ [d]"
  "bytes_uploaded (add_skipped d out) = bytes_uploaded out"
  "digests_pushed (add_pushed d n out) = digests_pushed out @ [d]"
  "digests_skipped (add_pushed d n out) = digests_skipped out"
  "bytes_uploaded (add_pushed d n out) = bytes_uploaded out + n"
  by (simp_all add: empty_outcome_def add_skipped_def add_pushed_def)

definition env_registry_token :: string where
  "env_registry_token = ''REGISTRY_TOKEN''"

definition env_registry_username :: string where
  "env_registry_username = ''REGISTRY_USERNAME''"

definition env_registry_password :: string where
  "env_registry_password = ''REGISTRY_PASSWORD''"

end
