(* ===== verification/Base64.thy ===== *)
theory Base64
  imports Rust_String "HOL-Library.Word"
begin

text \<open>
  The Base64 encoder the program carries for HTTP Basic authentication
  (\<open>base64_encode\<close> in \<open>core/registry_sink.rs\<close> of the crate \<open>publish\<close>; the other copies of it
  are in the theories of their files), with a reference decoder and the round trip.
\<close>

unbundle bit_operations_syntax

section \<open>The encoder\<close>

definition base64_alphabet :: string where
  "base64_alphabet = ''ABCDEFGHIJKLMNOPQRSTUVWXYZabcdefghijklmnopqrstuvwxyz0123456789+/''"

text \<open>\<open>slice::chunks(3)\<close>.\<close>

fun chunks3 :: "'a list \<Rightarrow> 'a list list" where
  "chunks3 (a # b # c # rest) = [a, b, c] # chunks3 rest"
| "chunks3 [] = []"
| "chunks3 rest = [rest]"

definition base64_triple :: "char \<Rightarrow> char \<Rightarrow> char \<Rightarrow> 32 word" where
  "base64_triple b0 b1 b2 =
     push_bit 16 (of_char b0) OR push_bit 8 (of_char b1) OR of_char b2"

definition base64_digit :: "32 word \<Rightarrow> nat \<Rightarrow> char" where
  "base64_digit w shift = base64_alphabet ! unat (drop_bit shift w AND 0x3F)"

definition base64_chunk :: "bytes \<Rightarrow> string" where
  "base64_chunk chunk =
     (let b0 = chunk ! 0;
          b1 = if length chunk > 1 then chunk ! 1 else CHR 0x00;
          b2 = if length chunk > 2 then chunk ! 2 else CHR 0x00;
          w = base64_triple b0 b1 b2
      in [base64_digit w 18, base64_digit w 12,
          if length chunk > 1 then base64_digit w 6 else CHR ''='',
          if length chunk > 2 then base64_digit w 0 else CHR ''=''])"

definition base64_encode :: "bytes \<Rightarrow> string" where
  "base64_encode input = concat (map base64_chunk (chunks3 input))"

section \<open>A reference decoder\<close>

definition base64_value :: "char \<Rightarrow> nat option" where
  "base64_value c = find_char base64_alphabet c"

text \<open>Padded groups of four, the padding only in the last one.\<close>

fun base64_decode :: "string \<Rightarrow> bytes option" where
  "base64_decode [] = Some []"
| "base64_decode (a # b # c # d # rest) =
     (case (base64_value a, base64_value b) of
        (Some i, Some j) \<Rightarrow>
          (if c = CHR ''='' then
             (if d = CHR ''='' \<and> rest = [] then Some [char_of (i * 4 + j div 16)] else None)
           else case base64_value c of
             None \<Rightarrow> None
           | Some k \<Rightarrow>
               (if d = CHR ''='' then
                  (if rest = [] then
                     Some [char_of (i * 4 + j div 16), char_of (j mod 16 * 16 + k div 4)]
                   else None)
                else case (base64_value d, base64_decode rest) of
                  (Some l, Some bs) \<Rightarrow>
                    Some (char_of (i * 4 + j div 16) # char_of (j mod 16 * 16 + k div 4) #
                      char_of (k mod 4 * 64 + l) # bs)
                | _ \<Rightarrow> None))
      | _ \<Rightarrow> None)"
| "base64_decode _ = None"

section \<open>Arithmetic\<close>

lemma push_bit_disjoint:
  assumes "y < 2 ^ n"
  shows "push_bit n x OR (of_nat y :: 32 word) = push_bit n x + of_nat y"
proof (rule disjunctive_add [symmetric])
  fix i
  show "\<not> bit (push_bit n x) i \<or> \<not> bit (of_nat y :: 32 word) i"
  proof (cases "i < n")
    case False
    then have "y < 2 ^ i"
      using assms by (meson less_le_trans linorder_not_le one_le_numeral power_increasing)
    then have "\<not> bit y i" by (simp add: bit_nat_def)
    then show ?thesis by (simp add: bit_of_nat_iff)
  qed (simp add: bit_push_bit_iff)
qed

lemma unat_triple:
  "unat (base64_triple a b c) = (code_of a * 256 + code_of b) * 256 + code_of c"
proof -
  have lt: "code_of x < 256" for x by (simp add: code_of_def nat_of_char_less_256)
  have eq: "(of_char x :: 32 word) = of_nat (code_of x)" for x
    by (simp only: code_of_def of_nat_of_char)
  have 1: "push_bit 8 (of_nat (code_of b)) OR (of_nat (code_of c) :: 32 word) =
      of_nat (code_of b * 256 + code_of c)"
    using push_bit_disjoint [of "code_of c" 8 "of_nat (code_of b)"] lt [of c]
    by (simp add: push_bit_eq_mult)
  have 2: "push_bit 16 (of_nat (code_of a)) OR (of_nat (code_of b * 256 + code_of c) :: 32 word) =
      of_nat (code_of a * 65536 + (code_of b * 256 + code_of c))"
    using push_bit_disjoint [of "code_of b * 256 + code_of c" 16 "of_nat (code_of a)"] lt [of b] lt [of c]
    by (simp add: push_bit_eq_mult)
  have small: "code_of a * 65536 + (code_of b * 256 + code_of c) < 2 ^ 32"
    using lt [of a] lt [of b] lt [of c] by simp
  have "base64_triple a b c = of_nat (code_of a * 65536 + (code_of b * 256 + code_of c))"
    unfolding base64_triple_def eq 2 [symmetric] 1 [symmetric] by simp
  then have "unat (base64_triple a b c) = code_of a * 65536 + (code_of b * 256 + code_of c)"
    by (rule of_nat_inverse [OF sym]) (use small in simp)
  then show ?thesis by simp
qed

lemma unat_digit: "unat (drop_bit n (t :: 32 word) AND 0x3F) = unat t div 2 ^ n mod 64"
proof -
  have "drop_bit n t AND 0x3F = take_bit 6 (drop_bit n t)"
    by (simp add: take_bit_eq_mask mask_eq_exp_minus_1)
  then have "unat (drop_bit n t AND 0x3F) = take_bit 6 (unat (drop_bit n t))"
    by (simp only: unsigned_take_bit_eq)
  also have "\<dots> = unat t div 2 ^ n mod 2 ^ 6"
    by (subst take_bit_eq_mod, subst unat_drop_bit_eq, simp add: drop_bit_eq_div)
  finally show ?thesis by simp
qed

lemma base64_digit_value: "base64_value (base64_digit t n) = Some (unat t div 2 ^ n mod 64)"
proof -
  have all: "\<forall>i \<in> set [0..<64]. base64_value (base64_alphabet ! i) = Some i"
    by code_simp
  have "base64_digit t n = base64_alphabet ! (unat t div 2 ^ n mod 64)"
    by (simp only: base64_digit_def unat_digit)
  then show ?thesis using all by simp
qed

lemma base64_digit_not_pad: "base64_digit t n \<noteq> CHR ''=''"
proof
  assume "base64_digit t n = CHR ''=''"
  then have "base64_value (CHR ''='') = Some (unat t div 2 ^ n mod 64)"
    using base64_digit_value [of t n] by simp
  then show False by (simp add: base64_value_def base64_alphabet_def)
qed

text \<open>The bytes a group carries.\<close>

lemma mod_split:
  fixes x u :: nat
  assumes "u < k"
  shows "(x * k + u) mod (n * k) = x mod n * k + u"
proof (cases "n = 0")
  case False
  have "(x * k + u) = (x mod n * k + u) + (x div n) * (n * k)"
    by (metis (no_types, lifting) ab_semigroup_add_class.add_ac(1) add.commute distrib_right
        mod_div_mult_eq mult.assoc)
  moreover have "x mod n * k + u < n * k"
  proof -
    have "x mod n < n" using False by simp
    then have "Suc (x mod n) * k \<le> n * k" by (metis Suc_leI mult_le_mono1)
    then show ?thesis using assms by simp
  qed
  ultimately show ?thesis by (metis mod_less mod_mult_self1)
qed simp

lemma group_bytes:
  fixes x y z :: nat
  assumes "t = (x * 256 + y) * 256 + z" "x < 256" "y < 256" "z < 256"
  shows "t div 2 ^ 18 mod 64 * 4 + t div 2 ^ 12 mod 64 div 16 = x"
    "t div 2 ^ 12 mod 64 mod 16 * 16 + t div 2 ^ 6 mod 64 div 4 = y"
    "t div 2 ^ 6 mod 64 mod 4 * 64 + t div 2 ^ 0 mod 64 = z"
proof -
  have t: "t = z + ((x * 256 + y) * 4) * 64" using assms(1) by simp
  have q: "t div 2 ^ 18 = x div 4" "t div 2 ^ 12 = x * 16 + y div 16"
    using assms by simp_all
  have r: "t div 2 ^ 6 = (x * 256 + y) * 4 + z div 64" "t mod 64 = z mod 64"
    unfolding t by (simp, simp only: mod_mult_self1)
  have u: "y div 16 < 16" "z div 64 < 4"
    by (rule less_mult_imp_div_less, use assms in simp)+
  have d: "(x * 16 + y div 16) mod 64 = x mod 4 * 16 + y div 16"
    using mod_split [OF u(1), of x 4] by simp
  have e: "((x * 256 + y) * 4 + z div 64) mod 64 = (x * 256 + y) mod 16 * 4 + z div 64"
    using mod_split [OF u(2), of "x * 256 + y" 16] by simp
  have "x * 256 + y = y + (x * 16) * 16" by simp
  then have f: "(x * 256 + y) mod 16 = y mod 16" by (simp only: mod_mult_self1)
  show "t div 2 ^ 18 mod 64 * 4 + t div 2 ^ 12 mod 64 div 16 = x"
    unfolding q d using assms u by simp
  show "t div 2 ^ 12 mod 64 mod 16 * 16 + t div 2 ^ 6 mod 64 div 4 = y"
    unfolding q r d e f using assms u by simp
  show "t div 2 ^ 6 mod 64 mod 4 * 64 + t div 2 ^ 0 mod 64 = z"
    unfolding r e f using assms u r(2) by simp
qed

lemma char_of_code [simp]: "char_of (code_of c) = c"
  by (simp add: code_of_def)

lemma length_base64_chunk [simp]: "length (base64_chunk c) = 4"
  by (simp add: base64_chunk_def Let_def)

lemma code_lt: "code_of c < 256"
  by (simp add: code_of_def nat_of_char_less_256)

text \<open>One group of the decoder, by the values of its digits.\<close>

lemma decode_values:
  assumes "base64_value p = Some i" "base64_value q = Some j"
  shows "base64_decode [p, q, CHR ''='', CHR ''=''] = Some [char_of (i * 4 + j div 16)]"
    and "base64_value u = Some k \<Longrightarrow> u \<noteq> CHR ''='' \<Longrightarrow> base64_decode [p, q, u, CHR ''=''] =
      Some [char_of (i * 4 + j div 16), char_of (j mod 16 * 16 + k div 4)]"
    and "base64_value u = Some k \<Longrightarrow> u \<noteq> CHR ''='' \<Longrightarrow> base64_value v = Some l \<Longrightarrow> v \<noteq> CHR ''='' \<Longrightarrow>
      base64_decode (p # q # u # v # rest) = map_option (\<lambda>bs. char_of (i * 4 + j div 16) #
        char_of (j mod 16 * 16 + k div 4) # char_of (k mod 4 * 64 + l) # bs) (base64_decode rest)"
  using assms by (simp_all split: option.split)

lemma chunk_digits:
  "base64_chunk [a, b, c] = map (base64_digit (base64_triple a b c)) [18, 12, 6, 0]"
  "base64_chunk [a, b] = map (base64_digit (base64_triple a b (CHR 0x00))) [18, 12, 6] @ ''=''"
  "base64_chunk [a] = map (base64_digit (base64_triple a (CHR 0x00) (CHR 0x00))) [18, 12] @ ''==''"
  by (simp_all add: base64_chunk_def Let_def)

lemmas triple_bytes = group_bytes [OF unat_triple code_lt code_lt code_lt]

lemma decode_full:
  "base64_decode (base64_chunk [a, b, c] @ rest) = map_option (\<lambda>bs. a # b # c # bs) (base64_decode rest)"
  unfolding chunk_digits list.map append.simps
    decode_values(3) [OF base64_digit_value base64_digit_value base64_digit_value base64_digit_not_pad
      base64_digit_value base64_digit_not_pad]
  by (simp only: triple_bytes char_of_code)

lemma decode_two: "base64_decode (base64_chunk [a, b]) = Some [a, b]"
  unfolding chunk_digits list.map append.simps
    decode_values(2) [OF base64_digit_value base64_digit_value base64_digit_value base64_digit_not_pad]
  by (simp only: triple_bytes char_of_code)

lemma decode_one: "base64_decode (base64_chunk [a]) = Some [a]"
  unfolding chunk_digits list.map append.simps decode_values(1) [OF base64_digit_value base64_digit_value]
  by (simp only: triple_bytes char_of_code)

lemma decode_encode: "base64_decode (base64_encode input) = Some input"
  unfolding base64_encode_def
proof (induction input rule: chunks3.induct)
  case (1 a b c rest)
  then show ?case by (simp add: decode_full)
qed (simp_all add: decode_two decode_one)

lemma length_encode: "length (base64_encode input) = (length input + 2) div 3 * 4"
  unfolding base64_encode_def
proof (induction input rule: chunks3.induct)
  case (1 a b c rest)
  have "length (a # b # c # rest) + 2 = (length rest + 2) + 3" by simp
  then have "(length (a # b # c # rest) + 2) div 3 = (length rest + 2) div 3 + 1" by (simp only: div_add_self2)
  with 1 show ?case by (simp only: chunks3.simps list.map concat.simps length_append length_base64_chunk add_mult_distrib)
qed simp_all

lemma set_encode: "set (base64_encode input) \<subseteq> set base64_alphabet \<union> {CHR ''=''}"
proof -
  have "unat t div 2 ^ n mod 64 < length base64_alphabet" for t :: "32 word" and n
    by (simp add: base64_alphabet_def)
  then have "base64_digit t n \<in> set base64_alphabet" for t n
    by (simp add: base64_digit_def unat_digit)
  then have "set (base64_chunk c) \<subseteq> set base64_alphabet \<union> {CHR ''=''}" for c
    by (auto simp: base64_chunk_def Let_def)
  then show ?thesis by (auto simp: base64_encode_def)
qed

lemma encode_inject: "base64_encode a = base64_encode b \<longleftrightarrow> a = b"
  by (metis decode_encode option.inject)

end
