(* ===== verification/Hex.thy ===== *)
theory Hex
  imports Rust_String
begin

text \<open>Bytes as lowercase hexadecimal text, the form of every digest in the program.\<close>

definition hex_digit :: "nat \<Rightarrow> char" where
  "hex_digit n = (if n < 10 then char_of (48 + n) else char_of (87 + n))"

text \<open>\<open>{:02x}\<close>.\<close>

definition hex_byte :: "char \<Rightarrow> string" where
  "hex_byte c = [hex_digit (code_of c div 16), hex_digit (code_of c mod 16)]"

definition hex_of_bytes :: "bytes \<Rightarrow> string" where
  "hex_of_bytes bs = concat (map hex_byte bs)"

lemma hex_digit_lower: "n < 16 \<Longrightarrow> is_lower_hex (hex_digit n)"
  by (auto simp: hex_digit_def ascii_defs code_of_def)

lemma hex_of_bytes_lower: "list_all is_lower_hex (hex_of_bytes bs)"
proof -
  have "code_of c div 16 < 16" for c
    by (rule less_mult_imp_div_less) (simp add: code_of_def nat_of_char_less_256)
  then show ?thesis
    by (auto simp: hex_of_bytes_def hex_byte_def list_all_iff intro: hex_digit_lower)
qed

lemma length_hex_of_bytes [simp]: "length (hex_of_bytes bs) = 2 * length bs"
  by (induction bs) (simp_all add: hex_of_bytes_def hex_byte_def)

text \<open>On the bits of a character, for evaluation.\<close>

definition nibble_digit :: "bool \<Rightarrow> bool \<Rightarrow> bool \<Rightarrow> bool \<Rightarrow> char" where
  "nibble_digit b0 b1 b2 b3 =
     (if b3 \<and> (b1 \<or> b2) then Char (\<not> b0) (b0 = b1) (b2 \<and> (b0 \<or> b1)) False False True True False
      else Char b0 b1 b2 b3 True True False False)"

lemma hex_digit_nibble:
  "hex_digit (of_bool b0 + 2 * (of_bool b1 + 2 * (of_bool b2 + 2 * of_bool b3))) = nibble_digit b0 b1 b2 b3"
  by (cases b0; cases b1; cases b2; cases b3)
    (simp_all add: nibble_digit_def hex_digit_def char_of_def bit_simps)

lemma hex_byte_bits [code]:
  "hex_byte (Char b0 b1 b2 b3 b4 b5 b6 b7) = [nibble_digit b4 b5 b6 b7, nibble_digit b0 b1 b2 b3]"
proof -
  let ?h = "of_bool b4 + 2 * (of_bool b5 + 2 * (of_bool b6 + 2 * of_bool b7)) :: nat"
  let ?l = "of_bool b0 + 2 * (of_bool b1 + 2 * (of_bool b2 + 2 * of_bool b3)) :: nat"
  have "code_of (Char b0 b1 b2 b3 b4 b5 b6 b7) = 16 * ?h + ?l" by (simp add: code_of_bits)
  moreover have "?l < 16" by (auto simp: of_bool_def)
  ultimately have "code_of (Char b0 b1 b2 b3 b4 b5 b6 b7) div 16 = ?h"
    "code_of (Char b0 b1 b2 b3 b4 b5 b6 b7) mod 16 = ?l"
    by (simp_all only: div_mult_self4 mod_mult_self4 div_less mod_less add_0_right not_False_eq_True)
  then show ?thesis by (simp only: hex_byte_def hex_digit_nibble)
qed

end
