(* ===== verification/Pull_Types.thy ===== *)
theory Pull_Types
  imports Http_Client Publish_Types Base64 Hex
begin

text \<open>
  The errors of a pull (\<open>cli/src/registry/error.rs\<close>) and of the credential providers
  (\<open>credential_provider.rs\<close>). \<open>PullPanic\<close> is a panic, not an error value of the program. The
  constructors of \<open>RegistryPullError\<close> that \<open>PublishError\<close> or other types have as well carry
  the prefix \<open>Pull\<close>.
\<close>

datatype cred_error =
    ProviderFailed string message
  | CredIo string io_error

datatype pull_source =
    PsHttp string
  | PsHeader string
  | PsText message
  | PsCred cred_error

datatype pull_error =
    MalformedRef string message
  | Resolve string pull_source
  | BlobFetch string pull_source
  | DigestMismatch string string string
  | PullRefused string nat string
  | PullAuth pull_source
  | PullIo path io_error
  | MalformedManifest message
  | ReferrersNotSupported string string
  | PullPanic string

text \<open>\<open>MAX_REGISTRY_BODY_PREVIEW\<close> and \<open>preview_body_capped\<close>.\<close>

definition pull_body_preview :: nat where
  "pull_body_preview = 4 * 1024"

definition preview_body_capped :: "bytes \<Rightarrow> string" where
  "preview_body_capped raw =
     (let cap = min (length raw) pull_body_preview in utf8_lossy (take cap raw))"

text \<open>The two crates preview a body in the same way.\<close>

lemma preview_body_capped_eq: "preview_body_capped = preview_body"
  by (simp add: fun_eq_iff preview_body_capped_def preview_body_def pull_body_preview_def
      max_registry_body_preview_def Let_def)

text \<open>The bytes of the first character of a string.\<close>

definition first_char :: "string \<Rightarrow> string" where
  "first_char s = take (snd (utf8_step (map code_of s))) s"

end
