(* ===== verification/Credentials.thy ===== *)
theory Credentials
  imports Pull_Types
begin

text \<open>
  \<open>cli/src/registry/credential_provider.rs\<close>: sources of credentials. A boxed
  \<open>dyn CredentialProvider\<close> is its name and its \<open>resolve\<close>, a computation on the state of the
  process; the contract of the trait is the locale \<open>credential_source\<close>. The providers behind
  the features \<open>docker-config\<close> and \<open>vault\<close> are other values of the type.
\<close>

record credentials =
  cr_auth_header :: string
  cr_source :: string

record 's provider =
  pv_name :: string
  pv_resolve :: "string \<Rightarrow> ('s, cred_error, credentials option) io"

text \<open>\<open>base64_encode\<close>, the third copy in the workspace.\<close>

definition cred_base64_chunk :: "bytes \<Rightarrow> string" where
  "cred_base64_chunk chunk =
     (let b0 = chunk ! 0;
          b1 = if length chunk > 1 then chunk ! 1 else CHR 0x00;
          b2 = if length chunk > 2 then chunk ! 2 else CHR 0x00;
          w = base64_triple b0 b1 b2
      in [base64_digit w 18, base64_digit w 12,
          if length chunk > 1 then base64_digit w 6 else CHR ''='',
          if length chunk > 2 then base64_digit w 0 else CHR ''=''])"

definition cred_base64_encode :: "bytes \<Rightarrow> string" where
  "cred_base64_encode input = concat (map cred_base64_chunk (chunks3 input))"

lemma cred_base64: "cred_base64_encode = base64_encode"
proof -
  have "cred_base64_chunk = base64_chunk"
    by (simp add: fun_eq_iff cred_base64_chunk_def base64_chunk_def)
  then show ?thesis by (intro ext) (simp only: cred_base64_encode_def base64_encode_def)
qed

definition provider_of :: "cred_error \<Rightarrow> string" where
  "provider_of e = (case e of ProviderFailed p _ \<Rightarrow> p | CredIo p _ \<Rightarrow> p)"

section \<open>The providers\<close>

definition anonymous_resolve :: "string \<Rightarrow> ('s, cred_error, credentials option) io" where
  "anonymous_resolve registry = io_return None"

definition anonymous_provider :: "'s provider" where
  "anonymous_provider = \<lparr>pv_name = ''anonymous'', pv_resolve = anonymous_resolve\<rparr>"

definition basic_resolve :: "string \<Rightarrow> string \<Rightarrow> string \<Rightarrow> ('s, cred_error, credentials option) io" where
  "basic_resolve username password registry =
     (let pair = username @ '':'' @ password in
      io_return (Some \<lparr>cr_auth_header = ''Basic '' @ cred_base64_encode pair, cr_source = ''basic''\<rparr>))"

definition basic_new :: "string \<Rightarrow> string \<Rightarrow> cred_error + 's provider" where
  "basic_new username password =
     (if username = [] \<or> password = [] then
        Inl (ProviderFailed ''basic'' [Txt ''username and password must be non-empty''])
      else Inr \<lparr>pv_name = ''basic'', pv_resolve = basic_resolve username password\<rparr>)"

definition bearer_resolve :: "string \<Rightarrow> string \<Rightarrow> ('s, cred_error, credentials option) io" where
  "bearer_resolve token registry =
     io_return (Some \<lparr>cr_auth_header = ''Bearer '' @ token, cr_source = ''bearer''\<rparr>)"

definition bearer_new :: "string \<Rightarrow> cred_error + 's provider" where
  "bearer_new token =
     (if token = [] then Inl (ProviderFailed ''bearer'' [Txt ''token must be non-empty''])
      else Inr \<lparr>pv_name = ''bearer'', pv_resolve = bearer_resolve token\<rparr>)"

definition env_resolve :: "string \<Rightarrow> (('w, 'x) sys_scheme, cred_error, credentials option) io" where
  "env_resolve registry =
     io_bind (env_var ''REGISTRY_TOKEN'') (\<lambda>token.
     case token of
       Some t \<Rightarrow>
         if t \<noteq> [] then
           io_return (Some \<lparr>cr_auth_header = ''Bearer '' @ t, cr_source = ''env''\<rparr>)
         else io_fail (ProviderFailed ''env''
           [Txt ''REGISTRY_TOKEN'', Txt '' is set but empty; unset it or provide a token''])
     | None \<Rightarrow>
         io_bind (env_var ''REGISTRY_USERNAME'') (\<lambda>user.
         io_bind (env_var ''REGISTRY_PASSWORD'') (\<lambda>pass.
         case (user, pass) of
           (Some u, Some p) \<Rightarrow>
             if u \<noteq> [] \<and> p \<noteq> [] then
               let pair = u @ '':'' @ p in
               io_return (Some \<lparr>cr_auth_header = ''Basic '' @ cred_base64_encode pair, cr_source = ''env''\<rparr>)
             else io_fail (ProviderFailed ''env''
               [Txt ''REGISTRY_USERNAME'', Txt '' / '', Txt ''REGISTRY_PASSWORD'',
                Txt '' are set but at least one is empty; unset both or provide non-empty values''])
         | _ \<Rightarrow> io_return None)))"

definition env_provider :: "('w, 'x) sys_scheme provider" where
  "env_provider = \<lparr>pv_name = ''env'', pv_resolve = env_resolve\<rparr>"

section \<open>The contract of the trait\<close>

text \<open>
  A provider reads and does not write, signs its credentials and its errors with its name and
  never produces an empty header.
\<close>

locale credential_source =
  fixes name :: string
    and resolve :: "string \<Rightarrow> ('s, cred_error, credentials option) io"
  assumes reads_only: "resolve registry s = (r, t) \<Longrightarrow> t = s"
    and signs: "resolve registry s = (Inr (Some c), t) \<Longrightarrow> cr_source c = name \<and> cr_auth_header c \<noteq> []"
    and blames: "resolve registry s = (Inl e, t) \<Longrightarrow> provider_of e = name"
begin

lemma answer:
  obtains (credentials) c where "resolve registry s = (Inr (Some c), s)" "cr_source c = name"
      "cr_auth_header c \<noteq> []"
    | (nothing) "resolve registry s = (Inr None, s)"
    | (broken) e where "resolve registry s = (Inl e, s)" "provider_of e = name"
proof -
  obtain r t where run: "resolve registry s = (r, t)" by fastforce
  with reads_only have "t = s" by blast
  with run that signs blames show ?thesis by (cases r; cases "projr r") (auto 4 3)
qed

end

interpretation anonymous: credential_source "''anonymous''" anonymous_resolve
  by unfold_locales (auto simp: anonymous_resolve_def io_apply_simps)

interpretation basic: credential_source "''basic''" "basic_resolve username password" for username password
  by unfold_locales (auto simp: basic_resolve_def io_apply_simps Let_def)

interpretation bearer: credential_source "''bearer''" "bearer_resolve token" for token
  by unfold_locales (auto simp: bearer_resolve_def io_apply_simps)

lemma env_resolve_cases:
  "env_resolve registry s =
     ((case (sy_env s ''REGISTRY_TOKEN'', sy_env s ''REGISTRY_USERNAME'', sy_env s ''REGISTRY_PASSWORD'') of
         (Some t, _, _) \<Rightarrow>
           if t \<noteq> [] then Inr (Some \<lparr>cr_auth_header = ''Bearer '' @ t, cr_source = ''env''\<rparr>)
           else Inl (ProviderFailed ''env''
             [Txt ''REGISTRY_TOKEN'', Txt '' is set but empty; unset it or provide a token''])
       | (None, Some u, Some p) \<Rightarrow>
           if u \<noteq> [] \<and> p \<noteq> [] then
             Inr (Some \<lparr>cr_auth_header = ''Basic '' @ base64_encode (u @ '':'' @ p), cr_source = ''env''\<rparr>)
           else Inl (ProviderFailed ''env''
             [Txt ''REGISTRY_USERNAME'', Txt '' / '', Txt ''REGISTRY_PASSWORD'',
              Txt '' are set but at least one is empty; unset both or provide non-empty values''])
       | _ \<Rightarrow> Inr None), s)"
  by (cases "sy_env s ''REGISTRY_TOKEN''"; cases "sy_env s ''REGISTRY_USERNAME''";
      cases "sy_env s ''REGISTRY_PASSWORD''")
    (simp_all add: env_resolve_def io_bind_def env_var_def io_apply_simps cred_base64 Let_def)

interpretation env: credential_source "''env''" env_resolve
  by unfold_locales
    (auto simp: env_resolve_cases provider_of_def split: option.splits if_splits)

end
