(* ===== verification/Docker_Config.thy ===== *)
theory Docker_Config
  imports Credentials
begin

text \<open>
  \<open>credential_provider/docker_config.rs\<close>: credentials from the file \<open>docker login\<close> writes.
  The provider is generic over its backend, a computation that yields the \<open>auths\<close> block;
  \<open>load_auths\<close> is the production one. The base64 codec, the JSON parser and the home
  directory belong to other crates and are fields of \<open>docker_lib\<close>.
\<close>

section \<open>Types\<close>

definition docker_provider_name :: string where
  "docker_provider_name = ''docker-config''"

record auth_entry =
  ae_auth :: "string option"
  ae_username :: "string option"
  ae_password :: "string option"
  ae_identity_token :: "string option"

text \<open>\<open>HashMap<String, AuthEntry>\<close>.\<close>

type_synonym docker_auths = "string \<rightharpoonup> auth_entry"

type_synonym 's docker_backend = "('s, cred_error, docker_auths option) io"

record 's docker_lib =
  dk_decode :: "string \<Rightarrow> string + bytes"
  dk_encode :: "bytes \<Rightarrow> string"
  dk_utf8_text :: "bytes \<Rightarrow> string" \<comment> \<open>the displayed \<open>Utf8Error\<close>\<close>
  dk_from_slice :: "bytes \<Rightarrow> string + docker_auths"
  dk_home_dir :: "'s \<Rightarrow> path option"

datatype resolved_docker_auth = DockerBasic string string | DockerBearer string

definition docker_failed :: "message \<Rightarrow> cred_error" where
  "docker_failed detail = ProviderFailed docker_provider_name detail"

section \<open>An entry\<close>

definition docker_lookup_entry :: "docker_auths \<Rightarrow> string \<Rightarrow> auth_entry option" where
  "docker_lookup_entry auths registry =
     (case auths registry of
        Some e \<Rightarrow> Some e
      | None \<Rightarrow> auths (''https://'' @ registry))"

definition decode_auth_field :: "'s docker_lib \<Rightarrow> string \<Rightarrow> cred_error + resolved_docker_auth" where
  "decode_auth_field lib raw =
     and_then (map_err (\<lambda>e. docker_failed
       [Txt ''docker config '', Txt [CHR 0x27], Txt ''auth'', Txt [CHR 0x27],
        Txt '' field is not valid base64 ('', Txt e, Txt ''); expected base64-encoded '',
        Txt [CHR 0x27], Txt ''username:password'', Txt [CHR 0x27]]) (dk_decode lib raw)) (\<lambda>decoded.
     if \<not> valid_utf8 decoded then
       Inl (docker_failed
         [Txt ''docker config '', Txt [CHR 0x27], Txt ''auth'', Txt [CHR 0x27],
          Txt '' field decoded to non-UTF-8 bytes ('', Txt (dk_utf8_text lib decoded),
          Txt ''); expected '', Txt [CHR 0x27], Txt ''username:password'', Txt [CHR 0x27]])
     else case split_once (CHR '':'') decoded of
       None \<Rightarrow> Inl (docker_failed
         [Txt ''docker config '', Txt [CHR 0x27], Txt ''auth'', Txt [CHR 0x27],
          Txt '' field decoded but lacks '', Txt [CHR 0x27], Txt '':'', Txt [CHR 0x27],
          Txt '' separator; expected '', Txt [CHR 0x27], Txt ''username:password'', Txt [CHR 0x27]])
     | Some (username, password) \<Rightarrow>
         if username = [] \<and> password = [] then
           Inl (docker_failed
             [Txt ''docker config '', Txt [CHR 0x27], Txt ''auth'', Txt [CHR 0x27],
              Txt '' field decoded to '', Txt [CHR 0x27], Txt '':'', Txt [CHR 0x27],
              Txt '' only (empty user + pass)''])
         else if username = [] then
           Inl (docker_failed
             [Txt ''docker config '', Txt [CHR 0x27], Txt ''auth'', Txt [CHR 0x27],
              Txt '' field decoded with empty username''])
         else if password = [] then
           Inl (docker_failed
             [Txt ''docker config '', Txt [CHR 0x27], Txt ''auth'', Txt [CHR 0x27],
              Txt '' field decoded with empty password''])
         else Inr (DockerBasic username password))"

definition explicit_pair :: "string option \<Rightarrow> string option \<Rightarrow> cred_error + resolved_docker_auth" where
  "explicit_pair username password =
     (case (username, password) of
        (Some u, Some p) \<Rightarrow>
          if u \<noteq> [] \<and> p \<noteq> [] then Inr (DockerBasic u p)
          else Inl (docker_failed [Txt
            ''docker config entry has username and password fields but at least one is empty''])
      | (Some _, None) \<Rightarrow> Inl (docker_failed
          [Txt ''docker config entry has '', Txt [CHR 0x27], Txt ''username'', Txt [CHR 0x27],
           Txt '' but no '', Txt [CHR 0x27], Txt ''password'', Txt [CHR 0x27]])
      | (None, Some _) \<Rightarrow> Inl (docker_failed
          [Txt ''docker config entry has '', Txt [CHR 0x27], Txt ''password'', Txt [CHR 0x27],
           Txt '' but no '', Txt [CHR 0x27], Txt ''username'', Txt [CHR 0x27]])
      | (None, None) \<Rightarrow> Inl (docker_failed
          [Txt ''docker config entry carries no recognisable credential fields (expected one of: '',
           Txt [CHR 0x27], Txt ''auth'', Txt [CHR 0x27], Txt '', '', Txt [CHR 0x27],
           Txt ''identitytoken'', Txt [CHR 0x27], Txt '', or '', Txt [CHR 0x27], Txt ''username'',
           Txt [CHR 0x27], Txt ''+'', Txt [CHR 0x27], Txt ''password'', Txt [CHR 0x27], Txt '')'']))"

definition map_entry_to_resolved :: "'s docker_lib \<Rightarrow> auth_entry \<Rightarrow> cred_error + resolved_docker_auth" where
  "map_entry_to_resolved lib entry =
     (case ae_auth entry of
        Some raw_auth \<Rightarrow>
          if raw_auth \<noteq> [] then decode_auth_field lib raw_auth
          else Inl (docker_failed
            [Txt ''docker config '', Txt [CHR 0x27], Txt ''auth'', Txt [CHR 0x27],
             Txt '' field is set but empty''])
      | None \<Rightarrow>
          (case ae_identity_token entry of
             Some tok \<Rightarrow>
               if tok \<noteq> [] then Inr (DockerBearer tok)
               else Inl (docker_failed
                 [Txt ''docker config '', Txt [CHR 0x27], Txt ''identitytoken'', Txt [CHR 0x27],
                  Txt '' field is set but empty''])
           | None \<Rightarrow> explicit_pair (ae_username entry) (ae_password entry)))"

section \<open>The provider\<close>

definition docker_auth_mode ::
  "'s docker_lib \<Rightarrow> 's docker_backend \<Rightarrow> string \<Rightarrow> ('s, cred_error, resolved_docker_auth option) io" where
  "docker_auth_mode lib load registry =
     (if registry = [] then io_fail (docker_failed [Txt ''registry name must be non-empty''])
      else
      io_bind load (\<lambda>loaded.
      case loaded of
        None \<Rightarrow> io_return None
      | Some auths \<Rightarrow>
          (case docker_lookup_entry auths registry of
             None \<Rightarrow> io_return None
           | Some entry \<Rightarrow>
               io_bind (io_lift (map_entry_to_resolved lib entry)) (\<lambda>r. io_return (Some r)))))"

definition docker_header :: "'s docker_lib \<Rightarrow> resolved_docker_auth \<Rightarrow> string" where
  "docker_header lib resolved =
     (case resolved of
        DockerBearer token \<Rightarrow> ''Bearer '' @ token
      | DockerBasic username password \<Rightarrow>
          ''Basic '' @ dk_encode lib (username @ '':'' @ password))"

definition docker_resolve ::
  "'s docker_lib \<Rightarrow> 's docker_backend \<Rightarrow> string \<Rightarrow> ('s, cred_error, credentials option) io" where
  "docker_resolve lib load registry =
     io_bind (docker_auth_mode lib load registry) (\<lambda>resolved.
     case resolved of
       None \<Rightarrow> io_return None
     | Some r \<Rightarrow> io_return (Some
         \<lparr>cr_auth_header = docker_header lib r, cr_source = docker_provider_name\<rparr>))"

definition docker_provider :: "'s docker_lib \<Rightarrow> 's docker_backend \<Rightarrow> 's provider" where
  "docker_provider lib load =
     \<lparr>pv_name = docker_provider_name, pv_resolve = docker_resolve lib load\<rparr>"

section \<open>The file\<close>

definition docker_default_path :: "'s docker_lib \<Rightarrow> ('s, cred_error, path) io" where
  "docker_default_path lib =
     io_bind (io_get (dk_home_dir lib)) (\<lambda>home.
     case home of
       None \<Rightarrow> io_fail (docker_failed
         [Txt ''unable to resolve home directory (no $HOME / %USERPROFILE% set?); '',
          Txt ''pass --docker-config-path explicitly''])
     | Some h \<Rightarrow> io_return (path_join (path_join h ''.docker'') ''config.json''))"

definition load_auths :: "'x fs_scheme docker_lib \<Rightarrow> path \<Rightarrow> 'x fs_scheme docker_backend" where
  "load_auths lib p =
     io_bind (io_try (fs_read p)) (\<lambda>r.
     case r of
       Inl e \<Rightarrow>
         if io_error_kind_of e = NotFound then io_return None
         else io_fail (CredIo docker_provider_name e)
     | Inr bs \<Rightarrow>
         io_bind (io_lift (map_err (\<lambda>e. docker_failed
           [Txt ''docker config at '', Txt p, Txt '' is not valid JSON ('', Txt e, Txt '')''])
           (dk_from_slice lib bs))) (\<lambda>auths. io_return (Some auths)))"

section \<open>What an entry grants\<close>

definition entry_grants :: "'s docker_lib \<Rightarrow> auth_entry \<Rightarrow> resolved_docker_auth \<Rightarrow> bool" where
  "entry_grants lib e r \<longleftrightarrow>
     (case ae_auth e of
        Some raw \<Rightarrow> raw \<noteq> [] \<and>
          (\<exists>u p. dk_decode lib raw = Inr (u @ '':'' @ p) \<and> valid_utf8 (u @ '':'' @ p) \<and>
             CHR '':'' \<notin> set u \<and> u \<noteq> [] \<and> p \<noteq> [] \<and> r = DockerBasic u p)
      | None \<Rightarrow>
          (case ae_identity_token e of
             Some tok \<Rightarrow> tok \<noteq> [] \<and> r = DockerBearer tok
           | None \<Rightarrow> (\<exists>u p. ae_username e = Some u \<and> ae_password e = Some p \<and> u \<noteq> [] \<and> p \<noteq> [] \<and>
               r = DockerBasic u p)))"

lemma decode_auth_field_iff:
  "decode_auth_field lib raw = Inr r \<longleftrightarrow>
     (\<exists>u p. dk_decode lib raw = Inr (u @ '':'' @ p) \<and> valid_utf8 (u @ '':'' @ p) \<and>
        CHR '':'' \<notin> set u \<and> u \<noteq> [] \<and> p \<noteq> [] \<and> r = DockerBasic u p)"
proof (cases "dk_decode lib raw")
  case (Inl e)
  then show ?thesis by (simp add: decode_auth_field_def and_then_def)
next
  case (Inr decoded)
  show ?thesis
  proof (cases "split_once (CHR '':'') decoded")
    case None
    then have "decoded \<noteq> u @ '':'' @ p" for u p by auto
    then show ?thesis
      using Inr None by (simp add: decode_auth_field_def and_then_def del: split_once_None_iff)
  next
    case (Some up)
    obtain u p where up: "up = (u, p)" by (cases up)
    have split: "decoded = u' @ '':'' @ p' \<and> CHR '':'' \<notin> set u' \<longleftrightarrow> u' = u \<and> p' = p" for u' p'
      using Some split_once_Some_iff [of "CHR '':''" decoded u' p'] by (auto simp: up)
    have "decode_auth_field lib raw = Inr r \<longleftrightarrow>
        valid_utf8 decoded \<and> u \<noteq> [] \<and> p \<noteq> [] \<and> r = DockerBasic u p"
      using Inr Some by (auto simp: decode_auth_field_def and_then_def up)
    also have "\<dots> \<longleftrightarrow> (\<exists>u' p'. (decoded = u' @ '':'' @ p' \<and> CHR '':'' \<notin> set u') \<and> valid_utf8 decoded \<and>
        u' \<noteq> [] \<and> p' \<noteq> [] \<and> r = DockerBasic u' p')"
      unfolding split by blast
    also have "\<dots> \<longleftrightarrow> (\<exists>u p. dk_decode lib raw = Inr (u @ '':'' @ p) \<and> valid_utf8 (u @ '':'' @ p) \<and>
        CHR '':'' \<notin> set u \<and> u \<noteq> [] \<and> p \<noteq> [] \<and> r = DockerBasic u p)"
      unfolding Inr sum.inject by metis
    finally show ?thesis .
  qed
qed

lemma map_entry_iff: "map_entry_to_resolved lib e = Inr r \<longleftrightarrow> entry_grants lib e r"
  by (auto simp: map_entry_to_resolved_def entry_grants_def decode_auth_field_iff explicit_pair_def
      split: option.splits)

lemma entry_grants_unique: "entry_grants lib e r \<Longrightarrow> entry_grants lib e r' \<Longrightarrow> r = r'"
  by (metis map_entry_iff sum.inject(2))

lemma provider_of_docker_failed [simp]: "provider_of (docker_failed d) = docker_provider_name"
  by (simp add: docker_failed_def provider_of_def)

lemma map_entry_blames: "map_entry_to_resolved lib e = Inl err \<Longrightarrow> provider_of err = docker_provider_name"
  by (auto simp: map_entry_to_resolved_def decode_auth_field_def explicit_pair_def docker_failed_def
      and_then_def map_err_def provider_of_def split: option.splits if_splits sum.splits)

lemma docker_auth_mode_run:
  assumes "load s = (r, t)"
  shows "docker_auth_mode lib load registry s =
    (if registry = [] then (Inl (docker_failed [Txt ''registry name must be non-empty'']), s)
     else case r of
       Inl e \<Rightarrow> (Inl e, t)
     | Inr None \<Rightarrow> (Inr None, t)
     | Inr (Some auths) \<Rightarrow>
         (case docker_lookup_entry auths registry of
            None \<Rightarrow> (Inr None, t)
          | Some e \<Rightarrow> (case map_entry_to_resolved lib e of Inl x \<Rightarrow> (Inl x, t) | Inr a \<Rightarrow> (Inr (Some a), t))))"
  using assms by (auto simp: docker_auth_mode_def io_defs split: sum.split option.split)

section \<open>The contract\<close>

text \<open>
  The contract of a provider that may consult the disk: as \<open>credential_source\<close>, with \<open>keeps\<close>
  for what such a provider leaves alone.
\<close>

locale credential_reader =
  fixes name :: string
    and resolve :: "string \<Rightarrow> ('s, cred_error, credentials option) io"
    and keeps :: "'s \<Rightarrow> 's \<Rightarrow> bool"
  assumes frame: "resolve registry s = (r, t) \<Longrightarrow> keeps s t"
    and names_itself: "resolve registry s = (Inr (Some c), t) \<Longrightarrow> cr_source c = name \<and> cr_auth_header c \<noteq> []"
    and blames_itself: "resolve registry s = (Inl e, t) \<Longrightarrow> provider_of e = name"
begin

lemma outcome:
  obtains (credentials) c t where "resolve registry s = (Inr (Some c), t)" "keeps s t" "cr_source c = name"
    | (nothing) t where "resolve registry s = (Inr None, t)" "keeps s t"
    | (broken) e t where "resolve registry s = (Inl e, t)" "keeps s t" "provider_of e = name"
proof -
  obtain r t where run: "resolve registry s = (r, t)" by fastforce
  from frame [OF run] run that names_itself blames_itself show ?thesis
    by (cases r; cases "projr r") (auto 4 3)
qed

end

sublocale credential_source \<subseteq> credential_reader name resolve "(=)"
  by unfold_locales (use reads_only in \<open>auto dest: signs blames\<close>)

text \<open>A backend that keeps its frame and blames the provider.\<close>

locale docker_auths_backend =
  fixes load :: "'s docker_backend"
    and keeps :: "'s \<Rightarrow> 's \<Rightarrow> bool"
  assumes load_frame: "load s = (r, t) \<Longrightarrow> keeps s t"
    and load_blames: "load s = (Inl e, t) \<Longrightarrow> provider_of e = docker_provider_name"
    and refl: "keeps s s"
begin

lemma reader: "credential_reader docker_provider_name (docker_resolve lib load) keeps"
proof
  fix registry s r t
  assume run: "docker_resolve lib load registry s = (r, t)"
  obtain x u where load: "load s = (x, u)" by fastforce
  then have "t = s \<or> t = u"
    using run docker_auth_mode_run [where load = load and s = s, OF load, of lib registry]
    by (auto simp: docker_resolve_def io_defs split: if_splits sum.splits option.splits)
  then show "keeps s t" using load_frame [OF load] refl by blast
next
  fix registry s c t
  assume "docker_resolve lib load registry s = (Inr (Some c), t)"
  then show "cr_source c = docker_provider_name \<and> cr_auth_header c \<noteq> []"
    by (auto simp: docker_resolve_def io_defs docker_header_def
        split: prod.splits sum.splits option.splits resolved_docker_auth.splits)
next
  fix registry s e t
  assume run: "docker_resolve lib load registry s = (Inl e, t)"
  obtain x u where load: "load s = (x, u)" by fastforce
  with run docker_auth_mode_run [where load = load and s = s, OF load, of lib registry] load_blames [of s e u]
  show "provider_of e = docker_provider_name"
    by (auto simp: docker_resolve_def io_defs dest: map_entry_blames
        split: if_splits sum.splits option.splits)
qed

end

text \<open>Reading a file takes the next fault of the sequence and touches nothing else.\<close>

definition same_but_faults :: "'x fs_scheme \<Rightarrow> 'x fs_scheme \<Rightarrow> bool" where
  "same_but_faults s t \<longleftrightarrow> (\<exists>fs. t = s\<lparr>fs_faults := fs\<rparr>)"

lemma same_but_faults_refl: "same_but_faults s s"
  unfolding same_but_faults_def by (rule exI [of _ "fs_faults s"]) simp

lemma load_auths_run:
  "\<exists>r. load_auths lib p s = (r, snd (fs_read p s)) \<and> same_but_faults s (snd (fs_read p s)) \<and>
     (\<forall>e. r = Inl e \<longrightarrow> provider_of e = docker_provider_name)"
proof -
  obtain x u where read: "fs_read p s = (x, u)" by fastforce
  have "same_but_faults s u"
    using read unfolding fs_read_def fs_call_def same_but_faults_def
    by (auto simp: Let_def call_read_def split: prod.splits option.splits io_fault.splits fnode.splits)
  with read show ?thesis
    by (auto simp: load_auths_def io_defs provider_of_def docker_failed_def map_err_def split: sum.splits)
qed

interpretation docker_file: docker_auths_backend "load_auths lib p" same_but_faults for lib p
proof
  fix s t r
  assume "load_auths lib p s = (r, t)"
  then show "same_but_faults s t" using load_auths_run [of lib p s] by auto
next
  fix s t e
  assume "load_auths lib p s = (Inl e, t)"
  then show "provider_of e = docker_provider_name" using load_auths_run [of lib p s] by auto
qed (rule same_but_faults_refl)

section \<open>Properties\<close>


definition sample_auths :: docker_auths where
  "sample_auths =
     [''https://h'' \<mapsto> \<lparr>ae_auth = Some ''dTpwOnE='', ae_username = None, ae_password = None,
                        ae_identity_token = None\<rparr>]"

definition sample_docker_lib :: "fs docker_lib" where
  "sample_docker_lib =
     \<lparr>dk_decode = (\<lambda>_. Inr ''u:p:q''), dk_encode = (\<lambda>_. ''dTpwOnE=''), dk_utf8_text = (\<lambda>_. []),
      dk_from_slice = (\<lambda>_. Inr sample_auths), dk_home_dir = (\<lambda>_. None)\<rparr>"

definition sample_docker_fs :: fs where
  "sample_docker_fs =
     \<lparr>fs_nodes = [[''/''] \<mapsto> DirNode, [''/'', ''c''] \<mapsto> FileNode ''{}''], fs_faults = [], fs_seen = [],
      fs_order = (\<lambda>_. [])\<rparr>"


end
