(* ===== verification/Json.thy ===== *)
theory Json
  imports System
begin

text \<open>
  The value trees the program passes around: \<open>serde_json::Value\<close> and \<open>toml::Value\<close>.
  A number is an integer or the bit pattern of a finite \<open>f64\<close>. \<open>serde_json\<close> is built
  without \<open>preserve_order\<close>, so the map of an object is a \<open>BTreeMap\<close>: inserting keeps
  its entries in key order. The object a derived \<open>Serialize\<close> writes keeps the order of
  the fields. The text of a tree (\<open>to_vec\<close>, \<open>from_slice\<close>) is the business of the
  external crates and a parameter where it is used.
\<close>

type_synonym f64 = "64 word"

text \<open>Finite: the eleven exponent bits are not all ones.\<close>

definition f64_is_finite :: "f64 \<Rightarrow> bool" where
  "f64_is_finite b \<longleftrightarrow> unat (drop_bit 52 b) mod 2048 \<noteq> 2047"

datatype json =
    JNull
  | JBool bool
  | JInt int
  | JFloat f64
  | JString string
  | JArray "json list"
  | JObject "(string \<times> json) list"

datatype toml =
    TString string
  | TInteger int
  | TFloat f64
  | TBoolean bool
  | TDatetime string \<comment> \<open>as it is displayed\<close>
  | TArray "toml list"
  | TTable "(string \<times> toml) list"

text \<open>\<open>Value::get\<close>, \<open>as_str\<close> and their kin.\<close>

fun json_get :: "string \<Rightarrow> json \<Rightarrow> json option" where
  "json_get k (JObject m) = map_of m k"
| "json_get k _ = None"

fun json_as_str :: "json \<Rightarrow> string option" where
  "json_as_str (JString s) = Some s"
| "json_as_str _ = None"

text \<open>\<open>Number::from_f64\<close> refuses NaN and the infinities.\<close>

definition number_from_f64 :: "f64 \<Rightarrow> json option" where
  "number_from_f64 b = (if f64_is_finite b then Some (JFloat b) else None)"

text \<open>An object made by inserting into an empty \<open>Map\<close>.\<close>

definition json_map :: "(string \<times> json) list \<Rightarrow> json" where
  "json_map kvs = JObject (bt_of_list kvs)"

text \<open>Trees as \<open>serde_json::Value\<close> holds them: every object in key order, floats finite.\<close>

fun json_wf :: "json \<Rightarrow> bool" where
  "json_wf (JObject m) \<longleftrightarrow> bt_sorted m \<and> (\<forall>kv \<in> set m. json_wf (snd kv))"
| "json_wf (JArray vs) \<longleftrightarrow> (\<forall>v \<in> set vs. json_wf v)"
| "json_wf (JFloat b) \<longleftrightarrow> f64_is_finite b"
| "json_wf _ \<longleftrightarrow> True"

lemma json_get_json_map [simp]: "json_get k (json_map kvs) = map_of (rev kvs) k"
  by (simp add: json_map_def map_of_bt_of_list)

lemma bt_insert_ran: "set (bt_insert k v m) \<subseteq> insert (k, v) (set m)"
  by (induction k v m rule: bt_insert.induct) auto

lemma bt_of_list_set:
  fixes kvs :: "(string \<times> 'v) list"
  shows "set (bt_of_list kvs) \<subseteq> set kvs"
proof -
  have "set (fold (\<lambda>(k, v). bt_insert k v) kvs m) \<subseteq> set kvs \<union> set m"
    for m :: "'v btree"
  proof (induction kvs arbitrary: m)
    case Nil
    then show ?case by simp
  next
    case (Cons kv kvs)
    obtain k v where kv: "kv = (k, v)" by (cases kv)
    show ?case
      using Cons.IH [of "bt_insert k v m"] bt_insert_ran [of k v m] by (auto simp: kv)
  qed
  from this [of "[]"] show ?thesis by (simp add: bt_of_list_def)
qed

lemma json_wf_json_map: "(\<And>k v. (k, v) \<in> set kvs \<Longrightarrow> json_wf v) \<Longrightarrow> json_wf (json_map kvs)"
  using bt_of_list_set [of kvs] by (auto simp: json_map_def)

text \<open>Two objects built by insertions are equal exactly when their lookups agree.\<close>

lemma json_map_eq_iff: "json_map a = json_map b \<longleftrightarrow> map_of (rev a) = map_of (rev b)"
proof
  assume "json_map a = json_map b"
  then show "map_of (rev a) = map_of (rev b)"
    by (metis json.inject(6) json_map_def map_of_bt_of_list)
next
  assume "map_of (rev a) = map_of (rev b)"
  then have "bt_of_list a = bt_of_list b"
    by (intro bt_sorted_map_of_eq) (simp_all add: map_of_bt_of_list)
  then show "json_map a = json_map b" by (simp add: json_map_def)
qed

end
