(* ===== verification/Std_Extra.thy ===== *)
theory Std_Extra
  imports Json
begin

text \<open>
  More of the standard library and of \<open>serde_json::Value\<close>: trimming of white space, file
  extensions, and the accessors of a value. A number of a value is an integer here when its
  text has neither fraction nor exponent and fits \<open>i64\<close> or \<open>u64\<close>.
\<close>

section \<open>Trimming\<close>

function trim_start :: "string \<Rightarrow> string" where
  "trim_start s = (if s = [] \<or> ws_len s = 0 then s else trim_start (drop (ws_len s) s))"
  by pat_completeness auto
termination
  by (relation "measure length") auto

declare trim_start.simps [simp del]

fun trim_end :: "string \<Rightarrow> string" where
  "trim_end [] = []"
| "trim_end (c # s) = (if trims_to_empty (c # s) then [] else c # trim_end s)"

definition trim :: "string \<Rightarrow> string" where
  "trim s = trim_end (trim_start s)"

section \<open>File extensions\<close>

text \<open>\<open>Path::with_extension\<close>.\<close>

definition file_stem :: "string \<Rightarrow> string" where
  "file_stem name =
     (case rsplit_once (CHR ''.'') name of
        Some (a, b) \<Rightarrow> if a = [] then name else a
      | None \<Rightarrow> name)"

definition with_extension :: "path \<Rightarrow> string \<Rightarrow> path" where
  "with_extension p ext =
     (let t = trim_sep_rev (rev p);
          name = rev (takeWhile (\<lambda>c. c \<noteq> CHR ''/'') t);
          dir = rev (dropWhile (\<lambda>c. c \<noteq> CHR ''/'') t)
      in if name = [] \<or> name = ''..'' then p else dir @ file_stem name @ CHR ''.'' # ext)"

lemma trim_sep_rev_plain:
  assumes "plain_name n"
  shows "trim_sep_rev (rev n @ x) = rev n @ x"
proof -
  obtain c s where n: "rev n = c # s"
    using assms by (cases "rev n") (auto simp: plain_name_def)
  then have nsep: "CHR ''/'' \<notin> set (c # s)"
    using assms by (metis plain_name_def set_rev)
  have "c = CHR ''.'' \<Longrightarrow> s \<noteq> []"
    using n assms by (metis plain_name_def rev_singleton_conv)
  with nsep have "\<not> (c = CHR ''.'' \<and> s @ x \<noteq> [] \<and> hd (s @ x) = CHR ''/'')"
    by (cases s) auto
  with nsep n show ?thesis by auto
qed

lemma with_extension_join:
  assumes "plain_name n" and "n \<noteq> ''..''"
  shows "with_extension (path_join d n) ext = path_join d (file_stem n @ CHR ''.'' # ext)"
proof -
  define x where "x = (if d = [] then [] else if last d = CHR ''/'' then rev d else CHR ''/'' # rev d)"
  have join: "rev (path_join d n) = rev n @ x"
    using plain_name_relative [OF assms(1)] by (simp add: path_join_def x_def)
  have nsep: "\<forall>c \<in> set (rev n). c \<noteq> CHR ''/''" using assms(1) by (auto simp: plain_name_def)
  have x: "takeWhile (\<lambda>c. c \<noteq> CHR ''/'') x = []" "dropWhile (\<lambda>c. c \<noteq> CHR ''/'') x = x"
    by (auto simp: x_def takeWhile_eq_Nil_iff dropWhile_eq_self_iff hd_rev)
  have name: "rev (takeWhile (\<lambda>c. c \<noteq> CHR ''/'') (rev n @ x)) = n"
    and dir: "rev (dropWhile (\<lambda>c. c \<noteq> CHR ''/'') (rev n @ x)) = rev x"
    using nsep x by (simp_all add: takeWhile_append dropWhile_append)
  have "file_stem n \<noteq> []" "CHR ''/'' \<notin> set (file_stem n)"
    using assms(1) by (auto simp: file_stem_def plain_name_def rsplit_once_Some_iff split: option.split)
  then have stem: "\<not> path_is_absolute (file_stem n @ CHR ''.'' # ext)"
    by (cases "file_stem n") (auto simp: path_is_absolute_def)
  show ?thesis
    unfolding with_extension_def join trim_sep_rev_plain [OF assms(1)] Let_def name dir
    using assms stem by (auto simp: plain_name_def path_join_def x_def)
qed

section \<open>Accessors of a value\<close>

fun json_as_array :: "json \<Rightarrow> json list option" where
  "json_as_array (JArray vs) = Some vs"
| "json_as_array _ = None"

fun json_as_object :: "json \<Rightarrow> (string \<times> json) list option" where
  "json_as_object (JObject m) = Some m"
| "json_as_object _ = None"

fun json_as_i64 :: "json \<Rightarrow> int option" where
  "json_as_i64 (JInt n) = (if - (2 ^ 63) \<le> n \<and> n < 2 ^ 63 then Some n else None)"
| "json_as_i64 _ = None"

fun json_as_u64 :: "json \<Rightarrow> nat option" where
  "json_as_u64 (JInt n) = (if 0 \<le> n \<and> n < 2 ^ 64 then Some (nat n) else None)"
| "json_as_u64 _ = None"

text \<open>\<open>v.get(a)?.get(b)?\<close>: the value under a path of keys.\<close>

fun json_at :: "string list \<Rightarrow> json \<Rightarrow> json option" where
  "json_at [] v = Some v"
| "json_at (k # ks) v = Option.bind (json_get k v) (json_at ks)"

text \<open>\<open>{:?}\<close> of a \<open>Vec<String>\<close>.\<close>

fun dbg_items :: "string list \<Rightarrow> message" where
  "dbg_items [] = []"
| "dbg_items [s] = [Dbg s]"
| "dbg_items (s # ss) = Dbg s # Txt '', '' # dbg_items ss"

definition dbg_list :: "string list \<Rightarrow> message" where
  "dbg_list ss = Txt ''['' # dbg_items ss @ [Txt '']'']"

definition dec_of_int :: "int \<Rightarrow> string" where
  "dec_of_int n = (if n < 0 then CHR ''-'' # dec_of_nat (nat (- n)) else dec_of_nat (nat n))"

end
