(* ===== verification/Vault.thy ===== *)
theory Vault
  imports Docker_Config Std_Extra
begin

text \<open>
  \<open>credential_provider/vault.rs\<close>: credentials from a KV v2 path of a Vault server. The
  provider is generic over its backend, one read of a path; \<open>vaultrs_read_kv2\<close> is the
  production one. The client of \<open>vaultrs\<close>, the runtime and serde are fields of \<open>vault_lib\<close>.
\<close>

section \<open>Types\<close>

definition vault_provider_name :: string where
  "vault_provider_name = ''vault''"

definition vault_default_base_path :: string where
  "vault_default_base_path = ''secret/data/registry''"

definition env_vault_addr :: string where
  "env_vault_addr = ''VAULT_ADDR''"

definition env_vault_token :: string where
  "env_vault_token = ''VAULT_TOKEN''"

datatype vault_backend_error =
    VaultApi nat string
  | VaultIo string

definition display_vault_error :: "vault_backend_error \<Rightarrow> message" where
  "display_vault_error e =
     (case e of
        VaultApi code detail \<Rightarrow>
          [Txt ''vault API error '', Txt (dec_of_nat code), Txt '': '', Txt detail]
      | VaultIo detail \<Rightarrow> [Txt ''vault I/O error: '', Txt detail])"

type_synonym 's vault_backend = "string \<Rightarrow> string \<Rightarrow> ('s, vault_backend_error, json) io"

record vault_secret =
  vs_username :: "string option"
  vs_password :: "string option"
  vs_token :: "string option"

datatype client_error = APIError nat "string list" | OtherClientError string

record ('s, 'u, 'v) vault_lib =
  vt_from_value :: "json \<Rightarrow> string + vault_secret"
  vt_settings :: "string \<Rightarrow> string \<Rightarrow> string + 'u"
  vt_client :: "'u \<Rightarrow> string + 'v"
  vt_runtime :: "('s, io_error, unit) io"
  vt_read :: "'v \<Rightarrow> string \<Rightarrow> string \<Rightarrow> ('s, client_error, json) io"

record 's vault_provider =
  vp_backend :: "'s vault_backend"
  vp_mount :: string
  vp_prefix :: string

datatype resolved_vault_auth = VaultBasic string string | VaultBearer string

definition vault_failed :: "message \<Rightarrow> cred_error" where
  "vault_failed detail = ProviderFailed vault_provider_name detail"

section \<open>The base path\<close>

text \<open>\<open>str::split_once\<close> at a string.\<close>

definition split_once_at :: "string \<Rightarrow> string \<Rightarrow> (string \<times> string) option" where
  "split_once_at pat s = map_option (\<lambda>i. (take i s, drop (i + length pat) s)) (find_str s pat)"

definition trim_matches :: "char \<Rightarrow> string \<Rightarrow> string" where
  "trim_matches c s = trim_end_matches c (trim_start_matches c s)"

definition strip_suffix :: "string \<Rightarrow> string \<Rightarrow> string option" where
  "strip_suffix suf s = (if ends_with s suf then Some (take (length s - length suf) s) else None)"

definition split_base :: "string \<Rightarrow> string \<Rightarrow> cred_error + string \<times> string" where
  "split_base base working =
     (case split_once_at ''/data/'' working of
        Some (m, p) \<Rightarrow> Inr (m, trim_matches (CHR ''/'') p)
      | None \<Rightarrow>
          (case strip_suffix ''/data'' working of
             Some m \<Rightarrow> Inr (m, [])
           | None \<Rightarrow> Inl (vault_failed
               [Txt ''vault base path '', Dbg base, Txt '' must contain '', Txt [CHR 0x27], Txt ''/data/'',
                Txt [CHR 0x27], Txt '' (KV v2 convention) '', Txt (map char_of [226 :: nat, 128, 148]),
                Txt '' e.g. '', Txt [CHR 0x27], Txt ''secret/data/registry'', Txt [CHR 0x27]])))"

definition parse_base_path :: "string \<Rightarrow> cred_error + string \<times> string" where
  "parse_base_path base =
     (let working = (case strip_suffix ''/'' base of Some w \<Rightarrow> w | None \<Rightarrow> base) in
      if working = [] then Inl (vault_failed [Txt ''vault base path must not be empty''])
      else and_then (split_base base working) (\<lambda>(mount, prefix).
        if mount = [] then
          Inl (vault_failed [Txt ''vault base path '', Dbg base, Txt '' has empty mount before '',
            Txt [CHR 0x27], Txt ''/data/'', Txt [CHR 0x27]])
        else Inr (mount, prefix)))"

definition vault_with_backend :: "'s vault_backend \<Rightarrow> string \<Rightarrow> cred_error + 's vault_provider" where
  "vault_with_backend backend base_path =
     and_then (parse_base_path base_path) (\<lambda>(mount, prefix).
     Inr \<lparr>vp_backend = backend, vp_mount = mount, vp_prefix = prefix\<rparr>)"

section \<open>The secret\<close>

fun json_type_name :: "json \<Rightarrow> string" where
  "json_type_name JNull = ''null''"
| "json_type_name (JBool _) = ''bool''"
| "json_type_name (JInt _) = ''number''"
| "json_type_name (JFloat _) = ''number''"
| "json_type_name (JString _) = ''string''"
| "json_type_name (JArray _) = ''array''"
| "json_type_name (JObject _) = ''object''"

definition response_top_level_keys :: "json \<Rightarrow> string list" where
  "response_top_level_keys v =
     (case json_as_object v of
        Some m \<Rightarrow> take 16 (map fst m)
      | None \<Rightarrow> [''<non-object: '' @ json_type_name v @ ''>''])"

definition map_response_to_auth_mode ::
  "('s, 'u, 'v) vault_lib \<Rightarrow> json \<Rightarrow> cred_error + resolved_vault_auth" where
  "map_response_to_auth_mode lib raw =
     and_then (map_err (\<lambda>e. vault_failed
       [Txt ''vault response did not match expected schema (expected username+password '',
        Txt ''or token as strings): '', Txt e]) (vt_from_value lib raw)) (\<lambda>parsed.
     case vs_token parsed of
       Some tok \<Rightarrow>
         if tok \<noteq> [] then Inr (VaultBearer tok)
         else Inl (vault_failed [Txt ''vault secret '', Txt [CHR 0x27], Txt ''token'', Txt [CHR 0x27],
           Txt '' field is set but empty''])
     | None \<Rightarrow>
         (case (vs_username parsed, vs_password parsed) of
            (Some u, Some p) \<Rightarrow>
              if u \<noteq> [] \<and> p \<noteq> [] then Inr (VaultBasic u p)
              else Inl (vault_failed
                [Txt ''vault secret has username and password fields but at least one is empty''])
          | _ \<Rightarrow> Inl (vault_failed
              ([Txt ''vault response missing both '', Txt [CHR 0x27], Txt ''token'', Txt [CHR 0x27],
                Txt '' and '', Txt [CHR 0x27], Txt ''username'', Txt [CHR 0x27], Txt ''+'', Txt [CHR 0x27],
                Txt ''password'', Txt [CHR 0x27], Txt '' (got keys: ''] @
               dbg_list (response_top_level_keys raw) @ [Txt '')'']))))"

section \<open>The provider\<close>

definition vault_key :: "string \<Rightarrow> string \<Rightarrow> string" where
  "vault_key prefix registry = (if prefix = [] then registry else prefix @ ''/'' @ registry)"

definition vault_not_found :: "vault_backend_error \<Rightarrow> bool" where
  "vault_not_found e = (case e of VaultApi code _ \<Rightarrow> code = 404 | VaultIo _ \<Rightarrow> False)"

definition vault_auth_mode ::
  "('s, 'u, 'v) vault_lib \<Rightarrow> 's vault_provider \<Rightarrow> string \<Rightarrow>
   ('s, cred_error, resolved_vault_auth option) io" where
  "vault_auth_mode lib pv registry =
     (if registry = [] then io_fail (vault_failed [Txt ''registry name must be non-empty''])
      else
      let key = vault_key (vp_prefix pv) registry in
      io_bind (io_try (vp_backend pv (vp_mount pv) key)) (\<lambda>r.
      case r of
        Inr raw \<Rightarrow>
          io_bind (io_lift (map_response_to_auth_mode lib raw)) (\<lambda>a. io_return (Some a))
      | Inl e \<Rightarrow>
          if vault_not_found e then io_return None
          else io_fail (vault_failed
            ([Txt ''read '', Txt (vp_mount pv), Txt ''/data/'', Txt key, Txt '': ''] @
             display_vault_error e))))"

text \<open>\<open>base64_encode\<close>, once more.\<close>

definition vault_base64_chunk :: "bytes \<Rightarrow> string" where
  "vault_base64_chunk chunk =
     (let b0 = chunk ! 0;
          b1 = if length chunk > 1 then chunk ! 1 else CHR 0x00;
          b2 = if length chunk > 2 then chunk ! 2 else CHR 0x00;
          w = base64_triple b0 b1 b2
      in [base64_digit w 18, base64_digit w 12,
          if length chunk > 1 then base64_digit w 6 else CHR ''='',
          if length chunk > 2 then base64_digit w 0 else CHR ''=''])"

definition vault_base64_encode :: "bytes \<Rightarrow> string" where
  "vault_base64_encode input = concat (map vault_base64_chunk (chunks3 input))"

definition vault_header :: "resolved_vault_auth \<Rightarrow> string" where
  "vault_header resolved =
     (case resolved of
        VaultBearer token \<Rightarrow> ''Bearer '' @ token
      | VaultBasic username password \<Rightarrow>
          ''Basic '' @ vault_base64_encode (username @ '':'' @ password))"

definition vault_resolve ::
  "('s, 'u, 'v) vault_lib \<Rightarrow> 's vault_provider \<Rightarrow> string \<Rightarrow> ('s, cred_error, credentials option) io" where
  "vault_resolve lib pv registry =
     io_bind (vault_auth_mode lib pv registry) (\<lambda>resolved.
     case resolved of
       None \<Rightarrow> io_return None
     | Some r \<Rightarrow> io_return (Some
         \<lparr>cr_auth_header = vault_header r, cr_source = vault_provider_name\<rparr>))"

section \<open>The production backend\<close>

definition vaultrs_backend_new ::
  "('s, 'u, 'v) vault_lib \<Rightarrow> string \<Rightarrow> string \<Rightarrow> ('s, cred_error, 'v) io" where
  "vaultrs_backend_new lib address token =
     (if address = [] then io_fail (vault_failed [Txt env_vault_addr, Txt '' must be non-empty''])
      else if token = [] then io_fail (vault_failed [Txt env_vault_token, Txt '' must be non-empty''])
      else
      io_bind (io_lift (map_err (\<lambda>e. vault_failed [Txt ''vault settings: '', Txt e])
        (vt_settings lib address token))) (\<lambda>settings.
      io_bind (io_lift (map_err (\<lambda>e. vault_failed [Txt ''vault client: '', Txt e])
        (vt_client lib settings))) (\<lambda>client.
      io_bind (io_map_err (CredIo vault_provider_name) (vt_runtime lib)) (\<lambda>_.
      io_return client))))"

fun join_text :: "string \<Rightarrow> string list \<Rightarrow> string" where
  "join_text sep [] = []"
| "join_text sep [x] = x"
| "join_text sep (x # xs) = x @ sep @ join_text sep xs"

definition vaultrs_read_kv2 :: "('s, 'u, 'v) vault_lib \<Rightarrow> 'v \<Rightarrow> 's vault_backend" where
  "vaultrs_read_kv2 lib client mount key =
     io_map_err (\<lambda>e.
       case e of
         APIError code errors \<Rightarrow>
           VaultApi code (if errors = [] then ''HTTP '' @ dec_of_nat code else join_text ''; '' errors)
       | OtherClientError t \<Rightarrow> VaultIo t) (vt_read lib client mount key)"

definition vault_new ::
  "('s, 'u, 'v) vault_lib \<Rightarrow> string \<Rightarrow> string \<Rightarrow> string \<Rightarrow> ('s, cred_error, 's vault_provider) io" where
  "vault_new lib address token base_path =
     io_bind (vaultrs_backend_new lib address token) (\<lambda>client.
     io_lift (vault_with_backend (vaultrs_read_kv2 lib client) base_path))"

definition vault_from_env ::
  "(('w, 'x) sys_scheme, 'u, 'v) vault_lib \<Rightarrow> string \<Rightarrow>
   (('w, 'x) sys_scheme, cred_error, ('w, 'x) sys_scheme vault_provider option) io" where
  "vault_from_env lib base_path =
     io_bind (env_var env_vault_addr) (\<lambda>addr.
     case addr of
       None \<Rightarrow> io_return None
     | Some a \<Rightarrow>
         if a = [] then io_return None else
         io_bind (env_var env_vault_token) (\<lambda>token.
         case token of
           None \<Rightarrow> io_return None
         | Some t \<Rightarrow>
             if t = [] then io_return None else
             io_bind (vault_new lib a t base_path) (\<lambda>pv. io_return (Some pv))))"

section \<open>The contract\<close>

lemma vault_base64: "vault_base64_encode = base64_encode"
proof -
  have "vault_base64_chunk = cred_base64_chunk"
    by (simp add: fun_eq_iff vault_base64_chunk_def cred_base64_chunk_def)
  then have "vault_base64_encode = cred_base64_encode"
    by (intro ext) (simp only: vault_base64_encode_def cred_base64_encode_def)
  then show ?thesis by (simp only: cred_base64)
qed

definition secret_grants :: "vault_secret \<Rightarrow> resolved_vault_auth \<Rightarrow> bool" where
  "secret_grants v r \<longleftrightarrow>
     (case vs_token v of
        Some tok \<Rightarrow> tok \<noteq> [] \<and> r = VaultBearer tok
      | None \<Rightarrow> (\<exists>u p. vs_username v = Some u \<and> vs_password v = Some p \<and> u \<noteq> [] \<and> p \<noteq> [] \<and>
          r = VaultBasic u p))"

lemma map_response_iff:
  "map_response_to_auth_mode lib raw = Inr r \<longleftrightarrow> (\<exists>v. vt_from_value lib raw = Inr v \<and> secret_grants v r)"
proof (cases "vt_from_value lib raw")
  case (Inl e)
  then show ?thesis by (simp add: map_response_to_auth_mode_def and_then_def)
next
  case (Inr v)
  then show ?thesis
    by (cases "vs_token v"; cases "vs_username v"; cases "vs_password v")
      (auto simp: map_response_to_auth_mode_def secret_grants_def and_then_def)
qed

lemma map_response_fails: "map_response_to_auth_mode lib raw = Inl e \<Longrightarrow> \<exists>d. e = vault_failed d"
  by (auto simp: map_response_to_auth_mode_def and_then_def map_err_def
      split: sum.splits option.splits if_splits)

lemma vault_auth_mode_run:
  assumes "vp_backend pv (vp_mount pv) (vault_key (vp_prefix pv) registry) s = (r, t)"
  shows "vault_auth_mode lib pv registry s =
    (if registry = [] then (Inl (vault_failed [Txt ''registry name must be non-empty'']), s)
     else case r of
       Inr raw \<Rightarrow> (case map_response_to_auth_mode lib raw of Inl x \<Rightarrow> (Inl x, t) | Inr a \<Rightarrow> (Inr (Some a), t))
     | Inl e \<Rightarrow>
         if vault_not_found e then (Inr None, t)
         else (Inl (vault_failed ([Txt ''read '', Txt (vp_mount pv), Txt ''/data/'',
           Txt (vault_key (vp_prefix pv) registry), Txt '': ''] @ display_vault_error e)), t))"
  using assms by (auto simp: vault_auth_mode_def Let_def io_defs split: sum.split)

lemma vault_resolve_run:
  "vault_resolve lib pv registry s =
     (case vault_auth_mode lib pv registry s of
        (Inl e, u) \<Rightarrow> (Inl e, u)
      | (Inr None, u) \<Rightarrow> (Inr None, u)
      | (Inr (Some a), u) \<Rightarrow>
          (Inr (Some \<lparr>cr_auth_header = vault_header a, cr_source = vault_provider_name\<rparr>), u))"
  by (auto simp: vault_resolve_def io_defs split: prod.split sum.split option.split)

text \<open>A backend may change anything; of the provider only its signature is known.\<close>

interpretation vault: credential_reader vault_provider_name "vault_resolve lib pv" "\<lambda>_ _. True" for lib pv
proof
  fix registry s c t
  assume "vault_resolve lib pv registry s = (Inr (Some c), t)"
  then show "cr_source c = vault_provider_name \<and> cr_auth_header c \<noteq> []"
    by (auto simp: vault_resolve_run vault_header_def
        split: prod.splits sum.splits option.splits resolved_vault_auth.splits)
next
  fix registry s e t
  assume run: "vault_resolve lib pv registry s = (Inl e, t)"
  obtain r u where "vp_backend pv (vp_mount pv) (vault_key (vp_prefix pv) registry) s = (r, u)" by fastforce
  from run vault_auth_mode_run [OF this, of lib] show "provider_of e = vault_provider_name"
    by (auto simp: vault_resolve_run vault_failed_def provider_of_def
        split: sum.splits option.splits if_splits dest: map_response_fails)
qed simp

section \<open>The base path read on the wire\<close>

lemma find_str_Some: "find_str s t = Some i \<Longrightarrow> i \<le> length s \<and> starts_with (drop i s) t"
  by (induction s arbitrary: i) (auto split: if_splits)

lemma find_str_at_most: "\<exists>i \<le> length a. find_str (a @ t @ b) t = Some i"
proof (induction a)
  case Nil
  have "starts_with (t @ b) t" by (auto simp: starts_with_iff)
  then show ?case by (cases "t @ b") auto
next
  case (Cons x a)
  then show ?case by auto
qed

text \<open>The first occurrence is the one after \<open>a\<close> when none begins inside \<open>a\<close>.\<close>

lemma find_str_first:
  assumes "\<not> contains_str (a @ butlast t) t"
  shows "find_str (a @ t @ b) t = Some (length a)"
proof -
  obtain i where i: "i \<le> length a" "find_str (a @ t @ b) t = Some i"
    using find_str_at_most by blast
  show ?thesis
  proof (cases "i = length a")
    case False
    with i have lt: "i < length a" by simp
    from find_str_Some [OF i(2)] obtain u where u: "drop i (a @ t @ b) = t @ u"
      by (auto simp: starts_with_iff)
    have "take (length t) (drop i (a @ butlast t)) = take (length t) (drop i (a @ t @ b))"
      using lt by (cases t rule: rev_cases) (simp_all add: take_Cons')
    also have "\<dots> = t" unfolding u by simp
    finally have "take (length t) (drop i (a @ butlast t)) = t" .
    then have "a @ butlast t = take i (a @ butlast t) @ t @ drop (i + length t) (a @ butlast t)"
      by (metis append_take_drop_id drop_drop add.commute)
    then have "contains_str (a @ butlast t) t" unfolding contains_str_iff by blast
    with assms show ?thesis by blast
  qed (use i in simp)
qed

lemma trim_matches_id:
  assumes "p = [] \<or> hd p \<noteq> c \<and> last p \<noteq> c"
  shows "trim_matches c p = p"
  using assms
proof (cases "p = []")
  case False
  with assms have "dropWhile (\<lambda>x. x = c) p = p" "dropWhile (\<lambda>x. x = c) (rev p) = rev p"
    by (simp_all add: dropWhile_eq_self_iff hd_rev)
  then show ?thesis by (simp add: trim_matches_def trim_start_matches_def trim_end_matches_def)
qed (simp add: trim_matches_def trim_start_matches_def trim_end_matches_def)

lemma strip_suffix_append: "strip_suffix suf (x @ suf) = Some x"
  by (simp add: strip_suffix_def ends_with_iff)

lemma strip_suffix_one: "s \<noteq> [] \<Longrightarrow> last s \<noteq> c \<Longrightarrow> strip_suffix [c] s = None"
  by (auto simp: strip_suffix_def ends_with_iff)

text \<open>A base path that names a mount and a prefix is read as these two.\<close>

lemma parse_base_path_roundtrip:
  assumes "mount \<noteq> []" and "\<not> contains_str (mount @ ''/data'') ''/data/''"
    and "prefix \<noteq> []" and "hd prefix \<noteq> CHR ''/''" and "last prefix \<noteq> CHR ''/''"
  shows "parse_base_path (mount @ ''/data/'' @ prefix) = Inr (mount, prefix)"
    and "parse_base_path (mount @ ''/data/'' @ prefix @ ''/'') = Inr (mount, prefix)"
proof -
  let ?w = "mount @ ''/data/'' @ prefix"
  have find: "find_str ?w ''/data/'' = Some (length mount)"
    using find_str_first [of mount "''/data/''" prefix] assms(2) by simp
  have split: "split_base base ?w = Inr (mount, prefix)" for base
    using assms by (simp add: split_base_def split_once_at_def find [simplified] trim_matches_id)
  have "strip_suffix ''/'' ?w = None"
    using assms(3,5) by (auto simp: strip_suffix_def ends_with_iff append_eq_append_conv2 Cons_eq_append_conv
        dest: arg_cong [of _ _ last])
  then show "parse_base_path ?w = Inr (mount, prefix)"
    using assms(1) split by (simp add: parse_base_path_def and_then_def)
  have "strip_suffix ''/'' (?w @ ''/'') = Some ?w" by (rule strip_suffix_append)
  then show "parse_base_path (mount @ ''/data/'' @ prefix @ ''/'') = Inr (mount, prefix)"
    using assms(1) split by (simp add: parse_base_path_def and_then_def)
qed

section \<open>Properties\<close>


definition sample_vault_lib :: "(fs, unit, unit) vault_lib" where
  "sample_vault_lib =
     \<lparr>vt_from_value = (\<lambda>_. Inr \<lparr>vs_username = Some ''u'', vs_password = Some ''p'', vs_token = Some ''t''\<rparr>),
      vt_settings = (\<lambda>_ _. Inr ()), vt_client = (\<lambda>_. Inr ()), vt_runtime = io_return (),
      vt_read = (\<lambda>_ mount key.
        if mount = ''secret'' \<and> key = ''registry/ghcr.io'' then io_return JNull
        else io_fail (APIError 404 []))\<rparr>"

definition sample_vault :: "fs vault_provider" where
  "sample_vault =
     \<lparr>vp_backend = vaultrs_read_kv2 sample_vault_lib (), vp_mount = ''secret'', vp_prefix = ''registry''\<rparr>"


end
