(* ===== verification/Spec_Types.thy ===== *)
theory Spec_Types
  imports Json
begin

text \<open>
  The data of the crate \<open>spec\<close>: the typed specification (\<open>api/spec.rs\<close>), its attestation
  block (\<open>api/attestation.rs\<close>), the errors (\<open>api/error.rs\<close>), the raw schema the TOML is
  read into (\<open>core/raw.rs\<close>) and the loaded specification (\<open>api/loaded.rs\<close>). The enums that
  have a wire name share one contract, the locale \<open>wire_enum\<close>.
\<close>

section \<open>Enums with a wire form\<close>

text \<open>
  A fieldless enum is written as one value of a wire type and read back with a partial
  function: reading what was written gives the enum back, and nothing else is read as it.
\<close>

locale wire_enum =
  fixes read_wire :: "'r \<Rightarrow> 'a option"
    and write_wire :: "'a \<Rightarrow> 'r"
  assumes read_write: "read_wire (write_wire x) = Some x"
    and read_sound: "read_wire r = Some x \<Longrightarrow> write_wire x = r"
begin

lemma read_Some_iff: "read_wire r = Some x \<longleftrightarrow> r = write_wire x"
  using read_write read_sound by metis

lemma read_None_iff: "read_wire r = None \<longleftrightarrow> r \<notin> range write_wire"
  using read_write read_sound by (metis not_None_eq rangeE rangeI)

lemma write_inj: "write_wire x = write_wire y \<longleftrightarrow> x = y"
  using read_write by (metis option.inject)

end

section \<open>The typed specification\<close>

datatype spec_version = V0

definition spec_version_as_str :: "spec_version \<Rightarrow> string" where
  "spec_version_as_str v = (case v of V0 \<Rightarrow> ''0'')"

record artifact_id =
  ai_name :: string
  ai_tag :: string

definition to_string_form :: "artifact_id \<Rightarrow> string" where
  "to_string_form i = ai_name i @ '':'' @ ai_tag i"

datatype kind = OciArtifact | VmImage | RawImage

fun kind_as_str :: "kind \<Rightarrow> string" where
  "kind_as_str OciArtifact = ''oci_artifact''"
| "kind_as_str VmImage = ''vm_image''"
| "kind_as_str RawImage = ''raw_image''"

definition kind_parse :: "string \<Rightarrow> kind option" where
  "kind_parse s =
     (if s = ''oci_artifact'' then Some OciArtifact
      else if s = ''vm_image'' then Some VmImage
      else if s = ''raw_image'' then Some RawImage
      else None)"

record platform =
  pf_os :: "string option"
  pf_arch :: "string option"

definition default_platform :: platform where
  "default_platform = \<lparr>pf_os = None, pf_arch = None\<rparr>"

record layer_file =
  lf_source :: path
  lf_dest :: string
  lf_mode :: "32 word"

datatype layer_source = Blob path | Files "layer_file list"

datatype media_type = MediaType string

fun media_type_as_str :: "media_type \<Rightarrow> string" where
  "media_type_as_str (MediaType s) = s"

datatype media_type_parse_error = Malformed string string

definition valid_media_char :: "char \<Rightarrow> bool" where
  "valid_media_char c \<longleftrightarrow>
     is_ascii_alphanumeric c \<or> c = CHR ''.'' \<or> c = CHR ''+'' \<or> c = CHR ''-'' \<or> c = CHR ''_''"

definition media_type_parse :: "string \<Rightarrow> media_type_parse_error + media_type" where
  "media_type_parse s =
     (case split_once (CHR ''/'') s of
        None \<Rightarrow> Inl (Malformed s ''missing '/' between type and subtype'')
      | Some (typ, rest) \<Rightarrow>
          if typ = [] then Inl (Malformed s ''type before '/' cannot be empty'')
          else if rest = [] then Inl (Malformed s ''subtype after '/' cannot be empty'')
          else if \<not> list_all valid_media_char typ \<or> \<not> list_all valid_media_char rest
          then Inl (Malformed s
                 ''characters outside RFC 6838 restricted-name + '+' suffix marker'')
          else Inr (MediaType s))"

datatype compression = CompressionNone | Gzip | Zstd

fun compression_as_str :: "compression \<Rightarrow> string" where
  "compression_as_str CompressionNone = ''none''"
| "compression_as_str Gzip = ''gzip''"
| "compression_as_str Zstd = ''zstd''"

record layer =
  ly_source :: layer_source
  ly_media_type :: media_type
  ly_compression :: compression

datatype config_blob = ConfigBlob json

definition default_config_blob :: config_blob where
  "default_config_blob = ConfigBlob (JObject [])"

section \<open>Attestation\<close>

datatype slsa_level = SlsaOff | L1 | L2 | L3 | L4

definition slsa_from_int :: "int \<Rightarrow> slsa_level option" where
  "slsa_from_int n =
     (if n = 0 then Some SlsaOff else if n = 1 then Some L1 else if n = 2 then Some L2
      else if n = 3 then Some L3 else if n = 4 then Some L4 else None)"

fun slsa_as_int :: "slsa_level \<Rightarrow> int" where
  "slsa_as_int SlsaOff = 0"
| "slsa_as_int L1 = 1"
| "slsa_as_int L2 = 2"
| "slsa_as_int L3 = 3"
| "slsa_as_int L4 = 4"

record slsa_config =
  sl_level :: slsa_level
  sl_builder_id :: "string option"

definition default_slsa :: slsa_config where
  "default_slsa = \<lparr>sl_level = L2, sl_builder_id = None\<rparr>"

datatype sbom_format = CycloneDx | Spdx | SbomOff

definition sbom_format_parse :: "string \<Rightarrow> sbom_format option" where
  "sbom_format_parse s =
     (if s = ''cyclonedx'' then Some CycloneDx
      else if s = ''spdx'' then Some Spdx
      else if s = ''off'' then Some SbomOff
      else None)"

fun sbom_format_as_str :: "sbom_format \<Rightarrow> string" where
  "sbom_format_as_str CycloneDx = ''cyclonedx''"
| "sbom_format_as_str Spdx = ''spdx''"
| "sbom_format_as_str SbomOff = ''off''"

datatype sbom_scope = ScopeLayers | ScopeSources | ScopeBoth

definition sbom_scope_parse :: "string \<Rightarrow> sbom_scope option" where
  "sbom_scope_parse s =
     (if s = ''layers'' then Some ScopeLayers
      else if s = ''sources'' then Some ScopeSources
      else if s = ''both'' then Some ScopeBoth
      else None)"

fun sbom_scope_as_str :: "sbom_scope \<Rightarrow> string" where
  "sbom_scope_as_str ScopeLayers = ''layers''"
| "sbom_scope_as_str ScopeSources = ''sources''"
| "sbom_scope_as_str ScopeBoth = ''both''"

record sbom_config =
  sb_format :: sbom_format
  sb_scope :: sbom_scope

definition default_sbom :: sbom_config where
  "default_sbom = \<lparr>sb_format = CycloneDx, sb_scope = ScopeLayers\<rparr>"

datatype sign_kind = CosignKeyless | CosignKey | SignOff

definition sign_kind_parse :: "string \<Rightarrow> sign_kind option" where
  "sign_kind_parse s =
     (if s = ''cosign-keyless'' then Some CosignKeyless
      else if s = ''cosign-key'' then Some CosignKey
      else if s = ''off'' then Some SignOff
      else None)"

fun sign_kind_as_str :: "sign_kind \<Rightarrow> string" where
  "sign_kind_as_str CosignKeyless = ''cosign-keyless''"
| "sign_kind_as_str CosignKey = ''cosign-key''"
| "sign_kind_as_str SignOff = ''off''"

record sign_config =
  sg_kind :: sign_kind
  sg_identity :: "string option"

definition default_sign :: sign_config where
  "default_sign = \<lparr>sg_kind = CosignKeyless, sg_identity = None\<rparr>"

record attestation_config =
  at_slsa :: slsa_config
  at_sbom :: sbom_config
  at_sign :: sign_config

definition default_attestation :: attestation_config where
  "default_attestation =
     \<lparr>at_slsa = default_slsa, at_sbom = default_sbom, at_sign = default_sign\<rparr>"

record spec =
  sp_spec_version :: spec_version
  sp_id :: artifact_id
  sp_kind :: kind
  sp_description :: "string option"
  sp_platform :: platform
  sp_layers :: "layer list"
  sp_config :: config_blob
  sp_annotations :: "string btree"
  sp_attestation :: attestation_config

record loaded_spec =
  ls_spec :: spec
  ls_spec_dir :: path

text \<open>\<open>LoadedSpec::resolve\<close>.\<close>

definition loaded_resolve :: "loaded_spec \<Rightarrow> path \<Rightarrow> path" where
  "loaded_resolve l p = (if path_is_absolute p then p else path_join (ls_spec_dir l) p)"

section \<open>Errors\<close>

datatype detail = DetailText string | DetailIo io_error

text \<open>
  The variants of \<open>SpecError\<close>; \<open>IndexPanic\<close> stands for the panic of an out-of-range
  \<open>layers[pos]\<close>.
\<close>

datatype spec_error =
    UnsupportedSpecVersion string "string list"
  | MalformedId string string
  | UnknownKind string
  | WrongLayerCount string string nat
  | WrongLayerOrder nat string string
  | LayerSourceConflict nat string
  | UnreadableSource nat path detail
  | EmptyFilesBlock nat
  | MalformedMediaType nat string
  | UnknownCompression nat string
  | SlsaLevelOutOfRange int
  | UnknownSbomFormat string
  | UnknownSbomScope string
  | UnknownSignKind string
  | MissingSigningKeyPath
  | InvalidReservedAnnotation string string
  | TomlParse string
  | SpecIo path io_error
  | IndexPanic nat

section \<open>The raw schema\<close>

record raw_platform =
  rp_os :: "string option"
  rp_arch :: "string option"

record raw_layer_file =
  rf_source :: path
  rf_dest :: string
  rf_mode :: "32 word"

record raw_layer =
  rl_source :: "path option"
  rl_media_type :: string
  rl_compression :: "string option"
  rl_files :: "raw_layer_file list option"

record raw_slsa =
  rw_level :: "int option"
  rw_builder_id :: "string option"

record raw_sbom =
  rb_format :: "string option"
  rb_scope :: "string option"

record raw_sign =
  rg_kind :: "string option"
  rg_identity :: "string option"

record raw_attestation =
  ra_slsa :: "raw_slsa option"
  ra_sbom :: "raw_sbom option"
  ra_sign :: "raw_sign option"

record raw_spec =
  rs_spec_version :: string
  rs_id :: string
  rs_kind :: string
  rs_description :: "string option"
  rs_platform :: "raw_platform option"
  rs_layers :: "raw_layer list"
  rs_config :: "toml option"
  rs_annotations :: "string btree option"
  rs_attestation :: "raw_attestation option"

section \<open>The enums meet the contract\<close>

interpretation kind_wire: wire_enum kind_parse kind_as_str
proof
  show "kind_parse (kind_as_str x) = Some x" for x
    by (cases x) (simp_all add: kind_parse_def)
  show "kind_parse r = Some x \<Longrightarrow> kind_as_str x = r" for r x
    by (auto simp: kind_parse_def split: if_splits)
qed

interpretation slsa_wire: wire_enum slsa_from_int slsa_as_int
proof
  show "slsa_from_int (slsa_as_int x) = Some x" for x
    by (cases x) (simp_all add: slsa_from_int_def)
  show "slsa_from_int r = Some x \<Longrightarrow> slsa_as_int x = r" for r x
    by (auto simp: slsa_from_int_def split: if_splits)
qed

interpretation sbom_format_wire: wire_enum sbom_format_parse sbom_format_as_str
proof
  show "sbom_format_parse (sbom_format_as_str x) = Some x" for x
    by (cases x) (simp_all add: sbom_format_parse_def)
  show "sbom_format_parse r = Some x \<Longrightarrow> sbom_format_as_str x = r" for r x
    by (auto simp: sbom_format_parse_def split: if_splits)
qed

interpretation sbom_scope_wire: wire_enum sbom_scope_parse sbom_scope_as_str
proof
  show "sbom_scope_parse (sbom_scope_as_str x) = Some x" for x
    by (cases x) (simp_all add: sbom_scope_parse_def)
  show "sbom_scope_parse r = Some x \<Longrightarrow> sbom_scope_as_str x = r" for r x
    by (auto simp: sbom_scope_parse_def split: if_splits)
qed

interpretation sign_kind_wire: wire_enum sign_kind_parse sign_kind_as_str
proof
  show "sign_kind_parse (sign_kind_as_str x) = Some x" for x
    by (cases x) (simp_all add: sign_kind_parse_def)
  show "sign_kind_parse r = Some x \<Longrightarrow> sign_kind_as_str x = r" for r x
    by (auto simp: sign_kind_parse_def split: if_splits)
qed

end
