(* ===== verification/Spec_Validate.thy ===== *)
theory Spec_Validate
  imports Spec_Types
begin

text \<open>
  \<open>core/validate.rs\<close> and \<open>saf/parse.rs\<close>: from the raw schema to the typed specification,
  in the order of the source, so that the first broken rule decides the error. Reading the
  TOML text (\<open>toml::from_str\<close>) is a parameter.
\<close>

section \<open>Identifier\<close>

definition valid_name_head :: "char \<Rightarrow> bool" where
  "valid_name_head c \<longleftrightarrow> is_ascii_lowercase c \<or> is_ascii_digit c"

definition valid_name_char :: "char \<Rightarrow> bool" where
  "valid_name_char c \<longleftrightarrow>
     is_ascii_lowercase c \<or> is_ascii_digit c \<or> c = CHR ''.'' \<or> c = CHR ''_'' \<or> c = CHR ''-''"

definition valid_tag_char :: "char \<Rightarrow> bool" where
  "valid_tag_char c \<longleftrightarrow>
     is_ascii_alphanumeric c \<or> c = CHR ''.'' \<or> c = CHR ''_'' \<or> c = CHR ''-''"

definition parse_id :: "string \<Rightarrow> spec_error + artifact_id" where
  "parse_id s =
     (case split_once (CHR '':'') s of
        None \<Rightarrow> Inl (MalformedId s ''missing ':' between name and tag'')
      | Some (name, tag) \<Rightarrow>
          (case name of
             [] \<Rightarrow> Inl (MalformedId s ''name cannot be empty'')
           | first # name_chars \<Rightarrow>
               if tag = [] then Inl (MalformedId s ''tag cannot be empty'')
               else if \<not> valid_name_head first
               then Inl (MalformedId s ''name must start with [a-z0-9]'')
               else if \<not> list_all valid_name_char name_chars
               then Inl (MalformedId s ''name body must match [a-z0-9._-]'')
               else if \<not> list_all valid_tag_char tag
               then Inl (MalformedId s ''tag must match [a-zA-Z0-9._-]'')
               else Inr \<lparr>ai_name = name, ai_tag = tag\<rparr>))"

section \<open>Layers\<close>

definition ge_one_text :: string where
  "ge_one_text = [char_of (226::nat), char_of (137::nat), char_of (165::nat), CHR ''1'']"

definition layer_count_rule :: "kind \<Rightarrow> nat \<Rightarrow> bool \<times> string" where
  "layer_count_rule k actual =
     (case k of
        OciArtifact \<Rightarrow> (1 \<le> actual, ge_one_text)
      | VmImage \<Rightarrow> (actual = 3, ''exactly 3'')
      | RawImage \<Rightarrow> (actual = 1, ''exactly 1''))"

definition check_layer_count :: "kind \<Rightarrow> nat \<Rightarrow> spec_error + unit" where
  "check_layer_count k actual =
     (case layer_count_rule k actual of (allowed, expected_str) \<Rightarrow>
        guard_err allowed (WrongLayerCount (kind_as_str k) expected_str actual))"

definition default_compression :: "string \<Rightarrow> compression" where
  "default_compression mt =
     (if ends_with mt ''+gzip'' then Gzip
      else if ends_with mt ''+zstd'' then Zstd
      else CompressionNone)"

definition compression_of_raw :: "nat \<Rightarrow> raw_layer \<Rightarrow> spec_error + compression" where
  "compression_of_raw position raw =
     (case rl_compression raw of
        Some s \<Rightarrow>
          if s = ''none'' then Inr CompressionNone
          else if s = ''gzip'' then Inr Gzip
          else if s = ''zstd'' then Inr Zstd
          else Inl (UnknownCompression position s)
      | None \<Rightarrow> Inr (default_compression (rl_media_type raw)))"

definition resolve_in :: "path \<Rightarrow> path \<Rightarrow> path" where
  "resolve_in spec_dir p = (if path_is_absolute p then p else path_join spec_dir p)"

text \<open>The \<open>Blob\<close> arm: one \<open>fs::metadata\<close> call on the resolved path.\<close>

definition check_blob_source ::
  "nat \<Rightarrow> path \<Rightarrow> path \<Rightarrow> ('x fs_scheme, spec_error, layer_source) io" where
  "check_blob_source position spec_dir p =
     io_bind (io_try (fs_metadata (resolve_in spec_dir p))) (\<lambda>r.
       case r of
         Inr (FileNode _) \<Rightarrow> io_return (Blob p)
       | Inr _ \<Rightarrow> io_fail (UnreadableSource position p
                     (DetailText ''path exists but is not a regular file''))
       | Inl e \<Rightarrow> io_fail (UnreadableSource position p (DetailIo e)))"

text \<open>The \<open>Files\<close> arm: every source has to exist.\<close>

definition check_file_source ::
  "nat \<Rightarrow> path \<Rightarrow> raw_layer_file \<Rightarrow> unit \<Rightarrow> ('x fs_scheme, spec_error, unit) io" where
  "check_file_source position spec_dir f u =
     io_bind (fs_exists (resolve_in spec_dir (rf_source f))) (\<lambda>found.
       if \<not> found
       then io_fail (UnreadableSource position (rf_source f)
              (DetailText ''file or directory does not exist''))
       else io_return ())"

definition layer_file_of_raw :: "raw_layer_file \<Rightarrow> layer_file" where
  "layer_file_of_raw f = \<lparr>lf_source = rf_source f, lf_dest = rf_dest f, lf_mode = rf_mode f\<rparr>"

definition validate_source ::
  "nat \<Rightarrow> raw_layer \<Rightarrow> path \<Rightarrow> ('x fs_scheme, spec_error, layer_source) io" where
  "validate_source position raw spec_dir =
     (case (rl_source raw, rl_files raw) of
        (Some _, Some _) \<Rightarrow> io_fail (LayerSourceConflict position
           ''both `source = \"...\"` and `[[layers.files]]` set'')
      | (None, None) \<Rightarrow> io_fail (LayerSourceConflict position
           ''neither `source = \"...\"` nor `[[layers.files]]` set'')
      | (Some p, None) \<Rightarrow> check_blob_source position spec_dir p
      | (None, Some files) \<Rightarrow>
          if files = [] then io_fail (EmptyFilesBlock position)
          else io_bind (io_fold (check_file_source position spec_dir) files ()) (\<lambda>_.
                 io_return (Files (map layer_file_of_raw files))))"

definition validate_layer ::
  "nat \<Rightarrow> raw_layer \<Rightarrow> path \<Rightarrow> ('x fs_scheme, spec_error, layer) io" where
  "validate_layer position raw spec_dir =
     io_bind (validate_source position raw spec_dir) (\<lambda>src.
     io_bind (io_lift (map_err (\<lambda>_. MalformedMediaType position (rl_media_type raw))
                (media_type_parse (rl_media_type raw)))) (\<lambda>mt.
     io_bind (io_lift (compression_of_raw position raw)) (\<lambda>comp.
     io_return \<lparr>ly_source = src, ly_media_type = mt, ly_compression = comp\<rparr>)))"

definition vm_markers :: "(nat \<times> string) list" where
  "vm_markers = [(0, ''kernel''), (1, ''initrd''), (2, ''rootfs'')]"

fun check_markers :: "(nat \<times> string) list \<Rightarrow> layer list \<Rightarrow> spec_error + unit" where
  "check_markers [] layers = Inr ()"
| "check_markers ((pos, marker) # rest) layers =
     (if pos < length layers then
        (let mt = media_type_as_str (ly_media_type (layers ! pos)) in
         if contains_str mt marker then check_markers rest layers
         else Inl (WrongLayerOrder pos marker mt))
      else Inl (IndexPanic pos))"

definition check_layer_order :: "kind \<Rightarrow> layer list \<Rightarrow> spec_error + unit" where
  "check_layer_order k layers =
     (if k \<noteq> VmImage then Inr () else check_markers vm_markers layers)"

section \<open>Annotations\<close>

definition key_created :: string where
  "key_created = ''org.opencontainers.image.created''"

definition key_version :: string where
  "key_version = ''org.opencontainers.image.version''"

definition looks_rfc3339 :: "string \<Rightarrow> bool" where
  "looks_rfc3339 created \<longleftrightarrow>
     contains_char created (CHR ''T'') \<and>
     (ends_with created ''Z'' \<or> contains_char created (CHR ''+'') \<or>
      3 \<le> count_list created (CHR ''-''))"

definition validate_reserved_annotations :: "string btree \<Rightarrow> spec_error + unit" where
  "validate_reserved_annotations annotations =
     and_then
       (case map_of annotations key_created of
          Some created \<Rightarrow> guard_err (looks_rfc3339 created)
            (InvalidReservedAnnotation key_created
               ''must be RFC3339 (e.g. '2026-04-26T12:00:00Z')'')
        | None \<Rightarrow> Inr ())
       (\<lambda>_. case map_of annotations key_version of
          Some version \<Rightarrow> guard_err (\<not> trims_to_empty version)
            (InvalidReservedAnnotation key_version ''must be non-empty'')
        | None \<Rightarrow> Inr ())"

section \<open>Attestation\<close>

definition validate_slsa :: "raw_slsa option \<Rightarrow> spec_error + slsa_config" where
  "validate_slsa raw =
     (case raw of
        None \<Rightarrow> Inr default_slsa
      | Some r \<Rightarrow>
          and_then
            (case rw_level r of
               Some n \<Rightarrow> ok_or (SlsaLevelOutOfRange n) (slsa_from_int n)
             | None \<Rightarrow> Inr (sl_level default_slsa))
            (\<lambda>level. Inr \<lparr>sl_level = level, sl_builder_id = rw_builder_id r\<rparr>))"

definition validate_sbom_cfg :: "raw_sbom option \<Rightarrow> spec_error + sbom_config" where
  "validate_sbom_cfg raw =
     (case raw of
        None \<Rightarrow> Inr default_sbom
      | Some r \<Rightarrow>
          and_then
            (case rb_format r of
               Some s \<Rightarrow> ok_or (UnknownSbomFormat s) (sbom_format_parse s)
             | None \<Rightarrow> Inr (sb_format default_sbom))
            (\<lambda>format. and_then
               (case rb_scope r of
                  Some s \<Rightarrow> ok_or (UnknownSbomScope s) (sbom_scope_parse s)
                | None \<Rightarrow> Inr (sb_scope default_sbom))
               (\<lambda>scope. Inr \<lparr>sb_format = format, sb_scope = scope\<rparr>)))"

definition validate_sign :: "raw_sign option \<Rightarrow> spec_error + sign_config" where
  "validate_sign raw =
     (case raw of
        None \<Rightarrow> Inr default_sign
      | Some r \<Rightarrow>
          and_then
            (case rg_kind r of
               Some s \<Rightarrow> ok_or (UnknownSignKind s) (sign_kind_parse s)
             | None \<Rightarrow> Inr (sg_kind default_sign))
            (\<lambda>k. if k = CosignKey \<and> rg_identity r = None then Inl MissingSigningKeyPath
                 else Inr \<lparr>sg_kind = k, sg_identity = rg_identity r\<rparr>))"

definition validate_attestation :: "raw_attestation \<Rightarrow> spec_error + attestation_config" where
  "validate_attestation raw =
     and_then (validate_slsa (ra_slsa raw)) (\<lambda>slsa.
     and_then (validate_sbom_cfg (ra_sbom raw)) (\<lambda>sbom.
     and_then (validate_sign (ra_sign raw)) (\<lambda>sign.
     Inr \<lparr>at_slsa = slsa, at_sbom = sbom, at_sign = sign\<rparr>)))"

section \<open>Configuration block\<close>

fun toml_to_json :: "toml \<Rightarrow> json" where
  "toml_to_json (TString s) = JString s"
| "toml_to_json (TInteger i) = JInt i"
| "toml_to_json (TFloat b) = (case number_from_f64 b of Some n \<Rightarrow> n | None \<Rightarrow> JNull)"
| "toml_to_json (TBoolean b) = JBool b"
| "toml_to_json (TArray arr) = JArray (map toml_to_json arr)"
| "toml_to_json (TTable t) = JObject (bt_of_list (map (\<lambda>(k, v). (k, toml_to_json v)) t))"
| "toml_to_json (TDatetime dt) = JString dt"

section \<open>The whole validation\<close>

definition parse_version :: "string \<Rightarrow> spec_error + spec_version" where
  "parse_version v =
     (if v = ''0'' then Inr V0 else Inl (UnsupportedSpecVersion v [''0'']))"

definition platform_of_raw :: "raw_platform option \<Rightarrow> platform" where
  "platform_of_raw r =
     (case r of
        Some p \<Rightarrow> \<lparr>pf_os = rp_os p, pf_arch = rp_arch p\<rparr>
      | None \<Rightarrow> default_platform)"

definition config_of_raw :: "toml option \<Rightarrow> config_blob" where
  "config_of_raw c =
     (case c of Some v \<Rightarrow> ConfigBlob (toml_to_json v) | None \<Rightarrow> default_config_blob)"

definition annotations_of_raw :: "string btree option \<Rightarrow> string btree" where
  "annotations_of_raw a = (case a of Some m \<Rightarrow> m | None \<Rightarrow> [])"

definition validate :: "raw_spec \<Rightarrow> path \<Rightarrow> ('x fs_scheme, spec_error, spec) io" where
  "validate raw spec_dir =
     io_bind (io_lift (parse_version (rs_spec_version raw))) (\<lambda>version.
     io_bind (io_lift (parse_id (rs_id raw))) (\<lambda>aid.
     io_bind (io_lift (ok_or (UnknownKind (rs_kind raw)) (kind_parse (rs_kind raw)))) (\<lambda>k.
     io_bind (io_lift (check_layer_count k (length (rs_layers raw)))) (\<lambda>_.
     io_bind (io_collect (\<lambda>pos l. validate_layer pos l spec_dir) (rs_layers raw)) (\<lambda>layers.
     io_bind (io_lift (check_layer_order k layers)) (\<lambda>_.
     io_bind (io_lift (validate_reserved_annotations
                (annotations_of_raw (rs_annotations raw)))) (\<lambda>_.
     io_bind (io_lift (case rs_attestation raw of
                Some a \<Rightarrow> validate_attestation a
              | None \<Rightarrow> Inr default_attestation)) (\<lambda>att.
     io_return
       \<lparr>sp_spec_version = version,
        sp_id = aid,
        sp_kind = k,
        sp_description = rs_description raw,
        sp_platform = platform_of_raw (rs_platform raw),
        sp_layers = layers,
        sp_config = config_of_raw (rs_config raw),
        sp_annotations = annotations_of_raw (rs_annotations raw),
        sp_attestation = att\<rparr>))))))))"

section \<open>Loading\<close>

definition parse_and_validate_str ::
  "(string \<Rightarrow> string + raw_spec) \<Rightarrow> string \<Rightarrow> path \<Rightarrow>
   ('x fs_scheme, spec_error, loaded_spec) io" where
  "parse_and_validate_str toml_from_str toml_text spec_dir =
     io_bind (io_lift (map_err TomlParse (toml_from_str toml_text))) (\<lambda>raw.
     io_bind (validate raw spec_dir) (\<lambda>sp.
     io_return \<lparr>ls_spec = sp, ls_spec_dir = spec_dir\<rparr>))"

definition spec_dir_for :: "path \<Rightarrow> path" where
  "spec_dir_for p = (case path_parent p of Some d \<Rightarrow> d | None \<Rightarrow> ''.'')"

definition parse_and_validate ::
  "(string \<Rightarrow> string + raw_spec) \<Rightarrow> path \<Rightarrow> ('x fs_scheme, spec_error, loaded_spec) io" where
  "parse_and_validate toml_from_str p =
     io_bind (io_map_err (SpecIo p) (fs_read_to_string p)) (\<lambda>text.
       parse_and_validate_str toml_from_str text (spec_dir_for p))"

end
