(* ===== verification/Spec_Rules.thy ===== *)
theory Spec_Rules
  imports Spec_Validate
begin

text \<open>
  What the validation of \<open>core/validate.rs\<close> accepts and what it promises about the result:
  the rules restated on the raw schema (\<open>raw_ok\<close>) and on the typed specification
  (\<open>spec_wf\<close>), and the proofs that \<open>validate\<close> decides the one and establishes the other.
\<close>

section \<open>Grammar of the identifiers\<close>

definition id_wf :: "artifact_id \<Rightarrow> bool" where
  "id_wf i \<longleftrightarrow>
     ai_name i \<noteq> [] \<and> ai_tag i \<noteq> [] \<and> valid_name_head (hd (ai_name i)) \<and>
     list_all valid_name_char (tl (ai_name i)) \<and> list_all valid_tag_char (ai_tag i)"

definition media_wf :: "string \<Rightarrow> bool" where
  "media_wf s \<longleftrightarrow>
     (\<exists>typ rest. s = typ @ CHR ''/'' # rest \<and> typ \<noteq> [] \<and> rest \<noteq> [] \<and>
        list_all valid_media_char typ \<and> list_all valid_media_char rest)"

lemma colon_not_in_name: "id_wf i \<Longrightarrow> CHR '':'' \<notin> set (ai_name i)"
  by (cases "ai_name i")
    (auto simp: id_wf_def valid_name_head_def valid_name_char_def ascii_defs list_all_iff)

lemma slash_not_media: "\<not> valid_media_char (CHR ''/'')"
  by (simp add: valid_media_char_def ascii_defs)

lemma parse_id_Inr_iff: "parse_id s = Inr i \<longleftrightarrow> s = to_string_form i \<and> id_wf i"
proof
  assume "parse_id s = Inr i"
  then show "s = to_string_form i \<and> id_wf i"
    by (auto simp: parse_id_def id_wf_def to_string_form_def split_once_Some_iff
        split: option.splits list.splits if_splits)
next
  assume i: "s = to_string_form i \<and> id_wf i"
  then have split: "split_once (CHR '':'') s = Some (ai_name i, ai_tag i)"
    by (simp add: to_string_form_def split_once_Some_iff colon_not_in_name)
  obtain c cs where name: "ai_name i = c # cs"
    using i by (cases "ai_name i") (auto simp: id_wf_def)
  have eq: "\<lparr>ai_name = c # cs, ai_tag = ai_tag i\<rparr> = i"
    using name by (cases i) simp
  have wf: "ai_tag i \<noteq> []" "valid_name_head c" "list_all valid_name_char cs"
      "list_all valid_tag_char (ai_tag i)"
    using i name by (simp_all add: id_wf_def)
  show "parse_id s = Inr i"
    unfolding parse_id_def split name using wf eq by simp
qed

lemma media_type_parse_Inr_iff:
  "media_type_parse s = Inr m \<longleftrightarrow> m = MediaType s \<and> media_wf s"
proof
  assume "media_type_parse s = Inr m"
  then obtain ty rest where "split_once (CHR ''/'') s = Some (ty, rest)" "ty \<noteq> []"
      "rest \<noteq> []" "list_all valid_media_char ty" "list_all valid_media_char rest"
      "m = MediaType s"
    by (auto simp: media_type_parse_def split: option.splits if_splits)
  then show "m = MediaType s \<and> media_wf s"
    unfolding split_once_Some_iff media_wf_def by blast
next
  assume m: "m = MediaType s \<and> media_wf s"
  then obtain ty rest where s: "s = ty @ CHR ''/'' # rest" "ty \<noteq> []" "rest \<noteq> []"
      "list_all valid_media_char ty" "list_all valid_media_char rest"
    by (auto simp: media_wf_def)
  then have "split_once (CHR ''/'') s = Some (ty, rest)"
    using slash_not_media by (auto simp: split_once_Some_iff list_all_iff)
  with m s show "media_type_parse s = Inr m"
    by (simp add: media_type_parse_def)
qed

section \<open>The rules on the raw schema\<close>

definition source_ok :: "nodes \<Rightarrow> path \<Rightarrow> raw_layer \<Rightarrow> bool" where
  "source_ok m d raw \<longleftrightarrow>
     (case (rl_source raw, rl_files raw) of
        (Some p, None) \<Rightarrow> is_file_node (look (resolve_in d p) m)
      | (None, Some files) \<Rightarrow>
          files \<noteq> [] \<and> (\<forall>f \<in> set files. look (resolve_in d (rf_source f)) m \<noteq> None)
      | _ \<Rightarrow> False)"

definition compression_ok :: "raw_layer \<Rightarrow> bool" where
  "compression_ok raw \<longleftrightarrow>
     (case rl_compression raw of None \<Rightarrow> True | Some c \<Rightarrow> c \<in> {''none'', ''gzip'', ''zstd''})"

definition raw_layer_ok :: "nodes \<Rightarrow> path \<Rightarrow> raw_layer \<Rightarrow> bool" where
  "raw_layer_ok m d raw \<longleftrightarrow>
     source_ok m d raw \<and> media_wf (rl_media_type raw) \<and> compression_ok raw"

definition count_ok :: "kind \<Rightarrow> nat \<Rightarrow> bool" where
  "count_ok k n \<longleftrightarrow>
     (case k of OciArtifact \<Rightarrow> 1 \<le> n | VmImage \<Rightarrow> n = 3 | RawImage \<Rightarrow> n = 1)"

definition vm_order_ok :: "kind \<Rightarrow> string list \<Rightarrow> bool" where
  "vm_order_ok k mts \<longleftrightarrow>
     (k = VmImage \<longrightarrow>
        contains_str (mts ! 0) ''kernel'' \<and> contains_str (mts ! 1) ''initrd'' \<and>
        contains_str (mts ! 2) ''rootfs'')"

definition annotations_ok :: "string btree \<Rightarrow> bool" where
  "annotations_ok a \<longleftrightarrow>
     (\<forall>v. map_of a key_created = Some v \<longrightarrow> looks_rfc3339 v) \<and>
     (\<forall>v. map_of a key_version = Some v \<longrightarrow> \<not> trims_to_empty v)"

definition attestation_wf :: "attestation_config \<Rightarrow> bool" where
  "attestation_wf a \<longleftrightarrow>
     (sg_kind (at_sign a) = CosignKey \<longrightarrow> sg_identity (at_sign a) \<noteq> None)"

text \<open>The typed block a raw attestation block stands for, omitted parts at their defaults.\<close>

definition reads_as :: "('r \<Rightarrow> 'a option) \<Rightarrow> 'a \<Rightarrow> 'r option \<Rightarrow> 'a \<Rightarrow> bool" where
  "reads_as rd d r x \<longleftrightarrow> (case r of None \<Rightarrow> x = d | Some w \<Rightarrow> rd w = Some x)"

definition slsa_stands_for :: "raw_slsa option \<Rightarrow> slsa_config \<Rightarrow> bool" where
  "slsa_stands_for r a \<longleftrightarrow>
     reads_as slsa_from_int L2 (Option.bind r rw_level) (sl_level a) \<and>
     sl_builder_id a = Option.bind r rw_builder_id"

definition sbom_stands_for :: "raw_sbom option \<Rightarrow> sbom_config \<Rightarrow> bool" where
  "sbom_stands_for r a \<longleftrightarrow>
     reads_as sbom_format_parse CycloneDx (Option.bind r rb_format) (sb_format a) \<and>
     reads_as sbom_scope_parse ScopeLayers (Option.bind r rb_scope) (sb_scope a)"

definition sign_stands_for :: "raw_sign option \<Rightarrow> sign_config \<Rightarrow> bool" where
  "sign_stands_for r a \<longleftrightarrow>
     reads_as sign_kind_parse CosignKeyless (Option.bind r rg_kind) (sg_kind a) \<and>
     sg_identity a = Option.bind r rg_identity"

definition attestation_stands_for :: "raw_attestation option \<Rightarrow> attestation_config \<Rightarrow> bool" where
  "attestation_stands_for r a \<longleftrightarrow>
     slsa_stands_for (Option.bind r ra_slsa) (at_slsa a) \<and>
     sbom_stands_for (Option.bind r ra_sbom) (at_sbom a) \<and>
     sign_stands_for (Option.bind r ra_sign) (at_sign a) \<and> attestation_wf a"

lemma slsa_stands_for_iff: "validate_slsa r = Inr a \<longleftrightarrow> slsa_stands_for r a"
  by (cases r; cases a)
    (auto simp: validate_slsa_def slsa_stands_for_def reads_as_def default_slsa_def
      and_then_Inr_iff split: option.splits)

lemma sbom_stands_for_iff: "validate_sbom_cfg r = Inr a \<longleftrightarrow> sbom_stands_for r a"
  by (cases r; cases a)
    (auto simp: validate_sbom_cfg_def sbom_stands_for_def reads_as_def default_sbom_def
      and_then_Inr_iff split: option.splits)

lemma sign_stands_for_iff:
  "validate_sign r = Inr a \<longleftrightarrow>
     sign_stands_for r a \<and> (sg_kind a = CosignKey \<longrightarrow> sg_identity a \<noteq> None)"
  by (cases r; cases a)
    (auto simp: validate_sign_def sign_stands_for_def reads_as_def default_sign_def
      and_then_Inr_iff split: option.splits if_splits)

definition attestation_of_raw :: "raw_attestation option \<Rightarrow> spec_error + attestation_config" where
  "attestation_of_raw r =
     (case r of Some a \<Rightarrow> validate_attestation a | None \<Rightarrow> Inr default_attestation)"

lemma attestation_of_raw_iff:
  "attestation_of_raw r = Inr a \<longleftrightarrow> attestation_stands_for r a"
proof (cases r)
  case None
  then show ?thesis
    by (cases a rule: attestation_config.cases)
      (auto simp: attestation_of_raw_def attestation_stands_for_def default_attestation_def
        slsa_stands_for_def sbom_stands_for_def sign_stands_for_def reads_as_def
        attestation_wf_def default_slsa_def default_sbom_def default_sign_def
        intro!: slsa_config.equality sbom_config.equality sign_config.equality)
next
  case (Some b)
  then show ?thesis
    by (cases a rule: attestation_config.cases)
      (auto simp: attestation_of_raw_def attestation_stands_for_def validate_attestation_def
        and_then_Inr_iff slsa_stands_for_iff sbom_stands_for_iff sign_stands_for_iff
        attestation_wf_def)
qed

section \<open>The typed specification a raw one stands for\<close>

definition typed_source :: "raw_layer \<Rightarrow> layer_source" where
  "typed_source raw =
     (case rl_source raw of
        Some p \<Rightarrow> Blob p
      | None \<Rightarrow> Files (map layer_file_of_raw (case rl_files raw of Some fs \<Rightarrow> fs | None \<Rightarrow> [])))"

definition typed_compression :: "raw_layer \<Rightarrow> compression" where
  "typed_compression raw =
     (case rl_compression raw of
        None \<Rightarrow> default_compression (rl_media_type raw)
      | Some c \<Rightarrow> if c = ''gzip'' then Gzip else if c = ''zstd'' then Zstd else CompressionNone)"

definition typed_layer :: "raw_layer \<Rightarrow> layer" where
  "typed_layer raw =
     \<lparr>ly_source = typed_source raw, ly_media_type = MediaType (rl_media_type raw),
      ly_compression = typed_compression raw\<rparr>"

definition raw_ok :: "nodes \<Rightarrow> path \<Rightarrow> raw_spec \<Rightarrow> bool" where
  "raw_ok m d raw \<longleftrightarrow>
     rs_spec_version raw = ''0'' \<and>
     (\<exists>i. rs_id raw = to_string_form i \<and> id_wf i) \<and>
     (\<exists>k. rs_kind raw = kind_as_str k \<and> count_ok k (length (rs_layers raw)) \<and>
          vm_order_ok k (map rl_media_type (rs_layers raw))) \<and>
     (\<forall>l \<in> set (rs_layers raw). raw_layer_ok m d l) \<and>
     annotations_ok (annotations_of_raw (rs_annotations raw)) \<and>
     (\<exists>a. attestation_stands_for (rs_attestation raw) a)"

definition stands_for :: "raw_spec \<Rightarrow> spec \<Rightarrow> bool" where
  "stands_for raw sp \<longleftrightarrow>
     rs_spec_version raw = spec_version_as_str (sp_spec_version sp) \<and>
     rs_id raw = to_string_form (sp_id sp) \<and> id_wf (sp_id sp) \<and>
     rs_kind raw = kind_as_str (sp_kind sp) \<and>
     sp_description sp = rs_description raw \<and>
     sp_platform sp = platform_of_raw (rs_platform raw) \<and>
     sp_layers sp = map typed_layer (rs_layers raw) \<and>
     sp_config sp = config_of_raw (rs_config raw) \<and>
     sp_annotations sp = annotations_of_raw (rs_annotations raw) \<and>
     attestation_stands_for (rs_attestation raw) (sp_attestation sp)"

section \<open>Layers\<close>

lemma compression_of_raw_iff:
  "compression_of_raw i raw = Inr c \<longleftrightarrow> compression_ok raw \<and> c = typed_compression raw"
  by (auto simp: compression_of_raw_def compression_ok_def typed_compression_def
      split: option.splits)

lemma triple_check_blob:
  "triple (still m h) (check_blob_source i d p)
     (\<lambda>src s. still m h s \<and> is_file_node (look (resolve_in d p) m) \<and> src = Blob p)
     (\<lambda>_. still m h)"
  unfolding check_blob_source_def
proof (rule triple_bind_fact [where R = "\<lambda>x. \<forall>n. x = Inr n \<longrightarrow> look (resolve_in d p) m = Some n"])
  show "triple (still m h) (io_try (fs_metadata (resolve_in d p)))
      (\<lambda>x s. still m h s \<and> (\<forall>n. x = Inr n \<longrightarrow> look (resolve_in d p) m = Some n)) (\<lambda>_. still m h)"
    by (rule triple_try, rule triple_conseq [OF triple_metadata_still]) auto
qed (auto split: sum.split fnode.split intro!: triple_return triple_fail simp: is_file_node_def)

lemma triple_check_files:
  "triple (still m h) (io_fold (check_file_source i d) files u)
     (\<lambda>_ s. still m h s \<and> (\<forall>f \<in> set files. look (resolve_in d (rf_source f)) m \<noteq> None))
     (\<lambda>_. still m h)"
  unfolding check_file_source_def
  by (rule triple_fold_fact, rule triple_bind_fact [OF triple_exists_still])
    (auto intro!: triple_return triple_fail)

lemma triple_validate_source:
  "triple (still m h) (validate_source i raw d)
     (\<lambda>src s. still m h s \<and> source_ok m d raw \<and> src = typed_source raw) (\<lambda>_. still m h)"
proof (cases "rl_source raw"; cases "rl_files raw")
  fix p
  assume "rl_source raw = Some p" "rl_files raw = None"
  then show ?thesis
    by (auto simp: validate_source_def source_ok_def typed_source_def
        intro: triple_conseq [OF triple_check_blob])
next
  fix files
  assume files: "rl_source raw = None" "rl_files raw = Some files"
  have "triple (still m h)
      (io_bind (io_fold (check_file_source i d) files ())
         (\<lambda>_. io_return (Files (map layer_file_of_raw files))))
      (\<lambda>src s. still m h s \<and> source_ok m d raw \<and> src = typed_source raw) (\<lambda>_. still m h)"
    if "files \<noteq> []"
    by (rule triple_bind_fact [OF triple_check_files], rule triple_return)
      (use files that in \<open>auto simp: source_ok_def typed_source_def\<close>)
  with files show ?thesis by (auto simp: validate_source_def intro: triple_fail)
qed (auto simp: validate_source_def intro: triple_fail)

lemma triple_validate_layer:
  "triple (still m h) (validate_layer i raw d)
     (\<lambda>l s. still m h s \<and> raw_layer_ok m d raw \<and> l = typed_layer raw) (\<lambda>_. still m h)"
  unfolding validate_layer_def
  by (rule triple_bind_fact [OF triple_validate_source],
      (rule triple_bind_fact [OF triple_lift_fact], assumption)+, rule triple_return)
    (auto simp: media_type_parse_Inr_iff compression_of_raw_iff raw_layer_ok_def typed_layer_def)

text \<open>Without faults a layer that meets the rules is accepted.\<close>

lemma check_blob_no_fault:
  assumes "fs_faults s = []" and "is_file_node (look (resolve_in d p) (fs_nodes s))"
  shows "check_blob_source i d p s = (Inr (Blob p), s)"
  using assms
  by (auto simp: check_blob_source_def io_bind_def io_try_def metadata_no_fault is_file_node_def
      io_return_def split: option.splits fnode.splits)

lemma check_files_no_fault:
  assumes "fs_faults s = []"
    and "\<forall>f \<in> set files. look (resolve_in d (rf_source f)) (fs_nodes s) \<noteq> None"
  shows "io_fold (check_file_source i d) files u s = (Inr (), s)"
  using assms(2)
proof (induction files arbitrary: u)
  case Nil
  then show ?case by (simp add: io_return_def)
next
  case (Cons f files)
  have "check_file_source i d f u s = (Inr (), s)"
    using Cons.prems
    by (simp add: check_file_source_def io_bind_def exists_no_fault assms(1) io_return_def)
  then show ?case
    using Cons by (simp add: io_bind_def)
qed

lemma validate_layer_no_fault:
  assumes "fs_faults s = []" and "raw_layer_ok (fs_nodes s) d raw"
  shows "validate_layer i raw d s = (Inr (typed_layer raw), s)"
proof -
  have "validate_source i raw d s = (Inr (typed_source raw), s)"
    using assms
    by (auto simp: validate_source_def raw_layer_ok_def source_ok_def typed_source_def
        check_blob_no_fault io_bind_apply(2) [OF check_files_no_fault] io_return_def
        split: option.splits)
  moreover have "media_type_parse (rl_media_type raw) = Inr (MediaType (rl_media_type raw))"
    using assms(2) by (simp add: media_type_parse_Inr_iff raw_layer_ok_def)
  moreover have "compression_of_raw i raw = Inr (typed_compression raw)"
    using assms(2) by (simp add: compression_of_raw_iff raw_layer_ok_def)
  ultimately show ?thesis
    by (simp add: validate_layer_def io_bind_apply(2) io_return_def typed_layer_def)
qed

section \<open>The kind and the number and order of layers\<close>

lemma check_layer_count_iff: "check_layer_count k n = Inr u \<longleftrightarrow> count_ok k n"
  by (cases k) (auto simp: check_layer_count_def layer_count_rule_def count_ok_def)

lemma check_layer_order_iff:
  assumes "count_ok k (length layers)"
  shows "check_layer_order k layers = Inr u \<longleftrightarrow>
    vm_order_ok k (map (media_type_as_str \<circ> ly_media_type) layers)"
  using assms
  by (cases k)
    (auto simp: check_layer_order_def vm_order_ok_def count_ok_def vm_markers_def Let_def
      nth_map comp_def)

lemma check_layer_order_no_panic:
  assumes "count_ok k (length layers)" and "check_layer_order k layers = Inl e"
  shows "\<exists>i marker mt. e = WrongLayerOrder i marker mt \<and> i < length layers"
  using assms
  by (cases k)
    (auto simp: check_layer_order_def count_ok_def vm_markers_def Let_def split: if_splits)

lemma validate_annotations_iff:
  "validate_reserved_annotations a = Inr u \<longleftrightarrow> annotations_ok a"
  by (auto simp: validate_reserved_annotations_def annotations_ok_def and_then_Inr_iff
      split: option.splits)

section \<open>Errors that name a layer\<close>

fun err_pos :: "spec_error \<Rightarrow> nat option" where
  "err_pos (WrongLayerOrder i _ _) = Some i"
| "err_pos (LayerSourceConflict i _) = Some i"
| "err_pos (UnreadableSource i _ _) = Some i"
| "err_pos (EmptyFilesBlock i) = Some i"
| "err_pos (MalformedMediaType i _) = Some i"
| "err_pos (UnknownCompression i _) = Some i"
| "err_pos _ = None"

definition layer_error :: "nat \<Rightarrow> spec_error \<Rightarrow> bool" where
  "layer_error i e \<longleftrightarrow> err_pos e = Some i \<and> (\<forall>j marker mt. e \<noteq> WrongLayerOrder j marker mt)"

lemma layer_error_simps [simp]:
  "layer_error i (LayerSourceConflict j a) \<longleftrightarrow> i = j"
  "layer_error i (UnreadableSource j b c) \<longleftrightarrow> i = j"
  "layer_error i (EmptyFilesBlock j) \<longleftrightarrow> i = j"
  "layer_error i (MalformedMediaType j a) \<longleftrightarrow> i = j"
  "layer_error i (UnknownCompression j a) \<longleftrightarrow> i = j"
  by (auto simp: layer_error_def)

lemma fails_with_exists: "fails_with F (fs_exists p)"
  by (auto simp: fails_with_def fs_exists_def fs_query_def split: prod.splits sum.splits)

lemma validate_source_errors: "fails_with (layer_error i) (validate_source i raw d)"
proof -
  have "fails_with (layer_error i) (check_file_source i d f u)" for f u
    unfolding check_file_source_def by (intro fails_with_bind fails_with_exists) simp
  moreover have "fails_with (layer_error i) (check_blob_source i d p)" for p
    unfolding check_blob_source_def
    by (intro fails_with_bind) (auto split: sum.split fnode.split)
  ultimately show ?thesis
    by (auto simp: validate_source_def split: option.split
        intro!: fails_with_bind fails_with_fold)
qed

lemma validate_layer_errors: "fails_with (layer_error i) (validate_layer i raw d)"
  unfolding validate_layer_def
  by (intro fails_with_bind validate_source_errors)
    (auto simp: compression_of_raw_def map_err_def split: option.splits sum.splits if_splits)

section \<open>The whole validation\<close>

lemma triple_validate:
  "triple (still m h) (validate raw d)
     (\<lambda>sp s. still m h s \<and> raw_ok m d raw \<and> stands_for raw sp) (\<lambda>_. still m h)"
  unfolding validate_def attestation_of_raw_def [symmetric]
proof ((rule triple_bind_fact [OF triple_lift_fact], assumption)+,
    rule triple_bind_fact [OF triple_collect [OF triple_validate_layer]],
    (rule triple_bind_fact [OF triple_lift_fact], assumption)+, rule triple_return)
  fix v i k u layers u2 u3 a s
  assume v: "parse_version (rs_spec_version raw) = Inr v"
    and i: "parse_id (rs_id raw) = Inr i"
    and k: "ok_or (UnknownKind (rs_kind raw)) (kind_parse (rs_kind raw)) = Inr k"
    and n: "check_layer_count k (length (rs_layers raw)) = Inr u"
    and l: "length layers = length (rs_layers raw) \<and> (\<forall>j < length (rs_layers raw).
       raw_layer_ok m d (rs_layers raw ! j) \<and> layers ! j = typed_layer (rs_layers raw ! j))"
    and ord: "check_layer_order k layers = Inr u2"
    and ann: "validate_reserved_annotations (annotations_of_raw (rs_annotations raw)) = Inr u3"
    and att: "attestation_of_raw (rs_attestation raw) = Inr a"
    and s: "still m h s"
  have layers: "layers = map typed_layer (rs_layers raw)"
    using l by (intro nth_equalityI) auto
  have cnt: "count_ok k (length (rs_layers raw))" and kind: "rs_kind raw = kind_as_str k"
    using n k by (simp_all add: check_layer_count_iff kind_wire.read_Some_iff)
  have "vm_order_ok k (map rl_media_type (rs_layers raw))"
    using ord cnt by (simp add: check_layer_order_iff layers comp_def typed_layer_def)
  then have "raw_ok m d raw"
    using v i kind cnt l ann att
    by (auto simp: raw_ok_def parse_version_def parse_id_Inr_iff validate_annotations_iff
        attestation_of_raw_iff in_set_conv_nth split: if_splits)
  then show "still m h s \<and> raw_ok m d raw \<and> stands_for raw
      \<lparr>sp_spec_version = v, sp_id = i, sp_kind = k, sp_description = rs_description raw,
       sp_platform = platform_of_raw (rs_platform raw), sp_layers = layers,
       sp_config = config_of_raw (rs_config raw),
       sp_annotations = annotations_of_raw (rs_annotations raw), sp_attestation = a\<rparr>"
    using s v i kind att
    by (cases v) (auto simp: stands_for_def parse_version_def parse_id_Inr_iff layers
        attestation_of_raw_iff spec_version_as_str_def split: if_splits)
qed

lemma collect_no_fault:
  assumes "\<And>i x. x \<in> set xs \<Longrightarrow> f i x s = (Inr (g x), s)"
  shows "io_collect f xs s = (Inr (map g xs), s)"
proof -
  have "io_collect_from k f ys s = (Inr (map g ys), s)" if "set ys \<subseteq> set xs" for k ys
    using that
    by (induction ys arbitrary: k) (auto simp: io_return_def io_bind_apply(2) assms)
  then show ?thesis by (simp add: io_collect_def)
qed

lemma validate_no_fault:
  fixes s :: "'x fs_scheme"
  assumes "fs_faults s = []" and "raw_ok (fs_nodes s) d raw"
  shows "is_ok (fst (validate raw d s)) \<and> snd (validate raw d s) = s"
proof -
  obtain i k a where facts: "rs_spec_version raw = ''0''" "parse_id (rs_id raw) = Inr i"
      "kind_parse (rs_kind raw) = Some k" "count_ok k (length (rs_layers raw))"
      "vm_order_ok k (map rl_media_type (rs_layers raw))"
      "\<forall>l \<in> set (rs_layers raw). raw_layer_ok (fs_nodes s) d l"
      "annotations_ok (annotations_of_raw (rs_annotations raw))"
      "attestation_of_raw (rs_attestation raw) = Inr a"
    using assms(2)
    by (auto simp: raw_ok_def parse_id_Inr_iff kind_wire.read_Some_iff attestation_of_raw_iff)
  have layers: "io_collect (\<lambda>pos l. validate_layer pos l d) (rs_layers raw) s =
      (Inr (map typed_layer (rs_layers raw)), s)"
    by (rule collect_no_fault) (use facts(6) in \<open>simp add: validate_layer_no_fault assms(1)\<close>)
  have step: "io_bind (io_collect (\<lambda>pos l. validate_layer pos l d) (rs_layers raw)) f s =
      f (map typed_layer (rs_layers raw)) s" for f :: "layer list \<Rightarrow> ('x fs_scheme, spec_error, spec) io"
    by (simp add: io_bind_def layers)
  have "check_layer_count k (length (rs_layers raw)) = Inr ()"
    using facts(4) by (simp add: check_layer_count_iff)
  moreover have "check_layer_order k (map typed_layer (rs_layers raw)) = Inr ()"
    using facts(4,5) by (simp add: check_layer_order_iff comp_def typed_layer_def)
  moreover have "validate_reserved_annotations (annotations_of_raw (rs_annotations raw)) = Inr ()"
    using facts(7) by (simp add: validate_annotations_iff)
  ultimately show ?thesis
    using facts(1-3,8)
    by (simp add: validate_def attestation_of_raw_def [symmetric] parse_version_def
        step io_return_def)
qed

lemma stands_for_parses:
  assumes "stands_for raw sp"
  shows "parse_id (rs_id raw) = Inr (sp_id sp)"
    and "attestation_of_raw (rs_attestation raw) = Inr (sp_attestation sp)"
    and "kind_parse (rs_kind raw) = Some (sp_kind sp)"
  using assms
  by (simp_all add: stands_for_def parse_id_Inr_iff attestation_of_raw_iff kind_wire.read_Some_iff)

lemma stands_for_unique:
  assumes "stands_for raw sp" and "stands_for raw sp'"
  shows "sp = sp'"
proof -
  have "sp_spec_version sp = sp_spec_version sp'"
    by (cases "sp_spec_version sp"; cases "sp_spec_version sp'") simp
  moreover have "sp_id sp = sp_id sp'" "sp_attestation sp = sp_attestation sp'"
      "sp_kind sp = sp_kind sp'"
    using stands_for_parses [OF assms(1)] stands_for_parses [OF assms(2)] by simp_all
  moreover have "sp_description sp = sp_description sp'" "sp_platform sp = sp_platform sp'"
      "sp_layers sp = sp_layers sp'" "sp_config sp = sp_config sp'"
      "sp_annotations sp = sp_annotations sp'"
    using assms unfolding stands_for_def by simp_all
  ultimately show ?thesis by (intro spec.equality) simp_all
qed

section \<open>What holds of an accepted specification\<close>

definition layer_wf :: "layer \<Rightarrow> bool" where
  "layer_wf l \<longleftrightarrow>
     media_wf (media_type_as_str (ly_media_type l)) \<and>
     (case ly_source l of Blob _ \<Rightarrow> True | Files es \<Rightarrow> es \<noteq> [])"

definition spec_wf :: "spec \<Rightarrow> bool" where
  "spec_wf sp \<longleftrightarrow>
     id_wf (sp_id sp) \<and>
     count_ok (sp_kind sp) (length (sp_layers sp)) \<and>
     vm_order_ok (sp_kind sp) (map (media_type_as_str \<circ> ly_media_type) (sp_layers sp)) \<and>
     (\<forall>l \<in> set (sp_layers sp). layer_wf l) \<and>
     annotations_ok (sp_annotations sp) \<and>
     (case sp_config sp of ConfigBlob v \<Rightarrow> json_wf v) \<and>
     attestation_wf (sp_attestation sp)"

text \<open>The configuration block is a tree as \<open>serde_json\<close> holds it, whatever the TOML was.\<close>

lemma toml_to_json_wf: "json_wf (toml_to_json v)"
proof (induction v)
  case (TTable t)
  have "json_wf (json_map (map (\<lambda>(k, v). (k, toml_to_json v)) t))"
    by (rule json_wf_json_map) (use TTable in \<open>fastforce simp: snds.simps\<close>)
  then show ?case by (simp add: json_map_def)
next
  case (TFloat b)
  then show ?case by (simp add: number_from_f64_def)
qed auto

lemma typed_layer_wf: "raw_layer_ok m d raw \<Longrightarrow> layer_wf (typed_layer raw)"
  by (auto simp: raw_layer_ok_def layer_wf_def typed_layer_def typed_source_def source_ok_def
      split: option.splits)

lemma stands_for_wf:
  assumes "raw_ok m d raw" and "stands_for raw sp"
  shows "spec_wf sp"
proof -
  have kind: "count_ok (sp_kind sp) (length (rs_layers raw)) \<and>
      vm_order_ok (sp_kind sp) (map rl_media_type (rs_layers raw))"
    using assms by (auto simp: raw_ok_def stands_for_def kind_wire.write_inj)
  have "json_wf (case config_of_raw c of ConfigBlob v \<Rightarrow> v)" for c
    by (cases c) (simp_all add: config_of_raw_def default_config_blob_def toml_to_json_wf)
  then have "case sp_config sp of ConfigBlob v \<Rightarrow> json_wf v"
    using assms(2) by (auto simp: stands_for_def split: config_blob.splits)
      (metis config_blob.case)
  moreover have "\<forall>l \<in> set (sp_layers sp). layer_wf l"
    using assms by (auto simp: raw_ok_def stands_for_def intro: typed_layer_wf)
  ultimately show ?thesis
    using assms kind
    by (auto simp: spec_wf_def stands_for_def raw_ok_def comp_def typed_layer_def
        attestation_stands_for_def)
qed

text \<open>Every source of a loaded specification is on disk.\<close>

definition sources_on_disk :: "nodes \<Rightarrow> loaded_spec \<Rightarrow> bool" where
  "sources_on_disk m l \<longleftrightarrow>
     (\<forall>ly \<in> set (sp_layers (ls_spec l)).
        case ly_source ly of
          Blob p \<Rightarrow> is_file_node (look (loaded_resolve l p) m)
        | Files es \<Rightarrow> \<forall>f \<in> set es. look (loaded_resolve l (lf_source f)) m \<noteq> None)"

lemma stands_for_sources:
  assumes "raw_ok m d raw" and "stands_for raw (ls_spec l)" and "ls_spec_dir l = d"
  shows "sources_on_disk m l"
proof -
  have res: "loaded_resolve l p = resolve_in d p" for p
    using assms(3) by (simp add: loaded_resolve_def resolve_in_def)
  have "case ly_source (typed_layer raw) of
          Blob p \<Rightarrow> is_file_node (look (loaded_resolve l p) m)
        | Files es \<Rightarrow> \<forall>f \<in> set es. look (loaded_resolve l (lf_source f)) m \<noteq> None"
    if "source_ok m d raw" for raw
    using that
    by (auto simp: source_ok_def typed_layer_def typed_source_def res layer_file_of_raw_def
        split: option.splits)
  then show ?thesis
    using assms(1,2)
    by (auto simp: sources_on_disk_def raw_ok_def stands_for_def raw_layer_ok_def)
qed

lemma triple_load:
  "triple (still m h) (parse_and_validate from_str p)
     (\<lambda>l s. still m h s \<and> ls_spec_dir l = spec_dir_for p \<and> spec_wf (ls_spec l) \<and>
        sources_on_disk m l) (\<lambda>_. still m h)"
  unfolding parse_and_validate_def parse_and_validate_str_def fs_read_to_string_def
proof (rule triple_bind_fact [where R = "\<lambda>_. True"])
  show "triple (still m h) (io_map_err (SpecIo p) (io_bind (fs_read p) (\<lambda>bs.
      if valid_utf8 bs then io_return bs
      else io_fail (IoError InvalidData [Txt ''stream did not contain valid UTF-8'']))))
      (\<lambda>x s. still m h s \<and> True) (\<lambda>_. still m h)"
    by (rule triple_map_err, rule triple_bind_fact [OF triple_read_still])
      (auto intro: triple_return triple_fail)
next
  fix content
  show "triple (still m h)
      (io_bind (io_lift (map_err TomlParse (from_str content))) (\<lambda>raw.
         io_bind (validate raw (spec_dir_for p)) (\<lambda>sp.
           io_return \<lparr>ls_spec = sp, ls_spec_dir = spec_dir_for p\<rparr>)))
      (\<lambda>l s. still m h s \<and> ls_spec_dir l = spec_dir_for p \<and> spec_wf (ls_spec l) \<and>
        sources_on_disk m l) (\<lambda>_. still m h)"
    by (rule triple_bind_fact [OF triple_lift_fact], assumption,
        rule triple_bind_fact [OF triple_validate], rule triple_return)
      (auto intro: stands_for_wf stands_for_sources)
qed

section \<open>Where an error points\<close>

lemma keeps_state_calls:
  assumes "fs_faults s = []"
  shows "keeps (\<lambda>t. t = s) (fs_metadata p)" and "keeps (\<lambda>t. t = s) (fs_exists p)"
  using assms by (simp_all add: keeps_def metadata_no_fault exists_no_fault)

lemma keeps_state_layer:
  assumes "fs_faults s = []"
  shows "keeps (\<lambda>t. t = s) (validate_layer i raw d)"
proof -
  have "keeps (\<lambda>t. t = s) (check_blob_source i d p)" for p
    unfolding check_blob_source_def
    by (intro keeps_bind keeps_try keeps_state_calls assms) (auto split: sum.split fnode.split)
  moreover have "keeps (\<lambda>t. t = s) (io_fold (check_file_source i d) files u)" for files u
    unfolding check_file_source_def
    by (intro keeps_fold keeps_bind keeps_if keeps_state_calls assms) auto
  ultimately show ?thesis
    unfolding validate_layer_def validate_source_def
    by (auto split: option.split intro!: keeps_bind)
qed

lemma collect_still:
  assumes "\<And>i x. snd (f i x s) = s"
  shows "io_collect_from k f xs s = (collect_from k (\<lambda>i x. fst (f i x s)) xs, s)"
proof (induction xs arbitrary: k)
  case Nil
  then show ?case by (simp add: io_return_def)
next
  case (Cons x xs)
  have "f k x s = (fst (f k x s), s)"
    by (simp add: assms prod_eq_iff)
  then show ?case
    by (cases "fst (f k x s)"; cases "collect_from (Suc k) (\<lambda>i x. fst (f i x s)) xs")
      (simp_all add: io_bind_def Cons.IH io_return_def)
qed

lemma layers_error_position:
  assumes "fs_faults s = []"
    and "io_collect (\<lambda>i l. validate_layer i l d) ls s = (Inl e, t)"
  shows "\<exists>i < length ls. layer_error i e \<and> \<not> raw_layer_ok (fs_nodes s) d (ls ! i) \<and>
     (\<forall>j < i. raw_layer_ok (fs_nodes s) d (ls ! j))"
proof -
  have still_s: "snd (validate_layer i l d s) = s" for i l
    using keeps_state_layer [OF assms(1)] by (auto simp: keeps_def)
  have "io_collect_from 0 (\<lambda>i l. validate_layer i l d) ls s =
      (collect_from 0 (\<lambda>i l. fst (validate_layer i l d s)) ls, s)"
    by (rule collect_still) (rule still_s)
  then have "collect_from 0 (\<lambda>i l. fst (validate_layer i l d s)) ls = Inl e"
    using assms(2) unfolding io_collect_def by (metis prod.inject)
  from collect_from_Inl [OF this]
  obtain i where i: "i < length ls" "fst (validate_layer i (ls ! i) d s) = Inl e"
      "\<forall>j < i. is_ok (fst (validate_layer j (ls ! j) d s))"
    by auto
  have "raw_layer_ok (fs_nodes s) d (ls ! j)" if ok: "is_ok (fst (validate_layer j (ls ! j) d s))" for j
  proof -
    obtain l where "validate_layer j (ls ! j) d s = (Inr l, s)"
      using ok still_s [of j "ls ! j"]
      by (cases "validate_layer j (ls ! j) d s") (auto simp: is_ok_iff)
    from triple_InrD [OF triple_validate_layer [of "fs_nodes s" "fs_seen s"] _ this]
    show ?thesis by (simp add: still_def)
  qed
  moreover have "\<not> raw_layer_ok (fs_nodes s) d (ls ! i)"
    using i(2) validate_layer_no_fault [OF assms(1)] by (metis fst_conv sum.distinct(1))
  moreover have "layer_error i e"
    using validate_layer_errors [of i "ls ! i" d] i(2) by (auto simp: fails_with_def)
  ultimately show ?thesis using i by blast
qed

lemma early_errors:
  "parse_version v = Inl e \<Longrightarrow> err_pos e = None \<and> e \<noteq> IndexPanic p"
  "parse_id v = Inl e \<Longrightarrow> err_pos e = None \<and> e \<noteq> IndexPanic p"
  "ok_or (UnknownKind v) x = Inl e \<Longrightarrow> err_pos e = None \<and> e \<noteq> IndexPanic p"
  "check_layer_count k n = Inl e \<Longrightarrow> err_pos e = None \<and> e \<noteq> IndexPanic p"
  "validate_reserved_annotations a = Inl e \<Longrightarrow> err_pos e = None \<and> e \<noteq> IndexPanic p"
  by (auto simp: parse_version_def parse_id_def check_layer_count_def
      validate_reserved_annotations_def and_then_Inl_iff
      split: if_splits option.splits list.splits prod.splits)

lemma attestation_errors:
  "attestation_of_raw r = Inl e \<Longrightarrow> err_pos e = None \<and> e \<noteq> IndexPanic p"
  by (auto simp: attestation_of_raw_def validate_attestation_def validate_slsa_def
      validate_sbom_cfg_def validate_sign_def and_then_Inl_iff
      split: option.splits if_splits)

lemma no_panic_lift:
  assumes "\<And>e p. r = Inl e \<Longrightarrow> err_pos e = None \<and> e \<noteq> IndexPanic p"
  shows "triple (\<lambda>_. True) (io_lift r) (\<lambda>x _. True \<and> r = Inr x) (\<lambda>e _. \<forall>p. e \<noteq> IndexPanic p)"
  using assms by (auto intro: triple_lift)

lemma no_panic_layers:
  "triple (\<lambda>_. True) (io_collect (\<lambda>pos l. validate_layer pos l d) ls)
     (\<lambda>ys _. True \<and> length ys = length ls) (\<lambda>e _. \<forall>p. e \<noteq> IndexPanic p)"
proof (rule triple_conseq [OF triple_collect [where R = "\<lambda>_ _ _. True" and P = "\<lambda>_. True"]])
  show "triple (\<lambda>_. True) (validate_layer i l d) (\<lambda>_ _. True \<and> True)
      (\<lambda>e _. \<forall>p. e \<noteq> IndexPanic p)" for i l
    by (rule tripleI) (auto dest!: fails_withD [OF validate_layer_errors] simp: layer_error_def)
qed auto

lemma no_panic:
  "triple (\<lambda>_. True) (validate raw d) (\<lambda>_ _. True) (\<lambda>e _. \<forall>p. e \<noteq> IndexPanic p)"
  unfolding validate_def attestation_of_raw_def [symmetric]
proof (rule triple_bind_fact [OF no_panic_lift [OF early_errors(1)]], assumption,
    rule triple_bind_fact [OF no_panic_lift [OF early_errors(2)]], assumption,
    rule triple_bind_fact [OF no_panic_lift [OF early_errors(3)]], assumption,
    rule triple_bind_fact [OF no_panic_lift [OF early_errors(4)]], assumption,
    rule triple_bind_fact [OF no_panic_layers])
  fix v i k u and layers :: "layer list"
  assume "check_layer_count k (length (rs_layers raw)) = Inr u"
    and "length layers = length (rs_layers raw)"
  then have cnt: "count_ok k (length layers)"
    by (simp add: check_layer_count_iff)
  have order: "triple (\<lambda>_. True) (io_lift (check_layer_order k layers)) (\<lambda>x _. True \<and> True)
      (\<lambda>e _. \<forall>p. e \<noteq> IndexPanic p)"
    using check_layer_order_no_panic [OF cnt] by (fastforce intro: triple_lift)
  show "triple (\<lambda>_. True)
      (io_bind (io_lift (check_layer_order k layers)) (\<lambda>_.
       io_bind (io_lift (validate_reserved_annotations
                  (annotations_of_raw (rs_annotations raw)))) (\<lambda>_.
       io_bind (io_lift (attestation_of_raw (rs_attestation raw))) (\<lambda>att.
       io_return
         \<lparr>sp_spec_version = v, sp_id = i, sp_kind = k, sp_description = rs_description raw,
          sp_platform = platform_of_raw (rs_platform raw), sp_layers = layers,
          sp_config = config_of_raw (rs_config raw),
          sp_annotations = annotations_of_raw (rs_annotations raw), sp_attestation = att\<rparr>))))
      (\<lambda>_ _. True) (\<lambda>e _. \<forall>p. e \<noteq> IndexPanic p)"
    by (rule triple_bind_fact [OF order],
        rule triple_bind_fact [OF no_panic_lift [OF early_errors(5)]], assumption,
        rule triple_bind_fact [OF no_panic_lift [OF attestation_errors]], assumption,
        rule triple_return, simp)
qed

text \<open>An error at the level of layers tells how far the validation came.\<close>

lemma validate_error_cases:
  assumes "validate raw d s = (Inl e, t)"
  shows "(err_pos e = None) \<or>
    (\<exists>u. io_collect (\<lambda>pos l. validate_layer pos l d) (rs_layers raw) s = (Inl e, u)) \<or>
    (\<exists>k layers u. io_collect (\<lambda>pos l. validate_layer pos l d) (rs_layers raw) s = (Inr layers, u) \<and>
       count_ok k (length (rs_layers raw)) \<and> check_layer_order k layers = Inl e)"
proof (rule ccontr)
  assume no: "\<not> ?thesis"
  from assms show False
    unfolding validate_def attestation_of_raw_def [symmetric]
    using no early_errors attestation_errors
    by (auto elim!: io_bind_InlE io_bind_InrE simp: io_lift_def io_return_def check_layer_count_iff)
qed

section \<open>Concrete inputs\<close>

definition sample_layer :: "string \<Rightarrow> raw_layer" where
  "sample_layer mt =
     \<lparr>rl_source = Some ''blob.bin'', rl_media_type = mt, rl_compression = None, rl_files = None\<rparr>"

definition sample_raw :: "raw_layer list \<Rightarrow> raw_spec" where
  "sample_raw ls =
     \<lparr>rs_spec_version = ''0'', rs_id = ''app:v1'', rs_kind = ''oci_artifact'',
      rs_description = None, rs_platform = None, rs_layers = ls, rs_config = None,
      rs_annotations = None, rs_attestation = None\<rparr>"

definition sample_spec :: spec where
  "sample_spec =
     \<lparr>sp_spec_version = V0, sp_id = \<lparr>ai_name = ''app'', ai_tag = ''v1''\<rparr>, sp_kind = OciArtifact,
      sp_description = None, sp_platform = default_platform,
      sp_layers = [\<lparr>ly_source = Blob ''blob.bin'', ly_media_type = MediaType ''a/x+gzip'',
                    ly_compression = Gzip\<rparr>],
      sp_config = default_config_blob, sp_annotations = [], sp_attestation = default_attestation\<rparr>"

definition sample_fs :: fs where
  "sample_fs =
     \<lparr>fs_nodes = [[''/''] \<mapsto> DirNode, [''/'', ''d''] \<mapsto> DirNode,
                  [''/'', ''d'', ''blob.bin''] \<mapsto> FileNode ''x'',
                  [''/'', ''d'', ''spec.toml''] \<mapsto> FileNode ''t''],
      fs_faults = [], fs_seen = [], fs_order = (\<lambda>_. [])\<rparr>"

lemma sample_runs:
  "fst (validate (sample_raw [sample_layer ''a/x+gzip'']) ''/d'' sample_fs) = Inr sample_spec"
  by code_simp

lemma sample_fails:
  "fst (validate (sample_raw [sample_layer ''a/x'', sample_layer ''ax'']) ''/d'' sample_fs) =
     Inl (MalformedMediaType 1 ''ax'')"
  by code_simp

lemma sample_loads:
  "fst (parse_and_validate (\<lambda>_. Inr (sample_raw [sample_layer ''a/x+gzip''])) ''/d/spec.toml'' sample_fs)
     = Inr \<lparr>ls_spec = sample_spec, ls_spec_dir = ''/d''\<rparr>"
  by code_simp

lemma run_eq: "fst x = r \<Longrightarrow> x = (r, snd x)"
  by (simp add: prod_eq_iff)

lemma no_faults_sample: "fs_faults sample_fs = []"
  by (simp add: sample_fs_def)

lemma sample_spec_wf: "spec_wf sample_spec"
  using triple_InrD [OF triple_validate [of "fs_nodes sample_fs" "fs_seen sample_fs"] _
      run_eq [OF sample_runs]]
  by (auto simp: still_def intro: stands_for_wf)

section \<open>Properties\<close>



text \<open>
  C25: Whatever faults the file system injects, an accepted specification is sound: it stands
  for the raw one, satisfies the invariant of typed specifications (layer count and order of
  its kind, valid media types, non-empty file lists, valid annotations, a well-formed
  configuration tree, a key for key signing), and the validation has written nothing.
\<close>

theorem validate_sound:
  assumes "validate raw d s = (Inr sp, t)"
  shows "raw_ok (fs_nodes s) d raw \<and> stands_for raw sp \<and> spec_wf sp \<and>
    fs_nodes t = fs_nodes s \<and> fs_seen t = fs_seen s"
  using triple_InrD [OF triple_validate [of "fs_nodes s" "fs_seen s"] _ assms]
  by (auto simp: still_def intro: stands_for_wf)

theorem validate_sound_witness: "spec_wf sample_spec"
  using validate_sound [OF run_eq [OF sample_runs]]
  by blast

text \<open>
  The indexing \<open>layers[pos]\<close> in the check of the layer order never panics: the count
  check that runs before it rules that out, for every raw specification and every fault.
\<close>

theorem validate_never_panics: "fst (validate raw d s) \<noteq> Inl (IndexPanic p)"
proof
  assume "fst (validate raw d s) = Inl (IndexPanic p)"
  then obtain t where "validate raw d s = (Inl (IndexPanic p), t)"
    by (cases "validate raw d s") auto
  from triple_InlD [OF no_panic _ this] show False by simp
qed

text \<open>
  C26: An error that names a layer names the right one: without faults, the position is in
  range, every layer before it meets the rules, and the layer itself breaks them, unless the
  error is that of a misplaced layer of a VM image, all of whose layers are valid.
\<close>

theorem validate_error_position:
  assumes "fs_faults s = []" and "fst (validate raw d s) = Inl e" and "err_pos e = Some i"
  shows "i < length (rs_layers raw) \<and>
    (\<forall>j < i. raw_layer_ok (fs_nodes s) d (rs_layers raw ! j)) \<and>
    (raw_layer_ok (fs_nodes s) d (rs_layers raw ! i) \<longrightarrow>
       (\<forall>l \<in> set (rs_layers raw). raw_layer_ok (fs_nodes s) d l) \<and>
       (\<exists>marker mt. e = WrongLayerOrder i marker mt))"
proof -
  obtain t where "validate raw d s = (Inl e, t)"
    using assms(2) by (cases "validate raw d s") auto
  from validate_error_cases [OF this] assms(3)
  consider (layer) u where
      "io_collect (\<lambda>pos l. validate_layer pos l d) (rs_layers raw) s = (Inl e, u)"
    | (order) k layers u where
      "io_collect (\<lambda>pos l. validate_layer pos l d) (rs_layers raw) s = (Inr layers, u)"
      "count_ok k (length (rs_layers raw))" "check_layer_order k layers = Inl e"
    by auto
  then show ?thesis
  proof cases
    case layer
    from layers_error_position [OF assms(1) layer] assms(3) show ?thesis
      by (auto simp: layer_error_def)
  next
    case order
    from triple_InrD [OF triple_collect [OF triple_validate_layer [of "fs_nodes s" "fs_seen s"]]
        _ order(1)]
    have len: "length layers = length (rs_layers raw)"
      and ok: "\<forall>l \<in> set (rs_layers raw). raw_layer_ok (fs_nodes s) d l"
      by (auto simp: still_def in_set_conv_nth)
    have "\<exists>j marker mt. e = WrongLayerOrder j marker mt \<and> j < length (rs_layers raw)"
      using check_layer_order_no_panic [of k layers e] order(2,3) len by simp
    with assms(3) ok show ?thesis by (auto simp: nth_mem)
  qed
qed

theorem validate_error_position_witness:
  "raw_layer_ok (fs_nodes sample_fs) ''/d'' (sample_layer ''a/x'') \<and>
   \<not> raw_layer_ok (fs_nodes sample_fs) ''/d'' (sample_layer ''ax'')"
  using validate_error_position [OF no_faults_sample sample_fails, of 1]
  by (simp add: sample_raw_def)

text \<open>
  Identifiers: \<open>parse_id\<close> reads exactly the texts \<open>name:tag\<close> of the documented grammar,
  and printing what was read gives the text back.
\<close>

theorem parse_id_exact: "parse_id s = Inr i \<longleftrightarrow> s = to_string_form i \<and> id_wf i"
  by (rule parse_id_Inr_iff)

text \<open>
  Media types: \<open>MediaType::parse\<close> accepts exactly two non-empty runs of the permitted
  characters joined by one slash, and keeps the text.
\<close>

theorem media_type_parse_exact:
  "media_type_parse s = Inr m \<longleftrightarrow> media_type_as_str m = s \<and> media_wf s"
  by (cases m) (auto simp: media_type_parse_Inr_iff)

text \<open>
  Attestation: the typed block is the raw one with every omitted part at its default
  (SLSA level 2, CycloneDX over the layers, keyless signing), out-of-range levels and unknown
  names are refused, and signing with a key requires the key.
\<close>

theorem attestation_exact:
  "validate_attestation raw = Inr a \<longleftrightarrow> attestation_stands_for (Some raw) a"
  using attestation_of_raw_iff [of "Some raw" a] by (simp add: attestation_of_raw_def)

text \<open>
  Loading a specification file, under any faults: the layers are anchored at the parent
  directory of the file, the result satisfies the invariant, and every source it names is on
  disk: a blob layer's source is a regular file, every entry of a file list exists.
\<close>

theorem load_sound:
  assumes "parse_and_validate from_str p s = (Inr l, t)"
  shows "ls_spec_dir l = spec_dir_for p \<and> spec_wf (ls_spec l) \<and>
    sources_on_disk (fs_nodes t) l \<and> fs_nodes t = fs_nodes s"
  using triple_InrD [OF triple_load [of "fs_nodes s" "fs_seen s"] _ assms]
  by (auto simp: still_def)

theorem load_sound_witness:
  "sources_on_disk (fs_nodes (snd (parse_and_validate
       (\<lambda>_. Inr (sample_raw [sample_layer ''a/x+gzip''])) ''/d/spec.toml'' sample_fs)))
     \<lparr>ls_spec = sample_spec, ls_spec_dir = ''/d''\<rparr>"
  using load_sound [OF run_eq [OF sample_loads]]
  by blast

end
