(* ===== verification/Spec_Canon.thy ===== *)
theory Spec_Canon
  imports Spec_Rules
begin

text \<open>
  \<open>saf/canonicalize.rs\<close> of the crate \<open>spec\<close>: the projection of a specification to the JSON
  tree whose canonical bytes are hashed. The RFC 8785 serialiser \<open>serde_jcs::to_vec\<close> and
  the digest of \<open>cas\<close> are parameters.
\<close>

section \<open>The projection\<close>

text \<open>\<open>if let Some(x) = v { obj.insert(k, x) }\<close>.\<close>

definition opt_field :: "string \<Rightarrow> json option \<Rightarrow> (string \<times> json) list" where
  "opt_field k v = (case v of None \<Rightarrow> [] | Some x \<Rightarrow> [(k, x)])"

definition normalise_path :: "path \<Rightarrow> string" where
  "normalise_path p = replace_char (CHR 0x5C) (CHR ''/'') p"

definition platform_to_json :: "platform \<Rightarrow> json option" where
  "platform_to_json p =
     (if pf_os p = None \<and> pf_arch p = None then None
      else Some (json_map (opt_field ''os'' (map_option JString (pf_os p)) @
                           opt_field ''arch'' (map_option JString (pf_arch p)))))"

definition file_to_json :: "layer_file \<Rightarrow> json" where
  "file_to_json f =
     json_map [(''source'', JString (normalise_path (lf_source f))),
               (''dest'', JString (lf_dest f)),
               (''mode'', JInt (int (unat (lf_mode f))))]"

definition layer_to_json :: "layer \<Rightarrow> json" where
  "layer_to_json l =
     json_map ([(''media_type'', JString (media_type_as_str (ly_media_type l))),
                (''compression'', JString (compression_as_str (ly_compression l)))] @
       (case ly_source l of
          Blob p \<Rightarrow> [(''source'', JString (normalise_path p))]
        | Files es \<Rightarrow> [(''files'', JArray (map file_to_json es))]))"

definition config_to_json :: "config_blob \<Rightarrow> json option" where
  "config_to_json c =
     (case c of ConfigBlob v \<Rightarrow> (case v of JObject [] \<Rightarrow> None | _ \<Rightarrow> Some v))"

definition annotations_to_json :: "string btree \<Rightarrow> json" where
  "annotations_to_json m = json_map (map (\<lambda>(k, v). (k, JString v)) m)"

definition slsa_to_json :: "slsa_config \<Rightarrow> json" where
  "slsa_to_json s =
     json_map ((''level'', JInt (slsa_as_int (sl_level s))) #
       opt_field ''builder_id'' (map_option JString (sl_builder_id s)))"

definition sbom_to_json :: "sbom_config \<Rightarrow> json" where
  "sbom_to_json s =
     json_map [(''format'', JString (sbom_format_as_str (sb_format s))),
               (''scope'', JString (sbom_scope_as_str (sb_scope s)))]"

definition sign_to_json :: "sign_config \<Rightarrow> json" where
  "sign_to_json s =
     json_map ((''kind'', JString (sign_kind_as_str (sg_kind s))) #
       opt_field ''identity'' (map_option JString (sg_identity s)))"

definition attestation_to_json :: "attestation_config \<Rightarrow> json" where
  "attestation_to_json a =
     json_map [(''slsa'', slsa_to_json (at_slsa a)), (''sbom'', sbom_to_json (at_sbom a)),
               (''sign'', sign_to_json (at_sign a))]"

definition spec_to_json :: "spec \<Rightarrow> json" where
  "spec_to_json sp =
     json_map (
       [(''spec_version'', JString (spec_version_as_str (sp_spec_version sp))),
        (''id'', JString (to_string_form (sp_id sp))),
        (''kind'', JString (kind_as_str (sp_kind sp)))] @
       opt_field ''description'' (map_option JString (sp_description sp)) @
       opt_field ''platform'' (platform_to_json (sp_platform sp)) @
       [(''layers'', JArray (map layer_to_json (sp_layers sp)))] @
       opt_field ''config'' (config_to_json (sp_config sp)) @
       (if sp_annotations sp \<noteq> []
        then [(''annotations'', annotations_to_json (sp_annotations sp))] else []) @
       [(''attestation'', attestation_to_json (sp_attestation sp))])"

section \<open>Canonical bytes and hash\<close>

datatype ('j, 'c) canonicalization_error = JcsError 'j | CasHashError 'c

definition canonical_bytes ::
  "(json \<Rightarrow> 'j + bytes) \<Rightarrow> spec \<Rightarrow> ('j, 'c) canonicalization_error + bytes" where
  "canonical_bytes jcs_to_vec sp = map_err JcsError (jcs_to_vec (spec_to_json sp))"

definition spec_hash ::
  "(json \<Rightarrow> 'j + bytes) \<Rightarrow> (bytes \<Rightarrow> 'd) \<Rightarrow> spec \<Rightarrow> ('j, 'c) canonicalization_error + 'd" where
  "spec_hash jcs_to_vec digest_from_bytes sp =
     and_then (canonical_bytes jcs_to_vec sp) (\<lambda>canonical. Inr (digest_from_bytes canonical))"

section \<open>Lookups determine the parts\<close>

lemma map_of_opt_field [simp]: "map_of (opt_field k v) k' = (if k' = k then v else None)"
  by (auto simp: opt_field_def split: option.split)

lemma map_of_rev_opt_field [simp]:
  "map_of (rev (opt_field k v)) k' = (if k' = k then v else None)"
  by (auto simp: opt_field_def split: option.split)

lemma map_option_JString_inj [simp]: "map_option JString a = map_option JString b \<longleftrightarrow> a = b"
  by (cases a; cases b) auto

text \<open>Two objects are equal exactly when all their lookups are.\<close>

lemma json_map_eqD: "json_map a = json_map b \<Longrightarrow> map_of (rev a) k = map_of (rev b) k"
  by (simp add: json_map_eq_iff)

lemma json_get_keys: "json_get k (json_map kvs) \<noteq> None \<longleftrightarrow> k \<in> fst ` set kvs"
proof -
  have "map_of (rev kvs) k = None \<longleftrightarrow> k \<notin> fst ` set kvs"
    by (simp add: map_of_eq_None_iff)
  then show ?thesis by simp
qed

lemma platform_to_json_inj: "platform_to_json p = platform_to_json q \<longleftrightarrow> p = q"
proof
  assume eq: "platform_to_json p = platform_to_json q"
  have "pf_os p = pf_os q \<and> pf_arch p = pf_arch q"
  proof (cases "(pf_os p = None \<and> pf_arch p = None) \<or> (pf_os q = None \<and> pf_arch q = None)")
    case True
    with eq show ?thesis by (auto simp: platform_to_json_def split: if_splits)
  next
    case False
    with eq have "json_map (opt_field ''os'' (map_option JString (pf_os p)) @
          opt_field ''arch'' (map_option JString (pf_arch p))) =
        json_map (opt_field ''os'' (map_option JString (pf_os q)) @
          opt_field ''arch'' (map_option JString (pf_arch q)))"
      by (simp add: platform_to_json_def split: if_splits)
    from json_map_eqD [OF this, of "''os''"] json_map_eqD [OF this, of "''arch''"]
    show ?thesis by (simp add: map_add_def split: option.splits)
  qed
  then show "p = q" by simp
qed simp

lemma file_to_json_iff:
  "file_to_json f = file_to_json g \<longleftrightarrow>
     normalise_path (lf_source f) = normalise_path (lf_source g) \<and> lf_dest f = lf_dest g \<and>
     lf_mode f = lf_mode g"
proof
  assume "file_to_json f = file_to_json g"
  note eq = this [unfolded file_to_json_def]
  from json_map_eqD [OF eq, of "''source''"] json_map_eqD [OF eq, of "''dest''"]
    json_map_eqD [OF eq, of "''mode''"]
  show "normalise_path (lf_source f) = normalise_path (lf_source g) \<and> lf_dest f = lf_dest g \<and>
     lf_mode f = lf_mode g"
    by (simp add: word_uint_eq_iff)
qed (simp add: file_to_json_def)

text \<open>What the projection keeps of a specification: everything, paths with forward slashes.\<close>

definition norm_file :: "layer_file \<Rightarrow> layer_file" where
  "norm_file f = f\<lparr>lf_source := normalise_path (lf_source f)\<rparr>"

definition norm_source :: "layer_source \<Rightarrow> layer_source" where
  "norm_source s =
     (case s of Blob p \<Rightarrow> Blob (normalise_path p) | Files es \<Rightarrow> Files (map norm_file es))"

definition norm_layer :: "layer \<Rightarrow> layer" where
  "norm_layer l = l\<lparr>ly_source := norm_source (ly_source l)\<rparr>"

definition norm_spec :: "spec \<Rightarrow> spec" where
  "norm_spec sp = sp\<lparr>sp_layers := map norm_layer (sp_layers sp)\<rparr>"

lemma norm_file_iff: "file_to_json f = file_to_json g \<longleftrightarrow> norm_file f = norm_file g"
  by (cases f; cases g) (simp add: file_to_json_iff norm_file_def)

lemma map_eq_cong:
  "(\<And>x y. f x = f y \<longleftrightarrow> g x = g y) \<Longrightarrow> map f xs = map f ys \<longleftrightarrow> map g xs = map g ys"
  by (induction xs ys rule: list_induct2') auto

lemma compression_as_str_inj: "compression_as_str a = compression_as_str b \<longleftrightarrow> a = b"
  by (cases a; cases b) auto

lemma media_type_as_str_inj: "media_type_as_str a = media_type_as_str b \<longleftrightarrow> a = b"
  by (cases a; cases b) auto

lemma norm_layer_iff: "layer_to_json a = layer_to_json b \<longleftrightarrow> norm_layer a = norm_layer b"
proof
  assume "layer_to_json a = layer_to_json b"
  note eq = this [unfolded layer_to_json_def]
  have "media_type_as_str (ly_media_type a) = media_type_as_str (ly_media_type b)"
    using json_map_eqD [OF eq, of "''media_type''"]
    by (simp split: layer_source.splits)
  moreover have "compression_as_str (ly_compression a) = compression_as_str (ly_compression b)"
    using json_map_eqD [OF eq, of "''compression''"]
    by (simp split: layer_source.splits)
  moreover have "norm_source (ly_source a) = norm_source (ly_source b)"
    using json_map_eqD [OF eq, of "''source''"] json_map_eqD [OF eq, of "''files''"]
    by (auto simp: norm_source_def map_eq_cong [OF norm_file_iff] split: layer_source.splits)
  ultimately show "norm_layer a = norm_layer b"
    by (cases a; cases b) (simp add: norm_layer_def media_type_as_str_inj compression_as_str_inj)
next
  assume "norm_layer a = norm_layer b"
  then have "ly_media_type a = ly_media_type b" "ly_compression a = ly_compression b"
      "norm_source (ly_source a) = norm_source (ly_source b)"
    by (cases a; cases b; simp add: norm_layer_def)+
  then show "layer_to_json a = layer_to_json b"
    by (cases "ly_source a"; cases "ly_source b")
      (simp_all add: layer_to_json_def norm_source_def map_eq_cong [OF norm_file_iff [symmetric]])
qed

lemma slsa_to_json_get:
  "json_get ''level'' (slsa_to_json s) = Some (JInt (slsa_as_int (sl_level s)))"
  "json_get ''builder_id'' (slsa_to_json s) = map_option JString (sl_builder_id s)"
  by (cases "sl_builder_id s"; simp add: slsa_to_json_def opt_field_def)+

lemma slsa_to_json_inj: "slsa_to_json a = slsa_to_json b \<longleftrightarrow> a = b"
proof
  assume eq: "slsa_to_json a = slsa_to_json b"
  have "sl_level a = sl_level b"
    using arg_cong [OF eq, of "json_get ''level''"] by (simp add: slsa_to_json_get slsa_wire.write_inj)
  moreover have "sl_builder_id a = sl_builder_id b"
    using arg_cong [OF eq, of "json_get ''builder_id''"] by (simp add: slsa_to_json_get)
  ultimately show "a = b" by simp
qed simp

lemma sbom_to_json_inj: "sbom_to_json a = sbom_to_json b \<longleftrightarrow> a = b"
proof
  assume "sbom_to_json a = sbom_to_json b"
  note eq = this [unfolded sbom_to_json_def]
  from json_map_eqD [OF eq, of "''format''"] json_map_eqD [OF eq, of "''scope''"]
  show "a = b"
    by (cases a; cases b) (simp add: sbom_format_wire.write_inj sbom_scope_wire.write_inj)
qed simp

lemma sign_to_json_get:
  "json_get ''kind'' (sign_to_json s) = Some (JString (sign_kind_as_str (sg_kind s)))"
  "json_get ''identity'' (sign_to_json s) = map_option JString (sg_identity s)"
  by (cases "sg_identity s"; simp add: sign_to_json_def opt_field_def)+

lemma sign_to_json_inj: "sign_to_json a = sign_to_json b \<longleftrightarrow> a = b"
proof
  assume eq: "sign_to_json a = sign_to_json b"
  have "sg_kind a = sg_kind b"
    using arg_cong [OF eq, of "json_get ''kind''"] by (simp add: sign_to_json_get sign_kind_wire.write_inj)
  moreover have "sg_identity a = sg_identity b"
    using arg_cong [OF eq, of "json_get ''identity''"] by (simp add: sign_to_json_get)
  ultimately show "a = b" by simp
qed simp

lemma attestation_to_json_inj: "attestation_to_json a = attestation_to_json b \<longleftrightarrow> a = b"
proof
  assume "attestation_to_json a = attestation_to_json b"
  note eq = this [unfolded attestation_to_json_def]
  from json_map_eqD [OF eq, of "''slsa''"] json_map_eqD [OF eq, of "''sbom''"]
    json_map_eqD [OF eq, of "''sign''"]
  show "a = b"
    by (cases a; cases b) (simp add: slsa_to_json_inj sbom_to_json_inj sign_to_json_inj)
qed simp

lemma annotations_to_json_inj:
  assumes "bt_sorted a" and "bt_sorted b" and "annotations_to_json a = annotations_to_json b"
  shows "a = b"
proof (rule bt_sorted_map_of_eq [OF assms(1,2)])
  have lookup: "map_of (rev (map (\<lambda>(k, v). (k, JString v)) m)) k = map_option JString (map_of m k)"
    if "bt_sorted m" for m :: "string btree" and k
  proof -
    have "distinct (map fst (map (\<lambda>(k, v). (k, JString v)) m))"
      using bt_sorted_distinct [OF that] by (simp add: comp_def case_prod_unfold)
    then show ?thesis by (simp add: map_of_rev_distinct map_of_map comp_def)
  qed
  show "map_of a = map_of b"
  proof
    fix k
    show "map_of a k = map_of b k"
      using json_map_eqD [OF assms(3) [unfolded annotations_to_json_def], of k]
      by (simp add: lookup assms(1,2))
  qed
qed

lemma to_string_form_inj:
  "id_wf i \<Longrightarrow> id_wf j \<Longrightarrow> to_string_form i = to_string_form j \<Longrightarrow> i = j"
  using parse_id_Inr_iff [of "to_string_form i" i] parse_id_Inr_iff [of "to_string_form i" j] by simp

lemma config_to_json_inj: "config_to_json a = config_to_json b \<longleftrightarrow> a = b"
  by (cases a; cases b)
    (auto simp: config_to_json_def split: json.splits list.splits)

text \<open>The lookups of the whole object.\<close>

lemma spec_to_json_get:
  "json_get ''spec_version'' (spec_to_json sp) = Some (JString (spec_version_as_str (sp_spec_version sp)))"
  "json_get ''id'' (spec_to_json sp) = Some (JString (to_string_form (sp_id sp)))"
  "json_get ''kind'' (spec_to_json sp) = Some (JString (kind_as_str (sp_kind sp)))"
  "json_get ''description'' (spec_to_json sp) = map_option JString (sp_description sp)"
  "json_get ''platform'' (spec_to_json sp) = platform_to_json (sp_platform sp)"
  "json_get ''layers'' (spec_to_json sp) = Some (JArray (map layer_to_json (sp_layers sp)))"
  "json_get ''config'' (spec_to_json sp) = config_to_json (sp_config sp)"
  "json_get ''annotations'' (spec_to_json sp) =
     (if sp_annotations sp = [] then None else Some (annotations_to_json (sp_annotations sp)))"
  "json_get ''attestation'' (spec_to_json sp) = Some (attestation_to_json (sp_attestation sp))"
  by (cases "sp_description sp"; cases "platform_to_json (sp_platform sp)";
      cases "config_to_json (sp_config sp)"; cases "sp_annotations sp = []";
      simp add: spec_to_json_def opt_field_def)+

lemma spec_to_json_keys:
  "json_get k (spec_to_json sp) \<noteq> None \<Longrightarrow>
   k \<in> {''spec_version'', ''id'', ''kind'', ''description'', ''platform'', ''layers'', ''config'',
        ''annotations'', ''attestation''}"
  unfolding spec_to_json_def json_get_keys
  by (auto simp: opt_field_def split: option.splits if_splits)

lemma spec_to_json_iff:
  assumes "id_wf (sp_id a)" and "id_wf (sp_id b)"
    and "bt_sorted (sp_annotations a)" and "bt_sorted (sp_annotations b)"
  shows "spec_to_json a = spec_to_json b \<longleftrightarrow> norm_spec a = norm_spec b"
proof
  assume eq: "spec_to_json a = spec_to_json b"
  have get: "json_get k (spec_to_json a) = json_get k (spec_to_json b)" for k
    by (simp add: eq)
  have "sp_spec_version a = sp_spec_version b"
    by (cases "sp_spec_version a"; cases "sp_spec_version b") simp
  moreover have "sp_id a = sp_id b"
    using get [of "''id''"] assms(1,2) by (auto simp: spec_to_json_get dest: to_string_form_inj)
  moreover have "sp_kind a = sp_kind b"
    using get [of "''kind''"] by (simp add: spec_to_json_get kind_wire.write_inj)
  moreover have "sp_description a = sp_description b"
    using get [of "''description''"] by (simp add: spec_to_json_get)
  moreover have "sp_platform a = sp_platform b"
    using get [of "''platform''"] by (simp add: spec_to_json_get platform_to_json_inj)
  moreover have "map norm_layer (sp_layers a) = map norm_layer (sp_layers b)"
    using get [of "''layers''"] by (simp add: spec_to_json_get map_eq_cong [OF norm_layer_iff])
  moreover have "sp_config a = sp_config b"
    using get [of "''config''"] by (simp add: spec_to_json_get config_to_json_inj)
  moreover have "sp_annotations a = sp_annotations b"
    using get [of "''annotations''"] assms(3,4)
    by (auto simp: spec_to_json_get dest: annotations_to_json_inj split: if_splits)
  moreover have "sp_attestation a = sp_attestation b"
    using get [of "''attestation''"] by (simp add: spec_to_json_get attestation_to_json_inj)
  ultimately show "norm_spec a = norm_spec b"
    unfolding norm_spec_def by (intro spec.equality) simp_all
next
  assume eq: "norm_spec a = norm_spec b"
  have "map layer_to_json (sp_layers a) = map layer_to_json (sp_layers b)"
    using arg_cong [OF eq, of sp_layers] by (simp add: norm_spec_def map_eq_cong [OF norm_layer_iff])
  moreover have "sp_spec_version a = sp_spec_version b"
    by (cases "sp_spec_version a"; cases "sp_spec_version b") simp
  moreover have "sp_id a = sp_id b" using arg_cong [OF eq, of sp_id] by (simp add: norm_spec_def)
  moreover have "sp_kind a = sp_kind b"
    using arg_cong [OF eq, of sp_kind] by (simp add: norm_spec_def)
  moreover have "sp_description a = sp_description b"
    using arg_cong [OF eq, of sp_description] by (simp add: norm_spec_def)
  moreover have "sp_platform a = sp_platform b"
    using arg_cong [OF eq, of sp_platform] by (simp add: norm_spec_def)
  moreover have "sp_config a = sp_config b"
    using arg_cong [OF eq, of sp_config] by (simp add: norm_spec_def)
  moreover have "sp_annotations a = sp_annotations b"
    using arg_cong [OF eq, of sp_annotations] by (simp add: norm_spec_def)
  moreover have "sp_attestation a = sp_attestation b"
    using arg_cong [OF eq, of sp_attestation] by (simp add: norm_spec_def)
  ultimately show "spec_to_json a = spec_to_json b" by (simp only: spec_to_json_def)
qed

section \<open>Properties\<close>

lemma spec_to_json_tree: "(case sp_config sp of ConfigBlob v \<Rightarrow> json_wf v) \<Longrightarrow> json_wf (spec_to_json sp)"
proof -
  have entry: "json_wf (file_to_json f)" for f
    unfolding file_to_json_def by (rule json_wf_json_map) auto
  have layer: "json_wf (layer_to_json l)" for l
    unfolding layer_to_json_def
    by (rule json_wf_json_map) (auto simp: entry split: layer_source.splits)
  have opt: "(k, v) \<in> set (opt_field k' (map_option JString x)) \<Longrightarrow> json_wf v" for k k' v x
    by (auto simp: opt_field_def split: option.splits)
  have plat: "json_wf v" if "platform_to_json p = Some v" for p v
  proof -
    have "json_wf (json_map (opt_field ''os'' (map_option JString (pf_os p)) @
        opt_field ''arch'' (map_option JString (pf_arch p))))"
      by (rule json_wf_json_map) (auto dest: opt)
    with that show ?thesis by (auto simp: platform_to_json_def split: if_splits)
  qed
  have ann: "json_wf (annotations_to_json m)" for m
    unfolding annotations_to_json_def by (rule json_wf_json_map) auto
  have att: "json_wf (attestation_to_json a)" for a
    unfolding attestation_to_json_def slsa_to_json_def sbom_to_json_def sign_to_json_def
    by (intro json_wf_json_map) (auto intro!: json_wf_json_map intro: opt)
  assume config: "case sp_config sp of ConfigBlob v \<Rightarrow> json_wf v"
  have conf: "json_wf v" if "config_to_json (sp_config sp) = Some v" for v
    using that config
    by (auto simp: config_to_json_def split: config_blob.splits json.splits list.splits)
  show ?thesis
    unfolding spec_to_json_def
    by (rule json_wf_json_map)
      (auto simp: layer ann att opt_field_def intro: plat [OF sym] conf [OF sym] split: option.splits if_splits)
qed

text \<open>
  C18: The canonical tree identifies the specification: for specifications with a valid
  identifier and annotations held in a sorted map, two specifications project to the same
  tree if and only if they are equal up to the path separator of their sources. So nothing a
  specification says is lost to the hash, and the host's path separator is.
\<close>

theorem canonical_tree_exact:
  assumes "id_wf (sp_id a)" and "id_wf (sp_id b)"
    and "bt_sorted (sp_annotations a)" and "bt_sorted (sp_annotations b)"
  shows "spec_to_json a = spec_to_json b \<longleftrightarrow> norm_spec a = norm_spec b"
  by (rule spec_to_json_iff [OF assms])

definition sample_windows_spec :: spec where
  "sample_windows_spec = sample_spec
     \<lparr>sp_layers := [\<lparr>ly_source = Blob (''d'' @ [CHR 0x5C] @ ''b''), ly_media_type = MediaType ''a/x'',
        ly_compression = Gzip\<rparr>]\<rparr>"

definition sample_unix_spec :: spec where
  "sample_unix_spec = sample_spec
     \<lparr>sp_layers := [\<lparr>ly_source = Blob ''d/b'', ly_media_type = MediaType ''a/x'',
        ly_compression = Gzip\<rparr>]\<rparr>"

theorem canonical_tree_exact_witness:
  "spec_to_json sample_windows_spec = spec_to_json sample_unix_spec \<and>
   spec_to_json sample_unix_spec \<noteq> spec_to_json sample_spec"
proof -
  have wf: "id_wf (sp_id sample_spec)" by code_simp
  have ids: "sp_id sample_windows_spec = sp_id sample_spec" "sp_id sample_unix_spec = sp_id sample_spec"
      "sp_annotations sample_windows_spec = []" "sp_annotations sample_unix_spec = []"
      "sp_annotations sample_spec = []"
    by (simp_all add: sample_windows_spec_def sample_unix_spec_def sample_spec_def)
  have "norm_spec sample_windows_spec = norm_spec sample_unix_spec" by code_simp
  moreover have "norm_spec sample_unix_spec \<noteq> norm_spec sample_spec" by code_simp
  ultimately show ?thesis
    using canonical_tree_exact [of sample_windows_spec sample_unix_spec]
      canonical_tree_exact [of sample_unix_spec sample_spec] wf ids by simp
qed

text \<open>
  Optional parts are left out, never written as null: the object has at most the nine
  documented keys, an absent description, platform or empty annotation map and an empty
  configuration have no key, and for a specification the validation accepted the tree is one
  \<open>serde_json\<close> can hold (sorted objects, finite numbers).
\<close>

theorem canonical_tree_shape:
  "(\<forall>k. json_get k (spec_to_json sp) \<noteq> Some JNull \<or> k = ''config'') \<and>
   (json_get ''description'' (spec_to_json sp) = None \<longleftrightarrow> sp_description sp = None) \<and>
   (json_get ''platform'' (spec_to_json sp) = None \<longleftrightarrow> sp_platform sp = default_platform) \<and>
   (json_get ''config'' (spec_to_json sp) = None \<longleftrightarrow> sp_config sp = default_config_blob) \<and>
   (json_get ''annotations'' (spec_to_json sp) = None \<longleftrightarrow> sp_annotations sp = []) \<and>
   (spec_wf sp \<longrightarrow> json_wf (spec_to_json sp))"
proof (intro conjI impI allI)
  fix k
  show "json_get k (spec_to_json sp) \<noteq> Some JNull \<or> k = ''config''"
  proof (cases "json_get k (spec_to_json sp) = None")
    case False
    from spec_to_json_keys [OF this] show ?thesis
      by (auto simp: spec_to_json_get platform_to_json_def annotations_to_json_def
          attestation_to_json_def json_map_def split: if_splits)
  qed simp
next
  show "(json_get ''platform'' (spec_to_json sp) = None) = (sp_platform sp = default_platform)"
    by (cases "sp_platform sp")
      (auto simp: spec_to_json_get platform_to_json_def default_platform_def)
next
  show "(json_get ''config'' (spec_to_json sp) = None) = (sp_config sp = default_config_blob)"
    by (auto simp: spec_to_json_get config_to_json_def default_config_blob_def
        split: config_blob.splits json.splits list.splits)
next
  assume "spec_wf sp"
  then show "json_wf (spec_to_json sp)" by (simp add: spec_to_json_tree spec_wf_def)
qed (simp_all add: spec_to_json_get)

theorem canonical_tree_shape_witness:
  "json_wf (spec_to_json sample_spec) \<and> json_get ''platform'' (spec_to_json sample_spec) = None"
proof -
  have "sp_platform sample_spec = default_platform"
    by (simp add: sample_spec_def)
  with sample_spec_wf show ?thesis using canonical_tree_shape [of sample_spec] by simp
qed

text \<open>
  The spec hash is the digest of the canonical bytes of that tree, so it does not depend
  on the path separator of the host; a serialiser error is passed on.
\<close>

theorem spec_hash_portable:
  "spec_hash jcs sha (norm_spec sp) = spec_hash jcs sha sp \<and>
   (spec_hash jcs sha sp = (case jcs (spec_to_json sp) of
      Inl e \<Rightarrow> Inl (JcsError e) | Inr b \<Rightarrow> Inr (sha b)))"
proof -
  have "norm_layer (norm_layer l) = norm_layer l" for l
    by (cases l; cases "ly_source l")
      (simp_all add: norm_layer_def norm_source_def norm_file_def normalise_path_def
        replace_char_id replace_char_notin)
  then have "layer_to_json (norm_layer l) = layer_to_json l" for l
    by (simp add: norm_layer_iff)
  then have "spec_to_json (norm_spec sp) = spec_to_json sp"
    by (simp add: spec_to_json_def norm_spec_def comp_def)
  then show ?thesis
    by (simp add: spec_hash_def canonical_bytes_def map_err_def split: sum.split)
qed

end
