(* ===== verification/Oci_Types.thy ===== *)
theory Oci_Types
  imports Spec_Canon
begin

text \<open>
  \<open>api/oci_manifest.rs\<close>, \<open>api/build_error.rs\<close> and \<open>api/build_output.rs\<close> of the crate
  \<open>build\<close>: the OCI documents and the JSON their derived \<open>Serialize\<close> writes (fields in
  declaration order, empty ones skipped).
\<close>

section \<open>Constants\<close>

definition media_type_oci_manifest :: string where
  "media_type_oci_manifest = ''application/vnd.oci.image.manifest.v1+json''"

definition media_type_oci_index :: string where
  "media_type_oci_index = ''application/vnd.oci.image.index.v1+json''"

definition media_type_oci_config :: string where
  "media_type_oci_config = ''application/vnd.oci.image.config.v1+json''"

definition oci_layout_version :: string where
  "oci_layout_version = ''1.0.0''"

section \<open>Documents\<close>

record oci_descriptor =
  od_media_type :: string
  od_digest :: string
  od_size :: nat
  od_annotations :: "string btree"

record oci_manifest =
  om_schema_version :: nat
  om_media_type :: string
  om_config :: oci_descriptor
  om_layers :: "oci_descriptor list"
  om_annotations :: "string btree"

record oci_runtime_config =
  orc_env :: "string list"
  orc_entrypoint :: "string list"
  orc_cmd :: "string list"
  orc_labels :: "string btree"

record oci_image_config =
  oic_architecture :: string
  oic_os :: string
  oic_config :: "oci_runtime_config option"
  oic_extra :: "json btree"

record oci_index =
  oi_schema_version :: nat
  oi_media_type :: string
  oi_manifests :: "oci_descriptor list"
  oi_annotations :: "string btree"

record oci_layout =
  ol_image_layout_version :: string

definition oci_layout_pinned :: oci_layout where
  "oci_layout_pinned = \<lparr>ol_image_layout_version = oci_layout_version\<rparr>"

section \<open>What \<open>Serialize\<close> writes\<close>

definition strings_to_json :: "string list \<Rightarrow> json" where
  "strings_to_json ss = JArray (map JString ss)"

definition string_map_to_json :: "string btree \<Rightarrow> json" where
  "string_map_to_json m = JObject (map (\<lambda>(k, v). (k, JString v)) m)"

definition skip_if :: "bool \<Rightarrow> string \<Rightarrow> json \<Rightarrow> (string \<times> json) list" where
  "skip_if skip k v = (if skip then [] else [(k, v)])"

definition descriptor_to_json :: "oci_descriptor \<Rightarrow> json" where
  "descriptor_to_json d = JObject (
     [(''mediaType'', JString (od_media_type d)),
      (''digest'', JString (od_digest d)),
      (''size'', JInt (int (od_size d)))] @
     skip_if (od_annotations d = []) ''annotations'' (string_map_to_json (od_annotations d)))"

definition manifest_to_json :: "oci_manifest \<Rightarrow> json" where
  "manifest_to_json m = JObject (
     [(''schemaVersion'', JInt (int (om_schema_version m))),
      (''mediaType'', JString (om_media_type m)),
      (''config'', descriptor_to_json (om_config m)),
      (''layers'', JArray (map descriptor_to_json (om_layers m)))] @
     skip_if (om_annotations m = []) ''annotations'' (string_map_to_json (om_annotations m)))"

definition runtime_config_to_json :: "oci_runtime_config \<Rightarrow> json" where
  "runtime_config_to_json r = JObject (
     skip_if (orc_env r = []) ''Env'' (strings_to_json (orc_env r)) @
     skip_if (orc_entrypoint r = []) ''Entrypoint'' (strings_to_json (orc_entrypoint r)) @
     skip_if (orc_cmd r = []) ''Cmd'' (strings_to_json (orc_cmd r)) @
     skip_if (orc_labels r = []) ''Labels'' (string_map_to_json (orc_labels r)))"

text \<open>\<open>serde(flatten)\<close> writes the entries of \<open>extra\<close> after the fields, without a check.\<close>

definition image_config_to_json :: "oci_image_config \<Rightarrow> json" where
  "image_config_to_json c = JObject (
     [(''architecture'', JString (oic_architecture c)),
      (''os'', JString (oic_os c))] @
     (case oic_config c of None \<Rightarrow> [] | Some r \<Rightarrow> [(''config'', runtime_config_to_json r)]) @
     oic_extra c)"

definition index_to_json :: "oci_index \<Rightarrow> json" where
  "index_to_json i = JObject (
     [(''schemaVersion'', JInt (int (oi_schema_version i))),
      (''mediaType'', JString (oi_media_type i)),
      (''manifests'', JArray (map descriptor_to_json (oi_manifests i)))] @
     skip_if (oi_annotations i = []) ''annotations'' (string_map_to_json (oi_annotations i)))"

definition layout_to_json :: "oci_layout \<Rightarrow> json" where
  "layout_to_json l = JObject [(''imageLayoutVersion'', JString (ol_image_layout_version l))]"

section \<open>Errors and output of the build\<close>

datatype ('c, 'j) build_error =
    BuildSpec spec_error
  | LayerCompression nat io_error
  | LayerWrite nat 'c
  | TarBuild nat io_error
  | ManifestWrite 'c
  | BuildIo path io_error
  | BuildJson 'j

record 'd build_output =
  bo_manifest_digest :: 'd
  bo_config_digest :: 'd
  bo_layer_digests :: "'d list"
  bo_output_dir :: path

end
