(* ===== verification/Attest_Docs.thy ===== *)
theory Attest_Docs
  imports Spec_Types Std_Extra
begin

text \<open>
  The documents of the crate \<open>attest\<close>: \<open>api/built_artifact.rs\<close>, \<open>core/slsa.rs\<close>,
  \<open>core/sbom_cyclonedx.rs\<close> and \<open>core/sbom_spdx.rs\<close>. A \<open>Digest\<close> belongs to the crate
  \<open>cas\<close>; its accessors are the fields of \<open>digest_ops\<close>. Every object is a \<open>Map\<close> filled by
  insertions.
\<close>

record 'd digest_ops =
  dg_algorithm :: "'d \<Rightarrow> string"
  dg_hex :: "'d \<Rightarrow> string"
  dg_text :: "'d \<Rightarrow> string"

section \<open>The built artifact\<close>

record 'd built_artifact =
  ba_manifest_digest :: 'd
  ba_config_digest :: 'd
  ba_layer_digests :: "(nat \<times> 'd) list"
  ba_spec :: spec
  ba_spec_hash :: 'd

datatype built_artifact_error =
    LayerCountMismatch nat nat
  | LayerOrderMismatch nat nat

text \<open>The first position whose recorded index differs.\<close>

definition order_mismatch :: "(nat \<times> 'd) list \<Rightarrow> (nat \<times> nat) option" where
  "order_mismatch layer_digests =
     map_option (\<lambda>(expected_idx, got_idx, _). (expected_idx, got_idx))
       (find (\<lambda>(expected_idx, got_idx, _). expected_idx \<noteq> got_idx) (List.enumerate 0 layer_digests))"

definition built_artifact_new ::
  "'d \<Rightarrow> 'd \<Rightarrow> (nat \<times> 'd) list \<Rightarrow> spec \<Rightarrow> 'd \<Rightarrow> built_artifact_error + 'd built_artifact" where
  "built_artifact_new manifest_digest config_digest layer_digests sp spec_hash =
     (if length layer_digests \<noteq> length (sp_layers sp) then
        Inl (LayerCountMismatch (length (sp_layers sp)) (length layer_digests))
      else case order_mismatch layer_digests of
        Some (expected_idx, got_idx) \<Rightarrow> Inl (LayerOrderMismatch expected_idx got_idx)
      | None \<Rightarrow>
          Inr \<lparr>ba_manifest_digest = manifest_digest, ba_config_digest = config_digest,
               ba_layer_digests = layer_digests, ba_spec = sp, ba_spec_hash = spec_hash\<rparr>)"

section \<open>The SLSA statement\<close>

definition statement_type :: string where
  "statement_type = ''https://in-toto.io/Statement/v1''"

definition slsa_provenance_v1 :: string where
  "slsa_provenance_v1 = ''https://slsa.dev/provenance/v1''"

definition in_toto_media_type :: string where
  "in_toto_media_type = ''application/vnd.in-toto+json''"

definition unknown_builder :: string where
  "unknown_builder = ''urn:justoci:builder:unknown''"

definition digest_object :: "'d digest_ops \<Rightarrow> 'd \<Rightarrow> json" where
  "digest_object ops d = json_map [(dg_algorithm ops d, JString (dg_hex ops d))]"

definition build_subject :: "'d digest_ops \<Rightarrow> 'd built_artifact \<Rightarrow> json" where
  "build_subject ops built =
     JArray [json_map
       [(''name'', JString (to_string_form (sp_id (ba_spec built)))),
        (''digest'', digest_object ops (ba_manifest_digest built))]]"

definition build_external_parameters ::
  "'d digest_ops \<Rightarrow> 'd built_artifact \<Rightarrow> slsa_config \<Rightarrow> json" where
  "build_external_parameters ops built cfg =
     json_map
       [(''spec_id'', JString (to_string_form (sp_id (ba_spec built)))),
        (''spec_hash'', JString (dg_text ops (ba_spec_hash built))),
        (''spec_kind'', JString (kind_as_str (sp_kind (ba_spec built)))),
        (''claimed_slsa_level'', JInt (slsa_as_int (sl_level cfg)))]"

definition layer_name :: "nat \<Rightarrow> layer \<Rightarrow> string" where
  "layer_name idx l =
     (case ly_source l of
        Blob p \<Rightarrow> ''layer['' @ dec_of_nat idx @ '']:'' @ p
      | Files entries \<Rightarrow>
          ''layer['' @ dec_of_nat idx @ '']:files('' @ dec_of_nat (length entries) @ '')'')"

definition resolved_dependency :: "'d digest_ops \<Rightarrow> nat \<Rightarrow> 'd \<Rightarrow> layer \<Rightarrow> json" where
  "resolved_dependency ops idx digest l =
     json_map
       [(''name'', JString (layer_name idx l)),
        (''digest'', digest_object ops digest),
        (''mediaType'', JString (media_type_as_str (ly_media_type l)))]"

definition build_resolved_dependencies :: "'d digest_ops \<Rightarrow> 'd built_artifact \<Rightarrow> json" where
  "build_resolved_dependencies ops built =
     JArray (map (\<lambda>((idx, digest), l). resolved_dependency ops idx digest l)
       (zip (ba_layer_digests built) (sp_layers (ba_spec built))))"

definition build_build_definition ::
  "'d digest_ops \<Rightarrow> 'd built_artifact \<Rightarrow> slsa_config \<Rightarrow> json" where
  "build_build_definition ops built cfg =
     json_map
       [(''buildType'', JString ''https://justoci.dev/buildtype/spec/v1''),
        (''externalParameters'', build_external_parameters ops built cfg),
        (''resolvedDependencies'', build_resolved_dependencies ops built)]"

definition builder_id_of :: "slsa_config \<Rightarrow> string" where
  "builder_id_of cfg = (case sl_builder_id cfg of Some b \<Rightarrow> b | None \<Rightarrow> unknown_builder)"

definition build_run_details :: "slsa_config \<Rightarrow> json" where
  "build_run_details cfg =
     json_map [(''builder'', json_map [(''id'', JString (builder_id_of cfg))])]"

definition build_predicate :: "'d digest_ops \<Rightarrow> 'd built_artifact \<Rightarrow> slsa_config \<Rightarrow> json" where
  "build_predicate ops built cfg =
     json_map
       [(''buildDefinition'', build_build_definition ops built cfg),
        (''runDetails'', build_run_details cfg)]"

definition build_statement_value :: "'d digest_ops \<Rightarrow> 'd built_artifact \<Rightarrow> slsa_config \<Rightarrow> json" where
  "build_statement_value ops built cfg =
     json_map
       [(''_type'', JString statement_type),
        (''predicateType'', JString slsa_provenance_v1),
        (''subject'', build_subject ops built),
        (''predicate'', build_predicate ops built cfg)]"

section \<open>What both SBOM formats share\<close>

definition want_layers :: "sbom_scope \<Rightarrow> bool" where
  "want_layers scope \<longleftrightarrow> scope = ScopeLayers \<or> scope = ScopeBoth"

definition want_sources :: "sbom_scope \<Rightarrow> bool" where
  "want_sources scope \<longleftrightarrow> scope = ScopeSources \<or> scope = ScopeBoth"

text \<open>\<open>{:o}\<close>.\<close>

fun oct_of_nat :: "nat \<Rightarrow> string" where
  "oct_of_nat n =
     (if n < 8 then [char_of (48 + n)] else oct_of_nat (n div 8) @ [char_of (48 + n mod 8)])"

declare oct_of_nat.simps [simp del]

text \<open>The layers with their recorded index and digest, and the files of the \<open>files\<close> layers.\<close>

definition layer_rows :: "'d built_artifact \<Rightarrow> (nat \<times> 'd \<times> layer) list" where
  "layer_rows built =
     map (\<lambda>((idx, digest), l). (idx, digest, l)) (zip (ba_layer_digests built) (sp_layers (ba_spec built)))"

definition source_rows :: "'d built_artifact \<Rightarrow> (nat \<times> nat \<times> layer_file) list" where
  "source_rows built =
     concat (map (\<lambda>(idx, l).
       case ly_source l of
         Files entries \<Rightarrow> map (\<lambda>(file_idx, e). (idx, file_idx, e)) (List.enumerate 0 entries)
       | Blob _ \<Rightarrow> []) (List.enumerate 0 (sp_layers (ba_spec built))))"

definition layer_display_name :: "nat \<Rightarrow> layer \<Rightarrow> string" where
  "layer_display_name idx l =
     (case ly_source l of
        Blob p \<Rightarrow> ''layer-'' @ dec_of_nat idx @ '':'' @ p
      | Files entries \<Rightarrow>
          ''layer-'' @ dec_of_nat idx @ '':files('' @ dec_of_nat (length entries) @ '')'')"

section \<open>CycloneDX\<close>

definition cyclonedx_version :: string where
  "cyclonedx_version = ''1.5''"

definition bom_format :: string where
  "bom_format = ''CycloneDX''"

definition stable_serial_number :: "'d digest_ops \<Rightarrow> 'd \<Rightarrow> string" where
  "stable_serial_number ops manifest = ''urn:justoci:sbom:'' @ dg_hex ops manifest"

definition build_hashes :: "'d digest_ops \<Rightarrow> 'd \<Rightarrow> json" where
  "build_hashes ops digest =
     JArray [json_map [(''alg'', JString ''SHA-256''), (''content'', JString (dg_hex ops digest))]]"

definition build_metadata :: "'d digest_ops \<Rightarrow> 'd built_artifact \<Rightarrow> json" where
  "build_metadata ops built =
     json_map [(''component'', json_map
       [(''type'', JString ''container''),
        (''bom-ref'', JString (dg_text ops (ba_manifest_digest built))),
        (''name'', JString (ai_name (sp_id (ba_spec built)))),
        (''version'', JString (ai_tag (sp_id (ba_spec built)))),
        (''hashes'', build_hashes ops (ba_manifest_digest built))])]"

definition build_layer_component :: "'d digest_ops \<Rightarrow> nat \<Rightarrow> 'd \<Rightarrow> layer \<Rightarrow> json" where
  "build_layer_component ops idx digest l =
     json_map
       [(''type'', JString ''file''),
        (''bom-ref'', JString (''layer-'' @ dec_of_nat idx @ ''-'' @ dg_hex ops digest)),
        (''name'', JString (layer_display_name idx l)),
        (''mime-type'', JString (media_type_as_str (ly_media_type l))),
        (''hashes'', build_hashes ops digest)]"

definition property_entry :: "string \<Rightarrow> string \<Rightarrow> json" where
  "property_entry n v = json_map [(''name'', JString n), (''value'', JString v)]"

definition build_source_component :: "nat \<Rightarrow> nat \<Rightarrow> layer_file \<Rightarrow> json" where
  "build_source_component layer_idx file_idx entry =
     json_map
       [(''type'', JString ''file''),
        (''bom-ref'', JString (''source-l'' @ dec_of_nat layer_idx @ ''-f'' @ dec_of_nat file_idx @
           ''-'' @ lf_dest entry)),
        (''name'', JString (lf_dest entry)),
        (''properties'', JArray
           [property_entry ''justoci:source-path'' (lf_source entry),
            property_entry ''justoci:mode-octal'' (oct_of_nat (unat (lf_mode entry)))])]"

definition build_components :: "'d digest_ops \<Rightarrow> 'd built_artifact \<Rightarrow> sbom_scope \<Rightarrow> json" where
  "build_components ops built scope =
     JArray
       ((if want_layers scope
         then map (\<lambda>(idx, digest, l). build_layer_component ops idx digest l) (layer_rows built)
         else []) @
        (if want_sources scope
         then map (\<lambda>(idx, file_idx, e). build_source_component idx file_idx e) (source_rows built)
         else []))"

definition build_bom_value :: "'d digest_ops \<Rightarrow> 'd built_artifact \<Rightarrow> sbom_scope \<Rightarrow> json" where
  "build_bom_value ops built scope =
     json_map
       [(''bomFormat'', JString bom_format),
        (''specVersion'', JString cyclonedx_version),
        (''version'', JInt 1),
        (''serialNumber'', JString (stable_serial_number ops (ba_manifest_digest built))),
        (''metadata'', build_metadata ops built),
        (''components'', build_components ops built scope)]"

section \<open>SPDX\<close>

definition spdx_version :: string where
  "spdx_version = ''SPDX-2.3''"

definition data_license :: string where
  "data_license = ''CC0-1.0''"

definition reproducible_timestamp :: string where
  "reproducible_timestamp = ''1970-01-01T00:00:00Z''"

definition build_creation_info :: json where
  "build_creation_info =
     json_map
       [(''created'', JString reproducible_timestamp),
        (''creators'', JArray [JString ''Tool: justoci''])]"

definition build_spdx_checksums :: "'d digest_ops \<Rightarrow> 'd \<Rightarrow> json" where
  "build_spdx_checksums ops digest =
     JArray [json_map [(''algorithm'', JString ''SHA256''), (''checksumValue'', JString (dg_hex ops digest))]]"

definition build_packages :: "'d digest_ops \<Rightarrow> 'd built_artifact \<Rightarrow> json" where
  "build_packages ops built =
     JArray [json_map
       [(''SPDXID'', JString ''SPDXRef-Package-Artifact''),
        (''name'', JString (ai_name (sp_id (ba_spec built)))),
        (''versionInfo'', JString (ai_tag (sp_id (ba_spec built)))),
        (''downloadLocation'', JString ''NOASSERTION''),
        (''filesAnalyzed'', JBool False),
        (''checksums'', build_spdx_checksums ops (ba_manifest_digest built))]]"

definition layer_spdx_id :: "nat \<Rightarrow> string" where
  "layer_spdx_id idx = ''SPDXRef-Layer-'' @ dec_of_nat idx"

definition layer_file_name :: "nat \<Rightarrow> layer \<Rightarrow> string" where
  "layer_file_name idx l =
     (case ly_source l of
        Blob p \<Rightarrow> ''layer-'' @ dec_of_nat idx @ '':'' @ p
      | Files entries \<Rightarrow>
          ''layer-'' @ dec_of_nat idx @ '':files('' @ dec_of_nat (length entries) @ '')'')"

definition spdx_layer_file :: "'d digest_ops \<Rightarrow> nat \<Rightarrow> 'd \<Rightarrow> layer \<Rightarrow> json" where
  "spdx_layer_file ops idx digest l =
     json_map
       [(''SPDXID'', JString (layer_spdx_id idx)),
        (''fileName'', JString (layer_file_name idx l)),
        (''checksums'', build_spdx_checksums ops digest),
        (''comment'', JString (''OCI layer media type: '' @ media_type_as_str (ly_media_type l)))]"

definition spdx_source_file :: "nat \<Rightarrow> nat \<Rightarrow> layer_file \<Rightarrow> json" where
  "spdx_source_file idx file_idx entry =
     json_map
       [(''SPDXID'', JString (''SPDXRef-Source-L'' @ dec_of_nat idx @ ''-F'' @ dec_of_nat file_idx)),
        (''fileName'', JString (lf_dest entry)),
        (''comment'', JString (''source: '' @ lf_source entry @ '' mode: '' @
           oct_of_nat (unat (lf_mode entry))))]"

definition build_files :: "'d digest_ops \<Rightarrow> 'd built_artifact \<Rightarrow> sbom_scope \<Rightarrow> json" where
  "build_files ops built scope =
     JArray
       ((if want_layers scope
         then map (\<lambda>(idx, digest, l). spdx_layer_file ops idx digest l) (layer_rows built)
         else []) @
        (if want_sources scope
         then map (\<lambda>(idx, file_idx, e). spdx_source_file idx file_idx e) (source_rows built)
         else []))"

definition spdx_relationship :: "string \<Rightarrow> string \<Rightarrow> string \<Rightarrow> json" where
  "spdx_relationship a r b =
     json_map
       [(''spdxElementId'', JString a),
        (''relationshipType'', JString r),
        (''relatedSpdxElement'', JString b)]"

definition build_relationships :: "'d built_artifact \<Rightarrow> sbom_scope \<Rightarrow> json" where
  "build_relationships built scope =
     JArray
       (spdx_relationship ''SPDXRef-DOCUMENT'' ''DESCRIBES'' ''SPDXRef-Package-Artifact'' #
        (if want_layers scope
         then map (\<lambda>(idx, _). spdx_relationship ''SPDXRef-Package-Artifact'' ''CONTAINS'' (layer_spdx_id idx))
           (ba_layer_digests built)
         else []))"

definition build_doc_value :: "'d digest_ops \<Rightarrow> 'd built_artifact \<Rightarrow> sbom_scope \<Rightarrow> json" where
  "build_doc_value ops built scope =
     json_map
       [(''spdxVersion'', JString spdx_version),
        (''dataLicense'', JString data_license),
        (''SPDXID'', JString ''SPDXRef-DOCUMENT''),
        (''name'', JString (to_string_form (sp_id (ba_spec built)))),
        (''documentNamespace'', JString (''https://justoci.dev/spdx/'' @ dg_hex ops (ba_manifest_digest built))),
        (''creationInfo'', build_creation_info),
        (''packages'', build_packages ops built),
        (''files'', build_files ops built scope),
        (''relationships'', build_relationships built scope)]"

end
