(* ===== verification/Process.thy ===== *)
theory Process
  imports Std_Extra Publish_Types
begin

text \<open>
  What the code around the external program \<open>cosign\<close> shares: running a command, files in
  the temporary directory, and functions that leave early with a value of their own result
  type.
\<close>

definition io_run :: "('s \<Rightarrow> 'a \<times> 's) \<Rightarrow> ('s, 'e, 'a) io" where
  "io_run f = (\<lambda>s. case f s of (x, t) \<Rightarrow> (Inr x, t))"

record command_output =
  co_success :: bool
  co_stderr :: bytes

text \<open>\<open>Command::output\<close> of a program with its arguments, the clock and the process.\<close>

record 's process_lib =
  ql_output :: "path \<Rightarrow> string list \<Rightarrow> ('s, io_error, command_output) io"
  ql_temp_dir :: path
  ql_pid :: nat
  ql_nanos :: "'s \<Rightarrow> nat"
  ql_io_text :: "io_error \<Rightarrow> string"
  ql_value :: "bytes \<Rightarrow> message + json"

text \<open>\<open>write_payload_tempfile\<close>, with the prefix of the name as an argument.\<close>

definition write_tempfile ::
  "'x fs_scheme process_lib \<Rightarrow> string \<Rightarrow> string \<Rightarrow> ('x fs_scheme, io_error, path) io" where
  "write_tempfile lib prefix content =
     io_bind (io_get (ql_nanos lib)) (\<lambda>nanos.
     let p = path_join (ql_temp_dir lib)
       (prefix @ dec_of_nat (ql_pid lib) @ ''-'' @ dec_of_nat nanos @ ''.txt'') in
     io_bind (fs_write p content) (\<lambda>_. io_return p))"

text \<open>\<open>let _ = fs::remove_file(p)\<close>.\<close>

definition remove_quietly :: "path \<Rightarrow> ('x fs_scheme, 'e, unit) io" where
  "remove_quietly p = io_bind (io_try (fs_remove_file p)) (\<lambda>_. io_return ())"

definition remove_both :: "path \<Rightarrow> path \<Rightarrow> ('x fs_scheme, 'e, unit) io" where
  "remove_both payload_path bundle_path =
     io_bind (remove_quietly payload_path) (\<lambda>_. remove_quietly bundle_path)"

text \<open>A function whose early returns are values of its own result type.\<close>

definition returning :: "('s, 'a, 'a) io \<Rightarrow> 's \<Rightarrow> 'a \<times> 's" where
  "returning m = (\<lambda>s. case m s of (Inl x, t) \<Rightarrow> (x, t) | (Inr x, t) \<Rightarrow> (x, t))"

definition trimmed_stderr :: "command_output \<Rightarrow> string" where
  "trimmed_stderr out = trim (utf8_lossy (co_stderr out))"

end
