(* ===== verification/Attest.thy ===== *)
theory Attest
  imports Attest_Docs Process
begin

text \<open>
  The rest of the crate \<open>attest\<close>: \<open>core/cosign.rs\<close>, \<open>core/sigstore_invoker.rs\<close>,
  \<open>core/justsign_invoker.rs\<close>, \<open>api/attestation.rs\<close>, \<open>api/error.rs\<close> and \<open>saf/attest.rs\<close>.
  The content store, \<open>serde_json::to_vec\<close>, the subprocess and the two signing SDKs are
  parameters. An error of an SDK is its displayed text.
\<close>

section \<open>Errors and outputs\<close>

datatype ('c, 'j) attest_error =
    AttestSpec spec_error
  | SlsaEmit 'j
  | SbomEmit string 'j
  | SignerUnavailable
  | SignFailed string
  | SignNotRecorded string
  | AttestCas 'c
  | AttestIo io_error

record 'd slsa_statement =
  ss_blob_digest :: 'd
  ss_size :: nat
  ss_media_type :: string
  ss_predicate_type :: string

datatype sbom_media_type = CycloneDxJson | SpdxJson

definition sbom_media_type_as_str :: "sbom_media_type \<Rightarrow> string" where
  "sbom_media_type_as_str t =
     (case t of
        CycloneDxJson \<Rightarrow> ''application/vnd.cyclonedx+json''
      | SpdxJson \<Rightarrow> ''application/spdx+json'')"

record 'd sbom =
  sm_blob_digest :: 'd
  sm_size :: nat
  sm_media_type :: sbom_media_type

record 'd signature =
  sn_bundle_digest :: 'd
  sn_size :: nat
  sn_media_type :: string
  sn_rekor_log_index :: nat
  sn_identity :: string

record 'd attestation_outputs =
  ao_slsa :: "'d slsa_statement option"
  ao_sbom :: "'d sbom option"
  ao_signature :: "'d signature option"

record ('s, 'd, 'c, 'j) attest_lib =
  al_digest :: "'d digest_ops"
  al_put :: "bytes \<Rightarrow> ('s, 'c, 'd) io"
  al_to_vec :: "json \<Rightarrow> 'j + bytes"

section \<open>The invokers of a signer\<close>

definition cosign_media_type :: string where
  "cosign_media_type = ''application/vnd.dev.cosign.simplesigning.v1+json''"

datatype cosign_outcome =
    SignedAndRecorded bytes nat
  | SignedNotRecorded string
  | OutcomeSignFailed string
  | CosignNotInstalled

record 'd cosign_invocation =
  ci_manifest_digest :: 'd
  ci_kind :: sign_kind
  ci_identity :: "string option"

type_synonym ('s, 'd) cosign_invoker = "'d cosign_invocation \<Rightarrow> 's \<Rightarrow> cosign_outcome \<times> 's"

subsection \<open>The subprocess\<close>

text \<open>The em dash of the messages, in UTF-8.\<close>

definition em_dash :: string where
  "em_dash = map char_of [226 :: nat, 128, 148]"

text \<open>\<open>cosign_on_path\<close> on Unix: the directories of \<open>PATH\<close>, in order, until one has the file.\<close>

fun first_file :: "path list \<Rightarrow> ('x fs_scheme, 'e, bool) io" where
  "first_file [] = io_return False"
| "first_file (p # ps) = io_bind (fs_is_file p) (\<lambda>here. if here then io_return True else first_file ps)"

definition cosign_on_path :: "(('w, 'x) sys_scheme, 'e, bool) io" where
  "cosign_on_path =
     io_bind (io_get (\<lambda>s. sy_env s ''PATH'')) (\<lambda>path_var.
     case path_var of
       None \<Rightarrow> io_return False
     | Some v \<Rightarrow> first_file (map (\<lambda>dir. path_join dir ''cosign'') (split_all (CHR '':'') v)))"

definition extract_cosign_legacy_log_index :: "(bytes \<Rightarrow> message + json) \<Rightarrow> bytes \<Rightarrow> nat option" where
  "extract_cosign_legacy_log_index parse bundle_bytes =
     (case parse bundle_bytes of
        Inl _ \<Rightarrow> None
      | Inr v \<Rightarrow>
          Option.bind (json_get ''rekorBundle'' v) (\<lambda>b.
          Option.bind (json_get ''Payload'' b) (\<lambda>payload.
          Option.bind (json_get ''logIndex'' payload) json_as_u64)))"

definition write_sign_payload ::
  "'x fs_scheme process_lib \<Rightarrow> string \<Rightarrow> ('x fs_scheme, io_error, path) io" where
  "write_sign_payload lib content = write_tempfile lib ''justoci-cosign-payload-'' content"

text \<open>The arguments that depend on the kind of signing, or the refusal of the kind.\<close>

definition kind_args :: "sign_kind \<Rightarrow> string option \<Rightarrow> string + string list" where
  "kind_args k identity =
     (case k of
        CosignKey \<Rightarrow>
          (case identity of
             Some p \<Rightarrow> Inr [''--key'', p]
           | None \<Rightarrow> Inl ''cosign-key mode requires sign.identity to point at a keyfile'')
      | CosignKeyless \<Rightarrow> Inr (case identity of Some i \<Rightarrow> [''--identity-token'', i] | None \<Rightarrow> [])
      | SignOff \<Rightarrow> Inl ''cosign invoker called with SignKind::Off (programmer error)'')"

definition read_bundle ::
  "'x fs_scheme process_lib \<Rightarrow> path \<Rightarrow> path \<Rightarrow> ('x fs_scheme, cosign_outcome, cosign_outcome) io" where
  "read_bundle lib payload_path bundle_path =
     io_bind (io_try (fs_read bundle_path)) (\<lambda>r.
     case r of
       Inl e \<Rightarrow>
         io_bind (remove_quietly payload_path) (\<lambda>_.
         io_fail (SignedNotRecorded (''cosign succeeded but bundle file unreadable: '' @ ql_io_text lib e)))
     | Inr bundle_bytes \<Rightarrow>
         io_bind (remove_both payload_path bundle_path) (\<lambda>_.
         case extract_cosign_legacy_log_index (ql_value lib) bundle_bytes of
           Some log_index \<Rightarrow> io_return (SignedAndRecorded bundle_bytes log_index)
         | None \<Rightarrow> io_return (SignedNotRecorded (''cosign bundle has no rekorBundle.Payload.logIndex (Rekor entry not recorded '' @
             em_dash @ '' likely --no-tlog-upload or Rekor outage)''))))"

definition real_cosign_invoke ::
  "('w, 'x) sys_scheme process_lib \<Rightarrow> 'd digest_ops \<Rightarrow> (('w, 'x) sys_scheme, 'd) cosign_invoker" where
  "real_cosign_invoke lib ops invocation = returning
     (io_bind cosign_on_path (\<lambda>installed.
      if \<not> installed then io_fail CosignNotInstalled else
      io_bind (io_map_err
        (\<lambda>e. OutcomeSignFailed (''could not write cosign payload temp file: '' @ ql_io_text lib e))
        (write_sign_payload lib (dg_text ops (ci_manifest_digest invocation)))) (\<lambda>payload_path.
      let bundle_path = with_extension payload_path ''bundle.json'' in
      case kind_args (ci_kind invocation) (ci_identity invocation) of
        Inl stderr \<Rightarrow>
          io_bind (remove_quietly payload_path) (\<lambda>_. io_fail (OutcomeSignFailed stderr))
      | Inr args \<Rightarrow>
      io_bind (io_try (ql_output lib ''cosign''
        ([''sign-blob'', ''--yes'', ''--bundle'', bundle_path] @ args @ [payload_path]))) (\<lambda>output.
      case output of
        Inl e \<Rightarrow>
          io_bind (remove_quietly payload_path) (\<lambda>_.
          io_fail (OutcomeSignFailed (''failed to run cosign sign-blob: '' @ ql_io_text lib e)))
      | Inr out \<Rightarrow>
          if \<not> co_success out then
            io_bind (remove_both payload_path bundle_path) (\<lambda>_.
            io_fail (OutcomeSignFailed (trimmed_stderr out)))
          else read_bundle lib payload_path bundle_path))))"

subsection \<open>The tokens of the two SDKs\<close>

text \<open>\<open>resolve_oidc_token\<close>; the two modules have the same function.\<close>

definition nonempty_env :: "('w, 'x) sys_scheme \<Rightarrow> string \<Rightarrow> string option" where
  "nonempty_env s key = (case sy_env s key of Some v \<Rightarrow> if v = [] then None else Some v | None \<Rightarrow> None)"

definition resolve_oidc_token :: "(('w, 'x) sys_scheme, 'e, string option) io" where
  "resolve_oidc_token = io_get (\<lambda>s.
     case nonempty_env s ''SIGSTORE_ID_TOKEN'' of
       Some v \<Rightarrow> Some v
     | None \<Rightarrow> nonempty_env s ''OIDC_TOKEN'')"

subsection \<open>The sigstore SDK\<close>

datatype sigstore_target = SigstoreProduction | SigstoreStaging

record ('s, 't, 'g, 'k, 'b) sigstore_sdk =
  sk_identity :: "string \<Rightarrow> string + 't"
  sk_production :: "('s, string, 'g) io"
  sk_signer :: "'g \<Rightarrow> 't \<Rightarrow> ('s, string, 'k) io"
  sk_sign :: "'k \<Rightarrow> bytes \<Rightarrow> ('s, string, 'b) io"
  sk_bundle_to_vec :: "'b \<Rightarrow> string + bytes"
  sk_value :: "bytes \<Rightarrow> message + json"

definition staging_unavailable_msg :: string where
  "staging_unavailable_msg =
     ''sigstore-rs 0.13 does not expose a public staging SigningContext (the '' @
     [CHR 0x60] @ ''Keyring'' @ [CHR 0x60] @ '' argument to '' @ [CHR 0x60] @
     ''SigningContext::new'' @ [CHR 0x60] @ '' is '' @ [CHR 0x60] @ ''pub(crate)'' @ [CHR 0x60] @
     ''); cannot reach fulcio.sigstage.dev / rekor.sigstage.dev through the SDK from '' @
     ''external code. Tracking upstream sigstore-rs for a public '' @ [CHR 0x60] @ ''staging()'' @
     [CHR 0x60] @ '' constructor; until then this invoker is a harness-only stub. '' @
     ''Production code must use '' @ [CHR 0x60] @ ''SigstoreInvoker::new()'' @ [CHR 0x60] @
     '' (production target).''"

text \<open>\<open>str::parse::<u64>\<close>: an optional plus sign, then digits, within 64 bits.\<close>

definition dec_value :: "string \<Rightarrow> nat" where
  "dec_value ds = foldl (\<lambda>n c. 10 * n + (code_of c - 48)) 0 ds"

definition parse_u64 :: "string \<Rightarrow> nat option" where
  "parse_u64 s =
     (let ds = (case s of c # r \<Rightarrow> if c = CHR ''+'' then r else s | [] \<Rightarrow> s) in
      if ds = [] \<or> \<not> list_all is_ascii_digit ds \<or> 2 ^ 64 \<le> dec_value ds then None
      else Some (dec_value ds))"

definition extract_sigstore_bundle_log_index :: "(bytes \<Rightarrow> message + json) \<Rightarrow> bytes \<Rightarrow> nat option" where
  "extract_sigstore_bundle_log_index parse bundle_bytes =
     (case parse bundle_bytes of
        Inl _ \<Rightarrow> None
      | Inr v \<Rightarrow>
          Option.bind (json_get ''verificationMaterial'' v) (\<lambda>vm.
          Option.bind (json_get ''tlogEntries'' vm) (\<lambda>te.
          Option.bind (json_as_array te) (\<lambda>entries.
          case entries of
            [] \<Rightarrow> None
          | first # _ \<Rightarrow>
              Option.bind (json_get ''logIndex'' first) (\<lambda>log_index.
              case json_as_str log_index of
                Some s \<Rightarrow> parse_u64 s
              | None \<Rightarrow> json_as_u64 log_index)))))"

definition sigstore_invoke ::
  "(('w, 'x) sys_scheme, 't, 'g, 'k, 'b) sigstore_sdk \<Rightarrow> 'd digest_ops \<Rightarrow> sigstore_target \<Rightarrow>
   (('w, 'x) sys_scheme, 'd) cosign_invoker" where
  "sigstore_invoke sdk ops target invocation = returning
     (if ci_kind invocation = CosignKey then
        io_fail (OutcomeSignFailed
          (''sign.kind = \"cosign-key\" is not supported on the sigstore-rs path; '' @
           ''rebuild with --features cosign-subprocess (and '' @ [CHR 0x60] @ ''cosign'' @ [CHR 0x60] @
           '' on PATH) or use sign.kind = \"cosign-keyless\"''))
      else if ci_kind invocation = SignOff then
        io_fail (OutcomeSignFailed ''sigstore invoker called with SignKind::Off (programmer error)'')
      else if target = SigstoreStaging then io_fail (OutcomeSignFailed staging_unavailable_msg)
      else
      io_bind resolve_oidc_token (\<lambda>token.
      case token of
        None \<Rightarrow> io_fail CosignNotInstalled
      | Some raw_token \<Rightarrow>
      io_bind (io_lift (map_err
        (\<lambda>e. OutcomeSignFailed (''OIDC token rejected by sigstore: '' @ e @
           ''. Token must be a JWT with aud=\"sigstore\". '' @
           ''Configure SIGSTORE_ID_TOKEN to a valid token.''))
        (sk_identity sdk raw_token))) (\<lambda>identity_token.
      io_bind (io_map_err
        (\<lambda>e. OutcomeSignFailed (''could not initialise Sigstore production trust root: '' @ e))
        (sk_production sdk)) (\<lambda>ctx.
      io_bind (io_map_err (\<lambda>e. OutcomeSignFailed (''Fulcio certificate exchange failed: '' @ e))
        (sk_signer sdk ctx identity_token)) (\<lambda>session.
      io_bind (io_map_err (\<lambda>e. OutcomeSignFailed (''sigstore sign failed: '' @ e))
        (sk_sign sdk session (dg_text ops (ci_manifest_digest invocation)))) (\<lambda>bundle.
      io_bind (io_lift (map_err
        (\<lambda>e. OutcomeSignFailed (''could not serialise sigstore Bundle to JSON: '' @ e))
        (sk_bundle_to_vec sdk bundle))) (\<lambda>bundle_bytes.
      case extract_sigstore_bundle_log_index (sk_value sdk) bundle_bytes of
        Some log_index \<Rightarrow> io_return (SignedAndRecorded bundle_bytes log_index)
      | None \<Rightarrow> io_return (SignedNotRecorded
          (''sigstore Bundle returned by sign() has no '' @
           ''verificationMaterial.tlogEntries[0].logIndex '' @
           ''(Rekor entry missing '' @ em_dash @ '' defensive guard, '' @
           ''this should be unreachable per sigstore-rs v0.13)'')))))))))"

subsection \<open>The justsign SDK\<close>

datatype justsign_target = JustsignProduction | JustsignStaging

definition endpoints :: "justsign_target \<Rightarrow> string \<times> string" where
  "endpoints target =
     (case target of
        JustsignProduction \<Rightarrow> (''https://fulcio.sigstore.dev'', ''https://rekor.sigstore.dev'')
      | JustsignStaging \<Rightarrow> (''https://fulcio.sigstage.dev'', ''https://rekor.sigstage.dev''))"

text \<open>\<open>SignError\<close>: the failed submission to the log is told apart from everything else.\<close>

datatype blob_sign_error = RekorSubmit string | OtherSignError string

definition display_sign_error :: "blob_sign_error \<Rightarrow> string" where
  "display_sign_error e = (case e of RekorSubmit t \<Rightarrow> t | OtherSignError t \<Rightarrow> t)"

record ('s, 'f, 'k, 'r, 'l, 'b) justsign_sdk =
  jk_fulcio :: "string \<Rightarrow> ('s, string, 'f) io"
  jk_random_key :: "'s \<Rightarrow> 'k \<times> 's"
  jk_build_csr :: "'k \<Rightarrow> string \<Rightarrow> string + 'r"
  jk_sign_csr :: "'f \<Rightarrow> 'r \<Rightarrow> string \<Rightarrow> ('s, string, bytes list) io"
  jk_rekor :: "string \<Rightarrow> ('s, string, 'l) io"
  jk_sign_blob ::
    "bytes \<Rightarrow> string \<Rightarrow> 'k \<Rightarrow> bytes list \<Rightarrow> 'l option \<Rightarrow> ('s, blob_sign_error, 'b) io"
  jk_log_indices :: "'b \<Rightarrow> int list"
  jk_encode_json :: "'b \<Rightarrow> string + bytes"

text \<open>The last steps: the transparency-log index of the bundle, then its encoding.\<close>

definition finish_justsign ::
  "('s, 'f, 'k, 'r, 'l, 'b) justsign_sdk \<Rightarrow> 'b \<Rightarrow> cosign_outcome + cosign_outcome" where
  "finish_justsign sdk bundle =
     (case jk_log_indices sdk bundle of
        [] \<Rightarrow> Inl (SignedNotRecorded
          (''justsign Bundle returned by sign_blob_keyless has empty '' @
           ''verification_material.tlog_entries (Rekor entry missing '' @ em_dash @
           '' defensive guard, this should be unreachable per justsign sign_blob_keyless contract)''))
      | log_index # _ \<Rightarrow>
          if log_index < 0 then Inl (SignedNotRecorded
            (''justsign Bundle'' @ [CHR 0x27] @ ''s tlog_entries[0].log_index is negative ('' @
             dec_of_int log_index @ ''); Rekor indices must be non-negative '' @ em_dash @
             '' bundle is malformed''))
          else and_then (map_err
            (\<lambda>e. OutcomeSignFailed (''could not serialise justsign Bundle to JSON: '' @ e))
            (jk_encode_json sdk bundle)) (\<lambda>bundle_bytes.
          Inr (SignedAndRecorded bundle_bytes (nat log_index))))"

definition justsign_invoke ::
  "(('w, 'x) sys_scheme, 'f, 'k, 'r, 'l, 'b) justsign_sdk \<Rightarrow> 'd digest_ops \<Rightarrow> justsign_target \<Rightarrow>
   (('w, 'x) sys_scheme, 'd) cosign_invoker" where
  "justsign_invoke sdk ops target invocation = returning
     (if ci_kind invocation = CosignKey then
        io_fail (OutcomeSignFailed
          (''sign.kind = \"cosign-key\" is not supported on the justsign path; '' @
           ''rebuild with --features cosign-subprocess (and '' @ [CHR 0x60] @ ''cosign'' @ [CHR 0x60] @
           '' on PATH) or use sign.kind = \"cosign-keyless\"''))
      else if ci_kind invocation = SignOff then
        io_fail (OutcomeSignFailed ''justsign invoker called with SignKind::Off (programmer error)'')
      else
      io_bind resolve_oidc_token (\<lambda>resolved.
      case resolved of
        None \<Rightarrow> io_fail CosignNotInstalled
      | Some token \<Rightarrow>
      let fulcio_url = fst (endpoints target); rekor_url = snd (endpoints target) in
      io_bind (io_map_err
        (\<lambda>e. OutcomeSignFailed (''could not initialise justsign HttpFulcioClient against '' @
           fulcio_url @ '': '' @ e)) (jk_fulcio sdk fulcio_url)) (\<lambda>fulcio_client.
      io_bind (io_run (jk_random_key sdk)) (\<lambda>signing_key.
      io_bind (io_lift (map_err
        (\<lambda>e. OutcomeSignFailed (''justsign CSR construction failed: '' @ e))
        (jk_build_csr sdk signing_key ''justoci@local''))) (\<lambda>csr.
      io_bind (io_map_err
        (\<lambda>e. OutcomeSignFailed (''justsign Fulcio CSR exchange against '' @ fulcio_url @
           '' failed: '' @ e)) (jk_sign_csr sdk fulcio_client csr token)) (\<lambda>cert_chain_der.
      io_bind (io_map_err
        (\<lambda>e. OutcomeSignFailed (''could not initialise justsign HttpRekorClient against '' @
           rekor_url @ '': '' @ e)) (jk_rekor sdk rekor_url)) (\<lambda>rekor_client.
      io_bind (io_map_err
        (\<lambda>e. case e of
           RekorSubmit rekor_err \<Rightarrow> SignedNotRecorded
             (''justsign Rekor submission against '' @ rekor_url @ '' failed: '' @ rekor_err)
         | _ \<Rightarrow> OutcomeSignFailed
             (''justsign sign_blob_keyless failed: '' @ display_sign_error e))
        (jk_sign_blob sdk (dg_text ops (ci_manifest_digest invocation)) ''text/plain''
          signing_key cert_chain_der (Some rekor_client))) (\<lambda>bundle.
      io_lift (finish_justsign sdk bundle)))))))))"

section \<open>Signing\<close>

definition sign_with ::
  "('s, 'd, 'c, 'j) attest_lib \<Rightarrow> 'd \<Rightarrow> sign_config \<Rightarrow> ('s, 'd) cosign_invoker \<Rightarrow>
   ('s, ('c, 'j) attest_error, 'd signature option) io" where
  "sign_with lib manifest_digest cfg invoker =
     (if sg_kind cfg = SignOff then io_return None else
      io_bind (io_run (invoker
        \<lparr>ci_manifest_digest = manifest_digest, ci_kind = sg_kind cfg, ci_identity = sg_identity cfg\<rparr>))
        (\<lambda>outcome.
      case outcome of
        SignedAndRecorded bundle_bytes log_index \<Rightarrow>
          io_bind (io_map_err AttestCas (al_put lib bundle_bytes)) (\<lambda>bundle_digest.
          io_return (Some
            \<lparr>sn_bundle_digest = bundle_digest,
             sn_size = length bundle_bytes,
             sn_media_type = cosign_media_type,
             sn_rekor_log_index = log_index,
             sn_identity = (case sg_identity cfg of Some i \<Rightarrow> i | None \<Rightarrow> ''<unspecified>'')\<rparr>))
      | SignedNotRecorded reason \<Rightarrow> io_fail (SignNotRecorded reason)
      | OutcomeSignFailed stderr \<Rightarrow> io_fail (SignFailed stderr)
      | CosignNotInstalled \<Rightarrow> io_fail SignerUnavailable))"

section \<open>The documents in the store\<close>

definition build_statement_bytes ::
  "('s, 'd, 'c, 'j) attest_lib \<Rightarrow> 'd built_artifact \<Rightarrow> slsa_config \<Rightarrow> ('c, 'j) attest_error + bytes" where
  "build_statement_bytes lib built cfg =
     map_err SlsaEmit (al_to_vec lib (build_statement_value (al_digest lib) built cfg))"

definition emit_slsa ::
  "('s, 'd, 'c, 'j) attest_lib \<Rightarrow> 'd built_artifact \<Rightarrow> slsa_config \<Rightarrow>
   ('s, ('c, 'j) attest_error, 'd slsa_statement option) io" where
  "emit_slsa lib built cfg =
     (if sl_level cfg = SlsaOff then io_return None else
      io_bind (io_lift (build_statement_bytes lib built cfg)) (\<lambda>bs.
      io_bind (io_map_err AttestCas (al_put lib bs)) (\<lambda>blob_digest.
      io_return (Some
        \<lparr>ss_blob_digest = blob_digest, ss_size = length bs, ss_media_type = in_toto_media_type,
         ss_predicate_type = slsa_provenance_v1\<rparr>))))"

definition build_bom_bytes ::
  "('s, 'd, 'c, 'j) attest_lib \<Rightarrow> 'd built_artifact \<Rightarrow> sbom_scope \<Rightarrow> ('c, 'j) attest_error + bytes" where
  "build_bom_bytes lib built scope =
     map_err (SbomEmit ''cyclonedx'') (al_to_vec lib (build_bom_value (al_digest lib) built scope))"

definition emit_cyclonedx ::
  "('s, 'd, 'c, 'j) attest_lib \<Rightarrow> 'd built_artifact \<Rightarrow> sbom_scope \<Rightarrow>
   ('s, ('c, 'j) attest_error, 'd sbom) io" where
  "emit_cyclonedx lib built scope =
     io_bind (io_lift (build_bom_bytes lib built scope)) (\<lambda>bs.
     io_bind (io_map_err AttestCas (al_put lib bs)) (\<lambda>blob_digest.
     io_return \<lparr>sm_blob_digest = blob_digest, sm_size = length bs, sm_media_type = CycloneDxJson\<rparr>))"

definition build_doc_bytes ::
  "('s, 'd, 'c, 'j) attest_lib \<Rightarrow> 'd built_artifact \<Rightarrow> sbom_scope \<Rightarrow> ('c, 'j) attest_error + bytes" where
  "build_doc_bytes lib built scope =
     map_err (SbomEmit ''spdx'') (al_to_vec lib (build_doc_value (al_digest lib) built scope))"

definition emit_spdx ::
  "('s, 'd, 'c, 'j) attest_lib \<Rightarrow> 'd built_artifact \<Rightarrow> sbom_scope \<Rightarrow>
   ('s, ('c, 'j) attest_error, 'd sbom) io" where
  "emit_spdx lib built scope =
     io_bind (io_lift (build_doc_bytes lib built scope)) (\<lambda>bs.
     io_bind (io_map_err AttestCas (al_put lib bs)) (\<lambda>blob_digest.
     io_return \<lparr>sm_blob_digest = blob_digest, sm_size = length bs, sm_media_type = SpdxJson\<rparr>))"

section \<open>The pipeline\<close>

definition attest_with_invoker ::
  "('s, 'd, 'c, 'j) attest_lib \<Rightarrow> 'd built_artifact \<Rightarrow> attestation_config \<Rightarrow>
   ('s, 'd) cosign_invoker \<Rightarrow> ('s, ('c, 'j) attest_error, 'd attestation_outputs) io" where
  "attest_with_invoker lib built cfg invoker =
     io_bind (emit_slsa lib built (at_slsa cfg)) (\<lambda>slsa.
     io_bind
       (case sb_format (at_sbom cfg) of
          CycloneDx \<Rightarrow>
            io_bind (emit_cyclonedx lib built (sb_scope (at_sbom cfg))) (\<lambda>b. io_return (Some b))
        | Spdx \<Rightarrow> io_bind (emit_spdx lib built (sb_scope (at_sbom cfg))) (\<lambda>b. io_return (Some b))
        | SbomOff \<Rightarrow> io_return None) (\<lambda>sbom.
     io_bind
       (case sg_kind (at_sign cfg) of
          SignOff \<Rightarrow> io_return None
        | _ \<Rightarrow> sign_with lib (ba_manifest_digest built) (at_sign cfg) invoker) (\<lambda>signature.
     io_return \<lparr>ao_slsa = slsa, ao_sbom = sbom, ao_signature = signature\<rparr>)))"

text \<open>\<open>attest\<close> with its default feature, which links the sigstore SDK.\<close>

definition attest ::
  "(('w, 'x) sys_scheme, 'd, 'c, 'j) attest_lib \<Rightarrow>
   (('w, 'x) sys_scheme, 't, 'g, 'k, 'b) sigstore_sdk \<Rightarrow> 'd built_artifact \<Rightarrow> attestation_config \<Rightarrow>
   (('w, 'x) sys_scheme, ('c, 'j) attest_error, 'd attestation_outputs) io" where
  "attest lib sdk built cfg =
     attest_with_invoker lib built cfg (sigstore_invoke sdk (al_digest lib) SigstoreProduction)"

end
