(* ===== verification/Image_Dir.thy ===== *)
theory Image_Dir
  imports Publish_Types
begin

text \<open>
  \<open>api/image_dir.rs\<close> of the crate \<open>publish\<close>: the validated handle on an OCI image
  directory. The derived \<open>Deserialize\<close> of the three documents, with \<open>serde_json\<close>, is a
  parameter (\<open>image_codecs\<close>); everything the function does with the documents is modelled.
\<close>

section \<open>Constants and documents\<close>

definition supported_layout_version :: string where
  "supported_layout_version = ''1.0.0''"

definition oci_layout_file :: string where
  "oci_layout_file = ''oci-layout''"

definition index_json_file :: string where
  "index_json_file = ''index.json''"

definition manifest_media_type :: string where
  "manifest_media_type = ''application/vnd.oci.image.manifest.v1+json''"

record pub_descriptor =
  pd_media_type :: string
  pd_digest :: string
  pd_size :: nat
  pd_artifact_type :: "string option"

record pub_manifest =
  pm_media_type :: "string option"
  pm_config :: pub_descriptor
  pm_layers :: "pub_descriptor list"
  pm_subject :: "pub_descriptor option"

record pub_index =
  pi_manifests :: "pub_descriptor list"

record layout_marker =
  lm_version :: string

record image_descriptor =
  id_primary_digest :: string
  id_primary_size :: nat
  id_config :: pub_descriptor
  id_layers :: "pub_descriptor list"
  id_referrers :: "pub_descriptor list"

record image_dir =
  im_root :: path
  im_descriptor :: image_descriptor
  im_referenced :: "pub_descriptor list"

text \<open>\<open>serde_json::from_slice\<close> at the three types; an error is its text.\<close>

record image_codecs =
  layout_from_slice :: "bytes \<Rightarrow> message + layout_marker"
  index_from_slice :: "bytes \<Rightarrow> message + pub_index"
  manifest_from_slice :: "bytes \<Rightarrow> message + pub_manifest"

section \<open>Digests and blob paths\<close>

definition digest_shape :: "string \<Rightarrow> image_dir_error + string" where
  "digest_shape digest =
     and_then (ok_or (InvalidDigestFormat digest [Txt ''missing 'algorithm:hex' separator''])
       (split_once (CHR '':'') digest)) (\<lambda>(algo, hex).
     if algo \<noteq> ''sha256'' then
       Inl (InvalidDigestFormat digest [Txt ''only sha256 is supported, got '', Dbg algo])
     else if length hex \<noteq> 64 then
       Inl (InvalidDigestFormat digest
         [Txt ''sha256 hex must be 64 chars, got '', Txt (dec_of_nat (length hex))])
     else Inr hex)"

definition blob_path_of :: "path \<Rightarrow> string \<Rightarrow> image_dir_error + path" where
  "blob_path_of root digest =
     and_then (digest_shape digest) (\<lambda>hex.
     if \<not> list_all is_lower_hex hex then
       Inl (InvalidDigestFormat digest [Txt ''hex must be lowercase''])
     else Inr (path_join (path_join (path_join root ''blobs'') ''sha256'') hex))"

definition validate_digest_format :: "string \<Rightarrow> image_dir_error + unit" where
  "validate_digest_format digest = and_then (digest_shape digest) (\<lambda>_. Inr ())"

definition validate_descriptor_blob_present ::
  "path \<Rightarrow> pub_descriptor \<Rightarrow> message \<Rightarrow> ('x fs_scheme, image_dir_error, unit) io" where
  "validate_descriptor_blob_present root desc context =
     io_bind (io_lift (validate_digest_format (pd_digest desc))) (\<lambda>_.
     io_bind (io_lift (blob_path_of root (pd_digest desc))) (\<lambda>p.
     io_bind (fs_is_file p) (\<lambda>is_file.
     if \<not> is_file then io_fail (MissingBlob (pd_digest desc) context) else io_return ())))"

section \<open>\<open>ImageDir::open\<close>\<close>

definition read_layout_marker ::
  "image_codecs \<Rightarrow> path \<Rightarrow> ('x fs_scheme, image_dir_error, unit) io" where
  "read_layout_marker cod path =
     (let layout_path = path_join path oci_layout_file in
      io_bind (fs_is_file layout_path) (\<lambda>is_file.
      if \<not> is_file then io_fail (MissingFile oci_layout_file layout_path) else
      io_bind (io_map_err (ImageDirIo layout_path) (fs_read layout_path)) (\<lambda>layout_bytes.
      io_bind (io_lift (map_err (MalformedJson oci_layout_file layout_path)
        (layout_from_slice cod layout_bytes))) (\<lambda>layout.
      if lm_version layout \<noteq> supported_layout_version then
        io_fail (UnsupportedLayoutVersion layout_path (lm_version layout) supported_layout_version)
      else io_return ()))))"

definition read_index ::
  "image_codecs \<Rightarrow> path \<Rightarrow> ('x fs_scheme, image_dir_error, pub_index) io" where
  "read_index cod path =
     (let index_path = path_join path index_json_file in
      io_bind (fs_is_file index_path) (\<lambda>is_file.
      if \<not> is_file then io_fail (MissingFile index_json_file index_path) else
      io_bind (io_map_err (ImageDirIo index_path) (fs_read index_path)) (\<lambda>index_bytes.
      io_lift (map_err (MalformedJson index_json_file index_path)
        (index_from_slice cod index_bytes)))))"

text \<open>The body of the loop over the descriptors of the index, up to the sorting.\<close>

definition read_manifest ::
  "image_codecs \<Rightarrow> path \<Rightarrow> pub_descriptor \<Rightarrow> ('x fs_scheme, image_dir_error, pub_manifest) io" where
  "read_manifest cod path desc =
     io_bind (io_lift (validate_digest_format (pd_digest desc))) (\<lambda>_.
     if pd_media_type desc \<noteq> manifest_media_type then
       io_fail (UnsupportedManifestMediaType (pd_digest desc) (pd_media_type desc))
     else
     io_bind (io_lift (blob_path_of path (pd_digest desc))) (\<lambda>manifest_blob_path.
     io_bind (fs_is_file manifest_blob_path) (\<lambda>is_file.
     if \<not> is_file then
       io_fail (MissingBlob (pd_digest desc) [Txt ''manifest descriptor in '', Txt index_json_file])
     else
     io_bind (io_map_err (ImageDirIo manifest_blob_path) (fs_read manifest_blob_path))
       (\<lambda>manifest_bytes.
     io_bind (io_lift (map_err (MalformedJson ''blobs/sha256/<manifest>'' manifest_blob_path)
       (manifest_from_slice cod manifest_bytes))) (\<lambda>manifest.
     case pm_media_type manifest of
       Some mt \<Rightarrow>
         if mt \<noteq> manifest_media_type then
           io_fail (UnsupportedManifestMediaType (pd_digest desc) mt)
         else io_return manifest
     | None \<Rightarrow> io_return manifest)))))"

type_synonym found = "pub_descriptor \<times> pub_manifest"

text \<open>The loop state: primary candidates and referrers, in index order.\<close>

definition sort_manifest ::
  "image_codecs \<Rightarrow> path \<Rightarrow> pub_descriptor \<Rightarrow> found list \<times> found list \<Rightarrow>
   ('x fs_scheme, image_dir_error, found list \<times> found list) io" where
  "sort_manifest cod path desc st =
     io_bind (read_manifest cod path desc) (\<lambda>manifest.
     case st of (primaries, referrers) \<Rightarrow>
       if pm_subject manifest \<noteq> None
       then io_return (primaries, referrers @ [(desc, manifest)])
       else io_return (primaries @ [(desc, manifest)], referrers))"

definition choose_primary :: "path \<Rightarrow> found list \<Rightarrow> image_dir_error + found" where
  "choose_primary index_path primaries =
     (case primaries of
        [] \<Rightarrow> Inl (NoPrimaryManifest index_path)
      | [p] \<Rightarrow> Inr p
      | _ \<Rightarrow> Inl (MultiplePrimaryManifests index_path (length primaries)))"

definition check_contents ::
  "path \<Rightarrow> pub_manifest \<Rightarrow> message \<Rightarrow> message \<Rightarrow> ('x fs_scheme, image_dir_error, unit) io" where
  "check_contents path manifest config_context layer_context =
     io_bind (validate_descriptor_blob_present path (pm_config manifest) config_context) (\<lambda>_.
     io_fold (\<lambda>(i, l) _. validate_descriptor_blob_present path l
         (layer_context @ [Txt (dec_of_nat i), Txt '']'']))
       (List.enumerate 0 (pm_layers manifest)) ())"

text \<open>\<open>expect\<close> on the subject of a referrer cannot fail: it is how it was sorted.\<close>

definition check_referrer ::
  "path \<Rightarrow> pub_descriptor \<Rightarrow> found \<Rightarrow> unit \<Rightarrow> ('x fs_scheme, image_dir_error, unit) io" where
  "check_referrer path primary r u =
     (case r of (ref_desc, ref_manifest) \<Rightarrow>
        let subject = the (pm_subject ref_manifest) in
        if pd_digest subject \<noteq> pd_digest primary then
          io_fail (MissingBlob (pd_digest subject)
            [Txt ''referrer manifest '', Txt (pd_digest ref_desc),
             Txt [CHR 0x27], Txt ''s subject digest does not match the primary manifest digest '',
             Txt (pd_digest primary)])
        else check_contents path ref_manifest
          [Txt ''referrer '', Txt (pd_digest ref_desc), Txt '' config'']
          [Txt ''referrer '', Txt (pd_digest ref_desc), Txt '' layer[''])"

text \<open>\<open>push\<close>: the set of digests already seen, and the list.\<close>

definition push_new ::
  "pub_descriptor \<Rightarrow> string set \<times> pub_descriptor list \<Rightarrow> string set \<times> pub_descriptor list" where
  "push_new desc st =
     (case st of (seen, out) \<Rightarrow>
        if pd_digest desc \<in> seen then (seen, out)
        else (insert (pd_digest desc) seen, out @ [desc]))"

definition walk_order :: "found \<Rightarrow> found list \<Rightarrow> pub_descriptor list" where
  "walk_order primary referrers =
     pm_layers (snd primary) @ [pm_config (snd primary)] @
     concat (map (\<lambda>(d, m). pm_layers m @ [pm_config m] @ [d]) referrers) @ [fst primary]"

definition referenced_of :: "found \<Rightarrow> found list \<Rightarrow> pub_descriptor list" where
  "referenced_of primary referrers = snd (fold push_new (walk_order primary referrers) ({}, []))"

definition open_image_dir ::
  "image_codecs \<Rightarrow> path \<Rightarrow> ('x fs_scheme, image_dir_error, image_dir) io" where
  "open_image_dir cod path =
     io_bind (read_layout_marker cod path) (\<lambda>_.
     io_bind (read_index cod path) (\<lambda>index.
     io_bind (io_fold (sort_manifest cod path) (pi_manifests index) ([], []))
       (\<lambda>(primaries, referrers).
     io_bind (io_lift (choose_primary (path_join path index_json_file) primaries)) (\<lambda>primary.
     io_bind (check_contents path (snd primary) [Txt ''primary manifest config'']
       [Txt ''primary manifest layer['']) (\<lambda>_.
     io_bind (io_fold (check_referrer path (fst primary)) referrers ()) (\<lambda>_.
     io_return
       \<lparr>im_root = path,
        im_descriptor =
          \<lparr>id_primary_digest = pd_digest (fst primary), id_primary_size = pd_size (fst primary),
           id_config = pm_config (snd primary), id_layers = pm_layers (snd primary),
           id_referrers = map fst referrers\<rparr>,
        im_referenced = referenced_of primary referrers\<rparr>))))))"

section \<open>Accessors\<close>

definition primary_manifest :: "image_dir \<Rightarrow> pub_descriptor" where
  "primary_manifest im =
     \<lparr>pd_media_type = manifest_media_type, pd_digest = id_primary_digest (im_descriptor im),
      pd_size = id_primary_size (im_descriptor im), pd_artifact_type = None\<rparr>"

definition blob_path :: "image_dir \<Rightarrow> string \<Rightarrow> image_dir_error + path" where
  "blob_path im digest = blob_path_of (im_root im) digest"

definition read_index_bytes :: "image_dir \<Rightarrow> ('x fs_scheme, image_dir_error, bytes) io" where
  "read_index_bytes im =
     (let p = path_join (im_root im) index_json_file in io_map_err (ImageDirIo p) (fs_read p))"

definition read_oci_layout_bytes :: "image_dir \<Rightarrow> ('x fs_scheme, image_dir_error, bytes) io" where
  "read_oci_layout_bytes im =
     (let p = path_join (im_root im) oci_layout_file in io_map_err (ImageDirIo p) (fs_read p))"

section \<open>Paths of blobs\<close>

definition sha256_digest :: "string \<Rightarrow> string \<Rightarrow> bool" where
  "sha256_digest digest hex \<longleftrightarrow>
     digest = ''sha256:'' @ hex \<and> length hex = 64 \<and> list_all is_lower_hex hex"

lemma split_sha256: "split_once (CHR '':'') (''sha256:'' @ hex) = Some (''sha256'', hex)"
  by simp

lemma split_sha256_iff:
  "split_once (CHR '':'') digest = Some (''sha256'', hex) \<longleftrightarrow> digest = ''sha256:'' @ hex"
  by (simp add: split_once_Some_iff)

lemma digest_shape_Inr_iff:
  "digest_shape digest = Inr hex \<longleftrightarrow> digest = ''sha256:'' @ hex \<and> length hex = 64"
proof
  assume "digest_shape digest = Inr hex"
  then have "split_once (CHR '':'') digest = Some (''sha256'', hex)" and "length hex = 64"
    by (auto simp: digest_shape_def and_then_Inr_iff split: if_splits)
  then show "digest = ''sha256:'' @ hex \<and> length hex = 64"
    by (simp only: split_sha256_iff simp_thms)
qed (simp add: digest_shape_def)

lemma plain_name_hex:
  assumes "length hex = 64" and "list_all is_lower_hex hex"
  shows "plain_name hex"
proof -
  have "CHR ''/'' \<notin> set hex"
    using assms(2) by (auto simp: list_all_iff ascii_defs)
  with assms(1) show ?thesis by (auto simp: plain_name_def)
qed

lemma blob_path_of_Inr_iff:
  "blob_path_of root digest = Inr p \<longleftrightarrow>
     (\<exists>hex. sha256_digest digest hex \<and> p = path_join (path_join (path_join root ''blobs'') ''sha256'') hex)"
  by (auto simp: blob_path_of_def and_then_Inr_iff digest_shape_Inr_iff sha256_digest_def
      split: if_splits)

lemma fs_key_blob:
  assumes "plain_name hex"
  shows "fs_key (path_join (path_join (path_join root ''blobs'') ''sha256'') hex) =
    fs_key root @ [''blobs'', ''sha256'', hex]"
  using assms by (simp add: fs_key_join_plain plain_name_def)

lemma sha256_digest_plain: "sha256_digest d hex \<Longrightarrow> plain_name hex"
  by (auto simp: sha256_digest_def intro: plain_name_hex)

lemma validate_digest_format_Inr: "blob_path_of root d = Inr p \<Longrightarrow> validate_digest_format d = Inr ()"
  by (auto simp: validate_digest_format_def blob_path_of_def and_then_Inr_iff)

text \<open>
  A digest resolves to a path exactly when it is \<open>sha256:\<close> and 64 lowercase
  hexadecimal digits, and then to the file of that name directly under \<open>blobs/sha256\<close> of the
  root: no digest escapes that directory, and two digests never share a file.
\<close>

theorem blob_path_exact:
  "((\<exists>p. blob_path_of root d = Inr p) \<longleftrightarrow> (\<exists>hex. sha256_digest d hex)) \<and>
   (blob_path_of root d = Inr p \<and> blob_path_of root e = Inr q \<longleftrightarrow>
     (\<exists>h k. sha256_digest d h \<and> sha256_digest e k \<and>
        p = path_join (path_join (path_join root ''blobs'') ''sha256'') h \<and>
        q = path_join (path_join (path_join root ''blobs'') ''sha256'') k \<and>
        fs_key p = fs_key root @ [''blobs'', ''sha256'', h] \<and>
        fs_key q = fs_key root @ [''blobs'', ''sha256'', k] \<and>
        (fs_key p = fs_key q \<longleftrightarrow> d = e)))"
  by (auto simp: blob_path_of_Inr_iff fs_key_blob sha256_digest_plain)
    (auto simp: sha256_digest_def)

section \<open>What \<open>open\<close> establishes\<close>

lemma triple_is_file_still:
  "triple (still m h) (fs_is_file p)
     (\<lambda>b s. still m h s \<and> (b \<longrightarrow> is_file_node (look p m))) (\<lambda>_. still m h)"
  unfolding fs_is_file_def
  by (rule triple_fs_query, rule triple_conseq [OF triple_fs_call_reads])
    (auto simp: call_defs)

lemma is_file_no_fault:
  "fs_faults s = [] \<Longrightarrow> fs_is_file p s = (Inr (is_file_node (look p (fs_nodes s))), s)"
  unfolding fs_is_file_def by (rule fs_query_no_fault) (simp_all add: call_defs)

definition blob_on_disk :: "path \<Rightarrow> nodes \<Rightarrow> string \<Rightarrow> bool" where
  "blob_on_disk path m d \<longleftrightarrow> (\<exists>p. blob_path_of path d = Inr p \<and> is_file_node (look p m))"

definition found_at ::
  "image_codecs \<Rightarrow> path \<Rightarrow> nodes \<Rightarrow> pub_descriptor \<Rightarrow> pub_manifest \<Rightarrow> bool" where
  "found_at cod path m desc man \<longleftrightarrow>
     pd_media_type desc = manifest_media_type \<and>
     (\<exists>p b. blob_path_of path (pd_digest desc) = Inr p \<and> look p m = Some (FileNode b) \<and>
        manifest_from_slice cod b = Inr man) \<and>
     (pm_media_type man = None \<or> pm_media_type man = Some manifest_media_type)"

definition contents_on_disk :: "path \<Rightarrow> nodes \<Rightarrow> pub_manifest \<Rightarrow> bool" where
  "contents_on_disk path m man \<longleftrightarrow>
     (\<forall>d \<in> set (pm_config man # pm_layers man). blob_on_disk path m (pd_digest d))"

definition referrer_ok :: "path \<Rightarrow> nodes \<Rightarrow> pub_descriptor \<Rightarrow> found \<Rightarrow> bool" where
  "referrer_ok path m primary r \<longleftrightarrow>
     pd_digest (the (pm_subject (snd r))) = pd_digest primary \<and> contents_on_disk path m (snd r)"

definition has_subject :: "found \<Rightarrow> bool" where
  "has_subject r \<longleftrightarrow> pm_subject (snd r) \<noteq> None"

text \<open>A valid image directory, with its primary manifest and its referrers.\<close>

definition valid_image ::
  "image_codecs \<Rightarrow> path \<Rightarrow> nodes \<Rightarrow> found \<Rightarrow> found list \<Rightarrow> bool" where
  "valid_image cod path m primary referrers \<longleftrightarrow>
     (\<exists>b l. look (path_join path oci_layout_file) m = Some (FileNode b) \<and>
        layout_from_slice cod b = Inr l \<and> lm_version l = supported_layout_version) \<and>
     (\<exists>b idx found. look (path_join path index_json_file) m = Some (FileNode b) \<and>
        index_from_slice cod b = Inr idx \<and> map fst found = pi_manifests idx \<and>
        (\<forall>r \<in> set found. found_at cod path m (fst r) (snd r)) \<and>
        filter (\<lambda>r. \<not> has_subject r) found = [primary] \<and> filter has_subject found = referrers) \<and>
     contents_on_disk path m (snd primary) \<and>
     (\<forall>r \<in> set referrers. referrer_ok path m (fst primary) r)"

definition image_of :: "path \<Rightarrow> found \<Rightarrow> found list \<Rightarrow> image_dir" where
  "image_of path primary referrers =
     \<lparr>im_root = path,
      im_descriptor =
        \<lparr>id_primary_digest = pd_digest (fst primary), id_primary_size = pd_size (fst primary),
         id_config = pm_config (snd primary), id_layers = pm_layers (snd primary),
         id_referrers = map fst referrers\<rparr>,
      im_referenced = referenced_of primary referrers\<rparr>"

subsection \<open>Soundness, under any faults\<close>

lemma triple_is_file_guard:
  assumes "is_file_node (look p m) \<Longrightarrow> triple (still m h) c Q (\<lambda>_. still m h)"
  shows "triple (still m h)
    (io_bind (fs_is_file p) (\<lambda>is_file. if \<not> is_file then io_fail e else c)) Q (\<lambda>_. still m h)"
  by (rule triple_bind_fact [OF triple_is_file_still])
    (auto intro!: triple_fail assms)

lemma triple_read_still_err:
  "triple (still m h) (io_map_err g (fs_read p))
     (\<lambda>bs s. still m h s \<and> look p m = Some (FileNode bs)) (\<lambda>_. still m h)"
  by (rule triple_map_err_const [OF triple_read_still])

lemma triple_layout_marker:
  "triple (still m h) (read_layout_marker cod path)
     (\<lambda>_ s. still m h s \<and>
        (\<exists>b l. look (path_join path oci_layout_file) m = Some (FileNode b) \<and>
           layout_from_slice cod b = Inr l \<and> lm_version l = supported_layout_version))
     (\<lambda>_. still m h)"
  unfolding read_layout_marker_def Let_def
  by (rule triple_is_file_guard, rule triple_bind_fact [OF triple_read_still_err],
      rule triple_bind_fact [OF triple_lift_fact], assumption)
    (auto intro!: triple_fail triple_return)

lemma triple_read_index:
  "triple (still m h) (read_index cod path)
     (\<lambda>idx s. still m h s \<and>
        (\<exists>b. look (path_join path index_json_file) m = Some (FileNode b) \<and>
           index_from_slice cod b = Inr idx)) (\<lambda>_. still m h)"
  unfolding read_index_def Let_def
  by (rule triple_is_file_guard, rule triple_bind_fact [OF triple_read_still_err],
      rule triple_lift) auto

lemma triple_blob_present:
  "triple (still m h) (validate_descriptor_blob_present path d c)
     (\<lambda>_ s. still m h s \<and> blob_on_disk path m (pd_digest d)) (\<lambda>_. still m h)"
  unfolding validate_descriptor_blob_present_def
  by (rule triple_bind_fact [OF triple_lift_fact], assumption,
      rule triple_bind_fact [OF triple_lift_fact], assumption, rule triple_is_file_guard)
    (auto intro!: triple_return simp: blob_on_disk_def)

lemma triple_read_manifest:
  "triple (still m h) (read_manifest cod path d)
     (\<lambda>man s. still m h s \<and> found_at cod path m d man) (\<lambda>_. still m h)"
proof -
  have "triple (still m h)
      (case pm_media_type man of
         Some mt \<Rightarrow> if mt \<noteq> manifest_media_type then io_fail (e mt) else io_return man
       | None \<Rightarrow> io_return man)
      (\<lambda>man s. still m h s \<and> found_at cod path m d man) (\<lambda>_. still m h)"
    if "pd_media_type d = manifest_media_type" "blob_path_of path (pd_digest d) = Inr p"
      "look p m = Some (FileNode b)" "manifest_from_slice cod b = Inr man" for e p b man
    using that
    by (cases "pm_media_type man") (auto intro!: triple_return triple_fail simp: found_at_def)
  then show ?thesis
    unfolding read_manifest_def
    by (intro triple_bind_fact [OF triple_lift_fact] triple_if triple_fail
        triple_is_file_guard triple_bind_fact [OF triple_read_still_err]) auto
qed

lemma ball_enumerate:
  "(\<forall>x \<in> set (List.enumerate n xs). P (snd x)) \<longleftrightarrow> (\<forall>x \<in> set xs. P x)"
  by (induction xs arbitrary: n) auto

lemma triple_check_contents:
  "triple (still m h) (check_contents path man c1 c2)
     (\<lambda>_ s. still m h s \<and> contents_on_disk path m man) (\<lambda>_. still m h)"
  unfolding check_contents_def
proof (rule triple_bind_fact [OF triple_blob_present])
  assume config: "blob_on_disk path m (pd_digest (pm_config man))"
  have "triple (still m h)
      (io_fold (\<lambda>(i, l) _. validate_descriptor_blob_present path l (c2 @ [Txt (dec_of_nat i), Txt '']'']))
        (List.enumerate 0 (pm_layers man)) ())
      (\<lambda>_ s. still m h s \<and> (\<forall>x \<in> set (List.enumerate 0 (pm_layers man)).
         blob_on_disk path m (pd_digest (snd x)))) (\<lambda>_. still m h)"
    by (rule triple_fold_fact) (auto split: prod.split intro: triple_blob_present)
  then show "triple (still m h)
      (io_fold (\<lambda>(i, l) _. validate_descriptor_blob_present path l (c2 @ [Txt (dec_of_nat i), Txt '']'']))
        (List.enumerate 0 (pm_layers man)) ())
      (\<lambda>_ s. still m h s \<and> contents_on_disk path m man) (\<lambda>_. still m h)"
    by (rule triple_conseq)
      (use config in \<open>auto simp: contents_on_disk_def
        ball_enumerate [where P = "\<lambda>l. blob_on_disk path m (pd_digest l)"]\<close>)
qed

lemma triple_check_referrer:
  "triple (still m h) (check_referrer path primary r u)
     (\<lambda>_ s. still m h s \<and> referrer_ok path m primary r) (\<lambda>_. still m h)"
  unfolding check_referrer_def Let_def
  by (auto split: prod.split intro!: triple_fail triple_conseq [OF triple_check_contents]
      simp: referrer_ok_def)

text \<open>The loop sorts what it has found.\<close>

definition sorted_found :: "found list \<Rightarrow> found list \<times> found list" where
  "sorted_found found = (filter (\<lambda>r. \<not> has_subject r) found, filter has_subject found)"

lemma triple_sort_manifests:
  "triple (still m h) (io_fold (sort_manifest cod path) ds ([], []))
     (\<lambda>st s. still m h s \<and> (\<exists>found. map fst found = ds \<and>
        (\<forall>r \<in> set found. found_at cod path m (fst r) (snd r)) \<and> st = sorted_found found))
     (\<lambda>_. still m h)"
proof -
  define I where "I ys st s \<longleftrightarrow> still m h s \<and> (\<exists>found. map fst found = ys \<and>
      (\<forall>r \<in> set found. found_at cod path m (fst r) (snd r)) \<and> st = sorted_found found)"
    for ys st and s :: "'a fs_scheme"
  have "triple (I [] ([], [])) (io_fold (sort_manifest cod path) ds ([], []))
      (\<lambda>st. I ds st) (\<lambda>_. still m h)"
  proof (rule triple_fold)
    fix ys x st
    have step: "triple (still m h) (sort_manifest cod path x st) (\<lambda>st'. I (ys @ [x]) st') (\<lambda>_. still m h)"
      if found: "map fst found = ys" "\<forall>r \<in> set found. found_at cod path m (fst r) (snd r)"
        "st = sorted_found found" for found
      unfolding sort_manifest_def
    proof (rule triple_bind_fact [OF triple_read_manifest])
      fix man
      assume man: "found_at cod path m x man"
      then show "triple (still m h)
          (case st of (primaries, referrers) \<Rightarrow>
             if pm_subject man \<noteq> None then io_return (primaries, referrers @ [(x, man)])
             else io_return (primaries @ [(x, man)], referrers))
          (\<lambda>st'. I (ys @ [x]) st') (\<lambda>_. still m h)"
        using found
        by (auto simp: I_def sorted_found_def has_subject_def simp del: split_paired_All
            intro!: triple_return exI [of _ "found @ [(x, man)]"]) force+
    qed
    show "triple (I ys st) (sort_manifest cod path x st) (\<lambda>st'. I (ys @ [x]) st') (\<lambda>_. still m h)"
    proof (cases "\<exists>found. map fst found = ys \<and>
        (\<forall>r \<in> set found. found_at cod path m (fst r) (snd r)) \<and> st = sorted_found found")
      case True
      then obtain found where "map fst found = ys"
        "\<forall>r \<in> set found. found_at cod path m (fst r) (snd r)" "st = sorted_found found" by blast
      from step [OF this] show ?thesis by (rule triple_pre) (simp add: I_def)
    next
      case False
      then have "\<not> I ys st s" for s :: "'a fs_scheme" by (simp add: I_def)
      then show ?thesis by (simp add: triple_def)
    qed
  qed
  moreover have "I [] ([], []) s" if "still m h s" for s :: "'a fs_scheme"
    using that by (simp add: I_def sorted_found_def)
  ultimately show ?thesis
    by (rule triple_conseq) (auto simp: I_def)
qed

lemma choose_primary_Inr_iff: "choose_primary p xs = Inr x \<longleftrightarrow> xs = [x]"
  by (auto simp: choose_primary_def split: list.split)

lemma triple_open:
  "triple (still m h) (open_image_dir cod path)
     (\<lambda>im s. still m h s \<and>
        (\<exists>primary referrers. valid_image cod path m primary referrers \<and>
           im = image_of path primary referrers)) (\<lambda>_. still m h)"
  unfolding open_image_dir_def
proof (rule triple_bind_fact [OF triple_layout_marker], rule triple_bind_fact [OF triple_read_index],
    rule triple_bind_fact [OF triple_sort_manifests])
  fix idx st
  assume layout: "\<exists>b l. look (path_join path oci_layout_file) m = Some (FileNode b) \<and>
      layout_from_slice cod b = Inr l \<and> lm_version l = supported_layout_version"
    and index: "\<exists>b. look (path_join path index_json_file) m = Some (FileNode b) \<and>
      index_from_slice cod b = Inr idx"
    and found: "\<exists>found. map fst found = pi_manifests idx \<and>
      (\<forall>r \<in> set found. found_at cod path m (fst r) (snd r)) \<and> st = sorted_found found"
  obtain primaries referrers where st: "st = (primaries, referrers)" by (cases st)
  have final: "triple (still m h) (io_return (image_of path primary referrers))
      (\<lambda>im s. still m h s \<and> (\<exists>primary referrers. valid_image cod path m primary referrers \<and>
           im = image_of path primary referrers)) (\<lambda>_. still m h)"
    if "choose_primary ip primaries = Inr primary" "contents_on_disk path m (snd primary)"
      "\<forall>r \<in> set referrers. referrer_ok path m (fst primary) r" for ip primary
  proof (rule triple_return)
    fix s assume "still m h s"
    moreover have "valid_image cod path m primary referrers"
      using that layout index found st
      unfolding valid_image_def choose_primary_Inr_iff sorted_found_def by fastforce
    ultimately show "still m h s \<and> (\<exists>p r. valid_image cod path m p r \<and>
        image_of path primary referrers = image_of path p r)" by blast
  qed
  show "triple (still m h) (case st of (primaries, referrers) \<Rightarrow>
      io_bind (io_lift (choose_primary (path_join path index_json_file) primaries)) (\<lambda>primary.
      io_bind (check_contents path (snd primary) [Txt ''primary manifest config'']
       [Txt ''primary manifest layer['']) (\<lambda>_.
      io_bind (io_fold (check_referrer path (fst primary)) referrers ()) (\<lambda>_.
      io_return
       \<lparr>im_root = path,
        im_descriptor =
          \<lparr>id_primary_digest = pd_digest (fst primary), id_primary_size = pd_size (fst primary),
           id_config = pm_config (snd primary), id_layers = pm_layers (snd primary),
           id_referrers = map fst referrers\<rparr>,
        im_referenced = referenced_of primary referrers\<rparr>))))
      (\<lambda>im s. still m h s \<and> (\<exists>primary referrers. valid_image cod path m primary referrers \<and>
           im = image_of path primary referrers)) (\<lambda>_. still m h)"
    unfolding st prod.case image_of_def [symmetric]
    by (intro triple_bind_fact [OF triple_lift_fact] triple_bind_fact [OF triple_check_contents]
        triple_bind_fact [OF triple_fold_fact [OF triple_check_referrer]] final) auto
qed

subsection \<open>Completeness, without faults\<close>

lemma io_fold_unit:
  "(\<And>x. x \<in> set xs \<Longrightarrow> f x () s = (Inr (), s)) \<Longrightarrow> io_fold f xs () s = (Inr (), s)"
  by (induction xs) (simp_all add: io_bind_apply io_apply_simps)

lemma run_layout_marker:
  assumes "fs_faults s = []" and "look (path_join path oci_layout_file) (fs_nodes s) = Some (FileNode b)"
    and "layout_from_slice cod b = Inr l" and "lm_version l = supported_layout_version"
  shows "read_layout_marker cod path s = (Inr (), s)"
  using assms
  by (simp add: read_layout_marker_def Let_def io_defs is_file_no_fault read_no_fault is_file_node_def)

lemma run_read_index:
  assumes "fs_faults s = []" and "look (path_join path index_json_file) (fs_nodes s) = Some (FileNode b)"
    and "index_from_slice cod b = Inr idx"
  shows "read_index cod path s = (Inr idx, s)"
  using assms
  by (simp add: read_index_def Let_def io_defs is_file_no_fault read_no_fault is_file_node_def)

lemma run_blob_present:
  assumes "fs_faults s = []" and "blob_on_disk path (fs_nodes s) (pd_digest d)"
  shows "validate_descriptor_blob_present path d c s = (Inr (), s)"
proof -
  obtain p where p: "blob_path_of path (pd_digest d) = Inr p" "is_file_node (look p (fs_nodes s))"
    using assms(2) by (auto simp: blob_on_disk_def)
  with assms(1) validate_digest_format_Inr [OF p(1)] show ?thesis
    by (simp add: validate_descriptor_blob_present_def io_defs is_file_no_fault)
qed

lemma run_read_manifest:
  assumes "fs_faults s = []" and "found_at cod path (fs_nodes s) d man"
  shows "read_manifest cod path d s = (Inr man, s)"
proof -
  obtain p b where p: "blob_path_of path (pd_digest d) = Inr p"
      "look p (fs_nodes s) = Some (FileNode b)" "manifest_from_slice cod b = Inr man"
    and "pd_media_type d = manifest_media_type"
      "pm_media_type man = None \<or> pm_media_type man = Some manifest_media_type"
    using assms(2) by (auto simp: found_at_def)
  with assms(1) validate_digest_format_Inr [OF p(1)] show ?thesis
    by (auto simp: read_manifest_def io_defs is_file_no_fault read_no_fault is_file_node_def)
qed

lemma run_check_contents:
  assumes "fs_faults s = []" and "contents_on_disk path (fs_nodes s) man"
  shows "check_contents path man c1 c2 s = (Inr (), s)"
proof -
  have "io_fold (\<lambda>(i, l) _. validate_descriptor_blob_present path l (c2 @ [Txt (dec_of_nat i), Txt '']'']))
      (List.enumerate 0 (pm_layers man)) () s = (Inr (), s)"
  proof (rule io_fold_unit)
    fix x assume x: "x \<in> set (List.enumerate 0 (pm_layers man))"
    have "\<forall>y \<in> set (List.enumerate 0 (pm_layers man)). blob_on_disk path (fs_nodes s) (pd_digest (snd y))"
      unfolding ball_enumerate [where P = "\<lambda>l. blob_on_disk path (fs_nodes s) (pd_digest l)"]
      using assms(2) by (simp add: contents_on_disk_def)
    with x have "blob_on_disk path (fs_nodes s) (pd_digest (snd x))" by blast
    then show "(case x of (i, l) \<Rightarrow> \<lambda>_. validate_descriptor_blob_present path l
        (c2 @ [Txt (dec_of_nat i), Txt '']''])) () s = (Inr (), s)"
      using assms(1) by (cases x) (simp add: run_blob_present)
  qed
  moreover have "blob_on_disk path (fs_nodes s) (pd_digest (pm_config man))"
    using assms(2) by (simp add: contents_on_disk_def)
  ultimately show ?thesis
    unfolding check_contents_def
    by (simp add: io_bind_def run_blob_present [OF assms(1)])
qed

lemma run_check_referrer:
  assumes "fs_faults s = []" and "referrer_ok path (fs_nodes s) primary r"
  shows "check_referrer path primary r u s = (Inr (), s)"
  using assms
  by (auto simp: check_referrer_def referrer_ok_def split: prod.split intro: run_check_contents)

lemma run_sort_manifests:
  assumes "fs_faults s = []"
    and "\<forall>r \<in> set found. found_at cod path (fs_nodes s) (fst r) (snd r)"
  shows "io_fold (sort_manifest cod path) (map fst found) (a, b) s =
    (Inr (a @ fst (sorted_found found), b @ snd (sorted_found found)), s)"
  using assms(2)
proof (induction found arbitrary: a b)
  case Nil
  then show ?case by (simp add: sorted_found_def io_apply_simps)
next
  case (Cons r found)
  then have "read_manifest cod path (fst r) s = (Inr (snd r), s)"
    using assms(1) by (simp add: run_read_manifest)
  with Cons show ?case
    by (auto simp: sort_manifest_def io_bind_apply sorted_found_def has_subject_def io_apply_simps)
qed

lemma run_open:
  assumes "fs_faults s = []" and "valid_image cod path (fs_nodes s) primary referrers"
  shows "open_image_dir cod path s = (Inr (image_of path primary referrers), s)"
proof -
  obtain b l ib idx found where
    layout: "look (path_join path oci_layout_file) (fs_nodes s) = Some (FileNode b)"
      "layout_from_slice cod b = Inr l" "lm_version l = supported_layout_version"
    and index: "look (path_join path index_json_file) (fs_nodes s) = Some (FileNode ib)"
      "index_from_slice cod ib = Inr idx"
    and found: "map fst found = pi_manifests idx"
      "\<forall>r \<in> set found. found_at cod path (fs_nodes s) (fst r) (snd r)"
      "sorted_found found = ([primary], referrers)"
    and rest: "contents_on_disk path (fs_nodes s) (snd primary)"
      "\<forall>r \<in> set referrers. referrer_ok path (fs_nodes s) (fst primary) r"
    using assms(2) unfolding valid_image_def sorted_found_def by blast
  have sort: "io_fold (sort_manifest cod path) (pi_manifests idx) ([], []) s =
      (Inr ([primary], referrers), s)"
    using run_sort_manifests [OF assms(1) found(2), of "[]" "[]"] found(1,3) by simp
  have refs: "io_fold (check_referrer path (fst primary)) referrers () s = (Inr (), s)"
    using rest(2) assms(1) by (intro io_fold_unit run_check_referrer) auto
  show ?thesis
    unfolding open_image_dir_def
    by (simp add: io_bind_def run_layout_marker [OF assms(1) layout]
        run_read_index [OF assms(1) index] sort choose_primary_def io_apply_simps
        run_check_contents [OF assms(1) rest(1)] refs image_of_def)
qed

lemma open_valid:
  assumes "fs_faults s = []" and "open_image_dir cod path s = (Inr im, t)"
  obtains p rs where "t = s" "valid_image cod path (fs_nodes s) p rs" "im = image_of path p rs"
proof -
  have "still (fs_nodes s) (fs_seen s) s" by (simp add: still_def)
  from triple_InrD [OF triple_open this assms(2)] obtain p rs where
    v: "valid_image cod path (fs_nodes s) p rs" and im: "im = image_of path p rs"
    by blast
  moreover from run_open [OF assms(1) v] assms(2) have "t = s" by simp
  ultimately show ?thesis by (rule that [rotated])
qed

section \<open>Properties\<close>

text \<open>
  C15: \<open>open\<close> accepts exactly the valid image directories, and returns the description of
  the one it found. A directory is valid when its marker has the supported version, its
  index parses, every manifest of the index is present, parses and has the manifest media
  type, exactly one of them has no subject, all the others name it as their subject, and
  every configuration and layer named by any of them is a file under \<open>blobs/sha256\<close>.
\<close>

theorem open_exact:
  assumes "fs_faults s = []"
  shows "open_image_dir cod path s = (Inr im, t) \<longleftrightarrow>
    t = s \<and> (\<exists>primary referrers. valid_image cod path (fs_nodes s) primary referrers \<and>
      im = image_of path primary referrers)"
proof
  assume run: "open_image_dir cod path s = (Inr im, t)"
  show "t = s \<and> (\<exists>primary referrers.
      valid_image cod path (fs_nodes s) primary referrers \<and> im = image_of path primary referrers)"
    by (rule open_valid [OF assms run]) blast
next
  assume "t = s \<and> (\<exists>primary referrers. valid_image cod path (fs_nodes s) primary referrers \<and>
      im = image_of path primary referrers)"
  then show "open_image_dir cod path s = (Inr im, t)"
    using run_open [OF assms] by auto
qed

subsection \<open>The list of referenced blobs\<close>

lemma fold_push_new:
  "fold push_new ds (seen, out) =
     (seen \<union> pd_digest ` set ds, out @ snd (fold push_new ds (seen, [])))"
proof (induction ds arbitrary: seen out)
  case Nil
  then show ?case by simp
next
  case (Cons d ds)
  show ?case
    using Cons.IH [of "insert (pd_digest d) seen" "out @ [d]"]
      Cons.IH [of "insert (pd_digest d) seen" "[d]"] Cons.IH [of seen out]
    by (auto simp: push_new_def)
qed

lemma push_new_cons:
  "snd (fold push_new (d # ds) (seen, [])) =
     (if pd_digest d \<in> seen then snd (fold push_new ds (seen, []))
      else d # snd (fold push_new ds (insert (pd_digest d) seen, [])))"
  by (simp add: push_new_def fold_push_new [of ds _ "[d]"])

lemma push_new_props:
  defines "r ds seen \<equiv> snd (fold push_new ds (seen, []))"
  shows "distinct (map pd_digest (r ds seen)) \<and>
    pd_digest ` set (r ds seen) = pd_digest ` set ds - seen \<and> set (r ds seen) \<subseteq> set ds"
  unfolding r_def
proof (induction ds arbitrary: seen)
  case Nil
  then show ?case by simp
next
  case (Cons d ds)
  show ?case
    unfolding push_new_cons
    using Cons.IH [of seen] Cons.IH [of "insert (pd_digest d) seen"] by auto
qed

lemma referenced_of_props:
  "distinct (map pd_digest (referenced_of p rs))"
  "pd_digest ` set (referenced_of p rs) = pd_digest ` set (walk_order p rs)"
  using push_new_props [of "walk_order p rs" "{}"] by (simp_all add: referenced_of_def)

lemma referenced_of_last:
  assumes "pd_digest (fst p) \<notin> pd_digest ` set (butlast (walk_order p rs))"
  shows "referenced_of p rs \<noteq> [] \<and> last (referenced_of p rs) = fst p"
proof -
  obtain ds where walk: "walk_order p rs = ds @ [fst p]" by (simp add: walk_order_def)
  then have "pd_digest (fst p) \<notin> pd_digest ` set ds" using assms by simp
  moreover obtain seen out where st: "fold push_new ds ({}, []) = (seen, out)"
    by (cases "fold push_new ds ({}, [])")
  moreover have "seen = pd_digest ` set ds"
    using arg_cong [OF fold_push_new [of ds "{}" "[]"], of fst] st by simp
  ultimately show ?thesis
    by (simp add: referenced_of_def walk push_new_def)
qed

lemma set_walk_order:
  "set (walk_order p rs) =
     (\<Union>r \<in> insert p (set rs). insert (fst r) (insert (pm_config (snd r)) (set (pm_layers (snd r)))))"
  by (auto simp: walk_order_def split_def)

lemma valid_image_on_disk:
  assumes "valid_image cod path m p rs" and "d \<in> set (walk_order p rs)"
  shows "blob_on_disk path m (pd_digest d)"
proof -
  obtain found where found: "\<forall>r \<in> set found. found_at cod path m (fst r) (snd r)"
      "filter (\<lambda>r. \<not> has_subject r) found = [p]" "filter has_subject found = rs"
    using assms(1) unfolding valid_image_def by blast
  have "set [p] \<subseteq> set found" "set rs \<subseteq> set found"
    unfolding found(2,3) [symmetric] by (rule filter_is_subset)+
  then have own: "blob_on_disk path m (pd_digest (fst r))" if "r = p \<or> r \<in> set rs" for r
    using that found(1) by (fastforce simp: found_at_def blob_on_disk_def is_file_node_def)
  have conts: "contents_on_disk path m (snd r)" if "r = p \<or> r \<in> set rs" for r
    using that assms(1) by (auto simp: valid_image_def referrer_ok_def)
  have cont: "blob_on_disk path m (pd_digest x)"
    if "r = p \<or> r \<in> set rs" "x = pm_config (snd r) \<or> x \<in> set (pm_layers (snd r))" for r x
    using conts [OF that(1)] that(2) by (auto simp: contents_on_disk_def)
  obtain r where r: "r = p \<or> r \<in> set rs"
      "d = fst r \<or> d = pm_config (snd r) \<or> d \<in> set (pm_layers (snd r))"
    using assms(2) unfolding set_walk_order by blast
  from r(2) own [OF r(1)] cont [OF r(1)] show ?thesis by blast
qed

text \<open>
  C24: the list of blobs to publish is complete and without duplicates: every digest in it
  is a file of the image; it holds the primary manifest, its configuration and layers and
  every referrer; and the primary manifest is its last element unless a configuration, a
  layer or a referrer has the digest of the primary manifest.
\<close>

theorem referenced_blobs_complete:
  assumes "open_image_dir cod path s = (Inr im, t)"
  shows "\<exists>primary referrers. valid_image cod path (fs_nodes s) primary referrers \<and>
     im = image_of path primary referrers \<and>
     distinct (map pd_digest (im_referenced im)) \<and>
     (\<forall>d \<in> set (im_referenced im). blob_on_disk path (fs_nodes s) (pd_digest d)) \<and>
     pd_digest ` set (im_referenced im) =
       pd_digest ` set (primary_manifest im # id_config (im_descriptor im) # id_layers (im_descriptor im)) \<union>
       (\<Union>r \<in> set referrers. pd_digest ` set (fst r # pm_config (snd r) # pm_layers (snd r))) \<and>
     (pd_digest (fst primary) \<notin> pd_digest ` set (butlast (walk_order primary referrers)) \<longrightarrow>
        im_referenced im \<noteq> [] \<and> last (im_referenced im) = fst primary)"
proof -
  have "still (fs_nodes s) (fs_seen s) s" by (simp add: still_def)
  from triple_InrD [OF triple_open this assms] obtain p rs where
    v: "valid_image cod path (fs_nodes s) p rs" and im: "im = image_of path p rs"
    by blast
  have ref: "im_referenced im = referenced_of p rs" by (simp add: im image_of_def)
  have disk: "blob_on_disk path (fs_nodes s) (pd_digest d)" if "d \<in> set (referenced_of p rs)" for d
    using valid_image_on_disk [OF v] push_new_props [of "walk_order p rs" "{}"] that
    by (auto simp: referenced_of_def)
  have walk: "pd_digest ` set (walk_order p rs) =
      pd_digest ` set (primary_manifest im # id_config (im_descriptor im) # id_layers (im_descriptor im)) \<union>
       (\<Union>r \<in> set rs. pd_digest ` set (fst r # pm_config (snd r) # pm_layers (snd r)))"
  proof -
    have "set (walk_order p rs) = set (fst p # pm_config (snd p) # pm_layers (snd p)) \<union>
        (\<Union>r \<in> set rs. set (fst r # pm_config (snd r) # pm_layers (snd r)))"
      unfolding set_walk_order by simp
    then show ?thesis by (simp add: image_Un image_UN im image_of_def primary_manifest_def)
  qed
  show ?thesis
    by (intro exI [of _ p] exI [of _ rs] conjI v im)
      (use disk walk referenced_of_props [of p rs] referenced_of_last [of p rs] in
        \<open>simp_all add: ref\<close>)
qed

section \<open>A sample image\<close>

text \<open>
  A primary manifest with one layer and a referrer to it that shares its configuration. The
  documents are single letters, read by \<open>sample_codecs\<close>.
\<close>

definition sample_digest :: "char \<Rightarrow> string" where
  "sample_digest c = ''sha256:'' @ replicate 64 c"

definition sample_desc :: "string \<Rightarrow> char \<Rightarrow> pub_descriptor" where
  "sample_desc mt c =
     \<lparr>pd_media_type = mt, pd_digest = sample_digest c, pd_size = 1, pd_artifact_type = None\<rparr>"

definition sample_manifest :: "char \<Rightarrow> char \<Rightarrow> pub_descriptor option \<Rightarrow> pub_manifest" where
  "sample_manifest config layer subject =
     \<lparr>pm_media_type = Some manifest_media_type, pm_config = sample_desc ''c'' config,
      pm_layers = [sample_desc ''l'' layer], pm_subject = subject\<rparr>"

definition sample_codecs :: image_codecs where
  "sample_codecs =
     \<lparr>layout_from_slice = (\<lambda>b. if b = ''L'' then Inr \<lparr>lm_version = ''1.0.0''\<rparr> else Inl []),
      index_from_slice = (\<lambda>b. if b = ''I'' then Inr \<lparr>pi_manifests =
         [sample_desc manifest_media_type (CHR ''d''), sample_desc manifest_media_type (CHR ''a'')]\<rparr>
         else Inl []),
      manifest_from_slice = (\<lambda>b.
         if b = ''P'' then Inr (sample_manifest (CHR ''b'') (CHR ''c'') None)
         else if b = ''R'' then Inr (sample_manifest (CHR ''b'') (CHR ''e'')
           (Some (sample_desc manifest_media_type (CHR ''a''))))
         else Inl [])\<rparr>"

definition sample_blob :: "char \<Rightarrow> bytes \<Rightarrow> (fkey \<times> fnode)" where
  "sample_blob c b = ([''/'', ''img'', ''blobs'', ''sha256'', replicate 64 c], FileNode b)"

definition sample_image_nodes :: nodes where
  "sample_image_nodes = map_of
     [([''/''], DirNode), ([''/'', ''img''], DirNode),
      ([''/'', ''img'', ''oci-layout''], FileNode ''L''),
      ([''/'', ''img'', ''index.json''], FileNode ''I''),
      ([''/'', ''img'', ''blobs''], DirNode), ([''/'', ''img'', ''blobs'', ''sha256''], DirNode),
      sample_blob (CHR ''a'') ''P'', sample_blob (CHR ''b'') ''C'', sample_blob (CHR ''c'') ''X'',
      sample_blob (CHR ''d'') ''R'', sample_blob (CHR ''e'') ''Y'']"

definition sample_image_fs :: fs where
  "sample_image_fs =
     \<lparr>fs_nodes = sample_image_nodes, fs_faults = [], fs_seen = [], fs_order = (\<lambda>_. [])\<rparr>"

lemma sample_opens:
  "case fst (open_image_dir sample_codecs ''/img'' sample_image_fs) of
     Inl e \<Rightarrow> False
   | Inr im \<Rightarrow> map pd_digest (im_referenced im) = map sample_digest ''cbeda''"
  by code_simp

lemma sample_run:
  obtains im t where "open_image_dir sample_codecs ''/img'' sample_image_fs = (Inr im, t)"
    "map pd_digest (im_referenced im) = map sample_digest ''cbeda''"
  using sample_opens
  by (cases "open_image_dir sample_codecs ''/img'' sample_image_fs";
      cases "fst (open_image_dir sample_codecs ''/img'' sample_image_fs)") auto

theorem open_exact_witness:
  "\<exists>p r. valid_image sample_codecs ''/img'' sample_image_nodes p r"
proof (rule sample_run)
  fix im t
  assume "open_image_dir sample_codecs ''/img'' sample_image_fs = (Inr im, t)"
  then show ?thesis
    using open_exact [of sample_image_fs sample_codecs "''/img''" im t]
    by (auto simp: sample_image_fs_def)
qed

theorem referenced_blobs_complete_witness:
  "\<exists>p r. valid_image sample_codecs ''/img'' sample_image_nodes p r \<and>
     map pd_digest (referenced_of p r) = map sample_digest ''cbeda'' \<and>
     distinct (map pd_digest (referenced_of p r))"
proof (rule sample_run)
  fix im t
  assume "open_image_dir sample_codecs ''/img'' sample_image_fs = (Inr im, t)"
    and "map pd_digest (im_referenced im) = map sample_digest ''cbeda''"
  with referenced_blobs_complete [of sample_codecs "''/img''" sample_image_fs im t]
  obtain p r where "valid_image sample_codecs ''/img'' (fs_nodes sample_image_fs) p r"
    "im_referenced im = referenced_of p r" "distinct (map pd_digest (im_referenced im))"
    by (fastforce simp: image_of_def)
  then show ?thesis
    using \<open>map pd_digest (im_referenced im) = _\<close>
    by (intro exI [of _ p] exI [of _ r]) (simp add: sample_image_fs_def)
qed

text \<open>
  The primary manifest need not be last: here a referrer carries it as its layer, and the
  referrer's own manifest comes after it.
\<close>

lemma primary_manifest_not_last:
  "map pd_digest (referenced_of
       (sample_desc manifest_media_type (CHR ''a''), sample_manifest (CHR ''b'') (CHR ''c'') None)
       [(sample_desc manifest_media_type (CHR ''d''),
         sample_manifest (CHR ''b'') (CHR ''a'')
           (Some (sample_desc manifest_media_type (CHR ''a''))))]) =
     map sample_digest ''cbad''"
  by code_simp

end
