(* ===== verification/Verify_Policy.thy ===== *)
theory Verify_Policy
  imports Image_Dir Std_Extra
begin

text \<open>
  The pure part of \<open>cli/src/verify_engine.rs\<close>, and \<open>Policy\<close> of \<open>cli/src/policy.rs\<close>: the
  errors and verdicts of a verification, the classification of a referrer, the two document
  validators and the policy gate. The JSON parser is the argument \<open>parse\<close>; the TOML parser
  of a policy is a parameter that yields the raw tables.
\<close>

section \<open>Constants\<close>

definition media_type_in_toto :: string where
  "media_type_in_toto = ''application/vnd.in-toto+json''"

definition media_type_cyclonedx :: string where
  "media_type_cyclonedx = ''application/vnd.cyclonedx+json''"

definition media_type_spdx :: string where
  "media_type_spdx = ''application/spdx+json''"

definition media_type_cosign_sig :: string where
  "media_type_cosign_sig = ''application/vnd.dev.cosign.simplesigning.v1+json''"

definition verify_slsa_provenance_v1 :: string where
  "verify_slsa_provenance_v1 = ''https://slsa.dev/provenance/v1''"

section \<open>Errors, verdicts and the report\<close>

datatype verify_error =
    VeImageDir image_dir_error
  | SignatureInvalid string
  | RekorNotRecorded string
  | SlsaMalformed message
  | SlsaMissing
  | SbomMissing
  | SignatureMissing
  | PolicyViolation string message
  | CosignUnavailable string
  | VeIo path io_error
  | MalformedBlob string message

datatype pillar_verdict = PillarMissing | PillarFound string | PillarFailed string

definition verdict_label :: "pillar_verdict \<Rightarrow> string" where
  "verdict_label v =
     (case v of
        PillarMissing \<Rightarrow> ''missing''
      | PillarFound _ \<Rightarrow> ''ok''
      | PillarFailed _ \<Rightarrow> ''failed'')"

record verify_report =
  vr_manifest_digest :: string
  vr_slsa :: pillar_verdict
  vr_sbom :: pillar_verdict
  vr_signature :: pillar_verdict

definition is_failed :: "pillar_verdict \<Rightarrow> bool" where
  "is_failed v = (case v of PillarFailed _ \<Rightarrow> True | _ \<Rightarrow> False)"

definition any_failed :: "verify_report \<Rightarrow> bool" where
  "any_failed r \<longleftrightarrow> is_failed (vr_slsa r) \<or> is_failed (vr_sbom r) \<or> is_failed (vr_signature r)"

datatype cosign_verify_outcome =
    VerifiedAndRecorded nat
  | VerifiedNotRecorded string
  | InvalidSignature string
  | VerifierNotInstalled

section \<open>Classification\<close>

datatype artifact_class = ClassSlsa | ClassSbom | ClassSignature | ClassUnknown

definition classify_artifact_type :: "string \<Rightarrow> artifact_class" where
  "classify_artifact_type t =
     (if t = media_type_in_toto then ClassSlsa
      else if t = media_type_cyclonedx \<or> t = media_type_spdx then ClassSbom
      else if t = media_type_cosign_sig then ClassSignature
      else if contains_str t ''cyclonedx'' \<or> contains_str t ''spdx'' then ClassSbom
      else if contains_str t ''cosign'' then ClassSignature
      else ClassUnknown)"

section \<open>The SLSA statement\<close>

record slsa_info =
  si_spec_hash :: string
  si_builder_id :: string
  si_claimed_level :: int

text \<open>The loop over the subjects and, inside it, over the algorithms of a digest.\<close>

definition subject_matches :: "string \<Rightarrow> json \<Rightarrow> bool" where
  "subject_matches expected_hex s =
     (case Option.bind (json_get ''digest'' s) json_as_object of
        Some d \<Rightarrow> list_ex (\<lambda>(_, val). json_as_str val = Some expected_hex) d
      | None \<Rightarrow> False)"

definition expected_hex_of :: "string \<Rightarrow> string" where
  "expected_hex_of digest =
     (case split_once (CHR '':'') digest of Some (_, h) \<Rightarrow> h | None \<Rightarrow> digest)"

definition slsa_missing :: "string \<Rightarrow> verify_error" where
  "slsa_missing what = SlsaMalformed [Txt ''missing '', Txt what]"

definition check_slsa_value :: "string \<Rightarrow> json \<Rightarrow> verify_error + slsa_info" where
  "check_slsa_value expected stmt =
     and_then (ok_or (slsa_missing ''predicateType'')
       (Option.bind (json_get ''predicateType'' stmt) json_as_str)) (\<lambda>predicate_type.
     if predicate_type \<noteq> verify_slsa_provenance_v1 then
       Inl (SlsaMalformed [Txt ''predicateType '', Dbg predicate_type, Txt '' != '',
         Dbg verify_slsa_provenance_v1])
     else
     and_then (ok_or (SlsaMalformed [Txt ''missing or non-array subject''])
       (Option.bind (json_get ''subject'' stmt) json_as_array)) (\<lambda>subjects.
     if \<not> list_ex (subject_matches (expected_hex_of expected)) subjects then
       Inl (SlsaMalformed
         [Txt ''no subject digest matches expected manifest digest '', Txt expected])
     else
     and_then (ok_or (slsa_missing ''predicate'') (json_get ''predicate'' stmt)) (\<lambda>predicate.
     and_then (ok_or (slsa_missing ''predicate.buildDefinition'')
       (json_get ''buildDefinition'' predicate)) (\<lambda>bd.
     and_then (ok_or (slsa_missing ''buildDefinition.externalParameters'')
       (json_get ''externalParameters'' bd)) (\<lambda>ep.
     and_then (ok_or (slsa_missing ''externalParameters.spec_hash'')
       (Option.bind (json_get ''spec_hash'' ep) json_as_str)) (\<lambda>spec_hash.
     Inr
       \<lparr>si_spec_hash = spec_hash,
        si_builder_id =
          (case Option.bind (json_at [''runDetails'', ''builder'', ''id''] predicate) json_as_str of
             Some b \<Rightarrow> b | None \<Rightarrow> ''<unknown>''),
        si_claimed_level =
          (case Option.bind (json_get ''claimed_slsa_level'' ep) json_as_i64 of
             Some l \<Rightarrow> l | None \<Rightarrow> 0)\<rparr>))))))"

definition validate_slsa_statement ::
  "(bytes \<Rightarrow> message + json) \<Rightarrow> bytes \<Rightarrow> string \<Rightarrow> verify_error + slsa_info" where
  "validate_slsa_statement parse bs expected =
     and_then (map_err (\<lambda>e. SlsaMalformed (Txt ''statement is not JSON: '' # e)) (parse bs))
       (check_slsa_value expected)"

section \<open>The SBOM\<close>

definition str_or_empty :: "json option \<Rightarrow> string" where
  "str_or_empty v = (case Option.bind v json_as_str of Some s \<Rightarrow> s | None \<Rightarrow> [])"

definition check_sbom_value :: "string \<Rightarrow> json \<Rightarrow> verify_error + unit" where
  "check_sbom_value media_type v =
     (if contains_str media_type ''cyclonedx'' then
        (let format = str_or_empty (json_get ''bomFormat'' v) in
         if format \<noteq> ''CycloneDX'' then
           Inl (MalformedBlob ''<sbom>'' [Txt ''CycloneDX SBOM has bomFormat '', Dbg format,
             Txt '', expected '', Dbg ''CycloneDX''])
         else Inr ())
      else if contains_str media_type ''spdx'' then
        (let v_ver = str_or_empty (json_get ''spdxVersion'' v) in
         if \<not> starts_with v_ver ''SPDX-'' then
           Inl (MalformedBlob ''<sbom>'' [Txt ''SPDX SBOM has spdxVersion '', Dbg v_ver,
             Txt '', expected SPDX-x.y''])
         else Inr ())
      else Inr ())"

definition validate_sbom ::
  "(bytes \<Rightarrow> message + json) \<Rightarrow> bytes \<Rightarrow> string \<Rightarrow> verify_error + unit" where
  "validate_sbom parse bs media_type =
     and_then (map_err (\<lambda>e. MalformedBlob ''<sbom>'' (Txt ''SBOM is not JSON: '' # e)) (parse bs))
       (check_sbom_value media_type)"

section \<open>The policy\<close>

record policy =
  po_slsa_min_level :: "int option"
  po_require_signature :: bool
  po_builder_id :: "string option"
  po_sbom_formats :: "string list option"

record raw_slsa_policy =
  rsp_level :: "int option"

record raw_sign_policy =
  rgp_required :: "bool option"
  rgp_builder_id :: "string option"

record raw_sbom_policy =
  rbp_formats :: "string list option"

record raw_policy =
  rp_slsa :: "raw_slsa_policy option"
  rp_sign :: "raw_sign_policy option"
  rp_sbom :: "raw_sbom_policy option"

definition parse_policy :: "(string \<Rightarrow> message + raw_policy) \<Rightarrow> string \<Rightarrow> message + policy" where
  "parse_policy from_str toml_text =
     and_then (from_str toml_text) (\<lambda>raw.
     Inr
       \<lparr>po_slsa_min_level = Option.bind (rp_slsa raw) rsp_level,
        po_require_signature =
          (case Option.bind (rp_sign raw) rgp_required of Some b \<Rightarrow> b | None \<Rightarrow> False),
        po_builder_id = Option.bind (rp_sign raw) rgp_builder_id,
        po_sbom_formats = Option.bind (rp_sbom raw) rbp_formats\<rparr>)"

section \<open>The gate\<close>

text \<open>The four rules of \<open>apply_policy\<close>, in its order.\<close>

definition gate_slsa_level ::
  "(bytes \<Rightarrow> message + json) \<Rightarrow> verify_report \<Rightarrow> policy \<Rightarrow> (string \<times> bytes) option \<Rightarrow>
   verify_error + unit" where
  "gate_slsa_level parse report p slsa_blob =
     (case po_slsa_min_level p of
        None \<Rightarrow> Inr ()
      | Some min_level \<Rightarrow>
          if vr_slsa report = PillarMissing then Inl SlsaMissing
          else case slsa_blob of
            Some (_, bs) \<Rightarrow>
              and_then (validate_slsa_statement parse bs (vr_manifest_digest report)) (\<lambda>info.
              if si_claimed_level info < min_level then
                Inl (PolicyViolation ''slsa.level''
                  [Txt ''claimed_slsa_level '', Txt (dec_of_int (si_claimed_level info)),
                   Txt '' < required '', Txt (dec_of_int min_level)])
              else Inr ())
          | None \<Rightarrow>
              Inl (PolicyViolation ''slsa.level'' [Txt ''SLSA pillar required but unreadable'']))"

definition gate_builder_id ::
  "(bytes \<Rightarrow> message + json) \<Rightarrow> verify_report \<Rightarrow> policy \<Rightarrow> (string \<times> bytes) option \<Rightarrow>
   verify_error + unit" where
  "gate_builder_id parse report p slsa_blob =
     (case po_builder_id p of
        None \<Rightarrow> Inr ()
      | Some expected_builder \<Rightarrow>
          (case slsa_blob of
             Some (_, bs) \<Rightarrow>
               and_then (validate_slsa_statement parse bs (vr_manifest_digest report)) (\<lambda>info.
               if si_builder_id info \<noteq> expected_builder then
                 Inl (PolicyViolation ''sign.builder_id''
                   [Txt ''builder_id '', Dbg (si_builder_id info), Txt '' != expected '',
                    Dbg expected_builder])
               else Inr ())
           | None \<Rightarrow>
               Inl (PolicyViolation ''sign.builder_id''
                 [Txt ''no SLSA statement to read builder_id from''])))"

definition gate_signature :: "verify_report \<Rightarrow> policy \<Rightarrow> verify_error + unit" where
  "gate_signature report p =
     (if po_require_signature p then
        (case vr_signature report of
           PillarFound _ \<Rightarrow> Inr ()
         | PillarMissing \<Rightarrow> Inl SignatureMissing
         | PillarFailed detail \<Rightarrow> Inl (SignatureInvalid detail))
      else Inr ())"

definition gate_sbom_format :: "verify_report \<Rightarrow> policy \<Rightarrow> verify_error + unit" where
  "gate_sbom_format report p =
     (case po_sbom_formats p of
        None \<Rightarrow> Inr ()
      | Some expected_formats \<Rightarrow>
          (case vr_sbom report of
             PillarMissing \<Rightarrow> Inl SbomMissing
           | PillarFound detail \<Rightarrow>
               if \<not> list_ex (contains_str detail) expected_formats then
                 Inl (PolicyViolation ''sbom.format''
                   (Txt ''SBOM media type does not match any of '' # dbg_list expected_formats @
                    [Txt '' (got: '', Txt detail, Txt '')'']))
               else Inr ()
           | PillarFailed detail \<Rightarrow> Inl (PolicyViolation ''sbom.format'' [Txt detail])))"

definition apply_policy ::
  "(bytes \<Rightarrow> message + json) \<Rightarrow> verify_report \<Rightarrow> policy \<Rightarrow> (string \<times> bytes) option \<Rightarrow>
   verify_error + unit" where
  "apply_policy parse report p slsa_blob =
     and_then (gate_slsa_level parse report p slsa_blob) (\<lambda>_.
     and_then (gate_builder_id parse report p slsa_blob) (\<lambda>_.
     and_then (gate_signature report p) (\<lambda>_.
     gate_sbom_format report p)))"

section \<open>What the checks establish\<close>

text \<open>The parts of a statement that the verifier relies on.\<close>

definition slsa_states :: "string \<Rightarrow> json \<Rightarrow> slsa_info \<Rightarrow> bool" where
  "slsa_states expected stmt info \<longleftrightarrow>
     Option.bind (json_get ''predicateType'' stmt) json_as_str = Some verify_slsa_provenance_v1 \<and>
     (\<exists>subjects. Option.bind (json_get ''subject'' stmt) json_as_array = Some subjects \<and>
        (\<exists>s \<in> set subjects. subject_matches (expected_hex_of expected) s)) \<and>
     (\<exists>ep. json_at [''predicate'', ''buildDefinition'', ''externalParameters''] stmt = Some ep \<and>
        Option.bind (json_get ''spec_hash'' ep) json_as_str = Some (si_spec_hash info) \<and>
        si_claimed_level info =
          (case Option.bind (json_get ''claimed_slsa_level'' ep) json_as_i64 of
             Some l \<Rightarrow> l | None \<Rightarrow> 0)) \<and>
     si_builder_id info =
       (case Option.bind (json_at [''predicate'', ''runDetails'', ''builder'', ''id''] stmt) json_as_str of
          Some b \<Rightarrow> b | None \<Rightarrow> ''<unknown>'')"

lemma check_slsa_value_iff: "check_slsa_value expected stmt = Inr info \<longleftrightarrow> slsa_states expected stmt info"
  by (cases info)
    (auto simp: check_slsa_value_def slsa_states_def and_then_Inr_iff list_ex_iff
      Option.bind_eq_Some_conv split: if_splits)

lemma validate_slsa_iff:
  "validate_slsa_statement parse bs expected = Inr info \<longleftrightarrow>
     (\<exists>stmt. parse bs = Inr stmt \<and> slsa_states expected stmt info)"
  by (simp add: validate_slsa_statement_def and_then_Inr_iff check_slsa_value_iff)

lemma slsa_states_unique: "slsa_states d stmt i \<Longrightarrow> slsa_states d stmt j \<Longrightarrow> i = j"
  by (metis check_slsa_value_iff sum.inject(2))

definition sbom_states :: "string \<Rightarrow> json \<Rightarrow> bool" where
  "sbom_states media_type v \<longleftrightarrow>
     (if contains_str media_type ''cyclonedx'' then str_or_empty (json_get ''bomFormat'' v) = ''CycloneDX''
      else contains_str media_type ''spdx'' \<longrightarrow>
        starts_with (str_or_empty (json_get ''spdxVersion'' v)) ''SPDX-'')"

lemma validate_sbom_iff:
  "validate_sbom parse bs media_type = Inr u \<longleftrightarrow> (\<exists>v. parse bs = Inr v \<and> sbom_states media_type v)"
  by (auto simp: validate_sbom_def and_then_Inr_iff check_sbom_value_def sbom_states_def Let_def)

text \<open>The gate opens exactly when every declared rule holds of the report.\<close>

definition policy_met ::
  "(bytes \<Rightarrow> message + json) \<Rightarrow> verify_report \<Rightarrow> policy \<Rightarrow> (string \<times> bytes) option \<Rightarrow> bool" where
  "policy_met parse report p slsa_blob \<longleftrightarrow>
     (\<forall>l. po_slsa_min_level p = Some l \<longrightarrow> vr_slsa report \<noteq> PillarMissing \<and>
        (\<exists>d bs info. slsa_blob = Some (d, bs) \<and>
           validate_slsa_statement parse bs (vr_manifest_digest report) = Inr info \<and>
           l \<le> si_claimed_level info)) \<and>
     (\<forall>b. po_builder_id p = Some b \<longrightarrow>
        (\<exists>d bs info. slsa_blob = Some (d, bs) \<and>
           validate_slsa_statement parse bs (vr_manifest_digest report) = Inr info \<and>
           si_builder_id info = b)) \<and>
     (po_require_signature p \<longrightarrow> (\<exists>detail. vr_signature report = PillarFound detail)) \<and>
     (\<forall>fs. po_sbom_formats p = Some fs \<longrightarrow>
        (\<exists>detail. vr_sbom report = PillarFound detail \<and> (\<exists>f \<in> set fs. contains_str detail f)))"

lemma apply_policy_iff: "apply_policy parse report p slsa_blob = Inr u \<longleftrightarrow> policy_met parse report p slsa_blob"
proof -
  have level: "gate_slsa_level parse report p slsa_blob = Inr u \<longleftrightarrow>
      (\<forall>l. po_slsa_min_level p = Some l \<longrightarrow> vr_slsa report \<noteq> PillarMissing \<and>
        (\<exists>d bs info. slsa_blob = Some (d, bs) \<and>
           validate_slsa_statement parse bs (vr_manifest_digest report) = Inr info \<and>
           l \<le> si_claimed_level info))" for u
    by (auto simp: gate_slsa_level_def and_then_Inr_iff not_less split: option.splits if_splits)
  have builder: "gate_builder_id parse report p slsa_blob = Inr u \<longleftrightarrow>
      (\<forall>b. po_builder_id p = Some b \<longrightarrow>
        (\<exists>d bs info. slsa_blob = Some (d, bs) \<and>
           validate_slsa_statement parse bs (vr_manifest_digest report) = Inr info \<and>
           si_builder_id info = b))" for u
    by (auto simp: gate_builder_id_def and_then_Inr_iff split: option.splits if_splits)
  have signature: "gate_signature report p = Inr u \<longleftrightarrow>
      (po_require_signature p \<longrightarrow> (\<exists>detail. vr_signature report = PillarFound detail))" for u
    by (auto simp: gate_signature_def split: pillar_verdict.splits)
  have sbom: "gate_sbom_format report p = Inr u \<longleftrightarrow>
      (\<forall>fs. po_sbom_formats p = Some fs \<longrightarrow>
        (\<exists>detail. vr_sbom report = PillarFound detail \<and> (\<exists>f \<in> set fs. contains_str detail f)))" for u
    by (auto simp: gate_sbom_format_def list_ex_iff split: option.splits pillar_verdict.splits)
  show ?thesis
    by (simp add: apply_policy_def and_then_Inr_iff level builder signature sbom policy_met_def)
qed

end
