(* ===== verification/Cli_Error.thy ===== *)
theory Cli_Error
  imports Oci_Types Attest Verify_Policy Pull_Types
begin

text \<open>
  \<open>cli/src/error.rs\<close>: the error every command returns and its exit code, and \<open>Policy::load\<close>
  of \<open>cli/src/policy.rs\<close>. \<open>'c\<close> and \<open>'j\<close> are the errors of the content store and of the
  serialiser.
\<close>

datatype ('c, 'j) cli_error =
    CliSpec spec_error
  | CliSpecCanonicalize "('j, 'c) canonicalization_error"
  | CliBuild "('c, 'j) build_error"
  | CliAttest "('c, 'j) attest_error"
  | CliPublish publish_error
  | CliVerify verify_error
  | CliRegistryPull pull_error
  | Cli message
  | CliIo string io_error

fun exit_code :: "('c, 'j) cli_error \<Rightarrow> nat" where
  "exit_code (CliSpec _) = 1"
| "exit_code (CliSpecCanonicalize _) = 1"
| "exit_code (CliBuild _) = 2"
| "exit_code (CliAttest _) = 3"
| "exit_code (CliPublish _) = 4"
| "exit_code (CliVerify _) = 5"
| "exit_code (CliRegistryPull _) = 5"
| "exit_code (Cli _) = 64"
| "exit_code (CliIo _ _) = 64"

definition policy_load ::
  "(string \<Rightarrow> message + raw_policy) \<Rightarrow> path \<Rightarrow> ('x fs_scheme, ('c, 'j) cli_error, policy) io" where
  "policy_load from_str p =
     io_bind (io_map_err (CliIo p) (fs_read_to_string p)) (\<lambda>toml_text.
     io_lift (map_err (\<lambda>e. Cli ([Txt ''policy '', Txt p, Txt '': ''] @ e)) (parse_policy from_str toml_text)))"

end
