(* ===== verification/Cmd_Auth.thy ===== *)
theory Cmd_Auth
  imports Vault Cli_Error
begin

text \<open>
  The choice of credentials on the command line: \<open>AuthMode\<close> and its two resolutions in
  \<open>cli/src/cmd/publish.rs\<close>, and the parsing of the \<open>--auth\<close> flags in \<open>cli/src/main.rs\<close>. A
  command stops with an error or with a panic. The features of the binary are the record
  \<open>features\<close>; without a feature its mode is never constructed.
\<close>

section \<open>Commands\<close>

datatype ('c, 'j) cmd_stop =
    Failed "('c, 'j) cli_error"
  | Panicked string

record features =
  ft_vault :: bool
  ft_docker_config :: bool

datatype auth_mode =
    ModeEnv
  | ModeBasic string string
  | ModeBearer string
  | ModeVault string
  | ModeDockerConfig "path option"

datatype publish_auth_mode = PublishAnonymous | PublishAuthenticated auth_mode

datatype verify_auth_mode = VerifyAnonymous | VerifyAuthenticated auth_mode

text \<open>A panic is the left value.\<close>

definition into_registry_auth :: "auth_mode \<Rightarrow> string + registry_auth" where
  "into_registry_auth m =
     (case m of
        ModeEnv \<Rightarrow> Inr FromEnv
      | ModeBasic username password \<Rightarrow> Inr (Basic username password)
      | ModeBearer token \<Rightarrow> Inr (Bearer token)
      | ModeVault _ \<Rightarrow> Inl
          (''AuthMode::Vault must be resolved via resolve_for_registry before calling '' @
           ''into_registry_auth '' @ em_dash @ '' this is a CLI dispatcher bug'')
      | ModeDockerConfig _ \<Rightarrow> Inl
          (''AuthMode::DockerConfig must be resolved via resolve_for_registry before '' @
           ''calling into_registry_auth '' @ em_dash @ '' this is a CLI dispatcher bug''))"

section \<open>Resolution for a host\<close>

record ('s, 'u, 'v) auth_lib =
  au_vault :: "('s, 'u, 'v) vault_lib"
  au_docker :: "'s docker_lib"
  au_io_text :: "io_error \<Rightarrow> string"

definition display_cred_error :: "(io_error \<Rightarrow> string) \<Rightarrow> cred_error \<Rightarrow> message" where
  "display_cred_error io_text e =
     (case e of
        ProviderFailed provider detail \<Rightarrow>
          [Txt ''provider '', Txt provider, Txt '' failed to resolve credentials: ''] @ detail
      | CredIo provider source \<Rightarrow>
          [Txt ''io error in provider '', Txt provider, Txt '': '', Txt (io_text source)])"

definition resolve_vault_for_registry ::
  "(('w, 'x) sys_scheme, 'u, 'v) auth_lib \<Rightarrow> string \<Rightarrow> string \<Rightarrow>
   (('w, 'x) sys_scheme, ('c, 'j) cli_error, auth_mode) io" where
  "resolve_vault_for_registry lib base_path registry =
     io_bind (io_map_err (\<lambda>e. Cli (Txt ''--auth vault: '' # display_cred_error (au_io_text lib) e))
       (vault_from_env (au_vault lib) base_path)) (\<lambda>found.
     case found of
       None \<Rightarrow> io_fail (Cli [Txt ''--auth vault: '', Txt env_vault_addr, Txt '' and '',
         Txt env_vault_token, Txt '' must both be set + non-empty''])
     | Some pv \<Rightarrow>
     io_bind (io_map_err (\<lambda>e. Cli (Txt ''--auth vault: '' # display_cred_error (au_io_text lib) e))
       (vault_auth_mode (au_vault lib) pv registry)) (\<lambda>resolved.
     case resolved of
       None \<Rightarrow> io_fail (Cli [Txt ''--auth vault: no Vault entry for registry '', Dbg registry,
         Txt '' (path '', Dbg base_path, Txt ''/'', Txt registry, Txt '' returned 404)''])
     | Some (VaultBearer token) \<Rightarrow> io_return (ModeBearer token)
     | Some (VaultBasic username password) \<Rightarrow> io_return (ModeBasic username password)))"

definition docker_path_of ::
  "('s, 'u, 'v) auth_lib \<Rightarrow> path option \<Rightarrow> ('s, ('c, 'j) cli_error, path) io" where
  "docker_path_of lib config_path =
     (case config_path of
        Some p \<Rightarrow> io_return p
      | None \<Rightarrow> io_map_err
          (\<lambda>e. Cli (Txt ''--auth docker-config: '' # display_cred_error (au_io_text lib) e))
          (docker_default_path (au_docker lib)))"

definition resolve_docker_config_for_registry ::
  "('x fs_scheme, 'u, 'v) auth_lib \<Rightarrow> path option \<Rightarrow> string \<Rightarrow>
   ('x fs_scheme, ('c, 'j) cli_error, auth_mode) io" where
  "resolve_docker_config_for_registry lib config_path registry =
     io_bind (docker_path_of lib config_path) (\<lambda>p.
     io_bind (io_map_err
       (\<lambda>e. Cli (Txt ''--auth docker-config: '' # display_cred_error (au_io_text lib) e))
       (docker_auth_mode (au_docker lib) (load_auths (au_docker lib) p) registry)) (\<lambda>resolved.
     case resolved of
       None \<Rightarrow> io_fail (Cli
         ([Txt ''--auth docker-config: no entry for registry '', Dbg registry, Txt '' in docker config''] @
          (case config_path of
             Some p \<Rightarrow> [Txt '' (config: '', Txt p, Txt '')'']
           | None \<Rightarrow> [Txt '' (default: ~/.docker/config.json)'']) @
          [Txt ''; run '', Txt [CHR 0x60], Txt ''docker login '', Txt registry, Txt [CHR 0x60], Txt '' first'']))
     | Some (DockerBearer token) \<Rightarrow> io_return (ModeBearer token)
     | Some (DockerBasic username password) \<Rightarrow> io_return (ModeBasic username password)))"

definition resolve_for_registry ::
  "(('w, 'x) sys_scheme, 'u, 'v) auth_lib \<Rightarrow> auth_mode \<Rightarrow> string \<Rightarrow>
   (('w, 'x) sys_scheme, ('c, 'j) cli_error, auth_mode) io" where
  "resolve_for_registry lib m registry =
     (case m of
        ModeVault base_path \<Rightarrow> resolve_vault_for_registry lib base_path registry
      | ModeDockerConfig config_path \<Rightarrow> resolve_docker_config_for_registry lib config_path registry
      | other \<Rightarrow> io_return other)"

section \<open>The flags\<close>

definition parse_auth_mode ::
  "features \<Rightarrow> string \<Rightarrow> string option \<Rightarrow> string option \<Rightarrow> string option \<Rightarrow> string \<Rightarrow> path option \<Rightarrow>
   ('c, 'j) cli_error + auth_mode" where
  "parse_auth_mode ft raw username password token vault_base_path docker_config_path =
     (if raw = ''env'' then Inr ModeEnv
      else if raw = ''basic'' then
        and_then (ok_or (Cli [Txt ''--auth basic requires --registry-username (or REGISTRY_USERNAME)''])
          username) (\<lambda>u.
        and_then (ok_or (Cli [Txt ''--auth basic requires --registry-password (or REGISTRY_PASSWORD)''])
          password) (\<lambda>p.
        if u = [] \<or> p = [] then
          Inl (Cli [Txt ''--auth basic: username and password must be non-empty''])
        else Inr (ModeBasic u p)))
      else if raw = ''bearer'' then
        and_then (ok_or (Cli [Txt ''--auth bearer requires --registry-token (or REGISTRY_TOKEN)''])
          token) (\<lambda>t.
        if t = [] then Inl (Cli [Txt ''--auth bearer: token must be non-empty''])
        else Inr (ModeBearer t))
      else if raw = ''vault'' then
        (if ft_vault ft then
           (if vault_base_path = [] then
              Inl (Cli [Txt ''--auth vault: --vault-base-path must be non-empty''])
            else Inr (ModeVault vault_base_path))
         else Inl (Cli [Txt ''--auth vault: this binary was built without the '', Txt [CHR 0x60],
           Txt ''vault'', Txt [CHR 0x60], Txt '' feature (--vault-base-path='', Dbg vault_base_path,
           Txt '' was supplied but ignored). Rebuild with '', Txt [CHR 0x60],
           Txt ''cargo build --features vault'', Txt [CHR 0x60],
           Txt '' (see docs/6-deployment/auth_providers.md).'']))
      else if raw = ''docker-config'' then
        (if ft_docker_config ft then Inr (ModeDockerConfig docker_config_path)
         else Inl (Cli ([Txt ''--auth docker-config: this binary was built without the '', Txt [CHR 0x60],
           Txt ''docker-config'', Txt [CHR 0x60], Txt '' feature''] @
           (case docker_config_path of
              Some p \<Rightarrow> [Txt '' (--docker-config-path='', Dbg p, Txt '' was supplied but ignored)'']
            | None \<Rightarrow> []) @
           [Txt ''. Rebuild with '', Txt [CHR 0x60], Txt ''cargo build --features docker-config'',
            Txt [CHR 0x60], Txt '' (see docs/6-deployment/auth_providers.md).''])))
      else Inl (Cli [Txt ''--auth: unknown mode '', Dbg raw, Txt '' (expected '',
        Txt (case (ft_vault ft, ft_docker_config ft) of
           (True, True) \<Rightarrow> ''env, basic, bearer, vault, or docker-config''
         | (True, False) \<Rightarrow> ''env, basic, bearer, or vault''
         | (False, True) \<Rightarrow> ''env, basic, bearer, or docker-config''
         | (False, False) \<Rightarrow> ''env, basic, or bearer''), Txt '')'']))"

definition auth_was_set ::
  "string \<Rightarrow> string option \<Rightarrow> string option \<Rightarrow> string option \<Rightarrow> path option \<Rightarrow> bool" where
  "auth_was_set raw username password token docker_config_path \<longleftrightarrow>
     raw \<noteq> ''env'' \<or> username \<noteq> None \<or> password \<noteq> None \<or> token \<noteq> None \<or> docker_config_path \<noteq> None"

definition no_auth_conflict :: "('c, 'j) cli_error" where
  "no_auth_conflict = Cli
     [Txt ''--no-auth is mutually exclusive with --auth / --registry-* / --docker-config-path flags'']"

definition parse_publish_auth_mode ::
  "features \<Rightarrow> bool \<Rightarrow> string \<Rightarrow> string option \<Rightarrow> string option \<Rightarrow> string option \<Rightarrow> string \<Rightarrow> path option \<Rightarrow>
   ('c, 'j) cli_error + publish_auth_mode" where
  "parse_publish_auth_mode ft no_auth raw username password token vault_base_path docker_config_path =
     (if no_auth then
        (if auth_was_set raw username password token docker_config_path then Inl no_auth_conflict
         else Inr PublishAnonymous)
      else and_then (parse_auth_mode ft raw username password token vault_base_path docker_config_path)
        (\<lambda>m. Inr (PublishAuthenticated m)))"

definition parse_verify_auth_mode ::
  "features \<Rightarrow> bool \<Rightarrow> string \<Rightarrow> string option \<Rightarrow> string option \<Rightarrow> string option \<Rightarrow> string \<Rightarrow> path option \<Rightarrow>
   ('c, 'j) cli_error + verify_auth_mode" where
  "parse_verify_auth_mode ft no_auth raw username password token vault_base_path docker_config_path =
     (if no_auth then
        (if auth_was_set raw username password token docker_config_path then Inl no_auth_conflict
         else Inr VerifyAnonymous)
      else and_then (parse_auth_mode ft raw username password token vault_base_path docker_config_path)
        (\<lambda>m. Inr (VerifyAuthenticated m)))"

section \<open>What a resolved mode is\<close>

text \<open>The modes that need no host.\<close>

definition host_free :: "auth_mode \<Rightarrow> bool" where
  "host_free m = (case m of ModeVault _ \<Rightarrow> False | ModeDockerConfig _ \<Rightarrow> False | _ \<Rightarrow> True)"

lemma host_free_converts: "host_free m \<longleftrightarrow> (\<exists>a. into_registry_auth m = Inr a)"
  by (cases m) (simp_all add: host_free_def into_registry_auth_def)

lemma vault_resolves_host_free:
  assumes "resolve_vault_for_registry lib base registry s = (Inr m, t)"
  shows "host_free m"
  using assms
  by (auto simp: resolve_vault_for_registry_def host_free_def io_apply_simps
      split: option.splits resolved_vault_auth.splits elim!: io_bind_InrE)

lemma docker_resolves_host_free:
  assumes "resolve_docker_config_for_registry lib cfg registry s = (Inr m, t)"
  shows "host_free m"
  using assms
  by (auto simp: resolve_docker_config_for_registry_def host_free_def io_apply_simps
      split: option.splits resolved_docker_auth.splits elim!: io_bind_InrE)

lemma resolve_for_registry_converts:
  assumes "resolve_for_registry lib m registry s = (Inr m', t)"
  shows "\<exists>a. into_registry_auth m' = Inr a"
  using assms vault_resolves_host_free docker_resolves_host_free
  unfolding host_free_converts [symmetric]
  by (cases m) (auto simp: resolve_for_registry_def host_free_def io_apply_simps)

end
