(* ===== verification/Registry_Sink.thy ===== *)
theory Registry_Sink
  imports Image_Dir Http_Client Base64
begin

text \<open>
  \<open>core/registry_sink.rs\<close> of the crate \<open>publish\<close>: an image is pushed to a registry over
  HTTP. Each loop over attempts is the fold \<open>for_attempts\<close> of its body; the five bodies are
  interpretations of the locale \<open>attempt_loop\<close>. An \<open>unreachable!\<close> or \<open>expect\<close> that fails
  is the error \<open>PublishPanic\<close>.
\<close>

section \<open>Constants\<close>

definition request_timeout :: nat where
  "request_timeout = 60"

definition max_retries :: nat where
  "max_retries = 3"

definition max_retry_backoff_ms :: nat where
  "max_retry_backoff_ms = 800"

definition env_allow_insecure :: string where
  "env_allow_insecure = ''JUSTOCI_ALLOW_INSECURE''"

record wire_context =
  wc_base_url :: string
  wc_repository :: string
  wc_auth :: "string option"

section \<open>The client and its credentials\<close>

definition build_client :: "'w http_lib \<Rightarrow> publish_error + unit" where
  "build_client hl = map_err (\<lambda>source. Auth (SrcHttp source)) (hl_build hl request_timeout)"

definition env_allows_insecure :: "(('w, 'x) sys_scheme, 'e, bool) io" where
  "env_allows_insecure = io_bind (env_var env_allow_insecure) (\<lambda>v. io_return (v = Some ''1''))"

definition basic_value :: "string \<Rightarrow> string \<Rightarrow> string" where
  "basic_value username password =
     ''Basic '' @ base64_encode (username @ '':'' @ password)"

definition unwrap_or_default :: "string option \<Rightarrow> string" where
  "unwrap_or_default v = (case v of Some x \<Rightarrow> x | None \<Rightarrow> [])"

definition env_credentials :: "(('w, 'x) sys_scheme, publish_error, string) io" where
  "env_credentials =
     io_bind (env_var env_registry_token) (\<lambda>token.
     case token of
       Some t \<Rightarrow>
         if t \<noteq> [] then io_return (''Bearer '' @ t)
         else io_fail (Auth (SrcText [Txt env_registry_token,
           Txt '' is set but empty; unset it or provide a token'']))
     | None \<Rightarrow>
         io_bind (env_var env_registry_username) (\<lambda>u.
         io_bind (env_var env_registry_password) (\<lambda>p.
         let user = unwrap_or_default u; pass = unwrap_or_default p in
         if user = [] \<or> pass = [] then
           io_fail (Auth (SrcText [Txt ''no registry credentials in env: set '', Txt env_registry_token,
             Txt '', or both '', Txt env_registry_username, Txt '' and '', Txt env_registry_password]))
         else io_return (basic_value user pass))))"

definition resolve_auth ::
  "'w http_lib \<Rightarrow> registry_auth option \<Rightarrow> (('w, 'x) sys_scheme, publish_error, string option) io" where
  "resolve_auth hl auth =
     (case auth of
        None \<Rightarrow> io_return None
      | Some a \<Rightarrow>
          io_bind (case a of
              Bearer token \<Rightarrow> io_return (''Bearer '' @ token)
            | Basic username password \<Rightarrow> io_return (basic_value username password)
            | FromEnv \<Rightarrow> env_credentials) (\<lambda>header_value.
          io_bind (io_lift (map_err (\<lambda>source. Auth (SrcHeader source))
            (hl_header_value hl header_value))) (\<lambda>hv. io_return (Some hv))))"

section \<open>Refusals\<close>

definition read_body_capped :: "http_response \<Rightarrow> string" where
  "read_body_capped resp = preview_body (read_capped max_registry_body_preview [] resp)"

definition refused_from_response :: "http_response \<Rightarrow> publish_error" where
  "refused_from_response resp = RegistryRefused (rs_status resp) [Txt (read_body_capped resp)]"

definition refused_from_response_with_digest :: "http_response \<Rightarrow> string \<Rightarrow> publish_error" where
  "refused_from_response_with_digest resp digest =
     (let status = rs_status resp; body = read_body_capped resp in
      if status = 401 \<or> status = 403 then
        Auth (SrcText [Txt ''uploading blob '', Txt digest, Txt '': HTTP '',
          Txt (dec_of_nat status), Txt '': '', Txt body])
      else RegistryRefused status [Txt ''uploading blob '', Txt digest, Txt '': '', Txt body])"

definition refused_manifest_from_response :: "http_response \<Rightarrow> publish_error" where
  "refused_manifest_from_response resp =
     (let status = rs_status resp; body = read_body_capped resp in
      if status = 401 \<or> status = 403 then
        Auth (SrcText [Txt ''uploading manifest: HTTP '', Txt (dec_of_nat status), Txt '': '', Txt body])
      else RegistryRefused status [Txt ''uploading manifest: '', Txt body])"

section \<open>Requests\<close>

definition apply_auth :: "string option \<Rightarrow> (string \<times> string) list" where
  "apply_auth auth = (case auth of Some hv \<Rightarrow> [(''authorization'', hv)] | None \<Rightarrow> [])"

definition head_request :: "string \<Rightarrow> string option \<Rightarrow> http_request" where
  "head_request url auth =
     \<lparr>rq_method = MHead, rq_url = url, rq_headers = apply_auth auth, rq_body = Inr []\<rparr>"

definition head_manifest_request :: "string \<Rightarrow> string option \<Rightarrow> http_request" where
  "head_manifest_request url auth =
     \<lparr>rq_method = MHead, rq_url = url,
      rq_headers = apply_auth auth @ [(''accept'', manifest_media_type)], rq_body = Inr []\<rparr>"

definition init_request :: "string \<Rightarrow> string option \<Rightarrow> http_request" where
  "init_request url auth =
     \<lparr>rq_method = MPost, rq_url = url,
      rq_headers = apply_auth auth @ [(''content-length'', ''0'')], rq_body = Inr []\<rparr>"

definition put_blob_request ::
  "string \<Rightarrow> string option \<Rightarrow> nat \<Rightarrow> io_error + bytes \<Rightarrow> http_request" where
  "put_blob_request url auth len body =
     \<lparr>rq_method = MPut, rq_url = url,
      rq_headers = apply_auth auth @ [(''content-type'', ''application/octet-stream''),
        (''content-length'', dec_of_nat len)], rq_body = body\<rparr>"

definition put_manifest_request :: "string \<Rightarrow> string option \<Rightarrow> bytes \<Rightarrow> http_request" where
  "put_manifest_request url auth bs =
     \<lparr>rq_method = MPut, rq_url = url,
      rq_headers = apply_auth auth @ [(''content-type'', manifest_media_type),
        (''content-length'', dec_of_nat (length bs))], rq_body = Inr bs\<rparr>"

definition sleep_backoff :: "nat \<Rightarrow> (('w, 'x) pub_scheme, 'e, unit) io" where
  "sleep_backoff attempt = sleep_millis (backoff_millis max_retry_backoff_ms attempt)"

text \<open>\<open>continue\<close> after the delay.\<close>

definition again :: "nat \<Rightarrow> 'l \<Rightarrow> (('w, 'x) pub_scheme, 'e, 'l + 'a) io" where
  "again attempt l = io_bind (sleep_backoff attempt) (\<lambda>_. io_return (Inl l))"

definition attempts :: "nat list" where
  "attempts = [0..<Suc max_retries]"

text \<open>The \<open>HEAD\<close> requests keep the last error; the loop may end with it.\<close>

definition head_turn ::
  "'w http_lib \<Rightarrow> http_request \<Rightarrow> (string \<Rightarrow> publish_error) \<Rightarrow> nat \<Rightarrow> publish_error option \<Rightarrow>
   (('w, 'x) pub_scheme, publish_error, publish_error option + nat) io" where
  "head_turn hl req err attempt last_err =
     io_bind (http_send hl req) (\<lambda>r.
     case r of
       Inr resp \<Rightarrow>
         let status = rs_status resp in
         if is_server_error status \<and> attempt < max_retries then again attempt last_err
         else io_return (Inr status)
     | Inl e \<Rightarrow>
         if attempt < max_retries then again attempt (Some (err e))
         else io_return (Inl (Some (err e))))"

definition head_end :: "publish_error option + nat \<Rightarrow> publish_error + nat" where
  "head_end r =
     (case r of
        Inr status \<Rightarrow> Inr status
      | Inl (Some e) \<Rightarrow> Inl e
      | Inl None \<Rightarrow> Inl (PublishPanic ''loop body sets last_err on every failure''))"

definition head_blob ::
  "'w http_lib \<Rightarrow> string \<Rightarrow> string option \<Rightarrow> string \<Rightarrow> (('w, 'x) pub_scheme, publish_error, nat) io" where
  "head_blob hl url auth digest =
     io_bind (for_attempts attempts
       (head_turn hl (head_request url auth) (\<lambda>e. BlobUpload digest (SrcHttp e))) None)
       (\<lambda>r. io_lift (head_end r))"

definition head_manifest ::
  "'w http_lib \<Rightarrow> string \<Rightarrow> string option \<Rightarrow> string \<Rightarrow> (('w, 'x) pub_scheme, publish_error, nat) io" where
  "head_manifest hl url auth digest =
     io_bind (for_attempts attempts
       (head_turn hl (head_manifest_request url auth)
         (\<lambda>e. ManifestUpload (SrcLike [Txt ''HEAD manifest '', Txt digest] e))) None)
       (\<lambda>r. io_lift (head_end r))"

text \<open>\<open>unreachable!\<close> behind the other loops.\<close>

definition loop_end :: "unit + 'a \<Rightarrow> publish_error + 'a" where
  "loop_end r =
     (case r of Inr x \<Rightarrow> Inr x | Inl _ \<Rightarrow> Inl (PublishPanic ''loop returns or retries''))"

section \<open>Uploads\<close>

definition absolutize_location :: "string \<Rightarrow> string \<Rightarrow> string" where
  "absolutize_location request_url location =
     (if starts_with location ''http://'' \<or> starts_with location ''https://'' then location
      else case find_str request_url ''://'' of
        Some scheme_end \<Rightarrow>
          let after_scheme = drop (scheme_end + 3) request_url;
              host_end = (case find_char after_scheme (CHR ''/'') of
                Some n \<Rightarrow> n | None \<Rightarrow> length after_scheme);
              host = take host_end after_scheme;
              scheme = take scheme_end request_url
          in if starts_with location ''/'' then scheme @ ''://'' @ host @ location
             else scheme @ ''://'' @ host @ ''/'' @ location
      | None \<Rightarrow> location)"

definition location_of ::
  "'w http_lib \<Rightarrow> string \<Rightarrow> string \<Rightarrow> http_response \<Rightarrow> publish_error + string" where
  "location_of hl url digest resp =
     and_then (ok_or (BlobUpload digest (SrcText
         [Txt ''registry accepted upload init but returned no Location header'']))
       (map_of (rs_headers resp) ''location'')) (\<lambda>hv.
     and_then (map_err (\<lambda>e. BlobUpload digest (SrcHeader e)) (hl_header_text hl hv)) (\<lambda>location.
     Inr (absolutize_location url location)))"

definition init_turn ::
  "'w http_lib \<Rightarrow> string \<Rightarrow> string option \<Rightarrow> string \<Rightarrow> nat \<Rightarrow> unit \<Rightarrow>
   (('w, 'x) pub_scheme, publish_error, unit + string) io" where
  "init_turn hl url auth digest attempt u =
     io_bind (http_send hl (init_request url auth)) (\<lambda>r.
     case r of
       Inr resp \<Rightarrow>
         let status = rs_status resp in
         if is_server_error status \<and> attempt < max_retries then again attempt ()
         else if status \<noteq> 202 \<and> status \<noteq> 201 then io_fail (refused_from_response resp)
         else io_bind (io_lift (location_of hl url digest resp)) (\<lambda>l. io_return (Inr l))
     | Inl e \<Rightarrow>
         if attempt < max_retries then again attempt ()
         else io_fail (BlobUpload digest (SrcHttp e)))"

definition init_blob_upload ::
  "'w http_lib \<Rightarrow> string \<Rightarrow> string option \<Rightarrow> string \<Rightarrow> (('w, 'x) pub_scheme, publish_error, string) io" where
  "init_blob_upload hl url auth digest =
     io_bind (for_attempts attempts (init_turn hl url auth digest) ()) (\<lambda>r. io_lift (loop_end r))"

text \<open>The size in the metadata; directories and special files count as empty.\<close>

definition node_size :: "fnode \<Rightarrow> nat" where
  "node_size n = (case n of FileNode b \<Rightarrow> length b | _ \<Rightarrow> 0)"

definition blob_io_error :: "string \<Rightarrow> io_error \<Rightarrow> publish_error" where
  "blob_io_error digest source = BlobUpload digest (SrcIo source)"

definition put_blob_turn ::
  "'w http_lib \<Rightarrow> string \<Rightarrow> string option \<Rightarrow> path \<Rightarrow> nat \<Rightarrow> string \<Rightarrow> nat \<Rightarrow> unit \<Rightarrow>
   (('w, 'x) pub_scheme, publish_error, unit + nat) io" where
  "put_blob_turn hl put_url auth bpath len digest attempt u =
     io_bind (io_map_err (blob_io_error digest) (fs_open bpath)) (\<lambda>_.
     io_bind (io_try (fs_read bpath)) (\<lambda>body.
     io_bind (http_send hl (put_blob_request put_url auth len body)) (\<lambda>r.
     case r of
       Inr resp \<Rightarrow>
         let status = rs_status resp in
         if is_server_error status \<and> attempt < max_retries then again attempt ()
         else if status \<noteq> 201 \<and> status \<noteq> 200 then
           io_fail (refused_from_response_with_digest resp digest)
         else io_return (Inr len)
     | Inl e \<Rightarrow>
         if attempt < max_retries then again attempt ()
         else io_fail (BlobUpload digest (SrcHttp e)))))"

definition blob_put_url :: "string \<Rightarrow> string \<Rightarrow> string" where
  "blob_put_url location digest =
     (if contains_char location (CHR ''?'') then location @ ''&digest='' @ digest
      else location @ ''?digest='' @ digest)"

definition put_blob_monolithic ::
  "'w http_lib \<Rightarrow> string \<Rightarrow> string option \<Rightarrow> path \<Rightarrow> string \<Rightarrow>
   (('w, 'x) pub_scheme, publish_error, nat) io" where
  "put_blob_monolithic hl location auth bpath digest =
     (let put_url = blob_put_url location digest in
      io_bind (io_map_err (blob_io_error digest) (fs_metadata bpath)) (\<lambda>metadata.
      let len = node_size metadata in
      io_bind (for_attempts attempts (put_blob_turn hl put_url auth bpath len digest) ())
        (\<lambda>r. io_lift (loop_end r))))"

definition put_manifest_turn ::
  "'w http_lib \<Rightarrow> string \<Rightarrow> string option \<Rightarrow> bytes \<Rightarrow> nat \<Rightarrow> unit \<Rightarrow>
   (('w, 'x) pub_scheme, publish_error, unit + nat) io" where
  "put_manifest_turn hl url auth bs attempt u =
     io_bind (http_send hl (put_manifest_request url auth bs)) (\<lambda>r.
     case r of
       Inr resp \<Rightarrow>
         let status = rs_status resp in
         if is_server_error status \<and> attempt < max_retries then again attempt ()
         else if status \<noteq> 201 \<and> status \<noteq> 200 then
           io_fail (refused_manifest_from_response resp)
         else io_return (Inr (length bs))
     | Inl e \<Rightarrow>
         if attempt < max_retries then again attempt ()
         else io_fail (ManifestUpload (SrcHttp e)))"

definition put_manifest ::
  "'w http_lib \<Rightarrow> string \<Rightarrow> string option \<Rightarrow> bytes \<Rightarrow> (('w, 'x) pub_scheme, publish_error, nat) io" where
  "put_manifest hl url auth bs =
     io_bind (for_attempts attempts (put_manifest_turn hl url auth bs) ()) (\<lambda>r. io_lift (loop_end r))"

section \<open>The push\<close>

definition blob_url :: "wire_context \<Rightarrow> string \<Rightarrow> string" where
  "blob_url wire digest = wc_base_url wire @ ''/v2/'' @ wc_repository wire @ ''/blobs/'' @ digest"

definition uploads_url :: "wire_context \<Rightarrow> string" where
  "uploads_url wire = wc_base_url wire @ ''/v2/'' @ wc_repository wire @ ''/blobs/uploads/''"

definition manifest_url :: "wire_context \<Rightarrow> string \<Rightarrow> string" where
  "manifest_url wire target =
     wc_base_url wire @ ''/v2/'' @ wc_repository wire @ ''/manifests/'' @ target"

definition push_blob_with_skip ::
  "'w http_lib \<Rightarrow> wire_context \<Rightarrow> image_dir \<Rightarrow> string \<Rightarrow> publish_outcome \<Rightarrow>
   (('w, 'x) pub_scheme, publish_error, publish_outcome) io" where
  "push_blob_with_skip hl wire im digest outcome =
     io_bind (head_blob hl (blob_url wire digest) (wc_auth wire) digest) (\<lambda>head_status.
     if head_status = 200 then io_return (add_skipped digest outcome)
     else if head_status \<noteq> 404 then
       io_fail (RegistryRefused head_status
         [Txt ''HEAD blob '', Txt digest, Txt '': unexpected status '', Txt (dec_of_nat head_status),
          Txt '' (expected 200 or 404)''])
     else
       io_bind (init_blob_upload hl (uploads_url wire) (wc_auth wire) digest) (\<lambda>location.
       io_bind (io_lift (map_err publish_error_of (blob_path im digest))) (\<lambda>p.
       io_bind (put_blob_monolithic hl location (wc_auth wire) p digest) (\<lambda>bytes_uploaded.
       io_return (add_pushed digest bytes_uploaded outcome)))))"

definition upload_manifest ::
  "'w http_lib \<Rightarrow> wire_context \<Rightarrow> image_dir \<Rightarrow> string \<Rightarrow> string \<Rightarrow> publish_outcome \<Rightarrow>
   (('w, 'x) pub_scheme, publish_error, publish_outcome) io" where
  "upload_manifest hl wire im digest target outcome =
     io_bind (io_lift (map_err publish_error_of (blob_path im digest))) (\<lambda>manifest_path.
     io_bind (io_map_err (\<lambda>source. ManifestUpload (SrcIo source)) (fs_read manifest_path))
       (\<lambda>manifest_bytes.
     io_bind (put_manifest hl (manifest_url wire target) (wc_auth wire) manifest_bytes)
       (\<lambda>bytes_uploaded. io_return (add_pushed digest bytes_uploaded outcome))))"

definition push_manifest_with_skip ::
  "'w http_lib \<Rightarrow> wire_context \<Rightarrow> image_dir \<Rightarrow> string \<Rightarrow> string \<Rightarrow> publish_outcome \<Rightarrow>
   (('w, 'x) pub_scheme, publish_error, publish_outcome) io" where
  "push_manifest_with_skip hl wire im digest target outcome =
     (let by_digest = (digest = target) in
      if by_digest then
        io_bind (head_manifest hl (manifest_url wire digest) (wc_auth wire) digest) (\<lambda>head_status.
        if head_status = 200 then io_return (add_skipped digest outcome)
        else upload_manifest hl wire im digest target outcome)
      else upload_manifest hl wire im digest target outcome)"

definition push_blob_step ::
  "'w http_lib \<Rightarrow> wire_context \<Rightarrow> image_dir \<Rightarrow> pub_descriptor \<Rightarrow> publish_outcome \<Rightarrow>
   (('w, 'x) pub_scheme, publish_error, publish_outcome) io" where
  "push_blob_step hl wire im desc outcome =
     (if pd_digest desc = id_primary_digest (im_descriptor im) then io_return outcome
      else if pd_digest desc \<in> pd_digest ` set (id_referrers (im_descriptor im)) then
        io_return outcome
      else push_blob_with_skip hl wire im (pd_digest desc) outcome)"

definition push_referrer_step ::
  "'w http_lib \<Rightarrow> wire_context \<Rightarrow> image_dir \<Rightarrow> pub_descriptor \<Rightarrow> publish_outcome \<Rightarrow>
   (('w, 'x) pub_scheme, publish_error, publish_outcome) io" where
  "push_referrer_step hl wire im ref_desc outcome =
     push_manifest_with_skip hl wire im (pd_digest ref_desc) (pd_digest ref_desc) outcome"

definition push_image ::
  "'w http_lib \<Rightarrow> wire_context \<Rightarrow> image_dir \<Rightarrow> string \<Rightarrow>
   (('w, 'x) pub_scheme, publish_error, publish_outcome) io" where
  "push_image hl wire im tag =
     io_bind (io_fold (push_blob_step hl wire im) (im_referenced im) empty_outcome) (\<lambda>o1.
     io_bind (io_fold (push_referrer_step hl wire im) (id_referrers (im_descriptor im)) o1)
       (\<lambda>o2. push_manifest_with_skip hl wire im (id_primary_digest (im_descriptor im)) tag o2))"

definition publish_registry ::
  "'w http_lib \<Rightarrow> image_dir \<Rightarrow> string \<Rightarrow> string \<Rightarrow> string \<Rightarrow> registry_auth option \<Rightarrow>
   (('w, 'x) pub_scheme, publish_error, publish_outcome) io" where
  "publish_registry hl im registry repository tag auth =
     io_bind env_allows_insecure (\<lambda>insecure.
     let scheme = (if insecure then ''http'' else ''https'');
         base_url = scheme @ ''://'' @ registry in
     io_bind (io_lift (build_client hl)) (\<lambda>_.
     io_bind (resolve_auth hl auth) (\<lambda>auth_header.
     push_image hl \<lparr>wc_base_url = base_url, wc_repository = repository, wc_auth = auth_header\<rparr>
       im tag)))"

section \<open>The loops keep the contract\<close>

definition no_panic :: "publish_error \<Rightarrow> bool" where
  "no_panic e \<longleftrightarrow> (\<forall>p. e \<noteq> PublishPanic p)"

lemma no_panic_simps [simp]:
  "no_panic (BlobUpload d x)" "no_panic (ManifestUpload x)" "no_panic (RegistryRefused n b)"
  "no_panic (Auth x)" "no_panic (MalformedImageDir b)" "\<not> no_panic (PublishPanic p)"
  "no_panic (publish_error_of i)" "no_panic (refused_from_response resp)"
  "no_panic (refused_from_response_with_digest resp d)" "no_panic (refused_manifest_from_response resp)"
  by (simp_all add: no_panic_def publish_error_of_def refused_from_response_def
      refused_from_response_with_digest_def refused_manifest_from_response_def Let_def)

lemma sends_again:
  "R [] [backoff_millis 800 a] (Inr (Inl l)) \<Longrightarrow> sends m R (again a l)"
  unfolding again_def sleep_backoff_def max_retry_backoff_ms_def
  by (rule sends_bind [OF sends_sleep [where R = "\<lambda>xs ms r. xs = [] \<and> ms = [backoff_millis 800 a] \<and> r = Inr ()"]])
    (auto intro: sends_return)

lemma attempts_eq: "attempts = [0..<4]" "max_retries = 3"
  by (simp_all add: attempts_def max_retries_def)

lemmas turn_intros = sends_send_bind sends_again sends_if sends_return sends_fail sends_lift_bind

interpretation head_loop: attempt_loop m "head_turn hl req err" "\<lambda>q. q = req"
  "\<lambda>q resp v. q = req \<and> rs_status resp = v" "\<lambda>l. \<exists>x. l = Some (err x)" "\<lambda>e. \<exists>x. e = err x"
  for m hl req err
proof
  fix a and l :: "publish_error option"
  assume a: "a \<le> (3 :: nat)"
  let ?R = "\<lambda>xs ms r. length xs \<le> 1 \<and> (\<forall>x \<in> set xs. fst x = req) \<and>
      (\<forall>e. r = Inl e \<longrightarrow> ms = [] \<and> (\<exists>x. e = err x)) \<and>
      (\<forall>l'. r = Inr (Inl l') \<longrightarrow> ms = (if a < 3 then [backoff_millis 800 a] else []) \<and>
         (a = 3 \<longrightarrow> (\<exists>x. l' = Some (err x)))) \<and>
      (\<forall>v. r = Inr (Inr v) \<longrightarrow> ms = [] \<and> (\<exists>q resp. xs = [(q, Inr resp)] \<and> q = req \<and> rs_status resp = v))"
  show "sends m ?R (head_turn hl req err a l)"
    unfolding head_turn_def attempts_eq(2) Let_def
  proof (rule sends_send_bind)
    fix r
    show "sends m (\<lambda>ys. ?R ((req, r) # ys))
      (case r of
         Inl e \<Rightarrow> if a < 3 then again a (Some (err e)) else io_return (Inl (Some (err e)))
       | Inr resp \<Rightarrow> if is_server_error (rs_status resp) \<and> a < 3 then again a l
           else io_return (Inr (rs_status resp)))"
      using a by (cases r) (auto intro!: turn_intros)
  qed
qed

interpretation init_loop: attempt_loop m "init_turn hl url auth digest" "\<lambda>q. q = init_request url auth"
  "\<lambda>q resp l. q = init_request url auth \<and> (rs_status resp = 202 \<or> rs_status resp = 201) \<and>
     location_of hl url digest resp = Inr l" "\<lambda>_. False" no_panic
  for m hl url auth digest
proof
  fix a and l :: unit
  assume a: "a \<le> (3 :: nat)"
  let ?R = "\<lambda>xs ms r. length xs \<le> 1 \<and> (\<forall>x \<in> set xs. fst x = init_request url auth) \<and>
      (\<forall>e. r = Inl e \<longrightarrow> ms = [] \<and> no_panic e) \<and>
      (\<forall>l'. r = Inr (Inl l') \<longrightarrow> ms = (if a < 3 then [backoff_millis 800 a] else []) \<and> (a = 3 \<longrightarrow> False)) \<and>
      (\<forall>v. r = Inr (Inr v) \<longrightarrow> ms = [] \<and> (\<exists>q resp. xs = [(q, Inr resp)] \<and>
         q = init_request url auth \<and> (rs_status resp = 202 \<or> rs_status resp = 201) \<and>
         location_of hl url digest resp = Inr v))"
  have located: "location_of hl url digest resp = Inl e \<Longrightarrow> no_panic e" for resp e
    by (cases "map_of (rs_headers resp) ''location''";
        cases "hl_header_text hl (the (map_of (rs_headers resp) ''location''))")
      (auto simp: location_of_def)
  show "sends m ?R (init_turn hl url auth digest a l)"
    unfolding init_turn_def attempts_eq(2) Let_def
  proof (rule sends_send_bind)
    fix r
    show "sends m (\<lambda>ys. ?R ((init_request url auth, r) # ys))
      (case r of
         Inl e \<Rightarrow> if a < 3 then again a () else io_fail (BlobUpload digest (SrcHttp e))
       | Inr resp \<Rightarrow> if is_server_error (rs_status resp) \<and> a < 3 then again a ()
           else if rs_status resp \<noteq> 202 \<and> rs_status resp \<noteq> 201 then io_fail (refused_from_response resp)
           else io_bind (io_lift (location_of hl url digest resp)) (\<lambda>l. io_return (Inr l)))"
      using a by (cases r) (auto intro!: turn_intros dest: located)
  qed
qed

text \<open>The body of a blob is what its file holds, or the error of reading it.\<close>

definition blob_body :: "nodes \<Rightarrow> path \<Rightarrow> io_error + bytes \<Rightarrow> bool" where
  "blob_body m p body \<longleftrightarrow> (\<forall>b. body = Inr b \<longrightarrow> look p m = Some (FileNode b))"

interpretation put_blob_loop: attempt_loop m "put_blob_turn hl url auth p len digest"
  "\<lambda>q. \<exists>body. q = put_blob_request url auth len body \<and> blob_body m p body"
  "\<lambda>q resp v. v = len \<and> (rs_status resp = 201 \<or> rs_status resp = 200)" "\<lambda>_. False" no_panic
  for m hl url auth p len digest
proof
  fix a and l :: unit
  assume a: "a \<le> (3 :: nat)"
  let ?ok = "\<lambda>q. \<exists>body. q = put_blob_request url auth len body \<and> blob_body m p body"
  let ?R = "\<lambda>xs ms r. length xs \<le> 1 \<and> (\<forall>x \<in> set xs. ?ok (fst x)) \<and>
      (\<forall>e. r = Inl e \<longrightarrow> ms = [] \<and> no_panic e) \<and>
      (\<forall>l'. r = Inr (Inl l') \<longrightarrow> ms = (if a < 3 then [backoff_millis 800 a] else []) \<and> (a = 3 \<longrightarrow> False)) \<and>
      (\<forall>v. r = Inr (Inr v) \<longrightarrow> ms = [] \<and> (\<exists>q resp. xs = [(q, Inr resp)] \<and>
         v = len \<and> (rs_status resp = 201 \<or> rs_status resp = 200)))"
  have opened: "silent m (\<lambda>r. \<forall>e. r = Inl e \<longrightarrow> no_panic e) (io_map_err (blob_io_error digest) (fs_open p))"
    by (rule silent_map_err, rule silent_conseq [OF silent_open])
      (auto simp: map_err_def blob_io_error_def split: sum.splits)
  have body: "silent m (\<lambda>r. \<exists>b. r = Inr b \<and> blob_body m p b) (io_try (fs_read p))"
    by (rule silent_try, rule silent_conseq [OF silent_read]) (auto simp: blob_body_def)
  show "sends m ?R (put_blob_turn hl url auth p len digest a l)"
    unfolding put_blob_turn_def attempts_eq(2) Let_def
  proof (rule sends_silent_bind [OF opened], force, rule sends_silent_bind [OF body], force, rule sends_send_bind)
    fix b r
    assume "\<exists>c. Inr b = Inr c \<and> blob_body m p c"
    then have "?ok (put_blob_request url auth len b)" by blast
    then show "sends m (\<lambda>ys. ?R ((put_blob_request url auth len b, r) # ys))
      (case r of
         Inl e \<Rightarrow> if a < 3 then again a () else io_fail (BlobUpload digest (SrcHttp e))
       | Inr resp \<Rightarrow> if is_server_error (rs_status resp) \<and> a < 3 then again a ()
           else if rs_status resp \<noteq> 201 \<and> rs_status resp \<noteq> 200 then
             io_fail (refused_from_response_with_digest resp digest)
           else io_return (Inr len))"
      using a by (cases r) (auto intro!: turn_intros)
  qed
qed

interpretation put_manifest_loop: attempt_loop m "put_manifest_turn hl url auth bs"
  "\<lambda>q. q = put_manifest_request url auth bs"
  "\<lambda>q resp v. q = put_manifest_request url auth bs \<and> v = length bs \<and>
     (rs_status resp = 201 \<or> rs_status resp = 200)" "\<lambda>_. False" no_panic
  for m hl url auth bs
proof
  fix a and l :: unit
  assume a: "a \<le> (3 :: nat)"
  let ?R = "\<lambda>xs ms r. length xs \<le> 1 \<and> (\<forall>x \<in> set xs. fst x = put_manifest_request url auth bs) \<and>
      (\<forall>e. r = Inl e \<longrightarrow> ms = [] \<and> no_panic e) \<and>
      (\<forall>l'. r = Inr (Inl l') \<longrightarrow> ms = (if a < 3 then [backoff_millis 800 a] else []) \<and> (a = 3 \<longrightarrow> False)) \<and>
      (\<forall>v. r = Inr (Inr v) \<longrightarrow> ms = [] \<and> (\<exists>q resp. xs = [(q, Inr resp)] \<and>
         q = put_manifest_request url auth bs \<and> v = length bs \<and>
         (rs_status resp = 201 \<or> rs_status resp = 200)))"
  show "sends m ?R (put_manifest_turn hl url auth bs a l)"
    unfolding put_manifest_turn_def attempts_eq(2) Let_def
  proof (rule sends_send_bind)
    fix r
    show "sends m (\<lambda>ys. ?R ((put_manifest_request url auth bs, r) # ys))
      (case r of
         Inl e \<Rightarrow> if a < 3 then again a () else io_fail (ManifestUpload (SrcHttp e))
       | Inr resp \<Rightarrow> if is_server_error (rs_status resp) \<and> a < 3 then again a ()
           else if rs_status resp \<noteq> 201 \<and> rs_status resp \<noteq> 200 then
             io_fail (refused_manifest_from_response resp)
           else io_return (Inr (length bs)))"
      using a by (cases r) (auto intro!: turn_intros)
  qed
qed

end
