(* ===== verification/Http_Commit.thy ===== *)
theory Http_Commit
  imports Http_Sink
begin

text \<open>
  What \<open>publish_http\<close> promises ("Resumable + idempotent", "Atomic commit" in
  \<open>core/http_sink.rs\<close>): at every moment a consumer sees the old index, or the new one with
  every blob it needs in place; a blob is never there in part; every referenced digest is
  either copied or skipped. All of it holds under any faults.
\<close>

section \<open>The invariant\<close>

text \<open>The image and the destination are disjoint trees.\<close>

definition separate :: "fkey \<Rightarrow> fkey \<Rightarrow> bool" where
  "separate K R \<longleftrightarrow> \<not> under R K \<and> \<not> under K R"

definition blob_file :: "fkey \<Rightarrow> string \<Rightarrow> fkey" where
  "blob_file K digest = K @ [''blobs'', ''sha256'', drop 7 digest]"

definition image_ready :: "image_dir \<Rightarrow> nodes \<Rightarrow> bool" where
  "image_ready im m \<longleftrightarrow> (\<forall>d \<in> set (im_referenced im). blob_on_disk (im_root im) m (pd_digest d))"

definition digests_of :: "image_dir \<Rightarrow> string list" where
  "digests_of im = map pd_digest (im_referenced im)"

text \<open>
  Relative to the nodes \<open>m0\<close> at the start: the source is untouched, every blob at the
  destination is as it was or the source's, the index is as it was.
\<close>

definition copying :: "image_dir \<Rightarrow> fkey \<Rightarrow> nodes \<Rightarrow> nodes \<Rightarrow> bool" where
  "copying im K m0 m \<longleftrightarrow>
     (\<forall>x. m (fs_key (im_root im) @ x) = m0 (fs_key (im_root im) @ x)) \<and>
     (\<forall>d \<in> set (digests_of im). m (blob_file K d) = m0 (blob_file K d) \<or>
        m (blob_file K d) = m0 (blob_file (fs_key (im_root im)) d)) \<and>
     m (K @ [index_json_file]) = m0 (K @ [index_json_file])"

definition all_present :: "image_dir \<Rightarrow> fkey \<Rightarrow> nodes \<Rightarrow> bool" where
  "all_present im K m \<longleftrightarrow> (\<forall>d \<in> set (digests_of im). m (blob_file K d) \<noteq> None)"

definition committed :: "image_dir \<Rightarrow> fkey \<Rightarrow> nodes \<Rightarrow> nodes \<Rightarrow> bool" where
  "committed im K m0 m \<longleftrightarrow>
     (\<forall>x. m (fs_key (im_root im) @ x) = m0 (fs_key (im_root im) @ x)) \<and>
     (\<forall>d \<in> set (digests_of im). m (blob_file K d) = m0 (blob_file K d) \<or>
        m (blob_file K d) = m0 (blob_file (fs_key (im_root im)) d)) \<and>
     all_present im K m \<and>
     (\<exists>b. m0 (fs_key (im_root im) @ [index_json_file]) = Some (FileNode b) \<and>
          m (K @ [index_json_file]) = Some (FileNode b))"

text \<open>What a consumer may find at any moment.\<close>

definition consistent :: "image_dir \<Rightarrow> fkey \<Rightarrow> nodes \<Rightarrow> nodes \<Rightarrow> bool" where
  "consistent im K m0 m \<longleftrightarrow> copying im K m0 m \<or> committed im K m0 m"

lemma copying_refl: "copying im K m m"
  by (simp add: copying_def)

lemma separate_neq:
  assumes "separate K R"
  shows "K @ x \<noteq> R @ y"
proof
  assume eq: "K @ x = R @ y"
  then consider z where "K = R @ z" | z where "R = K @ z"
    by (auto simp: append_eq_append_conv2)
  then show False using assms by cases (auto simp: separate_def under_def)
qed

lemma digest_parts:
  assumes "sha256_digest d hex"
  shows "drop 7 d = hex" "blob_hex_of d = Inr hex" "plain_name hex" "hd hex \<noteq> CHR ''.''"
proof -
  show "drop 7 d = hex" using assms by (simp add: sha256_digest_def)
  show "blob_hex_of d = Inr hex"
    using assms split_sha256 [of hex] by (simp add: sha256_digest_def blob_hex_of_def)
  show "plain_name hex" by (rule sha256_digest_plain [OF assms])
  have "is_lower_hex (hd hex)"
    using assms by (cases hex) (auto simp: sha256_digest_def)
  then show "hd hex \<noteq> CHR ''.''" by (auto simp: ascii_defs)
qed

lemma image_readyE:
  assumes "image_ready im m" and "d \<in> set (im_referenced im)"
  obtains hex b p where "sha256_digest (pd_digest d) hex" "blob_path im (pd_digest d) = Inr p"
    "p \<noteq> []" "fs_key p = blob_file (fs_key (im_root im)) (pd_digest d)"
    "m (blob_file (fs_key (im_root im)) (pd_digest d)) = Some (FileNode b)"
proof -
  from assms obtain p where p: "blob_path_of (im_root im) (pd_digest d) = Inr p"
    "is_file_node (look p m)" by (auto simp: image_ready_def blob_on_disk_def)
  from p(1) obtain hex where hex: "sha256_digest (pd_digest d) hex"
    and eq: "p = path_join (path_join (path_join (im_root im) ''blobs'') ''sha256'') hex"
    by (auto simp: blob_path_of_Inr_iff)
  have key: "fs_key p = blob_file (fs_key (im_root im)) (pd_digest d)"
    using fs_key_blob [OF digest_parts(3) [OF hex]] digest_parts(1) [OF hex]
    by (simp add: eq blob_file_def)
  from p(2) obtain b where b: "look p m = Some (FileNode b)"
    by (auto simp: is_file_node_def split: option.splits fnode.splits)
  then have "p \<noteq> []" "m (fs_key p) = Some (FileNode b)"
    by (auto simp: look_def split: if_splits)
  with hex p(1) key show ?thesis by (auto simp: blob_path_def intro: that)
qed

section \<open>Steps keep the invariant\<close>

lemma copying_step:
  assumes "copying im K m0 m" and "separate K (fs_key (im_root im))"
    and "\<And>k. m' k \<noteq> m k \<Longrightarrow> take (length K) k = K \<and> k \<noteq> K @ [index_json_file]"
    and "\<And>d. d \<in> set (digests_of im) \<Longrightarrow> m' (blob_file K d) = m (blob_file K d) \<or>
      m' (blob_file K d) = m0 (blob_file (fs_key (im_root im)) d)"
  shows "copying im K m0 m'"
proof -
  have "m' (fs_key (im_root im) @ x) = m (fs_key (im_root im) @ x)" for x
  proof (rule ccontr)
    assume "\<not> ?thesis"
    from assms(3) [OF this] obtain y where "fs_key (im_root im) @ x = K @ y"
      by (metis append_take_drop_id)
    then show False using separate_neq [OF assms(2)] by metis
  qed
  moreover have "m' (K @ [index_json_file]) = m (K @ [index_json_file])"
    using assms(3) by blast
  ultimately show ?thesis
    using assms(1,4) unfolding copying_def by metis
qed

lemma temp_key_at: "k \<in> temp_keys K \<Longrightarrow> \<exists>n. k = K @ [n] \<and> hd n = CHR ''.''"
  by (auto simp: temp_keys_def dest: temp_name_hd)

lemma hd_names: "hd index_json_file \<noteq> CHR ''.''" "hd oci_layout_file \<noteq> CHR ''.''"
  "index_json_file \<noteq> oci_layout_file"
  by (simp_all add: index_json_file_def oci_layout_file_def)

lemma copying_layout:
  assumes "copying im K m0 m" and "separate K (fs_key (im_root im))"
    and "touched (temp_keys K) (K @ [oci_layout_file]) b m m'"
  shows "copying im K m0 m'"
proof (rule copying_step [OF assms(1,2)])
  fix k assume "m' k \<noteq> m k"
  then have "k = K @ [oci_layout_file] \<or> k \<in> temp_keys K"
    using assms(3) by (auto simp: touched_def only_def)
  then show "take (length K) k = K \<and> k \<noteq> K @ [index_json_file]"
    using hd_names by (auto dest: temp_key_at)
next
  fix d
  have "blob_file K d \<noteq> K @ [oci_layout_file]" "blob_file K d \<notin> temp_keys K"
    by (auto simp: blob_file_def temp_keys_def)
  then show "m' (blob_file K d) = m (blob_file K d) \<or>
      m' (blob_file K d) = m0 (blob_file (fs_key (im_root im)) d)"
    using assms(3) by (auto simp: touched_def only_def)
qed

lemma copying_blob:
  assumes "copying im K m0 m" and "separate K (fs_key (im_root im))"
    and "image_ready im m0" and "d \<in> set (im_referenced im)"
    and "m (blob_file (fs_key (im_root im)) (pd_digest d)) = Some (FileNode b)"
    and "touched (temp_keys (K @ [''blobs'', ''sha256''])) (blob_file K (pd_digest d)) b m m'"
  shows "copying im K m0 m'"
proof (rule copying_step [OF assms(1,2)])
  fix k assume "m' k \<noteq> m k"
  then have "k = blob_file K (pd_digest d) \<or> k \<in> temp_keys (K @ [''blobs'', ''sha256''])"
    using assms(6) by (auto simp: touched_def only_def)
  then show "take (length K) k = K \<and> k \<noteq> K @ [index_json_file]"
    by (auto simp: blob_file_def dest!: temp_key_at)
next
  fix e assume "e \<in> set (digests_of im)"
  then obtain d' where d': "d' \<in> set (im_referenced im)" "e = pd_digest d'"
    by (auto simp: digests_of_def)
  obtain hex where hex: "sha256_digest (pd_digest d') hex"
    by (rule image_readyE [OF assms(3) d'(1)])
  have no_temp: "blob_file K e \<notin> temp_keys (K @ [''blobs'', ''sha256''])"
    using digest_parts(4) [OF hex] digest_parts(1) [OF hex] not_temp [of hex "K @ [''blobs'', ''sha256'']"]
    by (simp add: blob_file_def d'(2))
  have src: "m0 (blob_file (fs_key (im_root im)) (pd_digest d)) = Some (FileNode b)"
    using assms(1,5) by (simp add: copying_def blob_file_def)
  show "m' (blob_file K e) = m (blob_file K e) \<or> m' (blob_file K e) = m0 (blob_file (fs_key (im_root im)) e)"
  proof (cases "blob_file K e = blob_file K (pd_digest d)")
    case True
    then have "blob_file (fs_key (im_root im)) e = blob_file (fs_key (im_root im)) (pd_digest d)"
      by (simp add: blob_file_def)
    with src assms(6) True show ?thesis by (auto simp: touched_def)
  next
    case False
    with assms(6) no_temp show ?thesis by (auto simp: touched_def only_def)
  qed
qed

lemma present_blob:
  assumes "touched (temp_keys (K @ [''blobs'', ''sha256''])) (blob_file K e) b m m'"
    and "sha256_digest d hex" and "m (blob_file K d) \<noteq> None"
  shows "m' (blob_file K d) \<noteq> None"
proof -
  have "blob_file K d \<notin> temp_keys (K @ [''blobs'', ''sha256''])"
    using digest_parts(4) [OF assms(2)] digest_parts(1) [OF assms(2)]
      not_temp [of hex "K @ [''blobs'', ''sha256'']"]
    by (simp add: blob_file_def)
  with assms(1,3) show ?thesis
    by (cases "blob_file K d = blob_file K e") (auto simp: touched_def only_def)
qed

lemma only_touched_blob:
  assumes "only (temp_keys (K @ [''blobs'', ''sha256''])) m m'" and "sha256_digest d hex"
  shows "touched (temp_keys (K @ [''blobs'', ''sha256''])) (blob_file K d) b m m'"
  using assms digest_parts(4) [OF assms(2)] digest_parts(1) [OF assms(2)]
    not_temp [of hex "K @ [''blobs'', ''sha256'']"]
  by (intro only_touched) (simp_all add: blob_file_def)

section \<open>One blob\<close>

definition source_size :: "image_dir \<Rightarrow> nodes \<Rightarrow> string \<Rightarrow> nat" where
  "source_size im m d =
     (case m (blob_file (fs_key (im_root im)) d) of Some (FileNode b) \<Rightarrow> length b | _ \<Rightarrow> 0)"

definition blobs_dir_of :: "path \<Rightarrow> path" where
  "blobs_dir_of dest = path_join (path_join dest ''blobs'') ''sha256''"

lemma fs_key_blobs_dir: "fs_key (blobs_dir_of dest) = fs_key dest @ [''blobs'', ''sha256'']"
  by (simp add: blobs_dir_of_def fs_key_join_plain plain_name_def)

lemma triple_exists_disk:
  "triple (disk P J) (fs_exists p :: ('x fs_scheme, 'e, bool) io)
     (\<lambda>b. disk (\<lambda>m. P m \<and> (b \<longrightarrow> look p m \<noteq> None)) J) E"
  unfolding fs_exists_def
  by (rule triple_fs_query, rule triple_conseq [OF triple_reads_disk [where P = P and J = J]])
    (auto simp: call_defs disk_def)

lemma triple_publish_one:
  fixes im :: image_dir and dest :: path and m0 :: nodes
  defines "K \<equiv> fs_key dest"
  assumes sep: "separate K (fs_key (im_root im))" and ready: "image_ready im m0"
    and d: "d \<in> set (im_referenced im)" and ys: "set ys \<subseteq> set (digests_of im)"
  shows "triple (disk (\<lambda>m. copying im K m0 m \<and> (\<forall>y \<in> set ys. m (blob_file K y) \<noteq> None)) (copying im K m0))
    (publish_one fuel im (blobs_dir_of dest) d out)
    (\<lambda>out'. disk (\<lambda>m. (copying im K m0 m \<and> (\<forall>y \<in> set (ys @ [pd_digest d]). m (blob_file K y) \<noteq> None)) \<and>
       (out' = add_skipped (pd_digest d) out \<or>
        out' = add_pushed (pd_digest d) (source_size im m0 (pd_digest d)) out)) (copying im K m0))
    (\<lambda>_. disk (copying im K m0) (copying im K m0))"
proof -
  let ?g = "\<lambda>m. copying im K m0 m \<and> (\<forall>y \<in> set ys. m (blob_file K y) \<noteq> None)"
  let ?post = "\<lambda>out'. disk (\<lambda>m. (copying im K m0 m \<and>
      (\<forall>y \<in> set (ys @ [pd_digest d]). m (blob_file K y) \<noteq> None)) \<and>
       (out' = add_skipped (pd_digest d) out \<or>
        out' = add_pushed (pd_digest d) (source_size im m0 (pd_digest d)) out)) (copying im K m0)"
  obtain hex b p where hex: "sha256_digest (pd_digest d) hex" and p: "blob_path im (pd_digest d) = Inr p"
    "p \<noteq> []" "fs_key p = blob_file (fs_key (im_root im)) (pd_digest d)"
    "m0 (blob_file (fs_key (im_root im)) (pd_digest d)) = Some (FileNode b)"
    by (rule image_readyE [OF ready d])
  note parts = digest_parts [OF hex]
  have target: "fs_key (blobs_dir_of dest) @ [hex] = blob_file K (pd_digest d)"
    by (simp add: fs_key_blobs_dir blob_file_def parts(1) K_def)
  have bdir: "fs_key (blobs_dir_of dest) = K @ [''blobs'', ''sha256'']"
    "(K @ [''blobs'', ''sha256'']) @ [hex] = blob_file K (pd_digest d)"
    by (simp_all add: fs_key_blobs_dir K_def blob_file_def parts(1))
  have src_here: "m (blob_file (fs_key (im_root im)) (pd_digest d)) = Some (FileNode b)"
    if "copying im K m0 m" for m
    using that p(4) by (simp add: copying_def blob_file_def)
  have pre: "copy_pre p (blobs_dir_of dest) (pd_digest d) hex m b" if "copying im K m0 m" for m
  proof -
    have "fs_key p \<notin> temp_keys (fs_key (blobs_dir_of dest))"
      using separate_neq [OF sep]
      by (auto simp: p(3) blob_file_def fs_key_blobs_dir K_def temp_keys_def)
    with parts src_here [OF that] p(2,3) show ?thesis by (simp add: copy_pre_def look_def)
  qed
  have ready_digest: "\<exists>h. sha256_digest y h" if "y \<in> set ys" for y
  proof -
    from that ys obtain e where e: "e \<in> set (im_referenced im)" "y = pd_digest e"
      by (auto simp: digests_of_def)
    show ?thesis by (rule image_readyE [OF ready e(1)]) (use e(2) in blast)
  qed
  have step: "?g m'" if "?g m" "touched (temp_keys (K @ [''blobs'', ''sha256''])) (blob_file K (pd_digest d)) b m m'"
    for m m'
  proof
    show "copying im K m0 m'"
      by (rule copying_blob [OF _ sep ready d]) (use that src_here in blast)+
    show "\<forall>y \<in> set ys. m' (blob_file K y) \<noteq> None"
      using that(1) present_blob [OF that(2)] ready_digest by metis
  qed
  have inst: "triple (disk (\<lambda>m. ?g m \<and> copy_pre p (blobs_dir_of dest) (pd_digest d) hex m b) (copying im K m0))
      (copy_blob_atomic fuel p (path_join (blobs_dir_of dest) hex) (blobs_dir_of dest) (pd_digest d))
      (\<lambda>n. disk (\<lambda>m. ?g m \<and> m (fs_key (blobs_dir_of dest) @ [hex]) = Some (FileNode b) \<and> n = length b)
         (copying im K m0)) (\<lambda>_. disk ?g (copying im K m0))"
  proof (rule blob_writer.install_invariant)
    fix m m'
    show "?g m'" if "?g m" "touched (temp_keys (fs_key (blobs_dir_of dest))) (fs_key (blobs_dir_of dest) @ [hex]) b m m'"
      by (rule step [OF that(1)]) (use that(2) in \<open>simp only: bdir\<close>)
    show "?g m'" if "?g m" "only (temp_keys (fs_key (blobs_dir_of dest))) m m'"
      by (rule step [OF that(1)], rule only_touched_blob [OF _ hex])
        (use that(2) in \<open>simp only: bdir\<close>)
  qed simp
  have copy: "triple (disk ?g (copying im K m0))
      (copy_blob_atomic fuel p (path_join (blobs_dir_of dest) hex) (blobs_dir_of dest) (pd_digest d))
      (\<lambda>n. disk (\<lambda>m. ?g m \<and> m (blob_file K (pd_digest d)) = Some (FileNode b) \<and> n = length b) (copying im K m0))
      (\<lambda>_. disk (copying im K m0) (copying im K m0))"
    by (rule triple_conseq [OF inst]) (auto simp: disk_def pre target)
  show ?thesis
    unfolding publish_one_def p(1) parts(2) Let_def
  proof (simp only: map_err_simps io_bind_simps, rule triple_bind [OF triple_exists_disk], rule triple_if)
    fix present assume "present"
    then show "triple (disk (\<lambda>m. ?g m \<and> (present \<longrightarrow> look (path_join (blobs_dir_of dest) hex) m \<noteq> None))
          (copying im K m0)) (io_return (add_skipped (pd_digest d) out)) ?post
        (\<lambda>_. disk (copying im K m0) (copying im K m0))"
      by (intro triple_return)
        (auto simp: disk_def look_def fs_key_join_plain [OF parts(3)] target split: if_splits)
  next
    fix present :: bool
    have size: "source_size im m0 (pd_digest d) = length b" by (simp add: source_size_def p(4))
    show "triple (disk (\<lambda>m. ?g m \<and> (present \<longrightarrow> look (path_join (blobs_dir_of dest) hex) m \<noteq> None))
          (copying im K m0))
        (io_bind (copy_blob_atomic fuel p (path_join (blobs_dir_of dest) hex) (blobs_dir_of dest) (pd_digest d))
          (\<lambda>n. io_return (add_pushed (pd_digest d) n out))) ?post
        (\<lambda>_. disk (copying im K m0) (copying im K m0))"
      by (rule triple_bind [OF triple_pre [OF copy]], force simp: disk_def, rule triple_return)
        (auto simp: disk_def size)
  qed
qed

section \<open>The whole publication\<close>

lemma copying_dirs:
  assumes "separate K (fs_key (im_root im))"
    and "\<And>k. m k \<noteq> m0 k \<Longrightarrow> k \<in> set (prefixes_of (K @ [''blobs'', ''sha256'']))"
  shows "copying im K m0 m"
proof -
  have pre: "\<exists>y. k @ y = K @ [''blobs'', ''sha256''] \<and> length k \<le> length K + 2"
    if "m k \<noteq> m0 k" for k
  proof -
    let ?L = "K @ [''blobs'', ''sha256'']"
    from assms(2) [OF that] obtain i where "k = take i ?L"
      unfolding prefixes_of_def set_map by blast
    then show ?thesis by (intro exI [of _ "drop i ?L"]) (simp del: take_append drop_append)
  qed
  have "m (fs_key (im_root im) @ x) = m0 (fs_key (im_root im) @ x)" for x
    using pre separate_neq [OF assms(1)] by (metis append.assoc)
  moreover have "m (blob_file K d) = m0 (blob_file K d)" for d
    using pre [of "blob_file K d"] by (auto simp: blob_file_def)
  moreover have "m (K @ [index_json_file]) = m0 (K @ [index_json_file])"
    using pre [of "K @ [index_json_file]"] by (auto simp: index_json_file_def)
  ultimately show ?thesis by (simp add: copying_def)
qed

lemma make_dirs_changes:
  "m' \<in> set (make_dirs ks m) \<Longrightarrow> m' k \<noteq> m k \<Longrightarrow> k \<in> set ks"
  by (induction ks arbitrary: m) (auto simp: Let_def split: if_splits, fastforce)

lemma triple_create_dirs:
  assumes "\<And>m. (\<And>k. m k \<noteq> m0 k \<Longrightarrow> k \<in> set (prefixes_of (fs_key p))) \<Longrightarrow> J m"
  shows "triple (disk ((=) m0) J) (fs_create_dir_all p) (\<lambda>_. disk J J) (\<lambda>_. disk J J)"
  unfolding fs_create_dir_all_def
proof (rule triple_fs_call)
  fix ord m f r ms
  assume m: "m0 = m" and run: "call_create_dir_all p ord m f = (r, ms)"
  let ?new = "filter (\<lambda>k. m k = None) (prefixes_of (fs_key p))"
  have "\<exists>n. ms = make_dirs (take n ?new) m"
    using run
    by (auto simp: call_create_dir_all_def io_err_def Let_def split: if_splits option.splits io_fault.splits
        intro: exI [of _ "0::nat"] exI [of _ "length ?new"])
  then obtain n where ms: "ms = make_dirs (take n ?new) m" ..
  have "set (take n ?new) \<subseteq> set (prefixes_of (fs_key p))"
    using set_take_subset [of n ?new] by auto
  then have "k \<in> set (prefixes_of (fs_key p))" if "m' \<in> set ms" "m' k \<noteq> m0 k" for m' k
    using make_dirs_changes that ms m by blast
  then have "\<forall>m' \<in> set (m0 # ms). J m'"
    using assms by auto
  then have "\<forall>m' \<in> set ms. J m'" and "J (last (m # ms))"
    using m last_in_set [of "m # ms"] by auto
  then show "(\<forall>m' \<in> set ms. J m') \<and>
      (case r of Inr x \<Rightarrow> J (last (m # ms)) | Inl e \<Rightarrow> J (last (m # ms)))"
    by (simp split: sum.split)
qed

definition accounts :: "image_dir \<Rightarrow> nodes \<Rightarrow> string list \<Rightarrow> publish_outcome \<Rightarrow> bool" where
  "accounts im m0 ds out \<longleftrightarrow>
     mset (digests_pushed out) + mset (digests_skipped out) = mset ds \<and>
     bytes_uploaded out = sum_list (map (source_size im m0) (digests_pushed out))"

lemma accounts_step:
  "accounts im m0 ds out \<Longrightarrow> accounts im m0 (ds @ [d]) (add_skipped d out)"
  "accounts im m0 ds out \<Longrightarrow> accounts im m0 (ds @ [d]) (add_pushed d (source_size im m0 d) out)"
  by (simp_all add: accounts_def)

lemma disk_weaken: "disk P J s \<Longrightarrow> (\<And>m. P m \<Longrightarrow> P' m) \<Longrightarrow> (\<And>m. J m \<Longrightarrow> J' m) \<Longrightarrow> disk P' J' s"
  by (auto simp: disk_def)

lemma triple_publish_loop:
  fixes im :: image_dir and dest :: path and m0 :: nodes
  defines "K \<equiv> fs_key dest"
  assumes sep: "separate K (fs_key (im_root im))" and ready: "image_ready im m0"
  shows "triple (disk (copying im K m0) (copying im K m0))
    (io_fold (publish_one fuel im (blobs_dir_of dest)) (im_referenced im) empty_outcome ::
      (('w, 'x) pub_scheme, publish_error, publish_outcome) io)
    (\<lambda>out. disk (\<lambda>m. copying im K m0 m \<and> all_present im K m \<and> accounts im m0 (digests_of im) out)
       (copying im K m0))
    (\<lambda>_. disk (copying im K m0) (copying im K m0))"
proof -
  let ?I = "\<lambda>(ys :: pub_descriptor list) out. disk (\<lambda>m. (copying im K m0 m \<and>
      (\<forall>y \<in> set (map pd_digest ys). m (blob_file K y) \<noteq> None)) \<and>
      accounts im m0 (map pd_digest ys) out) (copying im K m0) :: ('w, 'x) pub_scheme \<Rightarrow> bool"
  have loop: "triple (?I [] empty_outcome)
      (io_fold (publish_one fuel im (blobs_dir_of dest)) (im_referenced im) empty_outcome)
      (\<lambda>out. ?I (im_referenced im) out) (\<lambda>_. disk (copying im K m0) (copying im K m0))"
  proof (rule triple_fold [where I = ?I])
    fix ys x zs out
    assume split: "im_referenced im = ys @ x # zs"
    show "triple (?I ys out) (publish_one fuel im (blobs_dir_of dest) x out)
        (\<lambda>out'. ?I (ys @ [x]) out') (\<lambda>_. disk (copying im K m0) (copying im K m0))"
    proof (cases "accounts im m0 (map pd_digest ys) out")
      case True
      have "set (map pd_digest ys) \<subseteq> set (digests_of im)" "x \<in> set (im_referenced im)"
        using split by (auto simp: digests_of_def)
      note one = triple_publish_one [OF sep [unfolded K_def] ready this(2,1), of fuel out,
          folded K_def]
      show ?thesis
        by (rule triple_conseq [OF one], erule disk_mono, blast, erule disk_mono)
          (use accounts_step [OF True] in auto)
    next
      case False
      then show ?thesis by (simp add: triple_def disk_def)
    qed
  qed
  show ?thesis
    by (rule triple_conseq [OF loop])
      (auto simp: accounts_def all_present_def digests_of_def elim!: disk_weaken)
qed

lemma triple_commit:
  fixes im :: image_dir and dest :: path and m0 :: nodes
  defines "K \<equiv> fs_key dest"
  assumes sep: "separate K (fs_key (im_root im))"
    and idx: "m0 (fs_key (im_root im) @ [index_json_file]) = Some (FileNode b)"
    and ready: "image_ready im m0"
  shows "triple (disk (\<lambda>m. copying im K m0 m \<and> all_present im K m) (consistent im K m0))
    (write_atomic_index (path_join dest index_json_file) b)
    (\<lambda>_. disk (committed im K m0) (consistent im K m0))
    (\<lambda>_. disk (copying im K m0) (consistent im K m0))"
proof -
  let ?P = "\<lambda>m. copying im K m0 m \<and> all_present im K m"
  have blob_out: "blob_file K d \<notin> temp_keys K \<and> blob_file K d \<noteq> K @ [index_json_file]" for d
    by (auto simp: blob_file_def temp_keys_def)
  have temps: "copying im K m0 m' \<and> all_present im K m'" if "?P m" "only (temp_keys K) m m'" for m m'
  proof
    show "copying im K m0 m'"
    proof (rule copying_step [OF conjunct1 [OF that(1)] sep])
      fix k assume "m' k \<noteq> m k"
      then have "k \<in> temp_keys K" using that(2) by (auto simp: only_def)
      then show "take (length K) k = K \<and> k \<noteq> K @ [index_json_file]"
        using hd_names by (auto dest: temp_key_at)
    qed (use that(2) blob_out in \<open>auto simp: only_def\<close>)
    show "all_present im K m'"
      using that blob_out by (auto simp: all_present_def only_def)
  qed
  have target: "copying im K m0 m' \<or> committed im K m0 m'"
    "m' (K @ [index_json_file]) = Some (FileNode b) \<longrightarrow> committed im K m0 m'"
    if P: "?P m" and t: "touched (temp_keys K) (K @ [index_json_file]) b m m'" for m m'
  proof -
    let ?m = "m'(K @ [index_json_file] := m (K @ [index_json_file]))"
    have "only (temp_keys K) m ?m" using t by (auto simp: touched_def only_def)
    from temps [OF P this] have restored: "copying im K m0 ?m" "all_present im K ?m" by auto
    have same: "?m (fs_key (im_root im) @ x) = m' (fs_key (im_root im) @ x)" "?m (blob_file K d) = m' (blob_file K d)"
      for x d
      using separate_neq [OF sep, of "[index_json_file]" x] blob_out [of d] by auto
    have present: "all_present im K m'"
      using restored(2) by (simp only: all_present_def same) 
    have frame: "(\<forall>x. m' (fs_key (im_root im) @ x) = m0 (fs_key (im_root im) @ x)) \<and>
        (\<forall>d \<in> set (digests_of im). m' (blob_file K d) = m0 (blob_file K d) \<or>
          m' (blob_file K d) = m0 (blob_file (fs_key (im_root im)) d))"
      using restored(1) by (simp only: copying_def same) blast
    show new: "m' (K @ [index_json_file]) = Some (FileNode b) \<longrightarrow> committed im K m0 m'"
      using frame present idx by (auto simp: committed_def)
    have "m' (K @ [index_json_file]) = m (K @ [index_json_file]) \<Longrightarrow> copying im K m0 m'"
      using frame P by (simp add: copying_def)
    with new t show "copying im K m0 m' \<or> committed im K m0 m'"
      by (auto simp: touched_def)
  qed
  have inst: "triple (disk (\<lambda>m. ?P m \<and> True) (consistent im K m0))
      (write_atomic_index (path_join dest index_json_file) b)
      (\<lambda>x. disk (\<lambda>m. (\<exists>m1. ?P m1 \<and> True \<and> touched (temp_keys (fs_key dest)) (fs_key dest @ [index_json_file]) b m1 m) \<and>
         m (fs_key dest @ [index_json_file]) = Some (FileNode b) \<and> True) (consistent im K m0))
      (\<lambda>_. disk (\<lambda>m. \<exists>m1. ?P m1 \<and> only (temp_keys (fs_key dest)) m1 m) (consistent im K m0))"
    by (rule index_writer.install_from) (unfold consistent_def K_def [symmetric], rule target(1))
  show ?thesis
  proof (rule triple_conseq [OF inst])
    show "disk (committed im K m0) (consistent im K m0) s"
      if "disk (\<lambda>m. (\<exists>m1. ?P m1 \<and> True \<and> touched (temp_keys (fs_key dest)) (fs_key dest @ [index_json_file]) b m1 m) \<and>
         m (fs_key dest @ [index_json_file]) = Some (FileNode b) \<and> True) (consistent im K m0) s"
      for s :: "('w, 'x) pub_scheme"
      using that target(2) unfolding K_def [symmetric] by (elim disk_mono) blast
    show "disk (copying im K m0) (consistent im K m0) s"
      if "disk (\<lambda>m. \<exists>m1. ?P m1 \<and> only (temp_keys (fs_key dest)) m1 m) (consistent im K m0) s"
      for s :: "('w, 'x) pub_scheme"
      using that temps unfolding K_def [symmetric] by (elim disk_mono) blast
  qed (auto elim: disk_mono)
qed

text \<open>The steps before the blobs.\<close>

definition http_prepare ::
  "image_dir \<Rightarrow> path \<Rightarrow> (('w, 'x) pub_scheme, publish_error, unit) io" where
  "http_prepare im dest =
     io_bind (io_map_err (Destination (blobs_dir_of dest)) (fs_create_dir_all (blobs_dir_of dest))) (\<lambda>_.
     io_bind (io_map_err publish_error_of (read_oci_layout_bytes im)) (\<lambda>layout_bytes.
     write_if_changed (path_join dest oci_layout_file) layout_bytes))"

lemma publish_http_split:
  "publish_http fuel im dest =
     io_bind (http_prepare im dest) (\<lambda>_.
     io_bind (io_fold (publish_one fuel im (blobs_dir_of dest)) (im_referenced im) empty_outcome) (\<lambda>out.
     io_bind (io_map_err publish_error_of (read_index_bytes im)) (\<lambda>index_bytes.
     io_bind (write_atomic_index (path_join dest index_json_file) index_bytes) (\<lambda>_.
     io_return out))))"
  by (simp add: publish_http_def http_prepare_def Let_def io_bind_assoc blobs_dir_of_def)

lemma triple_http_prepare:
  fixes im :: image_dir and dest :: path and m0 :: nodes
  defines "K \<equiv> fs_key dest"
  assumes sep: "separate K (fs_key (im_root im))"
  shows "triple (disk ((=) m0) (copying im K m0)) (http_prepare im dest)
    (\<lambda>_. disk (copying im K m0) (copying im K m0)) (\<lambda>_. disk (copying im K m0) (copying im K m0))"
proof -
  let ?C = "copying im K m0"
  let ?E = "\<lambda>_ :: publish_error. disk ?C ?C"
  have dirs: "triple (disk ((=) m0) ?C) (io_map_err g (fs_create_dir_all (blobs_dir_of dest)))
      (\<lambda>_. disk ?C ?C) ?E" for g
    by (rule triple_map_err_const, rule triple_create_dirs, rule copying_dirs [OF sep])
      (simp add: fs_key_blobs_dir K_def)
  have layout: "triple (disk ?C ?C) (write_if_changed (path_join dest oci_layout_file) bs)
      (\<lambda>_. disk ?C ?C) ?E" for bs
  proof (rule triple_conseq [OF layout_writer.install_invariant
        [where good = ?C and vis = ?C and b = bs and dest = dest]])
    show "?C m'" if "?C m" "touched (temp_keys (fs_key dest)) (fs_key dest @ [oci_layout_file]) bs m m'" for m m'
      using copying_layout [OF that(1) sep] that(2) unfolding K_def by blast
    show "?C m'" if "?C m" "only (temp_keys (fs_key dest)) m m'" for m m'
      using copying_layout [OF that(1) sep] only_touched [OF that(2) sink_names(3)] unfolding K_def by blast
  qed (auto simp: disk_def)
  have read_layout: "triple (disk ?C ?C) (io_map_err publish_error_of (read_oci_layout_bytes im))
      (\<lambda>_. disk ?C ?C) ?E"
    unfolding read_oci_layout_bytes_def Let_def
    by (intro triple_map_err_const, rule triple_conseq [OF triple_read_disk [where P = ?C and J = ?C]])
      (auto elim: disk_mono)
  show ?thesis
    unfolding http_prepare_def
    by (rule triple_bind [OF dirs], rule triple_bind [OF read_layout], rule layout)
qed

lemma triple_publish_http:
  fixes im :: image_dir and dest :: path and m0 :: nodes
  defines "K \<equiv> fs_key dest"
  assumes sep: "separate K (fs_key (im_root im))" and ready: "image_ready im m0"
  shows "triple (disk ((=) m0) (copying im K m0)) (publish_http fuel im dest)
    (\<lambda>out. disk (\<lambda>m. committed im K m0 m \<and> accounts im m0 (digests_of im) out) (consistent im K m0))
    (\<lambda>_. disk (copying im K m0) (consistent im K m0))"
proof -
  let ?C = "copying im K m0"
  let ?E = "\<lambda>_ :: publish_error. disk ?C (consistent im K m0)"
  have weaken: "disk ?C (consistent im K m0) s" if "disk ?C ?C s" for s :: "'z fs_scheme"
    using that by (rule disk_weaken) (auto simp: consistent_def)
  note prepare = triple_http_prepare [OF sep [unfolded K_def], of m0, folded K_def]
  let ?D = "\<lambda>out m. ?C m \<and> all_present im K m \<and> accounts im m0 (digests_of im) out"
  have read_index: "triple (disk (?D out) ?C) (io_map_err publish_error_of (read_index_bytes im))
      (\<lambda>b. disk (\<lambda>m. ?D out m \<and> m0 (fs_key (im_root im) @ [index_json_file]) = Some (FileNode b)) ?C) ?E" for out
    unfolding read_index_bytes_def Let_def
  proof (intro triple_map_err_const,
      rule triple_conseq [OF triple_read_disk [where P = "?D out" and J = ?C]])
    show "disk (\<lambda>m. ?D out m \<and> m0 (fs_key (im_root im) @ [index_json_file]) = Some (FileNode b)) ?C s"
      if "disk (\<lambda>m. ?D out m \<and> look (path_join (im_root im) index_json_file) m = Some (FileNode b)) ?C s"
      for b s
      using that
      by (rule disk_mono) (auto simp: look_def copying_def fs_key_join_plain split: if_splits)
  qed (auto elim!: disk_weaken simp: consistent_def)
  have commit: "triple (disk (\<lambda>m. ?D out m \<and> m0 (fs_key (im_root im) @ [index_json_file]) = Some (FileNode b)) ?C)
      (io_bind (write_atomic_index (path_join dest index_json_file) b) (\<lambda>_. io_return out))
      (\<lambda>out. disk (\<lambda>m. committed im K m0 m \<and> accounts im m0 (digests_of im) out) (consistent im K m0)) ?E"
    for out b
  proof (cases "m0 (fs_key (im_root im) @ [index_json_file]) = Some (FileNode b) \<and>
      accounts im m0 (digests_of im) out")
    case True
    note tc = triple_commit [OF sep [unfolded K_def] conjunct1 [OF True] ready, folded K_def]
    show ?thesis
      by (rule triple_bind [OF triple_pre [OF tc]], erule disk_weaken, blast,
          simp add: consistent_def, rule triple_return)
        (use True in \<open>auto elim: disk_mono\<close>)
  next
    case False
    then show ?thesis by (auto simp: triple_def disk_def)
  qed
  show ?thesis
    unfolding publish_http_split
    by (rule triple_bind [OF triple_conseq [OF prepare]], assumption, assumption, erule weaken,
        rule triple_bind [OF triple_conseq [OF triple_publish_loop
            [OF sep [unfolded K_def] ready, folded K_def]]],
        assumption, assumption, erule weaken, rule triple_bind [OF read_index], rule commit)
qed

section \<open>Properties\<close>

lemma open_ready:
  assumes "open_image_dir cod root s = (Inr im, t)"
  shows "image_ready im (fs_nodes s)" "im_root im = root" "distinct (digests_of im)"
    "still (fs_nodes s) (fs_seen s) t"
proof -
  have "still (fs_nodes s) (fs_seen s) s" by (simp add: still_def)
  from triple_InrD [OF triple_open this assms] obtain p rs where
    v: "valid_image cod root (fs_nodes s) p rs" and im: "im = image_of root p rs"
    and t: "still (fs_nodes s) (fs_seen s) t" by blast
  show "im_root im = root" by (simp add: im image_of_def)
  show "distinct (digests_of im)"
    using referenced_of_props(1) [of p rs] by (simp add: im image_of_def digests_of_def)
  show "still (fs_nodes s) (fs_seen s) t" by (rule t)
  have "set (referenced_of p rs) \<subseteq> set (walk_order p rs)"
    using push_new_props [of "walk_order p rs" "{}"] by (simp add: referenced_of_def)
  with valid_image_on_disk [OF v] show "image_ready im (fs_nodes s)"
    by (auto simp: image_ready_def im image_of_def)
qed

lemma publish_run:
  assumes "open_image_dir cod root s = (Inr im, s1)" and "fs_seen s = []"
    and "separate (fs_key dest) (fs_key root)" and "publish_http fuel im dest s1 = (r, t)"
  shows "case r of
      Inr out \<Rightarrow> disk (\<lambda>m. committed im (fs_key dest) (fs_nodes s) m \<and>
        accounts im (fs_nodes s) (digests_of im) out) (consistent im (fs_key dest) (fs_nodes s)) t
    | Inl e \<Rightarrow> disk (copying im (fs_key dest) (fs_nodes s)) (consistent im (fs_key dest) (fs_nodes s)) t"
proof -
  note o = open_ready [OF assms(1)]
  have start: "disk ((=) (fs_nodes s)) (copying im (fs_key dest) (fs_nodes s)) s1"
    using o(4) assms(2) by (simp add: disk_def still_def)
  note tr = triple_publish_http [of dest im "fs_nodes s" fuel, unfolded o(2), OF assms(3) o(1)]
  show ?thesis
    using triple_InrD [OF tr start] triple_InlD [OF tr start] assms(4) by (cases r) auto
qed

text \<open>
  C8: the index is the commit point. Whatever faults occur, at every moment of a publication
  the destination has its old index, or the index of the image and then every blob the image
  refers to; no blob is ever there in part (each is as before or has the source's content);
  and the source does not change. A publication that fails leaves the old index.
\<close>

theorem http_commit_atomic:
  assumes "open_image_dir cod root s = (Inr im, s1)" and "fs_seen s = []"
    and "separate (fs_key dest) (fs_key root)" and "publish_http fuel im dest s1 = (r, t)"
  shows "(\<forall>m \<in> set (fs_seen t). consistent im (fs_key dest) (fs_nodes s) m) \<and>
    (case r of Inr out \<Rightarrow> committed im (fs_key dest) (fs_nodes s) (fs_nodes t)
     | Inl e \<Rightarrow> copying im (fs_key dest) (fs_nodes s) (fs_nodes t))"
  using publish_run [OF assms] by (auto simp: disk_def split: sum.splits)

text \<open>
  The outcome accounts for every blob: each referenced digest is either pushed or
  skipped, and not both, and the bytes uploaded are the sizes of the pushed blobs.
\<close>

theorem http_outcome_accounts:
  assumes "open_image_dir cod root s = (Inr im, s1)" and "fs_seen s = []"
    and "separate (fs_key dest) (fs_key root)" and "publish_http fuel im dest s1 = (Inr out, t)"
  shows "set (digests_pushed out) \<union> set (digests_skipped out) = pd_digest ` set (im_referenced im) \<and>
    set (digests_pushed out) \<inter> set (digests_skipped out) = {} \<and>
    distinct (digests_pushed out @ digests_skipped out) \<and>
    bytes_uploaded out = sum_list (map (source_size im (fs_nodes s)) (digests_pushed out))"
proof -
  have acc: "accounts im (fs_nodes s) (digests_of im) out"
    using publish_run [OF assms] by (simp add: disk_def)
  then have m: "mset (digests_pushed out @ digests_skipped out) = mset (digests_of im)"
    by (simp add: accounts_def)
  have d: "distinct (digests_pushed out @ digests_skipped out)"
    using open_ready(3) [OF assms(1)] mset_eq_imp_distinct_iff [OF m] by blast
  have s: "set (digests_pushed out @ digests_skipped out) = set (digests_of im)"
    by (rule mset_eq_setD [OF m])
  from acc d s show ?thesis by (auto simp: accounts_def digests_of_def)
qed

subsection \<open>Publishing again\<close>

abbreviation no_faults :: "'x fs_scheme \<Rightarrow> bool" where
  "no_faults s \<equiv> fs_faults s = []"

lemma keeps_no_faults_call: "keeps no_faults (fs_call g)"
  by (auto simp: keeps_def fs_call_def Let_def split: prod.split)

lemma keeps_no_faults_prepare: "keeps no_faults (http_prepare im dest)"
proof -
  have p: "keeps no_faults process_id"
    by (simp add: process_id_def)
  show ?thesis
    unfolding http_prepare_def read_oci_layout_bytes_def write_if_changed_def finalize_atomic_def
      fs_op_defs Let_def
    by (intro keeps_bind keeps_map_err keeps_try keeps_if keeps_no_faults_call keeps_simps p)
qed

lemma run_skip_loop:
  assumes "no_faults s" and "\<forall>d \<in> set ds. \<exists>hex p. sha256_digest (pd_digest d) hex \<and>
      blob_path im (pd_digest d) = Inr p \<and> fs_nodes s (blob_file (fs_key dest) (pd_digest d)) \<noteq> None"
  shows "io_fold (publish_one fuel im (blobs_dir_of dest)) ds out s =
    (Inr (out\<lparr>digests_skipped := digests_skipped out @ map pd_digest ds\<rparr>), s)"
  using assms(2)
proof (induction ds arbitrary: out)
  case Nil
  then show ?case by (simp add: io_apply_simps)
next
  case (Cons d ds)
  then obtain hex p where d: "sha256_digest (pd_digest d) hex" "blob_path im (pd_digest d) = Inr p"
    "fs_nodes s (blob_file (fs_key dest) (pd_digest d)) \<noteq> None" by auto
  note parts = digest_parts [OF d(1)]
  have "fs_key (path_join (blobs_dir_of dest) hex) = blob_file (fs_key dest) (pd_digest d)"
    by (simp add: fs_key_join_plain [OF parts(3)] fs_key_blobs_dir blob_file_def parts(1))
  moreover have "path_join (blobs_dir_of dest) hex \<noteq> []"
    using parts(3) by (intro path_join_not_Nil) (simp add: plain_name_def)
  ultimately have "look (path_join (blobs_dir_of dest) hex) (fs_nodes s) \<noteq> None"
    using d(3) by (simp add: look_def)
  then have "publish_one fuel im (blobs_dir_of dest) d out s = (Inr (add_skipped (pd_digest d) out), s)"
    by (simp add: exists_no_fault [OF assms(1)] publish_one_def d(2) parts(2) Let_def io_bind_def io_apply_simps)
  with Cons show ?case by (simp add: io_bind_def add_skipped_def)
qed

lemma copying_present:
  assumes "copying im K m0 m" and "all_present im K m0" and "image_ready im m0"
  shows "all_present im K m"
  unfolding all_present_def
proof
  fix d assume d: "d \<in> set (digests_of im)"
  then obtain d' where d': "d' \<in> set (im_referenced im)" "d = pd_digest d'" by (auto simp: digests_of_def)
  obtain b where "m0 (blob_file (fs_key (im_root im)) d) = Some (FileNode b)"
    by (rule image_readyE [OF assms(3) d'(1)]) (simp add: d'(2))
  with assms(1,2) d show "m (blob_file K d) \<noteq> None"
    by (force simp: copying_def all_present_def)
qed

text \<open>
  Publishing again copies nothing: when every referenced blob is at the destination, a
  publication without faults skips every digest, in order, and uploads no byte.
\<close>

theorem republish_copies_nothing:
  assumes "open_image_dir cod root s = (Inr im, s1)" and "fs_seen s = []" and "fs_faults s1 = []"
    and "separate (fs_key dest) (fs_key root)" and "all_present im (fs_key dest) (fs_nodes s)"
    and "publish_http fuel im dest s1 = (Inr out, t)"
  shows "digests_pushed out = [] \<and> digests_skipped out = map pd_digest (im_referenced im) \<and>
    bytes_uploaded out = 0"
proof -
  note o = open_ready [OF assms(1)]
  from assms(6) obtain u where u: "http_prepare im dest s1 = (Inr (), u)"
    and run: "io_bind (io_fold (publish_one fuel im (blobs_dir_of dest)) (im_referenced im) empty_outcome)
      (\<lambda>out. io_bind (io_map_err publish_error_of (read_index_bytes im)) (\<lambda>index_bytes.
      io_bind (write_atomic_index (path_join dest index_json_file) index_bytes) (\<lambda>_.
      io_return out))) u = (Inr out, t)"
    unfolding publish_http_split by (rule io_bind_InrE) simp
  have start: "disk ((=) (fs_nodes s)) (copying im (fs_key dest) (fs_nodes s)) s1"
    using o(4) assms(2) by (simp add: disk_def still_def)
  from triple_InrD [OF triple_http_prepare [of dest im "fs_nodes s", unfolded o(2), OF assms(4)] start u]
  have "copying im (fs_key dest) (fs_nodes s) (fs_nodes u)" by (simp add: disk_def)
  from copying_present [OF this assms(5) o(1)] have present: "all_present im (fs_key dest) (fs_nodes u)" .
  have faults: "no_faults u"
    using keeps_no_faults_prepare [of im dest] assms(3) u unfolding keeps_def by (metis snd_conv)
  have "\<exists>hex p. sha256_digest (pd_digest d) hex \<and> blob_path im (pd_digest d) = Inr p \<and>
      fs_nodes u (blob_file (fs_key dest) (pd_digest d)) \<noteq> None" if "d \<in> set (im_referenced im)" for d
    by (rule image_readyE [OF o(1) that]) (use present that in \<open>auto simp: all_present_def digests_of_def\<close>)
  with run_skip_loop [OF faults] have loop: "io_fold (publish_one fuel im (blobs_dir_of dest))
      (im_referenced im) empty_outcome u =
      (Inr (empty_outcome\<lparr>digests_skipped := map pd_digest (im_referenced im)\<rparr>), u)"
    by simp
  have "out = empty_outcome\<lparr>digests_skipped := map pd_digest (im_referenced im)\<rparr>"
    using run by (rule io_bind_InrE) (use loop in \<open>auto elim!: io_bind_InrE simp: io_apply_simps\<close>)
  then show ?thesis by (simp add: empty_outcome_def)
qed

subsection \<open>The copying loop ends\<close>

lemma fs_append_other:
  "fs_append p bs s = (r, t) \<Longrightarrow> k \<noteq> fs_key p \<Longrightarrow> fs_nodes t k = fs_nodes s k"
  by (auto simp: fs_append_def fs_call_def call_append_def io_err_def Let_def last_map
      split: option.splits fnode.splits io_fault.splits if_splits prod.splits)

lemma fs_call_faults: "fs_call g s = (r, t) \<Longrightarrow> fs_faults t = tl (fs_faults s)"
  by (auto simp: fs_call_def Let_def split: prod.splits)

lemma copy_loop_bound:
  assumes "look src (fs_nodes s) = Some (FileNode b)" and "fs_key src \<noteq> fs_key dst"
    and "length (fs_faults s) + (length b - got) < n" and "length (fs_faults s) + (length b - got) < n'"
  shows "copy_loop n src dst got s = copy_loop n' src dst got s"
  using assms
proof (induction n arbitrary: n' got s)
  case 0
  then show ?case by simp
next
  case (Suc n)
  obtain k where n': "n' = Suc k" using Suc.prems(4) by (cases n') auto
  let ?c = "call_read_at src got copy_chunk_bytes"
  obtain r u where read: "fs_read_at src got copy_chunk_bytes s = (r, u)"
    by (cases "fs_read_at src got copy_chunk_bytes s")
  have u: "u = s\<lparr>fs_faults := tl (fs_faults s)\<rparr>" "r = fst (?c (fs_order s) (fs_nodes s) (next_fault s))"
    using read by (simp_all add: fs_read_at_def fs_call_reads)
  have same: "look src (fs_nodes u) = Some (FileNode b)" using Suc.prems(1) u(1) by simp
  show ?case
  proof (cases r)
    case (Inl e)
    have "fs_faults s \<noteq> []"
    proof
      assume "fs_faults s = []"
      then have "r = Inr (take copy_chunk_bytes (drop got b))"
        using Suc.prems(1) by (simp add: u(2) next_fault_def call_read_at_def call_read_def)
      with Inl show False by simp
    qed
    then have "length (fs_faults u) < length (fs_faults s)" using u(1) by (cases "fs_faults s") auto
    then have "copy_loop n src dst got u = copy_loop k src dst got u"
      using Suc.prems(3,4) n' by (intro Suc.IH [OF same Suc.prems(2)]) auto
    then show ?thesis
      by (simp add: n' io_bind_def io_try_def read Inl io_apply_simps)
  next
    case (Inr c)
    have c: "c = take copy_chunk_bytes (drop got b)"
      using read_at_Inr Suc.prems(1) u(2) Inr by metis
    obtain r2 w where app: "fs_append dst c u = (r2, w)" by (cases "fs_append dst c u")
    have "look src (fs_nodes w) = Some (FileNode b)"
      using same fs_append_other [OF app] Suc.prems(2) by (simp add: look_def split: if_splits)
    moreover have "length (fs_faults w) \<le> length (fs_faults s)"
      using fs_call_faults [OF app [unfolded fs_append_def]] u(1) by simp
    moreover have "length b - (got + length c) < length b - got" if "c \<noteq> []"
      using that c by auto
    ultimately have "copy_loop n src dst (got + length c) w = copy_loop k src dst (got + length c) w"
      if "c \<noteq> []"
      using that Suc.prems(2,3,4) n' by (intro Suc.IH) auto
    then show ?thesis
      by (simp add: n' io_bind_def io_try_def read Inr app io_apply_simps split: sum.split)
  qed
qed

text \<open>
  The copy of a blob ends: with more turns than the size of the source and the number
  of interrupted calls ahead, the result does not depend on the bound, so the bound of the
  model never decides it.
\<close>

theorem copy_bound_enough:
  assumes "look src (fs_nodes s) = Some (FileNode b)" and "fs_key src \<noteq> fs_key dst"
    and "length (fs_faults s) + length b < n" and "length (fs_faults s) + length b < n'"
  shows "copy_chunked n src dst s = copy_chunked n' src dst s"
proof -
  have step: "copy_loop n src dst 0 v = copy_loop n' src dst 0 v"
    if "fs_open src s = (Inr (), u)" "fs_create dst u = (Inr (), v)" for u v
  proof (rule copy_loop_bound)
    have u: "u = s\<lparr>fs_faults := tl (fs_faults s)\<rparr>"
      using that(1) by (auto simp: fs_open_def fs_metadata_def io_bind_def fs_call_reads io_apply_simps
          split: sum.splits)
    have "fs_nodes v k = fs_nodes u k" if "k \<noteq> fs_key dst" for k
      using that \<open>fs_create dst u = _\<close>
      by (auto simp: fs_create_def fs_write_def fs_call_def call_write_def io_err_def Let_def
          split: option.splits if_splits io_fault.splits prod.splits)
    then show "look src (fs_nodes v) = Some (FileNode b)"
      using assms(1,2) u by (simp add: look_def split: if_splits)
    have "length (fs_faults v) \<le> length (fs_faults s)"
      using fs_call_faults [OF that(2) [unfolded fs_create_def fs_write_def]] u by simp
    then show "length (fs_faults v) + (length b - 0) < n" "length (fs_faults v) + (length b - 0) < n'"
      using assms(3,4) by auto
    show "fs_key src \<noteq> fs_key dst" by (rule assms(2))
  qed
  show ?thesis
    unfolding copy_chunked_def io_bind_def
    by (auto split: prod.split sum.split simp: step)
qed

end
