(* ===== verification/Registry_Commit.thy ===== *)
theory Registry_Commit
  imports Registry_Sink Http_Commit
begin

text \<open>
  What \<open>publish_registry\<close> promises: the tag is put last and only when every other blob and
  manifest is confirmed to be in the registry ("commit point"), the outcome accounts for
  every digest, and requests and delays are bounded. All of it holds for any registry and any
  faults.
\<close>

section \<open>The exchanges for one digest\<close>

definition source_body :: "image_dir \<Rightarrow> nodes \<Rightarrow> string \<Rightarrow> io_error + bytes \<Rightarrow> bool" where
  "source_body im m d body \<longleftrightarrow>
     (\<forall>b. body = Inr b \<longrightarrow> m (blob_file (fs_key (im_root im)) d) = Some (FileNode b))"

definition blob_request :: "wire_context \<Rightarrow> nodes \<Rightarrow> image_dir \<Rightarrow> string \<Rightarrow> http_request \<Rightarrow> bool" where
  "blob_request w m im d q \<longleftrightarrow>
     q = head_request (blob_url w d) (wc_auth w) \<or> q = init_request (uploads_url w) (wc_auth w) \<or>
     (\<exists>l body. q = put_blob_request (blob_put_url l d) (wc_auth w) (source_size im m d) body \<and>
        source_body im m d body)"

definition manifest_request ::
  "wire_context \<Rightarrow> nodes \<Rightarrow> image_dir \<Rightarrow> string \<Rightarrow> string \<Rightarrow> http_request \<Rightarrow> bool" where
  "manifest_request w m im d target q \<longleftrightarrow>
     (d = target \<and> q = head_manifest_request (manifest_url w d) (wc_auth w)) \<or>
     (\<exists>b. q = put_manifest_request (manifest_url w target) (wc_auth w) b \<and> source_body im m d (Inr b))"

text \<open>An exchange after which the registry has said that it has the digest.\<close>

definition confirms_blob :: "wire_context \<Rightarrow> nodes \<Rightarrow> image_dir \<Rightarrow> string \<Rightarrow> exchange \<Rightarrow> bool" where
  "confirms_blob w m im d x \<longleftrightarrow> (\<exists>resp. snd x = Inr resp \<and>
     (fst x = head_request (blob_url w d) (wc_auth w) \<and> rs_status resp = 200 \<or>
      (\<exists>l body. fst x = put_blob_request (blob_put_url l d) (wc_auth w) (source_size im m d) body \<and>
         source_body im m d body \<and> (rs_status resp = 201 \<or> rs_status resp = 200))))"

definition confirms_manifest ::
  "wire_context \<Rightarrow> nodes \<Rightarrow> image_dir \<Rightarrow> string \<Rightarrow> string \<Rightarrow> exchange \<Rightarrow> bool" where
  "confirms_manifest w m im d target x \<longleftrightarrow> (\<exists>resp. snd x = Inr resp \<and>
     (d = target \<and> fst x = head_manifest_request (manifest_url w d) (wc_auth w) \<and> rs_status resp = 200 \<or>
      (\<exists>b. fst x = put_manifest_request (manifest_url w target) (wc_auth w) b \<and>
         source_body im m d (Inr b) \<and> (rs_status resp = 201 \<or> rs_status resp = 200))))"

definition pushed_one ::
  "nodes \<Rightarrow> image_dir \<Rightarrow> string \<Rightarrow> publish_outcome \<Rightarrow> publish_outcome \<Rightarrow> bool" where
  "pushed_one m im d b b' \<longleftrightarrow> b' = add_skipped d b \<or> b' = add_pushed d (source_size im m d) b"

text \<open>At most \<open>k\<close> loops over attempts, with the result they justify.\<close>

definition step_run ::
  "nat \<Rightarrow> (http_request \<Rightarrow> bool) \<Rightarrow> (exchange \<Rightarrow> bool) \<Rightarrow> nodes \<Rightarrow> image_dir \<Rightarrow> string \<Rightarrow>
   publish_outcome \<Rightarrow> exchange list \<Rightarrow> nat list \<Rightarrow> publish_error + publish_outcome \<Rightarrow> bool" where
  "step_run k allowed confirm m im d b xs ms r \<longleftrightarrow>
     length xs \<le> 4 * k \<and> sum_list ms \<le> 1400 * k \<and> (\<forall>x \<in> set xs. allowed (fst x)) \<and>
     (\<forall>e. r = Inl e \<longrightarrow> no_panic e) \<and>
     (\<forall>b'. r = Inr b' \<longrightarrow> pushed_one m im d b b' \<and> (\<exists>x \<in> set xs. confirm x))"

text \<open>The result of a loop over attempts of a function that ends in a value.\<close>

definition asked ::
  "(http_request \<Rightarrow> bool) \<Rightarrow> (http_request \<Rightarrow> http_response \<Rightarrow> 'a \<Rightarrow> bool) \<Rightarrow>
   exchange list \<Rightarrow> nat list \<Rightarrow> publish_error + 'a \<Rightarrow> bool" where
  "asked allowed answer xs ms r \<longleftrightarrow>
     length xs \<le> 4 \<and> sum_list ms \<le> 1400 \<and> (\<forall>x \<in> set xs. allowed (fst x)) \<and>
     (\<forall>e. r = Inl e \<longrightarrow> no_panic e) \<and>
     (\<forall>v. r = Inr v \<longrightarrow> (\<exists>x \<in> set xs. \<exists>resp. snd x = Inr resp \<and> answer (fst x) resp v))"

lemma sends_head_blob:
  "sends m (asked (\<lambda>q. q = head_request url auth) (\<lambda>q resp v. rs_status resp = v))
     (head_blob hl url auth d)"
  unfolding head_blob_def attempts_eq
  by (rule sends_bind [OF head_loop.loop])
    (auto simp: asked_def head_end_def intro!: sends_lift split: sum.splits option.splits)

lemma sends_head_manifest:
  "sends m (asked (\<lambda>q. q = head_manifest_request url auth) (\<lambda>q resp v. rs_status resp = v))
     (head_manifest hl url auth d)"
  unfolding head_manifest_def attempts_eq
  by (rule sends_bind [OF head_loop.loop])
    (auto simp: asked_def head_end_def intro!: sends_lift split: sum.splits option.splits)

lemma sends_init:
  "sends m (asked (\<lambda>q. q = init_request url auth)
       (\<lambda>q resp l. (rs_status resp = 202 \<or> rs_status resp = 201) \<and> location_of hl url d resp = Inr l))
     (init_blob_upload hl url auth d)"
  unfolding init_blob_upload_def attempts_eq
  by (rule sends_bind [OF init_loop.loop])
    (auto simp: asked_def loop_end_def intro!: sends_lift split: sum.splits)

lemma sends_put_manifest:
  "sends m (asked (\<lambda>q. q = put_manifest_request url auth bs)
       (\<lambda>q resp v. v = length bs \<and> (rs_status resp = 201 \<or> rs_status resp = 200)))
     (put_manifest hl url auth bs)"
  unfolding put_manifest_def attempts_eq
  by (rule sends_bind [OF put_manifest_loop.loop])
    (auto simp: asked_def loop_end_def intro!: sends_lift split: sum.splits)

lemma sends_put_blob:
  assumes "look p m = Some n"
  shows "sends m (asked (\<lambda>q. \<exists>body. q = put_blob_request (blob_put_url l d) auth (node_size n) body \<and>
         blob_body m p body)
       (\<lambda>q resp v. v = node_size n \<and> (rs_status resp = 201 \<or> rs_status resp = 200)))
     (put_blob_monolithic hl l auth p d)"
proof -
  have meta: "silent m (\<lambda>r. (\<forall>e. r = Inl e \<longrightarrow> no_panic e) \<and> (\<forall>x. r = Inr x \<longrightarrow> x = n))
      (io_map_err (blob_io_error d) (fs_metadata p))"
    by (rule silent_map_err, rule silent_conseq [OF silent_metadata])
      (use assms in \<open>auto simp: map_err_def blob_io_error_def split: sum.splits\<close>)
  show ?thesis
    unfolding put_blob_monolithic_def attempts_eq Let_def
    by (rule sends_silent_bind [OF meta], force simp: asked_def, simp only: sum.inject simp_thms,
        rule sends_bind [OF put_blob_loop.loop])
      (auto simp: asked_def loop_end_def intro!: sends_lift split: sum.splits)
qed

section \<open>One digest\<close>

lemma ready_source:
  assumes "image_ready im m" and "d \<in> set (digests_of im)"
  obtains p b where "blob_path im d = Inr p" "look p m = Some (FileNode b)"
    "m (blob_file (fs_key (im_root im)) d) = Some (FileNode b)" "source_size im m d = length b"
    "\<And>body. blob_body m p body \<longleftrightarrow> source_body im m d body"
proof -
  from assms(2) obtain x where x: "x \<in> set (im_referenced im)" "d = pd_digest x"
    by (auto simp: digests_of_def)
  obtain hex b p where p: "blob_path im d = Inr p" "p \<noteq> []" "fs_key p = blob_file (fs_key (im_root im)) d"
    "m (blob_file (fs_key (im_root im)) d) = Some (FileNode b)"
    unfolding x(2) by (rule image_readyE [OF assms(1) x(1)])
  then show ?thesis
    by (intro that [of p b]) (auto simp: look_def source_size_def blob_body_def source_body_def)
qed

lemma step_run_skip:
  assumes "asked A (\<lambda>q resp v. rs_status resp = v) xs ms (Inr 200)" and "1 \<le> k"
    and "\<And>q. A q \<Longrightarrow> allowed q" and "\<And>q resp. A q \<Longrightarrow> rs_status resp = 200 \<Longrightarrow> confirm (q, Inr resp)"
  shows "step_run k allowed confirm m im d b xs ms (Inr (add_skipped d b))"
proof -
  from assms(1) obtain x resp where x: "x \<in> set xs" "snd x = Inr resp" "rs_status resp = 200"
    by (auto simp: asked_def)
  then have "confirm (fst x, Inr resp)" using assms(1) by (intro assms(4)) (auto simp: asked_def)
  moreover have "x = (fst x, Inr resp)" using x(2) by (cases x) simp
  ultimately have "confirm x" by simp
  then show ?thesis
    using assms(1-3) x(1) by (auto simp: step_run_def asked_def pushed_one_def)
qed

lemma sends_push_blob:
  assumes "image_ready im m" and "d \<in> set (digests_of im)"
  shows "sends m (step_run 3 (blob_request w m im d) (confirms_blob w m im d) m im d b)
    (push_blob_with_skip hl w im d b)"
  unfolding push_blob_with_skip_def
proof (rule sends_bind [OF sends_head_blob])
  fix xs ms v
  let ?h = "\<lambda>q. q = head_request (blob_url w d) (wc_auth w)"
  assume head: "asked ?h (\<lambda>q resp v. rs_status resp = v) xs ms (Inr v)"
  obtain p bs where p: "blob_path im d = Inr p" "look p m = Some (FileNode bs)"
    "source_size im m d = length bs" "\<And>body. blob_body m p body \<longleftrightarrow> source_body im m d body"
    by (rule ready_source [OF assms]) (rule that)
  let ?Q = "\<lambda>ys ns. step_run 3 (blob_request w m im d) (confirms_blob w m im d) m im d b (xs @ ys) (ms @ ns)"
  have put: "sends m (\<lambda>zs ks. ?Q (ys @ zs) (ns @ ks))
      (io_bind (put_blob_monolithic hl l (wc_auth w) p d) (\<lambda>n. io_return (add_pushed d n b)))"
    if ys: "asked (\<lambda>q. q = init_request (uploads_url w) (wc_auth w)) P ys ns (Inr l)" for ys ns l P
  proof (rule sends_bind [OF sends_put_blob [OF p(2)]])
    fix zs ks n
    let ?put = "\<lambda>q. \<exists>body. q = put_blob_request (blob_put_url l d) (wc_auth w) (node_size (FileNode bs)) body \<and>
        blob_body m p body"
    assume zs: "asked ?put (\<lambda>q resp v. v = node_size (FileNode bs) \<and> (rs_status resp = 201 \<or> rs_status resp = 200))
        zs ks (Inr n)"
    then have n: "n = source_size im m d" by (auto simp: asked_def node_size_def p(3))
    have "?put q \<Longrightarrow> blob_request w m im d q" for q
      by (auto simp: blob_request_def node_size_def p(3,4))
    with zs have "\<forall>x \<in> set zs. blob_request w m im d (fst x)" by (auto simp: asked_def)
    moreover have "\<forall>x \<in> set xs. blob_request w m im d (fst x)" "\<forall>x \<in> set ys. blob_request w m im d (fst x)"
      using head ys by (auto simp: asked_def blob_request_def)
    ultimately have ok: "\<forall>x \<in> set (xs @ ys @ zs). blob_request w m im d (fst x)" by auto
    from zs obtain x resp where x: "x \<in> set zs" "snd x = Inr resp"
      "rs_status resp = 201 \<or> rs_status resp = 200" by (auto simp: asked_def)
    then have "?put (fst x)" using zs by (auto simp: asked_def)
    with x have "confirms_blob w m im d x"
      by (auto simp: confirms_blob_def node_size_def p(3,4))
    with x(1) have "\<exists>x \<in> set (xs @ ys @ zs). confirms_blob w m im d x" by auto
    then show "sends m (\<lambda>es js. ?Q (ys @ zs @ es) (ns @ ks @ js)) (io_return (add_pushed d n b))"
      using head ys zs ok by (intro sends_return) (auto simp: step_run_def asked_def pushed_one_def n)
  next
    fix zs ks e
    assume zs: "asked (\<lambda>q. \<exists>body. q = put_blob_request (blob_put_url l d) (wc_auth w) (node_size (FileNode bs)) body \<and>
        blob_body m p body) (\<lambda>q resp v. v = node_size (FileNode bs) \<and> (rs_status resp = 201 \<or> rs_status resp = 200))
        zs ks (Inl e)"
    show "?Q (ys @ zs) (ns @ ks) (Inl e)"
      using head ys zs by (auto simp: step_run_def asked_def blob_request_def node_size_def p(3,4))
  qed
  show "sends m ?Q (if v = 200 then io_return (add_skipped d b)
      else if v \<noteq> 404 then io_fail (RegistryRefused v
         [Txt ''HEAD blob '', Txt d, Txt '': unexpected status '', Txt (dec_of_nat v),
          Txt '' (expected 200 or 404)''])
      else io_bind (init_blob_upload hl (uploads_url w) (wc_auth w) d) (\<lambda>l.
        io_bind (io_lift (map_err publish_error_of (blob_path im d))) (\<lambda>p.
        io_bind (put_blob_monolithic hl l (wc_auth w) p d) (\<lambda>n. io_return (add_pushed d n b)))))"
  proof (intro sends_if)
    assume "v = 200"
    with head show "sends m ?Q (io_return (add_skipped d b))"
      by (intro sends_return) (auto intro!: step_run_skip simp: blob_request_def confirms_blob_def)
  next
    show "sends m ?Q (io_fail (RegistryRefused v
         [Txt ''HEAD blob '', Txt d, Txt '': unexpected status '', Txt (dec_of_nat v),
          Txt '' (expected 200 or 404)'']))"
      using head by (intro sends_fail) (auto simp: step_run_def asked_def blob_request_def)
  next
    show "sends m ?Q (io_bind (init_blob_upload hl (uploads_url w) (wc_auth w) d) (\<lambda>l.
        io_bind (io_lift (map_err publish_error_of (blob_path im d))) (\<lambda>p.
        io_bind (put_blob_monolithic hl l (wc_auth w) p d) (\<lambda>n. io_return (add_pushed d n b)))))"
      unfolding p(1) map_err_simps io_bind_simps
    proof (rule sends_bind [OF sends_init], goal_cases)
      case (1 ys ns e)
      with head show ?case by (auto simp: step_run_def asked_def blob_request_def)
    next
      case (2 ys ns l)
      show ?case by (rule put [OF 2])
    qed
  qed
qed (auto simp: step_run_def asked_def blob_request_def)

lemma sends_upload_manifest:
  assumes "image_ready im m" and "d \<in> set (digests_of im)"
    and "length xs \<le> 4" "sum_list ms \<le> 1400" "\<forall>x \<in> set xs. manifest_request w m im d target (fst x)"
  shows "sends m (\<lambda>ys ns. step_run 2 (manifest_request w m im d target)
      (confirms_manifest w m im d target) m im d b (xs @ ys) (ms @ ns))
    (upload_manifest hl w im d target b)"
proof -
  obtain p bs where p: "blob_path im d = Inr p" "look p m = Some (FileNode bs)"
    "m (blob_file (fs_key (im_root im)) d) = Some (FileNode bs)" "source_size im m d = length bs"
    by (rule ready_source [OF assms(1,2)]) (rule that)
  have read: "silent m (\<lambda>r. (\<forall>e. r = Inl e \<longrightarrow> no_panic e) \<and> (\<forall>x. r = Inr x \<longrightarrow> x = bs))
      (io_map_err (\<lambda>source. ManifestUpload (SrcIo source)) (fs_read p))"
    by (rule silent_map_err, rule silent_conseq [OF silent_read])
      (use p(2) in \<open>auto simp: map_err_def split: sum.splits\<close>)
  have body: "source_body im m d (Inr bs)" by (simp add: source_body_def p(3))
  show ?thesis
    unfolding upload_manifest_def p(1) map_err_simps io_bind_simps
  proof (rule sends_silent_bind [OF read], goal_cases)
    case (1 e)
    then show ?case using assms(3-5) by (auto simp: step_run_def)
  next
    case (2 x)
    then have x: "x = bs" by simp
    show ?case
      unfolding x
    proof (rule sends_bind [OF sends_put_manifest], goal_cases)
      case (1 ys ns e)
      then show ?case using assms(3-5) body by (auto simp: step_run_def asked_def manifest_request_def)
    next
      case (2 ys ns n)
      then have n: "n = source_size im m d" by (auto simp: asked_def p(4))
      from 2 obtain x resp where x: "x \<in> set ys" "snd x = Inr resp"
        "rs_status resp = 201 \<or> rs_status resp = 200" by (auto simp: asked_def)
      then have "fst x = put_manifest_request (manifest_url w target) (wc_auth w) bs"
        using 2 by (auto simp: asked_def)
      with x body have "confirms_manifest w m im d target x" by (auto simp: confirms_manifest_def)
      with x(1) have "\<exists>x \<in> set (xs @ ys). confirms_manifest w m im d target x" by auto
      then show ?case
        using 2 assms(3-5) body
        by (intro sends_return) (auto simp: step_run_def asked_def manifest_request_def pushed_one_def n)
    qed
  qed
qed

lemma sends_push_manifest:
  assumes "image_ready im m" and "d \<in> set (digests_of im)"
  shows "sends m (step_run 2 (manifest_request w m im d target) (confirms_manifest w m im d target) m im d b)
    (push_manifest_with_skip hl w im d target b)"
proof (cases "d = target")
  case False
  then show ?thesis
    using sends_upload_manifest [OF assms, of "[]" "[]"] by (simp add: push_manifest_with_skip_def)
next
  case True
  show ?thesis
    unfolding push_manifest_with_skip_def Let_def if_P [OF True]
  proof (rule sends_bind [OF sends_head_manifest], goal_cases)
    case (1 xs ms e)
    then show ?case using True by (auto simp: step_run_def asked_def manifest_request_def)
  next
    case (2 xs ms v)
    show ?case
    proof (rule sends_if)
      assume "v = 200"
      with 2 True show "sends m (\<lambda>ys ns. step_run 2 (manifest_request w m im d target)
          (confirms_manifest w m im d target) m im d b (xs @ ys) (ms @ ns)) (io_return (add_skipped d b))"
        by (intro sends_return)
          (auto intro!: step_run_skip [of "\<lambda>q. q = head_manifest_request (manifest_url w d) (wc_auth w)"]
            simp: manifest_request_def confirms_manifest_def)
    qed (rule sends_upload_manifest [OF assms], use 2 True in \<open>auto simp: asked_def manifest_request_def\<close>)
  qed
qed

section \<open>The whole push\<close>

definition loop_run ::
  "nat \<Rightarrow> (string \<Rightarrow> http_request \<Rightarrow> bool) \<Rightarrow> (string \<Rightarrow> exchange \<Rightarrow> bool) \<Rightarrow> nodes \<Rightarrow> image_dir \<Rightarrow>
   string list \<Rightarrow> publish_outcome \<Rightarrow> exchange list \<Rightarrow> nat list \<Rightarrow> publish_error + publish_outcome \<Rightarrow> bool"
where
  "loop_run k allowed confirm m im ds b xs ms r \<longleftrightarrow>
     length xs \<le> 4 * k * length ds \<and> sum_list ms \<le> 1400 * k * length ds \<and>
     (\<forall>x \<in> set xs. \<exists>d \<in> set ds. allowed d (fst x)) \<and>
     (\<forall>e. r = Inl e \<longrightarrow> no_panic e) \<and>
     (\<forall>b'. r = Inr b' \<longrightarrow> (\<forall>d \<in> set ds. \<exists>x \<in> set xs. confirm d x) \<and>
        (\<forall>ds0. accounts im m ds0 b \<longrightarrow> accounts im m (ds0 @ ds) b'))"

lemma accounts_pushed_one:
  "accounts im m ds b \<Longrightarrow> pushed_one m im d b b' \<Longrightarrow> accounts im m (ds @ [d]) b'"
  by (auto simp: pushed_one_def intro: accounts_step)

lemma sends_push_loop:
  assumes "\<And>x b. x \<in> set xs \<Longrightarrow> P x \<Longrightarrow>
      sends m (step_run k (allowed (pd_digest x)) (confirm (pd_digest x)) m im (pd_digest x) b) (f x b)"
    and "\<And>x b. x \<in> set xs \<Longrightarrow> \<not> P x \<Longrightarrow> f x b = io_return b"
  shows "sends m (loop_run k allowed confirm m im (map pd_digest (filter P xs)) b) (io_fold f xs b)"
  using assms
proof (induction xs arbitrary: b)
  case Nil
  then show ?case by (auto intro!: sends_return simp: loop_run_def)
next
  case (Cons x xs)
  have IH: "sends m (loop_run k allowed confirm m im (map pd_digest (filter P xs)) b) (io_fold f xs b)" for b
    by (rule Cons.IH) (use Cons.prems in auto)
  show ?case
  proof (cases "P x")
    case False
    then show ?thesis using IH Cons.prems(2) [of x b] by simp
  next
    case True
    show ?thesis
      unfolding io_fold.simps
    proof (rule sends_bind [OF Cons.prems(1) [OF _ True]])
      fix ys ns b'
      assume step: "step_run k (allowed (pd_digest x)) (confirm (pd_digest x)) m im (pd_digest x) b ys ns (Inr b')"
      let ?ds = "map pd_digest (filter P xs)"
      show "sends m (\<lambda>zs ks. loop_run k allowed confirm m im (map pd_digest (filter P (x # xs))) b
          (ys @ zs) (ns @ ks)) (io_fold f xs b')"
      proof (rule sends_conseq [OF IH])
        fix zs ks r
        assume loop: "loop_run k allowed confirm m im ?ds b' zs ks r"
        have "accounts im m (ds0 @ pd_digest x # ?ds) c"
          if "r = Inr c" "accounts im m ds0 b" for c ds0
        proof -
          have "accounts im m (ds0 @ [pd_digest x]) b'"
            using step that(2) by (auto simp: step_run_def intro: accounts_pushed_one)
          with loop that(1) have "accounts im m ((ds0 @ [pd_digest x]) @ ?ds) c"
            unfolding loop_run_def by blast
          then show ?thesis by simp
        qed
        then show "loop_run k allowed confirm m im (map pd_digest (filter P (x # xs))) b (ys @ zs) (ns @ ks) r"
          using step loop True by (auto simp: loop_run_def step_run_def bex_Un)
      qed
    qed (use True in \<open>auto simp: step_run_def loop_run_def\<close>)
  qed
qed

definition referrer_digests :: "image_dir \<Rightarrow> string list" where
  "referrer_digests im = map pd_digest (id_referrers (im_descriptor im))"

definition primary_digest :: "image_dir \<Rightarrow> string" where
  "primary_digest im = id_primary_digest (im_descriptor im)"

definition is_plain_blob :: "image_dir \<Rightarrow> pub_descriptor \<Rightarrow> bool" where
  "is_plain_blob im d \<longleftrightarrow> pd_digest d \<noteq> primary_digest im \<and> pd_digest d \<notin> set (referrer_digests im)"

definition blob_digests :: "image_dir \<Rightarrow> string list" where
  "blob_digests im = map pd_digest (filter (is_plain_blob im) (im_referenced im))"

definition before_commit :: "wire_context \<Rightarrow> nodes \<Rightarrow> image_dir \<Rightarrow> http_request \<Rightarrow> bool" where
  "before_commit w m im q \<longleftrightarrow>
     (\<exists>d \<in> set (blob_digests im). blob_request w m im d q) \<or>
     (\<exists>d \<in> set (referrer_digests im). manifest_request w m im d d q)"

definition all_confirmed :: "wire_context \<Rightarrow> nodes \<Rightarrow> image_dir \<Rightarrow> exchange list \<Rightarrow> bool" where
  "all_confirmed w m im xs \<longleftrightarrow>
     (\<forall>d \<in> set (blob_digests im). \<exists>x \<in> set xs. confirms_blob w m im d x) \<and>
     (\<forall>d \<in> set (referrer_digests im). \<exists>x \<in> set xs. confirms_manifest w m im d d x)"

text \<open>The exchanges before the commit, those of the commit, and what they justify.\<close>

definition push_run ::
  "wire_context \<Rightarrow> nodes \<Rightarrow> image_dir \<Rightarrow> string \<Rightarrow> exchange list \<Rightarrow> exchange list \<Rightarrow> nat list \<Rightarrow>
   publish_error + publish_outcome \<Rightarrow> bool" where
  "push_run w m im tag pre post ms r \<longleftrightarrow>
     (\<forall>x \<in> set pre. before_commit w m im (fst x)) \<and>
     (\<forall>x \<in> set post. manifest_request w m im (primary_digest im) tag (fst x)) \<and>
     (post \<noteq> [] \<longrightarrow> all_confirmed w m im pre) \<and>
     length (pre @ post) \<le> 12 * length (blob_digests im) + 8 * length (referrer_digests im) + 8 \<and>
     sum_list ms \<le> 4200 * length (blob_digests im) + 2800 * length (referrer_digests im) + 2800 \<and>
     (\<forall>e. r = Inl e \<longrightarrow> no_panic e) \<and>
     (\<forall>out. r = Inr out \<longrightarrow>
        accounts im m (blob_digests im @ referrer_digests im @ [primary_digest im]) out \<and>
        (\<exists>x \<in> set post. confirms_manifest w m im (primary_digest im) tag x))"

lemma sends_push_image:
  assumes ready: "image_ready im m" and primary: "primary_digest im \<in> set (digests_of im)"
    and refs: "set (referrer_digests im) \<subseteq> set (digests_of im)"
  shows "sends m (\<lambda>xs ms r. \<exists>pre post. xs = pre @ post \<and> push_run w m im tag pre post ms r)
    (push_image hl w im tag)"
proof -
  let ?pre = "\<lambda>es. (\<forall>x \<in> set es. before_commit w m im (fst x))"
  have blobs: "sends m (loop_run 3 (blob_request w m im) (confirms_blob w m im) m im (blob_digests im) b)
      (io_fold (push_blob_step hl w im) (im_referenced im) b)" for b
    unfolding blob_digests_def
  proof (rule sends_push_loop)
    fix d b
    assume d: "d \<in> set (im_referenced im)"
    have ifs: "is_plain_blob im d \<Longrightarrow> push_blob_step hl w im d b = push_blob_with_skip hl w im (pd_digest d) b"
      "\<not> is_plain_blob im d \<Longrightarrow> push_blob_step hl w im d b = io_return b"
      by (auto simp: push_blob_step_def is_plain_blob_def primary_digest_def referrer_digests_def)
    then show "\<not> is_plain_blob im d \<Longrightarrow> push_blob_step hl w im d b = io_return b" by blast
    assume plain: "is_plain_blob im d"
    have "pd_digest d \<in> set (digests_of im)" using d by (simp add: digests_of_def)
    then show "sends m (step_run 3 (blob_request w m im (pd_digest d)) (confirms_blob w m im (pd_digest d)) m im
        (pd_digest d) b) (push_blob_step hl w im d b)"
      unfolding ifs(1) [OF plain] by (rule sends_push_blob [OF ready])
  qed
  have referrers: "sends m (loop_run 2 (\<lambda>d. manifest_request w m im d d) (\<lambda>d. confirms_manifest w m im d d)
        m im (referrer_digests im) b)
      (io_fold (push_referrer_step hl w im) (id_referrers (im_descriptor im)) b)" for b
  proof -
    have "sends m (loop_run 2 (\<lambda>d. manifest_request w m im d d) (\<lambda>d. confirms_manifest w m im d d)
        m im (map pd_digest (filter (\<lambda>_. True) (id_referrers (im_descriptor im)))) b)
      (io_fold (push_referrer_step hl w im) (id_referrers (im_descriptor im)) b)"
    proof (rule sends_push_loop)
      fix d b
      assume "d \<in> set (id_referrers (im_descriptor im))"
      then have "pd_digest d \<in> set (digests_of im)" using refs by (auto simp: referrer_digests_def)
      then show "sends m (step_run 2 (manifest_request w m im (pd_digest d) (pd_digest d))
          (confirms_manifest w m im (pd_digest d) (pd_digest d)) m im (pd_digest d) b)
          (push_referrer_step hl w im d b)"
        unfolding push_referrer_step_def by (rule sends_push_manifest [OF ready])
    qed simp
    then show ?thesis by (simp add: referrer_digests_def)
  qed
  show ?thesis
    unfolding push_image_def primary_digest_def [symmetric]
  proof (rule sends_bind [OF blobs], goal_cases)
    case (1 xs ms e)
    then show ?case
      by (intro exI [of _ xs] exI [of _ "[]"])
        (auto simp: push_run_def loop_run_def before_commit_def)
  next
    case b: (2 xs ms o1)
    show ?case
    proof (rule sends_bind [OF referrers], goal_cases)
      case (1 ys ns e)
      with b show ?case
        by (intro exI [of _ "xs @ ys"] exI [of _ "[]"])
          (auto simp: push_run_def loop_run_def before_commit_def)
    next
      case r: (2 ys ns o2)
      have pre: "?pre (xs @ ys)" using b r by (auto simp: loop_run_def before_commit_def)
      have conf: "all_confirmed w m im (xs @ ys)" using b r by (auto simp: loop_run_def all_confirmed_def)
      have "accounts im m [] empty_outcome" by (simp add: accounts_def)
      with b have "accounts im m (blob_digests im) o1" by (force simp: loop_run_def)
      with r have acc: "accounts im m (blob_digests im @ referrer_digests im) o2" by (simp add: loop_run_def)
      show ?case
      proof (rule sends_conseq [OF sends_push_manifest [OF ready primary]])
        fix zs ks and q :: "publish_error + publish_outcome"
        assume z: "step_run 2 (manifest_request w m im (primary_digest im) tag)
          (confirms_manifest w m im (primary_digest im) tag) m im (primary_digest im) o2 zs ks q"
        have "accounts im m ((blob_digests im @ referrer_digests im) @ [primary_digest im]) out" if "q = Inr out" for out
          using z that by (intro accounts_pushed_one [OF acc]) (simp add: step_run_def)
        with z b r pre conf have "push_run w m im tag (xs @ ys) zs (ms @ ns @ ks) q"
          by (auto simp: push_run_def step_run_def loop_run_def)
        then show "\<exists>pre post. xs @ ys @ zs = pre @ post \<and> push_run w m im tag pre post (ms @ ns @ ks) q"
          by (intro exI [of _ "xs @ ys"] exI [of _ zs]) simp
      qed
    qed
  qed
qed

lemma open_digests:
  assumes "open_image_dir cod root s = (Inr im, t)"
  shows "primary_digest im \<in> set (digests_of im)" "set (referrer_digests im) \<subseteq> set (digests_of im)"
    "set (blob_digests im @ referrer_digests im @ [primary_digest im]) = set (digests_of im)"
    "distinct (blob_digests im)"
proof -
  have "still (fs_nodes s) (fs_seen s) s" by (simp add: still_def)
  from triple_InrD [OF triple_open this assms] obtain p rs where im: "im = image_of root p rs" by blast
  have all: "set (digests_of im) = pd_digest ` set (walk_order p rs)"
    using referenced_of_props(2) [of p rs] by (simp add: im image_of_def digests_of_def)
  show p: "primary_digest im \<in> set (digests_of im)"
    unfolding all by (simp add: im image_of_def primary_digest_def walk_order_def)
  show r: "set (referrer_digests im) \<subseteq> set (digests_of im)"
    unfolding all by (auto simp: im image_of_def referrer_digests_def set_walk_order)
  show "set (blob_digests im @ referrer_digests im @ [primary_digest im]) = set (digests_of im)"
    using p r by (auto simp: blob_digests_def is_plain_blob_def digests_of_def)
  show "distinct (blob_digests im)"
    using open_ready(3) [OF assms] by (auto simp: blob_digests_def digests_of_def distinct_map intro: inj_on_subset)
qed

lemma silent_env_credentials:
  "silent m (\<lambda>r. \<forall>e. r = Inl e \<longrightarrow> no_panic e) env_credentials"
  unfolding env_credentials_def Let_def
  by (rule silent_bind [OF silent_env [where R = "\<lambda>r. \<exists>v. r = Inr v"]],
      auto split: option.split intro!: silent_return silent_fail
        silent_bind [OF silent_env [where R = "\<lambda>r. \<exists>v. r = Inr v"]])

lemma silent_resolve_auth:
  "silent m (\<lambda>r. \<forall>e. r = Inl e \<longrightarrow> no_panic e) (resolve_auth hl auth)"
proof -
  have header: "silent m (\<lambda>r. \<forall>e. r = Inl e \<longrightarrow> no_panic e)
      (io_bind (io_lift (map_err (\<lambda>source. Auth (SrcHeader source)) (hl_header_value hl v)))
        (\<lambda>hv. io_return (Some hv)))" for v
    by (cases "hl_header_value hl v") (auto intro: silent_return silent_fail)
  show ?thesis
    unfolding resolve_auth_def
    by (auto split: option.split registry_auth.split simp: header silent_return
        intro!: silent_bind [OF silent_env_credentials])
qed

definition wires :: "string \<Rightarrow> string \<Rightarrow> wire_context \<Rightarrow> bool" where
  "wires registry repository w \<longleftrightarrow> wc_repository w = repository \<and>
     (wc_base_url w = ''http://'' @ registry \<or> wc_base_url w = ''https://'' @ registry)"

definition published ::
  "nodes \<Rightarrow> image_dir \<Rightarrow> string \<Rightarrow> string \<Rightarrow> string \<Rightarrow> exchange list \<Rightarrow> nat list \<Rightarrow>
   publish_error + publish_outcome \<Rightarrow> bool" where
  "published m im registry repository tag xs ms r \<longleftrightarrow>
     (\<exists>w pre post. wires registry repository w \<and> xs = pre @ post \<and> push_run w m im tag pre post ms r)"

lemma sends_publish_registry:
  assumes "open_image_dir cod root s = (Inr im, s1)"
  shows "sends (fs_nodes s) (published (fs_nodes s) im registry repository tag)
    (publish_registry hl im registry repository tag auth)"
proof -
  note o = open_ready [OF assms(1)]
  let ?R = "published (fs_nodes s) im registry repository tag"
  have quick: "?R [] [] (Inl e)" if "no_panic e" for e
    unfolding published_def
    by (rule exI [of _ "\<lparr>wc_base_url = ''http://'' @ registry, wc_repository = repository, wc_auth = None\<rparr>"],
        rule exI [of _ "[]"], rule exI [of _ "[]"])
      (use that in \<open>simp add: wires_def push_run_def\<close>)
  show ?thesis
    unfolding publish_registry_def env_allows_insecure_def Let_def io_bind_assoc
  proof (rule sends_silent_bind [OF silent_env [where R = "\<lambda>r. \<exists>v. r = Inr v"]], blast, blast,
      unfold io_bind_simps, rule sends_lift_bind, goal_cases)
    case (1 v e)
    then show ?case by (intro quick) (auto simp: build_client_def map_err_def split: sum.splits)
  next
    case (2 v u)
    show ?case
    proof (rule sends_silent_bind [OF silent_resolve_auth], goal_cases)
      case (1 e)
      then show ?case by (intro quick) simp
    next
      case (2 hv)
      show ?case
      proof (rule sends_conseq [OF sends_push_image [OF o(1) open_digests(1,2) [OF assms(1)]]])
        let ?w = "\<lparr>wc_base_url = (if v = Some ''1'' then ''http'' else ''https'') @ ''://'' @ registry,
          wc_repository = repository, wc_auth = hv\<rparr>"
        have "wires registry repository ?w" by (simp add: wires_def)
        then show "?R xs ms q"
          if "\<exists>pre post. xs = pre @ post \<and> push_run ?w (fs_nodes s) im tag pre post ms q" for xs ms q
          using that by (auto simp: published_def)
      qed
    qed
  qed
qed

lemma publish_registry_run:
  assumes "open_image_dir cod root s = (Inr im, s1)"
    and "publish_registry hl im registry repository tag auth s1 = (r, t)"
  obtains w pre post ms where "wires registry repository w"
    "pb_sent t = pb_sent s1 @ pre @ post" "pb_slept t = pb_slept s1 @ ms"
    "push_run w (fs_nodes s) im tag pre post ms r"
proof -
  have nodes: "fs_nodes s1 = fs_nodes s" using open_ready(4) [OF assms(1)] by (simp add: still_def)
  obtain xs ms where "talks s1 t xs ms" "published (fs_nodes s) im registry repository tag xs ms r"
    by (rule sendsD [OF sends_publish_registry [OF assms(1)] nodes assms(2)])
  then show ?thesis
    unfolding published_def talks_def by (auto intro: that)
qed

section \<open>Properties\<close>

lemma put_requests_differ: "put_blob_request u a n b \<noteq> put_manifest_request v a c"
  by (simp add: put_blob_request_def put_manifest_request_def manifest_media_type_def)

lemma manifest_put_before:
  assumes "before_commit w m im (put_manifest_request (manifest_url w tag) (wc_auth w) b)"
  shows "tag \<in> set (referrer_digests im)"
proof -
  let ?q = "put_manifest_request (manifest_url w tag) (wc_auth w) b"
  have "?q \<noteq> head_request u a" "?q \<noteq> init_request u a" "?q \<noteq> head_manifest_request u a" for u a
    by (simp_all add: put_manifest_request_def head_request_def init_request_def head_manifest_request_def)
  moreover have "?q = put_manifest_request (manifest_url w d) a c \<Longrightarrow> d = tag" for d a c
    by (simp add: put_manifest_request_def manifest_url_def)
  ultimately show ?thesis
    using assms put_requests_differ unfolding before_commit_def blob_request_def manifest_request_def
    by metis
qed

text \<open>
  C7: the tag is the commit point. Whatever the registry answers and whatever faults occur,
  the requests of a publication are first those for blobs and referrers and then those for
  the primary manifest under the tag; the latter start only when the registry has confirmed
  every blob and every referrer (it answered 200 to a \<open>HEAD\<close>, or accepted an upload of the
  source's content); no manifest is put under the tag before, unless the tag is the digest of
  a referrer; and a publication succeeds only when the registry has confirmed the tag.
\<close>

theorem registry_commit_last:
  assumes "open_image_dir cod root s = (Inr im, s1)"
    and "publish_registry hl im registry repository tag auth s1 = (r, t)"
  shows "\<exists>w pre post. wires registry repository w \<and> pb_sent t = pb_sent s1 @ pre @ post \<and>
    (\<forall>x \<in> set pre. before_commit w (fs_nodes s) im (fst x)) \<and>
    (\<forall>x \<in> set post. manifest_request w (fs_nodes s) im (primary_digest im) tag (fst x)) \<and>
    (post \<noteq> [] \<longrightarrow> all_confirmed w (fs_nodes s) im pre) \<and>
    (\<forall>x \<in> set pre. \<forall>b. fst x = put_manifest_request (manifest_url w tag) (wc_auth w) b \<longrightarrow>
       tag \<in> set (referrer_digests im)) \<and>
    (\<forall>out. r = Inr out \<longrightarrow>
       (\<exists>x \<in> set post. confirms_manifest w (fs_nodes s) im (primary_digest im) tag x))"
proof -
  obtain w pre post ms where w: "wires registry repository w" "pb_sent t = pb_sent s1 @ pre @ post"
    and run: "push_run w (fs_nodes s) im tag pre post ms r"
    by (rule publish_registry_run [OF assms]) (rule that)
  then have before: "\<forall>x \<in> set pre. before_commit w (fs_nodes s) im (fst x)" by (simp add: push_run_def)
  then have "\<forall>x \<in> set pre. \<forall>b. fst x = put_manifest_request (manifest_url w tag) (wc_auth w) b \<longrightarrow>
       tag \<in> set (referrer_digests im)"
    using manifest_put_before by metis
  with w run show ?thesis
    by (intro exI [of _ w] exI [of _ pre] exI [of _ post]) (simp add: push_run_def)
qed

text \<open>
  The outcome of a successful publication to a registry accounts for every digest of the
  image: each blob, each referrer and the primary manifest is pushed or skipped exactly once,
  and the bytes uploaded are the sizes of what was pushed.
\<close>

theorem registry_outcome_accounts:
  assumes "open_image_dir cod root s = (Inr im, s1)"
    and "publish_registry hl im registry repository tag auth s1 = (Inr out, t)"
  shows "mset (digests_pushed out) + mset (digests_skipped out) =
      mset (blob_digests im @ referrer_digests im @ [primary_digest im]) \<and>
    set (digests_pushed out) \<union> set (digests_skipped out) = pd_digest ` set (im_referenced im) \<and>
    bytes_uploaded out = sum_list (map (source_size im (fs_nodes s)) (digests_pushed out))"
proof -
  obtain w pre post ms where
    run: "push_run w (fs_nodes s) im tag pre post ms (Inr out :: publish_error + publish_outcome)"
    by (rule publish_registry_run [OF assms]) (rule that)
  then have acc: "accounts im (fs_nodes s) (blob_digests im @ referrer_digests im @ [primary_digest im]) out"
    by (simp add: push_run_def)
  then have m: "mset (digests_pushed out @ digests_skipped out) =
      mset (blob_digests im @ referrer_digests im @ [primary_digest im])" by (simp add: accounts_def)
  from mset_eq_setD [OF m] open_digests(3) [OF assms(1)] acc show ?thesis
    by (simp add: accounts_def digests_of_def)
qed

text \<open>
  C27: a publication to a registry ends within bounds that depend only on the image, however
  the registry behaves: at most 12 requests for a blob and 8 for a manifest, at most 4.2 and
  2.8 seconds of delays; and no panic of the loops over attempts is ever reached.
\<close>

theorem registry_publish_bounded:
  assumes "open_image_dir cod root s = (Inr im, s1)"
    and "publish_registry hl im registry repository tag auth s1 = (r, t)"
  shows "length (pb_sent t) \<le> length (pb_sent s1) + 12 * length (blob_digests im) +
      8 * Suc (length (referrer_digests im)) \<and>
    sum_list (pb_slept t) \<le> sum_list (pb_slept s1) + 4200 * length (blob_digests im) +
      2800 * Suc (length (referrer_digests im)) \<and>
    r \<noteq> Inl (PublishPanic p)"
proof -
  obtain w pre post ms where eqs: "pb_sent t = pb_sent s1 @ pre @ post" "pb_slept t = pb_slept s1 @ ms"
    and run: "push_run w (fs_nodes s) im tag pre post ms r"
    by (rule publish_registry_run [OF assms]) (rule that)
  have "r \<noteq> Inl (PublishPanic p)"
  proof
    assume "r = Inl (PublishPanic p)"
    with run have "no_panic (PublishPanic p)" by (simp add: push_run_def)
    then show False by simp
  qed
  with run show ?thesis by (simp add: eqs push_run_def)
qed

text \<open>What a credential is to stand for on the wire.\<close>

definition basic_of :: "string \<Rightarrow> string \<Rightarrow> string \<Rightarrow> bool" where
  "basic_of user pass v \<longleftrightarrow> (\<exists>e. v = ''Basic '' @ e \<and> e = base64_encode (user @ '':'' @ pass) \<and>
     base64_decode e = Some (user @ '':'' @ pass))"

definition authorises :: "(string \<Rightarrow> string option) \<Rightarrow> registry_auth \<Rightarrow> string \<Rightarrow> bool" where
  "authorises env a v \<longleftrightarrow>
     (case a of
        Bearer token \<Rightarrow> v = ''Bearer '' @ token
      | Basic user pass \<Rightarrow> basic_of user pass v
      | FromEnv \<Rightarrow>
          (\<exists>t. env ''REGISTRY_TOKEN'' = Some t \<and> t \<noteq> [] \<and> v = ''Bearer '' @ t) \<or>
          (\<exists>u p. env ''REGISTRY_TOKEN'' = None \<and> env ''REGISTRY_USERNAME'' = Some u \<and> u \<noteq> [] \<and>
             env ''REGISTRY_PASSWORD'' = Some p \<and> p \<noteq> [] \<and> basic_of u p v))"

lemma basic_of_iff: "basic_of u p v \<longleftrightarrow> v = basic_value u p"
  by (simp add: basic_of_def basic_value_def decode_encode)

lemma env_credentials_Inr:
  "env_credentials s = (Inr v, t) \<longleftrightarrow> t = s \<and> authorises (sy_env s) FromEnv v"
proof (cases "sy_env s ''REGISTRY_TOKEN''")
  case (Some tok)
  then show ?thesis
    by (auto simp: env_credentials_def authorises_def io_bind_def env_var_def io_apply_simps env_registry_token_def)
next
  case None
  then show ?thesis
    by (cases "sy_env s ''REGISTRY_USERNAME''"; cases "sy_env s ''REGISTRY_PASSWORD''")
      (auto simp: env_credentials_def authorises_def io_bind_def env_var_def io_apply_simps basic_of_iff
        env_registry_token_def env_registry_username_def env_registry_password_def unwrap_or_default_def Let_def)
qed


text \<open>
  A token that is set to the empty string is an error even when a name and a password are set
  (\<open>api/sink.rs\<close> documents the fallback).
\<close>

lemma empty_token_is_refused:
  assumes "sy_env s ''REGISTRY_TOKEN'' = Some []"
  shows "resolve_auth hl (Some FromEnv) s = (Inl (Auth (SrcText [Txt ''REGISTRY_TOKEN'',
    Txt '' is set but empty; unset it or provide a token''])), s)"
  using assms
  by (simp add: resolve_auth_def env_credentials_def io_bind_def env_var_def io_apply_simps env_registry_token_def)

end
