(* ===== verification/Http_Liveness.thy ===== *)
theory Http_Liveness
  imports Http_Commit
begin

text \<open>
  Without faults, on a destination with nothing in its way, a publication returns. The
  statements are total: \<open>returns\<close> says that the code succeeds, and with what.
\<close>

section \<open>Calls that return\<close>

definition returns ::
  "(nodes \<Rightarrow> bool) \<Rightarrow> ('x fs_scheme, 'e, 'a) io \<Rightarrow> ('a \<Rightarrow> nodes \<Rightarrow> bool) \<Rightarrow> bool" where
  "returns P c Q \<longleftrightarrow> (\<forall>s. no_faults s \<and> P (fs_nodes s) \<longrightarrow>
     (\<exists>x t. c s = (Inr x, t) \<and> no_faults t \<and> Q x (fs_nodes t)))"

lemma returns_bind:
  fixes m :: "('x fs_scheme, 'e, 'a) io"
  assumes "returns P m R" and "\<And>x. returns (R x) (f x) Q"
  shows "returns P (io_bind m f) Q"
  unfolding returns_def
proof (intro allI impI)
  fix s :: "'x fs_scheme" assume "no_faults s \<and> P (fs_nodes s)"
  with assms(1) obtain x u where u: "m s = (Inr x, u)" "no_faults u" "R x (fs_nodes u)"
    unfolding returns_def by blast
  from assms(2) [of x] u(2,3) obtain y t where "f x u = (Inr y, t)" "no_faults t" "Q y (fs_nodes t)"
    unfolding returns_def by blast
  with u(1) show "\<exists>y t. io_bind m f s = (Inr y, t) \<and> no_faults t \<and> Q y (fs_nodes t)"
    by (simp add: io_bind_def)
qed

lemma returns_return: "(\<And>m. P m \<Longrightarrow> Q x m) \<Longrightarrow> returns P (io_return x) Q"
  by (simp add: returns_def io_apply_simps)

lemma returns_conseq:
  "returns P c Q \<Longrightarrow> (\<And>m. P' m \<Longrightarrow> P m) \<Longrightarrow> (\<And>x m. Q x m \<Longrightarrow> Q' x m) \<Longrightarrow> returns P' c Q'"
  unfolding returns_def by blast

lemma returns_map_err: "returns P c Q \<Longrightarrow> returns P (io_map_err g c) Q"
  unfolding returns_def io_map_err_def by fastforce

lemma returns_try: "returns P c (\<lambda>x. Q (Inr x)) \<Longrightarrow> returns P (io_try c) Q"
  unfolding returns_def io_try_def by fastforce

lemma returns_pre: "(P' \<Longrightarrow> returns P c Q) \<Longrightarrow> returns (\<lambda>m. P' \<and> P m) c Q"
  by (auto simp: returns_def)

lemma returns_fold:
  assumes "\<And>x b. x \<in> set xs \<Longrightarrow> returns P (f x b) (\<lambda>_. P)"
  shows "returns P (io_fold f xs b) (\<lambda>_. P)"
  using assms
proof (induction xs arbitrary: b)
  case Nil
  then show ?case by (auto intro: returns_return)
next
  case (Cons x xs)
  then show ?case by (auto intro: returns_bind)
qed

lemma returns_call:
  fixes g :: "'a syscall"
  assumes "\<And>ord m. P m \<Longrightarrow> \<exists>x ms. g ord m None = (Inr x, ms) \<and> Q x (last (m # ms))"
  shows "returns P (fs_call g :: ('x fs_scheme, io_error, 'a) io) Q"
  unfolding returns_def
proof (intro allI impI)
  fix s :: "'x fs_scheme" assume s: "no_faults s \<and> P (fs_nodes s)"
  with assms obtain x ms where "g (fs_order s) (fs_nodes s) None = (Inr x, ms)" "Q x (last (fs_nodes s # ms))"
    by blast
  with s show "\<exists>x t. fs_call g s = (Inr x, t) \<and> no_faults t \<and> Q x (fs_nodes t)"
    by (simp add: fs_call_def)
qed

lemma returns_read:
  "(\<And>m. P m \<Longrightarrow> look p m = Some (FileNode b)) \<Longrightarrow> returns P (fs_read p) (\<lambda>x m. x = b \<and> P m)"
  unfolding fs_read_def by (rule returns_call) (simp add: call_read_def)

lemma returns_open:
  "(\<And>m. P m \<Longrightarrow> look p m = Some (FileNode b)) \<Longrightarrow> returns P (fs_open p) (\<lambda>_. P)"
  unfolding fs_open_def fs_metadata_def
  by (rule returns_bind [OF returns_call [where Q = "\<lambda>_. P"]])
    (auto simp: call_metadata_def intro: returns_return)

lemma returns_exists: "returns P (fs_exists p :: ('x fs_scheme, 'e, bool) io) (\<lambda>x m. x = (look p m \<noteq> None) \<and> P m)"
  by (simp add: returns_def exists_no_fault)

lemma returns_nanos: "returns P now_nanos (\<lambda>_. P)"
  by (simp add: returns_def now_nanos_def)

lemma returns_pid: "returns P process_id (\<lambda>_. P)"
  by (simp add: returns_def process_id_def io_apply_simps)

lemma returns_write:
  assumes "p \<noteq> []" and "\<And>m. P m \<Longrightarrow> parent_is_dir (fs_key p) m"
    and "\<And>m. P m \<Longrightarrow> m (fs_key p) \<noteq> Some DirNode \<and> m (fs_key p) \<noteq> Some SpecialNode"
  shows "returns P (fs_write p bs) (\<lambda>_ m'. \<exists>m. P m \<and> m' = m(fs_key p \<mapsto> FileNode bs))"
  unfolding fs_write_def
  by (rule returns_call) (use assms in \<open>auto simp: call_write_def Let_def\<close>)

lemma returns_rename:
  assumes "p \<noteq> []" and "\<And>m. P m \<Longrightarrow> look a m = Some (FileNode b)"
    and "\<And>m. P m \<Longrightarrow> parent_is_dir (fs_key p) m" and "fs_key a \<noteq> fs_key p"
    and "\<And>m. P m \<Longrightarrow> m (fs_key p) \<noteq> Some DirNode"
  shows "returns P (fs_rename a p)
    (\<lambda>_ m'. \<exists>m. P m \<and> m' = m(fs_key a := None, fs_key p := Some (FileNode b)))"
  unfolding fs_rename_def
proof (rule returns_call)
  fix ord m assume P: "P m"
  note a = assms(2) [OF P]
  have "look p m \<noteq> Some DirNode" using assms(5) [OF P] by (simp add: look_def)
  with a assms(1,3,4) P show "\<exists>x ms. call_rename a p ord m None = (Inr x, ms) \<and>
      (\<exists>m'. P m' \<and> last (m # ms) = m'(fs_key a := None, fs_key p := Some (FileNode b)))"
    by (auto simp: call_rename_def Let_def intro!: exI [of _ m])
qed

lemma returns_append:
  assumes "p \<noteq> []" and "\<And>m. P m \<Longrightarrow> m (fs_key p) = Some (FileNode old)"
  shows "returns P (fs_append p bs) (\<lambda>_ m'. \<exists>m. P m \<and> m' = m(fs_key p \<mapsto> FileNode (old @ bs)))"
  unfolding fs_append_def
proof (rule returns_call)
  fix ord m assume P: "P m"
  then have "look p m = Some (FileNode old)" using assms by (simp add: look_def)
  with P show "\<exists>x ms. call_append p bs ord m None = (Inr x, ms) \<and>
      (\<exists>m'. P m' \<and> last (m # ms) = m'(fs_key p \<mapsto> FileNode (old @ bs)))"
    by (auto simp: call_append_def Let_def last_map)
qed

section \<open>Copying\<close>

lemma returns_copy_loop:
  assumes "look src m = Some (FileNode b)" and "fs_key src \<noteq> fs_key dst" and "dst \<noteq> []"
    and "length b - got < n" and "got \<le> length b"
  shows "returns ((=) (m(fs_key dst \<mapsto> FileNode (take got b)))) (copy_loop n src dst got :: ('x fs_scheme, io_error, nat) io)
    (\<lambda>x m'. m' = m(fs_key dst \<mapsto> FileNode b))"
  using assms(4,5)
proof (induction n arbitrary: got)
  case 0
  then show ?case by simp
next
  case (Suc n)
  let ?m = "m(fs_key dst \<mapsto> FileNode (take got b))"
  let ?c = "take copy_chunk_bytes (drop got b)"
  have src: "look src ?m = Some (FileNode b)"
    using assms(1,2) by (auto simp: look_def split: if_splits)
  have read: "returns ((=) ?m) (io_try (fs_read_at src got copy_chunk_bytes)) (\<lambda>r m'. r = Inr ?c \<and> ?m = m')"
    unfolding fs_read_at_def
    by (rule returns_try, rule returns_call) (use src in \<open>auto simp: call_read_at_def call_read_def\<close>)
  show ?case
    unfolding copy_loop.simps
  proof (rule returns_bind [OF read], rule returns_pre)
    fix r :: "io_error + bytes"
    assume r: "r = Inr ?c"
    show "returns ((=) ?m)
      (case r of
         Inr chunk \<Rightarrow> if chunk = [] then io_return got
           else io_bind (fs_append dst chunk) (\<lambda>_. copy_loop n src dst (got + length chunk))
       | Inl e \<Rightarrow> if io_error_kind_of e = Interrupted then copy_loop n src dst got
           else (io_fail e :: ('x fs_scheme, io_error, nat) io))
      (\<lambda>x m'. m' = m(fs_key dst \<mapsto> FileNode b))"
    proof (cases "?c = []")
      case True
      then have "got = length b" using Suc.prems(2) copy_chunk_pos by simp
      then show ?thesis unfolding r using True by (auto intro: returns_return)
    next
      case False
      have app: "returns ((=) ?m) (fs_append dst ?c)
          (\<lambda>_. (=) (m(fs_key dst \<mapsto> FileNode (take (got + length ?c) b))))"
        by (rule returns_conseq [OF returns_append [where P = "(=) ?m" and old = "take got b"]])
          (use assms(3) take_chunk [of got b copy_chunk_bytes] in auto)
      have "length b - (got + length ?c) < n" "got + length ?c \<le> length b"
        using False Suc.prems by auto
      then show ?thesis
        unfolding r sum.case using False Suc.IH
        by (simp only: if_False) (rule returns_bind [OF app])
    qed
  qed
qed

lemma returns_copy_chunked:
  assumes "look src m = Some (FileNode b)" and "fs_key src \<noteq> fs_key dst" and "dst \<noteq> []"
    and "length b < n" and "parent_is_dir (fs_key dst) m" and "m (fs_key dst) = None"
  shows "returns ((=) m) (copy_chunked n src dst) (\<lambda>x m'. m' = m(fs_key dst \<mapsto> FileNode b))"
proof -
  have created: "returns ((=) m) (fs_create dst) (\<lambda>_. (=) (m(fs_key dst \<mapsto> FileNode (take 0 b))))"
    unfolding fs_create_def
    by (rule returns_conseq [OF returns_write [where P = "(=) m"]]) (use assms in auto)
  have loop: "returns ((=) (m(fs_key dst \<mapsto> FileNode (take 0 b)))) (copy_loop n src dst 0)
      (\<lambda>x m'. m' = m(fs_key dst \<mapsto> FileNode b))"
    by (rule returns_copy_loop) (use assms in auto)
  have sync: "returns P fs_sync_all (\<lambda>_. P)" for P
    unfolding fs_sync_all_def by (rule returns_call) (simp add: call_sync_def)
  show ?thesis
    unfolding copy_chunked_def
    by (rule returns_bind [OF returns_open [where b = b]], use assms(1) in simp,
        rule returns_bind [OF created], rule returns_bind [OF loop], rule returns_bind [OF sync])
      (auto intro: returns_return)
qed

section \<open>Destinations with nothing in the way\<close>

definition clear_temps :: "fkey \<Rightarrow> nodes \<Rightarrow> bool" where
  "clear_temps K m \<longleftrightarrow>
     (\<forall>k \<in> temp_keys K \<union> temp_keys (K @ [''blobs'', ''sha256'']). m k = None) \<and>
     m (K @ [oci_layout_file]) \<noteq> Some DirNode \<and> m (K @ [index_json_file]) \<noteq> Some DirNode"

definition usable :: "fkey \<Rightarrow> nodes \<Rightarrow> bool" where
  "usable K m \<longleftrightarrow> K \<noteq> [] \<and> clear_temps K m \<and>
     (\<forall>k \<in> set (prefixes_of (K @ [''blobs'', ''sha256''])). m k = None \<or> m k = Some DirNode)"

definition prepared :: "fkey \<Rightarrow> nodes \<Rightarrow> bool" where
  "prepared K m \<longleftrightarrow> clear_temps K m \<and> m K = Some DirNode \<and>
     m (K @ [''blobs'', ''sha256'']) = Some DirNode"

lemma last_make_dirs:
  "last (m # make_dirs ks m) k = (if k \<in> set ks then Some DirNode else m k)"
  by (induction ks arbitrary: m) (auto simp: Let_def)

lemma prefixes_mem: "x \<noteq> [] \<Longrightarrow> x \<in> set (prefixes_of (x @ y))"
  unfolding prefixes_of_def by (auto intro!: image_eqI [of _ _ "length x"] simp: Suc_le_eq)

lemma prefixes_length: "k \<in> set (prefixes_of x) \<Longrightarrow> \<exists>y. x = k @ y"
  by (auto simp: prefixes_of_def) (metis append_take_drop_id)

lemma clear_not_prefix:
  assumes "k \<in> temp_keys K \<union> temp_keys (K @ [''blobs'', ''sha256'']) \<or>
    k = K @ [oci_layout_file] \<or> k = K @ [index_json_file]"
  shows "k \<notin> set (prefixes_of (K @ [''blobs'', ''sha256'']))"
proof
  assume "k \<in> set (prefixes_of (K @ [''blobs'', ''sha256'']))"
  then obtain y where "K @ [''blobs'', ''sha256''] = k @ y" using prefixes_length by blast
  then show False
    using assms by (auto simp: oci_layout_file_def index_json_file_def dest!: temp_key_at)
qed

lemma returns_create_dirs:
  assumes "usable K m" and "fs_key p = K @ [''blobs'', ''sha256'']" and "p \<noteq> []"
  shows "returns ((=) m) (fs_create_dir_all p)
    (\<lambda>_ m'. prepared K m' \<and> (\<forall>k. m' k \<noteq> m k \<longrightarrow> k \<in> set (prefixes_of (K @ [''blobs'', ''sha256'']))))"
  unfolding fs_create_dir_all_def
proof (rule returns_call)
  fix ord m2 assume "m = m2"
  let ?new = "filter (\<lambda>k. m2 k = None) (prefixes_of (fs_key p))"
  have fit: "\<not> list_ex (\<lambda>k. m2 k \<noteq> None \<and> m2 k \<noteq> Some DirNode) (prefixes_of (fs_key p))"
    using assms(1,2) \<open>m = m2\<close> by (auto simp: usable_def list_ex_iff)
  have dirs: "last (m2 # make_dirs ?new m2) k = Some DirNode"
    if "k \<in> set (prefixes_of (K @ [''blobs'', ''sha256'']))" for k
    using that assms(1,2) \<open>m = m2\<close> unfolding last_make_dirs by (auto simp: usable_def)
  have other: "last (m2 # make_dirs ?new m2) k = m2 k"
    if "k \<notin> set (prefixes_of (K @ [''blobs'', ''sha256'']))" for k
    using that assms(2) unfolding last_make_dirs by simp
  obtain m3 where m3: "m3 = last (m2 # make_dirs ?new m2)" by blast
  have "clear_temps K m3"
    using assms(1) \<open>m = m2\<close> clear_not_prefix other
    unfolding m3 [symmetric] usable_def clear_temps_def by metis
  moreover have "m3 K = Some DirNode" "m3 (K @ [''blobs'', ''sha256'']) = Some DirNode"
    using assms(1) dirs prefixes_mem [of K "[''blobs'', ''sha256'']"]
      prefixes_mem [of "K @ [''blobs'', ''sha256'']" "[]"]
    unfolding m3 [symmetric] by (simp_all add: usable_def)
  ultimately have "prepared K (last (m2 # make_dirs ?new m2))"
    unfolding m3 [symmetric] by (simp add: prepared_def)
  moreover have "call_create_dir_all p ord m2 None = (Inr (), make_dirs ?new m2)"
    using fit assms(3) by (simp add: call_create_dir_all_def Let_def)
  ultimately show "\<exists>x ms. call_create_dir_all p ord m2 None = (Inr x, ms) \<and>
      prepared K (last (m2 # ms)) \<and>
      (\<forall>k. last (m2 # ms) k \<noteq> m k \<longrightarrow> k \<in> set (prefixes_of (K @ [''blobs'', ''sha256''])))"
    using other \<open>m = m2\<close> by (intro exI conjI) (auto simp del: last.simps)
qed

text \<open>A temporary file in a directory, renamed over its target.\<close>

lemma returns_write_rename:
  assumes "fs_key tmp = D @ [n]" and "tmp \<noteq> []" and "fs_key p = D @ [f]" and "p \<noteq> []" and "n \<noteq> f"
    and "m D = Some DirNode" and "m (D @ [n]) = None" and "m (D @ [f]) \<noteq> Some DirNode"
  shows "returns ((=) m)
    (io_bind (io_map_err g (fs_write tmp b)) (\<lambda>_. finalize_atomic tmp p))
    (\<lambda>_ m'. m' = m(D @ [f] \<mapsto> FileNode b))"
proof -
  have w: "returns ((=) m) (fs_write tmp b) (\<lambda>_. (=) (m(D @ [n] \<mapsto> FileNode b)))"
    by (rule returns_conseq [OF returns_write [where P = "(=) m"]])
      (use assms in \<open>auto simp: parent_is_dir_def\<close>)
  have r: "returns ((=) (m(D @ [n] \<mapsto> FileNode b))) (fs_rename tmp p)
      (\<lambda>_ m'. m' = m(D @ [f] \<mapsto> FileNode b))"
  proof (rule returns_conseq [OF returns_rename [where P = "(=) (m(D @ [n] \<mapsto> FileNode b))" and b = b]])
    show "m' = m(D @ [f] \<mapsto> FileNode b)"
      if "\<exists>m2. m(D @ [n] \<mapsto> FileNode b) = m2 \<and>
        m' = m2(fs_key tmp := None, fs_key p := Some (FileNode b))" for m'
    proof -
      have m': "m' = (m(D @ [n] \<mapsto> FileNode b))(D @ [n] := None, D @ [f] := Some (FileNode b))"
        using that unfolding assms(1,3) by blast
      show ?thesis using assms(7) unfolding m' by (auto simp: fun_eq_iff)
    qed
  qed (use assms in \<open>auto simp: parent_is_dir_def look_def\<close>)
  show ?thesis
    unfolding finalize_atomic_def
    by (rule returns_bind [OF returns_map_err [OF w]], rule returns_map_err [OF r])
qed

lemma temp_path:
  assumes "plain_name f" and "CHR ''/'' \<notin> set x" and "hd f \<noteq> CHR ''.''"
  shows "fs_key (path_join (parent_or_dot (path_join d f)) (blob_tmp_prefix @ x)) = fs_key d @ [blob_tmp_prefix @ x]"
    "path_join (parent_or_dot (path_join d f)) (blob_tmp_prefix @ x) \<noteq> []"
    "fs_key d @ [blob_tmp_prefix @ x] \<noteq> fs_key d @ [f]" "fs_key d @ [blob_tmp_prefix @ x] \<in> temp_keys (fs_key d)"
proof -
  note tp = temp_plain [OF assms(2)]
  show "fs_key (path_join (parent_or_dot (path_join d f)) (blob_tmp_prefix @ x)) = fs_key d @ [blob_tmp_prefix @ x]"
    by (simp only: fs_key_join_plain [OF tp] parent_join [OF assms(1)])
  show "path_join (parent_or_dot (path_join d f)) (blob_tmp_prefix @ x) \<noteq> []"
    by (rule path_join_not_Nil) (simp add: blob_tmp_prefix_def)
  show "fs_key d @ [blob_tmp_prefix @ x] \<noteq> fs_key d @ [f]"
    using assms(3) by (auto simp: blob_tmp_prefix_def)
  show "fs_key d @ [blob_tmp_prefix @ x] \<in> temp_keys (fs_key d)"
    by (auto simp: temp_keys_def)
qed

lemma prepared_upd:
  assumes "prepared K m" and "k = K @ [oci_layout_file] \<or> k = K @ [index_json_file] \<or>
    (\<exists>h. k = K @ [''blobs'', ''sha256'', h] \<and> hd h \<noteq> CHR ''.'')"
  shows "prepared K (m(k \<mapsto> FileNode b))"
proof -
  have "k \<notin> temp_keys K \<union> temp_keys (K @ [''blobs'', ''sha256''])"
    using assms(2) hd_names by (auto dest!: temp_key_at)
  moreover have "k \<noteq> K" "k \<noteq> K @ [''blobs'', ''sha256'']" using assms(2) by auto
  ultimately show ?thesis using assms(1) by (auto simp: prepared_def clear_temps_def)
qed

lemma returns_try_read: "returns P (io_try (fs_read p)) (\<lambda>_. P)"
  by (simp add: returns_def fs_read_def io_try_def fs_call_no_fault)

lemma returns_eq: "(\<And>m. P m \<Longrightarrow> returns ((=) m) c Q) \<Longrightarrow> returns P c Q"
  unfolding returns_def by blast

lemma join_names: "path_join d oci_layout_file \<noteq> []" "path_join d index_json_file \<noteq> []"
  by (simp_all add: path_join_def oci_layout_file_def index_json_file_def)

lemma returns_layout:
  assumes "prepared (fs_key dest) m"
  shows "returns ((=) m) (write_if_changed (path_join dest oci_layout_file) b)
    (\<lambda>_ m'. m' = m \<or> m' = m(fs_key dest @ [oci_layout_file] \<mapsto> FileNode b))"
  unfolding write_if_changed_def
proof (rule returns_bind [OF returns_try_read])
  fix r :: "io_error + bytes"
  have temp: "m (fs_key dest @ [blob_tmp_prefix @ ''-oci-layout-'' @ dec_of_nat pid]) = None" for pid
    using assms temp_path(4) [of oci_layout_file "''-oci-layout-'' @ dec_of_nat pid" dest] hd_names
    by (auto simp: prepared_def clear_temps_def dest: dec_of_nat_digits)
  have writing: "returns ((=) m) (let tmp = path_join (parent_or_dot (path_join dest oci_layout_file))
         (blob_tmp_prefix @ ''-oci-layout-'' @ dec_of_nat pid) in
       io_bind (io_map_err (Destination tmp) (fs_write tmp b))
         (\<lambda>_. finalize_atomic tmp (path_join dest oci_layout_file)))
      (\<lambda>_ m'. m' = m \<or> m' = m(fs_key dest @ [oci_layout_file] \<mapsto> FileNode b))" for pid
    unfolding Let_def
    by (rule returns_conseq [OF returns_write_rename
          [where D = "fs_key dest" and m = m and f = oci_layout_file and
            n = "blob_tmp_prefix @ ''-oci-layout-'' @ dec_of_nat pid"]])
      (use assms temp temp_path [of oci_layout_file "''-oci-layout-'' @ dec_of_nat pid" dest] hd_names
        in \<open>auto simp: prepared_def clear_temps_def join_names fs_key_join_plain dest: dec_of_nat_digits\<close>)
  show "returns ((=) m) (if r = Inr b then io_return ()
     else io_bind process_id (\<lambda>pid.
       let tmp = path_join (parent_or_dot (path_join dest oci_layout_file))
         (blob_tmp_prefix @ ''-oci-layout-'' @ dec_of_nat pid) in
       io_bind (io_map_err (Destination tmp) (fs_write tmp b))
         (\<lambda>_. finalize_atomic tmp (path_join dest oci_layout_file))))
    (\<lambda>_ m'. m' = m \<or> m' = m(fs_key dest @ [oci_layout_file] \<mapsto> FileNode b))"
    using returns_bind [OF returns_pid writing] by (auto intro: returns_return)
qed

lemma returns_index:
  assumes "prepared (fs_key dest) m"
  shows "returns ((=) m) (write_atomic_index (path_join dest index_json_file) b)
    (\<lambda>_ m'. m' = m(fs_key dest @ [index_json_file] \<mapsto> FileNode b))"
  unfolding write_atomic_index_def
proof (rule returns_bind [OF returns_pid], rule returns_bind [OF returns_nanos])
  fix pid nanos
  let ?x = "''-index-'' @ dec_of_nat pid @ ''-'' @ dec_of_nat nanos"
  have x: "CHR ''/'' \<notin> set ?x" by (auto dest: dec_of_nat_digits)
  note t = temp_path [OF sink_names(2) x hd_names(1), of dest]
  show "returns ((=) m) (let tmp = path_join (parent_or_dot (path_join dest index_json_file))
       (blob_tmp_prefix @ ?x) in
       io_bind (io_map_err (Destination tmp) (fs_write tmp b))
         (\<lambda>_. finalize_atomic tmp (path_join dest index_json_file)))
    (\<lambda>_ m'. m' = m(fs_key dest @ [index_json_file] \<mapsto> FileNode b))"
    unfolding Let_def
    by (rule returns_write_rename [where n = "blob_tmp_prefix @ ?x"])
      (use assms t in \<open>auto simp: prepared_def clear_temps_def join_names fs_key_join_plain\<close>)
qed

section \<open>The publication\<close>

lemma returns_copy_blob:
  assumes K: "fs_key dir = K @ [''blobs'', ''sha256'']" and "prepared K m"
    and "copy_pre src dir digest hex m b" and "length b < fuel" and "m (fs_key dir @ [hex]) = None"
  shows "returns ((=) m) (copy_blob_atomic fuel src (path_join dir hex) dir digest)
    (\<lambda>_ m'. m' = m(fs_key dir @ [hex] \<mapsto> FileNode b))"
proof -
  have hex: "blob_hex_of digest = Inr hex" "plain_name hex" "hd hex \<noteq> CHR ''.''"
      "look src m = Some (FileNode b)" "fs_key src \<notin> temp_keys (fs_key dir)"
    using assms(3) by (simp_all add: copy_pre_def)
  show ?thesis
    unfolding copy_blob_atomic_def hex(1)
  proof (rule returns_bind [OF returns_nanos], rule returns_bind [OF returns_pid],
      simp only: io_bind_simps)
    fix nanos pid
    let ?n = "blob_tmp_prefix @ ''-'' @ dec_of_nat pid @ ''-'' @ dec_of_nat nanos @ ''-'' @ hex"
    let ?tmp = "path_join dir ?n"
    have "plain_name ?n"
      using hex(2) by (intro temp_plain) (auto simp: plain_name_def dest: dec_of_nat_digits)
    then have key: "fs_key ?tmp = fs_key dir @ [?n]" by (rule fs_key_join_plain)
    have temp: "fs_key dir @ [?n] \<in> temp_keys (fs_key dir)" by (auto simp: temp_keys_def)
    have tmp: "?tmp \<noteq> []" by (rule path_join_not_Nil) (simp add: blob_tmp_prefix_def)
    have dst: "fs_key (path_join dir hex) = fs_key dir @ [hex]" "path_join dir hex \<noteq> []"
      using hex(2) by (simp_all add: fs_key_join_plain path_join_not_Nil plain_name_def)
    have free: "m (fs_key dir @ [?n]) = None" "m (fs_key dir) = Some DirNode"
      using assms(2) temp by (auto simp: prepared_def clear_temps_def K)
    have ne: "?n \<noteq> hex" using hex(3) by (auto simp: blob_tmp_prefix_def)
    have copied: "returns ((=) m) (io_try (copy_chunked fuel src ?tmp))
        (\<lambda>r m'. (\<exists>c. r = Inr c) \<and> m' = m(fs_key dir @ [?n] \<mapsto> FileNode b))"
    proof (rule returns_try, rule returns_conseq [OF returns_copy_chunked])
      show "fs_key src \<noteq> fs_key ?tmp" using hex(5) temp key by metis
      show "parent_is_dir (fs_key ?tmp) m" using free(2) unfolding key parent_is_dir_def by simp
      show "m (fs_key ?tmp) = None" using free(1) by (simp only: key)
    qed (use hex(4) tmp assms(4) key in auto)
    have renamed: "returns ((=) (m(fs_key dir @ [?n] \<mapsto> FileNode b)))
        (io_bind (io_map_err g (fs_rename ?tmp (path_join dir hex))) (\<lambda>_. io_return c))
        (\<lambda>_ m'. m' = m(fs_key dir @ [hex] \<mapsto> FileNode b))" for g c
    proof (rule returns_bind [OF returns_map_err [OF returns_rename
            [where P = "(=) (m(fs_key dir @ [?n] \<mapsto> FileNode b))" and b = b]]])
      show "returns (\<lambda>m'. \<exists>m2. m(fs_key dir @ [?n] \<mapsto> FileNode b) = m2 \<and>
            m' = m2(fs_key ?tmp := None, fs_key (path_join dir hex) := Some (FileNode b)))
          (io_return c) (\<lambda>_ m'. m' = m(fs_key dir @ [hex] \<mapsto> FileNode b))"
      proof (rule returns_return)
        fix m' assume "\<exists>m2. m(fs_key dir @ [?n] \<mapsto> FileNode b) = m2 \<and>
            m' = m2(fs_key ?tmp := None, fs_key (path_join dir hex) := Some (FileNode b))"
        then have "m' = (m(fs_key dir @ [?n] \<mapsto> FileNode b))(fs_key dir @ [?n] := None,
            fs_key dir @ [hex] := Some (FileNode b))"
          unfolding key dst by blast
        then show "m' = m(fs_key dir @ [hex] \<mapsto> FileNode b)"
          using free(1) by (auto simp: fun_eq_iff)
      qed
    qed (use tmp dst key free(2) ne assms(5) in \<open>auto simp: look_def parent_is_dir_def\<close>)
    show "returns ((=) m) (let tmp_name = ?n; tmp = path_join dir tmp_name in
        io_bind (io_try (copy_chunked fuel src tmp)) (\<lambda>copied.
        case copied of
          Inr b \<Rightarrow> io_bind (io_map_err (\<lambda>e. BlobUpload digest (SrcIo e)) (fs_rename tmp (path_join dir hex)))
            (\<lambda>_. io_return b)
        | Inl e \<Rightarrow> io_bind (io_try (fs_remove_file tmp)) (\<lambda>_. io_fail (BlobUpload digest (SrcIo e)))))
      (\<lambda>_ m'. m' = m(fs_key dir @ [hex] \<mapsto> FileNode b))"
      unfolding Let_def
    proof (rule returns_bind [OF copied], rule returns_pre)
      fix r :: "io_error + nat"
      assume "\<exists>c. r = Inr c"
      then obtain c where r: "r = Inr c" ..
      show "returns (\<lambda>m'. m' = m(fs_key dir @ [?n] \<mapsto> FileNode b))
        (case r of
          Inr b \<Rightarrow> io_bind (io_map_err (\<lambda>e. BlobUpload digest (SrcIo e)) (fs_rename ?tmp (path_join dir hex)))
            (\<lambda>_. io_return b)
        | Inl e \<Rightarrow> io_bind (io_try (fs_remove_file ?tmp)) (\<lambda>_. io_fail (BlobUpload digest (SrcIo e))))
        (\<lambda>_ m'. m' = m(fs_key dir @ [hex] \<mapsto> FileNode b))"
        unfolding r sum.case by (rule returns_conseq [OF renamed]) auto
    qed
  qed
qed

lemma returns_publish_one:
  fixes im :: image_dir and dest :: path and m0 :: nodes
  defines "K \<equiv> fs_key dest"
  assumes sep: "separate K (fs_key (im_root im))" and ready: "image_ready im m0"
    and d: "d \<in> set (im_referenced im)" and fuel: "source_size im m0 (pd_digest d) < fuel"
  shows "returns (\<lambda>m. prepared K m \<and> copying im K m0 m) (publish_one fuel im (blobs_dir_of dest) d out)
    (\<lambda>_ m. prepared K m \<and> copying im K m0 m)"
proof (rule returns_eq)
  fix m assume m: "prepared K m \<and> copying im K m0 m"
  obtain hex b p where hex: "sha256_digest (pd_digest d) hex" and p: "blob_path im (pd_digest d) = Inr p"
    "p \<noteq> []" "fs_key p = blob_file (fs_key (im_root im)) (pd_digest d)"
    "m0 (blob_file (fs_key (im_root im)) (pd_digest d)) = Some (FileNode b)"
    by (rule image_readyE [OF ready d])
  note parts = digest_parts [OF hex]
  have bdir: "fs_key (blobs_dir_of dest) = K @ [''blobs'', ''sha256'']"
    by (simp add: fs_key_blobs_dir K_def)
  have key: "fs_key (blobs_dir_of dest) @ [hex] = blob_file K (pd_digest d)"
    by (simp add: bdir blob_file_def parts(1))
  have src: "m (blob_file (fs_key (im_root im)) (pd_digest d)) = Some (FileNode b)"
    using m p(4) by (simp add: copying_def blob_file_def)
  have "fs_key p \<notin> temp_keys (fs_key (blobs_dir_of dest))"
    using separate_neq [OF sep] by (auto simp: p(3) blob_file_def bdir temp_keys_def)
  with parts src p(2,3) have pre: "copy_pre p (blobs_dir_of dest) (pd_digest d) hex m b"
    by (simp add: copy_pre_def look_def)
  have len: "length b < fuel" using fuel p(4) by (simp add: source_size_def)
  let ?m = "m(blob_file K (pd_digest d) \<mapsto> FileNode b)"
  have "prepared K ?m"
    using prepared_upd [of K m] m parts(1,4) by (auto simp: blob_file_def)
  moreover have "copying im K m0 ?m"
    by (rule copying_blob [OF conjunct2 [OF m] sep ready d src]) (simp add: touched_def only_def)
  ultimately have post: "prepared K ?m \<and> copying im K m0 ?m" ..
  have copy: "m (blob_file K (pd_digest d)) = None \<Longrightarrow> returns ((=) m)
      (copy_blob_atomic fuel p (path_join (blobs_dir_of dest) hex) (blobs_dir_of dest) (pd_digest d))
      (\<lambda>_ m'. m' = ?m)"
    using returns_copy_blob [OF bdir conjunct1 [OF m] pre len] unfolding key by blast
  have look: "look (path_join (blobs_dir_of dest) hex) m = m (blob_file K (pd_digest d))"
    using parts(3) key by (simp add: look_def fs_key_join_plain path_join_not_Nil plain_name_def)
  show "returns ((=) m) (publish_one fuel im (blobs_dir_of dest) d out)
      (\<lambda>_ m. prepared K m \<and> copying im K m0 m)"
    unfolding publish_one_def p(1) parts(2) Let_def
  proof (simp only: map_err_simps io_bind_simps, rule returns_bind [OF returns_exists], rule returns_eq)
    fix present m'
    assume "present = (look (path_join (blobs_dir_of dest) hex) m' \<noteq> None) \<and> m = m'"
    then have here: "present \<longleftrightarrow> m (blob_file K (pd_digest d)) \<noteq> None" "m' = m" using look by auto
    show "returns ((=) m') (if present then io_return (add_skipped (pd_digest d) out)
        else io_bind (copy_blob_atomic fuel p (path_join (blobs_dir_of dest) hex) (blobs_dir_of dest) (pd_digest d))
          (\<lambda>b. io_return (add_pushed (pd_digest d) b out))) (\<lambda>_ m. prepared K m \<and> copying im K m0 m)"
      using here m post
      by (cases present) (auto intro!: returns_return returns_bind [OF copy])
  qed
qed

lemma returns_publish_http:
  fixes im :: image_dir and dest :: path and m0 :: nodes
  defines "K \<equiv> fs_key dest"
  assumes sep: "separate K (fs_key (im_root im))" and ready: "image_ready im m0"
    and usable: "usable K m0"
    and layout: "m0 (fs_key (im_root im) @ [oci_layout_file]) = Some (FileNode lb)"
    and index: "m0 (fs_key (im_root im) @ [index_json_file]) = Some (FileNode ib)"
    and fuel: "\<forall>d \<in> set (im_referenced im). source_size im m0 (pd_digest d) < fuel"
  shows "returns ((=) m0) (publish_http fuel im dest) (\<lambda>_ _. True)"
proof -
  let ?P = "\<lambda>m. prepared K m \<and> copying im K m0 m"
  have src: "look (path_join (im_root im) f) m = Some (FileNode b)"
    if "?P m" "plain_name f" "m0 (fs_key (im_root im) @ [f]) = Some (FileNode b)" for m f b
    using that by (auto simp: look_def fs_key_join_plain copying_def path_join_not_Nil plain_name_def)
  have bdir: "fs_key (blobs_dir_of dest) = K @ [''blobs'', ''sha256'']" "blobs_dir_of dest \<noteq> []"
    by (simp_all add: fs_key_blobs_dir K_def) (simp add: blobs_dir_of_def path_join_not_Nil)
  have dirs: "returns ((=) m0) (fs_create_dir_all (blobs_dir_of dest)) (\<lambda>_. ?P)"
    by (rule returns_conseq [OF returns_create_dirs [OF usable bdir]])
      (use copying_dirs [OF sep] in auto)
  have read: "returns ?P (io_map_err publish_error_of (read_oci_layout_bytes im)) (\<lambda>_. ?P)"
    unfolding read_oci_layout_bytes_def Let_def
    by (intro returns_map_err, rule returns_conseq [OF returns_read [where b = lb and P = ?P]])
      (use src layout in auto)
  have writing: "returns ?P (write_if_changed (path_join dest oci_layout_file) b) (\<lambda>_. ?P)" for b
  proof (rule returns_eq)
    fix m assume m: "?P m"
    have "copying im K m0 (m(K @ [oci_layout_file] \<mapsto> FileNode b))"
      by (rule copying_layout [OF conjunct2 [OF m] sep, of b]) (simp add: touched_def only_def)
    with prepared_upd [OF conjunct1 [OF m], of "K @ [oci_layout_file]" b] m
    show "returns ((=) m) (write_if_changed (path_join dest oci_layout_file) b) (\<lambda>_. ?P)"
      by (intro returns_conseq [OF returns_layout [of dest m b]]) (auto simp: K_def)
  qed
  have loop: "returns ?P (io_fold (publish_one fuel im (blobs_dir_of dest)) (im_referenced im) empty_outcome) (\<lambda>_. ?P)"
    by (rule returns_fold) (use returns_publish_one [OF sep [unfolded K_def] ready] fuel in \<open>auto simp: K_def\<close>)
  have read_index: "returns ?P (io_map_err publish_error_of (read_index_bytes im)) (\<lambda>_. ?P)"
    unfolding read_index_bytes_def Let_def
    by (intro returns_map_err, rule returns_conseq [OF returns_read [where b = ib and P = ?P]])
      (use src index in auto)
  have commit: "returns ?P (write_atomic_index (path_join dest index_json_file) b) (\<lambda>_ _. True)" for b
    by (rule returns_eq, rule returns_conseq [OF returns_index]) (auto simp: K_def)
  show ?thesis
    unfolding publish_http_split http_prepare_def io_bind_assoc
    by (rule returns_bind [OF returns_map_err [OF dirs]], rule returns_bind [OF read],
        rule returns_bind [OF writing], rule returns_bind [OF loop], rule returns_bind [OF read_index],
        rule returns_bind [OF commit]) (auto intro: returns_return)
qed

section \<open>Properties\<close>

lemma valid_documents:
  assumes "valid_image cod path m p rs"
  obtains lb ib where "m (fs_key path @ [oci_layout_file]) = Some (FileNode lb)"
    "m (fs_key path @ [index_json_file]) = Some (FileNode ib)"
proof -
  have key: "look (path_join path f) m = Some n \<Longrightarrow> m (fs_key path @ [f]) = Some n"
    if "plain_name f" for f n
    using that by (simp add: look_def fs_key_join_plain path_join_not_Nil plain_name_def)
  from assms obtain lb ib where "look (path_join path oci_layout_file) m = Some (FileNode lb)"
    "look (path_join path index_json_file) m = Some (FileNode ib)"
    unfolding valid_image_def by blast
  then show ?thesis by (intro that key) simp_all
qed

text \<open>
  C31: without faults, on a destination whose directories can be made, with no directory in
  the place of a file and no file under a temporary name, a publication of an image that
  \<open>open\<close> accepts succeeds, when the bound of the copying loop is above the size of every
  blob; the destination then holds the index of the image and all its blobs.
\<close>

theorem http_publish_succeeds:
  assumes "open_image_dir cod root s = (Inr im, s1)" and "fs_faults s = []" and "fs_seen s = []"
    and "separate (fs_key dest) (fs_key root)" and "usable (fs_key dest) (fs_nodes s)"
    and "\<forall>d \<in> set (im_referenced im). source_size im (fs_nodes s) (pd_digest d) < fuel"
  shows "\<exists>out t. publish_http fuel im dest s1 = (Inr out, t) \<and>
    committed im (fs_key dest) (fs_nodes s) (fs_nodes t)"
proof -
  note o = open_ready [OF assms(1)]
  obtain p rs where s1: "s1 = s" and valid: "valid_image cod root (fs_nodes s) p rs"
    by (rule open_valid [OF assms(2,1)])
  obtain lb ib where docs: "fs_nodes s (fs_key root @ [oci_layout_file]) = Some (FileNode lb)"
    "fs_nodes s (fs_key root @ [index_json_file]) = Some (FileNode ib)" by (rule valid_documents [OF valid])
  have "returns ((=) (fs_nodes s)) (publish_http fuel im dest) (\<lambda>_ _. True)"
    by (rule returns_publish_http [OF _ o(1) assms(5)]) (use assms(4,6) o(2) docs in auto)
  then obtain out t where run: "publish_http fuel im dest s1 = (Inr out, t)"
    using assms(2) unfolding returns_def s1 by blast
  with publish_run [OF assms(1,3,4) run] show ?thesis by (auto simp: disk_def)
qed

section \<open>Witnesses\<close>

definition sample_pub :: "unit pub" where
  "sample_pub = \<lparr>fs_nodes = sample_image_nodes, fs_faults = [], fs_seen = [], fs_order = (\<lambda>_. []),
     sy_env = (\<lambda>_. None), sy_world = (), pb_pid = 7, pb_nanos = [1, 2, 3], pb_slept = [],
     pb_sent = []\<rparr>"

lemma sample_pub_opens:
  obtains im where "open_image_dir sample_codecs ''/img'' sample_pub = (Inr im, sample_pub)"
proof (rule sample_run)
  fix im t
  assume "open_image_dir sample_codecs ''/img'' sample_image_fs = (Inr im, t)"
  then obtain p r where "valid_image sample_codecs ''/img'' sample_image_nodes p r" "im = image_of ''/img'' p r"
    by (rule open_valid [rotated]) (simp_all add: sample_image_fs_def)
  then have "open_image_dir sample_codecs ''/img'' sample_pub = (Inr im, sample_pub)"
    using run_open [of sample_pub sample_codecs "''/img''" p r] by (simp add: sample_pub_def)
  then show ?thesis by (rule that)
qed

lemma sample_keys: "fs_key ''/img'' = [''/'', ''img'']" "fs_key ''/pub'' = [''/'', ''pub'']"
  by (simp_all add: fs_key_def path_is_absolute_def names_of_def)

lemma sample_separate: "separate (fs_key ''/pub'') (fs_key ''/img'')"
  by (simp add: separate_def under_def sample_keys)

lemma sample_no_dest: "sample_image_nodes ([''/'', ''pub''] @ x) = None"
  by (simp add: sample_image_nodes_def sample_blob_def)

lemma sample_usable: "usable (fs_key ''/pub'') sample_image_nodes"
proof -
  have "sample_image_nodes k = None" if "k \<in> temp_keys [''/'', ''pub''] \<union> temp_keys [''/'', ''pub'', ''blobs'', ''sha256'']" for k
  proof -
    from that obtain n where "k = [''/'', ''pub''] @ [n] \<or> k = [''/'', ''pub''] @ [''blobs'', ''sha256'', n]"
      by (auto simp: temp_keys_def)
    then show ?thesis using sample_no_dest by metis
  qed
  moreover have "sample_image_nodes [''/''] = Some DirNode"
    by (simp add: sample_image_nodes_def)
  moreover have "prefixes_of [''/'', ''pub'', ''blobs'', ''sha256''] =
      [[''/''], [''/'', ''pub''], [''/'', ''pub'', ''blobs''], [''/'', ''pub'', ''blobs'', ''sha256'']]"
    by (simp add: prefixes_of_def upt_rec)
  ultimately show ?thesis
    using sample_no_dest [of "[]"] sample_no_dest [of "[''blobs'']"] sample_no_dest [of "[''blobs'', ''sha256'']"]
      sample_no_dest [of "[oci_layout_file]"] sample_no_dest [of "[index_json_file]"]
    by (simp add: usable_def clear_temps_def sample_keys)
qed

lemma sample_sizes: "source_size im sample_image_nodes d < 3" 
  by (auto simp: source_size_def sample_image_nodes_def sample_blob_def split: option.split fnode.split
      dest!: map_of_SomeD)

lemma sample_image_docs:
  "sample_image_nodes (fs_key ''/img'' @ [oci_layout_file]) = Some (FileNode ''L'')"
  "sample_image_nodes (fs_key ''/img'' @ [index_json_file]) = Some (FileNode ''I'')"
  by (simp_all add: sample_keys sample_image_nodes_def oci_layout_file_def index_json_file_def)

text \<open>A first publication, and one to a destination that has all blobs already.\<close>

lemma sample_publish:
  assumes "open_image_dir sample_codecs ''/img'' s = (Inr im, s)"
    and "fs_nodes s = nodes" "fs_faults s = []" "usable (fs_key ''/pub'') nodes"
    and "\<forall>k. take 2 k \<noteq> [''/'', ''pub''] \<longrightarrow> nodes k = sample_image_nodes k"
  obtains out t where "publish_http 3 im ''/pub'' s = (Inr out, t)"
proof -
  note o = open_ready [OF assms(1)]
  have img: "nodes ([''/'', ''img''] @ x) = sample_image_nodes ([''/'', ''img''] @ x)" for x
    using assms(5) by simp
  have "source_size im nodes d = source_size im sample_image_nodes d" for d
    using img [of "[''blobs'', ''sha256'', drop 7 d]"] by (simp add: source_size_def blob_file_def o(2) sample_keys)
  then have "returns ((=) nodes) (publish_http 3 im ''/pub'') (\<lambda>_ _. True)"
    using o(1,2) assms(2,4) sample_separate sample_sizes sample_image_docs img
    by (intro returns_publish_http) (auto simp: sample_keys)
  then obtain out t where "publish_http 3 im ''/pub'' s = (Inr out, t)"
    using assms(2,3) unfolding returns_def by blast
  then show ?thesis by (rule that)
qed

lemma sample_first:
  obtains im out t where "open_image_dir sample_codecs ''/img'' sample_pub = (Inr im, sample_pub)"
    "publish_http 3 im ''/pub'' sample_pub = (Inr out, t)"
proof (rule sample_pub_opens)
  fix im assume opened: "open_image_dir sample_codecs ''/img'' sample_pub = (Inr im, sample_pub)"
  show ?thesis
    by (rule sample_publish [OF opened]) (use that [OF opened] sample_usable in \<open>auto simp: sample_pub_def\<close>)
qed

theorem http_commit_atomic_witness:
  "\<exists>im out t. publish_http 3 im ''/pub'' sample_pub = (Inr out, t) \<and>
     committed im [''/'', ''pub''] sample_image_nodes (fs_nodes t)"
proof (rule sample_first)
  fix im out t
  assume opened: "open_image_dir sample_codecs ''/img'' sample_pub = (Inr im, sample_pub)"
    and run: "publish_http 3 im ''/pub'' sample_pub = (Inr out, t)"
  have "fs_seen sample_pub = []" "fs_nodes sample_pub = sample_image_nodes" by (simp_all add: sample_pub_def)
  with http_commit_atomic [OF opened _ sample_separate run] run show ?thesis
    unfolding sample_keys by auto
qed

theorem http_outcome_accounts_witness:
  "\<exists>im out t. publish_http 3 im ''/pub'' sample_pub = (Inr out, t) \<and>
     distinct (digests_pushed out @ digests_skipped out) \<and>
     set (digests_pushed out) \<union> set (digests_skipped out) = pd_digest ` set (im_referenced im)"
proof (rule sample_first)
  fix im out t
  assume opened: "open_image_dir sample_codecs ''/img'' sample_pub = (Inr im, sample_pub)"
    and run: "publish_http 3 im ''/pub'' sample_pub = (Inr out, t)"
  have "fs_seen sample_pub = []" by (simp add: sample_pub_def)
  from http_outcome_accounts [OF opened this sample_separate run] run show ?thesis by blast
qed

definition sample_again_nodes :: nodes where
  "sample_again_nodes k =
     (if k \<in> {[''/'', ''pub''], [''/'', ''pub'', ''blobs''], [''/'', ''pub'', ''blobs'', ''sha256'']}
      then Some DirNode
      else if take 4 k = [''/'', ''pub'', ''blobs'', ''sha256''] \<and> length k = 5 then
        sample_image_nodes ([''/'', ''img'', ''blobs'', ''sha256''] @ drop 4 k)
      else sample_image_nodes k)"

definition sample_pub_again :: "unit pub" where
  "sample_pub_again = sample_pub\<lparr>fs_nodes := sample_again_nodes\<rparr>"

lemma sample_again_img:
  "take 2 k \<noteq> [''/'', ''pub''] \<Longrightarrow> sample_again_nodes k = sample_image_nodes k"
  by (auto simp: sample_again_nodes_def dest: arg_cong [of _ _ "take 2"])

lemma sample_again_opens:
  obtains im where "open_image_dir sample_codecs ''/img'' sample_pub_again = (Inr im, sample_pub_again)"
    "map pd_digest (im_referenced im) = map sample_digest ''cbeda''"
proof -
  have "case fst (open_image_dir sample_codecs ''/img'' sample_pub_again) of
      Inl e \<Rightarrow> False
    | Inr im \<Rightarrow> map pd_digest (im_referenced im) = map sample_digest ''cbeda''"
    by code_simp
  then obtain im t where run: "open_image_dir sample_codecs ''/img'' sample_pub_again = (Inr im, t)"
    and refs: "map pd_digest (im_referenced im) = map sample_digest ''cbeda''"
    by (cases "open_image_dir sample_codecs ''/img'' sample_pub_again";
        cases "fst (open_image_dir sample_codecs ''/img'' sample_pub_again)") auto
  have "t = sample_pub_again"
    by (rule open_valid [OF _ run]) (simp_all add: sample_pub_again_def sample_pub_def)
  with run refs that show ?thesis by blast
qed

lemma sample_again_usable: "usable (fs_key ''/pub'') sample_again_nodes"
proof -
  have "sample_again_nodes k = None"
    if "k \<in> temp_keys [''/'', ''pub''] \<union> temp_keys [''/'', ''pub'', ''blobs'', ''sha256'']" for k
  proof -
    from that obtain n where n: "hd n = CHR ''.''"
      "k = [''/'', ''pub''] @ [n] \<or> k = [''/'', ''pub''] @ [''blobs'', ''sha256'', n]"
      by (auto simp: temp_keys_def dest: temp_name_hd)
    then have "n \<noteq> ''blobs''" "sample_image_nodes ([''/'', ''img'', ''blobs'', ''sha256''] @ [n]) = None"
      by (auto simp: sample_image_nodes_def sample_blob_def)
    with n(2) show ?thesis
      using sample_no_dest [of "[n]"] sample_no_dest [of "[''blobs'', ''sha256'', n]"]
      by (auto simp: sample_again_nodes_def)
  qed
  moreover have "prefixes_of [''/'', ''pub'', ''blobs'', ''sha256''] =
      [[''/''], [''/'', ''pub''], [''/'', ''pub'', ''blobs''], [''/'', ''pub'', ''blobs'', ''sha256'']]"
    by (simp add: prefixes_of_def upt_rec)
  ultimately show ?thesis
    by (simp add: usable_def clear_temps_def sample_keys sample_again_nodes_def sample_image_nodes_def
        sample_blob_def oci_layout_file_def index_json_file_def)
qed

theorem republish_copies_nothing_witness:
  "\<exists>im out t. publish_http 3 im ''/pub'' sample_pub_again = (Inr out, t) \<and>
     digests_pushed out = [] \<and> digests_skipped out = map sample_digest ''cbeda''"
proof (rule sample_again_opens)
  fix im assume opened: "open_image_dir sample_codecs ''/img'' sample_pub_again = (Inr im, sample_pub_again)"
    and refs: "map pd_digest (im_referenced im) = map sample_digest ''cbeda''"
  have state: "fs_seen sample_pub_again = []" "fs_faults sample_pub_again = []"
    "fs_nodes sample_pub_again = sample_again_nodes"
    by (simp_all add: sample_pub_again_def sample_pub_def)
  have "all_present im (fs_key ''/pub'') sample_again_nodes"
    by (simp add: all_present_def digests_of_def refs sample_digest_def blob_file_def sample_keys
        sample_again_nodes_def sample_image_nodes_def sample_blob_def)
  moreover obtain out t where run: "publish_http 3 im ''/pub'' sample_pub_again = (Inr out, t)"
    by (rule sample_publish [OF opened state(3,2) sample_again_usable]) (use sample_again_img in blast)
  ultimately show ?thesis
    using republish_copies_nothing [OF opened state(1,2) sample_separate _ run] run refs state(3) by metis
qed

theorem copy_bound_enough_witness:
  "copy_chunked 3 ''/img/index.json'' ''/pub'' sample_pub = copy_chunked 9 ''/img/index.json'' ''/pub'' sample_pub"
proof (rule copy_bound_enough)
  have key: "fs_key ''/img/index.json'' = [''/'', ''img'', ''index.json'']"
    by (simp add: fs_key_def path_is_absolute_def names_of_def)
  show "look ''/img/index.json'' (fs_nodes sample_pub) = Some (FileNode ''I'')"
    by (simp add: look_def key sample_pub_def sample_image_nodes_def)
  show "fs_key ''/img/index.json'' \<noteq> fs_key ''/pub''" by (simp add: key sample_keys)
qed (simp_all add: sample_pub_def)

theorem http_publish_succeeds_witness:
  "\<exists>im out t. open_image_dir sample_codecs ''/img'' sample_pub = (Inr im, sample_pub) \<and>
     publish_http 3 im ''/pub'' sample_pub = (Inr out, t) \<and>
     committed im [''/'', ''pub''] sample_image_nodes (fs_nodes t)"
proof (rule sample_pub_opens)
  fix im assume run: "open_image_dir sample_codecs ''/img'' sample_pub = (Inr im, sample_pub)"
  have nodes: "fs_nodes sample_pub = sample_image_nodes" by (simp add: sample_pub_def)
  from http_publish_succeeds [OF run, of "''/pub''" 3] sample_separate sample_usable sample_sizes
  have "\<exists>out t. publish_http 3 im ''/pub'' sample_pub = (Inr out, t) \<and>
      committed im (fs_key ''/pub'') sample_image_nodes (fs_nodes t)"
    unfolding nodes by (simp add: sample_pub_def)
  with run show ?thesis unfolding sample_keys by blast
qed

end
