(* ===== verification/Publish.thy ===== *)
theory Publish
  imports Registry_Commit Http_Liveness
begin

text \<open>
  \<open>saf/publish.rs\<close> of the crate \<open>publish\<close>: the entry point, which checks the coordinates of
  a registry and dispatches to the sinks. \<open>fuel\<close> is the bound of the copying loop of the
  directory sink.
\<close>

definition check_registry_field :: "string \<Rightarrow> string \<Rightarrow> publish_error + unit" where
  "check_registry_field name v =
     (if v = [] then
        Inl (MalformedImageDir [Txt ''PublishSink::Registry.'', Txt name, Txt '' is empty '',
          Txt em_dash, Txt '' expected a non-empty value''])
      else if has_whitespace v then
        Inl (MalformedImageDir [Txt ''PublishSink::Registry.'', Txt name,
          Txt '' contains whitespace, which OCI Distribution v2 forbids: '', Dbg v])
      else Inr ())"

definition publish ::
  "nat \<Rightarrow> 'w http_lib \<Rightarrow> image_dir \<Rightarrow> publish_sink \<Rightarrow>
   (('w, 'x) pub_scheme, publish_error, publish_outcome) io" where
  "publish fuel hl im sink =
     (case sink of
        HttpSink dest_dir \<Rightarrow> publish_http fuel im dest_dir
      | RegistrySink registry repository tag auth \<Rightarrow>
          io_bind (io_lift (check_registry_field ''registry'' registry)) (\<lambda>_.
          io_bind (io_lift (check_registry_field ''repository'' repository)) (\<lambda>_.
          io_bind (io_lift (check_registry_field ''tag'' tag)) (\<lambda>_.
          publish_registry hl im registry repository tag auth))))"

definition usable_coordinate :: "string \<Rightarrow> bool" where
  "usable_coordinate v \<longleftrightarrow> v \<noteq> [] \<and> \<not> has_whitespace v"

lemma check_registry_field_Inr: "check_registry_field n v = Inr () \<longleftrightarrow> usable_coordinate v"
  by (simp add: check_registry_field_def usable_coordinate_def)

lemma publish_registry_sink:
  "usable_coordinate registry \<Longrightarrow> usable_coordinate repository \<Longrightarrow> usable_coordinate tag \<Longrightarrow>
   publish fuel hl im (RegistrySink registry repository tag auth) =
     publish_registry hl im registry repository tag auth"
  by (simp add: publish_def check_registry_field_def usable_coordinate_def)

definition bad_coordinate :: "string \<Rightarrow> string \<Rightarrow> message" where
  "bad_coordinate name v = [Txt ''PublishSink::Registry.'', Txt name] @
     (if v = [] then [Txt '' is empty '', Txt em_dash, Txt '' expected a non-empty value'']
      else [Txt '' contains whitespace, which OCI Distribution v2 forbids: '', Dbg v])"

text \<open>
  A registry is contacted only with usable coordinates. The first of registry, repository
  and tag that is empty or has white space in it (in the sense of Unicode) is refused by name,
  and then no request is sent, no variable read and no file touched; when all three are usable
  \<open>publish\<close> is the registry sink.
\<close>

theorem publish_checks_coordinates:
  "publish fuel hl im (RegistrySink registry repository tag auth) s =
     (case find (\<lambda>(name, v). \<not> usable_coordinate v)
        [(''registry'', registry), (''repository'', repository), (''tag'', tag)] of
        Some (name, v) \<Rightarrow> (Inl (MalformedImageDir (bad_coordinate name v)), s)
      | None \<Rightarrow> publish_registry hl im registry repository tag auth s)"
proof -
  have field: "check_registry_field n v =
      (if usable_coordinate v then Inr () else Inl (MalformedImageDir (bad_coordinate n v)))" for n v
    by (simp add: check_registry_field_def usable_coordinate_def bad_coordinate_def)
  show ?thesis
    by (cases "usable_coordinate registry"; cases "usable_coordinate repository"; cases "usable_coordinate tag")
      (simp_all add: publish_def field io_fail_def)
qed

end
