(* ===== verification/Registry_Liveness.thy ===== *)
theory Registry_Liveness
  imports Registry_Commit Http_Liveness
begin

text \<open>
  A publication to a registry that cooperates succeeds; the sample runs behind the witnesses
  of the properties of \<open>publish_registry\<close> are instances.
\<close>

section \<open>Registries that cooperate\<close>

definition fits :: "'w http_lib \<Rightarrow> http_request \<Rightarrow> http_response \<Rightarrow> bool" where
  "fits hl q resp \<longleftrightarrow>
     (rq_method q = MHead \<longrightarrow> rs_status resp = 200 \<or> rs_status resp = 404) \<and>
     (rq_method q = MPost \<longrightarrow> (rs_status resp = 201 \<or> rs_status resp = 202) \<and>
        (\<exists>hv l. map_of (rs_headers resp) ''location'' = Some hv \<and> hl_header_text hl hv = Inr l)) \<and>
     (rq_method q = MPut \<longrightarrow> rs_status resp = 200 \<or> rs_status resp = 201)"

definition cooperative :: "'w http_lib \<Rightarrow> bool" where
  "cooperative hl \<longleftrightarrow> hl_build hl request_timeout = Inr () \<and>
     (\<forall>q w. \<exists>resp. fst (hl_send hl q w) = Inr resp \<and> fits hl q resp)"

lemma returns_send:
  assumes "cooperative hl"
  shows "returns P (http_send hl q) (\<lambda>r m. P m \<and> (\<exists>resp. r = Inr resp \<and> fits hl q resp))"
  unfolding returns_def http_send_def
proof (intro allI impI)
  fix s :: "('a, 'b) pub_scheme"
  assume s: "no_faults s \<and> P (fs_nodes s)"
  obtain r w where run: "hl_send hl q (sy_world s) = (r, w)" by fastforce
  with assms obtain resp where "r = Inr resp" "fits hl q resp"
    unfolding cooperative_def by (metis fst_conv)
  with s run show "\<exists>x t. (case hl_send hl q (sy_world s) of
        (r, w) \<Rightarrow> (Inr r, s\<lparr>sy_world := w, pb_sent := pb_sent s @ [(q, r)]\<rparr>)) = (Inr x, t) \<and>
      no_faults t \<and> P (fs_nodes t) \<and> (\<exists>resp. x = Inr resp \<and> fits hl q resp)"
    by simp
qed

lemma returns_attempts:
  assumes "\<And>l. returns P (body a l) (\<lambda>r m. P m \<and> (\<exists>v. r = Inr v \<and> Q v))"
  shows "returns P (for_attempts (a # as) body l) (\<lambda>r m. P m \<and> (\<exists>v. r = Inr v \<and> Q v))"
  unfolding for_attempts.simps
  by (rule returns_bind [OF assms]) (auto simp: returns_def io_apply_simps split: sum.split)

lemma attempts_Cons: "attempts = 0 # [1, 2, 3]"
  by (simp add: attempts_def max_retries_def upt_rec)

lemma returns_head:
  assumes "cooperative hl" and "rq_method q = MHead"
  shows "returns P (head_turn hl q err a l) (\<lambda>r m. P m \<and> (\<exists>v. r = Inr v \<and> (v = 200 \<or> v = 404)))"
  unfolding head_turn_def Let_def
  by (rule returns_bind [OF returns_send [OF assms(1)]])
    (use assms(2) in \<open>auto simp: returns_def io_apply_simps fits_def is_server_error_def\<close>)

lemma returns_head_blob:
  "cooperative hl \<Longrightarrow> returns P (head_blob hl url auth d) (\<lambda>v m. P m \<and> (v = 200 \<or> v = 404))"
  unfolding head_blob_def attempts_Cons
  by (rule returns_bind [OF returns_attempts [OF returns_head]])
    (auto simp: head_request_def returns_def io_apply_simps head_end_def)

lemma returns_head_manifest:
  "cooperative hl \<Longrightarrow> returns P (head_manifest hl url auth d) (\<lambda>v m. P m \<and> (v = 200 \<or> v = 404))"
  unfolding head_manifest_def attempts_Cons
  by (rule returns_bind [OF returns_attempts [OF returns_head]])
    (auto simp: head_manifest_request_def returns_def io_apply_simps head_end_def)

lemma returns_init:
  assumes "cooperative hl"
  shows "returns P (init_blob_upload hl url auth d) (\<lambda>_. P)"
proof -
  have turn: "returns P (init_turn hl url auth d a l) (\<lambda>r m. P m \<and> (\<exists>v. r = Inr v \<and> True))" for a l
    unfolding init_turn_def Let_def
    by (rule returns_bind [OF returns_send [OF assms]])
      (auto simp: returns_def io_apply_simps fits_def is_server_error_def init_request_def location_of_def)
  show ?thesis
    unfolding init_blob_upload_def attempts_Cons
    by (rule returns_bind [OF returns_attempts [OF turn]]) (auto simp: returns_def io_apply_simps loop_end_def)
qed

lemma returns_put_manifest:
  assumes "cooperative hl"
  shows "returns P (put_manifest hl url auth bs) (\<lambda>_. P)"
proof -
  have turn: "returns P (put_manifest_turn hl url auth bs a l) (\<lambda>r m. P m \<and> (\<exists>v. r = Inr v \<and> True))" for a l
    unfolding put_manifest_turn_def Let_def
    by (rule returns_bind [OF returns_send [OF assms]])
      (auto simp: returns_def io_apply_simps fits_def is_server_error_def put_manifest_request_def)
  show ?thesis
    unfolding put_manifest_def attempts_Cons
    by (rule returns_bind [OF returns_attempts [OF turn]]) (auto simp: returns_def io_apply_simps loop_end_def)
qed

lemma returns_put_blob:
  assumes "cooperative hl" and "look p m = Some (FileNode b)"
  shows "returns ((=) m) (put_blob_monolithic hl l auth p d) (\<lambda>_. (=) m)"
proof -
  have turn: "returns ((=) m) (put_blob_turn hl url auth p n d a u)
      (\<lambda>r m'. m = m' \<and> (\<exists>v. r = Inr v \<and> True))" for url n a u
    unfolding put_blob_turn_def Let_def
    by (rule returns_bind [OF returns_map_err [OF returns_open [where b = b]]], use assms(2) in blast,
        rule returns_bind [OF returns_try_read],
        rule returns_bind [OF returns_send [OF assms(1)]])
      (auto simp: returns_def io_apply_simps fits_def is_server_error_def put_blob_request_def)
  have meta: "returns ((=) m) (fs_metadata p) (\<lambda>_. (=) m)"
    unfolding fs_metadata_def by (rule returns_call) (use assms(2) in \<open>auto simp: call_metadata_def\<close>)
  show ?thesis
    unfolding put_blob_monolithic_def attempts_Cons Let_def
    by (rule returns_bind [OF returns_map_err [OF meta]], rule returns_bind [OF returns_attempts [OF turn]])
      (auto simp: returns_def io_apply_simps loop_end_def)
qed

lemma returns_push_blob:
  assumes "cooperative hl" and "image_ready im m" and "d \<in> set (digests_of im)"
  shows "returns ((=) m) (push_blob_with_skip hl w im d b) (\<lambda>_. (=) m)"
proof -
  obtain p bs where p: "blob_path im d = Inr p" "look p m = Some (FileNode bs)"
    by (rule ready_source [OF assms(2,3)]) (rule that)
  have upload: "returns ((=) m)
      (io_bind (init_blob_upload hl (uploads_url w) (wc_auth w) d) (\<lambda>l.
       io_bind (put_blob_monolithic hl l (wc_auth w) p d) (\<lambda>n. io_return (add_pushed d n b)))) (\<lambda>_. (=) m)"
    by (rule returns_bind [OF returns_init [OF assms(1)]],
        rule returns_bind [OF returns_put_blob [OF assms(1) p(2)]]) (rule returns_return)
  show ?thesis
    unfolding push_blob_with_skip_def p(1) map_err_simps io_bind_simps
  proof (rule returns_bind [OF returns_head_blob [OF assms(1)]], rule returns_eq)
    fix v :: nat and m' assume v: "m = m' \<and> (v = 200 \<or> v = 404)"
    with upload show "returns ((=) m') (if v = 200 then io_return (add_skipped d b)
        else if v \<noteq> 404 then io_fail (RegistryRefused v
          [Txt ''HEAD blob '', Txt d, Txt '': unexpected status '', Txt (dec_of_nat v),
           Txt '' (expected 200 or 404)''])
        else io_bind (init_blob_upload hl (uploads_url w) (wc_auth w) d) (\<lambda>l.
          io_bind (put_blob_monolithic hl l (wc_auth w) p d) (\<lambda>n. io_return (add_pushed d n b)))) (\<lambda>_. (=) m)"
      by (auto intro: returns_return)
  qed
qed

lemma returns_push_manifest:
  assumes "cooperative hl" and "image_ready im m" and "d \<in> set (digests_of im)"
  shows "returns ((=) m) (push_manifest_with_skip hl w im d target b) (\<lambda>_. (=) m)"
proof -
  obtain p bs where p: "blob_path im d = Inr p" "look p m = Some (FileNode bs)"
    by (rule ready_source [OF assms(2,3)]) (rule that)
  have upload: "returns ((=) m) (upload_manifest hl w im d target b) (\<lambda>_. (=) m)"
    unfolding upload_manifest_def p(1) map_err_simps io_bind_simps
    by (rule returns_bind [OF returns_map_err [OF returns_conseq [OF returns_read [where b = bs and P = "(=) m"]]]],
        use p(2) in blast, assumption, erule conjunct2,
        rule returns_bind [OF returns_put_manifest [OF assms(1)]]) (rule returns_return)
  have "returns (\<lambda>m'. m = m' \<and> (v = 200 \<or> v = 404))
      (if v = 200 then io_return (add_skipped d b) else upload_manifest hl w im d target b) (\<lambda>_. (=) m)" for v
    by (rule returns_eq) (use upload in \<open>auto intro: returns_return\<close>)
  with upload show ?thesis
    unfolding push_manifest_with_skip_def Let_def
    by (auto intro!: returns_bind [OF returns_head_manifest [OF assms(1)]])
qed

lemma returns_push_image:
  assumes "cooperative hl" and "image_ready im m" and "primary_digest im \<in> set (digests_of im)"
    and "set (referrer_digests im) \<subseteq> set (digests_of im)"
  shows "returns ((=) m) (push_image hl w im tag) (\<lambda>_. (=) m)"
proof -
  have step: "returns ((=) m) (push_blob_step hl w im d b) (\<lambda>_. (=) m)" if "d \<in> set (im_referenced im)" for d b
    using returns_push_blob [OF assms(1,2), of "pd_digest d"] that
    by (auto simp: push_blob_step_def digests_of_def intro: returns_return)
  have ref: "returns ((=) m) (push_referrer_step hl w im d b) (\<lambda>_. (=) m)"
    if "d \<in> set (id_referrers (im_descriptor im))" for d b
    unfolding push_referrer_step_def
    by (rule returns_push_manifest [OF assms(1,2)]) (use that assms(4) in \<open>auto simp: referrer_digests_def\<close>)
  show ?thesis
    unfolding push_image_def primary_digest_def [symmetric]
    by (rule returns_bind [OF returns_fold [OF step]], assumption,
        rule returns_bind [OF returns_fold [OF ref]], assumption,
        rule returns_push_manifest [OF assms(1-3)])
qed

lemma publish_registry_returns:
  assumes "open_image_dir cod root s = (Inr im, s)" and "fs_faults s = []" and "cooperative hl"
    and "resolve_auth hl auth s = (Inr hv, s)"
  shows "\<exists>out t. publish_registry hl im registry repository tag auth s = (Inr out, t)"
proof -
  let ?w = "\<lparr>wc_base_url = (if sy_env s env_allow_insecure = Some ''1'' then ''http'' else ''https'') @
    ''://'' @ registry, wc_repository = repository, wc_auth = hv\<rparr>"
  have "returns ((=) (fs_nodes s)) (push_image hl ?w im tag) (\<lambda>_. (=) (fs_nodes s))"
    by (rule returns_push_image [OF assms(3) open_ready(1) [OF assms(1)] open_digests(1,2) [OF assms(1)]])
  then obtain out t where "push_image hl ?w im tag s = (Inr out, t)"
    using assms(2) unfolding returns_def by blast
  then have "publish_registry hl im registry repository tag auth s = (Inr out, t)"
    using assms(3,4)
    by (simp add: publish_registry_def env_allows_insecure_def env_var_def io_bind_def io_apply_simps
        build_client_def cooperative_def Let_def)
  then show ?thesis by blast
qed

section \<open>A sample registry\<close>

text \<open>It has nothing and accepts everything.\<close>

definition sample_send :: "http_request \<Rightarrow> unit \<Rightarrow> (string + http_response) \<times> unit" where
  "sample_send q u =
     (Inr \<lparr>rs_status = (case rq_method q of MHead \<Rightarrow> 404 | MPost \<Rightarrow> 202 | _ \<Rightarrow> 201),
       rs_headers = [(''location'', ''/up'')], rs_body = [], rs_body_error = None\<rparr>, ())"

definition sample_http :: "unit http_lib" where
  "sample_http =
     \<lparr>hl_build = (\<lambda>_. Inr ()), hl_send = sample_send, hl_header_value = Inr, hl_header_text = Inr\<rparr>"

lemma sample_cooperative: "cooperative sample_http"
  by (auto simp: cooperative_def sample_http_def sample_send_def fits_def split: http_method.split)

lemma sample_anonymous: "resolve_auth sample_http None s = (Inr None, s)"
  by (simp add: resolve_auth_def io_apply_simps)

lemma sample_registry_run:
  obtains im out t where "open_image_dir sample_codecs ''/img'' sample_pub = (Inr im, sample_pub)"
    "publish_registry sample_http im ''reg'' ''app'' ''v1'' None sample_pub = (Inr out, t)"
proof (rule sample_pub_opens)
  fix im assume opened: "open_image_dir sample_codecs ''/img'' sample_pub = (Inr im, sample_pub)"
  have "fs_faults sample_pub = []" by (simp add: sample_pub_def)
  from publish_registry_returns [OF opened this sample_cooperative sample_anonymous] opened that
  show ?thesis by blast
qed

theorem registry_commit_last_witness:
  "\<exists>im out t w pre x. publish_registry sample_http im ''reg'' ''app'' ''v1'' None sample_pub = (Inr out, t) \<and>
     all_confirmed w (fs_nodes sample_pub) im pre \<and>
     confirms_manifest w (fs_nodes sample_pub) im (primary_digest im) ''v1'' x"
proof (rule sample_registry_run)
  fix im out t
  assume opened: "open_image_dir sample_codecs ''/img'' sample_pub = (Inr im, sample_pub)"
    and run: "publish_registry sample_http im ''reg'' ''app'' ''v1'' None sample_pub = (Inr out, t)"
  from registry_commit_last [OF opened run] obtain w pre post x where
    "post \<noteq> [] \<longrightarrow> all_confirmed w (fs_nodes sample_pub) im pre" "x \<in> set post"
    "confirms_manifest w (fs_nodes sample_pub) im (primary_digest im) ''v1'' x" by blast
  with run show ?thesis by (metis empty_iff list.set(1))
qed

theorem registry_outcome_accounts_witness:
  "\<exists>im out t. publish_registry sample_http im ''reg'' ''app'' ''v1'' None sample_pub = (Inr out, t) \<and>
     set (digests_pushed out) \<union> set (digests_skipped out) = pd_digest ` set (im_referenced im)"
proof (rule sample_registry_run)
  fix im out t
  assume "open_image_dir sample_codecs ''/img'' sample_pub = (Inr im, sample_pub)"
    and "publish_registry sample_http im ''reg'' ''app'' ''v1'' None sample_pub = (Inr out, t)"
  with registry_outcome_accounts [OF this] show ?thesis by blast
qed

theorem registry_publish_bounded_witness:
  "\<exists>im out t. publish_registry sample_http im ''reg'' ''app'' ''v1'' None sample_pub = (Inr out, t) \<and>
     length (pb_sent t) \<le> 12 * length (blob_digests im) + 8 * Suc (length (referrer_digests im))"
proof (rule sample_registry_run)
  fix im out t
  assume opened: "open_image_dir sample_codecs ''/img'' sample_pub = (Inr im, sample_pub)"
    and run: "publish_registry sample_http im ''reg'' ''app'' ''v1'' None sample_pub = (Inr out, t)"
  have "pb_sent sample_pub = []" by (simp add: sample_pub_def)
  with registry_publish_bounded [OF opened run, of "[]"] run show ?thesis by auto
qed

text \<open>
  C30: without file-system faults, a publication to a registry that answers every request, has
  or accepts every blob and accepts the manifests, succeeds, for every image that \<open>open\<close>
  accepts and any credentials that resolve.
\<close>

theorem registry_publish_succeeds:
  assumes "open_image_dir cod root s = (Inr im, s1)" and "fs_faults s = []" and "cooperative hl"
    and "resolve_auth hl auth s = (Inr hv, s)"
  shows "\<exists>out t. publish_registry hl im registry repository tag auth s1 = (Inr out, t)"
proof -
  have "s1 = s" by (rule open_valid [OF assms(2,1)])
  with assms show ?thesis using publish_registry_returns by blast
qed

theorem registry_publish_succeeds_witness:
  "\<exists>im out t. publish_registry sample_http im ''reg'' ''app'' ''v1'' None sample_pub = (Inr out, t)"
proof (rule sample_pub_opens)
  fix im assume opened: "open_image_dir sample_codecs ''/img'' sample_pub = (Inr im, sample_pub)"
  have "fs_faults sample_pub = []" by (simp add: sample_pub_def)
  from registry_publish_succeeds [OF opened this sample_cooperative sample_anonymous] show ?thesis by blast
qed

end
