(* ===== verification/Cmd_Publish.thy ===== *)
theory Cmd_Publish
  imports Cmd_Auth Publish Registry_Liveness
begin

text \<open>
  \<open>cli/src/cmd/publish.rs\<close>: the grammar of \<open>--to\<close> and the command \<open>publish\<close>, from the image
  directory and the mode of authentication to the sink.
\<close>

section \<open>The grammar of a sink\<close>

datatype parsed_sink = ParsedHttp path | ParsedRegistry string string string

definition strip_prefix :: "string \<Rightarrow> string \<Rightarrow> string option" where
  "strip_prefix pre s = (if take (length pre) s = pre then Some (drop (length pre) s) else None)"

definition registry_form :: message where
  "registry_form = [Txt ''--to registry:<host>/<repo>:<tag> '', Txt em_dash]"

definition parse_sink_uri :: "string \<Rightarrow> ('c, 'j) cli_error + parsed_sink" where
  "parse_sink_uri raw =
     (case strip_prefix ''http:'' raw of
        Some rest \<Rightarrow>
          if rest = [] then Inl (Cli [Txt ''--to http: <path> is empty'']) else Inr (ParsedHttp rest)
      | None \<Rightarrow>
     (case strip_prefix ''registry:'' raw of
        Some rest \<Rightarrow>
          and_then (ok_or (Cli (registry_form @ [Txt '' missing :tag in '', Dbg raw]))
            (rsplit_once (CHR '':'') rest)) (\<lambda>(host_repo, tag).
          if tag = [] then Inl (Cli (registry_form @ [Txt '' tag empty in '', Dbg raw])) else
          and_then (ok_or (Cli (registry_form @ [Txt '' missing /repository in '', Dbg raw]))
            (split_once (CHR ''/'') host_repo)) (\<lambda>(registry, repository).
          if registry = [] \<or> repository = [] then
            Inl (Cli (registry_form @ [Txt '' host or repo empty in '', Dbg raw]))
          else Inr (ParsedRegistry registry repository tag)))
      | None \<Rightarrow> Inl (Cli [Txt ''--to: unknown sink scheme in '', Dbg raw,
          Txt '' (expected http:<path> or registry:<host>/<repo>:<tag>)''])))"

section \<open>The command\<close>

record ('w, 'x, 'u, 'v) publish_lib =
  pc_fuel :: nat
  pc_http :: "'w http_lib"
  pc_codecs :: image_codecs
  pc_credentials :: "(('w, 'x) pub_scheme, 'u, 'v) auth_lib"

text \<open>A resolution that fails stops the command; a conversion that fails is a panic.\<close>

definition registry_auth_for ::
  "(('w, 'x) sys_scheme, 'u, 'v) auth_lib \<Rightarrow> auth_mode \<Rightarrow> string \<Rightarrow>
   (('w, 'x) sys_scheme, ('c, 'j) cmd_stop, registry_auth) io" where
  "registry_auth_for lib m registry =
     io_bind (io_map_err Failed (resolve_for_registry lib m registry)) (\<lambda>resolved.
     io_lift (map_err Panicked (into_registry_auth resolved)))"

definition sink_of ::
  "(('w, 'x) sys_scheme, 'u, 'v) auth_lib \<Rightarrow> publish_auth_mode \<Rightarrow> parsed_sink \<Rightarrow>
   (('w, 'x) sys_scheme, ('c, 'j) cmd_stop, publish_sink) io" where
  "sink_of lib auth parsed =
     (case parsed of
        ParsedHttp dest_dir \<Rightarrow> io_return (HttpSink dest_dir)
      | ParsedRegistry registry repository tag \<Rightarrow>
          io_bind (case auth of
              PublishAnonymous \<Rightarrow> io_return None
            | PublishAuthenticated m \<Rightarrow>
                io_bind (registry_auth_for lib m registry) (\<lambda>a. io_return (Some a))) (\<lambda>registry_auth.
          io_return (RegistrySink registry repository tag registry_auth)))"

definition publish_command ::
  "('w, 'x, 'u, 'v) publish_lib \<Rightarrow> path \<Rightarrow> string \<Rightarrow> publish_auth_mode \<Rightarrow>
   (('w, 'x) pub_scheme, ('c, 'j) cmd_stop, publish_outcome) io" where
  "publish_command lib image_dir sink_uri auth =
     io_bind (io_lift (map_err Failed (parse_sink_uri sink_uri))) (\<lambda>parsed.
     io_bind (io_map_err (\<lambda>e. Failed (CliPublish (publish_error_of e)))
       (open_image_dir (pc_codecs lib) image_dir)) (\<lambda>im.
     io_bind (sink_of (pc_credentials lib) auth parsed) (\<lambda>sink.
     io_map_err (\<lambda>e. Failed (CliPublish e)) (publish (pc_fuel lib) (pc_http lib) im sink))))"

section \<open>Sinks and their text\<close>

definition sink_wf :: "parsed_sink \<Rightarrow> bool" where
  "sink_wf p =
     (case p of
        ParsedHttp d \<Rightarrow> d \<noteq> []
      | ParsedRegistry h r t \<Rightarrow>
          h \<noteq> [] \<and> CHR ''/'' \<notin> set h \<and> r \<noteq> [] \<and> t \<noteq> [] \<and> CHR '':'' \<notin> set t)"

definition sink_uri :: "parsed_sink \<Rightarrow> string" where
  "sink_uri p =
     (case p of
        ParsedHttp d \<Rightarrow> ''http:'' @ d
      | ParsedRegistry h r t \<Rightarrow> ''registry:'' @ h @ ''/'' @ r @ '':'' @ t)"

lemma strip_prefix_Some [simp]: "strip_prefix p s = Some r \<longleftrightarrow> s = p @ r"
  by (auto simp: strip_prefix_def) (metis append_take_drop_id)

lemma strip_prefix_append [simp]: "strip_prefix p (p @ r) = Some r"
  by simp

lemma strip_prefix_None: "strip_prefix p s = None \<longleftrightarrow> (\<forall>r. s \<noteq> p @ r)"
  by (metis not_None_eq strip_prefix_Some)

lemma schemes_differ: "strip_prefix ''http:'' (''registry:'' @ r) = None"
  by (simp add: strip_prefix_def)

lemma parse_registry_sink:
  "parse_sink_uri (''registry:'' @ rest) = (Inr (ParsedRegistry h r t) :: ('c, 'j) cli_error + parsed_sink) \<longleftrightarrow>
     (\<exists>hr. rsplit_once (CHR '':'') rest = Some (hr, t) \<and> split_once (CHR ''/'') hr = Some (h, r)) \<and>
     h \<noteq> [] \<and> r \<noteq> [] \<and> t \<noteq> []"
proof -
  have parts: "and_then (ok_or e cut) (\<lambda>(a, b). if b = [] then Inl e2 else
        and_then (ok_or e3 (halve a)) (\<lambda>(c, d). if c = [] \<or> d = [] then Inl e4 else Inr (ParsedRegistry c d b))) =
      Inr (ParsedRegistry h r t) \<longleftrightarrow>
      (\<exists>hr. cut = Some (hr, t) \<and> halve hr = Some (h, r)) \<and> h \<noteq> [] \<and> r \<noteq> [] \<and> t \<noteq> []"
    for cut halve and e e2 e3 e4 :: "('c, 'j) cli_error"
    by (auto simp: ok_or_def and_then_def split: option.splits if_splits)
  show ?thesis
    unfolding parse_sink_uri_def schemes_differ option.case strip_prefix_append by (rule parts)
qed

lemma parse_http_sink:
  "parse_sink_uri (''http:'' @ d) = (Inr p :: ('c, 'j) cli_error + parsed_sink) \<longleftrightarrow> d \<noteq> [] \<and> p = ParsedHttp d"
  unfolding parse_sink_uri_def strip_prefix_append by auto

lemma parse_sink_uri_iff:
  "parse_sink_uri raw = (Inr p :: ('c, 'j) cli_error + parsed_sink) \<longleftrightarrow> raw = sink_uri p \<and> sink_wf p"
proof (cases "strip_prefix ''http:'' raw")
  case (Some d)
  then have raw: "raw = ''http:'' @ d" by simp
  show ?thesis unfolding raw parse_http_sink
    by (cases p) (auto simp: sink_uri_def sink_wf_def)
next
  case http: None
  show ?thesis
  proof (cases "strip_prefix ''registry:'' raw")
    case None
    then have "parse_sink_uri raw \<noteq> (Inr p :: ('c, 'j) cli_error + parsed_sink)"
      using http by (simp add: parse_sink_uri_def)
    moreover have "raw \<noteq> sink_uri p"
      using http None by (cases p) (auto simp: sink_uri_def strip_prefix_None)
    ultimately show ?thesis by blast
  next
    case (Some rest)
    then have raw: "raw = ''registry:'' @ rest" by simp
    show ?thesis
    proof (cases p)
      case (ParsedHttp d)
      have "parse_sink_uri raw \<noteq> (Inr p :: ('c, 'j) cli_error + parsed_sink)"
        unfolding ParsedHttp parse_sink_uri_def http Some option.case
        by (auto simp: and_then_def split: sum.splits if_splits)
      moreover have "raw \<noteq> sink_uri p"
        using http by (auto simp: ParsedHttp sink_uri_def strip_prefix_None)
      ultimately show ?thesis by blast
    next
      case (ParsedRegistry h r t)
      have "CHR ''/'' \<notin> set h \<Longrightarrow> CHR '':'' \<notin> set t \<Longrightarrow> rest = h @ CHR ''/'' # r @ CHR '':'' # t \<longleftrightarrow>
          (\<exists>hr. rest = hr @ CHR '':'' # t \<and> hr = h @ CHR ''/'' # r)" by auto
      then show ?thesis unfolding raw ParsedRegistry parse_registry_sink rsplit_once_Some_iff split_once_Some_iff
        by (auto simp: sink_uri_def sink_wf_def)
    qed
  qed
qed

section \<open>The command commits\<close>

text \<open>A resolution of credentials reads, but writes no file and sends nothing to the registry.\<close>

abbreviation mute :: "nodes \<Rightarrow> (('w, 'x) pub_scheme, 'e, 'a) io \<Rightarrow> bool" where
  "mute m \<equiv> silent m (\<lambda>_. True)"

definition vault_mute :: "(('w, 'x) pub_scheme, 'u, 'v) vault_lib \<Rightarrow> bool" where
  "vault_mute lib \<longleftrightarrow>
     (\<forall>m. mute m (vt_runtime lib)) \<and> (\<forall>m client mount key. mute m (vt_read lib client mount key))"

lemma mute_bind: "mute m c \<Longrightarrow> (\<And>x. mute m (f x)) \<Longrightarrow> mute m (io_bind c f)"
  by (rule silent_bind) auto

lemma mute_map_err: "mute m c \<Longrightarrow> mute m (io_map_err g c)"
  by (rule silent_map_err)

lemma mute_calls:
  "mute m (io_return x)" "mute m (io_fail e)" "mute m (io_lift r)" "mute m (env_var n)"
  by (auto intro: silent_return silent_fail silent_lift silent_env)

lemma mute_read: "mute m (fs_read p)"
  by (rule silent_conseq [OF silent_read]) simp

lemma mute_get: "mute m (io_get f)"
  by (auto simp: silent_def sends_def io_get_def intro: talks_refl)

lemmas mute_intros = mute_bind mute_map_err mute_calls mute_read mute_get

lemma mute_vault_provider:
  assumes "vault_mute lib"
  shows "silent m (\<lambda>r. \<forall>pv. r = Inr (Some pv) \<longrightarrow> (\<forall>mount key. mute m (vp_backend pv mount key)))
    (vault_from_env lib base)"
proof -
  have backend: "mute m (vaultrs_read_kv2 lib client mount key)" for client mount key
    using assms unfolding vaultrs_read_kv2_def vault_mute_def by (intro mute_map_err) blast
  have new: "mute m (vaultrs_backend_new lib a t)" for a t
    using assms unfolding vaultrs_backend_new_def vault_mute_def
    by (auto intro!: mute_intros)
  let ?P = "\<lambda>r. \<forall>pv. r = Inr pv \<longrightarrow> (\<forall>mount key. mute m (vp_backend pv mount key))"
  have made: "silent m ?P (vault_new lib a t base)" for a t
    unfolding vault_new_def
    by (rule silent_bind [OF new])
      (auto intro!: silent_lift simp: vault_with_backend_def and_then_def backend split: sum.splits prod.splits)
  show ?thesis
    unfolding vault_from_env_def
    by (auto intro!: silent_bind [OF mute_calls(4)] silent_bind [OF made] silent_return split: option.split)
qed

lemma mute_vault:
  assumes "vault_mute (au_vault lib)"
  shows "mute m (resolve_vault_for_registry lib base registry :: (_, ('c, 'j) cli_error, _) io)"
proof -
  have ask: "mute m (vault_auth_mode (au_vault lib) pv registry)"
    if "\<forall>mount key. mute m (vp_backend pv mount key)" for pv
    unfolding vault_auth_mode_def Let_def
    by (auto intro!: mute_intros silent_try simp: that split: sum.split)
  let ?P = "\<lambda>r :: ('c, 'j) cli_error + _. \<forall>pv. r = Inr (Some pv) \<longrightarrow> (\<forall>mount key. mute m (vp_backend pv mount key))"
  show ?thesis
    unfolding resolve_vault_for_registry_def
  proof (rule silent_bind [where R = ?P])
    show "silent m ?P (io_map_err g (vault_from_env (au_vault lib) base))" for g
      by (rule silent_map_err [OF silent_conseq [OF mute_vault_provider [OF assms]]])
        (auto simp: map_err_def split: sum.splits)
  qed (auto intro!: mute_intros ask split: option.split resolved_vault_auth.split)
qed

lemma mute_docker: "mute m (resolve_docker_config_for_registry lib cfg registry)"
  unfolding resolve_docker_config_for_registry_def docker_path_of_def docker_default_path_def
    docker_auth_mode_def load_auths_def
  by (auto intro!: mute_intros silent_try split: option.split sum.split resolved_docker_auth.split)

lemma mute_sink:
  assumes "vault_mute (au_vault lib)"
  shows "mute m (sink_of lib auth parsed)"
  unfolding sink_of_def registry_auth_for_def resolve_for_registry_def
  by (auto intro!: mute_intros mute_vault [OF assms] mute_docker
      split: parsed_sink.split publish_auth_mode.split auth_mode.split)

text \<open>What a successful command has done at its sink, from the state \<open>s\<close> to the state \<open>t\<close>.\<close>

definition reached ::
  "image_dir \<Rightarrow> parsed_sink \<Rightarrow> ('w, 'x) pub_scheme \<Rightarrow> ('w, 'x) pub_scheme \<Rightarrow> bool" where
  "reached im parsed s t \<longleftrightarrow>
     (case parsed of
        ParsedHttp d \<Rightarrow>
          separate (fs_key d) (fs_key (im_root im)) \<longrightarrow> committed im (fs_key d) (fs_nodes s) (fs_nodes t)
      | ParsedRegistry registry repository tag \<Rightarrow>
          usable_coordinate registry \<and> usable_coordinate repository \<and> usable_coordinate tag \<and>
          (\<exists>w pre post x. wires registry repository w \<and> pb_sent t = pb_sent s @ pre @ post \<and>
             all_confirmed w (fs_nodes s) im pre \<and> x \<in> set post \<and>
             confirms_manifest w (fs_nodes s) im (primary_digest im) tag x))"

lemma publish_usable:
  assumes "publish fuel hl im (RegistrySink registry repository tag auth) s = (Inr out, t)"
  shows "usable_coordinate registry \<and> usable_coordinate repository \<and> usable_coordinate tag"
    "publish_registry hl im registry repository tag auth s = (Inr out, t)"
  using assms
  by (auto simp: publish_def io_apply_simps check_registry_field_Inr elim!: io_bind_InrE)

lemma reached_registry:
  assumes "open_image_dir cod root s = (Inr im, s1)" and "talks s s2 [] []"
    and "publish fuel hl im (RegistrySink registry repository tag auth) s2 = (Inr out, t)"
  shows "reached im (ParsedRegistry registry repository tag) s t"
proof -
  have "fs_nodes s2 = fs_nodes s" "pb_sent s2 = pb_sent s" using assms(2) by (simp_all add: talks_def)
  moreover obtain xs ms where "talks s2 t xs ms"
    "published (fs_nodes s) im registry repository tag xs ms (Inr out)"
    using sendsD [OF sends_publish_registry [OF assms(1)] _ publish_usable(2) [OF assms(3)]] calculation(1)
    by blast
  then obtain w pre post where "wires registry repository w" "xs = pre @ post"
    and run: "push_run w (fs_nodes s) im tag pre post ms (Inr out)"
    by (auto simp: published_def)
  moreover from run obtain x where "x \<in> set post"
    "confirms_manifest w (fs_nodes s) im (primary_digest im) tag x" "all_confirmed w (fs_nodes s) im pre"
    by (auto simp: push_run_def)
  ultimately have "wires registry repository w \<and> pb_sent t = pb_sent s @ pre @ post \<and>
      all_confirmed w (fs_nodes s) im pre \<and> x \<in> set post \<and>
      confirms_manifest w (fs_nodes s) im (primary_digest im) tag x"
    using \<open>talks s2 t xs ms\<close> by (simp add: talks_def)
  with publish_usable(1) [OF assms(3)] show ?thesis
    unfolding reached_def parsed_sink.case by blast
qed

lemma mute_is_file: "mute m (fs_is_file p)"
  unfolding silent_def sends_def fs_is_file_def fs_query_def
  by (auto simp: fs_call_reads [OF reads_calls(4)] talks_def split: prod.splits sum.splits)

lemma mute_fold: "(\<And>x b. mute m (f x b)) \<Longrightarrow> mute m (io_fold f xs b)"
  by (induction xs arbitrary: b) (auto intro: mute_bind mute_calls)

lemma mute_present: "mute m (validate_descriptor_blob_present root d context)"
  unfolding validate_descriptor_blob_present_def by (auto intro!: mute_intros mute_is_file)

lemma mute_contents: "mute m (check_contents path man a b)"
  unfolding check_contents_def by (auto intro!: mute_intros mute_fold mute_present)

lemma mute_open: "mute m (open_image_dir cod path)"
proof -
  have "mute m (read_manifest cod path d)" for d
    unfolding read_manifest_def
    by (auto intro!: mute_intros mute_is_file split: option.split)
  then have "mute m (sort_manifest cod path d st)" for d st
    unfolding sort_manifest_def by (auto intro!: mute_intros split: prod.split)
  moreover have "mute m (check_referrer path d r u)" for d r u
    unfolding check_referrer_def Let_def by (auto intro!: mute_intros mute_contents split: prod.split)
  moreover have "mute m (read_layout_marker cod path)" "mute m (read_index cod path)"
    unfolding read_layout_marker_def read_index_def Let_def by (auto intro!: mute_intros mute_is_file)
  ultimately show ?thesis
    unfolding open_image_dir_def
    by (auto intro!: mute_intros mute_fold mute_contents split: prod.split)
qed

lemma mute_talks:
  assumes "mute (fs_nodes s) c" and "c s = (r, t)"
  shows "talks s t [] []"
  using sendsD [OF assms(1) [unfolded silent_def] refl assms(2)] by blast

lemma failed_no_panic: "fails_with (\<lambda>e. \<forall>p. e \<noteq> Panicked p) (io_map_err (\<lambda>e. Failed (g e)) c)"
  by (rule fails_with_map_err) (simp add: fails_with_def)

lemma registry_auth_no_panic: "fails_with (\<lambda>e. \<forall>p. e \<noteq> Panicked p) (registry_auth_for lib m registry)"
  unfolding fails_with_def
proof (intro allI impI)
  fix s e p
  assume "fst (registry_auth_for lib m registry s) = Inl e"
  then obtain t where run: "registry_auth_for lib m registry s = (Inl e, t)"
    by (metis prod.collapse)
  show "e \<noteq> Panicked p"
    using run unfolding registry_auth_for_def
  proof (rule io_bind_InlE)
    assume "io_map_err Failed (resolve_for_registry lib m registry) s = (Inl e, t)"
    from fails_withD [OF failed_no_panic [of "\<lambda>e. e"] this] show ?thesis by blast
  next
    fix m' u
    assume "io_map_err Failed (resolve_for_registry lib m registry) s = (Inr m', u)"
      and conv: "io_lift (map_err Panicked (into_registry_auth m')) u = (Inl e, t)"
    then show ?thesis using conv
      by (elim io_map_err_InrE) (auto dest!: resolve_for_registry_converts simp: io_apply_simps map_err_def)
  qed
qed

lemma publish_command_no_panic:
  "fails_with (\<lambda>e. \<forall>p. e \<noteq> Panicked p)
     (publish_command lib image_dir uri auth :: (_, ('c, 'j) cmd_stop, _) io)"
proof -
  have lift: "fails_with (\<lambda>e. \<forall>p. e \<noteq> Panicked p) (io_lift (map_err Failed r))" for r
    by (auto simp: map_err_def split: sum.splits)
  have sink: "fails_with (\<lambda>e :: ('c, 'j) cmd_stop. \<forall>p. e \<noteq> Panicked p) (sink_of clib auth parsed)" for clib parsed
    unfolding sink_of_def
    by (auto intro!: fails_with_bind registry_auth_no_panic split: parsed_sink.split publish_auth_mode.split)
  show ?thesis
    unfolding publish_command_def by (intro fails_with_bind lift failed_no_panic sink)
qed

lemma publish_command_reaches:
  assumes "(publish_command lib image_dir uri auth :: (_, ('c, 'j) cmd_stop, _) io) s = (Inr out, t)" and "fs_seen s = []"
    and "vault_mute (au_vault (pc_credentials lib))"
  obtains parsed im s1 where "uri = sink_uri parsed" "sink_wf parsed"
    "open_image_dir (pc_codecs lib) image_dir s = (Inr im, s1)" "reached im parsed s t"
proof -
  from assms(1) obtain parsed im s1 sink s2 where
    uri: "parse_sink_uri uri = (Inr parsed :: ('c, 'j) cli_error + parsed_sink)"
    and opened: "open_image_dir (pc_codecs lib) image_dir s = (Inr im, s1)"
    and sink: "(sink_of (pc_credentials lib) auth parsed :: (_, ('c, 'j) cmd_stop, _) io) s1 = (Inr sink, s2)"
    and run: "publish (pc_fuel lib) (pc_http lib) im sink s2 = (Inr out, t)"
    unfolding publish_command_def
    by (elim io_bind_InrE io_map_err_InrE) (auto simp: io_apply_simps map_err_def split: sum.splits)
  have s2: "talks s s2 [] []"
    using talks_trans [OF mute_talks [OF mute_open opened] mute_talks [OF mute_sink [OF assms(3)] sink]] by simp
  have "reached im parsed s t"
  proof (cases parsed)
    case (ParsedRegistry registry repository tag)
    with sink obtain a where "sink = RegistrySink registry repository tag a"
      by (auto simp: sink_of_def io_apply_simps elim!: io_bind_InrE)
    with reached_registry [OF opened s2] run ParsedRegistry show ?thesis by blast
  next
    case (ParsedHttp d)
    with sink have "sink = HttpSink d" "s2 = s1" by (simp_all add: sink_of_def io_apply_simps)
    with run have "publish_http (pc_fuel lib) im d s1 = (Inr out, t)" by (simp add: publish_def)
    with publish_run [OF opened assms(2)] open_ready(2) [OF opened] show ?thesis
      by (fastforce simp: reached_def ParsedHttp disk_def)
  qed
  with uri opened that show thesis by (metis parse_sink_uri_iff)
qed

section \<open>Properties\<close>

text \<open>
  C35: the grammar of \<open>--to\<close> is exact: a text is read as a sink exactly when it is the text of
  that sink and the sink is well formed. The tag is what follows the last colon and the host
  what precedes the first slash, so a host may carry a port and a repository may have slashes.
\<close>

theorem parse_sink_uri_exact:
  "parse_sink_uri raw = (Inr p :: ('c, 'j) cli_error + parsed_sink) \<longleftrightarrow> raw = sink_uri p \<and> sink_wf p"
  by (rule parse_sink_uri_iff)


definition sample_credentials :: "('s, unit, unit) auth_lib" where
  "sample_credentials =
     \<lparr>au_vault = \<lparr>vt_from_value = (\<lambda>_. Inl []), vt_settings = (\<lambda>_ _. Inl []), vt_client = (\<lambda>_. Inl []),
        vt_runtime = io_return (), vt_read = (\<lambda>_ _ _. io_return JNull)\<rparr>,
      au_docker = \<lparr>dk_decode = (\<lambda>_. Inl []), dk_encode = (\<lambda>_. []), dk_utf8_text = (\<lambda>_. []),
        dk_from_slice = (\<lambda>_. Inl []), dk_home_dir = (\<lambda>_. None)\<rparr>,
      au_io_text = (\<lambda>_. [])\<rparr>"

definition sample_publish_lib :: "(unit, unit, unit, unit) publish_lib" where
  "sample_publish_lib =
     \<lparr>pc_fuel = 3, pc_http = sample_http, pc_codecs = sample_codecs, pc_credentials = sample_credentials\<rparr>"

lemma sample_mute: "vault_mute (au_vault (pc_credentials sample_publish_lib))"
  by (auto simp: vault_mute_def sample_publish_lib_def sample_credentials_def intro!: mute_intros)

lemma sample_command_run:
  obtains out t where
    "(publish_command sample_publish_lib ''/img'' ''registry:reg/app:v1'' PublishAnonymous ::
        (_, (unit, unit) cmd_stop, _) io) sample_pub = (Inr out, t)"
proof (rule sample_registry_run)
  fix im out t
  assume opened: "open_image_dir sample_codecs ''/img'' sample_pub = (Inr im, sample_pub)"
    and run: "publish_registry sample_http im ''reg'' ''app'' ''v1'' None sample_pub = (Inr out, t)"
  have uri: "parse_sink_uri ''registry:reg/app:v1'' =
      (Inr (ParsedRegistry ''reg'' ''app'' ''v1'') :: (unit, unit) cli_error + parsed_sink)"
    by (simp add: parse_sink_uri_iff sink_uri_def sink_wf_def)
  have coordinates: "usable_coordinate ''reg''" "usable_coordinate ''app''" "usable_coordinate ''v1''"
    by code_simp+
  have "publish 3 sample_http im (RegistrySink ''reg'' ''app'' ''v1'' None) sample_pub = (Inr out, t)"
    using run by (simp only: publish_registry_sink [OF coordinates])
  with opened uri have "(publish_command sample_publish_lib ''/img'' ''registry:reg/app:v1'' PublishAnonymous ::
        (_, (unit, unit) cmd_stop, _) io) sample_pub = (Inr out, t)"
    by (simp add: publish_command_def sample_publish_lib_def io_bind_apply io_map_err_apply io_apply_simps
        sink_of_def)
  then show ?thesis by (rule that)
qed


end
