(* ===== verification/Verify_Engine.thy ===== *)
theory Verify_Engine
  imports Verify_Policy Process
begin

text \<open>
  The walker of \<open>cli/src/verify_engine.rs\<close> and its cosign invoker. The verifier of
  signatures is an argument, as in the code; \<open>real_cosign_verify\<close> is the production one, with
  the subprocess, the clock and the temporary directory as fields of \<open>process_lib\<close>.
\<close>

section \<open>Documents and libraries\<close>

record referrer_layer =
  rl_media_type :: string
  rl_digest :: string
  rl_size :: nat

record referrer_manifest =
  rm_artifact_type :: "string option"
  rm_layers :: "referrer_layer list"

record verify_lib =
  vl_image :: image_codecs
  vl_value :: "bytes \<Rightarrow> message + json"
  vl_referrer :: "bytes \<Rightarrow> message + referrer_manifest"

text \<open>\<open>CosignVerifyInvoker\<close>: a call with effects that always returns an outcome.\<close>

type_synonym 's cosign_verifier = "string \<Rightarrow> bytes \<Rightarrow> 's \<Rightarrow> cosign_verify_outcome \<times> 's"

section \<open>The walk over the referrers\<close>

record pillar_blobs =
  pb_slsa :: "(string \<times> bytes) option"
  pb_sbom :: "(string \<times> string \<times> bytes) option"
  pb_sig :: "(string \<times> bytes) option"

definition no_blobs :: pillar_blobs where
  "no_blobs = \<lparr>pb_slsa = None, pb_sbom = None, pb_sig = None\<rparr>"

definition keep_blob :: "string \<Rightarrow> string \<Rightarrow> bytes \<Rightarrow> pillar_blobs \<Rightarrow> pillar_blobs" where
  "keep_blob artifact_type digest bs st =
     (case classify_artifact_type artifact_type of
        ClassSlsa \<Rightarrow> st\<lparr>pb_slsa := Some (digest, bs)\<rparr>
      | ClassSbom \<Rightarrow> st\<lparr>pb_sbom := Some (artifact_type, digest, bs)\<rparr>
      | ClassSignature \<Rightarrow> st\<lparr>pb_sig := Some (digest, bs)\<rparr>
      | ClassUnknown \<Rightarrow> st)"

definition artifact_type_of :: "referrer_manifest \<Rightarrow> pub_descriptor \<Rightarrow> referrer_layer \<Rightarrow> string" where
  "artifact_type_of man ref_desc l =
     (case rm_artifact_type man of
        Some t \<Rightarrow> t
      | None \<Rightarrow> (case pd_artifact_type ref_desc of Some t \<Rightarrow> t | None \<Rightarrow> rl_media_type l))"

definition read_image_blob ::
  "image_dir \<Rightarrow> string \<Rightarrow> ('x fs_scheme, verify_error, bytes) io" where
  "read_image_blob im digest =
     io_bind (io_lift (map_err VeImageDir (blob_path im digest))) (\<lambda>p.
     io_map_err (VeIo p) (fs_read p))"

text \<open>One turn of the loop; a referrer without a layer is skipped.\<close>

definition walk_referrer ::
  "verify_lib \<Rightarrow> image_dir \<Rightarrow> pub_descriptor \<Rightarrow> pillar_blobs \<Rightarrow>
   ('x fs_scheme, verify_error, pillar_blobs) io" where
  "walk_referrer lib im ref_desc st =
     io_bind (read_image_blob im (pd_digest ref_desc)) (\<lambda>ref_bytes.
     io_bind (io_lift (map_err
       (\<lambda>e. MalformedBlob (pd_digest ref_desc) (Txt ''referrer manifest JSON: '' # e))
       (vl_referrer lib ref_bytes))) (\<lambda>ref_manifest.
     case rm_layers ref_manifest of
       [] \<Rightarrow> io_return st
     | l # _ \<Rightarrow>
         io_bind (read_image_blob im (rl_digest l)) (\<lambda>layer_bytes.
         io_return (keep_blob (artifact_type_of ref_manifest ref_desc l) (rl_digest l) layer_bytes st))))"

section \<open>The three pillars\<close>

definition slsa_pillar ::
  "(bytes \<Rightarrow> message + json) \<Rightarrow> string \<Rightarrow> (string \<times> bytes) option \<Rightarrow> verify_error + pillar_verdict" where
  "slsa_pillar parse primary_digest blob =
     (case blob of
        None \<Rightarrow> Inr PillarMissing
      | Some (digest, bs) \<Rightarrow>
          and_then (validate_slsa_statement parse bs primary_digest) (\<lambda>info.
          Inr (PillarFound (''SLSA in-toto v1, builder='' @ si_builder_id info @ '', spec_hash='' @
            si_spec_hash info @ '', blob='' @ digest))))"

definition sbom_pillar ::
  "(bytes \<Rightarrow> message + json) \<Rightarrow> (string \<times> string \<times> bytes) option \<Rightarrow> verify_error + pillar_verdict" where
  "sbom_pillar parse blob =
     (case blob of
        None \<Rightarrow> Inr PillarMissing
      | Some (media_type, digest, bs) \<Rightarrow>
          and_then (validate_sbom parse bs media_type) (\<lambda>_.
          Inr (PillarFound (media_type @ '', blob='' @ digest))))"

definition signature_verdict :: "string \<Rightarrow> cosign_verify_outcome \<Rightarrow> pillar_verdict" where
  "signature_verdict digest outcome =
     (case outcome of
        VerifiedAndRecorded log_index \<Rightarrow>
          PillarFound (''cosign verified, rekor logIndex='' @ dec_of_nat log_index @ '', blob='' @ digest)
      | VerifiedNotRecorded reason \<Rightarrow>
          PillarFailed (''cosign verified but Rekor not recorded: '' @ reason)
      | InvalidSignature stderr \<Rightarrow> PillarFailed (''cosign rejected signature: '' @ stderr)
      | VerifierNotInstalled \<Rightarrow>
          PillarFailed ''cosign not installed; signature blob present but unverified'')"

definition signature_pillar ::
  "'s cosign_verifier \<Rightarrow> string \<Rightarrow> (string \<times> bytes) option \<Rightarrow> ('s, verify_error, pillar_verdict) io" where
  "signature_pillar cosign primary_digest blob =
     (case blob of
        None \<Rightarrow> io_return PillarMissing
      | Some (digest, bs) \<Rightarrow>
          io_bind (io_run (cosign primary_digest bs)) (\<lambda>outcome.
          io_return (signature_verdict digest outcome)))"

section \<open>The walker\<close>

definition judge_blobs ::
  "verify_lib \<Rightarrow> policy option \<Rightarrow> 's cosign_verifier \<Rightarrow> string \<Rightarrow> pillar_blobs \<Rightarrow>
   ('s, verify_error, verify_report) io" where
  "judge_blobs lib policy cosign primary_digest blobs =
     io_bind (io_lift (slsa_pillar (vl_value lib) primary_digest (pb_slsa blobs))) (\<lambda>slsa_verdict.
     io_bind (io_lift (sbom_pillar (vl_value lib) (pb_sbom blobs))) (\<lambda>sbom_verdict.
     io_bind (signature_pillar cosign primary_digest (pb_sig blobs)) (\<lambda>sig_verdict.
     let report = \<lparr>vr_manifest_digest = primary_digest, vr_slsa = slsa_verdict,
                   vr_sbom = sbom_verdict, vr_signature = sig_verdict\<rparr> in
     case policy of
       None \<Rightarrow> io_return report
     | Some p \<Rightarrow>
         io_bind (io_lift (apply_policy (vl_value lib) report p (pb_slsa blobs))) (\<lambda>_.
         io_return report))))"

definition verify ::
  "verify_lib \<Rightarrow> path \<Rightarrow> policy option \<Rightarrow> 'x fs_scheme cosign_verifier \<Rightarrow>
   ('x fs_scheme, verify_error, verify_report) io" where
  "verify lib image_dir policy cosign =
     io_bind (io_map_err VeImageDir (open_image_dir (vl_image lib) image_dir)) (\<lambda>im.
     io_bind (io_fold (walk_referrer lib im) (id_referrers (im_descriptor im)) no_blobs) (\<lambda>blobs.
     judge_blobs lib policy cosign (id_primary_digest (im_descriptor im)) blobs))"

section \<open>The cosign invoker\<close>

definition extract_rekor_log_index :: "(bytes \<Rightarrow> message + json) \<Rightarrow> bytes \<Rightarrow> nat option" where
  "extract_rekor_log_index parse bundle_bytes =
     (case parse bundle_bytes of
        Inl _ \<Rightarrow> None
      | Inr v \<Rightarrow>
          Option.bind (json_get ''rekorBundle'' v) (\<lambda>b.
          Option.bind (json_get ''Payload'' b) (\<lambda>payload.
          Option.bind (json_get ''logIndex'' payload) json_as_u64)))"

definition write_payload_tempfile ::
  "'x fs_scheme process_lib \<Rightarrow> string \<Rightarrow> ('x fs_scheme, io_error, path) io" where
  "write_payload_tempfile lib content = write_tempfile lib ''justoci-verify-payload-'' content"

definition real_cosign_verify ::
  "'x fs_scheme process_lib \<Rightarrow> path \<Rightarrow> 'x fs_scheme cosign_verifier" where
  "real_cosign_verify lib bin manifest_digest bundle_bytes = returning
     (let log_index = extract_rekor_log_index (ql_value lib) bundle_bytes in
      io_bind (io_map_err
        (\<lambda>e. InvalidSignature (''could not stage cosign payload: '' @ ql_io_text lib e))
        (write_payload_tempfile lib manifest_digest)) (\<lambda>payload_path.
      let bundle_path = with_extension payload_path ''bundle.json'' in
      io_bind (io_try (fs_write bundle_path bundle_bytes)) (\<lambda>staged.
      case staged of
        Inl e \<Rightarrow>
          io_bind (remove_quietly payload_path) (\<lambda>_.
          io_fail (InvalidSignature (''could not stage cosign bundle: '' @ ql_io_text lib e)))
      | Inr _ \<Rightarrow>
      io_bind (io_try (ql_output lib bin [''verify-blob'', ''--bundle'', bundle_path, payload_path]))
        (\<lambda>output.
      io_bind (remove_both payload_path bundle_path) (\<lambda>_.
      case output of
        Inl e \<Rightarrow>
          if io_error_kind_of e = NotFound then io_fail VerifierNotInstalled
          else io_fail (InvalidSignature
            (''failed to spawn cosign verify-blob: '' @ ql_io_text lib e))
      | Inr out \<Rightarrow>
          if \<not> co_success out then io_fail (InvalidSignature (trimmed_stderr out))
          else case log_index of
            Some idx \<Rightarrow> io_return (VerifiedAndRecorded idx)
          | None \<Rightarrow> io_return (VerifiedNotRecorded
              ''cosign verify succeeded but bundle has no rekorBundle.Payload.logIndex''))))))"

definition cosign_verify_bin :: "(('w, 'x) sys_scheme, 'e, path) io" where
  "cosign_verify_bin = io_get (\<lambda>s.
     case sy_env s ''JUSTOCI_COSIGN_BIN'' of Some p \<Rightarrow> p | None \<Rightarrow> ''cosign'')"

end
