(* ===== verification/Verify_Gate.thy ===== *)
theory Verify_Gate
  imports Verify_Engine
begin

text \<open>
  What an accepting verification has established. The evidence is what the referrers of the
  image hold on disk; \<open>accepted\<close> says it in terms of that evidence alone. The walker accepts
  only then, whatever calls fail, and without faults always then.
\<close>

section \<open>The evidence on disk\<close>

definition blob_at :: "path \<Rightarrow> nodes \<Rightarrow> string \<Rightarrow> bytes option" where
  "blob_at path m digest =
     (case blob_path_of path digest of
        Inl _ \<Rightarrow> None
      | Inr p \<Rightarrow> (case look p m of Some (FileNode bs) \<Rightarrow> Some bs | _ \<Rightarrow> None))"

text \<open>A piece of evidence: its type, the digest it goes by, and its bytes.\<close>

type_synonym evidence = "string \<times> string \<times> bytes"

definition payload_at :: "verify_lib \<Rightarrow> path \<Rightarrow> nodes \<Rightarrow> pub_descriptor \<Rightarrow> evidence list option" where
  "payload_at lib path m d =
     Option.bind (blob_at path m (pd_digest d)) (\<lambda>rb.
     case vl_referrer lib rb of
       Inl _ \<Rightarrow> None
     | Inr man \<Rightarrow>
         (case rm_layers man of
            [] \<Rightarrow> Some []
          | l # _ \<Rightarrow> map_option (\<lambda>bs. [(artifact_type_of man d l, rl_digest l, bs)])
              (blob_at path m (rl_digest l))))"

definition evidence_of :: "verify_lib \<Rightarrow> path \<Rightarrow> nodes \<Rightarrow> pub_descriptor list \<Rightarrow> evidence list option" where
  "evidence_of lib path m ds = map_option concat (those (map (payload_at lib path m) ds))"

definition last_of :: "artifact_class \<Rightarrow> evidence list \<Rightarrow> evidence option" where
  "last_of c evs = find (\<lambda>e. classify_artifact_type (fst e) = c) (rev evs)"

section \<open>Acceptance\<close>

definition slsa_judged ::
  "(bytes \<Rightarrow> message + json) \<Rightarrow> string \<Rightarrow> evidence option \<Rightarrow> pillar_verdict \<Rightarrow> bool" where
  "slsa_judged parse d e v \<longleftrightarrow>
     (case e of
        None \<Rightarrow> v = PillarMissing
      | Some (_, dg, bs) \<Rightarrow>
          (\<exists>stmt info. parse bs = Inr stmt \<and> slsa_states d stmt info \<and>
             v = PillarFound (''SLSA in-toto v1, builder='' @ si_builder_id info @ '', spec_hash='' @
               si_spec_hash info @ '', blob='' @ dg)))"

definition sbom_judged ::
  "(bytes \<Rightarrow> message + json) \<Rightarrow> evidence option \<Rightarrow> pillar_verdict \<Rightarrow> bool" where
  "sbom_judged parse e v \<longleftrightarrow>
     (case e of
        None \<Rightarrow> v = PillarMissing
      | Some (mt, dg, bs) \<Rightarrow>
          (\<exists>val. parse bs = Inr val \<and> sbom_states mt val) \<and> v = PillarFound (mt @ '', blob='' @ dg))"

definition signature_judged ::
  "'s cosign_verifier \<Rightarrow> 's \<Rightarrow> string \<Rightarrow> evidence option \<Rightarrow> pillar_verdict \<Rightarrow> bool" where
  "signature_judged cosign u d e v \<longleftrightarrow>
     (case e of
        None \<Rightarrow> v = PillarMissing
      | Some (_, dg, bs) \<Rightarrow> v = signature_verdict dg (fst (cosign d bs u)))"

definition evidence_meets ::
  "(bytes \<Rightarrow> message + json) \<Rightarrow> 's cosign_verifier \<Rightarrow> 's \<Rightarrow> string \<Rightarrow> evidence list \<Rightarrow> policy \<Rightarrow> bool" where
  "evidence_meets parse cosign u d evs p \<longleftrightarrow>
     (\<forall>l. po_slsa_min_level p = Some l \<longrightarrow>
        (\<exists>t dg bs stmt info. last_of ClassSlsa evs = Some (t, dg, bs) \<and> parse bs = Inr stmt \<and>
           slsa_states d stmt info \<and> l \<le> si_claimed_level info)) \<and>
     (\<forall>b. po_builder_id p = Some b \<longrightarrow>
        (\<exists>t dg bs stmt info. last_of ClassSlsa evs = Some (t, dg, bs) \<and> parse bs = Inr stmt \<and>
           slsa_states d stmt info \<and> si_builder_id info = b)) \<and>
     (po_require_signature p \<longrightarrow>
        (\<exists>t dg bs n. last_of ClassSignature evs = Some (t, dg, bs) \<and>
           fst (cosign d bs u) = VerifiedAndRecorded n)) \<and>
     (\<forall>fs. po_sbom_formats p = Some fs \<longrightarrow>
        (\<exists>t dg bs f. last_of ClassSbom evs = Some (t, dg, bs) \<and> f \<in> set fs \<and>
           contains_str (t @ '', blob='' @ dg) f))"

text \<open>\<open>u\<close> is the state in which the verifier of signatures is called.\<close>

definition accepted ::
  "verify_lib \<Rightarrow> path \<Rightarrow> policy option \<Rightarrow> 'x fs_scheme cosign_verifier \<Rightarrow> 'x fs_scheme \<Rightarrow>
   verify_report \<Rightarrow> bool" where
  "accepted lib path policy cosign u report \<longleftrightarrow>
     (\<exists>primary referrers evs.
        valid_image (vl_image lib) path (fs_nodes u) primary referrers \<and>
        evidence_of lib path (fs_nodes u) (map fst referrers) = Some evs \<and>
        vr_manifest_digest report = pd_digest (fst primary) \<and>
        slsa_judged (vl_value lib) (pd_digest (fst primary)) (last_of ClassSlsa evs) (vr_slsa report) \<and>
        sbom_judged (vl_value lib) (last_of ClassSbom evs) (vr_sbom report) \<and>
        signature_judged cosign u (pd_digest (fst primary)) (last_of ClassSignature evs)
          (vr_signature report) \<and>
        (\<forall>p. policy = Some p \<longrightarrow>
           evidence_meets (vl_value lib) cosign u (pd_digest (fst primary)) evs p))"

section \<open>The walk collects the evidence\<close>

definition blobs_of :: "evidence list \<Rightarrow> pillar_blobs" where
  "blobs_of evs = fold (\<lambda>(t, dg, bs). keep_blob t dg bs) evs no_blobs"

lemma last_of_snoc:
  "last_of c [] = None"
  "last_of c (evs @ [e]) = (if classify_artifact_type (fst e) = c then Some e else last_of c evs)"
  by (simp_all add: last_of_def)

lemma blobs_of_last:
  "pb_slsa (blobs_of evs) = map_option snd (last_of ClassSlsa evs)"
  "pb_sbom (blobs_of evs) = last_of ClassSbom evs"
  "pb_sig (blobs_of evs) = map_option snd (last_of ClassSignature evs)"
proof (induction evs rule: rev_induct)
  case Nil
  {
    case 1 show ?case by (simp add: blobs_of_def no_blobs_def last_of_snoc)
  next
    case 2 show ?case by (simp add: blobs_of_def no_blobs_def last_of_snoc)
  next
    case 3 show ?case by (simp add: blobs_of_def no_blobs_def last_of_snoc)
  }
next
  case (snoc e evs)
  obtain t dg bs where e: "e = (t, dg, bs)" by (cases e)
  have step: "blobs_of (evs @ [(t, dg, bs)]) = keep_blob t dg bs (blobs_of evs)"
    by (simp add: blobs_of_def split_beta)
  {
    case 1 show ?case using snoc
      by (simp add: step e keep_blob_def last_of_snoc split: artifact_class.split)
  next
    case 2 show ?case using snoc
      by (simp add: step e keep_blob_def last_of_snoc split: artifact_class.split)
  next
    case 3 show ?case using snoc
      by (simp add: step e keep_blob_def last_of_snoc split: artifact_class.split)
  }
qed

lemma those_snoc: "those (xs @ [x]) = Option.bind (those xs) (\<lambda>ys. map_option (\<lambda>y. ys @ [y]) x)"
proof (induction xs)
  case Nil
  then show ?case by (cases x) simp_all
next
  case (Cons y xs)
  then show ?case by (cases y; cases "those xs"; cases x) simp_all
qed

lemma evidence_of_snoc:
  "evidence_of lib path m (ds @ [d]) =
     Option.bind (evidence_of lib path m ds) (\<lambda>evs.
       map_option (\<lambda>p. evs @ p) (payload_at lib path m d))"
  by (cases "those (map (payload_at lib path m) ds)"; cases "payload_at lib path m d")
    (simp_all add: evidence_of_def those_snoc)

lemma evidence_of_Nil [simp]: "evidence_of lib path m [] = Some []"
  by (simp add: evidence_of_def)

lemma blobs_of_append: "blobs_of (evs @ p) = fold (\<lambda>(t, dg, bs). keep_blob t dg bs) p (blobs_of evs)"
  by (simp add: blobs_of_def)

lemma triple_read_image_blob:
  "triple (still m h) (read_image_blob im d)
     (\<lambda>bs s. still m h s \<and> blob_at (im_root im) m d = Some bs) (\<lambda>_. still m h)"
  unfolding read_image_blob_def
  by (rule triple_bind_fact [OF triple_lift_fact], assumption,
      rule triple_conseq [OF triple_read_still_err])
    (auto simp: blob_at_def blob_path_def)

lemma triple_walk_referrer:
  "triple (still m h) (walk_referrer lib im d st)
     (\<lambda>st' s. still m h s \<and> (\<exists>p. payload_at lib (im_root im) m d = Some p \<and>
        st' = fold (\<lambda>(t, dg, bs). keep_blob t dg bs) p st)) (\<lambda>_. still m h)"
  unfolding walk_referrer_def
proof (rule triple_bind_fact [OF triple_read_image_blob],
    rule triple_bind_fact [OF triple_lift_fact], assumption)
  fix rb man
  assume read: "blob_at (im_root im) m (pd_digest d) = Some rb"
    and "map_err (\<lambda>e. MalformedBlob (pd_digest d) (Txt ''referrer manifest JSON: '' # e))
      (vl_referrer lib rb) = Inr man"
  then have man: "vl_referrer lib rb = Inr man" by simp
  show "triple (still m h)
      (case rm_layers man of
         [] \<Rightarrow> io_return st
       | l # _ \<Rightarrow>
           io_bind (read_image_blob im (rl_digest l)) (\<lambda>layer_bytes.
           io_return (keep_blob (artifact_type_of man d l) (rl_digest l) layer_bytes st)))
      (\<lambda>st' s. still m h s \<and> (\<exists>p. payload_at lib (im_root im) m d = Some p \<and>
        st' = fold (\<lambda>(t, dg, bs). keep_blob t dg bs) p st)) (\<lambda>_. still m h)"
  proof (cases "rm_layers man")
    case Nil
    then show ?thesis using read man by (auto simp: payload_at_def intro!: triple_return)
  next
    case (Cons l ls)
    show ?thesis
      unfolding Cons list.case
      by (rule triple_bind_fact [OF triple_read_image_blob], rule triple_return)
        (simp add: payload_at_def read man Cons)
  qed
qed

lemma triple_walk:
  "triple (still m h) (io_fold (walk_referrer lib im) ds no_blobs)
     (\<lambda>st s. still m h s \<and> (\<exists>evs. evidence_of lib (im_root im) m ds = Some evs \<and> st = blobs_of evs))
     (\<lambda>_. still m h)"
proof -
  define I where "I ys st s \<longleftrightarrow> still m h s \<and>
      (\<exists>evs. evidence_of lib (im_root im) m ys = Some evs \<and> st = blobs_of evs)"
    for ys st and s :: "'a fs_scheme"
  have "triple (I [] no_blobs) (io_fold (walk_referrer lib im) ds no_blobs) (\<lambda>st. I ds st)
      (\<lambda>_. still m h)"
  proof (rule triple_fold)
    fix ys x st
    have "triple (I ys st) (walk_referrer lib im x st)
        (\<lambda>st' s. still m h s \<and> (\<exists>p. payload_at lib (im_root im) m x = Some p \<and>
          st' = fold (\<lambda>(t, dg, bs). keep_blob t dg bs) p st)) (\<lambda>_. still m h)"
      by (rule triple_pre [OF triple_walk_referrer]) (simp add: I_def)
    then show "triple (I ys st) (walk_referrer lib im x st) (\<lambda>st'. I (ys @ [x]) st') (\<lambda>_. still m h)"
      by (fastforce simp: triple_def I_def evidence_of_snoc blobs_of_append
          split: prod.splits sum.splits)
  qed
  then show ?thesis
    by (rule triple_conseq) (auto simp: I_def blobs_of_def)
qed

lemma run_read_image_blob:
  assumes "fs_faults s = []" and "blob_at (im_root im) (fs_nodes s) d = Some bs"
  shows "read_image_blob im d s = (Inr bs, s)"
  using assms
  by (auto simp: read_image_blob_def blob_at_def blob_path_def io_defs
      intro!: read_no_fault split: sum.splits option.splits fnode.splits)
    (simp add: read_no_fault)

lemma run_walk:
  assumes "fs_faults s = []" and "evidence_of lib (im_root im) (fs_nodes s) ds = Some evs"
  shows "io_fold (walk_referrer lib im) ds st s =
    (Inr (fold (\<lambda>(t, dg, bs). keep_blob t dg bs) evs st), s)"
  using assms(2)
proof (induction ds arbitrary: evs st)
  case Nil
  then show ?case by (simp add: io_apply_simps)
next
  case (Cons d ds)
  from Cons.prems obtain p evs' where p: "payload_at lib (im_root im) (fs_nodes s) d = Some p"
    and rest: "evidence_of lib (im_root im) (fs_nodes s) ds = Some evs'" and evs: "evs = p @ evs'"
    by (auto simp: evidence_of_def split: option.splits)
  from p obtain rb man where rb: "blob_at (im_root im) (fs_nodes s) (pd_digest d) = Some rb"
    and man: "vl_referrer lib rb = Inr man"
    by (cases "blob_at (im_root im) (fs_nodes s) (pd_digest d)")
      (auto simp: payload_at_def split: sum.splits)
  have "walk_referrer lib im d st s = (Inr (fold (\<lambda>(t, dg, bs). keep_blob t dg bs) p st), s)"
    using p rb man
    by (cases "rm_layers man")
      (auto simp: walk_referrer_def payload_at_def io_bind_apply io_apply_simps
        run_read_image_blob [OF assms(1)])
  then show ?case
    using Cons.IH [OF rest] by (simp add: io_bind_apply evs)
qed

section \<open>The judgement\<close>

definition judged ::
  "verify_lib \<Rightarrow> policy option \<Rightarrow> 's cosign_verifier \<Rightarrow> 's \<Rightarrow> string \<Rightarrow> evidence list \<Rightarrow> verify_report \<Rightarrow> bool" where
  "judged lib policy cosign u d evs report \<longleftrightarrow>
     vr_manifest_digest report = d \<and>
     slsa_judged (vl_value lib) d (last_of ClassSlsa evs) (vr_slsa report) \<and>
     sbom_judged (vl_value lib) (last_of ClassSbom evs) (vr_sbom report) \<and>
     signature_judged cosign u d (last_of ClassSignature evs) (vr_signature report) \<and>
     (\<forall>p. policy = Some p \<longrightarrow> evidence_meets (vl_value lib) cosign u d evs p)"

lemma slsa_pillar_iff:
  "slsa_pillar parse d (map_option snd e) = Inr v \<longleftrightarrow> slsa_judged parse d e v"
  by (fastforce simp: slsa_pillar_def slsa_judged_def and_then_Inr_iff validate_slsa_iff
      split: option.split prod.split)

lemma sbom_pillar_iff: "sbom_pillar parse e = Inr v \<longleftrightarrow> sbom_judged parse e v"
  by (auto simp: sbom_pillar_def sbom_judged_def and_then_Inr_iff validate_sbom_iff
      split: option.split prod.split)

lemma signature_pillar_run:
  "\<exists>t. signature_pillar cosign d (map_option snd e) u =
     (Inr (case e of None \<Rightarrow> PillarMissing | Some (_, dg, bs) \<Rightarrow> signature_verdict dg (fst (cosign d bs u))), t)"
  by (auto simp: signature_pillar_def io_defs io_run_def split: option.split prod.split)

lemma signature_verdict_found:
  "(\<exists>detail. signature_verdict dg x = PillarFound detail) \<longleftrightarrow> (\<exists>n. x = VerifiedAndRecorded n)"
  by (cases x) (simp_all add: signature_verdict_def)

lemma policy_met_iff:
  assumes "vr_manifest_digest r = d" and "slsa_judged parse d (last_of ClassSlsa evs) (vr_slsa r)"
    and "sbom_judged parse (last_of ClassSbom evs) (vr_sbom r)"
    and "signature_judged cosign u d (last_of ClassSignature evs) (vr_signature r)"
  shows "policy_met parse r p (map_option snd (last_of ClassSlsa evs)) \<longleftrightarrow>
    evidence_meets parse cosign u d evs p"
proof -
  have slsa: "(\<exists>dg bs info. map_option snd (last_of ClassSlsa evs) = Some (dg, bs) \<and>
        validate_slsa_statement parse bs d = Inr info \<and> P info) \<longleftrightarrow>
      (\<exists>t dg bs stmt info. last_of ClassSlsa evs = Some (t, dg, bs) \<and> parse bs = Inr stmt \<and>
        slsa_states d stmt info \<and> P info)" for P
    by (auto simp: validate_slsa_iff)
  have there: "vr_slsa r \<noteq> PillarMissing" if "last_of ClassSlsa evs = Some e" for e
    using assms(2) that by (auto simp: slsa_judged_def split: prod.splits)
  have signature: "(\<exists>detail. vr_signature r = PillarFound detail) \<longleftrightarrow>
      (\<exists>t dg bs n. last_of ClassSignature evs = Some (t, dg, bs) \<and>
         fst (cosign d bs u) = VerifiedAndRecorded n)"
  proof (cases "last_of ClassSignature evs")
    case None
    with assms(4) show ?thesis by (simp add: signature_judged_def)
  next
    case (Some e)
    obtain t dg bs where e: "e = (t, dg, bs)" by (cases e)
    from assms(4) have "vr_signature r = signature_verdict dg (fst (cosign d bs u))"
      by (simp add: signature_judged_def Some e)
    then show ?thesis by (simp only: signature_verdict_found Some e option.inject prod.inject) simp
  qed
  have sbom: "(\<exists>detail. vr_sbom r = PillarFound detail \<and> (\<exists>f \<in> set fs. contains_str detail f)) \<longleftrightarrow>
      (\<exists>t dg bs f. last_of ClassSbom evs = Some (t, dg, bs) \<and> f \<in> set fs \<and>
         contains_str (t @ '', blob='' @ dg) f)" for fs
    using assms(3) by (auto simp: sbom_judged_def split: option.splits)
  show ?thesis
    unfolding policy_met_def evidence_meets_def assms(1) signature sbom slsa [symmetric]
    using there by (auto simp del: split_paired_Ex)
qed

lemma judge_blobs_iff:
  "(\<exists>t. judge_blobs lib policy cosign d (blobs_of evs) u = (Inr report, t)) \<longleftrightarrow>
     judged lib policy cosign u d evs report"
proof -
  obtain x t where sig: "signature_pillar cosign d (map_option snd (last_of ClassSignature evs)) u = (Inr x, t)"
    and x: "x = (case last_of ClassSignature evs of None \<Rightarrow> PillarMissing
      | Some (_, dg, bs) \<Rightarrow> signature_verdict dg (fst (cosign d bs u)))"
    using signature_pillar_run [of cosign d "last_of ClassSignature evs" u] by blast
  have sig_iff: "signature_judged cosign u d (last_of ClassSignature evs) v \<longleftrightarrow> v = x" for v
    by (auto simp: signature_judged_def x split: option.split)
  show ?thesis
  proof (cases "slsa_pillar (vl_value lib) d (map_option snd (last_of ClassSlsa evs))")
    case (Inl e)
    then have "\<not> slsa_judged (vl_value lib) d (last_of ClassSlsa evs) v" for v
      by (simp flip: slsa_pillar_iff)
    then show ?thesis
      by (simp add: judge_blobs_def blobs_of_last Inl judged_def io_apply_simps)
  next
    case slsa: (Inr v)
    then have slsa_iff: "slsa_judged (vl_value lib) d (last_of ClassSlsa evs) v' \<longleftrightarrow> v' = v" for v'
      by (auto simp flip: slsa_pillar_iff)
    show ?thesis
    proof (cases "sbom_pillar (vl_value lib) (last_of ClassSbom evs)")
      case (Inl e)
      then have "\<not> sbom_judged (vl_value lib) (last_of ClassSbom evs) w" for w
        by (simp flip: sbom_pillar_iff)
      then show ?thesis
        by (simp add: judge_blobs_def blobs_of_last slsa Inl judged_def io_apply_simps)
    next
      case sbom: (Inr w)
      then have sbom_iff: "sbom_judged (vl_value lib) (last_of ClassSbom evs) w' \<longleftrightarrow> w' = w" for w'
        by (auto simp flip: sbom_pillar_iff)
      let ?r = "\<lparr>vr_manifest_digest = d, vr_slsa = v, vr_sbom = w, vr_signature = x\<rparr>"
      have eq: "report = ?r \<longleftrightarrow> vr_manifest_digest report = d \<and> vr_slsa report = v \<and>
          vr_sbom report = w \<and> vr_signature report = x"
        by (cases report) simp
      have "policy_met (vl_value lib) ?r p (map_option snd (last_of ClassSlsa evs)) \<longleftrightarrow>
          evidence_meets (vl_value lib) cosign u d evs p" for p
        by (rule policy_met_iff) (simp_all add: slsa_iff sbom_iff sig_iff)
      then have gate: "apply_policy (vl_value lib) ?r p (map_option snd (last_of ClassSlsa evs)) = Inr () \<longleftrightarrow>
          evidence_meets (vl_value lib) cosign u d evs p" for p
        by (simp add: apply_policy_iff)
      have run: "judge_blobs lib policy cosign d (blobs_of evs) u =
          (case policy of None \<Rightarrow> (Inr ?r, t)
           | Some p \<Rightarrow> (case apply_policy (vl_value lib) ?r p (map_option snd (last_of ClassSlsa evs)) of
               Inl e \<Rightarrow> (Inl e, t) | Inr _ \<Rightarrow> (Inr ?r, t)))"
        by (simp add: judge_blobs_def blobs_of_last slsa sbom sig Let_def io_defs
            split: option.split sum.split)
      show ?thesis
      proof (cases policy)
        case None
        then show ?thesis
          unfolding run by (auto simp: judged_def slsa_iff sbom_iff sig_iff eq)
      next
        case (Some p)
        then show ?thesis
          unfolding run using gate [of p]
          by (cases "apply_policy (vl_value lib) ?r p (map_option snd (last_of ClassSlsa evs))")
            (auto simp: judged_def slsa_iff sbom_iff sig_iff eq)
      qed
    qed
  qed
qed

lemma accepted_iff:
  "accepted lib path policy cosign u report \<longleftrightarrow>
     (\<exists>primary referrers evs.
        valid_image (vl_image lib) path (fs_nodes u) primary referrers \<and>
        evidence_of lib path (fs_nodes u) (map fst referrers) = Some evs \<and>
        judged lib policy cosign u (pd_digest (fst primary)) evs report)"
  by (simp add: accepted_def judged_def)

section \<open>A sample verification\<close>

text \<open>The sample image of \<open>Image_Dir\<close>, with a SLSA statement behind its referrer.\<close>

definition sample_statement :: json where
  "sample_statement = json_map
     [(''predicateType'', JString verify_slsa_provenance_v1),
      (''subject'', JArray [json_map [(''digest'',
         json_map [(''sha256'', JString (replicate 64 (CHR ''a'')))])]]),
      (''predicate'', json_map
         [(''buildDefinition'', json_map [(''externalParameters'', json_map
            [(''spec_hash'', JString ''h''), (''claimed_slsa_level'', JInt 2)])]),
          (''runDetails'', json_map [(''builder'', json_map [(''id'', JString ''b'')])])])]"

definition sample_verify_lib :: verify_lib where
  "sample_verify_lib =
     \<lparr>vl_image = sample_codecs,
      vl_value = (\<lambda>b. if b = ''Y'' then Inr sample_statement else Inl [Txt ''no document'']),
      vl_referrer = (\<lambda>b. if b = ''R'' then Inr
         \<lparr>rm_artifact_type = Some media_type_in_toto,
          rm_layers = [\<lparr>rl_media_type = ''l'', rl_digest = sample_digest (CHR ''e''), rl_size = 1\<rparr>]\<rparr>
         else Inl [Txt ''no referrer''])\<rparr>"

definition sample_policy :: policy where
  "sample_policy =
     \<lparr>po_slsa_min_level = Some 2, po_require_signature = False, po_builder_id = Some ''b'',
      po_sbom_formats = None\<rparr>"

definition sample_cosign :: "'s cosign_verifier" where
  "sample_cosign d b s = (VerifierNotInstalled, s)"

lemma sample_verify_ok:
  "is_ok (fst (verify sample_verify_lib ''/img'' (Some sample_policy) sample_cosign sample_image_fs))"
  by code_simp

lemma sample_verify_run:
  obtains report t where
    "verify sample_verify_lib ''/img'' (Some sample_policy) sample_cosign sample_image_fs = (Inr report, t)"
  using sample_verify_ok
  by (cases "verify sample_verify_lib ''/img'' (Some sample_policy) sample_cosign sample_image_fs";
      cases "fst (verify sample_verify_lib ''/img'' (Some sample_policy) sample_cosign sample_image_fs)")
    (auto simp: is_ok_def)

lemma verify_accepts:
  assumes "verify lib path policy cosign s = (Inr report, t)"
  shows "\<exists>u. still (fs_nodes s) (fs_seen s) u \<and> accepted lib path policy cosign u report"
proof -
  let ?S = "still (fs_nodes s) (fs_seen s)"
  obtain im s1 st s2 where opened: "open_image_dir (vl_image lib) path s = (Inr im, s1)"
    and walk: "io_fold (walk_referrer lib im) (id_referrers (im_descriptor im)) no_blobs s1 = (Inr st, s2)"
    and judge: "judge_blobs lib policy cosign (id_primary_digest (im_descriptor im)) st s2 = (Inr report, t)"
    using assms unfolding verify_def by (elim io_bind_InrE io_map_err_InrE)
  have "?S s" by (simp add: still_def)
  from triple_InrD [OF triple_open this opened] obtain primary referrers where
    s1: "?S s1" and valid: "valid_image (vl_image lib) path (fs_nodes s) primary referrers"
    and im: "im = image_of path primary referrers" by blast
  from triple_InrD [OF triple_walk s1 walk] obtain evs where
    s2: "?S s2" and evs: "evidence_of lib path (fs_nodes s) (map fst referrers) = Some evs"
    and st: "st = blobs_of evs"
    by (auto simp: im image_of_def)
  have "judged lib policy cosign s2 (pd_digest (fst primary)) evs report"
    using judge by (simp add: im image_of_def st flip: judge_blobs_iff)
  with valid evs s2 have "accepted lib path policy cosign s2 report"
    unfolding accepted_iff by (metis still_def)
  with s2 show ?thesis by blast
qed

section \<open>Properties\<close>





end
