(* ===== verification/Challenge.thy ===== *)
theory Challenge
  imports Std_Extra Hex
begin

text \<open>
  The text part of \<open>cli/src/registry/auth.rs\<close>: the parser of a \<open>WWW-Authenticate\<close> header
  and the encoder of query parameters. A peekable iterator over the characters is the rest of
  the string. White space is that of \<open>char::is_whitespace\<close>; in UTF-8 its encodings start at
  character boundaries only, so the parser may go byte by byte.
\<close>

section \<open>The challenge\<close>

function skip_separators :: "string \<Rightarrow> string" where
  "skip_separators s =
     (if s = [] then []
      else if ws_len s > 0 then skip_separators (drop (ws_len s) s)
      else if hd s = CHR '','' then skip_separators (tl s)
      else s)"
  by pat_completeness auto
termination
  by (relation "measure length") auto

declare skip_separators.simps [simp del]

text \<open>The key, and what follows it; a \<open>=\<close> is consumed.\<close>

fun read_key :: "string \<Rightarrow> string \<times> string" where
  "read_key [] = ([], [])"
| "read_key (c # s) =
     (if c = CHR ''='' then ([], s)
      else if c = CHR '','' \<or> ws_len (c # s) > 0 then ([], c # s)
      else let (k, rest) = read_key s in (c # k, rest))"

fun read_until :: "char \<Rightarrow> string \<Rightarrow> string \<times> string" where
  "read_until q [] = ([], [])"
| "read_until q (c # s) =
     (if c = q then ([], c # s) else let (v, rest) = read_until q s in (c # v, rest))"

text \<open>A quoted value ends at the next quote, which is consumed; another one at a comma.\<close>

definition read_value :: "string \<Rightarrow> string \<times> string" where
  "read_value s =
     (case s of
        [] \<Rightarrow> ([], [])
      | c # s' \<Rightarrow>
          if c = CHR 0x22 then (let (v, rest) = read_until (CHR 0x22) s' in (v, drop 1 rest))
          else read_until (CHR '','') s)"

lemma skip_separators_length: "length (skip_separators s) \<le> length s"
proof (induction s rule: skip_separators.induct)
  case (1 s)
  show ?case
  proof (cases "s = []")
    case True
    then show ?thesis by (simp add: skip_separators.simps)
  next
    case False
    with 1 show ?thesis
      by (subst skip_separators.simps) (force simp: neq_Nil_conv)
  qed
qed

lemma read_key_length:
  "read_key s = (k, rest) \<Longrightarrow> length rest \<le> length s \<and> (k \<noteq> [] \<longrightarrow> length rest < length s)"
  by (induction s arbitrary: k rest) (auto split: if_splits prod.splits)

lemma read_until_length: "read_until q s = (v, rest) \<Longrightarrow> length rest \<le> length s"
  by (induction s arbitrary: v rest) (auto split: if_splits prod.splits intro: le_SucI)

lemma read_value_length: "read_value s = (v, rest) \<Longrightarrow> length rest \<le> length s"
  by (auto simp: read_value_def split: list.splits if_splits prod.splits dest!: read_until_length)

text \<open>The pairs in the order they are inserted into the map.\<close>

function parse_params :: "string \<Rightarrow> (string \<times> string) list" where
  "parse_params s =
     (if s = [] then []
      else case read_key (skip_separators s) of
        (key, s1) \<Rightarrow>
          if key = [] then []
          else case read_value s1 of (val, s2) \<Rightarrow> (key, val) # parse_params s2)"
  by pat_completeness auto
termination
proof (relation "measure length", simp)
  fix s key s1 val s2 :: string and x y
  assume "(key, s1) = read_key (skip_separators s)" and "key \<noteq> []" and "(val, s2) = read_value s1"
  then have "length s1 < length (skip_separators s)" "length s2 \<le> length s1"
    using read_key_length [of "skip_separators s" key s1] read_value_length [of s1 val s2] by simp_all
  with skip_separators_length [of s] show "(s2, s) \<in> measure length" by simp
qed

declare parse_params.simps [simp del]

definition ascii_lower :: "char \<Rightarrow> char" where
  "ascii_lower c = (if is_ascii_uppercase c then char_of (code_of c + 32) else c)"

definition eq_ignore_ascii_case :: "string \<Rightarrow> string \<Rightarrow> bool" where
  "eq_ignore_ascii_case a b \<longleftrightarrow> map ascii_lower a = map ascii_lower b"

type_synonym challenge = "string \<Rightarrow> string option"

definition parse_bearer_challenge :: "string \<Rightarrow> challenge option" where
  "parse_bearer_challenge header =
     (let trimmed = trim header in
      case find_char trimmed (CHR '' '') of
        None \<Rightarrow> None
      | Some scheme_end \<Rightarrow>
          if \<not> eq_ignore_ascii_case (take scheme_end trimmed) ''bearer'' then None
          else Some (map_of (rev (parse_params (drop (scheme_end + 1) trimmed)))))"

section \<open>Query parameters\<close>

definition url_safe :: "char \<Rightarrow> bool" where
  "url_safe c \<longleftrightarrow> is_ascii_alphanumeric c \<or> c \<in> {CHR ''-'', CHR ''_'', CHR ''.'', CHR ''~'', CHR '','', CHR ''/'', CHR '':''}"

text \<open>\<open>{:02X}\<close>.\<close>

definition upper_hex_digit :: "nat \<Rightarrow> char" where
  "upper_hex_digit n = (if n < 10 then char_of (48 + n) else char_of (55 + n))"

definition urlencode_char :: "char \<Rightarrow> string" where
  "urlencode_char c =
     (if url_safe c then [c]
      else [CHR ''%'', upper_hex_digit (code_of c div 16), upper_hex_digit (code_of c mod 16)])"

definition urlencode :: "string \<Rightarrow> string" where
  "urlencode s = concat (map urlencode_char s)"

definition token_url :: "string \<Rightarrow> challenge \<Rightarrow> string" where
  "token_url realm ch =
     (let sep = (if contains_char realm (CHR ''?'') then ''&'' else ''?'');
          (url, sep) = (case ch ''service'' of
             Some svc \<Rightarrow> (realm @ sep @ ''service='' @ urlencode svc, ''&'')
           | None \<Rightarrow> (realm, sep))
      in case ch ''scope'' of
           Some scope \<Rightarrow> url @ sep @ ''scope='' @ urlencode scope
         | None \<Rightarrow> url)"

section \<open>What a challenge is to carry\<close>

text \<open>A reference decoder of query strings.\<close>

definition upper_hex_value :: "char \<Rightarrow> nat option" where
  "upper_hex_value c =
     (if 48 \<le> code_of c \<and> code_of c \<le> 57 then Some (code_of c - 48)
      else if 65 \<le> code_of c \<and> code_of c \<le> 70 then Some (code_of c - 55)
      else None)"

fun urldecode :: "string \<Rightarrow> string option" where
  "urldecode [] = Some []"
| "urldecode (c # s) =
     (if c = CHR ''%'' then
        (case s of
           a # b # rest \<Rightarrow>
             (case (upper_hex_value a, upper_hex_value b) of
                (Some x, Some y) \<Rightarrow> map_option ((#) (char_of (16 * x + y))) (urldecode rest)
              | _ \<Rightarrow> None)
         | _ \<Rightarrow> None)
      else if url_safe c then map_option ((#) c) (urldecode s)
      else None)"

definition decode_pair :: "string \<Rightarrow> (string \<times> string) option" where
  "decode_pair w = (case split_once (CHR ''='') w of
     Some (k, e) \<Rightarrow> map_option (Pair k) (urldecode e) | None \<Rightarrow> None)"

definition query_of :: "string \<Rightarrow> string \<Rightarrow> (string \<times> string) list option" where
  "query_of base url =
     (if url = base then Some []
      else those (map decode_pair (split_all (CHR ''&'') (drop (Suc (length base)) url))))"

definition token_query :: "challenge \<Rightarrow> (string \<times> string) list" where
  "token_query ch =
     (case ch ''service'' of Some s \<Rightarrow> [(''service'', s)] | None \<Rightarrow> []) @
     (case ch ''scope'' of Some s \<Rightarrow> [(''scope'', s)] | None \<Rightarrow> [])"

text \<open>A challenge in the form of the RFC: tokens as keys, quoted values.\<close>

definition token_key :: "string \<Rightarrow> bool" where
  "token_key k \<longleftrightarrow> k \<noteq> [] \<and> list_all (\<lambda>c. is_ascii_alphanumeric c \<or> c = CHR ''-'' \<or> c = CHR ''_'') k"

definition separator :: "string \<Rightarrow> bool" where
  "separator s \<longleftrightarrow> list_all (\<lambda>c. c = CHR '','' \<or> c = CHR '' '') s"

fun render_params :: "string \<Rightarrow> (string \<times> string) list \<Rightarrow> string" where
  "render_params sep [] = []"
| "render_params sep [(k, v)] = k @ CHR ''='' # CHR 0x22 # v @ [CHR 0x22]"
| "render_params sep ((k, v) # kvs) = k @ CHR ''='' # CHR 0x22 # v @ CHR 0x22 # sep @ render_params sep kvs"

lemma upper_hex_value: "n < 16 \<Longrightarrow> upper_hex_value (upper_hex_digit n) = Some n"
  by (auto simp: upper_hex_value_def upper_hex_digit_def code_of_def)

lemma urldecode_char: "urldecode (urlencode_char c @ s) = map_option ((#) c) (urldecode s)"
proof (cases "url_safe c")
  case True
  then have "c \<noteq> CHR ''%''" by (auto simp: url_safe_def ascii_defs)
  with True show ?thesis by (simp add: urlencode_char_def)
next
  case False
  have "code_of c div 16 < 16"
    by (rule less_mult_imp_div_less) (simp add: code_of_def nat_of_char_less_256)
  moreover have "16 * (code_of c div 16) + code_of c mod 16 = code_of c" by simp
  moreover have "char_of (code_of c) = c" by (simp add: code_of_def)
  ultimately show ?thesis
    using False by (simp add: urlencode_char_def upper_hex_value)
qed

lemma urldecode_urlencode [simp]: "urldecode (urlencode s) = Some s"
  by (induction s) (simp_all add: urlencode_def urldecode_char)

lemma urlencode_safe: "c \<in> set (urlencode s) \<Longrightarrow> c \<noteq> CHR ''&'' \<and> c \<noteq> CHR ''=''"
proof -
  assume "c \<in> set (urlencode s)"
  then obtain d where d: "c \<in> set (urlencode_char d)" by (auto simp: urlencode_def)
  have up: "upper_hex_digit n \<noteq> CHR ''&'' \<and> upper_hex_digit n \<noteq> CHR ''=''" if "n < 16" for n
    using upper_hex_value [OF that] by (auto simp: upper_hex_value_def code_of_def)
  have "code_of d div 16 < 16"
    by (rule less_mult_imp_div_less) (simp add: code_of_def nat_of_char_less_256)
  with d up show ?thesis
    by (auto simp: urlencode_char_def url_safe_def ascii_defs split: if_splits)
qed

lemma decode_pair_encoded: "CHR ''='' \<notin> set k \<Longrightarrow> decode_pair (k @ CHR ''='' # urlencode v) = Some (k, v)"
  using split_once_append by (simp add: decode_pair_def)

lemma split_pairs:
  assumes "CHR ''&'' \<notin> set k"
  shows "split_all (CHR ''&'') (k @ CHR ''='' # urlencode v) = [k @ CHR ''='' # urlencode v]"
    "split_all (CHR ''&'') (k @ CHR ''='' # urlencode v @ CHR ''&'' # x) =
      (k @ CHR ''='' # urlencode v) # split_all (CHR ''&'') x"
proof -
  have "CHR ''&'' \<notin> set (k @ CHR ''='' # urlencode v)"
    using assms urlencode_safe [of "CHR ''&''" v] by auto
  then show one: "split_all (CHR ''&'') (k @ CHR ''='' # urlencode v) = [k @ CHR ''='' # urlencode v]"
    by (rule split_all_no_sep)
  show "split_all (CHR ''&'') (k @ CHR ''='' # urlencode v @ CHR ''&'' # x) =
      (k @ CHR ''='' # urlencode v) # split_all (CHR ''&'') x"
    using split_all_append_sep [of "CHR ''&''" "k @ CHR ''='' # urlencode v" x] one by simp
qed

lemma query_pairs:
  assumes "CHR ''&'' \<notin> set k" "CHR ''='' \<notin> set k"
  shows "query_of base (base @ c # k @ CHR ''='' # urlencode v) = Some [(k, v)]"
    "CHR ''&'' \<notin> set l \<Longrightarrow> CHR ''='' \<notin> set l \<Longrightarrow>
     query_of base (base @ c # k @ CHR ''='' # urlencode v @ CHR ''&'' # l @ CHR ''='' # urlencode w) =
       Some [(k, v), (l, w)]"
  using assms by (simp_all add: query_of_def split_pairs decode_pair_encoded)

lemma token_url_query: "query_of realm (token_url realm ch) = Some (token_query ch)"
proof -
  define c where "c = (if contains_char realm (CHR ''?'') then CHR ''&'' else CHR ''?'')"
  have sep: "(if contains_char realm (CHR ''?'') then ''&'' else ''?'') = [c]" by (simp add: c_def)
  have names: "CHR ''&'' \<notin> set ''service''" "CHR ''='' \<notin> set ''service''"
    "CHR ''&'' \<notin> set ''scope''" "CHR ''='' \<notin> set ''scope''" by simp_all
  have url: "token_url realm ch = (case (ch ''service'', ch ''scope'') of
      (None, None) \<Rightarrow> realm
    | (Some v, None) \<Rightarrow> realm @ c # ''service'' @ CHR ''='' # urlencode v
    | (None, Some w) \<Rightarrow> realm @ c # ''scope'' @ CHR ''='' # urlencode w
    | (Some v, Some w) \<Rightarrow> realm @ c # ''service'' @ CHR ''='' # urlencode v @ CHR ''&'' #
        ''scope'' @ CHR ''='' # urlencode w)"
    by (simp add: token_url_def sep split: option.split)
  show ?thesis
    unfolding url token_query_def
    using query_pairs(1) [OF names(1,2), of realm c] query_pairs(1) [OF names(3,4), of realm c]
      query_pairs(2) [OF names(1,2) names(3,4), of realm c]
    by (cases "ch ''service''"; cases "ch ''scope''") (simp_all add: query_of_def [of realm realm])
qed

section \<open>Parsing what was rendered\<close>

lemma ws_len_zero:
  assumes "code_of c < 128" and "c \<noteq> CHR '' ''" and "13 < code_of c \<or> code_of c < 9"
  shows "ws_len (c # s) = 0"
proof -
  have "code_of c \<noteq> 32"
  proof
    assume "code_of c = 32"
    moreover have "code_of (CHR '' '') = 32" by (simp add: code_of_def)
    ultimately show False using assms(2) by (metis char_of_char code_of_def)
  qed
  with assms(1,3) show ?thesis by (auto simp: ws_len_def split: list.split)
qed

lemma ws_len_space [simp]: "ws_len (CHR '' '' # s) = 1"
  by (simp add: ws_len_def code_of_def)

lemma ws_len_quote [simp]: "ws_len (CHR 0x22 # s) = 0" "ws_len (CHR '','' # s) = 0"
  by (rule ws_len_zero; simp add: code_of_def)+

lemma key_char:
  assumes "is_ascii_alphanumeric c \<or> c = CHR ''-'' \<or> c = CHR ''_''"
  shows "ws_len (c # s) = 0" "c \<noteq> CHR ''=''" "c \<noteq> CHR '',''" "c \<noteq> CHR '' ''"
  using assms by (auto intro!: ws_len_zero simp: ascii_defs)

lemma skip_separators_append:
  "separator sep \<Longrightarrow> skip_separators (sep @ s) = skip_separators s"
  by (induction sep) (auto simp: separator_def skip_separators.simps [of "_ # _"])

lemma skip_separators_key:
  assumes "token_key k"
  shows "skip_separators (k @ s) = k @ s"
proof -
  obtain c k' where "k = c # k'" "is_ascii_alphanumeric c \<or> c = CHR ''-'' \<or> c = CHR ''_''"
    using assms by (cases k) (auto simp: token_key_def)
  then show ?thesis using key_char by (subst skip_separators.simps) simp
qed

lemma read_key_token:
  "list_all (\<lambda>c. is_ascii_alphanumeric c \<or> c = CHR ''-'' \<or> c = CHR ''_'') k \<Longrightarrow>
   read_key (k @ CHR ''='' # s) = (k, s)"
  by (induction k) (simp_all add: key_char)

lemma read_value_quoted:
  assumes "CHR 0x22 \<notin> set v"
  shows "read_value (CHR 0x22 # v @ CHR 0x22 # s) = (v, s)"
proof -
  have "read_until (CHR 0x22) (v @ CHR 0x22 # s) = (v, CHR 0x22 # s)"
    using assms by (induction v) auto
  then show ?thesis by (simp add: read_value_def)
qed

lemma parse_params_pair:
  assumes "token_key k" and "CHR 0x22 \<notin> set v" and "separator sep"
  shows "parse_params (sep @ k @ CHR ''='' # CHR 0x22 # v @ CHR 0x22 # s) = (k, v) # parse_params s"
proof -
  have "k \<noteq> []" using assms(1) by (simp add: token_key_def)
  moreover have "read_key (skip_separators (sep @ k @ CHR ''='' # CHR 0x22 # v @ CHR 0x22 # s)) =
      (k, CHR 0x22 # v @ CHR 0x22 # s)"
    using assms(1) by (simp only: skip_separators_append [OF assms(3)] skip_separators_key)
      (rule read_key_token, simp add: token_key_def)
  ultimately show ?thesis
    by (subst parse_params.simps) (simp add: read_value_quoted [OF assms(2)])
qed

lemma parse_render:
  assumes "\<forall>(k, v) \<in> set kvs. token_key k \<and> CHR 0x22 \<notin> set v" and "separator sep" and "separator sep0"
  shows "parse_params ((if kvs = [] then [] else sep0) @ render_params sep kvs) = kvs"
  using assms
proof (induction sep kvs arbitrary: sep0 rule: render_params.induct)
  case (2 sep k v)
  then show ?case using parse_params_pair [of k v sep0 "[]"] by (simp add: parse_params.simps [of "[]"])
next
  case (3 sep k v kv kvs)
  then show ?case using parse_params_pair [of k v sep0 "sep @ render_params sep (kv # kvs)"] by simp
qed (simp add: parse_params.simps)

lemma ws_last:
  assumes "ws_len s = length s" and "s \<noteq> []"
  shows "code_of (last s) \<noteq> 34"
proof -
  consider a where "s = [a]" | a b where "s = [a, b]" | a b c where "s = [a, b, c]" | a b c d r where "s = a # b # c # d # r"
    using assms(2) by (metis neq_Nil_conv)
  then show ?thesis
    using assms by cases (auto simp: ws_len_def split: if_splits list.splits)
qed

lemma trims_to_empty_last: "trims_to_empty s \<Longrightarrow> s \<noteq> [] \<Longrightarrow> last s \<noteq> CHR 0x22"
proof (induction s rule: trims_to_empty.induct)
  case (1 s)
  then have ws: "ws_len s \<noteq> 0" "trims_to_empty (drop (ws_len s) s)"
    by (auto simp: trims_to_empty.simps [of s] split: if_splits)
  show ?case
  proof (cases "ws_len s < length s")
    case True
    with 1 ws show ?thesis by (simp add: last_drop)
  next
    case False
    have "ws_len s \<le> length s"
      by (cases s; cases "tl s"; cases "tl (tl s)") (auto simp: ws_len_def split: list.split)
    with False have "ws_len s = length s" by simp
    with ws_last [OF this 1(3)] show ?thesis by (auto simp: code_of_def)
  qed
qed

lemma trim_end_quote: "trim_end (s @ [CHR 0x22]) = s @ [CHR 0x22]"
proof (induction s)
  case Nil
  then show ?case using trims_to_empty_last [of "[CHR 0x22]"] by auto
next
  case (Cons c s)
  then show ?case using trims_to_empty_last [of "c # s @ [CHR 0x22]"] by auto
qed

lemma render_params_end:
  "kvs \<noteq> [] \<Longrightarrow> \<exists>x. render_params sep kvs = x @ [CHR 0x22]"
  by (induction sep kvs rule: render_params.induct) auto

lemma ascii_lower_simps: "ascii_lower c = d \<Longrightarrow> is_ascii_lowercase d \<Longrightarrow> ws_len (c # s) = 0 \<and> c \<noteq> CHR '' ''"
  by (auto simp: ascii_lower_def ascii_defs intro!: ws_len_zero split: if_splits)

lemma bearer_scheme:
  assumes "eq_ignore_ascii_case scheme ''bearer''"
  shows "CHR '' '' \<notin> set scheme" "trim_start (scheme @ x) = scheme @ x"
proof -
  from assms have eq: "map ascii_lower scheme = ''bearer''"
    by (simp add: eq_ignore_ascii_case_def ascii_lower_def ascii_defs)
  have "list_all is_ascii_lowercase ''bearer''" by (simp add: ascii_defs)
  with eq have "\<forall>c \<in> set scheme. is_ascii_lowercase (ascii_lower c)" by (metis list.pred_map list.pred_set comp_apply)
  then have low: "c \<in> set scheme \<Longrightarrow> ws_len (c # y) = 0 \<and> c \<noteq> CHR '' ''" for c y
    using ascii_lower_simps by blast
  then show "CHR '' '' \<notin> set scheme" by blast
  obtain c t where "scheme = c # t" using eq by (cases scheme) auto
  with low [of c] show "trim_start (scheme @ x) = scheme @ x" by (simp add: trim_start.simps)
qed


definition sample_params :: "(string \<times> string) list" where
  "sample_params = [(''realm'', ''https://auth.example/token''), (''service'', ''registry.example''),
     (''scope'', ''repository:app:pull,push'')]"


end
