(* ===== verification/Pull_Auth.thy ===== *)
theory Pull_Auth
  imports Credentials Challenge Json
begin

text \<open>
  The rest of \<open>cli/src/registry/auth.rs\<close>: the chain of providers, the cache of bearer tokens
  and the exchange with the token realm. The cache is a field of the state; a lock that is
  never held across a panic is not modelled.
\<close>

record 'w pull = "'w pub" +
  pl_bearer :: "string \<Rightarrow> string option"

definition token_request_timeout :: nat where
  "token_request_timeout = 60"

text \<open>\<open>AuthManager::new\<close>: the cache of a new manager is empty; its chain is the value returned.\<close>

definition auth_manager_new :: "'s provider list \<Rightarrow> (('w, 'x) pull_scheme, 'e, 's provider list) io" where
  "auth_manager_new providers =
     io_bind (io_modify (\<lambda>s. s\<lparr>pl_bearer := Map.empty\<rparr>)) (\<lambda>_. io_return providers)"

text \<open>\<open>AuthManager::resolve\<close>: the first provider that has an answer or fails.\<close>

fun resolve_chain :: "'s provider list \<Rightarrow> string \<Rightarrow> ('s, cred_error, credentials option) io" where
  "resolve_chain [] registry = io_return None"
| "resolve_chain (p # ps) registry =
     io_bind (pv_resolve p registry) (\<lambda>r.
     case r of
       Some creds \<Rightarrow> io_return (Some creds)
     | None \<Rightarrow> resolve_chain ps registry)"

definition cache_bearer :: "string \<Rightarrow> string \<Rightarrow> (('w, 'x) pull_scheme, 'e, unit) io" where
  "cache_bearer registry token = io_modify (\<lambda>s. s\<lparr>pl_bearer := (pl_bearer s)(registry \<mapsto> token)\<rparr>)"

definition cached_bearer :: "string \<Rightarrow> (('w, 'x) pull_scheme, 'e, string option) io" where
  "cached_bearer registry = io_get (\<lambda>s. pl_bearer s registry)"

definition header_value_from_credentials :: "'w http_lib \<Rightarrow> credentials \<Rightarrow> pull_error + string" where
  "header_value_from_credentials hl cred =
     map_err (\<lambda>e. PullAuth (PsHeader e)) (hl_header_value hl (cr_auth_header cred))"

definition header_value_from_bearer :: "'w http_lib \<Rightarrow> string \<Rightarrow> pull_error + string" where
  "header_value_from_bearer hl token =
     map_err (\<lambda>e. PullAuth (PsHeader e)) (hl_header_value hl (''Bearer '' @ token))"

definition extract_bearer_challenge ::
  "'w http_lib \<Rightarrow> nat \<Rightarrow> (string \<times> bytes) list \<Rightarrow> challenge option" where
  "extract_bearer_challenge hl status headers =
     (if status \<noteq> 401 then None
      else case map_of headers ''www-authenticate'' of
        None \<Rightarrow> None
      | Some hv \<Rightarrow>
          (case hl_header_text hl hv of Inl _ \<Rightarrow> None | Inr s \<Rightarrow> parse_bearer_challenge s))"

definition read_response_body_capped :: "http_response \<Rightarrow> bytes" where
  "read_response_body_capped resp = read_capped pull_body_preview [] resp"

definition auth_header :: "string option \<Rightarrow> (string \<times> string) list" where
  "auth_header a = (case a of Some hv \<Rightarrow> [(''authorization'', hv)] | None \<Rightarrow> [])"

definition auth_text :: "message \<Rightarrow> pull_error" where
  "auth_text m = PullAuth (PsText m)"

text \<open>The token in the document the realm answers with.\<close>

definition token_of_json :: "json \<Rightarrow> pull_error + string" where
  "token_of_json parsed =
     and_then (ok_or (auth_text [Txt ''token endpoint JSON missing '', Txt [CHR 0x27], Txt ''token'',
         Txt [CHR 0x27], Txt '' / '', Txt [CHR 0x27], Txt ''access_token'', Txt [CHR 0x27]])
       (Option.bind (case json_get ''token'' parsed of
          Some v \<Rightarrow> Some v | None \<Rightarrow> json_get ''access_token'' parsed) json_as_str)) (\<lambda>token_str.
     if token_str = [] then Inl (auth_text [Txt ''token endpoint returned empty token string''])
     else Inr token_str)"

definition fetch_bearer_token ::
  "'w http_lib \<Rightarrow> (bytes \<Rightarrow> string + json) \<Rightarrow> challenge \<Rightarrow> string option \<Rightarrow>
   (('w, 'x) pub_scheme, pull_error, string) io" where
  "fetch_bearer_token hl from_slice ch static_auth =
     io_bind (io_lift (ok_or (auth_text
       [Txt ''WWW-Authenticate Bearer challenge missing realm parameter'']) (ch ''realm''))) (\<lambda>realm.
     let url = token_url realm ch in
     io_bind (http_send hl \<lparr>rq_method = MGet, rq_url = url, rq_headers = auth_header static_auth,
       rq_body = Inr []\<rparr>) (\<lambda>r.
     io_bind (io_lift (map_err (\<lambda>e. PullAuth (PsHttp e)) r)) (\<lambda>resp.
     let status = rs_status resp in
     if \<not> is_success status then
       io_fail (auth_text [Txt ''token endpoint '', Txt url, Txt '' returned HTTP '', Txt (dec_of_nat status),
         Txt '': '', Txt (preview_body_capped (read_response_body_capped resp))])
     else
       io_bind (io_lift (map_err (\<lambda>e. PullAuth (PsHttp e)) (body_bytes resp))) (\<lambda>body.
       io_bind (io_lift (map_err (\<lambda>e. auth_text [Txt ''token endpoint returned non-JSON: '', Txt e])
         (from_slice body))) (\<lambda>parsed.
       io_lift (token_of_json parsed))))))"

section \<open>The chain keeps the contract of its members\<close>

text \<open>
  A chain in which every provider keeps the contract. What a chain answers is the answer of
  its first provider that has one.
\<close>

locale provider_chain =
  fixes ps :: "'s provider list"
  assumes member: "p \<in> set ps \<Longrightarrow> credential_source (pv_name p) (pv_resolve p)"
begin

lemma tail:
  "ps = p # qs \<Longrightarrow> provider_chain qs"
  using member by (intro provider_chain.intro) simp

end

definition silent_about :: "string \<Rightarrow> 's \<Rightarrow> 's provider \<Rightarrow> bool" where
  "silent_about registry s p \<longleftrightarrow> fst (pv_resolve p registry s) = Inr None"

definition first_answer :: "'s provider list \<Rightarrow> string \<Rightarrow> 's \<Rightarrow> cred_error + credentials option" where
  "first_answer ps registry s =
     (case dropWhile (silent_about registry s) ps of
        [] \<Rightarrow> Inr None
      | p # _ \<Rightarrow> fst (pv_resolve p registry s))"

lemma chain_answers: "provider_chain ps \<Longrightarrow> resolve_chain ps registry s = (first_answer ps registry s, s)"
proof (induction ps)
  case Nil
  then show ?case by (simp add: first_answer_def io_apply_simps)
next
  case (Cons p ps)
  have ih: "resolve_chain ps registry s = (first_answer ps registry s, s)"
    by (rule Cons.IH [OF provider_chain.tail [OF Cons.prems refl]])
  have "credential_source (pv_name p) (pv_resolve p)"
    by (rule provider_chain.member [OF Cons.prems]) simp
  then show ?case
    by (rule credential_source.answer [of "pv_name p" "pv_resolve p" registry s])
      (simp_all add: io_bind_def io_apply_simps ih first_answer_def silent_about_def)
qed

end
