(* ===== verification/Ref_Parser.thy ===== *)
theory Ref_Parser
  imports Pull_Types
begin

text \<open>
  \<open>cli/src/registry/ref_parser.rs\<close>: references to artifacts in a registry. \<open>{:?}\<close> of a
  character is kept symbolic, like that of a string.
\<close>

datatype ref_target = Tag string | Digest string

record registry_ref =
  rr_host :: string
  rr_repository :: string
  rr_target :: ref_target
  rr_raw :: string

definition manifest_reference :: "registry_ref \<Rightarrow> string" where
  "manifest_reference r = (case rr_target r of Tag t \<Rightarrow> t | Digest d \<Rightarrow> d)"

definition max_tag_len :: nat where "max_tag_len = 128"

definition max_repo_len :: nat where "max_repo_len = 256"

definition malformed :: "string \<Rightarrow> message \<Rightarrow> pull_error + 'a" where
  "malformed raw reason = Inl (MalformedRef raw reason)"

text \<open>\<open>for c in s.chars() { if !ok(c) { return Err } }\<close>, for a test that only ASCII passes.\<close>

fun check_chars :: "(char \<Rightarrow> bool) \<Rightarrow> string \<Rightarrow> string \<Rightarrow> string \<Rightarrow> pull_error + unit" where
  "check_chars ok what raw [] = Inr ()"
| "check_chars ok what raw (c # s) =
     (if \<not> ok c then
        malformed raw [Txt what, Txt '' contains illegal character '', Dbg (first_char (c # s))]
      else check_chars ok what raw s)"

definition tag_char :: "char \<Rightarrow> bool" where
  "tag_char c \<longleftrightarrow> is_ascii_alphanumeric c \<or> c = CHR ''_'' \<or> c = CHR ''.'' \<or> c = CHR ''-''"

definition host_char :: "char \<Rightarrow> bool" where
  "host_char c \<longleftrightarrow> is_ascii_alphanumeric c \<or> c = CHR ''.'' \<or> c = CHR ''-'' \<or> c = CHR '':''"

definition repository_char :: "char \<Rightarrow> bool" where
  "repository_char c \<longleftrightarrow> is_ascii_lowercase c \<or> is_ascii_digit c \<or> c = CHR ''_'' \<or> c = CHR ''.'' \<or>
     c = CHR ''-'' \<or> c = CHR ''/''"

definition validate_tag_format :: "string \<Rightarrow> string \<Rightarrow> pull_error + unit" where
  "validate_tag_format tag raw =
     (if length tag > max_tag_len then
        malformed raw [Txt ''tag exceeds '', Txt (dec_of_nat max_tag_len), Txt '' chars'']
      else check_chars tag_char ''tag'' raw tag)"

definition validate_ref_digest :: "string \<Rightarrow> string \<Rightarrow> pull_error + unit" where
  "validate_ref_digest digest raw =
     (case split_once (CHR '':'') digest of
        None \<Rightarrow> malformed raw [Txt ''digest missing '', Txt [CHR 0x27], Txt '':'', Txt [CHR 0x27],
          Txt '' separator (expected sha256:<hex>)'']
      | Some (algo, hex) \<Rightarrow>
          if algo \<noteq> ''sha256'' then
            malformed raw [Txt ''unsupported digest algorithm '', Dbg algo, Txt ''; only sha256 is supported'']
          else if length hex \<noteq> 64 then
            malformed raw [Txt ''sha256 hex must be 64 chars, got '', Txt (dec_of_nat (length hex))]
          else if \<not> list_all is_lower_hex hex then
            malformed raw [Txt ''sha256 hex must be lowercase 0-9a-f'']
          else Inr ())"

definition validate_host_format :: "string \<Rightarrow> string \<Rightarrow> pull_error + unit" where
  "validate_host_format host raw =
     (if starts_with host '':'' \<or> ends_with host '':'' then
        malformed raw [Txt ''malformed host '', Dbg host, Txt '' (stray '', Txt [CHR 0x27], Txt '':'', Txt [CHR 0x27], Txt '')'']
      else and_then (check_chars host_char ''host'' raw host) (\<lambda>_.
        if \<not> contains_char host (CHR ''.'') \<and> \<not> contains_char host (CHR '':'') then
          malformed raw [Txt ''host '', Dbg host, Txt '' is not a registry '', Txt em_dash,
            Txt '' expected `<dns>` or `<host>:<port>` (Docker Hub default-host shorthand isn'',
            Txt [CHR 0x27], Txt ''t supported in v0)'']
        else Inr ()))"

definition validate_repository_format :: "string \<Rightarrow> string \<Rightarrow> pull_error + unit" where
  "validate_repository_format repo raw =
     (if length repo > max_repo_len then
        malformed raw [Txt ''repository exceeds '', Txt (dec_of_nat max_repo_len), Txt '' chars'']
      else if starts_with repo ''/'' \<or> ends_with repo ''/'' then
        malformed raw [Txt ''repository cannot start or end with '', Txt [CHR 0x27], Txt ''/'', Txt [CHR 0x27]]
      else check_chars repository_char ''repository'' raw repo)"

text \<open>The last position of a character.\<close>

definition rfind_char :: "string \<Rightarrow> char \<Rightarrow> nat option" where
  "rfind_char s c = map_option (\<lambda>(a, _). length a) (rsplit_once c s)"

definition split_target :: "string \<Rightarrow> pull_error + string \<times> ref_target" where
  "split_target raw =
     (case rsplit_once (CHR ''@'') raw of
        Some (head, digest) \<Rightarrow>
          and_then (validate_ref_digest digest raw) (\<lambda>_. Inr (head, Digest digest))
      | None \<Rightarrow>
          (case find_char raw (CHR ''/'') of
             None \<Rightarrow> malformed raw [Txt ''no '', Txt [CHR 0x27], Txt ''/'', Txt [CHR 0x27],
               Txt '' separator '', Txt em_dash, Txt '' a ref must be host[:port]/repo[:tag|@digest]'']
           | Some first_slash \<Rightarrow>
               let after_slash = drop first_slash raw in
               case rfind_char after_slash (CHR '':'') of
                 Some rel_idx \<Rightarrow>
                   let abs_idx = first_slash + rel_idx; tag = drop (abs_idx + 1) raw in
                   if tag = [] then
                     malformed raw [Txt ''empty tag after '', Txt [CHR 0x27], Txt '':'', Txt [CHR 0x27]]
                   else and_then (validate_tag_format tag raw) (\<lambda>_. Inr (take abs_idx raw, Tag tag))
               | None \<Rightarrow> malformed raw [Txt ''missing tag '', Txt em_dash,
                   Txt '' expected host[:port]/repo:tag or @sha256:<hex>'']))"

definition parse_registry_ref :: "string \<Rightarrow> pull_error + registry_ref" where
  "parse_registry_ref raw =
     (if raw = [] then malformed raw [Txt ''empty reference'']
      else if contains_char raw (CHR '' '') then malformed raw [Txt ''whitespace in reference'']
      else if starts_with raw ''http://'' \<or> starts_with raw ''https://'' then
        malformed raw [Txt ''scheme prefix is not part of an OCI reference'']
      else and_then (split_target raw) (\<lambda>(head, target).
        case find_char head (CHR ''/'') of
          None \<Rightarrow> malformed raw [Txt ''missing '', Txt [CHR 0x27], Txt ''/'', Txt [CHR 0x27],
            Txt '' between host and repository'']
        | Some first_slash \<Rightarrow>
            let host = take first_slash head; repository = drop (first_slash + 1) head in
            if host = [] then malformed raw [Txt ''empty host'']
            else if repository = [] then malformed raw [Txt ''empty repository'']
            else and_then (validate_host_format host raw) (\<lambda>_.
              and_then (validate_repository_format repository raw) (\<lambda>_.
              Inr \<lparr>rr_host = host, rr_repository = repository, rr_target = target, rr_raw = raw\<rparr>))))"

section \<open>What is accepted\<close>

definition valid_tag :: "string \<Rightarrow> bool" where
  "valid_tag t \<longleftrightarrow> t \<noteq> [] \<and> length t \<le> 128 \<and> list_all tag_char t"

definition valid_ref_digest :: "string \<Rightarrow> bool" where
  "valid_ref_digest d \<longleftrightarrow> (\<exists>hex. d = ''sha256:'' @ hex \<and> length hex = 64 \<and> list_all is_lower_hex hex)"

definition valid_host :: "string \<Rightarrow> bool" where
  "valid_host h \<longleftrightarrow> h \<noteq> [] \<and> hd h \<noteq> CHR '':'' \<and> last h \<noteq> CHR '':'' \<and> list_all host_char h \<and>
     (CHR ''.'' \<in> set h \<or> CHR '':'' \<in> set h)"

definition valid_repository :: "string \<Rightarrow> bool" where
  "valid_repository r \<longleftrightarrow> r \<noteq> [] \<and> length r \<le> 256 \<and> hd r \<noteq> CHR ''/'' \<and> last r \<noteq> CHR ''/'' \<and>
     list_all repository_char r"

definition render_target :: "ref_target \<Rightarrow> string" where
  "render_target t = (case t of Tag n \<Rightarrow> CHR '':'' # n | Digest d \<Rightarrow> CHR ''@'' # d)"

definition render_ref :: "string \<Rightarrow> string \<Rightarrow> ref_target \<Rightarrow> string" where
  "render_ref host repository target = host @ CHR ''/'' # repository @ render_target target"

definition valid_target :: "ref_target \<Rightarrow> bool" where
  "valid_target t = (case t of Tag n \<Rightarrow> valid_tag n | Digest d \<Rightarrow> valid_ref_digest d)"

lemma check_chars_Inr [simp]: "check_chars ok what raw s = Inr () \<longleftrightarrow> list_all ok s"
  by (induction s) (auto simp: malformed_def)

lemma malformed_not_Inr [simp]: "malformed raw m \<noteq> Inr x"
  by (simp add: malformed_def)

lemma ends_with_one: "ends_with s [c] \<longleftrightarrow> s \<noteq> [] \<and> last s = c"
  by (induction s rule: rev_induct) (auto simp: ends_with_def)

lemma starts_with_one: "starts_with s [c] \<longleftrightarrow> s \<noteq> [] \<and> hd s = c"
  by (cases s) auto

lemma validate_tag_Inr: "tag \<noteq> [] \<Longrightarrow> validate_tag_format tag raw = Inr () \<longleftrightarrow> valid_tag tag"
  by (auto simp: validate_tag_format_def valid_tag_def max_tag_len_def)

lemma validate_ref_digest_Inr: "validate_ref_digest d raw = Inr () \<longleftrightarrow> valid_ref_digest d"
proof (cases "split_once (CHR '':'') d")
  case None
  then have "\<not> valid_ref_digest d" by (auto simp: valid_ref_digest_def)
  then show ?thesis by (simp only: validate_ref_digest_def None option.case malformed_not_Inr)
next
  case (Some p)
  then obtain a h where d: "split_once (CHR '':'') d = Some (a, h)" by (cases p) auto
  have eq: "(\<exists>hex. d = ''sha256:'' @ hex \<and> P hex) \<longleftrightarrow> a = ''sha256'' \<and> P h" for P
  proof
    assume "\<exists>hex. d = ''sha256:'' @ hex \<and> P hex"
    then obtain hex where h: "d = ''sha256'' @ CHR '':'' # hex" "P hex" by auto
    then have "split_once (CHR '':'') d = Some (''sha256'', hex)" by (simp only: split_once_append) simp
    with d h(2) show "a = ''sha256'' \<and> P h" by simp
  next
    assume "a = ''sha256'' \<and> P h"
    with d show "\<exists>hex. d = ''sha256:'' @ hex \<and> P hex" by (auto simp: split_once_Some_iff)
  qed
  show ?thesis
    unfolding valid_ref_digest_def eq by (auto simp: validate_ref_digest_def d)
qed

lemma validate_host_Inr: "host \<noteq> [] \<Longrightarrow> validate_host_format host raw = Inr () \<longleftrightarrow> valid_host host"
  by (auto simp: validate_host_format_def valid_host_def starts_with_one ends_with_one and_then_Inr_iff contains_char_def)

lemma validate_repository_Inr:
  "r \<noteq> [] \<Longrightarrow> validate_repository_format r raw = Inr () \<longleftrightarrow> valid_repository r"
  by (auto simp: validate_repository_format_def valid_repository_def starts_with_one ends_with_one max_repo_len_def)

lemma target_chars:
  assumes "valid_target t" and "c \<in> set (tl (render_target t))"
  shows "tag_char c \<or> c = CHR '':''"
proof (cases t)
  case (Tag n)
  with assms show ?thesis by (simp add: valid_target_def render_target_def valid_tag_def list_all_iff)
next
  case (Digest d)
  with assms obtain hex where d: "c \<in> set (''sha256:'' @ hex)" "list_all is_lower_hex hex"
    unfolding valid_target_def valid_ref_digest_def render_target_def by auto
  then consider "c \<in> set ''sha256:''" | "is_lower_hex c" by (auto simp: list_all_iff)
  then show ?thesis
  proof cases
    case 1
    have "list_all (\<lambda>c. tag_char c \<or> c = CHR '':'') ''sha256:''"
      by (simp add: tag_char_def ascii_defs)
    with 1 show ?thesis unfolding list_all_iff by blast
  next
    case 2
    then show ?thesis by (auto simp: tag_char_def is_ascii_alphanumeric_def is_lower_hex_def
        is_ascii_lowercase_def)
  qed
qed

lemma special_chars:
  "\<not> tag_char (CHR ''@'')" "\<not> tag_char (CHR '':'')" "\<not> tag_char (CHR ''/'')" "\<not> tag_char (CHR '' '')"
  "\<not> host_char (CHR ''@'')" "\<not> host_char (CHR ''/'')" "\<not> host_char (CHR '' '')"
  "\<not> repository_char (CHR ''@'')" "\<not> repository_char (CHR '':'')" "\<not> repository_char (CHR '' '')"
  by (simp_all add: tag_char_def host_char_def repository_char_def ascii_defs)

lemma find_char_append: "c \<notin> set a \<Longrightarrow> find_char (a @ c # b) c = Some (length a)"
  by (simp add: find_char_Some_iff)

lemma find_char_split:
  assumes "find_char s c = Some i"
  shows "s = take i s @ c # drop (i + 1) s" "c \<notin> set (take i s)"
proof -
  from assms have i: "i < length s" "s ! i = c" and notin: "c \<notin> set (take i s)"
    by (simp_all add: find_char_Some_iff)
  from i show "s = take i s @ c # drop (i + 1) s" by (metis Suc_eq_plus1 id_take_nth_drop)
  show "c \<notin> set (take i s)" by (rule notin)
qed

lemma split_target_sound:
  assumes "split_target raw = Inr (head, t)"
  shows "raw = head @ render_target t \<and> valid_target t"
proof (cases "rsplit_once (CHR ''@'') raw")
  case (Some p)
  then obtain h d where d: "rsplit_once (CHR ''@'') raw = Some (h, d)" by (cases p) auto
  with assms have "validate_ref_digest d raw = Inr ()" "head = h" "t = Digest d"
    by (auto simp: split_target_def and_then_Inr_iff)
  with d show ?thesis
    by (simp add: validate_ref_digest_Inr valid_target_def render_target_def rsplit_once_Some_iff)
next
  case None
  with assms obtain i where i: "find_char raw (CHR ''/'') = Some i"
    by (cases "find_char raw (CHR ''/'')") (auto simp only: split_target_def option.case malformed_not_Inr)
  obtain a b where ab: "rsplit_once (CHR '':'') (drop i raw) = Some (a, b)"
    using assms unfolding split_target_def None i option.case Let_def rfind_char_def
    by (cases "rsplit_once (CHR '':'') (drop i raw)")
      (auto simp only: option.case option.map malformed_not_Inr)
  then have cut: "drop i raw = a @ CHR '':'' # b" by (simp add: rsplit_once_Some_iff)
  have raw: "raw = take i raw @ a @ CHR '':'' # b" using cut append_take_drop_id [of i raw] by simp
  have len: "length (take i raw) = i" using i by (simp add: find_char_Some_iff)
  have tag: "drop (i + length a + 1) raw = b" "take (i + length a) raw = take i raw @ a"
    using len by (subst raw, simp)+
  from assms have "b \<noteq> [] \<and> validate_tag_format b raw = Inr () \<and> head = take i raw @ a \<and> t = Tag b"
    unfolding split_target_def None i option.case Let_def rfind_char_def ab option.map prod.case tag
    by (auto simp: and_then_Inr_iff split: if_splits)
  with raw show ?thesis
    using validate_tag_Inr by (auto simp: valid_target_def render_target_def)
qed

lemma split_target_complete:
  assumes "list_all host_char host" and "list_all repository_char repo" and "valid_target t"
  shows "split_target (host @ CHR ''/'' # repo @ render_target t) = Inr (host @ CHR ''/'' # repo, t)"
proof (cases t)
  case (Digest d)
  have "CHR ''@'' \<notin> set d"
    using assms(3) target_chars [OF assms(3), of "CHR ''@''"] special_chars
    by (auto simp: Digest render_target_def)
  then have "rsplit_once (CHR ''@'') ((host @ CHR ''/'' # repo) @ CHR ''@'' # d) = Some (host @ CHR ''/'' # repo, d)"
    by (simp only: rsplit_once_Some_iff) simp
  then have "rsplit_once (CHR ''@'') (host @ CHR ''/'' # repo @ CHR ''@'' # d) = Some (host @ CHR ''/'' # repo, d)"
    by simp
  moreover have "validate_ref_digest d raw = Inr ()" for raw
    using assms(3) by (simp add: Digest valid_target_def validate_ref_digest_Inr)
  ultimately show ?thesis by (simp add: split_target_def Digest render_target_def)
next
  case (Tag n)
  let ?raw = "host @ CHR ''/'' # repo @ CHR '':'' # n"
  have n: "valid_tag n" "n \<noteq> []" "list_all tag_char n"
    using assms(3) by (simp_all add: Tag valid_target_def valid_tag_def)
  have none: "rsplit_once (CHR ''@'') ?raw = None"
    using assms(1,2) n(3) special_chars by (auto simp: list_all_iff)
  have slash: "find_char ?raw (CHR ''/'') = Some (length host)"
    using assms(1) special_chars by (intro find_char_append) (auto simp: list_all_iff)
  have "CHR '':'' \<notin> set n" using n(3) special_chars by (auto simp: list_all_iff)
  then have "rsplit_once (CHR '':'') ((CHR ''/'' # repo) @ CHR '':'' # n) = Some (CHR ''/'' # repo, n)"
    by (simp only: rsplit_once_Some_iff) simp
  then have colon: "rfind_char (drop (length host) ?raw) (CHR '':'') = Some (Suc (length repo))"
    unfolding rfind_char_def by simp
  have tag: "validate_tag_format n ?raw = Inr ()" using n by (simp add: validate_tag_Inr)
  show ?thesis
    unfolding Tag render_target_def ref_target.case split_target_def none option.case slash colon Let_def
    using n(2) tag by simp
qed

text \<open>Every refusal is a \<open>MalformedRef\<close> of the input.\<close>

definition refuses :: "string \<Rightarrow> pull_error + 'a \<Rightarrow> bool" where
  "refuses raw r \<longleftrightarrow> (\<forall>e. r = Inl e \<longrightarrow> (\<exists>m. e = MalformedRef raw m))"

lemma refuses_simps [simp, intro!]: "refuses raw (malformed raw m)" "refuses raw (Inr x)"
  by (simp_all add: refuses_def malformed_def)

lemma refuses_and_then [intro!]:
  "refuses raw r \<Longrightarrow> (\<And>x. refuses raw (f x)) \<Longrightarrow> refuses raw (and_then r f)"
  by (cases r) (auto simp: refuses_def)

lemma refuses_cases [intro!]:
  "refuses raw x \<Longrightarrow> refuses raw y \<Longrightarrow> refuses raw (if b then x else y)"
  "refuses raw x \<Longrightarrow> (\<And>z. refuses raw (f z)) \<Longrightarrow> refuses raw (case oz of None \<Rightarrow> x | Some z \<Rightarrow> f z)"
  by (simp, cases oz, simp_all)

lemma refuses_check_chars [intro!]: "refuses raw (check_chars ok what raw s)"
  by (induction s) auto

lemma refuses_formats [intro!]:
  "refuses raw (validate_tag_format t raw)" "refuses raw (validate_ref_digest d raw)"
  "refuses raw (validate_host_format h raw)" "refuses raw (validate_repository_format p raw)"
  by (auto simp only: validate_tag_format_def validate_ref_digest_def validate_host_format_def
      validate_repository_format_def split_paired_all prod.case)

lemma refuses_parse: "refuses raw (parse_registry_ref raw)"
  by (auto simp only: parse_registry_ref_def split_target_def Let_def split_paired_all prod.case)

lemma if_Inr:
  assumes "(if b then malformed raw m else y) = Inr x"
  obtains "\<not> b" and "y = Inr x"
  using assms by (auto split: if_splits)

lemma parse_registry_ref_sound:
  assumes "parse_registry_ref raw = Inr r"
  shows "rr_raw r = raw \<and> raw = render_ref (rr_host r) (rr_repository r) (rr_target r) \<and>
     valid_host (rr_host r) \<and> valid_repository (rr_repository r) \<and> valid_target (rr_target r)"
proof -
  from assms obtain head t where split: "split_target raw = Inr (head, t)"
    and rest: "(case find_char head (CHR ''/'') of
        None \<Rightarrow> malformed raw [Txt ''missing '', Txt [CHR 0x27], Txt ''/'', Txt [CHR 0x27],
          Txt '' between host and repository'']
      | Some first_slash \<Rightarrow>
          let host = take first_slash head; repository = drop (first_slash + 1) head in
          if host = [] then malformed raw [Txt ''empty host'']
          else if repository = [] then malformed raw [Txt ''empty repository'']
          else and_then (validate_host_format host raw) (\<lambda>_.
            and_then (validate_repository_format repository raw) (\<lambda>_.
            Inr \<lparr>rr_host = host, rr_repository = repository, rr_target = t, rr_raw = raw\<rparr>))) = Inr r"
    unfolding parse_registry_ref_def
    by (elim if_Inr) (simp_all add: and_then_Inr_iff split_paired_Ex, blast)
  then obtain i where i: "find_char head (CHR ''/'') = Some i"
    by (cases "find_char head (CHR ''/'')") simp_all
  let ?h = "take i head" and ?p = "drop (i + 1) head"
  have host: "?h \<noteq> []" "validate_host_format ?h raw = Inr ()"
    and repo: "?p \<noteq> []" "validate_repository_format ?p raw = Inr ()"
    and r: "r = \<lparr>rr_host = ?h, rr_repository = ?p, rr_target = t, rr_raw = raw\<rparr>"
    using rest unfolding i option.case Let_def
    by (elim if_Inr; simp add: and_then_Inr_iff)+
  from find_char_split [OF i] have "head = ?h @ CHR ''/'' # ?p" by simp
  with split_target_sound [OF split] show ?thesis
    unfolding r using host repo by (simp add: render_ref_def validate_host_Inr validate_repository_Inr)
qed

text \<open>A reference has no scheme and no space.\<close>

lemma render_no_scheme:
  assumes "valid_host h" and "CHR ''/'' \<notin> set x"
  shows "\<not> starts_with (render_ref h p t) (x @ ''://'')"
proof
  have slash: "CHR ''/'' \<notin> set h"
    using assms(1) special_chars by (auto simp: valid_host_def list_all_iff)
  assume "starts_with (render_ref h p t) (x @ ''://'')"
  then obtain u where "h @ CHR ''/'' # p @ render_target t = (x @ '':'') @ CHR ''/'' # CHR ''/'' # u"
    by (auto simp: starts_with_iff render_ref_def)
  moreover have "CHR ''/'' \<notin> set (x @ '':'')" using assms(2) by simp
  moreover have "split_once (CHR ''/'') (h @ CHR ''/'' # p @ render_target t) = Some (h, p @ render_target t)"
    using slash by (rule split_once_append)
  ultimately have "h = x @ '':''"
    using split_once_append [of "CHR ''/''" "x @ '':''"] by (metis option.inject prod.inject)
  with assms(1) show False by (simp add: valid_host_def)
qed

lemma render_no_space:
  assumes "valid_host h" and "valid_repository p" and "valid_target t"
  shows "\<not> contains_char (render_ref h p t) (CHR '' '')"
proof -
  have "CHR '' '' \<notin> set (render_target t)"
  proof
    assume "CHR '' '' \<in> set (render_target t)"
    then have "CHR '' '' \<in> set (tl (render_target t))"
      by (auto simp: render_target_def split: ref_target.splits)
    with target_chars assms(3) special_chars show False by fastforce
  qed
  then show ?thesis
    using assms(1,2) special_chars
    by (auto simp: valid_host_def valid_repository_def render_ref_def contains_char_def list_all_iff)
qed

lemma parse_registry_ref_complete:
  assumes "valid_host h" and "valid_repository p" and "valid_target t"
  shows "parse_registry_ref (render_ref h p t) =
    Inr \<lparr>rr_host = h, rr_repository = p, rr_target = t, rr_raw = render_ref h p t\<rparr>"
proof -
  let ?raw = "render_ref h p t"
  have chars: "list_all host_char h" "list_all repository_char p" "h \<noteq> []" "p \<noteq> []"
    using assms(1,2) by (simp_all add: valid_host_def valid_repository_def)
  have split: "split_target ?raw = Inr (h @ CHR ''/'' # p, t)"
    unfolding render_ref_def using chars(1,2) assms(3) by (rule split_target_complete)
  have find: "find_char (h @ CHR ''/'' # p) (CHR ''/'') = Some (length h)"
    using chars(1) special_chars by (intro find_char_append) (auto simp: list_all_iff)
  have formats: "validate_host_format h ?raw = Inr ()" "validate_repository_format p ?raw = Inr ()"
    using assms chars by (simp_all add: validate_host_Inr validate_repository_Inr)
  have cut: "take (length h) (h @ CHR ''/'' # p) = h" "drop (length h + 1) (h @ CHR ''/'' # p) = p"
    by simp_all
  have "?raw \<noteq> []" by (simp add: render_ref_def)
  then show ?thesis
    unfolding parse_registry_ref_def split and_then_simps prod.case find option.case Let_def cut formats
    using render_no_space [OF assms] render_no_scheme [OF assms(1), of "''http''"]
      render_no_scheme [OF assms(1), of "''https''"] chars(3,4) by auto
qed

text \<open>
  C22: references are parsed exactly. The parser accepts a string if and only if it is
  \<open>host/repository:tag\<close> or \<open>host/repository@sha256:hex\<close> for a host, a repository and a target
  of the documented forms, and then returns these parts; so the parts are determined by the
  string, and printing them gives the string back. Everything else is a \<open>MalformedRef\<close>.
\<close>

theorem parse_registry_ref_exact:
  "(parse_registry_ref raw = Inr r \<longleftrightarrow>
     rr_raw r = raw \<and> raw = render_ref (rr_host r) (rr_repository r) (rr_target r) \<and>
     valid_host (rr_host r) \<and> valid_repository (rr_repository r) \<and> valid_target (rr_target r)) \<and>
   (\<exists>x. parse_registry_ref raw = Inr x \<or> (\<exists>m. parse_registry_ref raw = Inl (MalformedRef raw m)))"
proof (intro conjI iffI)
  assume f: "rr_raw r = raw \<and> raw = render_ref (rr_host r) (rr_repository r) (rr_target r) \<and>
     valid_host (rr_host r) \<and> valid_repository (rr_repository r) \<and> valid_target (rr_target r)"
  then show "parse_registry_ref raw = Inr r"
    using parse_registry_ref_complete [of "rr_host r" "rr_repository r" "rr_target r"] by (cases r) simp
next
  show "\<exists>x. parse_registry_ref raw = Inr x \<or> (\<exists>m. parse_registry_ref raw = Inl (MalformedRef raw m))"
    using refuses_parse [of raw] by (cases "parse_registry_ref raw") (auto simp: refuses_def)
qed (use parse_registry_ref_sound in blast)+

end
