(* ===== verification/Pull.thy ===== *)
theory Pull
  imports Pull_Auth Ref_Parser Http_Sink
begin

text \<open>
  \<open>cli/src/registry/pull.rs\<close>: an artifact and its referrers are pulled from a registry into a
  layout on disk. The parsers and the printer of \<open>serde_json\<close>, SHA-256 and the client are the
  parameter \<open>pull_lib\<close>; redirects are followed inside the client. The hasher is the bytes it
  was fed so far. The panic of \<open>expect\<close> in \<open>send_with_retry\<close> is an error value.
\<close>

section \<open>Constants and types\<close>

definition pull_request_timeout :: nat where "pull_request_timeout = 60"

definition pull_max_retries :: nat where "pull_max_retries = 3"

definition pull_max_retry_backoff_ms :: nat where "pull_max_retry_backoff_ms = 800"

definition pull_manifest_type :: string where
  "pull_manifest_type = ''application/vnd.oci.image.manifest.v1+json''"

definition pull_index_type :: string where
  "pull_index_type = ''application/vnd.oci.image.index.v1+json''"

text \<open>In lower case, like every header name here.\<close>

definition header_docker_content_digest :: string where
  "header_docker_content_digest = ''docker-content-digest''"

definition pull_env_allow_insecure :: string where
  "pull_env_allow_insecure = ''JUSTOCI_ALLOW_INSECURE''"

definition pull_chunk :: nat where "pull_chunk = 64 * 1024"

record pull_options =
  require_referrers :: bool

record wire_descriptor =
  wd_media_type :: string
  wd_digest :: string
  wd_size :: nat
  wd_artifact_type :: "string option"

record wire_manifest =
  wm_config :: wire_descriptor
  wm_layers :: "wire_descriptor list"

record wire_referrers =
  wr_manifests :: "wire_descriptor list"

record 's pull_context =
  pc_base_url :: string
  pc_registry_host :: string
  pc_repository :: string
  pc_auth :: "'s provider list"

record 'w pull_lib =
  pl_http :: "'w http_lib"
  pl_sha256 :: "bytes \<Rightarrow> bytes"
  pl_json :: "bytes \<Rightarrow> string + json"
  pl_manifest :: "bytes \<Rightarrow> string + wire_manifest"
  pl_referrers :: "bytes \<Rightarrow> string + wire_referrers"
  pl_pretty :: "json \<Rightarrow> string + bytes"

section \<open>Paths and digests\<close>

definition blob_path_for_digest :: "path \<Rightarrow> string \<Rightarrow> pull_error + path" where
  "blob_path_for_digest blobs_dir digest =
     (case split_once (CHR '':'') digest of
        None \<Rightarrow> Inl (MalformedManifest [Txt ''descriptor digest '', Dbg digest, Txt '' missing '',
          Txt [CHR 0x27], Txt '':'', Txt [CHR 0x27], Txt '' separator''])
      | Some (algo, hex) \<Rightarrow>
          if algo \<noteq> ''sha256'' then
            Inl (MalformedManifest [Txt ''only sha256 digests are supported, got '', Dbg algo])
          else if length hex \<noteq> 64 then
            Inl (MalformedManifest [Txt ''sha256 hex must be 64 chars, got '', Txt (dec_of_nat (length hex))])
          else if \<not> list_all is_lower_hex hex then
            Inl (MalformedManifest [Txt ''sha256 hex must be lowercase 0-9a-f, got '', Dbg hex])
          else Inr (path_join blobs_dir hex))"

definition pull_hex_sha256 :: "'w pull_lib \<Rightarrow> bytes \<Rightarrow> string" where
  "pull_hex_sha256 lib bs = hex_of_bytes (pl_sha256 lib bs)"

definition finalise_hash :: "'w pull_lib \<Rightarrow> bytes \<Rightarrow> string" where
  "finalise_hash lib hashed = hex_of_bytes (pl_sha256 lib hashed)"

definition parse_image_manifest :: "'w pull_lib \<Rightarrow> bytes \<Rightarrow> pull_error + wire_manifest" where
  "parse_image_manifest lib bs =
     map_err (\<lambda>e. MalformedManifest [Txt ''image manifest: '', Txt e]) (pl_manifest lib bs)"

section \<open>The context\<close>

definition pull_env_allows_insecure :: "(('w, 'x) sys_scheme, 'e, bool) io" where
  "pull_env_allows_insecure =
     io_bind (env_var pull_env_allow_insecure) (\<lambda>v. io_return (v = Some ''1''))"

definition build_context ::
  "'w pull_lib \<Rightarrow> registry_ref \<Rightarrow> ('w, 'x) pull_scheme provider list \<Rightarrow>
   (('w, 'x) pull_scheme, pull_error, ('w, 'x) pull_scheme pull_context) io" where
  "build_context lib parsed auth =
     io_bind pull_env_allows_insecure (\<lambda>insecure.
     let scheme = (if insecure then ''http'' else ''https'');
         base_url = scheme @ ''://'' @ rr_host parsed in
     io_bind (io_lift (map_err (\<lambda>e. PullAuth (PsHttp e)) (hl_build (pl_http lib) pull_request_timeout))) (\<lambda>_.
     io_bind (io_map_err (\<lambda>e. PullAuth (PsCred e)) (resolve_chain auth (rr_host parsed))) (\<lambda>_.
     io_return \<lparr>pc_base_url = base_url, pc_registry_host = rr_host parsed,
       pc_repository = rr_repository parsed, pc_auth = auth\<rparr>)))"

definition providers_for_registry_auth ::
  "registry_auth \<Rightarrow> pull_error + ('w, 'x) sys_scheme provider list" where
  "providers_for_registry_auth auth =
     and_then (case auth of
         Bearer token \<Rightarrow> map_err (\<lambda>e. PullAuth (PsCred e)) (bearer_new token)
       | Basic username password \<Rightarrow> map_err (\<lambda>e. PullAuth (PsCred e)) (basic_new username password)
       | FromEnv \<Rightarrow> Inr env_provider)
       (\<lambda>provider. Inr [provider, anonymous_provider])"

definition new_authenticated ::
  "'w pull_lib \<Rightarrow> registry_ref \<Rightarrow> registry_auth \<Rightarrow>
   (('w, 'x) pull_scheme, pull_error, ('w, 'x) pull_scheme pull_context) io" where
  "new_authenticated lib parsed auth =
     io_bind (io_lift (providers_for_registry_auth auth)) (\<lambda>providers.
     io_bind (auth_manager_new providers) (\<lambda>auth. build_context lib parsed auth))"

definition new_anonymous ::
  "'w pull_lib \<Rightarrow> registry_ref \<Rightarrow> (('w, 'x) pull_scheme, pull_error, ('w, 'x) pull_scheme pull_context) io" where
  "new_anonymous lib parsed =
     io_bind (auth_manager_new []) (\<lambda>auth. build_context lib parsed auth)"

section \<open>Requests\<close>

definition pull_sleep_backoff :: "nat \<Rightarrow> (('w, 'x) pub_scheme, 'e, unit) io" where
  "pull_sleep_backoff attempt = sleep_millis (backoff_millis pull_max_retry_backoff_ms attempt)"

definition pull_read_body_capped :: "http_response \<Rightarrow> bytes" where
  "pull_read_body_capped resp = read_capped pull_body_preview [] resp"

text \<open>The \<open>Authorization\<close> header of one attempt: a cached token, else the chain.\<close>

definition auth_to_send ::
  "'w pull_lib \<Rightarrow> ('w, 'x) pull_scheme pull_context \<Rightarrow> (('w, 'x) pull_scheme, pull_error, string option) io" where
  "auth_to_send lib ctx =
     io_bind (cached_bearer (pc_registry_host ctx)) (\<lambda>cached.
     case cached of
       Some tok \<Rightarrow> io_bind (io_lift (header_value_from_bearer (pl_http lib) tok)) (\<lambda>hv. io_return (Some hv))
     | None \<Rightarrow>
         io_bind (io_map_err (\<lambda>e. PullAuth (PsCred e))
           (resolve_chain (pc_auth ctx) (pc_registry_host ctx))) (\<lambda>creds.
         case creds of
           Some c \<Rightarrow> io_bind (io_lift (header_value_from_credentials (pl_http lib) c)) (\<lambda>hv. io_return (Some hv))
         | None \<Rightarrow> io_return None))"

text \<open>
  The body of the loop: the state is the last error and whether the token dance was done.
\<close>

definition send_turn ::
  "'w pull_lib \<Rightarrow> ('w, 'x) pull_scheme pull_context \<Rightarrow> string \<Rightarrow> (string \<times> string) list \<Rightarrow> nat \<Rightarrow>
   pull_error option \<times> bool \<Rightarrow>
   (('w, 'x) pull_scheme, pull_error, (pull_error option \<times> bool) + http_response) io" where
  "send_turn lib ctx url base_headers attempt = (\<lambda>(last_err, did_dance).
     io_bind (auth_to_send lib ctx) (\<lambda>auth.
     io_bind (http_send (pl_http lib) \<lparr>rq_method = MGet, rq_url = url,
       rq_headers = base_headers @ auth_header auth, rq_body = Inr []\<rparr>) (\<lambda>r.
     case r of
       Inr resp \<Rightarrow>
         let status = rs_status resp in
         if is_server_error status \<and> attempt < pull_max_retries then
           io_bind (pull_sleep_backoff attempt) (\<lambda>_. io_return (Inl (last_err, did_dance)))
         else if status = 401 \<and> \<not> did_dance then
           (case extract_bearer_challenge (pl_http lib) status (rs_headers resp) of
              Some ch \<Rightarrow>
                io_bind (io_lift (map_err (\<lambda>e. PullAuth (PsHttp e))
                  (hl_build (pl_http lib) token_request_timeout))) (\<lambda>_.
                io_bind (fetch_bearer_token (pl_http lib) (pl_json lib) ch auth) (\<lambda>token.
                io_bind (cache_bearer (pc_registry_host ctx) token) (\<lambda>_.
                io_return (Inl (last_err, True)))))
            | None \<Rightarrow> io_return (Inr resp))
         else io_return (Inr resp)
     | Inl e \<Rightarrow>
         let last_err = Some (BlobFetch url (PsHttp e)) in
         if attempt < pull_max_retries then
           io_bind (pull_sleep_backoff attempt) (\<lambda>_. io_return (Inl (last_err, did_dance)))
         else io_return (Inl (last_err, did_dance)))))"

definition send_end :: "(pull_error option \<times> bool) + http_response \<Rightarrow> pull_error + http_response" where
  "send_end r =
     (case r of
        Inr resp \<Rightarrow> Inr resp
      | Inl (Some e, _) \<Rightarrow> Inl e
      | Inl (None, _) \<Rightarrow> Inl (PullPanic ''loop body sets last_err on every transport failure''))"

definition send_with_retry ::
  "'w pull_lib \<Rightarrow> ('w, 'x) pull_scheme pull_context \<Rightarrow> string \<Rightarrow> (string \<times> string) list \<Rightarrow>
   (('w, 'x) pull_scheme, pull_error, http_response) io" where
  "send_with_retry lib ctx url base_headers =
     io_bind (for_attempts [0..<Suc pull_max_retries] (send_turn lib ctx url base_headers) (None, False))
       (\<lambda>r. io_lift (send_end r))"

definition as_resolve :: "string \<Rightarrow> pull_error \<Rightarrow> pull_error" where
  "as_resolve url e = (case e of BlobFetch _ source \<Rightarrow> Resolve url source | _ \<Rightarrow> e)"

definition refused :: "string \<Rightarrow> http_response \<Rightarrow> pull_error" where
  "refused url resp = PullRefused url (rs_status resp) (preview_body_capped (pull_read_body_capped resp))"

definition fetch_manifest ::
  "'w pull_lib \<Rightarrow> ('w, 'x) pull_scheme pull_context \<Rightarrow> string \<Rightarrow> string \<Rightarrow>
   (('w, 'x) pull_scheme, pull_error, bytes \<times> string) io" where
  "fetch_manifest lib ctx reference accept =
     (let url = pc_base_url ctx @ ''/v2/'' @ pc_repository ctx @ ''/manifests/'' @ reference in
      io_bind (io_map_err (as_resolve url) (send_with_retry lib ctx url [(''accept'', accept)])) (\<lambda>resp.
      if \<not> is_success (rs_status resp) then io_fail (refused url resp)
      else
        let header_digest = Option.bind (map_of (rs_headers resp) header_docker_content_digest)
              (\<lambda>v. case hl_header_text (pl_http lib) v of Inr t \<Rightarrow> Some t | Inl _ \<Rightarrow> None) in
        io_bind (io_lift (map_err (\<lambda>e. Resolve url (PsHttp e)) (body_bytes resp))) (\<lambda>body.
        let computed = ''sha256:'' @ pull_hex_sha256 lib body in
        case header_digest of
          Some h \<Rightarrow> if h = computed then io_return (body, h)
            else io_fail (DigestMismatch h computed (''manifest at '' @ url))
        | None \<Rightarrow> io_return (body, computed))))"

definition fetch_referrers ::
  "'w pull_lib \<Rightarrow> ('w, 'x) pull_scheme pull_context \<Rightarrow> registry_ref \<Rightarrow> string \<Rightarrow> pull_options \<Rightarrow>
   (('w, 'x) pull_scheme, pull_error, wire_descriptor list) io" where
  "fetch_referrers lib ctx parsed manifest_digest opts =
     (let url = pc_base_url ctx @ ''/v2/'' @ pc_repository ctx @ ''/referrers/'' @ manifest_digest in
      io_bind (io_map_err (as_resolve url) (send_with_retry lib ctx url [(''accept'', pull_index_type)])) (\<lambda>resp.
      if rs_status resp = 404 then
        if require_referrers opts then
          io_fail (ReferrersNotSupported (rr_host parsed) (rr_repository parsed))
        else io_return []
      else if \<not> is_success (rs_status resp) then io_fail (refused url resp)
      else
        io_bind (io_lift (map_err (\<lambda>e. Resolve url (PsHttp e)) (body_bytes resp))) (\<lambda>body.
        io_bind (io_lift (map_err (\<lambda>e. MalformedManifest
          [Txt ''referrers index from '', Txt url, Txt '': '', Txt e]) (pl_referrers lib body))) (\<lambda>index.
        io_return (wr_manifests index)))))"

section \<open>Blobs on disk\<close>

text \<open>The loop that streams a body into the partial file; \<open>flush\<close> on a \<open>File\<close> does nothing.\<close>

definition drop_partial :: "path \<Rightarrow> pull_error \<Rightarrow> ('x fs_scheme, pull_error, 'a) io" where
  "drop_partial partial e = io_bind (io_try (fs_remove_file partial)) (\<lambda>_. io_fail e)"

function stream_body ::
  "path \<Rightarrow> string \<Rightarrow> http_response \<Rightarrow> bytes \<Rightarrow> ('x fs_scheme, pull_error, bytes) io" where
  "stream_body partial digest reader hashed =
     (case body_read pull_chunk reader of
        (Inl e, _) \<Rightarrow> drop_partial partial (BlobFetch digest (PsHttp e))
      | (Inr [], _) \<Rightarrow> io_return hashed
      | (Inr (c # cs), reader') \<Rightarrow>
          io_bind (io_try (fs_append partial (c # cs))) (\<lambda>wrote.
          case wrote of
            Inl e \<Rightarrow> drop_partial partial (PullIo partial e)
          | Inr _ \<Rightarrow> stream_body partial digest reader' (hashed @ c # cs)))"
  by pat_completeness auto
termination
  by (relation "measure (\<lambda>(partial, digest, reader, hashed). length (rs_body reader))")
    (auto simp: body_read_def pull_chunk_def split: if_splits option.splits)

declare stream_body.simps [simp del]

definition pull_blob_streamed ::
  "'w pull_lib \<Rightarrow> ('w, 'x) pull_scheme pull_context \<Rightarrow> path \<Rightarrow> string \<Rightarrow>
   (('w, 'x) pull_scheme, pull_error, unit) io" where
  "pull_blob_streamed lib ctx blobs_dir digest =
     io_bind (io_lift (blob_path_for_digest blobs_dir digest)) (\<lambda>final_path.
     io_bind (fs_is_file final_path) (\<lambda>present.
     if present then io_return ()
     else
       let url = pc_base_url ctx @ ''/v2/'' @ pc_repository ctx @ ''/blobs/'' @ digest in
       io_bind (io_map_err (\<lambda>e. case e of Resolve _ source \<Rightarrow> BlobFetch digest source | _ \<Rightarrow> e)
         (send_with_retry lib ctx url [])) (\<lambda>resp.
       if \<not> is_success (rs_status resp) then io_fail (refused url resp)
       else
         let partial = with_extension final_path ''partial'' in
         io_bind (io_map_err (PullIo partial) (fs_create partial)) (\<lambda>_.
         io_bind (stream_body partial digest resp []) (\<lambda>hashed.
         let computed = ''sha256:'' @ finalise_hash lib hashed in
         if computed \<noteq> digest then drop_partial partial (DigestMismatch digest computed digest)
         else io_map_err (PullIo final_path) (fs_rename partial final_path))))))"

definition write_blob_atomically ::
  "'w pull_lib \<Rightarrow> path \<Rightarrow> string \<Rightarrow> bytes \<Rightarrow> ('x fs_scheme, pull_error, unit) io" where
  "write_blob_atomically lib blobs_dir digest bs =
     io_bind (io_lift (blob_path_for_digest blobs_dir digest)) (\<lambda>final_path.
     io_bind (fs_is_file final_path) (\<lambda>present.
     if present then io_return ()
     else
       let computed = ''sha256:'' @ pull_hex_sha256 lib bs in
       if computed \<noteq> digest then io_fail (DigestMismatch digest computed digest)
       else
         let partial = with_extension final_path ''partial'' in
         io_bind (io_map_err (PullIo partial) (fs_write partial bs)) (\<lambda>_.
         io_map_err (PullIo final_path) (fs_rename partial final_path))))"

definition layout_marker_text :: bytes where
  "layout_marker_text = CHR ''{'' # CHR 0x22 # ''imageLayoutVersion'' @ CHR 0x22 # CHR '':'' #
     CHR 0x22 # ''1.0.0'' @ [CHR 0x22, CHR ''}'']"

definition write_oci_layout_marker :: "path \<Rightarrow> ('x fs_scheme, pull_error, unit) io" where
  "write_oci_layout_marker dest =
     (let p = path_join dest ''oci-layout'' in
      io_bind (fs_is_file p) (\<lambda>present.
      if present then io_return ()
      else io_map_err (PullIo p) (fs_write p layout_marker_text)))"

definition index_entry :: "wire_descriptor \<Rightarrow> json" where
  "index_entry r = json_map
     ([(''mediaType'', JString (wd_media_type r)), (''digest'', JString (wd_digest r)),
       (''size'', JInt (int (wd_size r)))] @
      (case wd_artifact_type r of Some t \<Rightarrow> [(''artifactType'', JString t)] | None \<Rightarrow> []))"

definition pulled_index :: "string \<Rightarrow> nat \<Rightarrow> wire_descriptor list \<Rightarrow> json" where
  "pulled_index primary_digest primary_size referrers = json_map
     [(''schemaVersion'', JInt 2), (''mediaType'', JString pull_index_type),
      (''manifests'', JArray (json_map
        [(''mediaType'', JString pull_manifest_type), (''digest'', JString primary_digest),
         (''size'', JInt (int primary_size))] # map index_entry referrers))]"

definition write_index_json ::
  "'w pull_lib \<Rightarrow> path \<Rightarrow> string \<Rightarrow> nat \<Rightarrow> wire_descriptor list \<Rightarrow> ('x fs_scheme, pull_error, unit) io" where
  "write_index_json lib dest primary_digest primary_size referrers =
     (let p = path_join dest ''index.json'' in
      io_bind (io_lift (map_err (\<lambda>e. PullIo p (IoError InvalidData [Txt e]))
        (pl_pretty lib (pulled_index primary_digest primary_size referrers)))) (\<lambda>bs.
      let tmp = with_extension p ''tmp'' in
      io_bind (io_map_err (PullIo tmp) (fs_write tmp bs)) (\<lambda>_.
      io_map_err (PullIo p) (fs_rename tmp p))))"

section \<open>The pull\<close>

definition name_blob :: "string \<Rightarrow> pull_error \<Rightarrow> pull_error" where
  "name_blob blob e = (case e of DigestMismatch expected got _ \<Rightarrow> DigestMismatch expected got blob | _ \<Rightarrow> e)"

definition pull_layers ::
  "'w pull_lib \<Rightarrow> ('w, 'x) pull_scheme pull_context \<Rightarrow> path \<Rightarrow> wire_descriptor list \<Rightarrow>
   (('w, 'x) pull_scheme, pull_error, unit) io" where
  "pull_layers lib ctx blobs_dir layers =
     io_fold (\<lambda>(i, layer) _. io_map_err (name_blob (''layer['' @ dec_of_nat i @ '']''))
       (pull_blob_streamed lib ctx blobs_dir (wd_digest layer))) (enumerate 0 layers) ()"

text \<open>The layers of a referrer; what was seen is not pulled again.\<close>

definition pull_referrer_layers ::
  "'w pull_lib \<Rightarrow> ('w, 'x) pull_scheme pull_context \<Rightarrow> path \<Rightarrow> string \<Rightarrow> wire_descriptor list \<Rightarrow>
   string set \<Rightarrow> (('w, 'x) pull_scheme, pull_error, string set) io" where
  "pull_referrer_layers lib ctx blobs_dir ref_digest layers seen =
     io_fold (\<lambda>(i, layer) seen.
       if wd_digest layer \<notin> seen then
         io_bind (io_map_err (name_blob (''referrer '' @ ref_digest @ '' layer['' @ dec_of_nat i @ '']''))
           (pull_blob_streamed lib ctx blobs_dir (wd_digest layer)))
           (\<lambda>_. io_return (insert (wd_digest layer) seen))
       else io_return seen) (enumerate 0 layers) seen"

definition pull_referrer ::
  "'w pull_lib \<Rightarrow> ('w, 'x) pull_scheme pull_context \<Rightarrow> path \<Rightarrow> wire_descriptor \<Rightarrow>
   string set \<times> wire_descriptor list \<Rightarrow>
   (('w, 'x) pull_scheme, pull_error, string set \<times> wire_descriptor list) io" where
  "pull_referrer lib ctx blobs_dir ref_desc = (\<lambda>(seen, materialised).
     if wd_digest ref_desc \<in> seen then io_return (seen, materialised @ [ref_desc])
     else
       let seen = insert (wd_digest ref_desc) seen in
       io_bind (fetch_manifest lib ctx (wd_digest ref_desc) pull_manifest_type) (\<lambda>(bs, digest).
       if digest \<noteq> wd_digest ref_desc then
         io_fail (DigestMismatch (wd_digest ref_desc) digest ''referrer manifest from referrers index'')
       else
         io_bind (write_blob_atomically lib blobs_dir digest bs) (\<lambda>_.
         io_bind (io_lift (parse_image_manifest lib bs)) (\<lambda>ref_manifest.
         let config = wd_digest (wm_config ref_manifest) in
         io_bind (if config \<notin> seen then pull_blob_streamed lib ctx blobs_dir config else io_return ()) (\<lambda>_.
         io_bind (pull_referrer_layers lib ctx blobs_dir (wd_digest ref_desc) (wm_layers ref_manifest)
           (insert config seen)) (\<lambda>seen.
         io_return (seen, materialised @ [ref_desc])))))))"

definition execute_pull ::
  "'w pull_lib \<Rightarrow> ('w, 'x) pull_scheme pull_context \<Rightarrow> registry_ref \<Rightarrow> path \<Rightarrow> pull_options \<Rightarrow>
   (('w, 'x) pull_scheme, pull_error, unit) io" where
  "execute_pull lib ctx parsed dest opts =
     io_bind (fs_is_dir dest) (\<lambda>is_dir.
     if \<not> is_dir then io_fail (PullIo dest (IoError NotFound [Txt ''destination is not a directory'']))
     else
       let blobs_dir = path_join (path_join dest ''blobs'') ''sha256'' in
       io_bind (io_map_err (PullIo blobs_dir) (fs_create_dir_all blobs_dir)) (\<lambda>_.
       io_bind (fetch_manifest lib ctx (manifest_reference parsed) pull_manifest_type) (\<lambda>(bs, primary).
       io_bind (case rr_target parsed of
           Digest expected \<Rightarrow>
             if expected \<noteq> primary then
               io_fail (DigestMismatch expected primary (''primary manifest of '' @ rr_raw parsed))
             else io_return ()
         | Tag _ \<Rightarrow> io_return ()) (\<lambda>_.
       io_bind (write_blob_atomically lib blobs_dir primary bs) (\<lambda>_.
       io_bind (io_lift (parse_image_manifest lib bs)) (\<lambda>manifest.
       io_bind (pull_blob_streamed lib ctx blobs_dir (wd_digest (wm_config manifest))) (\<lambda>_.
       io_bind (pull_layers lib ctx blobs_dir (wm_layers manifest)) (\<lambda>_.
       io_bind (fetch_referrers lib ctx parsed primary opts) (\<lambda>referrers.
       let seen = set (primary # wd_digest (wm_config manifest) # map wd_digest (wm_layers manifest)) in
       io_bind (io_fold (pull_referrer lib ctx blobs_dir) referrers (seen, [])) (\<lambda>(_, materialised).
       io_bind (write_oci_layout_marker dest) (\<lambda>_.
       write_index_json lib dest primary (length bs) materialised)))))))))))"

definition pull_into_image_dir_with_options ::
  "'w pull_lib \<Rightarrow> string \<Rightarrow> registry_auth \<Rightarrow> path \<Rightarrow> pull_options \<Rightarrow>
   (('w, 'x) pull_scheme, pull_error, unit) io" where
  "pull_into_image_dir_with_options lib ref_str auth dest opts =
     io_bind (io_lift (parse_registry_ref ref_str)) (\<lambda>parsed.
     io_bind (new_authenticated lib parsed auth) (\<lambda>ctx.
     execute_pull lib ctx parsed dest opts))"

definition pull_into_image_dir ::
  "'w pull_lib \<Rightarrow> string \<Rightarrow> registry_auth \<Rightarrow> path \<Rightarrow> (('w, 'x) pull_scheme, pull_error, unit) io" where
  "pull_into_image_dir lib ref_str auth dest =
     pull_into_image_dir_with_options lib ref_str auth dest \<lparr>require_referrers = False\<rparr>"

definition pull_anonymous_into_image_dir_with_options ::
  "'w pull_lib \<Rightarrow> string \<Rightarrow> path \<Rightarrow> pull_options \<Rightarrow> (('w, 'x) pull_scheme, pull_error, unit) io" where
  "pull_anonymous_into_image_dir_with_options lib ref_str dest opts =
     io_bind (io_lift (parse_registry_ref ref_str)) (\<lambda>parsed.
     io_bind (new_anonymous lib parsed) (\<lambda>ctx.
     execute_pull lib ctx parsed dest opts))"

definition pull_anonymous_into_image_dir ::
  "'w pull_lib \<Rightarrow> string \<Rightarrow> path \<Rightarrow> (('w, 'x) pull_scheme, pull_error, unit) io" where
  "pull_anonymous_into_image_dir lib ref_str dest =
     pull_anonymous_into_image_dir_with_options lib ref_str dest \<lparr>require_referrers = False\<rparr>"

end
