(* ===== verification/Pull_Commit.thy ===== *)
theory Pull_Commit
  imports Pull Http_Commit
begin

text \<open>
  What a pull leaves on disk, at every moment: only blobs that hash to their name are added,
  and the index comes last.
\<close>

section \<open>Steps that leave the disk alone\<close>

definition quiet :: "('x fs_scheme, 'e, 'a) io \<Rightarrow> bool" where
  "quiet c \<longleftrightarrow> (\<forall>m h. keeps (still m h) c)"

lemma quiet_simps [simp, intro!]:
  "quiet (io_return x)" "quiet (io_fail e)" "quiet (io_lift r)" "quiet (io_get f)"
  by (simp_all add: quiet_def keeps_def io_apply_simps)

lemma quiet_bind [intro!]: "quiet m \<Longrightarrow> (\<And>x. quiet (f x)) \<Longrightarrow> quiet (io_bind m f)"
  by (auto simp: quiet_def)

lemma quiet_map_err [intro!]: "quiet m \<Longrightarrow> quiet (io_map_err g m)"
  by (auto simp: quiet_def)

lemma quiet_calls [intro!]:
  "quiet (env_var v)" "quiet (http_send hl q)" "quiet (sleep_millis n)"
  "quiet (cache_bearer r t)" "quiet (cached_bearer r)" "quiet (auth_manager_new ps)"
  by (auto simp: quiet_def keeps_def still_def env_var_def http_send_def sleep_millis_def cache_bearer_def
      cached_bearer_def auth_manager_new_def io_bind_def io_apply_simps split: prod.split)

lemma quiet_for_attempts: "(\<And>a l. quiet (body a l)) \<Longrightarrow> quiet (for_attempts as body l)"
  by (induction as arbitrary: l) (auto split: sum.split)

lemma triple_quiet:
  fixes c :: "('x fs_scheme, 'e, 'a) io"
  assumes "quiet c"
  shows "triple (disk P J) c (\<lambda>_. disk P J) (\<lambda>_. disk P J)"
  unfolding triple_def
proof (intro allI impI)
  fix s :: "'x fs_scheme"
  assume s: "disk P J s"
  from assms have "still (fs_nodes s) (fs_seen s) (snd (c s))"
    unfolding quiet_def keeps_def still_def by blast
  with s have "disk P J (snd (c s))" by (simp add: disk_def still_def)
  then show "case c s of (Inr x, t) \<Rightarrow> disk P J t | (Inl e, t) \<Rightarrow> disk P J t"
    by (cases "c s"; cases "fst (c s)") auto
qed

lemma quiet_chain: "provider_chain ps \<Longrightarrow> quiet (resolve_chain ps registry)"
  by (simp add: quiet_def keeps_def chain_answers)

lemma quiet_fetch_token: "quiet (fetch_bearer_token hl js ch a)"
  unfolding fetch_bearer_token_def Let_def by auto

lemma quiet_auth_to_send: "provider_chain (pc_auth ctx) \<Longrightarrow> quiet (auth_to_send lib ctx)"
  unfolding auth_to_send_def by (auto intro: quiet_chain split: option.split)

lemma quiet_send:
  assumes "provider_chain (pc_auth ctx)"
  shows "quiet (send_with_retry lib ctx url hs)"
proof -
  have "quiet (send_turn lib ctx url hs a l)" for a l
    unfolding send_turn_def pull_sleep_backoff_def Let_def
    by (auto intro!: quiet_auth_to_send quiet_fetch_token assms split: sum.split option.split prod.split)
  then show ?thesis
    unfolding send_with_retry_def by (intro quiet_bind quiet_for_attempts quiet_simps)
qed

lemma quiet_fetch:
  assumes "provider_chain (pc_auth ctx)"
  shows "quiet (fetch_manifest lib ctx r accept)" "quiet (fetch_referrers lib ctx parsed d opts)"
  unfolding fetch_manifest_def fetch_referrers_def Let_def
  by (auto intro!: quiet_send assms split: option.split)

section \<open>Files of a pull\<close>

text \<open>The files a pull writes on the way: partial blobs, the new index, the marker.\<close>

definition pull_temps :: "fkey \<Rightarrow> fkey set" where
  "pull_temps K = {K @ [''blobs'', ''sha256'', n] | n. ends_with n ''.partial''} \<union>
     {K @ [''index.tmp''], K @ [''oci-layout'']}"

definition verified :: "'w pull_lib \<Rightarrow> fkey \<Rightarrow> nodes \<Rightarrow> nodes \<Rightarrow> bool" where
  "verified lib K m0 m \<longleftrightarrow>
     (\<forall>d h. sha256_digest d h \<longrightarrow> m (blob_file K d) = m0 (blob_file K d) \<or>
        (\<exists>b. m (blob_file K d) = Some (FileNode b) \<and> hex_of_bytes (pl_sha256 lib b) = h))"

definition has_blob :: "fkey \<Rightarrow> nodes \<Rightarrow> string \<Rightarrow> bool" where
  "has_blob K m d \<longleftrightarrow> (\<exists>h. sha256_digest d h) \<and> is_file_node (m (blob_file K d))"

text \<open>Before the index is written: the blobs of the digests \<open>D\<close> are there.\<close>

definition pulled :: "'w pull_lib \<Rightarrow> fkey \<Rightarrow> nodes \<Rightarrow> string set \<Rightarrow> nodes \<Rightarrow> bool" where
  "pulled lib K m0 D m \<longleftrightarrow> verified lib K m0 m \<and> m (K @ [''index.json'']) = m0 (K @ [''index.json'']) \<and>
     (\<forall>d \<in> D. has_blob K m d)"

lemma lower_hex_not_dot: "\<not> is_lower_hex (CHR ''.'')"
  by (simp add: ascii_defs)

lemma digest_not_temp: "sha256_digest d h \<Longrightarrow> blob_file K d \<notin> pull_temps K"
  using lower_hex_not_dot
  by (auto simp: pull_temps_def blob_file_def sha256_digest_def ends_with_iff list_all_iff)

lemma index_not_temp: "K @ [''index.json''] \<notin> pull_temps K"
  by (simp add: pull_temps_def)

lemma blob_file_index [simp]: "blob_file K d \<noteq> K @ [x]" "K @ [x] \<noteq> blob_file K d"
  by (simp_all add: blob_file_def)

lemma blob_file_inj: "sha256_digest d h \<Longrightarrow> sha256_digest d' h' \<Longrightarrow> blob_file K d = blob_file K d' \<longleftrightarrow> d = d'"
  by (auto simp: blob_file_def sha256_digest_def)

lemma pulled_mono: "pulled lib K m0 D m \<Longrightarrow> D' \<subseteq> D \<Longrightarrow> pulled lib K m0 D' m"
  by (auto simp: pulled_def)

lemma pulled_insert: "pulled lib K m0 (insert d D) m \<longleftrightarrow> pulled lib K m0 D m \<and> has_blob K m d"
  by (auto simp: pulled_def)

lemma pulled_only:
  assumes "pulled lib K m0 D m1" and "only (pull_temps K) m1 m"
  shows "pulled lib K m0 D m"
proof -
  have same: "m (blob_file K d) = m1 (blob_file K d)" if "sha256_digest d h" for d h
    using assms(2) digest_not_temp [OF that] by (simp add: only_def)
  have "m (K @ [''index.json'']) = m1 (K @ [''index.json''])"
    using assms(2) index_not_temp by (simp add: only_def)
  with assms(1) same show ?thesis
    unfolding pulled_def verified_def has_blob_def by metis
qed

lemma pulled_touched:
  assumes "pulled lib K m0 D m1" and "touched (pull_temps K) (blob_file K d) b m1 m"
    and "sha256_digest d h" and "hex_of_bytes (pl_sha256 lib b) = h"
  shows "pulled lib K m0 D m"
proof -
  have same: "m (blob_file K d') = m1 (blob_file K d') \<or> d' = d \<and> m (blob_file K d') = Some (FileNode b)"
    if "sha256_digest d' h'" for d' h'
    using assms(2) digest_not_temp [OF that, of K] blob_file_inj [OF that assms(3), of K]
    by (auto simp: touched_def only_def)
  have index: "m (K @ [''index.json'']) = m1 (K @ [''index.json''])"
    using assms(2) index_not_temp by (simp add: touched_def only_def)
  have "verified lib K m0 m"
    unfolding verified_def
  proof (intro allI impI)
    fix d' h' assume d': "sha256_digest d' h'"
    from same [OF d'] consider "m (blob_file K d') = m1 (blob_file K d')"
      | "d' = d" "m (blob_file K d') = Some (FileNode b)" by blast
    then show "m (blob_file K d') = m0 (blob_file K d') \<or>
        (\<exists>b. m (blob_file K d') = Some (FileNode b) \<and> hex_of_bytes (pl_sha256 lib b) = h')"
    proof cases
      case 1
      with assms(1) d' show ?thesis by (simp add: pulled_def verified_def)
    next
      case 2
      with d' assms(3,4) have "hex_of_bytes (pl_sha256 lib b) = h'" by (simp add: sha256_digest_def)
      with 2 show ?thesis by blast
    qed
  qed
  moreover have "has_blob K m d'" if "has_blob K m1 d'" for d'
  proof -
    from that obtain h' where d': "sha256_digest d' h'" "is_file_node (m1 (blob_file K d'))"
      by (auto simp: has_blob_def)
    with same [OF d'(1)] show ?thesis by (auto simp: has_blob_def is_file_node_def)
  qed
  ultimately show ?thesis using assms(1) index by (auto simp: pulled_def)
qed

lemma blob_path_Inr:
  assumes "blob_path_for_digest dir d = Inr p"
  obtains h where "sha256_digest d h" "p = path_join dir h"
proof -
  obtain a h where d: "split_once (CHR '':'') d = Some (a, h)"
    using assms by (cases "split_once (CHR '':'') d") (auto simp: blob_path_for_digest_def)
  with assms have "a = ''sha256''" "length h = 64" "list_all is_lower_hex h" "p = path_join dir h"
    by (auto simp: blob_path_for_digest_def split: if_splits)
  moreover from d this(1) have "d = ''sha256'' @ CHR '':'' # h" by (simp add: split_once_Some_iff)
  ultimately show ?thesis by (intro that [of h]) (auto simp: sha256_digest_def)
qed

lemma hex_plain:
  assumes "sha256_digest d h"
  shows "plain_name h" "h \<noteq> ''..''" "file_stem h = h"
proof -
  have h: "length h = 64" "CHR ''.'' \<notin> set h" "CHR ''/'' \<notin> set h"
    using assms by (auto simp: sha256_digest_def list_all_iff ascii_defs)
  then have none: "rsplit_once (CHR ''.'') h = None" by simp
  show "file_stem h = h" by (simp only: file_stem_def none option.case)
  show "plain_name h" "h \<noteq> ''..''" using h by (auto simp: plain_name_def)
qed

lemma hex_keys:
  assumes "sha256_digest d h"
  shows "fs_key (path_join (blobs_dir_of dest) h) = blob_file (fs_key dest) d"
    "fs_key (with_extension (path_join (blobs_dir_of dest) h) ''partial'') \<in> pull_temps (fs_key dest)"
proof -
  note h = hex_plain [OF assms]
  show "fs_key (path_join (blobs_dir_of dest) h) = blob_file (fs_key dest) d"
    using assms by (simp add: fs_key_join_plain [OF h(1)] fs_key_blobs_dir blob_file_def sha256_digest_def)
  have "plain_name (h @ ''.partial'')"
    using h(1) by (auto simp: plain_name_def)
  moreover have "ends_with (h @ ''.partial'') ''.partial''" by (auto simp: ends_with_iff)
  ultimately show "fs_key (with_extension (path_join (blobs_dir_of dest) h) ''partial'') \<in> pull_temps (fs_key dest)"
    using with_extension_join [OF h(1,2), of "blobs_dir_of dest" "''partial''"] h(3)
    by (simp add: fs_key_join_plain fs_key_blobs_dir pull_temps_def)
qed

section \<open>One blob\<close>

lemma triple_from:
  fixes c :: "('x fs_scheme, 'e, 'a) io"
  assumes "\<And>m1. P m1 \<Longrightarrow> triple (disk ((=) m1) J) c Q E"
  shows "triple (disk P J) c Q E"
proof (rule tripleI)
  fix s :: "'x fs_scheme" and x t
  assume "disk P J s" and run: "c s = (Inr x, t)"
  then show "Q x t" using triple_InrD [OF assms _ run, of "fs_nodes s"] by (simp add: disk_def)
next
  fix s :: "'x fs_scheme" and e t
  assume "disk P J s" and run: "c s = (Inl e, t)"
  then show "E e t" using triple_InlD [OF assms _ run, of "fs_nodes s"] by (simp add: disk_def)
qed

lemma triple_is_file_disk:
  "triple (disk P J) (fs_is_file p)
     (\<lambda>b. disk (\<lambda>m. P m \<and> (b \<longrightarrow> is_file_node (look p m))) J) E"
  unfolding fs_is_file_def
  by (rule triple_fs_query, rule triple_conseq [OF triple_reads_disk])
    (auto simp: call_is_file_def disk_def)

lemma triple_drop_partial:
  assumes "fs_key p \<in> T" and "\<And>m. only T m1 m \<Longrightarrow> J m"
  shows "triple (disk (only T m1) J) (drop_partial p e) Q (\<lambda>_. disk (only T m1) J)"
  unfolding drop_partial_def
  by (rule triple_bind [OF triple_remove_temp [OF assms]]) (auto intro: triple_fail)

lemma triple_stream_body:
  assumes tmp: "fs_key p \<in> T" and J: "\<And>m. only T m1 m \<Longrightarrow> J m"
  shows "triple (disk (\<lambda>m. only T m1 m \<and> m (fs_key p) = Some (FileNode hashed)) J)
    (stream_body p d reader hashed :: ('x fs_scheme, pull_error, bytes) io)
    (\<lambda>h. disk (\<lambda>m. only T m1 m \<and> m (fs_key p) = Some (FileNode h)) J) (\<lambda>_. disk (only T m1) J)"
  using tmp
proof (induction p d reader hashed rule: stream_body.induct)
  case (1 p d reader hashed)
  let ?P = "\<lambda>h. disk (\<lambda>m. only T m1 m \<and> m (fs_key p) = Some (FileNode h)) J :: 'x fs_scheme \<Rightarrow> bool"
  let ?E = "disk (only T m1) J :: 'x fs_scheme \<Rightarrow> bool"
  have weak: "triple (?P h) c Q (\<lambda>_. ?E)" if "triple ?E c Q (\<lambda>_. ?E)"
    for h and c :: "('x fs_scheme, pull_error, bytes) io" and Q
    by (rule triple_pre [OF that]) (auto simp: disk_def)
  obtain w reader' where read: "body_read pull_chunk reader = (w, reader')" by fastforce
  show ?case
  proof (cases w)
    case (Inl e)
    have eq: "(stream_body p d reader hashed :: ('x fs_scheme, pull_error, bytes) io) = drop_partial p (BlobFetch d (PsHttp e))"
      by (subst stream_body.simps) (simp add: read Inl)
    show ?thesis unfolding eq by (rule weak [OF triple_drop_partial [OF 1(2) J]])
  next
    case (Inr chunk)
    show ?thesis
    proof (cases chunk)
      case Nil
      have eq: "(stream_body p d reader hashed :: ('x fs_scheme, pull_error, bytes) io) = io_return hashed"
        by (subst stream_body.simps) (simp add: read Inr Nil)
      show ?thesis unfolding eq by (rule triple_return)
    next
      case (Cons c cs)
      let ?k = "\<lambda>wrote. case wrote of Inl e \<Rightarrow> drop_partial p (PullIo p e)
        | Inr _ \<Rightarrow> (stream_body p d reader' (hashed @ c # cs) :: ('x fs_scheme, pull_error, bytes) io)"
      have eq: "(stream_body p d reader hashed :: ('x fs_scheme, pull_error, bytes) io) = io_bind (io_try (fs_append p (c # cs))) ?k"
        by (subst stream_body.simps) (simp add: read Inr Cons)
      have ih: "triple (?P (hashed @ c # cs)) (stream_body p d reader' (hashed @ c # cs)) ?P (\<lambda>_. ?E)"
        using 1(1) [OF read [symmetric] Inr Cons] 1(2) by blast
      let ?R = "case_sum (\<lambda>e. ?E) (\<lambda>u. ?P (hashed @ c # cs))"
      show ?thesis
        unfolding eq
      proof (rule triple_bind [OF triple_try [where Q = ?R]])
        show "triple (?P hashed) (fs_append p (c # cs)) (\<lambda>x. ?R (Inr x)) (\<lambda>e. ?R (Inl e))"
          using triple_append_temp [OF 1(2) J] by simp
        show "triple (?R wrote) (?k wrote) ?P (\<lambda>_. ?E)" for wrote
        proof (rule triple_case_sum)
          show "triple (?R (Inl e)) (drop_partial p (PullIo p e)) ?P (\<lambda>_. ?E)" for e
            by (simp only: sum.case) (rule triple_drop_partial [OF 1(2) J])
          show "triple (?R (Inr u)) (stream_body p d reader' (hashed @ c # cs)) ?P (\<lambda>_. ?E)" for u
            by (simp only: sum.case) (rule ih)
        qed
      qed
    qed
  qed
qed

text \<open>Installing a blob that hashes to its name.\<close>

lemma look_file: "is_file_node (look p m) \<longleftrightarrow> p \<noteq> [] \<and> is_file_node (m (fs_key p))"
  by (simp add: look_def is_file_node_def)

lemma present_pulled:
  assumes "sha256_digest d h" and "pulled lib (fs_key dest) m0 D m"
    and "is_file_node (look (path_join (blobs_dir_of dest) h) m)"
  shows "pulled lib (fs_key dest) m0 (insert d D) m"
  using assms hex_keys(1) [OF assms(1), of dest]
  by (auto simp: pulled_insert has_blob_def look_file)

lemma triple_install_blob:
  fixes dest lib m0
  defines "P \<equiv> pulled lib (fs_key dest) m0"
  assumes J: "\<And>D m. P D m \<Longrightarrow> J m" and d: "sha256_digest d h"
    and b: "hex_of_bytes (pl_sha256 lib b) = h" and m1: "P D m1"
  shows "triple (disk (\<lambda>m. only (pull_temps (fs_key dest)) m1 m \<and>
      m (fs_key (with_extension (path_join (blobs_dir_of dest) h) ''partial'')) = Some (FileNode b)) J)
    (fs_rename (with_extension (path_join (blobs_dir_of dest) h) ''partial'') (path_join (blobs_dir_of dest) h))
    (\<lambda>_. disk (P (insert d D)) J) (\<lambda>_. disk (P {}) J)"
proof (rule triple_conseq [OF triple_rename_temp])
  let ?K = "fs_key dest" and ?T = "pull_temps (fs_key dest)" and ?p = "path_join (blobs_dir_of dest) h"
  note key = hex_keys [OF d, of dest]
  show "fs_key (with_extension ?p ''partial'') \<in> ?T" by (rule key(2))
  show "fs_key ?p \<notin> ?T" unfolding key(1) by (rule digest_not_temp [OF d])
  have touched: "P D m" if "touched ?T (fs_key ?p) b m1 m" for m
    using that m1 unfolding P_def key(1) by (rule pulled_touched [OF _ _ d b, rotated])
  then show "J m" if "touched ?T (fs_key ?p) b m1 m" for m using that J by blast
  show "disk (P (insert d D)) J s"
    if "disk (\<lambda>m. touched ?T (fs_key ?p) b m1 m \<and> m (fs_key ?p) = Some (FileNode b)) J s" for s
    using that by (rule disk_mono)
      (use touched d in \<open>auto simp: P_def pulled_insert has_blob_def key(1) is_file_node_def\<close>)
  show "disk (P {}) J s" if "disk (only ?T m1) J s" for s
    using that by (rule disk_mono)
      (use m1 pulled_only pulled_mono in \<open>unfold P_def, blast\<close>)
qed

text \<open>The body of an answer becomes a blob only when it hashes to the digest.\<close>

lemma triple_stream_blob:
  fixes dest m0 and lib :: "'w pull_lib"
  defines "P \<equiv> pulled lib (fs_key dest) m0"
  assumes J: "\<And>D m. P D m \<Longrightarrow> J m" and d: "sha256_digest d h" and m1: "P D m1"
    and p: "p = path_join (blobs_dir_of dest) h" and part: "part = with_extension p ''partial''"
  shows "triple (disk ((=) m1) J)
      (io_bind (io_map_err (PullIo part) (fs_create part)
         :: (('w, 'x) pull_scheme, pull_error, unit) io) (\<lambda>_.
       io_bind (stream_body part d resp []) (\<lambda>hashed.
       let computed = ''sha256:'' @ finalise_hash lib hashed in
       if computed \<noteq> d then drop_partial part (DigestMismatch d computed d)
       else io_map_err (PullIo p) (fs_rename part p))))
      (\<lambda>_. disk (P (insert d D)) J) (\<lambda>_. disk (P {}) J)"
proof -
  let ?T = "pull_temps (fs_key dest)" and ?key = "fs_key part"
  have temp: "?key \<in> ?T" unfolding part p by (rule hex_keys(2) [OF d])
  have only: "P {} m" if "only ?T m1 m" for m
    using m1 that pulled_only pulled_mono unfolding P_def by blast
  then have only_J: "J m" if "only ?T m1 m" for m using that J by blast
  have err: "triple A c Q (\<lambda>_. disk (P {}) J)" if "triple A c Q (\<lambda>_. disk (only ?T m1) J)"
    for A Q and c :: "(('w, 'x) pull_scheme, pull_error, 'r) io"
    by (rule triple_conseq [OF that]) (auto intro: disk_mono only)
  have created: "triple (disk ((=) m1) J) (fs_create part :: (('w, 'x) pull_scheme, io_error, unit) io)
      (\<lambda>_. disk (\<lambda>m. only ?T m1 m \<and> m ?key = Some (FileNode [])) J) (\<lambda>_. disk (P {}) J)"
    unfolding fs_create_def
    by (rule triple_conseq [OF triple_write_temp [OF temp only_J]]) (auto simp: disk_def only)
  show ?thesis
  proof (rule triple_bind [OF triple_map_err_const [OF created]],
      rule triple_bind [OF err [OF triple_stream_body [OF temp only_J]]], assumption, unfold Let_def, rule triple_if)
    fix u :: unit and hashed
    show "triple (disk (\<lambda>m. only ?T m1 m \<and> m ?key = Some (FileNode hashed)) J)
        (drop_partial part (DigestMismatch d (''sha256:'' @ finalise_hash lib hashed) d)
          :: (('w, 'x) pull_scheme, pull_error, unit) io)
        (\<lambda>_. disk (P (insert d D)) J) (\<lambda>_. disk (P {}) J)"
      by (rule err, rule triple_pre [OF triple_drop_partial [OF temp only_J]]) (auto simp: disk_def)
    assume "\<not> ''sha256:'' @ finalise_hash lib hashed \<noteq> d"
    then have "hex_of_bytes (pl_sha256 lib hashed) = h"
      using d by (auto simp: sha256_digest_def finalise_hash_def)
    from triple_install_blob [OF J [unfolded P_def] d this m1 [unfolded P_def]]
    show "triple (disk (\<lambda>m. only ?T m1 m \<and> m ?key = Some (FileNode hashed)) J)
        (io_map_err (PullIo p) (fs_rename part p) :: (('w, 'x) pull_scheme, pull_error, unit) io)
        (\<lambda>_. disk (P (insert d D)) J) (\<lambda>_. disk (P {}) J)"
      unfolding part p P_def by (rule triple_map_err_const)
  qed
qed

lemma triple_pull_blob:
  fixes dest m0 and lib :: "'w pull_lib" and ctx :: "('w, 'x) pull_scheme pull_context"
  defines "P \<equiv> pulled lib (fs_key dest) m0"
  assumes J: "\<And>D m. P D m \<Longrightarrow> J m" and chain: "provider_chain (pc_auth ctx)"
  shows "triple (disk (P D) J) (pull_blob_streamed lib ctx (blobs_dir_of dest) d)
    (\<lambda>_. disk (P (insert d D)) J) (\<lambda>_. disk (P {}) J)"
  unfolding pull_blob_streamed_def
proof (rule triple_bind_fact [OF triple_lift_fact])
  have less: "disk (P {}) J s" if "disk (P D) J s" for s :: "('w, 'x) pull_scheme"
    using that by (rule disk_mono) (auto simp: P_def intro: pulled_mono)
  then show "disk (P {}) J s" if "disk (P D) J s" for s :: "('w, 'x) pull_scheme" using that by blast
  fix p assume "blob_path_for_digest (blobs_dir_of dest) d = Inr p"
  then obtain h where d: "sha256_digest d h" and p: "p = path_join (blobs_dir_of dest) h"
    by (rule blob_path_Inr)
  let ?part = "with_extension p ''partial''"
  have stream: "triple (disk ((=) m1) J)
      (io_bind (io_map_err (PullIo ?part) (fs_create ?part)
         :: (('w, 'x) pull_scheme, pull_error, unit) io) (\<lambda>_.
       io_bind (stream_body ?part d resp []) (\<lambda>hashed.
       let computed = ''sha256:'' @ finalise_hash lib hashed in
       if computed \<noteq> d then drop_partial ?part (DigestMismatch d computed d)
       else io_map_err (PullIo p) (fs_rename ?part p))))
      (\<lambda>_. disk (P (insert d D)) J) (\<lambda>_. disk (P {}) J)" if "P D m1" for m1 resp
    unfolding P_def
    by (rule triple_stream_blob [OF J [unfolded P_def] d that [unfolded P_def] p refl])
  show "triple (disk (P D) J) (io_bind (fs_is_file p) (\<lambda>present.
     if present then io_return ()
     else
       let url = pc_base_url ctx @ ''/v2/'' @ pc_repository ctx @ ''/blobs/'' @ d in
       io_bind (io_map_err (\<lambda>e. case e of Resolve _ source \<Rightarrow> BlobFetch d source | _ \<Rightarrow> e)
         (send_with_retry lib ctx url [])) (\<lambda>resp.
       if \<not> is_success (rs_status resp) then io_fail (refused url resp)
       else
         let partial = ?part in
         io_bind (io_map_err (PullIo partial) (fs_create partial)) (\<lambda>_.
         io_bind (stream_body partial d resp []) (\<lambda>hashed.
         let computed = ''sha256:'' @ finalise_hash lib hashed in
         if computed \<noteq> d then drop_partial partial (DigestMismatch d computed d)
         else io_map_err (PullIo p) (fs_rename partial p))))))
    (\<lambda>_. disk (P (insert d D)) J) (\<lambda>_. disk (P {}) J)"
  proof (rule triple_bind [OF triple_is_file_disk], rule triple_if)
    fix present :: bool
    let ?R = "\<lambda>m. P D m \<and> (present \<longrightarrow> is_file_node (look p m))"
    show "present \<Longrightarrow> triple (disk ?R J) (io_return ()) (\<lambda>_. disk (P (insert d D)) J) (\<lambda>_. disk (P {}) J)"
      by (rule triple_return, erule disk_mono) (use present_pulled [OF d] in \<open>auto simp: P_def p\<close>)
    let ?url = "pc_base_url ctx @ ''/v2/'' @ pc_repository ctx @ ''/blobs/'' @ d"
    have sent: "triple (disk ?R J) (io_map_err (\<lambda>e. case e of Resolve _ source \<Rightarrow> BlobFetch d source | _ \<Rightarrow> e)
         (send_with_retry lib ctx ?url [])) (\<lambda>_. disk (P D) J) (\<lambda>_. disk (P {}) J)"
      by (rule triple_map_err_const, rule triple_conseq [OF triple_quiet [OF quiet_send [OF chain]],
            where ?P1 = "P D" and ?J1 = J])
        (auto intro: less elim: disk_mono)
    show "triple (disk ?R J) (let url = ?url in
       io_bind (io_map_err (\<lambda>e. case e of Resolve _ source \<Rightarrow> BlobFetch d source | _ \<Rightarrow> e)
         (send_with_retry lib ctx url [])) (\<lambda>resp.
       if \<not> is_success (rs_status resp) then io_fail (refused url resp)
       else
         let partial = ?part in
         io_bind (io_map_err (PullIo partial) (fs_create partial)) (\<lambda>_.
         io_bind (stream_body partial d resp []) (\<lambda>hashed.
         let computed = ''sha256:'' @ finalise_hash lib hashed in
         if computed \<noteq> d then drop_partial partial (DigestMismatch d computed d)
         else io_map_err (PullIo p) (fs_rename partial p)))))
      (\<lambda>_. disk (P (insert d D)) J) (\<lambda>_. disk (P {}) J)"
      unfolding Let_def
      by (rule triple_bind [OF sent], rule triple_if, rule triple_fail, erule less,
          rule triple_from, rule stream [unfolded Let_def])
  qed
qed

lemma triple_write_blob:
  fixes dest m0 and lib :: "'w pull_lib"
  defines "P \<equiv> pulled lib (fs_key dest) m0"
  assumes J: "\<And>D m. P D m \<Longrightarrow> J m"
  shows "triple (disk (P D) J)
    (write_blob_atomically lib (blobs_dir_of dest) d bs :: ('x fs_scheme, pull_error, unit) io)
    (\<lambda>_. disk (P (insert d D)) J) (\<lambda>_. disk (P {}) J)"
  unfolding write_blob_atomically_def
proof (rule triple_bind_fact [OF triple_lift_fact])
  have less: "disk (P {}) J s" if "disk (P D) J s" for s :: "'x fs_scheme"
    using that by (rule disk_mono) (auto simp: P_def intro: pulled_mono)
  then show "disk (P {}) J s" if "disk (P D) J s" for s :: "'x fs_scheme" using that by blast
  fix p assume "blob_path_for_digest (blobs_dir_of dest) d = Inr p"
  then obtain h where d: "sha256_digest d h" and p: "p = path_join (blobs_dir_of dest) h"
    by (rule blob_path_Inr)
  let ?T = "pull_temps (fs_key dest)" and ?part = "with_extension p ''partial''"
  have part: "fs_key ?part \<in> ?T" unfolding p by (rule hex_keys(2) [OF d])
  have writing: "triple (disk ((=) m1) J)
      (io_bind (io_map_err (PullIo ?part) (fs_write ?part bs) :: ('x fs_scheme, pull_error, unit) io)
        (\<lambda>_. io_map_err (PullIo p) (fs_rename ?part p)))
      (\<lambda>_. disk (P (insert d D)) J) (\<lambda>_. disk (P {}) J)"
    if m1: "P D m1" and b: "hex_of_bytes (pl_sha256 lib bs) = h" for m1
  proof -
    have only: "P {} m" if "only ?T m1 m" for m
      using m1 that pulled_only pulled_mono unfolding P_def by blast
    then have only_J: "J m" if "only ?T m1 m" for m using that J by blast
    have written: "triple (disk ((=) m1) J) (fs_write ?part bs :: ('x fs_scheme, io_error, unit) io)
        (\<lambda>_. disk (\<lambda>m. only ?T m1 m \<and> m (fs_key ?part) = Some (FileNode bs)) J) (\<lambda>_. disk (P {}) J)"
      by (rule triple_conseq [OF triple_write_temp [OF part only_J]]) (auto simp: disk_def only)
    from triple_install_blob [OF J [unfolded P_def] d b m1 [unfolded P_def]] show ?thesis
      unfolding P_def p by (intro triple_bind [OF triple_map_err_const [OF written [unfolded P_def p]]]
        triple_map_err_const)
  qed
  show "triple (disk (P D) J) (io_bind (fs_is_file p) (\<lambda>present.
     if present then io_return ()
     else
       let computed = ''sha256:'' @ pull_hex_sha256 lib bs in
       if computed \<noteq> d then io_fail (DigestMismatch d computed d)
       else
         let partial = ?part in
         io_bind (io_map_err (PullIo partial) (fs_write partial bs)) (\<lambda>_.
         io_map_err (PullIo p) (fs_rename partial p))) :: ('x fs_scheme, pull_error, unit) io)
    (\<lambda>_. disk (P (insert d D)) J) (\<lambda>_. disk (P {}) J)"
  proof (rule triple_bind [OF triple_is_file_disk], rule triple_if, unfold Let_def)
    fix present :: bool
    let ?R = "\<lambda>m. P D m \<and> (present \<longrightarrow> is_file_node (look p m))"
    show "present \<Longrightarrow> triple (disk ?R J) (io_return () :: ('x fs_scheme, pull_error, unit) io)
        (\<lambda>_. disk (P (insert d D)) J) (\<lambda>_. disk (P {}) J)"
      by (rule triple_return, erule disk_mono) (use present_pulled [OF d] in \<open>auto simp: P_def p\<close>)
    show "triple (disk ?R J)
        (if ''sha256:'' @ pull_hex_sha256 lib bs \<noteq> d
         then io_fail (DigestMismatch d (''sha256:'' @ pull_hex_sha256 lib bs) d)
         else (io_bind (io_map_err (PullIo ?part) (fs_write ?part bs)) (\<lambda>_.
           io_map_err (PullIo p) (fs_rename ?part p)) :: ('x fs_scheme, pull_error, unit) io))
        (\<lambda>_. disk (P (insert d D)) J) (\<lambda>_. disk (P {}) J)"
    proof (rule triple_if)
      show "triple (disk ?R J) (io_fail (DigestMismatch d (''sha256:'' @ pull_hex_sha256 lib bs) d)
          :: ('x fs_scheme, pull_error, unit) io)
          (\<lambda>_. disk (P (insert d D)) J) (\<lambda>_. disk (P {}) J)"
        by (rule triple_fail) (auto intro: less elim: disk_mono)
      assume "\<not> ''sha256:'' @ pull_hex_sha256 lib bs \<noteq> d"
      then have b: "hex_of_bytes (pl_sha256 lib bs) = h"
        using d by (auto simp: sha256_digest_def pull_hex_sha256_def)
      show "triple (disk ?R J) (io_bind (io_map_err (PullIo ?part) (fs_write ?part bs)) (\<lambda>_.
           io_map_err (PullIo p) (fs_rename ?part p)) :: ('x fs_scheme, pull_error, unit) io)
          (\<lambda>_. disk (P (insert d D)) J) (\<lambda>_. disk (P {}) J)"
        by (rule triple_from) (use writing [OF _ b] in blast)
    qed
  qed
qed

section \<open>What was pulled\<close>

definition digest_of :: "'w pull_lib \<Rightarrow> bytes \<Rightarrow> string" where
  "digest_of lib b = ''sha256:'' @ hex_of_bytes (pl_sha256 lib b)"

definition contents :: "wire_manifest \<Rightarrow> string list" where
  "contents man = wd_digest (wm_config man) # map wd_digest (wm_layers man)"

text \<open>
  \<open>D\<close> consists of the primary manifest and its contents, and of the referrers and theirs.
\<close>

definition closed_pull ::
  "'w pull_lib \<Rightarrow> bytes \<Rightarrow> wire_manifest \<Rightarrow> wire_descriptor list \<Rightarrow> string set \<Rightarrow> bool" where
  "closed_pull lib b man refs D \<longleftrightarrow>
     pl_manifest lib b = Inr man \<and> insert (digest_of lib b) (set (contents man)) \<subseteq> D \<and>
     (\<forall>r \<in> set refs. wd_digest r \<in> D) \<and>
     (\<forall>d \<in> D. d \<in> insert (digest_of lib b) (set (contents man)) \<or>
        (\<exists>r \<in> set refs. \<exists>rb rman. wd_digest r = digest_of lib rb \<and> pl_manifest lib rb = Inr rman \<and>
           set (contents rman) \<subseteq> D \<and> d \<in> insert (wd_digest r) (set (contents rman))))"

lemma fetch_manifest_digest:
  assumes "fetch_manifest lib ctx r a s = (Inr (bs, d), t)"
  shows "d = digest_of lib bs"
  using assms
  by (auto simp: fetch_manifest_def Let_def digest_of_def pull_hex_sha256_def io_apply_simps
      elim!: io_bind_InrE split: if_splits option.splits)

lemma triple_fetch_manifest:
  assumes "provider_chain (pc_auth ctx)" and "\<And>m. P m \<Longrightarrow> P' m"
  shows "triple (disk P J) (fetch_manifest lib ctx r a)
    (\<lambda>x s. disk P J s \<and> snd x = digest_of lib (fst x)) (\<lambda>_. disk P' J)"
proof (rule triple_result)
  show "triple (disk P J) (fetch_manifest lib ctx r a) (\<lambda>_. disk P J) (\<lambda>_. disk P' J)"
    by (rule triple_conseq [OF triple_quiet [OF quiet_fetch(1) [OF assms(1)]], where ?P1 = P and ?J1 = J])
      (auto intro: disk_mono assms(2))
qed (metis fetch_manifest_digest surjective_pairing)

lemma triple_pull_layers:
  fixes dest m0 and lib :: "'w pull_lib" and ctx :: "('w, 'x) pull_scheme pull_context"
  defines "P \<equiv> pulled lib (fs_key dest) m0"
  assumes J: "\<And>D m. P D m \<Longrightarrow> J m" and chain: "provider_chain (pc_auth ctx)"
  shows "triple (disk (P D) J) (pull_layers lib ctx (blobs_dir_of dest) layers)
    (\<lambda>_. disk (P (D \<union> wd_digest ` set layers)) J) (\<lambda>_. disk (P {}) J)"
proof -
  let ?I = "\<lambda>(ys :: (nat \<times> wire_descriptor) list) (u :: unit). disk (P (D \<union> (wd_digest \<circ> snd) ` set ys)) J :: ('w, 'x) pull_scheme \<Rightarrow> bool"
  have "triple (?I [] ()) (pull_layers lib ctx (blobs_dir_of dest) layers) (?I (enumerate 0 layers)) (\<lambda>_. disk (P {}) J)"
    unfolding pull_layers_def
  proof (rule triple_fold [where I = ?I])
    fix ys zs and x :: "nat \<times> wire_descriptor" and u :: unit
    obtain i l where x: "x = (i, l)" by fastforce
    have "(wd_digest \<circ> snd) ` set (ys @ [x]) = insert (wd_digest l) ((wd_digest \<circ> snd) ` set ys)"
      by (simp add: x)
    then show "triple (?I ys u) ((case x of (i, layer) \<Rightarrow> \<lambda>_. io_map_err
        (name_blob (''layer['' @ dec_of_nat i @ '']'')) (pull_blob_streamed lib ctx (blobs_dir_of dest) (wd_digest layer))) u)
        (?I (ys @ [x])) (\<lambda>_. disk (P {}) J)"
      using triple_map_err_const [OF triple_pull_blob [OF J [unfolded P_def] chain]]
      by (simp add: x P_def)
  qed
  moreover have "(wd_digest \<circ> snd) ` set (enumerate 0 layers) = wd_digest ` set layers"
    by (metis image_comp map_snd_enumerate list.set_map)
  ultimately show ?thesis by simp
qed

lemma triple_referrer_layers:
  fixes dest m0 and lib :: "'w pull_lib" and ctx :: "('w, 'x) pull_scheme pull_context"
  defines "P \<equiv> pulled lib (fs_key dest) m0"
  assumes J: "\<And>D m. P D m \<Longrightarrow> J m" and chain: "provider_chain (pc_auth ctx)"
  shows "triple (disk (P seen) J) (pull_referrer_layers lib ctx (blobs_dir_of dest) rd layers seen)
    (\<lambda>seen' s. seen' = seen \<union> wd_digest ` set layers \<and> disk (P seen') J s) (\<lambda>_. disk (P {}) J)"
proof -
  let ?I = "\<lambda>(ys :: (nat \<times> wire_descriptor) list) b (s :: ('w, 'x) pull_scheme). b = seen \<union> (wd_digest \<circ> snd) ` set ys \<and> disk (P b) J s"
  have "triple (?I [] seen) (pull_referrer_layers lib ctx (blobs_dir_of dest) rd layers seen)
      (?I (enumerate 0 layers)) (\<lambda>_. disk (P {}) J)"
    unfolding pull_referrer_layers_def
  proof (rule triple_fold [where I = ?I], rule triple_pre_imp)
    fix b and ys zs :: "(nat \<times> wire_descriptor) list" and x :: "nat \<times> wire_descriptor"
    obtain i l where x: "x = (i, l)" by fastforce
    assume b: "b = seen \<union> (wd_digest \<circ> snd) ` set ys"
    have new: "insert (wd_digest l) b = seen \<union> (wd_digest \<circ> snd) ` set (ys @ [x])"
      by (simp add: x b)
    have pulled: "triple (disk (P b) J) (io_bind (io_map_err
          (name_blob (''referrer '' @ rd @ '' layer['' @ dec_of_nat i @ '']''))
          (pull_blob_streamed lib ctx (blobs_dir_of dest) (wd_digest l))) (\<lambda>_. io_return (insert (wd_digest l) b)))
        (?I (ys @ [x])) (\<lambda>_. disk (P {}) J)"
      unfolding P_def
      by (rule triple_bind [OF triple_map_err_const [OF triple_pull_blob [OF J [unfolded P_def] chain]]],
          assumption, rule triple_return) (simp add: new)
    have skip: "triple (disk (P b) J) (io_return b) (?I (ys @ [x])) (\<lambda>_. disk (P {}) J)"
      if "wd_digest l \<in> b"
      by (rule triple_return) (use that new in \<open>simp add: insert_absorb\<close>)
    show "triple (disk (P b) J) ((case x of (i, layer) \<Rightarrow> \<lambda>seen.
        if wd_digest layer \<notin> seen then
         io_bind (io_map_err (name_blob (''referrer '' @ rd @ '' layer['' @ dec_of_nat i @ '']''))
           (pull_blob_streamed lib ctx (blobs_dir_of dest) (wd_digest layer)))
           (\<lambda>_. io_return (insert (wd_digest layer) seen))
       else io_return seen) b) (?I (ys @ [x])) (\<lambda>_. disk (P {}) J)"
      unfolding x prod.case
      by (rule triple_if, rule pulled [unfolded x], rule skip [unfolded x]) simp
  qed
  moreover have "(wd_digest \<circ> snd) ` set (enumerate 0 layers) = wd_digest ` set layers"
    by (metis image_comp map_snd_enumerate list.set_map)
  ultimately show ?thesis by simp
qed

lemma closed_add:
  assumes "closed_pull lib b man mats seen" and "wd_digest r = digest_of lib rb"
    and "pl_manifest lib rb = Inr rm"
  shows "closed_pull lib b man (mats @ [r]) (seen \<union> insert (wd_digest r) (set (contents rm)))"
proof -
  let ?D = "seen \<union> insert (wd_digest r) (set (contents rm))"
  let ?from = "\<lambda>refs D d. \<exists>r \<in> set refs. \<exists>rb rman. wd_digest r = digest_of lib rb \<and> pl_manifest lib rb = Inr rman \<and>
     set (contents rman) \<subseteq> D \<and> d \<in> insert (wd_digest r) (set (contents rman))"
  have old: "?from (mats @ [r]) ?D d" if "?from mats seen d" for d
    using that by (simp add: bex_Un) blast
  have new: "?from (mats @ [r]) ?D d" if "d \<in> insert (wd_digest r) (set (contents rm))" for d
    using that assms(2,3) by (simp add: bex_Un) blast
  from assms(1) have "\<forall>d \<in> seen. d \<in> insert (digest_of lib b) (set (contents man)) \<or> ?from mats seen d"
    by (simp add: closed_pull_def)
  then have "\<forall>d \<in> ?D. d \<in> insert (digest_of lib b) (set (contents man)) \<or> ?from (mats @ [r]) ?D d"
    using old new by blast
  with assms(1) show ?thesis by (auto simp: closed_pull_def)
qed

lemma triple_pull_referrer:
  fixes dest m0 and lib :: "'w pull_lib" and ctx :: "('w, 'x) pull_scheme pull_context"
  defines "P \<equiv> pulled lib (fs_key dest) m0"
  assumes J: "\<And>D m. P D m \<Longrightarrow> J m" and chain: "provider_chain (pc_auth ctx)"
  shows "triple (\<lambda>s. closed_pull lib b man mats seen \<and> disk (P seen) J s)
    (pull_referrer lib ctx (blobs_dir_of dest) r (seen, mats))
    (\<lambda>z s. snd z = mats @ [r] \<and> closed_pull lib b man (snd z) (fst z) \<and> disk (P (fst z)) J s)
    (\<lambda>_. disk (P {}) J)"
proof (rule triple_pre_imp)
  assume closed: "closed_pull lib b man mats seen"
  let ?d = "wd_digest r"
  have none: "disk (P {}) J s" if "disk (P D) J s" for D and s :: "('w, 'x) pull_scheme"
    using that by (rule disk_mono) (auto simp: P_def intro: pulled_mono)
  have wb: "triple (disk (P seen) J) (write_blob_atomically lib (blobs_dir_of dest) (snd x) (fst x))
      (\<lambda>_. disk (P (insert ?d seen)) J) (\<lambda>_. disk (P {}) J)"
    if "snd x = digest_of lib (fst x)" "?d = digest_of lib (fst x)" for x :: "bytes \<times> string"
    using triple_write_blob [OF J [unfolded P_def], where D = seen and d = "digest_of lib (fst x)" and bs = "fst x"]
    unfolding that P_def .
  let ?Q = "\<lambda>z s. snd z = mats @ [r] \<and> closed_pull lib b man (snd z) (fst z) \<and> disk (P (fst z)) J s"
  show "triple (disk (P seen) J) (pull_referrer lib ctx (blobs_dir_of dest) r (seen, mats)) ?Q (\<lambda>_. disk (P {}) J)"
    unfolding pull_referrer_def prod.case Let_def
  proof (rule triple_if)
    assume "?d \<in> seen"
    with closed have "closed_pull lib b man (mats @ [r]) seen"
      unfolding closed_pull_def by (simp add: bex_Un) blast
    then show "triple (disk (P seen) J) (io_return (seen, mats @ [r])) ?Q (\<lambda>_. disk (P {}) J)"
      by (intro triple_return) simp
  next
    show "triple (disk (P seen) J)
      (io_bind (fetch_manifest lib ctx ?d pull_manifest_type) (\<lambda>(bs, digest).
       if digest \<noteq> ?d then io_fail (DigestMismatch ?d digest ''referrer manifest from referrers index'')
       else
         io_bind (write_blob_atomically lib (blobs_dir_of dest) digest bs) (\<lambda>_.
         io_bind (io_lift (parse_image_manifest lib bs)) (\<lambda>ref_manifest.
         io_bind (if wd_digest (wm_config ref_manifest) \<notin> insert ?d seen
             then pull_blob_streamed lib ctx (blobs_dir_of dest) (wd_digest (wm_config ref_manifest))
             else io_return ()) (\<lambda>_.
         io_bind (pull_referrer_layers lib ctx (blobs_dir_of dest) ?d (wm_layers ref_manifest)
           (insert (wd_digest (wm_config ref_manifest)) (insert ?d seen))) (\<lambda>seen.
         io_return (seen, mats @ [r]))))))) ?Q (\<lambda>_. disk (P {}) J)"
    proof (rule triple_bind_fact [OF triple_fetch_manifest [OF chain, where P' = "P {}"]],
        simp add: P_def pulled_mono, unfold split_beta, rule triple_if, rule triple_fail, erule none)
      fix x :: "bytes \<times> string"
      assume x: "snd x = digest_of lib (fst x)" and "\<not> snd x \<noteq> ?d"
      then have d: "?d = digest_of lib (fst x)" by simp
      show "triple (disk (P seen) J)
         (io_bind (write_blob_atomically lib (blobs_dir_of dest) (snd x) (fst x)) (\<lambda>_.
         io_bind (io_lift (parse_image_manifest lib (fst x))) (\<lambda>ref_manifest.
         io_bind (if wd_digest (wm_config ref_manifest) \<notin> insert ?d seen
             then pull_blob_streamed lib ctx (blobs_dir_of dest) (wd_digest (wm_config ref_manifest))
             else io_return ()) (\<lambda>_.
         io_bind (pull_referrer_layers lib ctx (blobs_dir_of dest) ?d (wm_layers ref_manifest)
           (insert (wd_digest (wm_config ref_manifest)) (insert ?d seen))) (\<lambda>seen.
         io_return (seen, mats @ [r])))))) ?Q (\<lambda>_. disk (P {}) J)"
      proof (rule triple_bind, rule wb [OF x(1) d], rule triple_bind_fact [OF triple_lift_fact], erule none)
        fix u :: unit and rm
        assume "parse_image_manifest lib (fst x) = Inr rm"
        then have rm: "pl_manifest lib (fst x) = Inr rm" by (simp add: parse_image_manifest_def)
        let ?c = "wd_digest (wm_config rm)"
        have config: "triple (disk (P (insert ?d seen)) J)
            (if ?c \<notin> insert ?d seen then pull_blob_streamed lib ctx (blobs_dir_of dest) ?c else io_return ())
            (\<lambda>_. disk (P (insert ?c (insert ?d seen))) J) (\<lambda>_. disk (P {}) J)"
          unfolding P_def
          by (rule triple_if, rule triple_pull_blob [OF J [unfolded P_def] chain], assumption, rule triple_return)
            (simp add: insert_absorb)
        have layers: "triple (disk (P S) J) (pull_referrer_layers lib ctx (blobs_dir_of dest) rd ls S)
            (\<lambda>seen' s. seen' = S \<union> wd_digest ` set ls \<and> disk (P seen') J s) (\<lambda>_. disk (P {}) J)" for S rd ls
          unfolding P_def by (rule triple_referrer_layers [OF J [unfolded P_def] chain]) assumption
        have all: "insert ?c (insert ?d seen) \<union> wd_digest ` set (wm_layers rm) = seen \<union> insert ?d (set (contents rm))"
          by (auto simp: contents_def)
        show "triple (disk (P (insert ?d seen)) J)
          (io_bind (if ?c \<notin> insert ?d seen then pull_blob_streamed lib ctx (blobs_dir_of dest) ?c else io_return ())
            (\<lambda>_. io_bind (pull_referrer_layers lib ctx (blobs_dir_of dest) ?d (wm_layers rm)
               (insert ?c (insert ?d seen))) (\<lambda>seen. io_return (seen, mats @ [r]))))
          ?Q (\<lambda>_. disk (P {}) J)"
          by (rule triple_bind [OF config], rule triple_bind [OF layers], rule triple_return)
            (use closed_add [OF closed d rm] all in simp)
      qed
    qed
  qed
qed

end
