(* ===== verification/Pull_Integrity.thy ===== *)
theory Pull_Integrity
  imports Pull_Commit
begin

text \<open>
  The whole pull: the index is written last and only over blobs that are complete, at every
  moment and under any faults of the disk or the registry.
\<close>

section \<open>What the index promises\<close>

definition is_target :: "'w pull_lib \<Rightarrow> ref_target \<Rightarrow> bytes \<Rightarrow> bool" where
  "is_target lib target b \<longleftrightarrow> (case target of Digest e \<Rightarrow> e = digest_of lib b | Tag _ \<Rightarrow> True)"

definition committed_pull :: "'w pull_lib \<Rightarrow> fkey \<Rightarrow> ref_target \<Rightarrow> nodes \<Rightarrow> bool" where
  "committed_pull lib K target m \<longleftrightarrow>
     (\<exists>b man refs D doc. closed_pull lib b man refs D \<and> is_target lib target b \<and>
        (\<forall>d \<in> D. has_blob K m d) \<and>
        pl_pretty lib (pulled_index (digest_of lib b) (length b) refs) = Inr doc \<and>
        m (K @ [''index.json'']) = Some (FileNode doc))"

definition sound_pull :: "'w pull_lib \<Rightarrow> fkey \<Rightarrow> ref_target \<Rightarrow> nodes \<Rightarrow> nodes \<Rightarrow> bool" where
  "sound_pull lib K target m0 m \<longleftrightarrow> verified lib K m0 m \<and>
     (m (K @ [''index.json'']) = m0 (K @ [''index.json'']) \<or> committed_pull lib K target m)"

lemma pulled_sound: "pulled lib K m0 D m \<Longrightarrow> sound_pull lib K target m0 m"
  by (simp add: pulled_def sound_pull_def)

section \<open>The last steps\<close>

definition index_temp :: "fkey \<Rightarrow> fkey set" where
  "index_temp K = {K @ [''index.tmp'']}"

lemma pulled_index_written:
  assumes P: "pulled lib K m0 D m1" and closed: "closed_pull lib b man refs D"
    and target: "is_target lib target b"
    and pretty: "pl_pretty lib (pulled_index (digest_of lib b) (length b) refs) = Inr doc"
    and touched: "touched (index_temp K) (K @ [''index.json'']) doc m1 m"
  shows "sound_pull lib K target m0 m"
    "m (K @ [''index.json'']) = Some (FileNode doc) \<Longrightarrow> committed_pull lib K target m"
proof -
  have same: "m (blob_file K d) = m1 (blob_file K d)" for d
    using touched by (simp add: touched_def only_def index_temp_def)
  have blobs: "\<forall>d \<in> D. has_blob K m d" and ver: "verified lib K m0 m"
    using P by (auto simp: pulled_def has_blob_def verified_def same)
  from blobs closed target pretty
  show committed: "m (K @ [''index.json'']) = Some (FileNode doc) \<Longrightarrow> committed_pull lib K target m"
    unfolding committed_pull_def by blast
  have "m (K @ [''index.json'']) = m1 (K @ [''index.json'']) \<or> m (K @ [''index.json'']) = Some (FileNode doc)"
    using touched by (simp add: touched_def)
  then show "sound_pull lib K target m0 m"
    using ver committed P by (auto simp: sound_pull_def pulled_def)
qed

lemma index_names:
  "fs_key (path_join dest ''index.json'') = fs_key dest @ [''index.json'']"
  "fs_key (with_extension (path_join dest ''index.json'') ''tmp'') = fs_key dest @ [''index.tmp'']"
  "fs_key (path_join dest ''oci-layout'') = fs_key dest @ [''oci-layout'']"
proof -
  have plain: "plain_name ''index.json''" "plain_name ''index.tmp''" "plain_name ''oci-layout''"
    by (simp_all add: plain_name_def)
  have "file_stem ''index.json'' = ''index''" by code_simp
  then have "with_extension (path_join dest ''index.json'') ''tmp'' = path_join dest ''index.tmp''"
    using with_extension_join [OF plain(1), of dest "''tmp''"] by simp
  with plain show "fs_key (path_join dest ''index.json'') = fs_key dest @ [''index.json'']"
    "fs_key (with_extension (path_join dest ''index.json'') ''tmp'') = fs_key dest @ [''index.tmp'']"
    "fs_key (path_join dest ''oci-layout'') = fs_key dest @ [''oci-layout'']"
    by (simp_all add: fs_key_join_plain)
qed

text \<open>The marker is one of the temporary files of a pull: nothing is claimed of it on the way.\<close>

lemma triple_marker:
  fixes dest m0 and lib :: "'w pull_lib"
  defines "P \<equiv> pulled lib (fs_key dest) m0"
  assumes J: "\<And>D m. P D m \<Longrightarrow> J m"
  shows "triple (disk (P D) J) (write_oci_layout_marker dest :: ('x fs_scheme, pull_error, unit) io)
    (\<lambda>_. disk (\<lambda>m. P D m \<and> is_file_node (m (fs_key dest @ [''oci-layout'']))) J) (\<lambda>_. disk (P {}) J)"
  unfolding write_oci_layout_marker_def Let_def
proof (rule triple_bind [OF triple_is_file_disk], rule triple_if)
  let ?p = "path_join dest ''oci-layout''" and ?T = "pull_temps (fs_key dest)"
  let ?Q = "\<lambda>m. P D m \<and> is_file_node (m (fs_key dest @ [''oci-layout'']))"
  fix present :: bool
  let ?R = "\<lambda>m. P D m \<and> (present \<longrightarrow> is_file_node (look ?p m))"
  show "present \<Longrightarrow> triple (disk ?R J) (io_return () :: ('x fs_scheme, pull_error, unit) io) (\<lambda>_. disk ?Q J) (\<lambda>_. disk (P {}) J)"
    by (rule triple_return, erule disk_mono)
      (auto simp: look_def index_names is_file_node_def split: if_splits)
  have tmp: "fs_key ?p \<in> ?T" by (simp add: index_names pull_temps_def)
  have writing: "triple (disk ((=) m1) J) (io_map_err (PullIo ?p) (fs_write ?p layout_marker_text) :: ('x fs_scheme, pull_error, unit) io)
      (\<lambda>_. disk ?Q J) (\<lambda>_. disk (P {}) J)" if m1: "P D m1" for m1
  proof -
    have keep: "P D m" if "only ?T m1 m" for m
      using m1 that pulled_only unfolding P_def by blast
    then have "J m" if "only ?T m1 m" for m using that J by blast
    then show ?thesis
      by (intro triple_map_err_const, intro triple_conseq [OF triple_write_temp [OF tmp, of m1 J]])
        (use keep in \<open>auto simp: disk_def index_names is_file_node_def P_def intro: pulled_mono\<close>)
  qed
  show "triple (disk ?R J) (io_map_err (PullIo ?p) (fs_write ?p layout_marker_text) :: ('x fs_scheme, pull_error, unit) io)
      (\<lambda>_. disk ?Q J) (\<lambda>_. disk (P {}) J)"
    by (rule triple_from, rule writing) simp
qed

lemma triple_index:
  fixes dest m0 target and lib :: "'w pull_lib"
  defines "K \<equiv> fs_key dest"
  defines "S \<equiv> sound_pull lib K target m0"
  assumes closed: "closed_pull lib b man refs D" and target: "is_target lib target b"
  shows "triple (disk (\<lambda>m. pulled lib K m0 D m \<and> is_file_node (m (K @ [''oci-layout'']))) S)
    (write_index_json lib dest (digest_of lib b) (length b) refs :: ('x fs_scheme, pull_error, unit) io)
    (\<lambda>_. disk (\<lambda>m. S m \<and> committed_pull lib K target m \<and> is_file_node (m (K @ [''oci-layout'']))) S)
    (\<lambda>_. disk S S)"
proof (rule triple_from)
  fix m1
  assume m1: "pulled lib K m0 D m1 \<and> is_file_node (m1 (K @ [''oci-layout'']))"
  let ?p = "path_join dest ''index.json''" and ?T = "index_temp K"
  let ?tmp = "with_extension ?p ''tmp''"
  have keys: "fs_key ?tmp \<in> ?T" "fs_key ?p \<notin> ?T" "fs_key ?p = K @ [''index.json'']"
    by (simp_all add: index_names index_temp_def K_def)
  show "triple (disk ((=) m1) S) (write_index_json lib dest (digest_of lib b) (length b) refs :: ('x fs_scheme, pull_error, unit) io)
      (\<lambda>_. disk (\<lambda>m. S m \<and> committed_pull lib K target m \<and> is_file_node (m (K @ [''oci-layout'']))) S) (\<lambda>_. disk S S)"
    unfolding write_index_json_def Let_def
  proof (rule triple_bind_fact [OF triple_lift_fact])
    show "disk S S s" if "disk ((=) m1) S s" for s :: "'x fs_scheme"
      using that m1 by (auto simp: disk_def S_def intro: pulled_sound)
    fix doc
    assume "map_err (\<lambda>e. PullIo ?p (IoError InvalidData [Txt e]))
        (pl_pretty lib (pulled_index (digest_of lib b) (length b) refs)) = Inr doc"
    then have pretty: "pl_pretty lib (pulled_index (digest_of lib b) (length b) refs) = Inr doc" by simp
    note written = pulled_index_written [OF conjunct1 [OF m1] closed target pretty]
    have S: "S m" if "touched ?T (fs_key ?p) doc m1 m" for m
      unfolding S_def using written(1) that unfolding keys by blast
    have only: "S m" if "only ?T m1 m" for m
      using S only_touched [OF that keys(2)] by blast
    have marker: "is_file_node (m (K @ [''oci-layout'']))" if "touched ?T (fs_key ?p) doc m1 m" for m
      using that m1 by (simp add: touched_def only_def keys index_temp_def)
    have rename: "triple (disk (\<lambda>m. only ?T m1 m \<and> m (fs_key ?tmp) = Some (FileNode doc)) S)
        (io_map_err (PullIo ?p) (fs_rename ?tmp ?p) :: ('x fs_scheme, pull_error, unit) io)
        (\<lambda>_. disk (\<lambda>m. S m \<and> committed_pull lib K target m \<and> is_file_node (m (K @ [''oci-layout'']))) S) (\<lambda>_. disk S S)"
      by (intro triple_map_err_const, rule triple_conseq [OF triple_rename_temp [OF keys(1,2) S]])
        (use S only marker written(2) in \<open>auto simp: disk_def keys(3)\<close>)
    have new_index: "triple (disk ((=) m1) S) (fs_write ?tmp doc :: ('x fs_scheme, io_error, unit) io)
        (\<lambda>_. disk (\<lambda>m. only ?T m1 m \<and> m (fs_key ?tmp) = Some (FileNode doc)) S) (\<lambda>_. disk S S)"
      by (rule triple_conseq [OF triple_write_temp [OF keys(1) only]])
        (auto simp: disk_def intro: only)
    show "triple (disk ((=) m1) S)
        (io_bind (io_map_err (PullIo ?tmp) (fs_write ?tmp doc)) (\<lambda>_. io_map_err (PullIo ?p) (fs_rename ?tmp ?p))
          :: ('x fs_scheme, pull_error, unit) io)
        (\<lambda>_. disk (\<lambda>m. S m \<and> committed_pull lib K target m \<and> is_file_node (m (K @ [''oci-layout'']))) S) (\<lambda>_. disk S S)"
      by (rule triple_bind [OF triple_map_err_const [OF new_index]], rule rename)
  qed
qed

section \<open>The whole pull\<close>

lemma pulled_dirs:
  assumes "\<And>k. m k \<noteq> m0 k \<Longrightarrow> k \<in> set (prefixes_of (K @ [''blobs'', ''sha256'']))"
  shows "pulled lib K m0 {} m"
proof -
  have pre: "\<exists>y. k @ y = K @ [''blobs'', ''sha256''] \<and> length k \<le> length K + 2"
    if "m k \<noteq> m0 k" for k
  proof -
    let ?L = "K @ [''blobs'', ''sha256'']"
    from assms [OF that] obtain i where "k = take i ?L"
      unfolding prefixes_of_def set_map by blast
    then show ?thesis by (intro exI [of _ "drop i ?L"]) (simp del: take_append drop_append)
  qed
  have "m (blob_file K d) = m0 (blob_file K d)" for d
    using pre [of "blob_file K d"] by (auto simp: blob_file_def)
  moreover have "m (K @ [''index.json'']) = m0 (K @ [''index.json''])"
    using pre [of "K @ [''index.json'']"] by auto
  ultimately show ?thesis by (simp add: pulled_def verified_def)
qed

lemma quiet_is_dir: "quiet (fs_is_dir p)"
  by (auto simp: quiet_def keeps_def still_def fs_is_dir_def fs_query_def fs_call_def call_is_dir_def
      split: prod.splits sum.splits option.splits)

lemma triple_referrers:
  fixes dest m0 and lib :: "'w pull_lib" and ctx :: "('w, 'x) pull_scheme pull_context"
  defines "P \<equiv> pulled lib (fs_key dest) m0"
  assumes J: "\<And>D m. P D m \<Longrightarrow> J m" and chain: "provider_chain (pc_auth ctx)"
    and closed: "closed_pull lib b man [] D"
  shows "triple (disk (P D) J) (io_fold (pull_referrer lib ctx (blobs_dir_of dest)) rs (D, []))
    (\<lambda>z s. closed_pull lib b man (snd z) (fst z) \<and> disk (P (fst z)) J s) (\<lambda>_. disk (P {}) J)"
proof -
  let ?I = "\<lambda>(ys :: wire_descriptor list) z (s :: ('w, 'x) pull_scheme).
    snd z = ys \<and> closed_pull lib b man (snd z) (fst z) \<and> disk (P (fst z)) J s"
  have "triple (?I [] (D, [])) (io_fold (pull_referrer lib ctx (blobs_dir_of dest)) rs (D, [])) (?I rs)
      (\<lambda>_. disk (P {}) J)"
  proof (rule triple_fold [where I = ?I], rule triple_pre_imp)
    fix ys zs :: "wire_descriptor list" and r and z :: "string set \<times> wire_descriptor list"
    assume "snd z = ys"
    then have z: "z = (fst z, ys)" by (cases z) simp
    show "triple (\<lambda>s. closed_pull lib b man (snd z) (fst z) \<and> disk (P (fst z)) J s)
        (pull_referrer lib ctx (blobs_dir_of dest) r z) (?I (ys @ [r])) (\<lambda>_. disk (P {}) J)"
      using triple_pull_referrer [OF J [unfolded P_def] chain, where b = b and man = man and mats = ys
          and seen = "fst z" and r = r]
      unfolding P_def z [symmetric] \<open>snd z = ys\<close> by simp
  qed
  then show ?thesis by (rule triple_conseq) (use closed in auto)
qed

lemma triple_pull_contents:
  fixes dest m0 target and lib :: "'w pull_lib" and ctx :: "('w, 'x) pull_scheme pull_context"
  defines "K \<equiv> fs_key dest"
  defines "S \<equiv> sound_pull lib K target m0"
  assumes chain: "provider_chain (pc_auth ctx)" and target: "is_target lib target b"
    and man: "pl_manifest lib b = Inr man"
  shows "triple (disk (pulled lib K m0 {digest_of lib b}) S)
    (io_bind (pull_blob_streamed lib ctx (blobs_dir_of dest) (wd_digest (wm_config man))) (\<lambda>_.
     io_bind (pull_layers lib ctx (blobs_dir_of dest) (wm_layers man)) (\<lambda>_.
     io_bind (fetch_referrers lib ctx parsed (digest_of lib b) opts) (\<lambda>referrers.
     io_bind (io_fold (pull_referrer lib ctx (blobs_dir_of dest)) referrers
       (set (digest_of lib b # wd_digest (wm_config man) # map wd_digest (wm_layers man)), [])) (\<lambda>z.
     io_bind (write_oci_layout_marker dest) (\<lambda>_.
     write_index_json lib dest (digest_of lib b) (length b) (snd z)))))))
    (\<lambda>_. disk (\<lambda>m. S m \<and> committed_pull lib K target m \<and> is_file_node (m (K @ [''oci-layout'']))) S)
    (\<lambda>_. disk S S)"
proof -
  let ?P = "pulled lib K m0" and ?b = "blobs_dir_of dest" and ?d = "digest_of lib b"
  let ?c = "wd_digest (wm_config man)" and ?ls = "wm_layers man"
  let ?D = "set (?d # ?c # map wd_digest ?ls)"
  have S: "S m" if "pulled lib (fs_key dest) m0 D m" for D m
    using that pulled_sound unfolding S_def K_def by blast
  have none: "disk S S s" if "disk (?P D) S s" for D and s :: "('w, 'x) pull_scheme"
    using that by (rule disk_mono) (use S in \<open>auto simp: K_def\<close>)
  have weak: "triple A c Q (\<lambda>_. disk S S)" if "triple A c Q (\<lambda>_. disk (?P {}) S)"
    for A Q and c :: "(('w, 'x) pull_scheme, pull_error, 'b) io"
    using that by (rule triple_conseq) (auto intro: none)
  have config: "triple (disk (?P {?d}) S) (pull_blob_streamed lib ctx ?b ?c)
      (\<lambda>_. disk (?P (insert ?c {?d})) S) (\<lambda>_. disk S S)"
    by (rule weak) (unfold K_def, rule triple_pull_blob [OF S chain])
  have layers: "triple (disk (?P (insert ?c {?d})) S) (pull_layers lib ctx ?b ?ls)
      (\<lambda>_. disk (?P (insert ?c {?d} \<union> wd_digest ` set ?ls)) S) (\<lambda>_. disk S S)"
    by (rule weak) (unfold K_def, rule triple_pull_layers [OF S chain])
  have all: "insert ?c {?d} \<union> wd_digest ` set ?ls = ?D" by auto
  have fetch: "triple (disk (?P ?D) S) (fetch_referrers lib ctx parsed ?d opts) (\<lambda>_. disk (?P ?D) S) (\<lambda>_. disk S S)"
    by (rule triple_conseq [OF triple_quiet [OF quiet_fetch(2) [OF chain]], where ?P1 = "?P ?D" and ?J1 = S])
      (auto intro: none)
  have closed: "closed_pull lib b man [] ?D"
    by (auto simp: closed_pull_def man contents_def)
  have referrers: "triple (disk (?P ?D) S) (io_fold (pull_referrer lib ctx ?b) rs (?D, []))
      (\<lambda>z s. closed_pull lib b man (snd z) (fst z) \<and> disk (?P (fst z)) S s) (\<lambda>_. disk S S)" for rs
    by (rule weak) (unfold K_def, rule triple_referrers [OF S chain closed])
  have marker: "triple (disk (?P D) S) (write_oci_layout_marker dest :: (('w, 'x) pull_scheme, pull_error, unit) io)
      (\<lambda>_. disk (\<lambda>m. ?P D m \<and> is_file_node (m (K @ [''oci-layout'']))) S) (\<lambda>_. disk S S)" for D
    by (rule weak) (unfold K_def, rule triple_marker [OF S])
  show ?thesis
  proof (rule triple_bind [OF config], rule triple_bind [OF layers [unfolded all]], rule triple_bind [OF fetch],
      rule triple_bind [OF referrers], rule triple_pre_imp, rule triple_bind [OF marker])
    fix z :: "string set \<times> wire_descriptor list"
    assume "closed_pull lib b man (snd z) (fst z)"
    from triple_index [OF this target, where dest = dest and ?m0.0 = m0]
    show "triple (disk (\<lambda>m. ?P (fst z) m \<and> is_file_node (m (K @ [''oci-layout'']))) S)
      (write_index_json lib dest ?d (length b) (snd z) :: (('w, 'x) pull_scheme, pull_error, unit) io)
      (\<lambda>_. disk (\<lambda>m. S m \<and> committed_pull lib K target m \<and> is_file_node (m (K @ [''oci-layout'']))) S)
      (\<lambda>_. disk S S)"
      unfolding K_def S_def .
  qed
qed

lemma triple_execute_pull:
  fixes dest m0 parsed and lib :: "'w pull_lib" and ctx :: "('w, 'x) pull_scheme pull_context"
  defines "K \<equiv> fs_key dest"
  defines "S \<equiv> sound_pull lib K (rr_target parsed) m0"
  assumes chain: "provider_chain (pc_auth ctx)"
  shows "triple (disk ((=) m0) (pulled lib K m0 {})) (execute_pull lib ctx parsed dest opts)
    (\<lambda>_. disk (\<lambda>m. S m \<and> committed_pull lib K (rr_target parsed) m \<and> is_file_node (m (K @ [''oci-layout'']))) S)
    (\<lambda>_. disk S S)"
proof -
  let ?P = "pulled lib K m0" and ?b = "blobs_dir_of dest"
  let ?Q = "\<lambda>(_ :: unit) (s :: ('w, 'x) pull_scheme).
    disk (\<lambda>m. S m \<and> committed_pull lib K (rr_target parsed) m \<and> is_file_node (m (K @ [''oci-layout'']))) S s"
  have S: "S m" if "pulled lib (fs_key dest) m0 D m" for D m
    using that pulled_sound unfolding S_def K_def by blast
  have weaker: "disk S S s" if "disk (?P D) (?P {}) s" for D and s :: "('w, 'x) pull_scheme"
    using that by (rule disk_weaken) (use S in \<open>auto simp: K_def\<close>)
  have none: "disk S S s" if "disk (?P D) S s" for D and s :: "('w, 'x) pull_scheme"
    using that by (rule disk_weaken) (use S in \<open>auto simp: K_def\<close>)
  have first: "disk (?P {}) (?P {}) s" if "disk ((=) m0) (?P {}) s" for s :: "('w, 'x) pull_scheme"
    using that pulled_dirs by (fastforce simp: disk_def)
  have is_dir: "triple (disk ((=) m0) (?P {})) (fs_is_dir dest :: (('w, 'x) pull_scheme, pull_error, bool) io)
      (\<lambda>_. disk ((=) m0) (?P {})) (\<lambda>_. disk S S)"
    by (rule triple_conseq [OF triple_quiet [OF quiet_is_dir], where ?P1 = "(=) m0" and ?J1 = "?P {}"])
      (use first weaker in blast)+
  have dirs: "triple (disk ((=) m0) (?P {}))
      (io_map_err (PullIo ?b) (fs_create_dir_all ?b) :: (('w, 'x) pull_scheme, pull_error, unit) io)
      (\<lambda>_. disk (?P {}) S) (\<lambda>_. disk S S)"
  proof (rule triple_map_err_const, rule triple_conseq [OF triple_create_dirs [where J = "?P {}"]])
    show "?P {} m" if "\<And>k. m k \<noteq> m0 k \<Longrightarrow> k \<in> set (prefixes_of (fs_key ?b))" for m
      by (rule pulled_dirs) (use that in \<open>simp add: fs_key_blobs_dir K_def\<close>)
    show "disk (?P {}) S s" if "disk (?P {}) (?P {}) s" for s :: "('w, 'x) pull_scheme"
      using that by (rule disk_weaken) (use S in \<open>auto simp: K_def\<close>)
  qed (use weaker in blast)+
  have fetch: "triple (disk (?P {}) S) (fetch_manifest lib ctx r a)
      (\<lambda>x s. disk (?P {}) S s \<and> snd x = digest_of lib (fst x)) (\<lambda>_. disk S S)" for r a
    by (rule triple_fetch_manifest [OF chain]) (use S in \<open>auto simp: K_def\<close>)
  have pinned: "triple (disk (?P {}) S :: ('w, 'x) pull_scheme \<Rightarrow> bool) (case rr_target parsed of
        Digest expected \<Rightarrow> if expected \<noteq> digest_of lib b
          then io_fail (DigestMismatch expected (digest_of lib b) (''primary manifest of '' @ rr_raw parsed))
          else io_return ()
      | Tag _ \<Rightarrow> io_return ())
      (\<lambda>_ s. is_target lib (rr_target parsed) b \<and> disk (?P {}) S s) (\<lambda>_. disk S S)" for b
    by (cases "rr_target parsed"; simp add: is_target_def; intro conjI impI triple_return triple_fail)
      (auto intro: none)
  have blob: "triple (disk (?P {}) S)
      (write_blob_atomically lib ?b (digest_of lib b) b :: (('w, 'x) pull_scheme, pull_error, unit) io)
      (\<lambda>_. disk (?P {digest_of lib b}) S) (\<lambda>_. disk S S)" for b
    by (rule triple_conseq [OF triple_write_blob [OF S, where D = "{}" and d = "digest_of lib b" and bs = b]])
      (auto simp: K_def intro: none [unfolded K_def])
  show ?thesis
    unfolding execute_pull_def Let_def blobs_dir_of_def [symmetric]
  proof (rule triple_bind [OF is_dir], rule triple_if, rule triple_fail, rule weaker, erule first,
      rule triple_bind [OF dirs], rule triple_bind_fact [OF fetch], unfold split_beta)
    fix x :: "bytes \<times> string"
    assume x: "snd x = digest_of lib (fst x)"
    show "triple (disk (?P {}) S)
     (io_bind (case rr_target parsed of
           Tag _ \<Rightarrow> io_return ()
         | Digest expected \<Rightarrow>
             if expected \<noteq> snd x then
               io_fail (DigestMismatch expected (snd x) (''primary manifest of '' @ rr_raw parsed))
             else io_return ()) (\<lambda>_.
       io_bind (write_blob_atomically lib ?b (snd x) (fst x)) (\<lambda>_.
       io_bind (io_lift (parse_image_manifest lib (fst x))) (\<lambda>manifest.
       io_bind (pull_blob_streamed lib ctx ?b (wd_digest (wm_config manifest))) (\<lambda>_.
       io_bind (pull_layers lib ctx ?b (wm_layers manifest)) (\<lambda>_.
       io_bind (fetch_referrers lib ctx parsed (snd x) opts) (\<lambda>referrers.
       io_bind (io_fold (pull_referrer lib ctx ?b) referrers
         (set (snd x # wd_digest (wm_config manifest) # map wd_digest (wm_layers manifest)), [])) (\<lambda>z.
       io_bind (write_oci_layout_marker dest) (\<lambda>_.
       write_index_json lib dest (snd x) (length (fst x)) (snd z))))))))))
     ?Q (\<lambda>_. disk S S)"
      unfolding x
    proof (rule triple_bind [OF pinned], rule triple_pre_imp, rule triple_bind [OF blob],
        rule triple_bind_fact [OF triple_lift_fact], erule none)
      fix man
      assume target: "is_target lib (rr_target parsed) (fst x)" and "parse_image_manifest lib (fst x) = Inr man"
      then have man: "pl_manifest lib (fst x) = Inr man" by (simp add: parse_image_manifest_def)
      show "triple (disk (?P {digest_of lib (fst x)}) S)
       (io_bind (pull_blob_streamed lib ctx ?b (wd_digest (wm_config man))) (\<lambda>_.
       io_bind (pull_layers lib ctx ?b (wm_layers man)) (\<lambda>_.
       io_bind (fetch_referrers lib ctx parsed (digest_of lib (fst x)) opts) (\<lambda>referrers.
       io_bind (io_fold (pull_referrer lib ctx ?b) referrers
         (set (digest_of lib (fst x) # wd_digest (wm_config man) # map wd_digest (wm_layers man)), [])) (\<lambda>z.
       io_bind (write_oci_layout_marker dest) (\<lambda>_.
       write_index_json lib dest (digest_of lib (fst x)) (length (fst x)) (snd z)))))))
       ?Q (\<lambda>_. disk S S)"
        unfolding K_def S_def by (rule triple_pull_contents [OF chain target man])
    qed
  qed
qed

section \<open>The entry points\<close>

interpretation env_chain: provider_chain "[env_provider, anonymous_provider]"
  by (rule provider_chain.intro) (auto simp: env_provider_def anonymous_provider_def
      env.credential_source_axioms anonymous.credential_source_axioms)

interpretation basic_chain: provider_chain
  "[\<lparr>pv_name = ''basic'', pv_resolve = basic_resolve username password\<rparr>, anonymous_provider]"
  for username password
  by (rule provider_chain.intro) (auto simp: anonymous_provider_def
      basic.credential_source_axioms anonymous.credential_source_axioms)

interpretation bearer_chain: provider_chain
  "[\<lparr>pv_name = ''bearer'', pv_resolve = bearer_resolve token\<rparr>, anonymous_provider]"
  for token
  by (rule provider_chain.intro) (auto simp: anonymous_provider_def
      bearer.credential_source_axioms anonymous.credential_source_axioms)

interpretation no_chain: provider_chain "[]"
  by (rule provider_chain.intro) simp

lemma auth_chain: "providers_for_registry_auth auth = Inr ps \<Longrightarrow> provider_chain ps"
  by (auto simp: providers_for_registry_auth_def basic_new_def bearer_new_def
      env_chain.provider_chain_axioms basic_chain.provider_chain_axioms bearer_chain.provider_chain_axioms
      split: registry_auth.splits if_splits)

lemma context_auth:
  "build_context lib parsed ps s = (Inr ctx, t) \<Longrightarrow> pc_auth ctx = ps"
  by (auto simp: build_context_def Let_def io_apply_simps elim!: io_bind_InrE split: if_splits)

lemma context_chain:
  "new_authenticated lib parsed auth s = (Inr ctx, t) \<Longrightarrow> provider_chain (pc_auth ctx)"
  "new_anonymous lib parsed s = (Inr ctx, t) \<Longrightarrow> provider_chain (pc_auth ctx)"
  by (auto simp: new_authenticated_def new_anonymous_def auth_manager_new_def io_apply_simps
      elim!: io_bind_InrE dest!: context_auth auth_chain intro: no_chain.provider_chain_axioms)

lemma quiet_env_insecure: "quiet pull_env_allows_insecure"
  unfolding pull_env_allows_insecure_def by auto

lemma quiet_context:
  "provider_chain ps \<Longrightarrow> quiet (build_context lib parsed ps)"
  unfolding build_context_def Let_def by (auto intro: quiet_env_insecure quiet_chain)

lemma quiet_new:
  fixes lib :: "'w pull_lib"
  shows "quiet (new_authenticated lib parsed auth :: (('w, 'x) pull_scheme, _, _) io)"
    and "quiet (new_anonymous lib parsed :: (('w, 'x) pull_scheme, _, _) io)"
proof -
  have with_chain: "quiet (io_bind (auth_manager_new ps) (\<lambda>auth. build_context lib parsed auth))"
    if "provider_chain ps" for ps :: "('w, 'x) pull_scheme provider list"
    using quiet_context [OF that]
    by (auto simp: quiet_def keeps_def auth_manager_new_def io_bind_def io_apply_simps still_def)
  show "quiet (new_anonymous lib parsed :: (('w, 'x) pull_scheme, _, _) io)"
    unfolding new_anonymous_def by (rule with_chain [OF no_chain.provider_chain_axioms])
  show "quiet (new_authenticated lib parsed auth :: (('w, 'x) pull_scheme, _, _) io)"
  proof (cases "providers_for_registry_auth auth :: pull_error + ('w, 'x) pull_scheme provider list")
    case (Inl e)
    then show ?thesis by (simp add: new_authenticated_def quiet_def keeps_def io_bind_def io_apply_simps)
  next
    case (Inr ps)
    with with_chain [OF auth_chain [OF Inr]] show ?thesis
      by (simp add: new_authenticated_def quiet_def keeps_def io_bind_def io_apply_simps)
  qed
qed

lemma triple_pull:
  fixes dest m0 parsed and lib :: "'w pull_lib"
    and c :: "(('w, 'x) pull_scheme, pull_error, ('w, 'x) pull_scheme pull_context) io"
  defines "K \<equiv> fs_key dest"
  defines "S \<equiv> sound_pull lib K (rr_target parsed) m0"
  assumes "quiet c" and "\<And>ctx s t. c s = (Inr ctx, t) \<Longrightarrow> provider_chain (pc_auth ctx)"
  shows "triple (disk ((=) m0) (pulled lib K m0 {})) (io_bind c (\<lambda>ctx. execute_pull lib ctx parsed dest opts))
    (\<lambda>_. disk (\<lambda>m. S m \<and> committed_pull lib K (rr_target parsed) m \<and> is_file_node (m (K @ [''oci-layout'']))) S)
    (\<lambda>_. disk S S)"
proof -
  have weaker: "disk S S s" if "disk ((=) m0) (pulled lib K m0 {}) s" for s :: "('w, 'x) pull_scheme"
    using that by (rule disk_weaken) (use pulled_dirs pulled_sound in \<open>unfold S_def, blast\<close>)+
  have "triple (disk ((=) m0) (pulled lib K m0 {})) c
      (\<lambda>ctx s. disk ((=) m0) (pulled lib K m0 {}) s \<and> provider_chain (pc_auth ctx)) (\<lambda>_. disk S S)"
    by (rule triple_result, rule triple_conseq [OF triple_quiet [OF assms(3)], where ?P1 = "(=) m0"
          and ?J1 = "pulled lib K m0 {}"]) (use weaker assms(4) in auto)
  then show ?thesis
    by (rule triple_bind_fact) (unfold K_def S_def, rule triple_execute_pull)
qed

definition pull_entry ::
  "'w pull_lib \<Rightarrow> string \<Rightarrow> registry_auth option \<Rightarrow> path \<Rightarrow> pull_options \<Rightarrow>
   (('w, 'x) pull_scheme, pull_error, unit) io" where
  "pull_entry lib ref_str auth dest opts =
     (case auth of
        Some a \<Rightarrow> pull_into_image_dir_with_options lib ref_str a dest opts
      | None \<Rightarrow> pull_anonymous_into_image_dir_with_options lib ref_str dest opts)"

lemma pull_run:
  assumes "pull_entry lib ref_str auth dest opts s = (r, t)" and "fs_seen s = []"
    and "parse_registry_ref ref_str = Inr parsed"
  defines "S \<equiv> sound_pull lib (fs_key dest) (rr_target parsed) (fs_nodes s)"
  shows "disk S S t \<and> (r = Inr () \<longrightarrow> committed_pull lib (fs_key dest) (rr_target parsed) (fs_nodes t) \<and>
    is_file_node (fs_nodes t (fs_key dest @ [''oci-layout''])))"
proof -
  have start: "disk ((=) (fs_nodes s)) (pulled lib (fs_key dest) (fs_nodes s) {}) s"
    using assms(2) by (simp add: disk_def)
  have lift: "io_bind (io_lift (parse_registry_ref ref_str)) f = f parsed" for f :: "registry_ref \<Rightarrow> ('s, pull_error, 'c) io"
    by (simp add: fun_eq_iff io_bind_def io_apply_simps assms(3))
  obtain c where c: "quiet c" "\<And>ctx s t. c s = (Inr ctx, t) \<Longrightarrow> provider_chain (pc_auth ctx)"
    and run: "io_bind c (\<lambda>ctx. execute_pull lib ctx parsed dest opts) s = (r, t)"
  proof (cases auth)
    case None
    with assms(1) have "io_bind (new_anonymous lib parsed) (\<lambda>ctx. execute_pull lib ctx parsed dest opts) s = (r, t)"
      by (simp add: pull_entry_def pull_anonymous_into_image_dir_with_options_def lift)
    then show thesis by (rule that [OF quiet_new(2), rotated]) (rule context_chain(2))
  next
    case (Some a)
    with assms(1) have "io_bind (new_authenticated lib parsed a) (\<lambda>ctx. execute_pull lib ctx parsed dest opts) s = (r, t)"
      by (simp add: pull_entry_def pull_into_image_dir_with_options_def lift)
    then show thesis by (rule that [OF quiet_new(1), rotated]) (rule context_chain(1))
  qed
  note tr = triple_pull [OF c, where dest = dest and ?m0.0 = "fs_nodes s" and lib = lib and parsed = parsed and opts = opts]
  show ?thesis
    using triple_InrD [OF tr start] triple_InlD [OF tr start] run
    by (cases r) (auto simp: S_def disk_def)
qed

text \<open>
  C2: at every moment of a pull, whatever the registry answers and whatever faults the disk
  has, each file under the name of a digest is as it was or hashes to that digest, and the
  index is as it was or lists an artifact whose manifest, config, layers and referrers are
  all there, and which has the digest the reference pinned.
\<close>

theorem pull_integrity:
  assumes "pull_entry lib ref_str auth dest opts s = (r, t)" and "fs_seen s = []"
    and "parse_registry_ref ref_str = Inr parsed"
  shows "\<forall>m \<in> insert (fs_nodes t) (set (fs_seen t)).
    sound_pull lib (fs_key dest) (rr_target parsed) (fs_nodes s) m"
  using pull_run [OF assms] by (auto simp: disk_def)


end
