(* ===== verification/Pull_Liveness.thy ===== *)
theory Pull_Liveness
  imports Pull_Integrity Registry_Liveness
begin

text \<open>
  A pull from a registry that serves a complete artifact, into a directory with nothing in
  its way, succeeds. The sample run behind the witnesses is an instance.
\<close>

section \<open>Registries that serve\<close>

definition serves :: "'w http_lib \<Rightarrow> string \<Rightarrow> bytes \<Rightarrow> bool" where
  "serves hl url body \<longleftrightarrow> (\<forall>hs w.
     fst (hl_send hl \<lparr>rq_method = MGet, rq_url = url, rq_headers = hs, rq_body = Inr []\<rparr> w) =
       Inr \<lparr>rs_status = 200, rs_headers = [], rs_body = body, rs_body_error = None\<rparr>)"

text \<open>\<open>at\<close> is the address of the repository.\<close>

definition serves_blob :: "'w pull_lib \<Rightarrow> string \<Rightarrow> string \<Rightarrow> bool" where
  "serves_blob lib at d \<longleftrightarrow>
     (\<exists>x. digest_of lib x = d \<and> serves (pl_http lib) (at @ ''/blobs/'' @ d) x)"

definition serves_manifest :: "'w pull_lib \<Rightarrow> string \<Rightarrow> string \<Rightarrow> bytes \<Rightarrow> bool" where
  "serves_manifest lib at r b \<longleftrightarrow> serves (pl_http lib) (at @ ''/manifests/'' @ r) b \<and>
     (\<exists>man. pl_manifest lib b = Inr man \<and> (\<forall>d \<in> set (contents man). serves_blob lib at d))"

definition serves_artifact :: "'w pull_lib \<Rightarrow> string \<Rightarrow> registry_ref \<Rightarrow> bool" where
  "serves_artifact lib at parsed \<longleftrightarrow>
     (\<exists>b rb rs. serves_manifest lib at (manifest_reference parsed) b \<and> is_target lib (rr_target parsed) b \<and>
        serves (pl_http lib) (at @ ''/referrers/'' @ digest_of lib b) rb \<and>
        pl_referrers lib rb = Inr \<lparr>wr_manifests = rs\<rparr> \<and>
        (\<forall>r \<in> set rs. \<exists>x. digest_of lib x = wd_digest r \<and> serves_manifest lib at (wd_digest r) x))"

definition working :: "'w pull_lib \<Rightarrow> bool" where
  "working lib \<longleftrightarrow> hl_build (pl_http lib) pull_request_timeout = Inr () \<and>
     (\<forall>h. \<exists>v. hl_header_value (pl_http lib) h = Inr v) \<and>
     (\<forall>b. length (pl_sha256 lib b) = 32) \<and> (\<forall>j. \<exists>b. pl_pretty lib j = Inr b)"

lemma digest_of_shape:
  "working lib \<Longrightarrow> sha256_digest (digest_of lib b) (hex_of_bytes (pl_sha256 lib b))"
  by (simp add: working_def sha256_digest_def digest_of_def hex_of_bytes_lower)

definition willing :: "('w, 'x) pull_scheme pull_context \<Rightarrow> bool" where
  "willing ctx \<longleftrightarrow> (\<forall>s. \<exists>c. resolve_chain (pc_auth ctx) (pc_registry_host ctx) s = (Inr c, s))"

section \<open>Requests that return\<close>

lemma returns_get: "returns P (io_get f) (\<lambda>_. P)"
  by (simp add: returns_def io_apply_simps)

lemma returns_lift: "r = Inr x \<Longrightarrow> returns P (io_lift r) (\<lambda>y m. y = x \<and> P m)"
  by (simp add: returns_def io_apply_simps)

lemma returns_if:
  "(c \<Longrightarrow> returns P a Q) \<Longrightarrow> (\<not> c \<Longrightarrow> returns P b Q) \<Longrightarrow> returns P (if c then a else b) Q"
  by simp

lemma returns_resolve:
  "willing ctx \<Longrightarrow> returns P (io_map_err g (resolve_chain (pc_auth ctx) (pc_registry_host ctx))) (\<lambda>_. P)"
  by (rule returns_map_err) (simp add: returns_def willing_def, metis)

lemma returns_auth:
  assumes "working lib" and "willing ctx"
  shows "returns P (auth_to_send lib ctx) (\<lambda>_. P)"
proof -
  have hv: "returns P (io_bind (io_lift (map_err g (hl_header_value (pl_http lib) h))) (\<lambda>v. io_return (Some v))) (\<lambda>_. P)" for g h
    using assms(1) unfolding working_def
    by (metis (no_types, lifting) map_err_simps(2) returns_bind returns_lift returns_return)
  show ?thesis
    unfolding auth_to_send_def cached_bearer_def header_value_from_bearer_def header_value_from_credentials_def
    by (rule returns_bind [OF returns_get])
      (auto intro!: hv returns_bind [OF returns_resolve [OF assms(2)]] returns_return split: option.split)
qed

lemma returns_send_retry:
  assumes "working lib" and "willing ctx" and "serves (pl_http lib) url body"
  shows "returns P (send_with_retry lib ctx url hs)
    (\<lambda>resp m. resp = \<lparr>rs_status = 200, rs_headers = [], rs_body = body, rs_body_error = None\<rparr> \<and> P m)"
proof -
  let ?ok = "\<lparr>rs_status = 200, rs_headers = [], rs_body = body, rs_body_error = None\<rparr>"
  have send: "returns P (http_send (pl_http lib) \<lparr>rq_method = MGet, rq_url = url, rq_headers = h, rq_body = Inr []\<rparr>)
      (\<lambda>r m. P m \<and> r = Inr ?ok)" for h
    using assms(3) by (auto simp: returns_def http_send_def serves_def split: prod.split) (metis fst_conv)+
  have turn: "returns P (send_turn lib ctx url hs a l) (\<lambda>r m. P m \<and> (\<exists>v. r = Inr v \<and> v = ?ok))" for a l
    unfolding send_turn_def Let_def
    by (cases l, simp, rule returns_bind [OF returns_auth [OF assms(1,2)]], rule returns_bind [OF send])
      (auto simp: returns_def io_apply_simps is_server_error_def)
  have seq: "[0..<Suc pull_max_retries] = 0 # [1, 2, 3]"
    by (simp add: pull_max_retries_def upt_rec)
  show ?thesis
    unfolding send_with_retry_def seq
    by (rule returns_bind [OF returns_attempts [OF turn]])
      (auto simp: returns_def io_apply_simps send_end_def)
qed

lemma returns_fetch_manifest:
  assumes "working lib" and "willing ctx"
    and "serves (pl_http lib) (pc_base_url ctx @ ''/v2/'' @ pc_repository ctx @ ''/manifests/'' @ r) b"
  shows "returns P (fetch_manifest lib ctx r a) (\<lambda>x m. x = (b, digest_of lib b) \<and> P m)"
  unfolding fetch_manifest_def Let_def
  by (rule returns_bind [OF returns_map_err [OF returns_send_retry [OF assms]]])
    (auto simp: returns_def io_apply_simps io_bind_def is_success_def body_bytes_def digest_of_def
      pull_hex_sha256_def)

lemma returns_fetch_referrers:
  assumes "working lib" and "willing ctx"
    and "serves (pl_http lib) (pc_base_url ctx @ ''/v2/'' @ pc_repository ctx @ ''/referrers/'' @ d) b"
    and "pl_referrers lib b = Inr \<lparr>wr_manifests = rs\<rparr>"
  shows "returns P (fetch_referrers lib ctx parsed d opts) (\<lambda>x m. x = rs \<and> P m)"
  unfolding fetch_referrers_def Let_def
  by (rule returns_bind [OF returns_map_err [OF returns_send_retry [OF assms(1-3)]]])
    (auto simp: returns_def io_apply_simps io_bind_def is_success_def body_bytes_def assms(4))

section \<open>Room on the disk\<close>

text \<open>The places a pull writes to hold nothing or a file.\<close>

definition slot :: "fkey \<Rightarrow> fkey \<Rightarrow> bool" where
  "slot K k \<longleftrightarrow> (\<exists>x. k = K @ [''blobs'', ''sha256'', x]) \<or>
     k \<in> {K @ [''index.json''], K @ [''index.tmp''], K @ [''oci-layout'']}"

definition clear :: "fkey \<Rightarrow> nodes \<Rightarrow> bool" where
  "clear K m \<longleftrightarrow> (\<forall>k. slot K k \<longrightarrow> m k = None \<or> is_file_node (m k))"

definition roomy :: "fkey \<Rightarrow> nodes \<Rightarrow> bool" where
  "roomy K m \<longleftrightarrow> m K = Some DirNode \<and> m (K @ [''blobs'', ''sha256'']) = Some DirNode \<and> clear K m"

lemma is_file_node_file [simp]: "is_file_node (Some (FileNode b))"
  by (simp add: is_file_node_def)

lemma slot_apart: "slot K k \<Longrightarrow> k \<noteq> K \<and> k \<noteq> K @ [''blobs'', ''sha256'']"
  by (auto simp: slot_def)

lemma roomy_upd:
  "roomy K m \<Longrightarrow> slot K k \<Longrightarrow> v = None \<or> is_file_node v \<Longrightarrow> roomy K (m(k := v))"
  using slot_apart by (auto simp: roomy_def clear_def)

lemma slot_parent: "slot K k \<Longrightarrow> k \<noteq> [] \<and> butlast k \<in> {K, K @ [''blobs'', ''sha256'']}"
  unfolding slot_def by (elim disjE exE) (simp_all add: butlast_append, elim disjE, simp_all add: butlast_append)

lemma roomy_slot:
  assumes "roomy K m" and "slot K k"
  shows "parent_is_dir k m" and "m k \<noteq> Some DirNode" and "m k \<noteq> Some SpecialNode"
proof -
  show "parent_is_dir k m"
    using assms(1) slot_parent [OF assms(2)] by (auto simp: roomy_def parent_is_dir_def)
  have "m k = None \<or> is_file_node (m k)" using assms by (simp add: roomy_def clear_def)
  then show "m k \<noteq> Some DirNode" "m k \<noteq> Some SpecialNode" by (auto simp: is_file_node_def)
qed

lemma returns_put_slot:
  assumes "slot (K :: fkey) (fs_key p)" and "p \<noteq> []"
  shows "returns (roomy K) (fs_write p bs) (\<lambda>_ m. roomy K m \<and> m (fs_key p) = Some (FileNode bs))"
  by (rule returns_conseq [OF returns_write [where P = "roomy K"]])
    (use assms roomy_slot roomy_upd in auto)

lemma returns_move_slot:
  assumes "slot (K :: fkey) (fs_key a)" and "slot K (fs_key p)" and "fs_key a \<noteq> fs_key p" and "p \<noteq> []" and "a \<noteq> []"
  shows "returns (\<lambda>m. roomy K m \<and> m (fs_key a) = Some (FileNode b)) (fs_rename a p) (\<lambda>_. roomy K)"
  by (rule returns_conseq [OF returns_rename [where P = "\<lambda>m. roomy K m \<and> m (fs_key a) = Some (FileNode b)" and b = b]])
    (use assms roomy_slot roomy_upd in \<open>auto simp: look_def\<close>)

lemma returns_append_slot:
  assumes "slot (K :: fkey) (fs_key p)" and "p \<noteq> []"
  shows "returns (\<lambda>m. roomy K m \<and> m (fs_key p) = Some (FileNode old)) (fs_append p bs)
    (\<lambda>_ m. roomy K m \<and> m (fs_key p) = Some (FileNode (old @ bs)))"
  by (rule returns_conseq [OF returns_append [where P = "\<lambda>m. roomy K m \<and> m (fs_key p) = Some (FileNode old)" and old = old]])
    (use assms roomy_upd in auto)

lemma returns_is_file: "returns P (fs_is_file p :: ('x fs_scheme, 'e, bool) io) (\<lambda>_. P)"
  by (simp add: returns_def fs_is_file_def fs_query_def fs_call_def call_is_file_def)

lemma returns_stream:
  assumes "slot K (fs_key p)" and "p \<noteq> []"
  shows "rs_body_error reader = None \<Longrightarrow>
    returns (\<lambda>m. roomy K m \<and> m (fs_key p) = Some (FileNode hashed))
      (stream_body p d reader hashed :: ('x fs_scheme, pull_error, bytes) io)
      (\<lambda>h m. h = hashed @ rs_body reader \<and> roomy K m \<and> m (fs_key p) = Some (FileNode h))"
  using assms
proof (induction p d reader hashed rule: stream_body.induct)
  case (1 p d reader hashed)
  show ?case
  proof (cases "rs_body reader = []")
    case True
    with 1(2) have eq: "(stream_body p d reader hashed :: ('x fs_scheme, pull_error, bytes) io) = io_return hashed"
      by (subst stream_body.simps) (simp add: body_read_def)
    show ?thesis unfolding eq by (rule returns_return) (simp add: True)
  next
    case False
    then obtain c cs where chunk: "take pull_chunk (rs_body reader) = c # cs"
      by (cases "rs_body reader") (auto simp: pull_chunk_def)
    let ?r = "reader\<lparr>rs_body := drop pull_chunk (rs_body reader)\<rparr>"
    have read: "body_read pull_chunk reader = (Inr (c # cs), ?r)"
      using False chunk by (simp add: body_read_def)
    have eq: "(stream_body p d reader hashed :: ('x fs_scheme, pull_error, bytes) io) =
        io_bind (io_try (fs_append p (c # cs))) (\<lambda>wrote. case wrote of
          Inl e \<Rightarrow> drop_partial p (PullIo p e) | Inr _ \<Rightarrow> stream_body p d ?r (hashed @ c # cs))"
      by (subst stream_body.simps) (simp add: read)
    have app: "returns (\<lambda>m. roomy K m \<and> m (fs_key p) = Some (FileNode hashed)) (io_try (fs_append p (c # cs)))
        (\<lambda>w m. w = Inr () \<and> roomy K m \<and> m (fs_key p) = Some (FileNode (hashed @ c # cs)))"
      by (rule returns_try, rule returns_conseq [OF returns_append_slot [OF 1(3,4)]]) auto
    have all: "c # cs @ drop pull_chunk (rs_body reader) = rs_body reader"
      using chunk by (metis append_Cons append_take_drop_id)
    have ih: "returns (\<lambda>m. roomy K m \<and> m (fs_key p) = Some (FileNode (hashed @ c # cs)))
        (stream_body p d ?r (hashed @ c # cs) :: ('x fs_scheme, pull_error, bytes) io)
        (\<lambda>h m. h = hashed @ rs_body reader \<and> roomy K m \<and> m (fs_key p) = Some (FileNode h))"
      using 1(1) [OF read [symmetric] refl refl] 1(2-4) all by simp
    show ?thesis
      unfolding eq by (rule returns_bind [OF app], rule returns_pre) (use ih in auto)
  qed
qed

lemma hex_slots:
  assumes "sha256_digest d h"
  shows "slot (fs_key dest) (fs_key (path_join (blobs_dir_of dest) h))"
    and "slot (fs_key dest) (fs_key (with_extension (path_join (blobs_dir_of dest) h) ''partial''))"
    and "fs_key (with_extension (path_join (blobs_dir_of dest) h) ''partial'') \<noteq> fs_key (path_join (blobs_dir_of dest) h)"
    and "path_join (blobs_dir_of dest) h \<noteq> []"
    and "with_extension (path_join (blobs_dir_of dest) h) ''partial'' \<noteq> []"
proof -
  note key = hex_keys [OF assms, of dest] and plain = hex_plain [OF assms]
  show "slot (fs_key dest) (fs_key (path_join (blobs_dir_of dest) h))"
    by (simp add: key(1) slot_def blob_file_def)
  show "slot (fs_key dest) (fs_key (with_extension (path_join (blobs_dir_of dest) h) ''partial''))"
    using key(2) by (auto simp: pull_temps_def slot_def)
  show "fs_key (with_extension (path_join (blobs_dir_of dest) h) ''partial'') \<noteq> fs_key (path_join (blobs_dir_of dest) h)"
    using key digest_not_temp [OF assms] by metis
  show "path_join (blobs_dir_of dest) h \<noteq> []"
    using plain(1) by (intro path_join_not_Nil) (auto simp: plain_name_def)
  show "with_extension (path_join (blobs_dir_of dest) h) ''partial'' \<noteq> []"
    unfolding with_extension_join [OF plain(1,2)] by (rule path_join_not_Nil) simp
qed

lemma blob_path_of_shape:
  "sha256_digest d h \<Longrightarrow> blob_path_for_digest dir d = Inr (path_join dir h)"
  by (auto simp: blob_path_for_digest_def sha256_digest_def)

lemma returns_install:
  assumes "working lib" and "d = digest_of lib b"
  defines "h \<equiv> hex_of_bytes (pl_sha256 lib b)"
  shows "returns (\<lambda>m. roomy (fs_key dest) m \<and>
      m (fs_key (with_extension (path_join (blobs_dir_of dest) h) ''partial'')) = Some (FileNode b))
    (io_map_err g (fs_rename (with_extension (path_join (blobs_dir_of dest) h) ''partial'') (path_join (blobs_dir_of dest) h)))
    (\<lambda>_. roomy (fs_key dest))"
  using hex_slots [OF digest_of_shape [OF assms(1), of b], of dest]
  unfolding h_def by (intro returns_map_err returns_move_slot)

lemma returns_write_blob:
  assumes "working lib"
  shows "returns (roomy (fs_key dest)) (write_blob_atomically lib (blobs_dir_of dest) (digest_of lib b) b
    :: ('x fs_scheme, pull_error, unit) io) (\<lambda>_. roomy (fs_key dest))"
proof -
  note shape = digest_of_shape [OF assms, of b]
  note slots = hex_slots [OF shape, of dest]
  show ?thesis
    unfolding write_blob_atomically_def blob_path_of_shape [OF shape] Let_def
    by (rule returns_bind [OF returns_lift [OF refl]], rule returns_pre,
        rule returns_bind [OF returns_is_file],
        auto simp: digest_of_def pull_hex_sha256_def
          intro!: returns_return returns_bind [OF returns_map_err [OF returns_put_slot [OF slots(2,5)]]]
            returns_install [OF assms refl])
qed

lemma returns_pull_blob:
  assumes "working lib" and "willing ctx" and "serves_blob lib (pc_base_url ctx @ ''/v2/'' @ pc_repository ctx) d"
  shows "returns (roomy (fs_key dest)) (pull_blob_streamed lib ctx (blobs_dir_of dest) d) (\<lambda>_. roomy (fs_key dest))"
proof -
  obtain b where d: "d = digest_of lib b"
    and s: "serves (pl_http lib) (pc_base_url ctx @ ''/v2/'' @ pc_repository ctx @ ''/blobs/'' @ d) b"
    using assms(3) by (auto simp: serves_blob_def)
  note shape = digest_of_shape [OF assms(1), of b]
  note slots = hex_slots [OF shape, of dest]
  let ?p = "path_join (blobs_dir_of dest) (hex_of_bytes (pl_sha256 lib b))"
  have stream: "returns (\<lambda>m. roomy (fs_key dest) m \<and> m (fs_key (with_extension ?p ''partial'')) = Some (FileNode []))
      (stream_body (with_extension ?p ''partial'') d
        \<lparr>rs_status = 200, rs_headers = [], rs_body = b, rs_body_error = None\<rparr> [])
      (\<lambda>x m. x = b \<and> roomy (fs_key dest) m \<and> m (fs_key (with_extension ?p ''partial'')) = Some (FileNode b))"
    by (rule returns_conseq [OF returns_stream [OF slots(2,5)]]) auto
  have final: "''sha256:'' @ finalise_hash lib b = digest_of lib b"
    by (simp add: finalise_hash_def digest_of_def)
  show ?thesis
    unfolding pull_blob_streamed_def blob_path_of_shape [OF shape, folded d] Let_def fs_create_def
  proof (rule returns_bind [OF returns_lift [OF refl]], rule returns_pre,
      rule returns_bind [OF returns_is_file], rule returns_if, rule returns_return, assumption,
      rule returns_bind [OF returns_map_err [OF returns_send_retry [OF assms(1,2) s]]], rule returns_pre, rule returns_if)
    fix resp p'
    assume p': "p' = ?p" and r: "resp = \<lparr>rs_status = 200, rs_headers = [], rs_body = b, rs_body_error = None\<rparr>"
    show "\<not> is_success (rs_status resp) \<Longrightarrow> returns (roomy (fs_key dest)) (io_fail e) (\<lambda>_. roomy (fs_key dest))" for e
      by (simp add: r is_success_def)
    show "returns (roomy (fs_key dest))
        (io_bind (io_map_err (PullIo (with_extension p' ''partial'')) (fs_write (with_extension p' ''partial'') [])) (\<lambda>_.
         io_bind (stream_body (with_extension p' ''partial'') d resp []) (\<lambda>hashed.
         if ''sha256:'' @ finalise_hash lib hashed \<noteq> d
         then drop_partial (with_extension p' ''partial'') (DigestMismatch d (''sha256:'' @ finalise_hash lib hashed) d)
         else io_map_err (PullIo p') (fs_rename (with_extension p' ''partial'') p'))))
        (\<lambda>_. roomy (fs_key dest))"
      unfolding p' r
      by (rule returns_bind [OF returns_map_err [OF returns_put_slot [OF slots(2,5)]]],
          rule returns_bind [OF stream], rule returns_pre)
        (use final returns_install [OF assms(1) refl, of dest b] in \<open>simp add: d\<close>)
  qed
qed

section \<open>The whole pull\<close>

lemma returns_layers:
  assumes "working lib" and "willing ctx"
    and "\<forall>l \<in> set layers. serves_blob lib (pc_base_url ctx @ ''/v2/'' @ pc_repository ctx) (wd_digest l)"
  shows "returns (roomy (fs_key dest)) (pull_layers lib ctx (blobs_dir_of dest) layers) (\<lambda>_. roomy (fs_key dest))"
    and "returns (roomy (fs_key dest)) (pull_referrer_layers lib ctx (blobs_dir_of dest) rd layers seen)
      (\<lambda>_. roomy (fs_key dest))"
proof -
  have blob: "returns (roomy (fs_key dest)) (pull_blob_streamed lib ctx (blobs_dir_of dest) (wd_digest (snd x)))
      (\<lambda>_. roomy (fs_key dest))" if "x \<in> set (enumerate 0 layers)" for x
  proof (rule returns_pull_blob [OF assms(1,2)])
    have "snd x \<in> set layers" using that by (auto simp: in_set_enumerate_eq) (metis nth_mem)
    with assms(3) show "serves_blob lib (pc_base_url ctx @ ''/v2/'' @ pc_repository ctx) (wd_digest (snd x))" by blast
  qed
  show "returns (roomy (fs_key dest)) (pull_layers lib ctx (blobs_dir_of dest) layers) (\<lambda>_. roomy (fs_key dest))"
    unfolding pull_layers_def split_beta by (rule returns_fold, rule returns_map_err, rule blob)
  show "returns (roomy (fs_key dest)) (pull_referrer_layers lib ctx (blobs_dir_of dest) rd layers seen)
      (\<lambda>_. roomy (fs_key dest))"
    unfolding pull_referrer_layers_def split_beta
    by (rule returns_fold, rule returns_if, rule returns_bind [OF returns_map_err [OF blob]], assumption)
      (rule returns_return, assumption)+
qed

lemma returns_parse: "pl_manifest lib b = Inr man \<Longrightarrow> returns P (io_lift (parse_image_manifest lib b)) (\<lambda>x m. x = man \<and> P m)"
  by (rule returns_lift) (simp add: parse_image_manifest_def)

lemma returns_referrer:
  assumes "working lib" and "willing ctx" and "digest_of lib x = wd_digest r"
    and m: "serves_manifest lib (pc_base_url ctx @ ''/v2/'' @ pc_repository ctx) (wd_digest r) x"
  shows "returns (roomy (fs_key dest)) (pull_referrer lib ctx (blobs_dir_of dest) r z) (\<lambda>_. roomy (fs_key dest))"
proof -
  let ?R = "roomy (fs_key dest)"
  obtain seen mats where z: "z = (seen, mats)" by (cases z)
  obtain man where man: "pl_manifest lib x = Inr man"
    and blobs: "\<forall>d \<in> set (contents man). serves_blob lib (pc_base_url ctx @ ''/v2/'' @ pc_repository ctx) d"
    and srv: "serves (pl_http lib) (pc_base_url ctx @ ''/v2/'' @ pc_repository ctx @ ''/manifests/'' @ wd_digest r) x"
    using m by (auto simp: serves_manifest_def)
  have config: "returns ?R (pull_blob_streamed lib ctx (blobs_dir_of dest) (wd_digest (wm_config man))) (\<lambda>_. ?R)"
    by (rule returns_pull_blob [OF assms(1,2)]) (use blobs in \<open>simp add: contents_def\<close>)
  have layers: "returns ?R (pull_referrer_layers lib ctx (blobs_dir_of dest) rd (wm_layers man) sn) (\<lambda>_. ?R)" for rd sn
    by (rule returns_layers(2) [OF assms(1,2)]) (use blobs in \<open>simp add: contents_def\<close>)
  have rest: "returns ?R (io_bind (write_blob_atomically lib (blobs_dir_of dest) (digest_of lib x) x) (\<lambda>_.
        io_bind (io_lift (parse_image_manifest lib x)) (\<lambda>rm.
        io_bind (if wd_digest (wm_config rm) \<notin> insert (wd_digest r) seen
          then pull_blob_streamed lib ctx (blobs_dir_of dest) (wd_digest (wm_config rm)) else io_return ()) (\<lambda>_.
        io_bind (pull_referrer_layers lib ctx (blobs_dir_of dest) (wd_digest r) (wm_layers rm)
          (insert (wd_digest (wm_config rm)) (insert (wd_digest r) seen))) (\<lambda>seen.
        io_return (seen, mats @ [r])))))) (\<lambda>_. ?R)"
    by (rule returns_bind [OF returns_write_blob [OF assms(1)]], rule returns_bind [OF returns_parse [OF man]],
        rule returns_pre, hypsubst, rule returns_bind [OF returns_if [OF config returns_return]], assumption,
        rule returns_bind [OF layers], rule returns_return)
  show ?thesis
    unfolding pull_referrer_def z prod.case Let_def
    by (rule returns_if, rule returns_return, assumption,
        rule returns_bind [OF returns_fetch_manifest [OF assms(1,2) srv]], rule returns_pre)
      (use rest assms(3) in simp)
qed

lemma returns_marker: "returns (roomy (fs_key dest)) (write_oci_layout_marker dest) (\<lambda>_. roomy (fs_key dest))"
  unfolding write_oci_layout_marker_def Let_def
  by (rule returns_bind [OF returns_is_file], rule returns_if, rule returns_return, assumption,
      rule returns_map_err, rule returns_conseq [OF returns_put_slot [where K = "fs_key dest"]])
    (auto simp: index_names slot_def path_join_not_Nil)

lemma returns_index_json:
  assumes "working lib"
  shows "returns (roomy (fs_key dest)) (write_index_json lib dest d n rs) (\<lambda>_. roomy (fs_key dest))"
proof -
  obtain b where "pl_pretty lib (pulled_index d n rs) = Inr b" using assms unfolding working_def by blast
  then have pretty: "map_err g (pl_pretty lib (pulled_index d n rs)) = Inr b" for g by simp
  have plain: "plain_name ''index.json''" by (simp add: plain_name_def)
  have ne: "path_join dest ''index.json'' \<noteq> []" "with_extension (path_join dest ''index.json'') ''tmp'' \<noteq> []"
    using with_extension_join [OF plain, of dest "''tmp''"] by (simp_all add: path_join_not_Nil)
  let ?p = "path_join dest ''index.json''" and ?tmp = "with_extension (path_join dest ''index.json'') ''tmp''"
  have slots: "slot (fs_key dest) (fs_key ?tmp)" "slot (fs_key dest) (fs_key ?p)" "fs_key ?tmp \<noteq> fs_key ?p"
    by (simp_all add: index_names slot_def)
  show ?thesis
    unfolding write_index_json_def Let_def
    by (rule returns_bind [OF returns_lift [OF pretty]], rule returns_pre,
        rule returns_bind [OF returns_map_err [OF returns_put_slot [OF slots(1) ne(2)]]],
        rule returns_map_err [OF returns_move_slot [OF slots ne]])
qed

definition ready :: "fkey \<Rightarrow> nodes \<Rightarrow> bool" where
  "ready K m \<longleftrightarrow> K \<noteq> [] \<and> m K = Some DirNode \<and> clear K m \<and>
     (\<forall>k \<in> set (prefixes_of (K @ [''blobs'', ''sha256''])). m k = None \<or> m k = Some DirNode)"

lemma returns_blob_dirs:
  assumes "fs_key dest = K"
  shows "returns (ready K) (fs_create_dir_all (blobs_dir_of dest)) (\<lambda>_. roomy K)"
  unfolding fs_create_dir_all_def
proof (rule returns_call)
  fix ord m assume ready: "ready K m"
  let ?L = "K @ [''blobs'', ''sha256'']"
  let ?new = "filter (\<lambda>k. m k = None) (prefixes_of ?L)"
  have key: "fs_key (blobs_dir_of dest) = ?L" using assms by (simp add: fs_key_blobs_dir)
  have ne: "blobs_dir_of dest \<noteq> []" by (simp add: blobs_dir_of_def path_join_not_Nil)
  have call: "call_create_dir_all (blobs_dir_of dest) ord m None = (Inr (), make_dirs ?new m)"
    using ready ne by (auto simp: call_create_dir_all_def Let_def key ready_def list_ex_iff)
  have dirs: "last (m # make_dirs ?new m) k = Some DirNode" if "k \<in> set (prefixes_of ?L)" for k
    using that ready unfolding last_make_dirs by (auto simp: ready_def)
  have other: "last (m # make_dirs ?new m) k = m k" if "k \<notin> set (prefixes_of ?L)" for k
    using that unfolding last_make_dirs by simp
  have apart: "k \<notin> set (prefixes_of ?L)" if "slot K k" for k
  proof
    assume "k \<in> set (prefixes_of ?L)"
    then obtain y where "?L = k @ y" using prefixes_length by blast
    with that show False by (auto simp: slot_def)
  qed
  have "roomy K (last (m # make_dirs ?new m))"
    unfolding roomy_def clear_def
  proof (intro conjI allI impI)
    show "last (m # make_dirs ?new m) K = Some DirNode"
      using ready prefixes_mem [of K] by (intro dirs) (simp add: ready_def)
    show "last (m # make_dirs ?new m) ?L = Some DirNode"
      using prefixes_mem [of ?L "[]"] by (intro dirs) simp
    show "last (m # make_dirs ?new m) k = None \<or> is_file_node (last (m # make_dirs ?new m) k)" if "slot K k" for k
      using ready that unfolding other [OF apart [OF that]] by (simp add: ready_def clear_def)
  qed
  with call show "\<exists>x ms. call_create_dir_all (blobs_dir_of dest) ord m None = (Inr x, ms) \<and> roomy K (last (m # ms))"
    by blast
qed

lemma returns_is_dir:
  assumes "p \<noteq> []" and "\<And>m. P m \<Longrightarrow> m (fs_key p) = Some DirNode"
  shows "returns P (fs_is_dir p :: ('x fs_scheme, 'e, bool) io) (\<lambda>x m. x \<and> P m)"
  using assms by (auto simp: returns_def fs_is_dir_def fs_query_def fs_call_def call_is_dir_def look_def)

lemma returns_execute:
  assumes "working lib" and "willing ctx" and "dest \<noteq> []"
    and srv: "serves_artifact lib (pc_base_url ctx @ ''/v2/'' @ pc_repository ctx) parsed"
  shows "returns (ready (fs_key dest)) (execute_pull lib ctx parsed dest opts) (\<lambda>_ _. True)"
proof -
  let ?at = "pc_base_url ctx @ ''/v2/'' @ pc_repository ctx" and ?R = "roomy (fs_key dest)"
  obtain b rb rs where m: "serves_manifest lib ?at (manifest_reference parsed) b"
    and target: "is_target lib (rr_target parsed) b"
    and r: "serves (pl_http lib) (?at @ ''/referrers/'' @ digest_of lib b) rb"
      "pl_referrers lib rb = Inr \<lparr>wr_manifests = rs\<rparr>"
    and rs: "\<forall>r \<in> set rs. \<exists>x. digest_of lib x = wd_digest r \<and> serves_manifest lib ?at (wd_digest r) x"
    using srv unfolding serves_artifact_def by blast
  obtain man where man: "pl_manifest lib b = Inr man"
    and blobs: "\<forall>d \<in> set (contents man). serves_blob lib ?at d"
    and first: "serves (pl_http lib) (pc_base_url ctx @ ''/v2/'' @ pc_repository ctx @ ''/manifests/'' @ manifest_reference parsed) b"
    using m by (auto simp: serves_manifest_def)
  have config: "returns ?R (pull_blob_streamed lib ctx (blobs_dir_of dest) (wd_digest (wm_config man))) (\<lambda>_. ?R)"
    by (rule returns_pull_blob [OF assms(1,2)]) (use blobs in \<open>simp add: contents_def\<close>)
  have layers: "returns ?R (pull_layers lib ctx (blobs_dir_of dest) (wm_layers man)) (\<lambda>_. ?R)"
    by (rule returns_layers(1) [OF assms(1,2)]) (use blobs in \<open>simp add: contents_def\<close>)
  have listed: "returns ?R (fetch_referrers lib ctx parsed (digest_of lib b) opts) (\<lambda>x m. x = rs \<and> ?R m)"
    by (rule returns_fetch_referrers [OF assms(1,2) _ r(2)]) (use r(1) in simp)
  have referrers: "returns ?R (io_fold (pull_referrer lib ctx (blobs_dir_of dest)) rs z) (\<lambda>_. ?R)" for z
    by (rule returns_fold) (use rs returns_referrer [OF assms(1,2)] in blast)
  have pinned: "returns ?R (case rr_target parsed of
        Digest expected \<Rightarrow> if expected \<noteq> digest_of lib b
          then io_fail (DigestMismatch expected (digest_of lib b) (''primary manifest of '' @ rr_raw parsed))
          else io_return ()
      | Tag _ \<Rightarrow> io_return ()) (\<lambda>_. ?R)"
    using target by (auto simp: is_target_def intro: returns_return split: ref_target.splits)
  have rest: "returns ?R (io_bind (case rr_target parsed of
           Tag _ \<Rightarrow> io_return ()
         | Digest expected \<Rightarrow>
             if expected \<noteq> digest_of lib b then
               io_fail (DigestMismatch expected (digest_of lib b) (''primary manifest of '' @ rr_raw parsed))
             else io_return ()) (\<lambda>_.
       io_bind (write_blob_atomically lib (blobs_dir_of dest) (digest_of lib b) b) (\<lambda>_.
       io_bind (io_lift (parse_image_manifest lib b)) (\<lambda>manifest.
       io_bind (pull_blob_streamed lib ctx (blobs_dir_of dest) (wd_digest (wm_config manifest))) (\<lambda>_.
       io_bind (pull_layers lib ctx (blobs_dir_of dest) (wm_layers manifest)) (\<lambda>_.
       io_bind (fetch_referrers lib ctx parsed (digest_of lib b) opts) (\<lambda>referrers.
       io_bind (io_fold (pull_referrer lib ctx (blobs_dir_of dest)) referrers
         (set (digest_of lib b # wd_digest (wm_config manifest) # map wd_digest (wm_layers manifest)), [])) (\<lambda>z.
       io_bind (write_oci_layout_marker dest) (\<lambda>_.
       write_index_json lib dest (digest_of lib b) (length b) (snd z)))))))))) (\<lambda>_. ?R)"
    by (rule returns_bind [OF pinned], rule returns_bind [OF returns_write_blob [OF assms(1)]],
        rule returns_bind [OF returns_parse [OF man]], rule returns_pre, hypsubst,
        rule returns_bind [OF config], rule returns_bind [OF layers], rule returns_bind [OF listed],
        rule returns_pre, hypsubst, rule returns_bind [OF referrers], rule returns_bind [OF returns_marker],
        rule returns_index_json [OF assms(1)])
  have is_dir: "returns (ready (fs_key dest)) (fs_is_dir dest) (\<lambda>x m. x \<and> ready (fs_key dest) m)"
    by (rule returns_is_dir [OF assms(3)]) (simp add: ready_def)
  have fetch: "returns ?R (fetch_manifest lib ctx (manifest_reference parsed) pull_manifest_type)
      (\<lambda>x m. x = (b, digest_of lib b) \<and> ?R m)"
    by (rule returns_fetch_manifest [OF assms(1,2) first])
  show ?thesis
    unfolding execute_pull_def Let_def blobs_dir_of_def [symmetric] split_beta
    by (rule returns_bind [OF is_dir], rule returns_pre, simp only: not_True_eq_False if_False simp_thms,
        rule returns_bind [OF returns_map_err [OF returns_blob_dirs [OF refl]]], rule returns_bind [OF fetch],
        rule returns_pre, hypsubst, unfold fst_conv snd_conv, rule returns_conseq [OF rest]) simp_all
qed

definition scheme_of :: "('w, 'x) sys_scheme \<Rightarrow> string" where
  "scheme_of s = (if sy_env s pull_env_allow_insecure = Some ''1'' then ''http'' else ''https'')"

definition repository_at :: "('w, 'x) sys_scheme \<Rightarrow> registry_ref \<Rightarrow> string" where
  "repository_at s parsed = scheme_of s @ ''://'' @ rr_host parsed @ ''/v2/'' @ rr_repository parsed"

text \<open>Credentials given explicitly, or none.\<close>

definition explicit_auth :: "registry_auth option \<Rightarrow> bool" where
  "explicit_auth auth = (case auth of
     None \<Rightarrow> True
   | Some (Bearer t) \<Rightarrow> t \<noteq> []
   | Some (Basic u p) \<Rightarrow> u \<noteq> [] \<and> p \<noteq> []
   | Some FromEnv \<Rightarrow> False)"

lemma context_built:
  fixes s :: "('w, 'x) pull_scheme"
  assumes "working lib" and "\<And>h u. \<exists>c. resolve_chain ps h (u :: ('w, 'x) pull_scheme) = (Inr c, u)"
  shows "\<exists>ctx. io_bind (auth_manager_new ps) (\<lambda>auth. build_context lib parsed auth) s =
      (Inr ctx, s\<lparr>pl_bearer := Map.empty\<rparr>) \<and> willing ctx \<and>
      pc_base_url ctx @ ''/v2/'' @ pc_repository ctx = repository_at s parsed"
proof -
  obtain c where c: "resolve_chain ps (rr_host parsed) (s\<lparr>pl_bearer := Map.empty\<rparr>) = (Inr c, s\<lparr>pl_bearer := Map.empty\<rparr>)"
    using assms(2) by blast
  have "hl_build (pl_http lib) pull_request_timeout = Inr ()" using assms(1) by (simp add: working_def)
  with c show ?thesis
    using assms(2)
    by (simp add: auth_manager_new_def build_context_def pull_env_allows_insecure_def env_var_def io_bind_def
        io_apply_simps io_map_err_def Let_def willing_def repository_at_def scheme_of_def)
qed

lemma explicit_resolves:
  "\<exists>c. resolve_chain [] h u = (Inr c, u)"
  "\<exists>c. resolve_chain [\<lparr>pv_name = n, pv_resolve = bearer_resolve t\<rparr>, q] h u = (Inr c, u)"
  "\<exists>c. resolve_chain [\<lparr>pv_name = n, pv_resolve = basic_resolve a b\<rparr>, q] h u = (Inr c, u)"
  by (simp_all add: io_apply_simps io_bind_def bearer_resolve_def basic_resolve_def Let_def)

lemma pull_returns:
  fixes s :: "('a, 'b) pull_scheme"
  assumes "parse_registry_ref ref_str = Inr parsed" and "working lib" and "explicit_auth auth"
    and "serves_artifact lib (repository_at s parsed) parsed"
    and "dest \<noteq> []" and "fs_faults s = []" and "ready (fs_key dest) (fs_nodes s)"
  shows "\<exists>t. pull_entry lib ref_str auth dest opts s = (Inr (), t)"
proof -
  let ?s = "s\<lparr>pl_bearer := Map.empty\<rparr>"
  have run: "\<exists>t. execute_pull lib ctx parsed dest opts ?s = (Inr (), t)"
    if "willing ctx" "pc_base_url ctx @ ''/v2/'' @ pc_repository ctx = repository_at s parsed" for ctx
  proof -
    have "returns (ready (fs_key dest)) (execute_pull lib ctx parsed dest opts) (\<lambda>_ _. True)"
      by (rule returns_execute [OF assms(2) that(1) assms(5)]) (use assms(4) that(2) in simp)
    moreover have "no_faults ?s" "ready (fs_key dest) (fs_nodes ?s)" using assms(6,7) by simp_all
    ultimately obtain x t where "execute_pull lib ctx parsed dest opts ?s = (Inr x, t)"
      unfolding returns_def by blast
    then show ?thesis by auto
  qed
  have whole: "\<exists>t. io_bind (io_bind (auth_manager_new ps) (\<lambda>auth. build_context lib parsed auth))
      (\<lambda>ctx. execute_pull lib ctx parsed dest opts) s = (Inr (), t)"
    if chain: "\<And>h u. \<exists>c. resolve_chain ps h (u :: ('a, 'b) pull_scheme) = (Inr c, u)" for ps
  proof -
    obtain ctx where "io_bind (auth_manager_new ps) (\<lambda>auth. build_context lib parsed auth) s = (Inr ctx, ?s)"
      and ctx: "willing ctx" "pc_base_url ctx @ ''/v2/'' @ pc_repository ctx = repository_at s parsed"
      using context_built [OF assms(2) chain] by blast
    with run [OF ctx] show ?thesis by (simp only: io_bind_def [of "io_bind _ _"]) simp
  qed
  show ?thesis
  proof (cases auth)
    case None
    with whole [OF explicit_resolves(1)] assms(1) show ?thesis
      by (simp add: pull_entry_def pull_anonymous_into_image_dir_with_options_def new_anonymous_def)
  next
    case (Some a)
    then consider (bearer) u where "a = Bearer u" "u \<noteq> []" | (basic) u p where "a = Basic u p" "u \<noteq> []" "p \<noteq> []"
      using assms(3) by (cases a) (auto simp: explicit_auth_def)
    then show ?thesis
    proof cases
      case bearer
      with whole [OF explicit_resolves(2)] Some assms(1) show ?thesis
        by (simp add: pull_entry_def pull_into_image_dir_with_options_def new_authenticated_def
            providers_for_registry_auth_def bearer_new_def)
    next
      case basic
      with whole [OF explicit_resolves(3)] Some assms(1) show ?thesis
        by (simp add: pull_entry_def pull_into_image_dir_with_options_def new_authenticated_def
            providers_for_registry_auth_def basic_new_def)
    qed
  qed
qed


section \<open>A sample pull\<close>

text \<open>The checksum of the sample is the length of the document; four documents differ in it.\<close>

definition tally_digest :: "nat \<Rightarrow> string" where
  "tally_digest n = ''sha256:'' @ hex_of_bytes (char_of n # replicate 31 (CHR 0x00))"

definition sample_wire :: "nat \<Rightarrow> wire_descriptor" where
  "sample_wire n = \<lparr>wd_media_type = pull_manifest_type, wd_digest = tally_digest n, wd_size = n,
     wd_artifact_type = None\<rparr>"

definition sample_pages :: "(string \<times> bytes) list" where
  "sample_pages =
     [(''https://r.io/v2/a/manifests/t'', ''m''),
      (''https://r.io/v2/a/referrers/'' @ tally_digest 1, ''list''),
      (''https://r.io/v2/a/manifests/'' @ tally_digest 5, ''mmmmm''),
      (''https://r.io/v2/a/blobs/'' @ tally_digest 2, ''cc''),
      (''https://r.io/v2/a/blobs/'' @ tally_digest 3, ''lll'')]"

definition sample_pull_send :: "http_request \<Rightarrow> unit \<Rightarrow> (string + http_response) \<times> unit" where
  "sample_pull_send q w =
     (case map_of sample_pages (rq_url q) of
        Some b \<Rightarrow> (Inr \<lparr>rs_status = 200, rs_headers = [], rs_body = b, rs_body_error = None\<rparr>, w)
      | None \<Rightarrow> (Inl ''connection refused'', w))"

definition sample_pull_lib :: "unit pull_lib" where
  "sample_pull_lib =
     \<lparr>pl_http = \<lparr>hl_build = (\<lambda>_. Inr ()), hl_send = sample_pull_send, hl_header_value = Inr, hl_header_text = Inr\<rparr>,
      pl_sha256 = (\<lambda>b. char_of (length b) # replicate 31 (CHR 0x00)),
      pl_json = (\<lambda>_. Inl ''no document''),
      pl_manifest = (\<lambda>b. Inr \<lparr>wm_config = sample_wire 2, wm_layers = [sample_wire 3]\<rparr>),
      pl_referrers = (\<lambda>_. Inr \<lparr>wr_manifests = [sample_wire 5]\<rparr>),
      pl_pretty = (\<lambda>_. Inr ''{}'')\<rparr>"

definition sample_pull :: "unit pull" where
  "sample_pull =
     \<lparr>fs_nodes = [[''/''] \<mapsto> DirNode, [''/'', ''p''] \<mapsto> DirNode], fs_faults = [], fs_seen = [],
      fs_order = (\<lambda>_. []), sy_env = (\<lambda>_. None), sy_world = (), pb_pid = 1, pb_nanos = [], pb_slept = [],
      pb_sent = [], pl_bearer = (\<lambda>_. None)\<rparr>"

definition sample_ref :: registry_ref where
  "sample_ref = \<lparr>rr_host = ''r.io'', rr_repository = ''a'', rr_target = Tag ''t'', rr_raw = ''r.io/a:t''\<rparr>"

lemma sample_parse: "parse_registry_ref ''r.io/a:t'' = Inr sample_ref"
  by code_simp

lemma tally_digests_differ:
  "tally_digest 1 \<noteq> tally_digest 5" "tally_digest 2 \<noteq> tally_digest 3"
  by (simp_all add: tally_digest_def hex_of_bytes_def hex_byte_def hex_digit_def code_of_def)

lemma sample_digest_of: "digest_of sample_pull_lib b = tally_digest (length b)"
  by (simp add: digest_of_def sample_pull_lib_def tally_digest_def)

lemma sample_serves:
  "map_of sample_pages url = Some b \<Longrightarrow> serves (pl_http sample_pull_lib) url b"
  by (simp add: serves_def sample_pull_lib_def sample_pull_send_def)

lemma sample_blobs:
  "serves_blob sample_pull_lib ''https://r.io/v2/a'' (tally_digest 2)"
  "serves_blob sample_pull_lib ''https://r.io/v2/a'' (tally_digest 3)"
  unfolding serves_blob_def sample_digest_of
  by (intro exI [of _ "''cc''"] conjI sample_serves; use tally_digests_differ in \<open>simp add: sample_pages_def eval_nat_numeral\<close>)
    (intro exI [of _ "''lll''"] conjI sample_serves; use tally_digests_differ in \<open>simp add: sample_pages_def eval_nat_numeral\<close>)

lemma sample_manifests:
  "serves_manifest sample_pull_lib ''https://r.io/v2/a'' ''t'' ''m''"
  "serves_manifest sample_pull_lib ''https://r.io/v2/a'' (tally_digest 5) ''mmmmm''"
proof -
  have man: "pl_manifest sample_pull_lib b = Inr \<lparr>wm_config = sample_wire 2, wm_layers = [sample_wire 3]\<rparr>" for b
    by (simp add: sample_pull_lib_def)
  have "tally_digest 5 \<noteq> ''t''" by (simp add: tally_digest_def)
  then show "serves_manifest sample_pull_lib ''https://r.io/v2/a'' ''t'' ''m''"
    "serves_manifest sample_pull_lib ''https://r.io/v2/a'' (tally_digest 5) ''mmmmm''"
    using sample_blobs
    by (auto simp: serves_manifest_def man contents_def sample_wire_def sample_pages_def intro!: sample_serves)
qed

lemma sample_at: "repository_at sample_pull sample_ref = ''https://r.io/v2/a''"
  by (simp add: repository_at_def scheme_of_def sample_pull_def sample_ref_def)

lemma sample_artifact: "serves_artifact sample_pull_lib (repository_at sample_pull sample_ref) sample_ref"
proof -
  have refs: "serves (pl_http sample_pull_lib) (''https://r.io/v2/a'' @ ''/referrers/'' @ digest_of sample_pull_lib ''m'') ''list''"
    unfolding sample_digest_of by (rule sample_serves) (simp add: sample_pages_def)
  have listed: "pl_referrers sample_pull_lib ''list'' = Inr \<lparr>wr_manifests = [sample_wire 5]\<rparr>"
    by (simp add: sample_pull_lib_def)
  have referrer: "digest_of sample_pull_lib ''mmmmm'' = wd_digest (sample_wire 5)"
    unfolding sample_digest_of by (simp add: sample_wire_def eval_nat_numeral)
  show ?thesis
    unfolding serves_artifact_def sample_at
    by (rule exI [of _ "''m''"], rule exI [of _ "''list''"], rule exI [of _ "[sample_wire 5]"])
      (use refs listed referrer sample_manifests in
        \<open>auto simp: sample_ref_def is_target_def manifest_reference_def sample_wire_def\<close>)
qed

lemma sample_working: "working sample_pull_lib"
  by (simp add: working_def sample_pull_lib_def)

lemma sample_ready: "ready (fs_key ''/p'') (fs_nodes sample_pull)"
proof -
  have key: "fs_key ''/p'' = [''/'', ''p'']" by code_simp
  have "prefixes_of [''/'', ''p'', ''blobs'', ''sha256''] =
      [[''/''], [''/'', ''p''], [''/'', ''p'', ''blobs''], [''/'', ''p'', ''blobs'', ''sha256'']]"
    by (simp add: prefixes_of_def upt_rec)
  then show ?thesis
    by (auto simp: key ready_def clear_def slot_def sample_pull_def)
qed


lemma sample_pull_run:
  obtains t where "pull_entry sample_pull_lib ''r.io/a:t'' None ''/p'' \<lparr>require_referrers = True\<rparr> sample_pull = (Inr (), t)"
    "fs_seen sample_pull = []"
proof -
  have "\<exists>t. pull_entry sample_pull_lib ''r.io/a:t'' None ''/p'' \<lparr>require_referrers = True\<rparr> sample_pull = (Inr (), t)"
    by (rule pull_returns [OF sample_parse sample_working _ sample_artifact _ _ sample_ready])
      (simp_all add: explicit_auth_def sample_pull_def)
  with that show thesis by (auto simp: sample_pull_def)
qed

theorem pull_integrity_witness:
  "\<exists>t. pull_entry sample_pull_lib ''r.io/a:t'' None ''/p'' \<lparr>require_referrers = True\<rparr> sample_pull = (Inr (), t) \<and>
     sound_pull sample_pull_lib (fs_key ''/p'') (Tag ''t'') (fs_nodes sample_pull) (fs_nodes t)"
proof (rule sample_pull_run)
  fix t
  assume run: "pull_entry sample_pull_lib ''r.io/a:t'' None ''/p'' \<lparr>require_referrers = True\<rparr> sample_pull = (Inr (), t)"
    and "fs_seen sample_pull = []"
  from pull_integrity [OF this sample_parse] run show ?thesis by (auto simp: sample_ref_def)
qed


end
