(* ===== verification/History.thy ===== *)
theory History
  imports Pull_Integrity
begin

text \<open>
  The history of a file system, the list of its past disks, is a ghost: no operation reads it
  and every operation only adds to it. So what holds of a run that starts with no history
  holds of the part a later run adds.
\<close>

section \<open>Operations that do not read the history\<close>

definition prefixed :: "nodes list \<Rightarrow> 'x fs_scheme \<Rightarrow> 'x fs_scheme" where
  "prefixed h s = s\<lparr>fs_seen := h @ fs_seen s\<rparr>"

definition blind :: "('x fs_scheme, 'e, 'a) io \<Rightarrow> bool" where
  "blind c \<longleftrightarrow> (\<forall>h s. c (prefixed h s) = (fst (c s), prefixed h (snd (c s))))"

named_theorems blind_intros "operations that do not read the history"

lemma blindI: "(\<And>h s. c (prefixed h s) = (fst (c s), prefixed h (snd (c s)))) \<Longrightarrow> blind c"
  by (simp add: blind_def)

lemma blind_run: "blind c \<Longrightarrow> c s = (r, t) \<Longrightarrow> c (prefixed h s) = (r, prefixed h t)"
  by (simp add: blind_def)

lemma blind_return [blind_intros]: "blind (io_return x)"
  and blind_fail [blind_intros]: "blind (io_fail e)"
  and blind_lift [blind_intros]: "blind (io_lift r)"
  by (simp_all add: blind_def io_apply_simps)

lemma blind_get: "(\<And>h s. f (prefixed h s) = f s) \<Longrightarrow> blind (io_get f)"
  by (simp add: blind_def io_apply_simps)

lemma blind_bind [blind_intros]:
  assumes "blind c" and "\<And>x. blind (f x)"
  shows "blind (io_bind c f)"
proof (rule blindI)
  fix h s
  obtain r t where run: "c s = (r, t)" by fastforce
  then show "io_bind c f (prefixed h s) = (fst (io_bind c f s), prefixed h (snd (io_bind c f s)))"
    using blind_run [OF assms(1) run] assms(2) by (simp add: io_bind_def blind_def split: sum.split)
qed

lemma blind_map_err [blind_intros]: "blind c \<Longrightarrow> blind (io_map_err g c)"
  by (simp add: blind_def io_map_err_def split: prod.split)

lemma blind_try [blind_intros]: "blind c \<Longrightarrow> blind (io_try c)"
  by (simp add: blind_def io_try_def split: prod.split)

lemma blind_fold [blind_intros]: "(\<And>x b. blind (f x b)) \<Longrightarrow> blind (io_fold f xs b)"
  by (induction xs arbitrary: b) (auto intro: blind_intros)

lemma blind_attempts [blind_intros]: "(\<And>a l. blind (body a l)) \<Longrightarrow> blind (for_attempts as body l)"
  by (induction as arbitrary: l) (auto intro!: blind_intros split: sum.split)

lemma blind_if [blind_intros]: "blind c \<Longrightarrow> blind d \<Longrightarrow> blind (if b then c else d)"
  by simp

lemma prefixed_simps [simp]:
  "fs_nodes (prefixed h s) = fs_nodes s" "fs_faults (prefixed h s) = fs_faults s"
  "fs_order (prefixed h s) = fs_order s" "fs_seen (prefixed h s) = h @ fs_seen s"
  by (simp_all add: prefixed_def)

lemma prefixed_sys [simp]:
  "sy_env (prefixed h s) = sy_env s" "sy_world (prefixed h s) = sy_world s"
  by (simp_all add: prefixed_def)

lemma blind_call [blind_intros]: "blind (fs_call g)"
  by (rule blindI) (simp add: fs_call_def prefixed_def Let_def split: prod.split)

lemma blind_query [blind_intros]: "blind (fs_query g)"
  unfolding fs_query_def
  by (rule blindI) (simp add: blind_call [unfolded blind_def] split: prod.split sum.split)

lemma blind_files [blind_intros]:
  "blind (fs_read p)" "blind (fs_metadata p)" "blind (fs_read_dir p)" "blind (fs_write p bs)"
  "blind (fs_remove_file p)" "blind (fs_remove_dir_all p)" "blind (fs_create_dir_all p)"
  "blind (fs_rename a b)" "blind (fs_exists p)" "blind (fs_is_file p)" "blind (fs_is_dir p)"
  unfolding fs_op_defs by (rule blind_intros)+

lemma blind_system [blind_intros]:
  "blind (env_var v)" "blind (http_send hl q)" "blind (sleep_millis n)"
  "blind (cache_bearer r t)" "blind (cached_bearer r)" "blind (auth_manager_new ps)"
  by (auto simp: blind_def prefixed_def env_var_def http_send_def sleep_millis_def cache_bearer_def
      cached_bearer_def auth_manager_new_def io_bind_def io_apply_simps split: prod.split)

section \<open>A pull\<close>

definition blind_chain :: "'x fs_scheme provider list \<Rightarrow> bool" where
  "blind_chain ps \<longleftrightarrow> (\<forall>p \<in> set ps. \<forall>registry. blind (pv_resolve p registry))"

lemma blind_resolve_chain: "blind_chain ps \<Longrightarrow> blind (resolve_chain ps registry)"
  by (induction ps) (auto simp: blind_chain_def intro!: blind_intros split: option.split)

definition blind_context :: "('w, 'x) pull_scheme pull_context \<Rightarrow> bool" where
  "blind_context ctx \<longleftrightarrow> blind_chain (pc_auth ctx)"

lemma blind_more_files [blind_intros]: "blind (fs_append p bs)" "blind (fs_create p)"
  unfolding fs_append_def fs_create_def by (intro blind_intros)+

lemma blind_fetch_token [blind_intros]: "blind (fetch_bearer_token hl js ch a)"
  unfolding fetch_bearer_token_def Let_def by (intro blind_intros)

lemma blind_send:
  assumes "blind_context ctx"
  shows "blind (send_with_retry lib ctx url hs)"
proof -
  have auth: "blind (auth_to_send lib ctx)"
    unfolding auth_to_send_def
    by (intro blind_intros) (auto intro!: blind_intros blind_resolve_chain assms [unfolded blind_context_def]
        split: option.split)
  have "blind (send_turn lib ctx url hs a l)" for a l
    unfolding send_turn_def Let_def pull_sleep_backoff_def
    by (auto intro!: blind_intros auth split: prod.split sum.split option.split)
  then show ?thesis
    unfolding send_with_retry_def by (intro blind_intros)
qed

lemma blind_fetch:
  assumes "blind_context ctx"
  shows "blind (fetch_manifest lib ctx reference accept)" "blind (fetch_referrers lib ctx parsed d opts)"
  unfolding fetch_manifest_def fetch_referrers_def Let_def
  by (auto intro!: blind_intros blind_send [OF assms] split: option.split)

lemma blind_stream: "blind (stream_body partial d reader hashed)"
proof (induction partial d reader hashed rule: stream_body.induct)
  case (1 partial d reader hashed)
  show ?case
    by (subst stream_body.simps)
      (auto intro!: blind_intros 1 simp: drop_partial_def split: prod.split sum.split list.split)
qed

lemma blind_blobs:
  assumes "blind_context ctx"
  shows "blind (pull_blob_streamed lib ctx dir d)" "blind (write_blob_atomically lib dir d bs)"
  unfolding pull_blob_streamed_def write_blob_atomically_def Let_def drop_partial_def
  by (intro blind_intros blind_stream blind_send [OF assms])+

lemma blind_execute:
  assumes "blind_context ctx"
  shows "blind (execute_pull lib ctx parsed dest opts)"
proof -
  have layers: "blind (pull_layers lib ctx dir ls)" "blind (pull_referrer_layers lib ctx dir d ls seen)" for dir ls d seen
    unfolding pull_layers_def pull_referrer_layers_def
    by (auto intro!: blind_intros blind_blobs [OF assms] split: prod.split)
  then have referrer: "blind (pull_referrer lib ctx dir d st)" for dir d st
    unfolding pull_referrer_def Let_def
    by (auto intro!: blind_intros blind_blobs [OF assms] blind_fetch [OF assms] split: prod.split)
  show ?thesis
    unfolding execute_pull_def write_oci_layout_marker_def write_index_json_def Let_def
    by (auto intro!: blind_intros blind_blobs [OF assms] blind_fetch [OF assms] layers referrer
        split: prod.split ref_target.split)
qed

lemma blind_env [blind_intros]: "blind (env_resolve registry)"
  unfolding env_resolve_def Let_def by (auto intro!: blind_intros split: option.split)

lemma blind_providers: "providers_for_registry_auth auth = Inr ps \<Longrightarrow> blind_chain ps"
  by (auto simp: providers_for_registry_auth_def blind_chain_def and_then_def map_err_def bearer_new_def basic_new_def
      env_provider_def anonymous_provider_def anonymous_resolve_def basic_resolve_def bearer_resolve_def
      intro!: blind_intros split: registry_auth.splits sum.splits if_splits)

lemma blind_bind_result:
  assumes "blind c" and "\<And>s x t. c s = (Inr x, t) \<Longrightarrow> P x" and "\<And>x. P x \<Longrightarrow> blind (f x)"
  shows "blind (io_bind c f)"
proof (rule blindI)
  fix h s
  obtain r t where run: "c s = (r, t)" by fastforce
  then show "io_bind c f (prefixed h s) = (fst (io_bind c f s), prefixed h (snd (io_bind c f s)))"
    using blind_run [OF assms(1) run] assms(2,3) by (auto simp: io_bind_def blind_def split: sum.split)
qed

lemma blind_build_context: "blind_chain auth \<Longrightarrow> blind (build_context lib parsed auth)"
  unfolding build_context_def pull_env_allows_insecure_def Let_def
  by (intro blind_intros blind_resolve_chain)

lemma built_context: "build_context lib parsed auth s = (Inr ctx, t) \<Longrightarrow> pc_auth ctx = auth"
  unfolding build_context_def Let_def
  by (auto simp: io_apply_simps elim!: io_bind_InrE io_map_err_InrE)

lemma manager_result: "auth_manager_new ps s = (Inr qs, t) \<Longrightarrow> qs = ps"
  by (auto simp: auth_manager_new_def io_apply_simps elim!: io_bind_InrE)

lemma blind_client:
  assumes "blind_chain ps" and "\<And>ctx. blind_context ctx \<Longrightarrow> blind (f ctx)"
  shows "blind (io_bind (auth_manager_new ps) (\<lambda>auth. io_bind (build_context lib parsed auth) f))"
proof (rule blind_bind_result [where P = "\<lambda>qs. qs = ps"])
  show "blind (io_bind (build_context lib parsed auth) f)" if "auth = ps" for auth
    by (rule blind_bind_result [where P = blind_context])
      (use assms that in \<open>auto simp: blind_context_def dest!: built_context intro: blind_build_context\<close>)
qed (auto dest: manager_result intro: blind_intros)

lemma blind_pull: "blind (pull_entry lib ref_str auth dest opts)"
proof (cases auth)
  case None
  have "blind (io_bind (auth_manager_new []) (\<lambda>auth. io_bind (build_context lib parsed auth)
      (\<lambda>ctx. execute_pull lib ctx parsed dest opts)))" for parsed
    by (rule blind_client) (auto simp: blind_chain_def intro: blind_execute)
  then show ?thesis
    unfolding pull_entry_def None option.case pull_anonymous_into_image_dir_with_options_def
      new_anonymous_def io_bind_assoc
    by (intro blind_bind [OF blind_lift])
next
  case (Some a)
  have "blind (io_bind (io_lift (providers_for_registry_auth a)) (\<lambda>ps. io_bind (auth_manager_new ps)
      (\<lambda>auth. io_bind (build_context lib parsed auth) (\<lambda>ctx. execute_pull lib ctx parsed dest opts))))" for parsed
    by (rule blind_bind_result [where P = blind_chain])
      (auto intro: blind_intros blind_providers blind_client blind_execute simp: io_apply_simps)
  then show ?thesis
    unfolding pull_entry_def Some option.case pull_into_image_dir_with_options_def
      new_authenticated_def io_bind_assoc
    by (rule blind_bind [OF blind_lift])
qed

lemma blind_unprefixed:
  assumes "blind c" and "c s = (r, t)"
  obtains u where "c (s\<lparr>fs_seen := []\<rparr>) = (r, u)" "t = prefixed (fs_seen s) u"
proof -
  obtain q u where u: "c (s\<lparr>fs_seen := []\<rparr>) = (q, u)" by fastforce
  have "c (prefixed (fs_seen s) (s\<lparr>fs_seen := []\<rparr>)) = (q, prefixed (fs_seen s) u)"
    by (rule blind_run [OF assms(1) u])
  with assms(2) u that show thesis by (simp add: prefixed_def)
qed

lemma pull_run_later:
  assumes "pull_entry lib ref_str auth dest opts s = (Inr (), t)" and "parse_registry_ref ref_str = Inr parsed"
  shows "committed_pull lib (fs_key dest) (rr_target parsed) (fs_nodes t)"
proof (rule blind_unprefixed [OF blind_pull assms(1)])
  fix u assume run: "pull_entry lib ref_str auth dest opts (s\<lparr>fs_seen := []\<rparr>) = (Inr (), u)"
    and t: "t = prefixed (fs_seen s) u"
  from pull_run [OF run _ assms(2)] show ?thesis by (simp add: t)
qed

end
