(* ===== verification/Cmd_Verify.thy ===== *)
theory Cmd_Verify
  imports Cmd_Publish Verify_Gate Pull_Liveness History
begin

text \<open>
  \<open>cli/src/cmd/verify.rs\<close>: the command \<open>verify\<close>. A reference that exists as a path is verified
  where it is; any other is pulled into a temporary directory, which is verified and dropped.
  The crate \<open>tempfile\<close> is a parameter: the creation of a fresh directory and its removal when
  the value goes out of scope.
\<close>

section \<open>The command\<close>

record verify_options =
  vo_require_referrers :: bool

record ('w, 'x, 'u, 'v) verify_cmd_lib =
  vc_policy :: "string \<Rightarrow> message + raw_policy"
  vc_pull :: "'w pull_lib"
  vc_credentials :: "(('w, 'x) pull_scheme, 'u, 'v) auth_lib"
  vc_documents :: verify_lib
  vc_process :: "('w, 'x) pull_scheme process_lib"
  vc_tempdir :: "(('w, 'x) pull_scheme, io_error, path) io"
  vc_drop :: "path \<Rightarrow> ('w, 'x) pull_scheme \<Rightarrow> ('w, 'x) pull_scheme"

definition run_local ::
  "('w, 'x, 'u, 'v) verify_cmd_lib \<Rightarrow> path \<Rightarrow> policy option \<Rightarrow>
   (('w, 'x) pull_scheme, ('c, 'j) cmd_stop, verify_report) io" where
  "run_local lib image_dir policy =
     io_bind cosign_verify_bin (\<lambda>bin.
     io_map_err (\<lambda>e. Failed (CliVerify e))
       (verify (vc_documents lib) image_dir policy (real_cosign_verify (vc_process lib) bin)))"

definition pull_for_verify ::
  "('w, 'x, 'u, 'v) verify_cmd_lib \<Rightarrow> string \<Rightarrow> verify_auth_mode \<Rightarrow> path \<Rightarrow> verify_options \<Rightarrow>
   (('w, 'x) pull_scheme, ('c, 'j) cmd_stop, unit) io" where
  "pull_for_verify lib reference auth dest opts =
     (let pull_opts = \<lparr>require_referrers = vo_require_referrers opts\<rparr> in
      case auth of
        VerifyAnonymous \<Rightarrow>
          io_map_err (\<lambda>e. Failed (CliRegistryPull e))
            (pull_anonymous_into_image_dir_with_options (vc_pull lib) reference dest pull_opts)
      | VerifyAuthenticated m \<Rightarrow>
          io_bind (io_lift (map_err (\<lambda>e. Failed (CliRegistryPull e)) (parse_registry_ref reference))) (\<lambda>parsed.
          io_bind (registry_auth_for (vc_credentials lib) m (rr_host parsed)) (\<lambda>registry_auth.
          io_map_err (\<lambda>e. Failed (CliRegistryPull e))
            (pull_into_image_dir_with_options (vc_pull lib) reference registry_auth dest pull_opts))))"

definition load_policy ::
  "('w, 'x, 'u, 'v) verify_cmd_lib \<Rightarrow> path option \<Rightarrow>
   (('w, 'x) pull_scheme, ('c, 'j) cmd_stop, policy option) io" where
  "load_policy lib policy_path =
     (case policy_path of
        Some p \<Rightarrow> io_bind (io_map_err Failed (policy_load (vc_policy lib) p)) (\<lambda>x. io_return (Some x))
      | None \<Rightarrow> io_return None)"

text \<open>What is dropped at the end is dropped on every way out.\<close>

definition dropping :: "('s \<Rightarrow> 's) \<Rightarrow> ('s, 'e, 'a) io \<Rightarrow> ('s, 'e, 'a) io" where
  "dropping d c = (\<lambda>s. case c s of (r, t) \<Rightarrow> (r, d t))"

definition verify_with_options ::
  "('w, 'x, 'u, 'v) verify_cmd_lib \<Rightarrow> string \<Rightarrow> path option \<Rightarrow> verify_auth_mode \<Rightarrow> verify_options \<Rightarrow>
   (('w, 'x) pull_scheme, ('c, 'j) cmd_stop, verify_report) io" where
  "verify_with_options lib reference policy_path auth opts =
     io_bind (load_policy lib policy_path) (\<lambda>policy.
     io_bind (fs_exists reference) (\<lambda>here.
     if here then run_local lib reference policy
     else
       io_bind (io_map_err (\<lambda>e. Failed (CliIo ''<tempdir for registry pull>'' e)) (vc_tempdir lib)) (\<lambda>tempdir.
       dropping (vc_drop lib tempdir)
         (io_bind (pull_for_verify lib reference auth tempdir opts) (\<lambda>_.
          run_local lib tempdir policy)))))"

definition verify_command ::
  "('w, 'x, 'u, 'v) verify_cmd_lib \<Rightarrow> string \<Rightarrow> path option \<Rightarrow> verify_auth_mode \<Rightarrow>
   (('w, 'x) pull_scheme, ('c, 'j) cmd_stop, verify_report) io" where
  "verify_command lib reference policy_path auth =
     verify_with_options lib reference policy_path auth \<lparr>vo_require_referrers = False\<rparr>"

text \<open>A path is its text here, so \<open>to_str\<close> always has a value.\<close>

definition verify_path ::
  "('w, 'x, 'u, 'v) verify_cmd_lib \<Rightarrow> path \<Rightarrow> path option \<Rightarrow>
   (('w, 'x) pull_scheme, ('c, 'j) cmd_stop, verify_report) io" where
  "verify_path lib image_dir policy_path = verify_command lib image_dir policy_path VerifyAnonymous"

section \<open>The command does not panic\<close>

lemma fails_dropping: "fails_with F c \<Longrightarrow> fails_with F (dropping d c)"
  by (auto simp: fails_with_def dropping_def split: prod.splits) (metis fst_conv)

abbreviation unpanicked :: "('s, ('c, 'j) cmd_stop, 'a) io \<Rightarrow> bool" where
  "unpanicked \<equiv> fails_with (\<lambda>e. \<forall>p. e \<noteq> Panicked p)"

lemma unpanicked_query: "unpanicked (fs_exists p)"
  by (auto simp: fails_with_def fs_exists_def fs_query_def split: prod.splits sum.splits)

lemma unpanicked_bin: "unpanicked cosign_verify_bin"
  by (simp add: cosign_verify_bin_def fails_with_def io_apply_simps)

lemma unpanicked_lift: "unpanicked (io_lift (map_err (\<lambda>e. Failed (g e)) r))"
  by (auto simp: map_err_def split: sum.splits)

lemma verify_no_panic:
  fixes lib :: "('w, 'x, 'u, 'v) verify_cmd_lib"
  shows "unpanicked (verify_with_options lib reference policy_path auth opts ::
    (_, ('c, 'j) cmd_stop, _) io)"
proof -
  have local: "unpanicked (run_local lib p policy :: (_, ('c, 'j) cmd_stop, _) io)" for p policy
    unfolding run_local_def by (intro fails_with_bind failed_no_panic unpanicked_bin)
  have pull: "unpanicked (pull_for_verify lib reference auth dest opts :: (_, ('c, 'j) cmd_stop, _) io)" for dest
    unfolding pull_for_verify_def Let_def
    by (auto intro!: fails_with_bind failed_no_panic registry_auth_no_panic unpanicked_lift
        split: verify_auth_mode.split)
  have policy: "unpanicked (load_policy lib policy_path :: (_, ('c, 'j) cmd_stop, _) io)"
    unfolding load_policy_def
    by (auto intro!: fails_with_bind failed_no_panic [where g = "\<lambda>e. e"] split: option.split)
  show ?thesis
    unfolding verify_with_options_def
    by (auto intro!: fails_with_bind fails_dropping failed_no_panic local pull policy unpanicked_query)
qed

section \<open>What an accepted reference is\<close>

text \<open>
  The image directory that was verified: the path itself on the disk as it is, or a directory
  with a committed pull of the reference.
\<close>

definition obtained ::
  "('w, 'x, 'u, 'v) verify_cmd_lib \<Rightarrow> string \<Rightarrow> nodes \<Rightarrow> path \<Rightarrow> nodes \<Rightarrow> bool" where
  "obtained lib reference m0 dir m \<longleftrightarrow>
     dir = reference \<and> m = m0 \<or>
     (\<exists>parsed. parse_registry_ref reference = Inr parsed \<and>
        committed_pull (vc_pull lib) (fs_key dir) (rr_target parsed) m)"

lemma run_local_accepts:
  fixes lib :: "('w, 'x, 'u, 'v) verify_cmd_lib"
  assumes "(run_local lib dir policy :: (_, ('c, 'j) cmd_stop, _) io) s = (Inr report, t)"
  obtains bin u where "fs_nodes u = fs_nodes s"
    "accepted (vc_documents lib) dir policy (real_cosign_verify (vc_process lib) bin) u report"
proof -
  from assms obtain bin s1 where env: "(cosign_verify_bin :: (('w, 'x) pull_scheme, ('c, 'j) cmd_stop, _) io) s = (Inr bin, s1)"
    and run: "verify (vc_documents lib) dir policy (real_cosign_verify (vc_process lib) bin) s1 = (Inr report, t)"
    unfolding run_local_def by (elim io_bind_InrE io_map_err_InrE)
  have "s1 = s" using env by (simp add: cosign_verify_bin_def io_apply_simps)
  with verify_accepts [OF run] that show thesis by (auto simp: still_def)
qed

lemma pull_for_verify_commits:
  fixes lib :: "('w, 'x, 'u, 'v) verify_cmd_lib"
  assumes "(pull_for_verify lib reference auth dest opts :: (_, ('c, 'j) cmd_stop, _) io) s = (Inr (), t)"
  shows "\<exists>parsed. parse_registry_ref reference = Inr parsed \<and>
    committed_pull (vc_pull lib) (fs_key dest) (rr_target parsed) (fs_nodes t)"
proof -
  let ?o = "\<lparr>require_referrers = vo_require_referrers opts\<rparr>"
  obtain a u where pull: "pull_entry (vc_pull lib) reference a dest ?o u = (Inr (), t)"
  proof (cases auth)
    case VerifyAnonymous
    with assms have "pull_entry (vc_pull lib) reference None dest ?o s = (Inr (), t)"
      by (auto simp: pull_for_verify_def pull_entry_def elim!: io_map_err_InrE)
    then show thesis by (rule that)
  next
    case (VerifyAuthenticated m)
    with assms obtain a u where "pull_entry (vc_pull lib) reference (Some a) dest ?o u = (Inr (), t)"
      by (auto simp: pull_for_verify_def pull_entry_def elim!: io_bind_InrE io_map_err_InrE)
    then show thesis by (rule that)
  qed
  moreover obtain parsed where "parse_registry_ref reference = Inr parsed"
    using pull by (cases a) (auto simp: pull_entry_def pull_into_image_dir_with_options_def
        pull_anonymous_into_image_dir_with_options_def io_apply_simps elim!: io_bind_InrE)
  ultimately show ?thesis using pull_run_later by blast
qed

lemma dropping_InrE:
  assumes "dropping d c s = (Inr x, t)"
  obtains u where "c s = (Inr x, u)" "t = d u"
  using assms by (auto simp: dropping_def split: prod.splits)

lemma exists_still: "fs_exists p s = (Inr b, t) \<Longrightarrow> fs_nodes t = fs_nodes s"
  by (auto simp: fs_exists_def fs_query_def fs_call_reads [OF reads_calls(3)] split: prod.splits sum.splits)

lemma load_policy_still:
  "load_policy lib policy_path s = (Inr policy, t) \<Longrightarrow> fs_nodes t = fs_nodes s"
  by (auto simp: load_policy_def policy_load_def fs_read_to_string_def fs_read_def io_apply_simps
      fs_call_reads [OF reads_calls(1)] split: option.splits sum.splits if_splits
      elim!: io_bind_InrE io_map_err_InrE)

lemma verify_command_accepts:
  fixes lib :: "('w, 'x, 'u, 'v) verify_cmd_lib"
  assumes "(verify_with_options lib reference policy_path auth opts :: (_, ('c, 'j) cmd_stop, _) io) s = (Inr report, t)"
  shows "\<exists>policy s1 bin dir u.
    (load_policy lib policy_path :: (_, ('c, 'j) cmd_stop, _) io) s = (Inr policy, s1) \<and>
    obtained lib reference (fs_nodes s) dir (fs_nodes u) \<and>
    accepted (vc_documents lib) dir policy (real_cosign_verify (vc_process lib) bin) u report"
proof -
  obtain policy s1 here s2 where
    policy: "(load_policy lib policy_path :: (_, ('c, 'j) cmd_stop, _) io) s = (Inr policy, s1)"
    and here: "fs_exists reference s1 = (Inr here :: ('c, 'j) cmd_stop + _, s2)"
    and rest: "(if here then run_local lib reference policy else
       io_bind (io_map_err (\<lambda>e. Failed (CliIo ''<tempdir for registry pull>'' e)) (vc_tempdir lib)) (\<lambda>tempdir.
       dropping (vc_drop lib tempdir)
         (io_bind (pull_for_verify lib reference auth tempdir opts) (\<lambda>_. run_local lib tempdir policy))))
       s2 = (Inr report :: ('c, 'j) cmd_stop + _, t)"
    using assms unfolding verify_with_options_def by (elim io_bind_InrE)
  have nodes: "fs_nodes s2 = fs_nodes s"
    using load_policy_still [OF policy] exists_still [OF here] by simp
  show ?thesis
  proof (cases here)
    case True
    with rest have "(run_local lib reference policy :: (_, ('c, 'j) cmd_stop, _) io) s2 = (Inr report, t)" by simp
    then obtain bin u where "fs_nodes u = fs_nodes s2"
      "accepted (vc_documents lib) reference policy (real_cosign_verify (vc_process lib) bin) u report"
      by (rule run_local_accepts)
    with policy nodes show ?thesis unfolding obtained_def by metis
  next
    case False
    with rest obtain dir s3 s4 t' where
      "(pull_for_verify lib reference auth dir opts :: (_, ('c, 'j) cmd_stop, _) io) s3 = (Inr (), s4)"
      and run: "(run_local lib dir policy :: (_, ('c, 'j) cmd_stop, _) io) s4 = (Inr report, t')"
      by (auto elim!: io_bind_InrE dropping_InrE)
    then obtain parsed where "parse_registry_ref reference = Inr parsed"
      "committed_pull (vc_pull lib) (fs_key dir) (rr_target parsed) (fs_nodes s4)"
      using pull_for_verify_commits by blast
    moreover obtain bin u where "fs_nodes u = fs_nodes s4"
      "accepted (vc_documents lib) dir policy (real_cosign_verify (vc_process lib) bin) u report"
      by (rule run_local_accepts [OF run])
    ultimately show ?thesis using policy unfolding obtained_def by metis
  qed
qed


definition sample_verify_cmd :: "(unit, unit, unit, unit) verify_cmd_lib" where
  "sample_verify_cmd =
     \<lparr>vc_policy = (\<lambda>_. Inl []), vc_pull = sample_pull_lib,
      vc_credentials = sample_credentials,
      vc_documents = sample_verify_lib,
      vc_process = \<lparr>ql_output = (\<lambda>_ _. io_fail (IoError NotFound [])), ql_temp_dir = ''/tmp'', ql_pid = 1,
        ql_nanos = (\<lambda>_. 0), ql_io_text = (\<lambda>_. []), ql_value = (\<lambda>_. Inl [])\<rparr>,
      vc_tempdir = io_return ''/p'', vc_drop = (\<lambda>_ s. s)\<rparr>"

definition sample_local :: "unit pull" where
  "sample_local = sample_pull\<lparr>fs_nodes := sample_image_nodes\<rparr>"

lemma sample_local_ok:
  "is_ok (fst ((verify_with_options sample_verify_cmd ''/img'' None VerifyAnonymous
     \<lparr>vo_require_referrers = False\<rparr> :: (_, (unit, unit) cmd_stop, _) io) sample_local))"
  by code_simp


end
