(* ===== verification/Cmd_Read.thy ===== *)
theory Cmd_Read
  imports Cli_Error Attest Vault Verify_Gate
begin

text \<open>
  \<open>cli/src/cmd/inspect.rs\<close> and \<open>cli/src/cmd/sbom.rs\<close>: the commands that print what a
  specification or an image directory holds. The content store in memory of the crate \<open>cas\<close> is
  a parameter: \<open>put\<close> (in \<open>rd_attest\<close>) and \<open>get\<close>.
\<close>

record ('s, 'd, 'c, 'j) read_lib =
  rd_toml :: "string \<Rightarrow> string + raw_spec"
  rd_jcs :: "json \<Rightarrow> 'j + bytes"
  rd_hash :: "bytes \<Rightarrow> 'd"
  rd_attest :: "('s, 'd, 'c, 'j) attest_lib"
  rd_get :: "'d \<Rightarrow> ('s, 'c, bytes) io"
  rd_cas_text :: "'c \<Rightarrow> message"
  rd_codecs :: image_codecs
  rd_value :: "bytes \<Rightarrow> message + json"

section \<open>What the commands share\<close>

definition is_image_dir :: "path \<Rightarrow> ('x fs_scheme, 'e, bool) io" where
  "is_image_dir p =
     io_bind (fs_is_dir p) (\<lambda>d. if d then fs_is_file (path_join p ''oci-layout'') else io_return False)"

definition not_an_input :: "string \<Rightarrow> path \<Rightarrow> ('c, 'j) cli_error" where
  "not_an_input cmd input = Cli [Txt cmd, Txt '' <spec-or-ref>: '', Txt input,
     Txt '' is neither a TOML file nor an OCI image-layout dir'']"

definition open_for_cli :: "image_codecs \<Rightarrow> path \<Rightarrow> ('x fs_scheme, ('c, 'j) cli_error, image_dir) io" where
  "open_for_cli cod image_dir =
     io_map_err (\<lambda>e. CliPublish (publish_error_of e)) (open_image_dir cod image_dir)"

definition read_for_cli :: "image_dir \<Rightarrow> string \<Rightarrow> ('x fs_scheme, ('c, 'j) cli_error, bytes) io" where
  "read_for_cli im digest =
     io_bind (io_lift (map_err (\<lambda>e. CliPublish (publish_error_of e)) (blob_path im digest))) (\<lambda>p.
     io_map_err (CliIo p) (fs_read p))"

definition referrer_value ::
  "(bytes \<Rightarrow> message + json) \<Rightarrow> image_dir \<Rightarrow> pub_descriptor \<Rightarrow>
   ('x fs_scheme, ('c, 'j) cli_error, json) io" where
  "referrer_value parse im d =
     io_bind (read_for_cli im (pd_digest d)) (\<lambda>bs.
     io_lift (map_err (\<lambda>e. Cli ([Txt ''malformed referrer manifest '', Txt (pd_digest d), Txt '': ''] @ e))
       (parse bs)))"

definition shown_type :: "string \<Rightarrow> json \<Rightarrow> pub_descriptor \<Rightarrow> string" where
  "shown_type otherwise v d =
     (case Option.bind (json_get ''artifactType'' v) json_as_str of
        Some t \<Rightarrow> t
      | None \<Rightarrow> (case pd_artifact_type d of Some t \<Rightarrow> t | None \<Rightarrow> otherwise))"

definition load_spec ::
  "('x fs_scheme, 'd, 'c, 'j) read_lib \<Rightarrow> path \<Rightarrow> ('x fs_scheme, ('c, 'j) cli_error, loaded_spec) io" where
  "load_spec lib p = io_map_err CliSpec (parse_and_validate (rd_toml lib) p)"

definition hash_spec ::
  "('s, 'd, 'c, 'j) read_lib \<Rightarrow> spec \<Rightarrow> ('s, ('c, 'j) cli_error, 'd) io" where
  "hash_spec lib sp = io_lift (map_err CliSpecCanonicalize (spec_hash (rd_jcs lib) (rd_hash lib) sp))"

section \<open>\<open>inspect\<close>\<close>

record layer_info =
  li_media_type :: string
  li_digest :: string
  li_size :: nat

record referrer_info =
  ri_artifact_type :: string
  ri_digest :: string
  ri_size :: nat

datatype inspect_output =
    InspectSpec bytes string
  | InspectImage string string string "layer_info list" "referrer_info list"

definition inspect_spec ::
  "('x fs_scheme, 'd, 'c, 'j) read_lib \<Rightarrow> path \<Rightarrow> ('x fs_scheme, ('c, 'j) cli_error, inspect_output) io" where
  "inspect_spec lib spec_path =
     io_bind (load_spec lib spec_path) (\<lambda>loaded.
     io_bind (io_lift (map_err CliSpecCanonicalize (canonical_bytes (rd_jcs lib) (ls_spec loaded)))) (\<lambda>canonical.
     io_bind (hash_spec lib (ls_spec loaded)) (\<lambda>h.
     io_return (InspectSpec canonical (dg_text (al_digest (rd_attest lib)) h)))))"

definition layer_info_of :: "pub_descriptor \<Rightarrow> layer_info" where
  "layer_info_of d = \<lparr>li_media_type = pd_media_type d, li_digest = pd_digest d, li_size = pd_size d\<rparr>"

definition referrer_info_of :: "pub_descriptor \<Rightarrow> json \<Rightarrow> referrer_info" where
  "referrer_info_of d v =
     \<lparr>ri_artifact_type = shown_type ''<unknown>'' v d, ri_digest = pd_digest d, ri_size = pd_size d\<rparr>"

definition inspect_referrer ::
  "(bytes \<Rightarrow> message + json) \<Rightarrow> image_dir \<Rightarrow> pub_descriptor \<Rightarrow> referrer_info list \<Rightarrow>
   ('x fs_scheme, ('c, 'j) cli_error, referrer_info list) io" where
  "inspect_referrer parse im d infos =
     io_bind (referrer_value parse im d) (\<lambda>v. io_return (infos @ [referrer_info_of d v]))"

definition inspect_image ::
  "('x fs_scheme, 'd, 'c, 'j) read_lib \<Rightarrow> path \<Rightarrow> ('x fs_scheme, ('c, 'j) cli_error, inspect_output) io" where
  "inspect_image lib image_dir =
     io_bind (open_for_cli (rd_codecs lib) image_dir) (\<lambda>im.
     let desc = im_descriptor im in
     io_bind (io_fold (inspect_referrer (rd_value lib) im) (id_referrers desc) []) (\<lambda>referrers.
     io_return (InspectImage (id_primary_digest desc) (pd_digest (id_config desc))
       (pd_media_type (id_config desc)) (map layer_info_of (id_layers desc)) referrers)))"

definition inspect_command ::
  "('x fs_scheme, 'd, 'c, 'j) read_lib \<Rightarrow> path \<Rightarrow> ('x fs_scheme, ('c, 'j) cli_error, inspect_output) io" where
  "inspect_command lib input =
     io_bind (is_image_dir input) (\<lambda>image.
     if image then inspect_image lib input else
     io_bind (fs_is_file input) (\<lambda>present.
     if present then inspect_spec lib input
     else io_fail (not_an_input ''inspect'' input)))"

section \<open>\<open>sbom\<close>\<close>

datatype sbom_output_format = FormatCycloneDx | FormatSpdx

definition sbom_output_format_parse :: "string \<Rightarrow> ('c, 'j) cli_error + sbom_output_format" where
  "sbom_output_format_parse s =
     (if s = ''cyclonedx'' then Inr FormatCycloneDx
      else if s = ''spdx'' then Inr FormatSpdx
      else Inl (Cli [Txt ''--format: unknown SBOM format '', Dbg s, Txt '' (expected cyclonedx or spdx)'']))"

definition preview_entry :: "layer_file \<Rightarrow> string" where
  "preview_entry e = lf_source e @ ''|'' @ lf_dest e @ ''|'' @ oct_of_nat (unat (lf_mode e))"

text \<open>The bytes that stand for a layer in a preview.\<close>

definition preview_bytes ::
  "loaded_spec \<Rightarrow> layer \<Rightarrow> ('x fs_scheme, ('c, 'j) cli_error, bytes) io" where
  "preview_bytes loaded l =
     (case ly_source l of
        Blob p \<Rightarrow>
          (let resolved = resolve_in (ls_spec_dir loaded) p in io_map_err (CliIo resolved) (fs_read resolved))
      | Files entries \<Rightarrow> io_return (join_text [CHR 0x0A] (map preview_entry entries)))"

definition preview_layer ::
  "('x fs_scheme, 'd, 'c, 'j) read_lib \<Rightarrow> loaded_spec \<Rightarrow> nat \<times> layer \<Rightarrow> (nat \<times> 'd) list \<Rightarrow>
   ('x fs_scheme, ('c, 'j) cli_error, (nat \<times> 'd) list) io" where
  "preview_layer lib loaded il digests =
     io_bind (preview_bytes loaded (snd il)) (\<lambda>bs. io_return (digests @ [(fst il, rd_hash lib bs)]))"

definition display_built_artifact_error :: "built_artifact_error \<Rightarrow> message" where
  "display_built_artifact_error e =
     (case e of
        LayerCountMismatch spec_layers provided \<Rightarrow>
          [Txt ''layer count mismatch: spec declares '', Txt (dec_of_nat spec_layers),
           Txt '' layers, build provided '', Txt (dec_of_nat provided), Txt '' digests'']
      | LayerOrderMismatch expected got \<Rightarrow>
          [Txt ''layer order mismatch: expected position '', Txt (dec_of_nat expected),
           Txt '', got '', Txt (dec_of_nat got)])"

definition sbom_spec ::
  "('x fs_scheme, 'd, 'c, 'j) read_lib \<Rightarrow> path \<Rightarrow> sbom_output_format \<Rightarrow>
   ('x fs_scheme, ('c, 'j) cli_error, bytes) io" where
  "sbom_spec lib spec_path fmt =
     io_bind (load_spec lib spec_path) (\<lambda>loaded.
     io_bind (hash_spec lib (ls_spec loaded)) (\<lambda>h.
     io_bind (io_fold (preview_layer lib loaded) (List.enumerate 0 (sp_layers (ls_spec loaded))) []) (\<lambda>layer_digests.
     io_bind (io_lift (map_err (\<lambda>e. Cli (Txt ''internal: BuiltArtifact construction rejected spec preview: '' #
         display_built_artifact_error e))
       (built_artifact_new h h layer_digests (ls_spec loaded) h))) (\<lambda>built.
     let scope = sb_scope (at_sbom (sp_attestation (ls_spec loaded))) in
     io_bind (io_map_err CliAttest (case fmt of
         FormatCycloneDx \<Rightarrow> emit_cyclonedx (rd_attest lib) built scope
       | FormatSpdx \<Rightarrow> emit_spdx (rd_attest lib) built scope)) (\<lambda>sbom.
     io_map_err (\<lambda>e. Cli (Txt ''internal: SBOM bytes not retrievable from MemCas: '' # rd_cas_text lib e))
       (rd_get lib (sm_blob_digest sbom)))))))"

definition names_sbom :: "string \<Rightarrow> bool" where
  "names_sbom t \<longleftrightarrow> contains_str t ''cyclonedx'' \<or> contains_str t ''spdx''"

text \<open>The digest of the first layer.\<close>

definition first_layer_digest :: "pub_descriptor \<Rightarrow> json \<Rightarrow> ('c, 'j) cli_error + string" where
  "first_layer_digest d v =
     and_then (ok_or (Cli [Txt ''referrer manifest '', Txt (pd_digest d), Txt '' has no layers[]''])
       (Option.bind (Option.bind (json_get ''layers'' v) json_as_array)
         (\<lambda>a. case a of [] \<Rightarrow> None | l # _ \<Rightarrow> Some l))) (\<lambda>l.
     ok_or (Cli [Txt ''referrer manifest '', Txt (pd_digest d), Txt '' layer[0] missing digest''])
       (Option.bind (json_get ''digest'' l) json_as_str))"

fun first_sbom ::
  "(bytes \<Rightarrow> message + json) \<Rightarrow> image_dir \<Rightarrow> pub_descriptor list \<Rightarrow>
   ('x fs_scheme, ('c, 'j) cli_error, bytes option) io" where
  "first_sbom parse im [] = io_return None"
| "first_sbom parse im (d # ds) =
     io_bind (referrer_value parse im d) (\<lambda>v.
     if \<not> names_sbom (shown_type [] v d) then first_sbom parse im ds
     else
       io_bind (io_lift (first_layer_digest d v)) (\<lambda>layer_digest.
       io_bind (read_for_cli im layer_digest) (\<lambda>bs. io_return (Some bs))))"

definition sbom_image ::
  "('x fs_scheme, 'd, 'c, 'j) read_lib \<Rightarrow> path \<Rightarrow> ('x fs_scheme, ('c, 'j) cli_error, bytes) io" where
  "sbom_image lib image_dir =
     io_bind (open_for_cli (rd_codecs lib) image_dir) (\<lambda>im.
     io_bind (first_sbom (rd_value lib) im (id_referrers (im_descriptor im))) (\<lambda>found.
     case found of
       Some bs \<Rightarrow> io_return bs
     | None \<Rightarrow> io_fail (Cli [Txt ''no SBOM referrer found in image dir '', Txt image_dir,
         Txt '' (was the build attested?)''])))"

definition sbom_command ::
  "('x fs_scheme, 'd, 'c, 'j) read_lib \<Rightarrow> path \<Rightarrow> sbom_output_format \<Rightarrow>
   ('x fs_scheme, ('c, 'j) cli_error, bytes) io" where
  "sbom_command lib input fmt =
     io_bind (is_image_dir input) (\<lambda>image.
     if image then sbom_image lib input else
     io_bind (fs_is_file input) (\<lambda>present.
     if present then sbom_spec lib input fmt
     else io_fail (not_an_input ''sbom'' input)))"

section \<open>What is there to print\<close>

definition value_at ::
  "(bytes \<Rightarrow> message + json) \<Rightarrow> path \<Rightarrow> nodes \<Rightarrow> pub_descriptor \<Rightarrow> json option" where
  "value_at parse path m d = Option.bind (blob_at path m (pd_digest d))
     (\<lambda>bs. case parse bs of Inr v \<Rightarrow> Some v | Inl _ \<Rightarrow> None)"

definition shown_image ::
  "image_codecs \<Rightarrow> (bytes \<Rightarrow> message + json) \<Rightarrow> path \<Rightarrow> nodes \<Rightarrow> inspect_output \<Rightarrow> bool" where
  "shown_image cod parse path m out \<longleftrightarrow>
     (\<exists>primary referrers vs. valid_image cod path m primary referrers \<and>
        those (map (value_at parse path m) (map fst referrers)) = Some vs \<and>
        out = InspectImage (pd_digest (fst primary)) (pd_digest (pm_config (snd primary)))
          (pd_media_type (pm_config (snd primary))) (map layer_info_of (pm_layers (snd primary)))
          (map2 referrer_info_of (map fst referrers) vs))"

definition layer_digest_of :: "json \<Rightarrow> string option" where
  "layer_digest_of v =
     Option.bind (Option.bind (json_get ''layers'' v) json_as_array) (\<lambda>a.
     case a of [] \<Rightarrow> None | l # _ \<Rightarrow> Option.bind (json_get ''digest'' l) json_as_str)"

text \<open>The bytes of the first referrer that names an SBOM; those before it are readable.\<close>

definition sbom_bytes_at ::
  "(bytes \<Rightarrow> message + json) \<Rightarrow> path \<Rightarrow> nodes \<Rightarrow> pub_descriptor list \<Rightarrow> bytes \<Rightarrow> bool" where
  "sbom_bytes_at parse path m ds bs \<longleftrightarrow>
     (\<exists>before d after v dg. ds = before @ d # after \<and>
        (\<forall>e \<in> set before. \<exists>w. value_at parse path m e = Some w \<and> \<not> names_sbom (shown_type [] w e)) \<and>
        value_at parse path m d = Some v \<and> names_sbom (shown_type [] v d) \<and>
        layer_digest_of v = Some dg \<and> blob_at path m dg = Some bs)"

lemma read_iff:
  assumes "fs_faults s = []"
  shows "fs_read p s = (Inr bs, t) \<longleftrightarrow> t = s \<and> look p (fs_nodes s) = Some (FileNode bs)"
  using assms unfolding fs_read_def fs_call_no_fault [OF reads_calls(1) assms]
  by (auto simp: call_read_def io_err_def split: option.splits fnode.splits)

text \<open>A run succeeds exactly when its parts do.\<close>

lemma succeeds_bind:
  "io_bind c f s = (Inr y, t) \<longleftrightarrow> (\<exists>x u. c s = (Inr x, u) \<and> f x u = (Inr y, t))"
  by (auto simp: io_bind_def split: prod.splits sum.splits)

lemma succeeds_map_err: "io_map_err g c s = (Inr y, t) \<longleftrightarrow> c s = (Inr y, t)"
  by (auto simp: io_map_err_def map_err_def split: prod.splits sum.splits)

lemma succeeds_lift: "io_lift (map_err g r) s = (Inr y, t) \<longleftrightarrow> r = Inr y \<and> t = s"
  by (auto simp: io_apply_simps map_err_def split: sum.splits)

lemmas succeeds = succeeds_bind succeeds_map_err succeeds_lift io_apply_simps

lemma read_for_cli_iff:
  assumes "fs_faults s = []"
  shows "read_for_cli im d s = (Inr bs, t) \<longleftrightarrow> t = s \<and> blob_at (im_root im) (fs_nodes s) d = Some bs"
  by (auto simp: read_for_cli_def blob_path_def blob_at_def succeeds read_iff [OF assms]
      split: sum.splits option.splits fnode.splits)

lemma value_at_iff:
  "value_at parse path m d = Some v \<longleftrightarrow> (\<exists>bs. blob_at path m (pd_digest d) = Some bs \<and> parse bs = Inr v)"
  by (cases "blob_at path m (pd_digest d)") (auto simp: value_at_def split: sum.splits)

lemma referrer_value_iff:
  assumes "fs_faults s = []"
  shows "referrer_value parse im d s = (Inr v, t) \<longleftrightarrow>
    t = s \<and> value_at parse (im_root im) (fs_nodes s) d = Some v"
  by (auto simp: referrer_value_def value_at_iff succeeds read_for_cli_iff [OF assms])

lemma inspect_referrer_iff:
  assumes "fs_faults s = []"
  shows "inspect_referrer parse im d infos s = (Inr out, t) \<longleftrightarrow>
    t = s \<and> (\<exists>v. value_at parse (im_root im) (fs_nodes s) d = Some v \<and> out = infos @ [referrer_info_of d v])"
  by (auto simp: inspect_referrer_def succeeds referrer_value_iff [OF assms])

lemma inspect_fold_iff:
  assumes "fs_faults s = []"
  shows "io_fold (inspect_referrer parse im) ds infos s = (Inr out, t) \<longleftrightarrow>
    t = s \<and> (\<exists>vs. those (map (value_at parse (im_root im) (fs_nodes s)) ds) = Some vs \<and>
      out = infos @ map2 referrer_info_of ds vs)"
proof (induction ds arbitrary: infos)
  case Nil
  then show ?case by (auto simp: io_apply_simps)
next
  case (Cons d ds)
  show ?case
    by (auto simp: succeeds inspect_referrer_iff [OF assms] Cons.IH split: option.splits)
qed

lemma open_for_cli_iff:
  assumes "fs_faults s = []"
  shows "open_for_cli cod path s = (Inr im, t) \<longleftrightarrow>
    t = s \<and> (\<exists>primary referrers. valid_image cod path (fs_nodes s) primary referrers \<and>
      im = image_of path primary referrers)"
  unfolding open_for_cli_def succeeds_map_err
  using run_open [OF assms] open_valid [OF assms] by metis

lemma image_of_simps [simp]:
  "im_root (image_of path p rs) = path"
  "id_primary_digest (im_descriptor (image_of path p rs)) = pd_digest (fst p)"
  "id_config (im_descriptor (image_of path p rs)) = pm_config (snd p)"
  "id_layers (im_descriptor (image_of path p rs)) = pm_layers (snd p)"
  "id_referrers (im_descriptor (image_of path p rs)) = map fst rs"
  by (simp_all add: image_of_def)

lemma opened_bind_iff:
  assumes "fs_faults s = []"
  shows "io_bind (open_for_cli cod path) f s = (Inr y, t) \<longleftrightarrow>
    (\<exists>primary referrers. valid_image cod path (fs_nodes s) primary referrers \<and>
      f (image_of path primary referrers) s = (Inr y, t))"
  unfolding succeeds_bind open_for_cli_iff [OF assms] by blast

lemma inspect_image_iff:
  assumes "fs_faults s = []"
  shows "inspect_image lib path s = (Inr out, t) \<longleftrightarrow>
    t = s \<and> shown_image (rd_codecs lib) (rd_value lib) path (fs_nodes s) out"
  unfolding inspect_image_def Let_def shown_image_def opened_bind_iff [OF assms]
  unfolding succeeds_bind image_of_simps
    inspect_fold_iff [OF assms, where im = "image_of path _ _", unfolded image_of_simps]
  by (simp add: io_apply_simps del: split_paired_Ex) blast

lemma first_layer_digest_iff: "first_layer_digest d v = Inr dg \<longleftrightarrow> layer_digest_of v = Some dg"
  by (cases "Option.bind (json_get ''layers'' v) json_as_array")
    (auto simp: first_layer_digest_def layer_digest_of_def ok_or_def and_then_def split: list.splits option.splits)

lemma sbom_bytes_Cons:
  "sbom_bytes_at parse path m (d # ds) bs \<longleftrightarrow>
     (\<exists>v. value_at parse path m d = Some v \<and>
        (if names_sbom (shown_type [] v d)
         then \<exists>dg. layer_digest_of v = Some dg \<and> blob_at path m dg = Some bs
         else sbom_bytes_at parse path m ds bs))"
  (is "_ \<longleftrightarrow> ?rhs")
proof
  assume "sbom_bytes_at parse path m (d # ds) bs"
  then obtain before e after v dg where split: "d # ds = before @ e # after"
    and skipped: "\<forall>x \<in> set before. \<exists>w. value_at parse path m x = Some w \<and> \<not> names_sbom (shown_type [] w x)"
    and e: "value_at parse path m e = Some v" "names_sbom (shown_type [] v e)"
      "layer_digest_of v = Some dg" "blob_at path m dg = Some bs"
    unfolding sbom_bytes_at_def by blast
  show ?rhs
  proof (cases before)
    case Nil
    with split e show ?thesis by auto
  next
    case (Cons b bf)
    with split skipped obtain w where "value_at parse path m d = Some w" "\<not> names_sbom (shown_type [] w d)"
      by auto
    moreover have "sbom_bytes_at parse path m ds bs"
      unfolding sbom_bytes_at_def using Cons split skipped e
      by (intro exI [of _ bf] exI [of _ e] exI [of _ after] exI [of _ v] exI [of _ dg]) auto
    ultimately show ?thesis by auto
  qed
next
  assume ?rhs
  then obtain v where v: "value_at parse path m d = Some v"
    and rest: "if names_sbom (shown_type [] v d)
         then \<exists>dg. layer_digest_of v = Some dg \<and> blob_at path m dg = Some bs
         else sbom_bytes_at parse path m ds bs" by blast
  show "sbom_bytes_at parse path m (d # ds) bs"
  proof (cases "names_sbom (shown_type [] v d)")
    case True
    with v rest obtain dg where "layer_digest_of v = Some dg" "blob_at path m dg = Some bs" by auto
    with v True show ?thesis
      unfolding sbom_bytes_at_def
      by (intro exI [of _ "[]"] exI [of _ d] exI [of _ ds] exI [of _ v] exI [of _ dg]) simp
  next
    case False
    with rest obtain before e after w dg where "ds = before @ e # after"
      "\<forall>x \<in> set before. \<exists>w. value_at parse path m x = Some w \<and> \<not> names_sbom (shown_type [] w x)"
      "value_at parse path m e = Some w" "names_sbom (shown_type [] w e)"
      "layer_digest_of w = Some dg" "blob_at path m dg = Some bs"
      unfolding sbom_bytes_at_def by auto
    with v False show ?thesis
      unfolding sbom_bytes_at_def
      by (intro exI [of _ "d # before"] exI [of _ e] exI [of _ after] exI [of _ w] exI [of _ dg]) simp
  qed
qed

lemma first_sbom_iff:
  assumes "fs_faults s = []"
  shows "first_sbom parse im ds s = (Inr (Some bs), t) \<longleftrightarrow>
    t = s \<and> sbom_bytes_at parse (im_root im) (fs_nodes s) ds bs"
proof (induction ds)
  case Nil
  then show ?case by (simp add: io_apply_simps sbom_bytes_at_def)
next
  case (Cons d ds)
  show ?case
    by (auto simp: succeeds referrer_value_iff [OF assms] sbom_bytes_Cons Cons.IH first_layer_digest_iff
        read_for_cli_iff [OF assms] split: if_split_asm)
qed

lemma sbom_image_iff:
  assumes "fs_faults s = []"
  shows "sbom_image lib path s = (Inr bs, t) \<longleftrightarrow>
    t = s \<and> (\<exists>primary referrers. valid_image (rd_codecs lib) path (fs_nodes s) primary referrers \<and>
      sbom_bytes_at (rd_value lib) path (fs_nodes s) (map fst referrers) bs)"
proof -
  have finish: "(case found of Some bs \<Rightarrow> io_return bs | None \<Rightarrow> io_fail e) u = (Inr bs, t) \<longleftrightarrow>
      found = Some bs \<and> t = u" for found e u
    by (auto simp: io_apply_simps split: option.splits)
  show ?thesis
    unfolding sbom_image_def opened_bind_iff [OF assms]
    unfolding succeeds_bind finish
    by (simp add: first_sbom_iff [OF assms] del: split_paired_Ex) blast
qed

section \<open>The preview of a specification\<close>

definition preview_content :: "nodes \<Rightarrow> loaded_spec \<Rightarrow> layer \<Rightarrow> bytes option" where
  "preview_content m loaded l =
     (case ly_source l of
        Blob p \<Rightarrow>
          (case look (resolve_in (ls_spec_dir loaded) p) m of Some (FileNode bs) \<Rightarrow> Some bs | _ \<Rightarrow> None)
      | Files entries \<Rightarrow> Some (join_text [CHR 0x0A] (map preview_entry entries)))"

definition preview_artifact :: "'d \<Rightarrow> 'd list \<Rightarrow> spec \<Rightarrow> 'd built_artifact" where
  "preview_artifact h ds sp =
     \<lparr>ba_manifest_digest = h, ba_config_digest = h, ba_layer_digests = List.enumerate 0 ds,
      ba_spec = sp, ba_spec_hash = h\<rparr>"

definition document_bytes ::
  "('s, 'd, 'c, 'j) attest_lib \<Rightarrow> sbom_output_format \<Rightarrow> 'd built_artifact \<Rightarrow> sbom_scope \<Rightarrow>
   ('c, 'j) attest_error + bytes" where
  "document_bytes lib fmt built scope =
     (case fmt of FormatCycloneDx \<Rightarrow> build_bom_bytes lib built scope | FormatSpdx \<Rightarrow> build_doc_bytes lib built scope)"

lemma order_kept: "order_mismatch (List.enumerate 0 ds) = None"
proof -
  have "fst p = fst (snd p)" if "p \<in> set (List.enumerate 0 (List.enumerate 0 ds))" for p
    using that by (auto simp: in_set_enumerate_eq nth_enumerate_eq dest: arg_cong [where f = fst])
  then have "find (\<lambda>(expected_idx, got_idx, _). expected_idx \<noteq> got_idx)
      (List.enumerate 0 (List.enumerate 0 ds)) = None"
    by (auto simp: find_None_iff)
  then show ?thesis unfolding order_mismatch_def by simp
qed

lemma artifact_accepted:
  "length ds = length (sp_layers sp) \<Longrightarrow>
   built_artifact_new a b (List.enumerate 0 ds) sp h =
     Inr \<lparr>ba_manifest_digest = a, ba_config_digest = b, ba_layer_digests = List.enumerate 0 ds,
          ba_spec = sp, ba_spec_hash = h\<rparr>"
  unfolding built_artifact_new_def order_kept by simp

lemma read_sound:
  "fs_read p s = (Inr bs, t) \<Longrightarrow> look p (fs_nodes s) = Some (FileNode bs) \<and> fs_nodes t = fs_nodes s"
  by (auto simp: fs_read_def fs_call_reads [OF reads_calls(1)] call_read_def io_err_def
      split: option.splits fnode.splits io_fault.splits)

lemma preview_bytes_sound:
  "preview_bytes loaded l s = (Inr bs, t) \<Longrightarrow>
   preview_content (fs_nodes s) loaded l = Some bs \<and> fs_nodes t = fs_nodes s"
  by (auto simp: preview_bytes_def preview_content_def Let_def succeeds
      split: layer_source.splits dest!: read_sound)

lemma preview_layer_iff:
  fixes lib :: "('x fs_scheme, 'd, 'c, 'j) read_lib"
  shows "preview_layer lib loaded (i, l) ds s = (Inr out, t) \<longleftrightarrow>
     (\<exists>bs. (preview_bytes loaded l :: (_, ('c, 'j) cli_error, _) io) s = (Inr bs, t) \<and>
        out = ds @ [(i, rd_hash lib bs)])"
  by (auto simp: preview_layer_def succeeds)

lemma preview_fold_sound:
  fixes lib :: "('x fs_scheme, 'd, 'c, 'j) read_lib"
  shows "io_fold (preview_layer lib loaded) (List.enumerate i ls) ds s = (Inr out, t) \<Longrightarrow>
   fs_nodes t = fs_nodes s \<and>
   (\<exists>contents. those (map (preview_content (fs_nodes s) loaded) ls) = Some contents \<and>
      out = ds @ List.enumerate i (map (rd_hash lib) contents))"
proof (induction ls arbitrary: i ds s)
  case Nil
  then show ?case by (auto simp: io_apply_simps)
next
  case (Cons l ls)
  from Cons.prems obtain bs u where
    l: "(preview_bytes loaded l :: (_, ('c, 'j) cli_error, _) io) s = (Inr bs, u)"
    and rest: "io_fold (preview_layer lib loaded) (List.enumerate (Suc i) ls) (ds @ [(i, rd_hash lib bs)]) u = (Inr out, t)"
    by (auto simp: succeeds preview_layer_iff)
  from Cons.IH [OF rest] preview_bytes_sound [OF l] show ?case by auto
qed

lemma enumerated_length:
  assumes "those (map f xs) = Some ys"
  shows "length ys = length xs"
  using assms by (induction xs arbitrary: ys) (auto split: option.splits)

text \<open>The content store gives back what was put.\<close>

definition remembers :: "('s, 'd, 'c, 'j) read_lib \<Rightarrow> bool" where
  "remembers lib \<longleftrightarrow>
     (\<forall>bs d s t bs' u. al_put (rd_attest lib) bs s = (Inr d, t) \<longrightarrow> rd_get lib d t = (Inr bs', u) \<longrightarrow> bs' = bs)"

lemma emitted:
  assumes "(case fmt of FormatCycloneDx \<Rightarrow> emit_cyclonedx al built scope
      | FormatSpdx \<Rightarrow> emit_spdx al built scope) s = (Inr sbom, t)"
  obtains bs u where "document_bytes al fmt built scope = Inr bs" "al_put al bs u = (Inr (sm_blob_digest sbom), t)"
  using assms
  by (cases fmt) (auto simp: emit_cyclonedx_def emit_spdx_def document_bytes_def succeeds)

lemma sbom_spec_sound:
  assumes "(sbom_spec lib p fmt :: (_, ('c, 'j) cli_error, _) io) s = (Inr bs, t)" and "remembers lib"
  obtains loaded h contents where "ls_spec_dir loaded = spec_dir_for p" "spec_wf (ls_spec loaded)"
    "spec_hash (rd_jcs lib) (rd_hash lib) (ls_spec loaded) = (Inr h :: ('j, 'c) canonicalization_error + _)"
    "those (map (preview_content (fs_nodes s) loaded) (sp_layers (ls_spec loaded))) = Some contents"
    "document_bytes (rd_attest lib) fmt
       (preview_artifact h (map (rd_hash lib) contents) (ls_spec loaded))
       (sb_scope (at_sbom (sp_attestation (ls_spec loaded)))) = Inr bs"
proof -
  from assms(1) obtain loaded s1 h digests s2 built sbom s3 where
    load: "parse_and_validate (rd_toml lib) p s = (Inr loaded, s1)"
    and h: "spec_hash (rd_jcs lib) (rd_hash lib) (ls_spec loaded) = (Inr h :: ('j, 'c) canonicalization_error + _)"
    and layers: "(io_fold (preview_layer lib loaded) (List.enumerate 0 (sp_layers (ls_spec loaded))) [] ::
        (_, ('c, 'j) cli_error, _) io) s1 = (Inr digests, s2)"
    and built: "built_artifact_new h h digests (ls_spec loaded) h = Inr built"
    and sbom: "(case fmt of FormatCycloneDx \<Rightarrow> emit_cyclonedx (rd_attest lib) built (sb_scope (at_sbom (sp_attestation (ls_spec loaded))))
      | FormatSpdx \<Rightarrow> emit_spdx (rd_attest lib) built (sb_scope (at_sbom (sp_attestation (ls_spec loaded))))) s2 = (Inr sbom, s3)"
    and got: "rd_get lib (sm_blob_digest sbom) s3 = (Inr bs, t)"
    by (auto simp: sbom_spec_def load_spec_def hash_spec_def Let_def succeeds)
  from triple_InrD [OF triple_load [of "fs_nodes s" "fs_seen s"] _ load]
  have s1: "fs_nodes s1 = fs_nodes s" and wf: "ls_spec_dir loaded = spec_dir_for p" "spec_wf (ls_spec loaded)"
    by (auto simp: still_def)
  from preview_fold_sound [OF layers] s1 obtain contents where
    contents: "those (map (preview_content (fs_nodes s) loaded) (sp_layers (ls_spec loaded))) = Some contents"
    and digests: "digests = List.enumerate 0 (map (rd_hash lib) contents)" by auto
  have "length (map (rd_hash lib) contents) = length (sp_layers (ls_spec loaded))"
    using enumerated_length [OF contents] by simp
  with built digests have "built = preview_artifact h (map (rd_hash lib) contents) (ls_spec loaded)"
    by (simp add: artifact_accepted preview_artifact_def)
  moreover obtain bs' u where "document_bytes (rd_attest lib) fmt built (sb_scope (at_sbom (sp_attestation (ls_spec loaded)))) = Inr bs'"
    "al_put (rd_attest lib) bs' u = (Inr (sm_blob_digest sbom), s3)"
    by (rule emitted [OF sbom])
  moreover from this(2) got assms(2) have "bs' = bs" unfolding remembers_def by blast
  ultimately show thesis using that [OF wf h contents] by simp
qed

section \<open>Properties\<close>

definition image_at :: "path \<Rightarrow> nodes \<Rightarrow> bool" where
  "image_at p m \<longleftrightarrow> look p m = Some DirNode \<and> is_file_node (look (path_join p ''oci-layout'') m)"

lemma is_image_dir_run:
  assumes "fs_faults s = []"
  shows "is_image_dir p s = (Inr (image_at p (fs_nodes s)), s)"
  by (auto simp: is_image_dir_def image_at_def fs_is_dir_def fs_is_file_def fs_query_def
      fs_call_no_fault [OF reads_calls(4) assms] fs_call_no_fault [OF reads_calls(5) assms]
      call_is_dir_def call_is_file_def io_err_def io_bind_apply io_apply_simps
      split: option.splits fnode.splits)

lemma spec_shows_no_image: "inspect_spec lib p s \<noteq> (Inr (InspectImage d c ct ls rs), t)"
  by (auto simp: inspect_spec_def succeeds)

text \<open>
  Without faults, \<open>inspect\<close> prints an image exactly when the directory is a valid image whose
  referrers can be read, and then prints what the documents on disk say: the digests of the
  manifest and of the configuration, each layer, and each referrer with its type, in the order
  of the index.
\<close>

theorem inspect_image_exact:
  assumes "fs_faults s = []"
  shows "inspect_command lib p s = (Inr (InspectImage d c ct ls rs), t) \<longleftrightarrow>
    t = s \<and> image_at p (fs_nodes s) \<and>
    shown_image (rd_codecs lib) (rd_value lib) p (fs_nodes s) (InspectImage d c ct ls rs)"
proof (cases "image_at p (fs_nodes s)")
  case True
  then show ?thesis
    by (simp add: inspect_command_def io_bind_apply is_image_dir_run [OF assms] inspect_image_iff [OF assms])
next
  case False
  then show ?thesis
    by (auto simp: inspect_command_def io_bind_apply is_image_dir_run [OF assms] spec_shows_no_image io_apply_simps
        elim!: io_bind_InrE split: if_splits)
qed

text \<open>
  C36: without faults, \<open>sbom\<close> prints, for an image directory, the document of the first referrer
  whose type names an SBOM, and only when the image is valid and the referrers before it can be
  read. The format asked for plays no part.
\<close>

theorem sbom_image_exact:
  assumes "fs_faults s = []" and "image_at p (fs_nodes s)"
  shows "sbom_command lib p fmt s = (Inr bs, t) \<longleftrightarrow>
    t = s \<and> (\<exists>primary referrers. valid_image (rd_codecs lib) p (fs_nodes s) primary referrers \<and>
      sbom_bytes_at (rd_value lib) p (fs_nodes s) (map fst referrers) bs)"
  using assms(2)
  by (simp add: sbom_command_def io_bind_apply is_image_dir_run [OF assms(1)] sbom_image_iff [OF assms(1)])

text \<open>
  The preview of a specification is the document of the emitter for the artifact whose
  layers are the sources on disk, in order: whatever faults occur, the bytes printed are that
  document, and neither the construction of the artifact nor the store in memory gets in the way.
\<close>

theorem sbom_preview_sound:
  assumes "(sbom_spec lib p fmt :: (_, ('c, 'j) cli_error, _) io) s = (Inr bs, t)" and "remembers lib"
  shows "\<exists>loaded h contents. ls_spec_dir loaded = spec_dir_for p \<and> spec_wf (ls_spec loaded) \<and>
    spec_hash (rd_jcs lib) (rd_hash lib) (ls_spec loaded) = (Inr h :: ('j, 'c) canonicalization_error + _) \<and>
    those (map (preview_content (fs_nodes s) loaded) (sp_layers (ls_spec loaded))) = Some contents \<and>
    document_bytes (rd_attest lib) fmt
      (preview_artifact h (map (rd_hash lib) contents) (ls_spec loaded))
      (sb_scope (at_sbom (sp_attestation (ls_spec loaded)))) = Inr bs"
  by (rule sbom_spec_sound [OF assms]) blast

definition sample_referrer_doc :: json where
  "sample_referrer_doc = json_map
     [(''artifactType'', JString ''application/vnd.cyclonedx+json''),
      (''layers'', JArray [json_map [(''digest'', JString (sample_digest (CHR ''e'')))]])]"

definition sample_read_lib :: "(fs, bytes, unit, unit) read_lib" where
  "sample_read_lib =
     \<lparr>rd_toml = (\<lambda>_. Inr (sample_raw [sample_layer ''a/x+gzip''])), rd_jcs = (\<lambda>_. Inr ''c''), rd_hash = id,
      rd_attest = \<lparr>al_digest = \<lparr>dg_algorithm = (\<lambda>_. ''sha256''), dg_hex = id, dg_text = id\<rparr>,
        al_put = io_return, al_to_vec = (\<lambda>_. Inr ''doc'')\<rparr>,
      rd_get = io_return, rd_cas_text = (\<lambda>_. []), rd_codecs = sample_codecs,
      rd_value = (\<lambda>b. if b = ''R'' then Inr sample_referrer_doc else Inl [Txt ''no document''])\<rparr>"

lemma sample_commands_ok:
  "is_ok (fst (inspect_command sample_read_lib ''/img'' sample_image_fs))"
  "is_ok (fst (sbom_command sample_read_lib ''/img'' FormatSpdx sample_image_fs))"
  by code_simp+

lemma sample_preview_ok: "is_ok (fst (sbom_spec sample_read_lib ''/d/spec.toml'' FormatSpdx sample_fs))"
  by code_simp

lemma sample_image_at: "image_at ''/img'' (fs_nodes sample_image_fs)"
  by code_simp

lemma sample_image_faultless: "fs_faults sample_image_fs = []"
  by (simp add: sample_image_fs_def)

theorem inspect_image_exact_witness:
  "\<exists>d c ct ls rs. shown_image sample_codecs (rd_value sample_read_lib) ''/img'' (fs_nodes sample_image_fs)
     (InspectImage d c ct ls rs)"
proof -
  obtain out t where run: "inspect_command sample_read_lib ''/img'' sample_image_fs = (Inr out, t)"
    using sample_commands_ok(1) by (metis is_ok_iff prod.collapse)
  then have "inspect_image sample_read_lib ''/img'' sample_image_fs = (Inr out, t)"
    using sample_image_at by (simp add: inspect_command_def io_bind_apply is_image_dir_run sample_image_faultless)
  then obtain d c ct ls rs where "out = InspectImage d c ct ls rs"
    by (auto simp: inspect_image_def Let_def succeeds)
  moreover have "rd_codecs sample_read_lib = sample_codecs" by (simp add: sample_read_lib_def)
  ultimately have "shown_image sample_codecs (rd_value sample_read_lib) ''/img'' (fs_nodes sample_image_fs)
      (InspectImage d c ct ls rs)"
    using run inspect_image_exact [OF sample_image_faultless, of sample_read_lib "''/img''" d c ct ls rs t] by simp
  then show ?thesis by blast
qed

theorem sbom_image_exact_witness:
  "\<exists>primary referrers bs. valid_image sample_codecs ''/img'' (fs_nodes sample_image_fs) primary referrers \<and>
     sbom_bytes_at (rd_value sample_read_lib) ''/img'' (fs_nodes sample_image_fs) (map fst referrers) bs"
proof -
  obtain out t where run: "sbom_command sample_read_lib ''/img'' FormatSpdx sample_image_fs = (Inr out, t)"
    using sample_commands_ok(2) by (metis is_ok_iff prod.collapse)
  moreover have "rd_codecs sample_read_lib = sample_codecs" by (simp add: sample_read_lib_def)
  ultimately show ?thesis
    using sbom_image_exact [OF sample_image_faultless sample_image_at, of sample_read_lib FormatSpdx out t] by auto
qed

theorem sbom_preview_sound_witness:
  "\<exists>loaded h contents.
     those (map (preview_content (fs_nodes sample_fs) loaded) (sp_layers (ls_spec loaded))) = Some contents \<and>
     document_bytes (rd_attest sample_read_lib) FormatSpdx
       (preview_artifact h (map id contents) (ls_spec loaded))
       (sb_scope (at_sbom (sp_attestation (ls_spec loaded)))) = Inr ''doc''"
proof -
  obtain bs t where run: "sbom_spec sample_read_lib ''/d/spec.toml'' FormatSpdx sample_fs = (Inr bs, t)"
    using sample_preview_ok by (metis is_ok_iff prod.collapse)
  have "remembers sample_read_lib" by (auto simp: remembers_def sample_read_lib_def io_apply_simps)
  from sbom_preview_sound [OF run this] obtain loaded h contents where
    "those (map (preview_content (fs_nodes sample_fs) loaded) (sp_layers (ls_spec loaded))) = Some contents"
    and doc: "document_bytes (rd_attest sample_read_lib) FormatSpdx
      (preview_artifact h (map id contents) (ls_spec loaded))
      (sb_scope (at_sbom (sp_attestation (ls_spec loaded)))) = Inr bs"
    by (auto simp: sample_read_lib_def)
  moreover from doc have "bs = ''doc''"
    by (simp add: document_bytes_def build_doc_bytes_def sample_read_lib_def)
  ultimately show ?thesis by blast
qed

end
