(* ===== verification/Tar_Builder.thy ===== *)
theory Tar_Builder
  imports Spec_Rules
begin

text \<open>
  \<open>core/tar_builder.rs\<close> of the crate \<open>build\<close>: the deterministic tar of a layer's file list.
  The \<open>tar\<close> crate is a parameter: an empty builder, \<open>append_data\<close> of a header, a path
  and the data (what reading the source to its end gave), and \<open>finish\<close>.
\<close>

section \<open>The tar crate\<close>

datatype entry_type = EntryDirectory | EntryRegular

text \<open>The fields the code sets on a \<open>Header::new_ustar()\<close>.\<close>

record tar_header =
  th_size :: nat
  th_mode :: "32 word"
  th_uid :: nat
  th_gid :: nat
  th_mtime :: nat
  th_entry_type :: entry_type

record 'b tar_lib =
  tar_new :: 'b
  tar_append_data :: "tar_header \<Rightarrow> string \<Rightarrow> io_error + bytes \<Rightarrow> 'b \<Rightarrow> io_error + 'b"
  tar_finish :: "'b \<Rightarrow> io_error + bytes"

section \<open>The code\<close>

datatype flat_entry = FlatDir "32 word" | FlatFile "32 word" path

definition tar_resolve :: "path \<Rightarrow> path \<Rightarrow> path" where
  "tar_resolve spec_dir p = (if path_is_absolute p then p else path_join spec_dir p)"

definition normalise_dest :: "string \<Rightarrow> string" where
  "normalise_dest dest =
     replace_char (CHR 0x5C) (CHR ''/'') (trim_start_matches (CHR ''/'') dest)"

definition dir_dest_of :: "string \<Rightarrow> string" where
  "dir_dest_of dest = (if ends_with dest ''/'' then trim_end_matches (CHR ''/'') dest else dest)"

definition invalid_input :: "fmt list \<Rightarrow> io_error" where
  "invalid_input msg = IoError InvalidInput msg"

text \<open>
  \<open>flatten_entry\<close> recurses as deep as the directory tree; the first argument bounds the
  depth. The children are sorted by name; the loop over them stops at the first error.
\<close>

fun flatten_entry ::
  "nat \<Rightarrow> path \<Rightarrow> string \<Rightarrow> 32 word \<Rightarrow> flat_entry btree \<Rightarrow>
   ('x fs_scheme, io_error, flat_entry btree) io" where
  "flatten_entry 0 source dest mode out = io_fail (IoError OutOfFuel [])"
| "flatten_entry (Suc n) source dest mode out =
     io_bind (fs_metadata source) (\<lambda>metadata.
       case metadata of
         FileNode _ \<Rightarrow>
           io_return (bt_insert (trim_end_matches (CHR ''/'') dest) (FlatFile mode source) out)
       | DirNode \<Rightarrow>
           io_bind (fs_read_dir source) (\<lambda>names.
             io_fold (\<lambda>name out.
                 if name = ''..'' then
                   io_fail (invalid_input [Txt ''child of '', Txt source, Txt '' has no filename''])
                 else if \<not> valid_utf8 name then
                   io_fail (invalid_input [Txt ''non-UTF8 filename under '', Txt source,
                     Txt '' cannot land in a tar layer''])
                 else flatten_entry n (path_join source name)
                        (dir_dest_of dest @ ''/'' @ name) mode out)
               (sort names) (bt_insert (dir_dest_of dest) (FlatDir mode) out))
       | SpecialNode \<Rightarrow>
           io_fail (invalid_input [Txt ''tar source '', Txt source,
             Txt '' is neither a regular file nor a directory (symlinks / devices not supported in v0 layers)'']))"

definition flatten_all ::
  "nat \<Rightarrow> layer_file list \<Rightarrow> path \<Rightarrow> ('x fs_scheme, io_error, flat_entry btree) io" where
  "flatten_all n entries spec_dir =
     io_fold (\<lambda>entry flat.
         flatten_entry n (tar_resolve spec_dir (lf_source entry)) (normalise_dest (lf_dest entry))
           (lf_mode entry) flat)
       entries []"

definition dir_header :: "32 word \<Rightarrow> tar_header" where
  "dir_header mode =
     \<lparr>th_size = 0, th_mode = mode, th_uid = 0, th_gid = 0, th_mtime = 0,
      th_entry_type = EntryDirectory\<rparr>"

definition file_header :: "nat \<Rightarrow> 32 word \<Rightarrow> tar_header" where
  "file_header len mode =
     \<lparr>th_size = len, th_mode = mode, th_uid = 0, th_gid = 0, th_mtime = 0,
      th_entry_type = EntryRegular\<rparr>"

definition dir_tar_path :: "string \<Rightarrow> string" where
  "dir_tar_path tar_path = (if ends_with tar_path ''/'' then tar_path else tar_path @ ''/'')"

definition append_entry ::
  "'b tar_lib \<Rightarrow> string \<times> flat_entry \<Rightarrow> 'b \<Rightarrow> ('x fs_scheme, io_error, 'b) io" where
  "append_entry lib e builder =
     (case e of (tar_path, fe) \<Rightarrow>
        (case fe of
           FlatDir mode \<Rightarrow>
             io_lift (tar_append_data lib (dir_header mode) (dir_tar_path tar_path) (Inr []) builder)
         | FlatFile mode source \<Rightarrow>
             io_bind (fs_metadata source) (\<lambda>metadata.
               case metadata of
                 FileNode content \<Rightarrow>
                   io_bind (fs_open source) (\<lambda>_.
                   io_bind (io_try (fs_read source)) (\<lambda>data.
                   io_lift (tar_append_data lib (file_header (length content) mode) tar_path data
                     builder)))
               | _ \<Rightarrow> io_fail (invalid_input [Txt ''tar source '', Txt source,
                         Txt '' is not a regular file'']))))"

definition build_deterministic_tar ::
  "'b tar_lib \<Rightarrow> nat \<Rightarrow> layer_file list \<Rightarrow> path \<Rightarrow> ('x fs_scheme, io_error, bytes) io" where
  "build_deterministic_tar lib n entries spec_dir =
     io_bind (flatten_all n entries spec_dir) (\<lambda>flat.
     io_bind (io_fold (append_entry lib) flat (tar_new lib)) (\<lambda>builder.
     io_lift (tar_finish lib builder)))"

section \<open>Independence of the listing order\<close>

lemma order_free_flatten: "order_free (flatten_entry n source dest mode out)"
proof (induction n arbitrary: source dest mode out)
  case 0
  then show ?case by simp
next
  case (Suc n)
  show ?case
    unfolding flatten_entry.simps
    by (rule order_free_bind)
      (auto split: fnode.split intro!: order_free_sorted_read_dir order_free_fold simp: Suc.IH)
qed

lemma order_free_append: "order_free (append_entry lib e b)"
  unfolding append_entry_def
  by (auto split: prod.split flat_entry.split fnode.split intro!: order_free_bind order_free_try)

lemma order_free_build: "order_free (build_deterministic_tar lib n entries d)"
  unfolding build_deterministic_tar_def flatten_all_def
  by (intro order_free_bind order_free_fold order_free_flatten order_free_append order_free_simps)

section \<open>The bound on the recursion\<close>

text \<open>No node lies more than \<open>n\<close> levels below \<open>k\<close>.\<close>

definition depth_le :: "nodes \<Rightarrow> fkey \<Rightarrow> nat \<Rightarrow> bool" where
  "depth_le m k n \<longleftrightarrow> (\<forall>ns. m (k @ ns) \<noteq> None \<longrightarrow> length ns \<le> n)"

lemma depth_le_child: "depth_le m k (Suc n) \<Longrightarrow> depth_le m (k @ [x]) n"
  unfolding depth_le_def by (metis Suc_le_mono append_Cons append_Nil append_assoc length_Cons)

lemma depth_le_0: "depth_le m k 0 \<Longrightarrow> m (k @ [x]) = None"
  unfolding depth_le_def by (metis length_Cons list.size(3) not_less_eq_eq order_refl)

lemma fold_cong_keeps:
  assumes "\<And>x b t. x \<in> set xs \<Longrightarrow> I t \<Longrightarrow> f x b t = g x b t"
    and "\<And>x b. keeps I (f x b)" and "I s"
  shows "io_fold f xs b s = io_fold g xs b s"
  using assms(1,3)
proof (induction xs arbitrary: b s)
  case Nil
  then show ?case by simp
next
  case (Cons x xs)
  have step: "f x b s = g x b s" using Cons.prems by simp
  show ?case
  proof (cases "f x b s")
    case (Pair r t)
    then have "I t"
      using assms(2) [of x b] Cons.prems(2) unfolding keeps_def by (metis snd_conv)
    then show ?thesis
      using Pair step Cons.IH [of t] Cons.prems(1) by (cases r) (simp_all add: io_bind_def)
  qed
qed

lemma keeps_still_reads:
  "keeps (still m h) (fs_metadata p)" "keeps (still m h) (fs_read p)"
  "keeps (still m h) (fs_read_dir p)" "keeps (still m h) (fs_open p)"
  by (simp_all add: keeps_def fs_metadata_def fs_read_def fs_read_dir_def fs_open_def
      fs_call_reads still_def io_bind_def io_return_def split: prod.split sum.split)

lemma keeps_still_flatten: "keeps (still m h) (flatten_entry n source dest mode out)"
proof (induction n arbitrary: source dest mode out)
  case 0
  then show ?case by simp
next
  case (Suc n)
  show ?case
    unfolding flatten_entry.simps
    by (rule keeps_bind [OF keeps_still_reads(1)])
      (auto split: fnode.split intro!: keeps_bind keeps_fold keeps_still_reads simp: Suc.IH)
qed

lemma read_dir_names:
  assumes "fs_read_dir p s = (Inr names, t)"
  shows "t = s\<lparr>fs_faults := tl (fs_faults s)\<rparr>" and "p \<noteq> []"
    and "names = dir_entries (fs_order s) (fs_key p) (fs_nodes s)"
  using assms
  by (auto simp: fs_read_dir_def fs_call_reads call_read_dir_def io_err_def look_def
      split: option.splits io_fault.splits fnode.splits if_splits)

lemma metadata_nodes: "fs_metadata p s = (r, t) \<Longrightarrow> fs_nodes t = fs_nodes s"
  by (auto simp: fs_metadata_def fs_call_reads)

lemma keeps_nodes_flatten: "keeps (\<lambda>s. fs_nodes s = m) (flatten_entry n source dest mode out)"
  unfolding keeps_def
proof (intro allI impI)
  fix s :: "'a fs_scheme"
  assume "fs_nodes s = m"
  then show "fs_nodes (snd (flatten_entry n source dest mode out s)) = m"
    using keeps_still_flatten [of m "fs_seen s" n source dest mode out]
    unfolding keeps_def still_def by blast
qed

declare flatten_entry.simps [simp del]

lemma flatten_fuel:
  fixes s :: "'x fs_scheme"
  assumes "depth_le (fs_nodes s) (fs_key source) n"
  shows "flatten_entry (Suc n + k) source dest mode out s = flatten_entry (Suc n) source dest mode out s"
  using assms
proof (induction n arbitrary: source dest out s)
  case 0
  show ?case
  proof (cases "fs_metadata source s")
    case (Pair r t)
    have t: "fs_nodes t = fs_nodes s"
      using Pair by (rule metadata_nodes)
    have "fs_read_dir source t = (Inr names, u) \<Longrightarrow> names = []" for names u
      using read_dir_names(3) [of source t names u] t
      by (simp add: dir_entries_def filter_empty_conv depth_le_0 [OF 0])
    with Pair show ?thesis
      unfolding add_Suc flatten_entry.simps(2) [of "0 + k"] flatten_entry.simps(2) [of 0]
      by (cases r; cases "fs_read_dir source t"; cases "fst (fs_read_dir source t)")
        (auto simp: io_bind_def split: fnode.split)
  qed
next
  case (Suc n)
  let ?F = "\<lambda>j name out. if name = ''..'' then
        io_fail (invalid_input [Txt ''child of '', Txt source, Txt '' has no filename''])
      else if \<not> valid_utf8 name then
        io_fail (invalid_input [Txt ''non-UTF8 filename under '', Txt source,
          Txt '' cannot land in a tar layer''])
      else flatten_entry j (path_join source name) (dir_dest_of dest @ ''/'' @ name) mode out"
  show ?case
  proof (cases "fs_metadata source s")
    case (Pair r t)
    have t: "fs_nodes t = fs_nodes s"
      using Pair by (rule metadata_nodes)
    have loop: "io_fold (?F (Suc n + k)) (sort names) b u = io_fold (?F (Suc n)) (sort names) b u"
      if "fs_read_dir source t = (Inr names, u)" for names b and u :: "'x fs_scheme"
    proof (rule fold_cong_keeps [where I = "\<lambda>s'. fs_nodes s' = fs_nodes s"])
      show "fs_nodes u = fs_nodes s" using read_dir_names(1) [OF that] t by simp
      show "keeps (\<lambda>s'. fs_nodes s' = fs_nodes s) (?F (Suc n + k) x b)" for x b
        by (intro keeps_if keeps_simps keeps_nodes_flatten)
      show "?F (Suc n + k) x b v = ?F (Suc n) x b v"
        if "x \<in> set (sort names)" "fs_nodes v = fs_nodes s" for x b and v :: "'x fs_scheme"
      proof -
        have "plain_name x"
          using that(1) read_dir_names(3) [OF \<open>fs_read_dir source t = (Inr names, u)\<close>]
          by (simp add: dir_entries_def)
        then have "depth_le (fs_nodes v) (fs_key (path_join source x)) n"
          using Suc.prems that(2) by (simp add: fs_key_join_plain depth_le_child)
        then show ?thesis
          using Suc.IH [of v "path_join source x"] by simp
      qed
    qed
    show ?thesis
      unfolding add_Suc [of "Suc n" k] flatten_entry.simps(2) [of "Suc n + k"] flatten_entry.simps(2) [of "Suc n"]
      using Pair loop
      by (cases r; cases "fs_read_dir source t"; cases "fst (fs_read_dir source t)")
        (auto simp: io_bind_def split: fnode.split)
  qed
qed

section \<open>What an entry adds\<close>

text \<open>
  \<open>inserts f s r t\<close>: run at \<open>s\<close>, the code \<open>f\<close> ends in \<open>t\<close> and adds the insertions \<open>r\<close>
  to whatever map it was given (or fails, whatever that map was).
\<close>

definition bt_add :: "(string \<times> 'v) list \<Rightarrow> 'v btree \<Rightarrow> 'v btree" where
  "bt_add ins out = fold (\<lambda>(k, v). bt_insert k v) ins out"

definition inserts ::
  "('v btree \<Rightarrow> ('s, 'e, 'v btree) io) \<Rightarrow> 's \<Rightarrow> 'e + (string \<times> 'v) list \<Rightarrow> 's \<Rightarrow> bool" where
  "inserts f s r t \<longleftrightarrow>
     (\<forall>out. f out s = (case r of Inl e \<Rightarrow> (Inl e, t) | Inr ins \<Rightarrow> (Inr (bt_add ins out), t)))"

lemma inserts_fold:
  assumes "\<And>x s. x \<in> set xs \<Longrightarrow> \<exists>r t. inserts (f x) s r t"
  shows "\<exists>r t. inserts (io_fold f xs) s r t"
  using assms
proof (induction xs arbitrary: s)
  case Nil
  have "inserts (io_fold f []) s (Inr []) s"
    by (simp add: inserts_def io_return_def bt_add_def)
  then show ?case by blast
next
  case (Cons x xs)
  obtain r t where x: "inserts (f x) s r t"
    using Cons.prems by (meson list.set_intros(1))
  show ?case
  proof (cases r)
    case (Inl e)
    with x have "inserts (io_fold f (x # xs)) s (Inl e) t"
      by (simp add: inserts_def io_bind_def)
    then show ?thesis by blast
  next
    case (Inr ins)
    obtain r' t' where xs: "inserts (io_fold f xs) t r' t'"
      using Cons.IH Cons.prems by (meson list.set_intros(2))
    have "inserts (io_fold f (x # xs)) s
        (case r' of Inl e \<Rightarrow> Inl e | Inr ins' \<Rightarrow> Inr (ins @ ins')) t'"
      using x xs Inr by (auto simp: inserts_def io_bind_def bt_add_def split: sum.split)
    then show ?thesis by blast
  qed
qed

lemma inserts_fail: "inserts (\<lambda>_. io_fail e) s (Inl e) s"
  by (simp add: inserts_def io_fail_def)

lemma flatten_inserts:
  fixes s :: "'x fs_scheme"
  shows "\<exists>r t. inserts (flatten_entry n source dest mode) s r t"
proof (induction n arbitrary: source dest s)
  case 0
  have "inserts (flatten_entry 0 source dest mode) s (Inl (IoError OutOfFuel [])) s"
    by (simp add: inserts_def flatten_entry.simps(1) io_fail_def)
  then show ?case by blast
next
  case (Suc n)
  let ?F = "\<lambda>name out. if name = ''..'' then
        io_fail (invalid_input [Txt ''child of '', Txt source, Txt '' has no filename''])
      else if \<not> valid_utf8 name then
        io_fail (invalid_input [Txt ''non-UTF8 filename under '', Txt source,
          Txt '' cannot land in a tar layer''])
      else flatten_entry n (path_join source name) (dir_dest_of dest @ ''/'' @ name) mode out"
  have loop: "\<exists>r t. inserts (io_fold ?F names) u r t" for names and u :: "'x fs_scheme"
  proof (rule inserts_fold)
    show "\<exists>r t. inserts (?F x) v r t" for x and v :: "'x fs_scheme"
      using Suc.IH [of "path_join source x" "dir_dest_of dest @ ''/'' @ x" v]
      by (cases "x = ''..''"; cases "valid_utf8 x") (auto intro: inserts_fail)
  qed
  have once: "inserts (flatten_entry (Suc n) source dest mode) s r t"
    if "\<And>out. flatten_entry (Suc n) source dest mode out s =
          (case r of Inl e \<Rightarrow> (Inl e, t) | Inr ins \<Rightarrow> (Inr (bt_add ins out), t))" for r t
    using that by (simp add: inserts_def)
  obtain md t where md: "fs_metadata source s = (md, t)" by (cases "fs_metadata source s")
  consider (fails) e where "md = Inl e" | (isfile) c where "md = Inr (FileNode c)"
    | (isdir) "md = Inr DirNode" | (special) "md = Inr SpecialNode"
    by (metis fnode.exhaust sum.exhaust)
  then show ?case
  proof cases
    case fails
    then show ?thesis
      by (intro exI [of _ "Inl e"] exI [of _ t] once)
        (simp add: flatten_entry.simps(2) io_bind_def md)
  next
    case isfile
    then show ?thesis
      by (intro exI [of _ "Inr [(trim_end_matches (CHR ''/'') dest, FlatFile mode source)]"]
          exI [of _ t] once)
        (simp add: flatten_entry.simps(2) io_bind_def md io_return_def bt_add_def)
  next
    case special
    then show ?thesis
      by (intro exI [of _ "Inl (invalid_input [Txt ''tar source '', Txt source,
             Txt '' is neither a regular file nor a directory (symlinks / devices not supported in v0 layers)''])"]
          exI [of _ t] once)
        (simp add: flatten_entry.simps(2) io_bind_def md io_fail_def)
  next
    case isdir
    obtain rd u where rd: "fs_read_dir source t = (rd, u)" by (cases "fs_read_dir source t")
    show ?thesis
    proof (cases rd)
      case (Inl e)
      then show ?thesis
        by (intro exI [of _ "Inl e"] exI [of _ u] once)
          (simp add: flatten_entry.simps(2) io_bind_def md isdir rd)
    next
      case (Inr names)
      obtain r v where r: "inserts (io_fold ?F (sort names)) u r v" using loop by blast
      let ?d = "(dir_dest_of dest, FlatDir mode)"
      show ?thesis
        by (intro exI [of _ "case r of Inl e \<Rightarrow> Inl e | Inr ins \<Rightarrow> Inr (?d # ins)"] exI [of _ v] once)
          (use r in \<open>auto simp: flatten_entry.simps(2) io_bind_def md isdir rd Inr inserts_def
            bt_add_def split: sum.split\<close>)
    qed
  qed
qed

lemma map_of_bt_add: "map_of (bt_add ins out) = map_of out ++ map_of (rev ins)"
  by (simp add: bt_add_def map_of_bt_fold)

text \<open>So flattening into a map is flattening on its own, laid over the map.\<close>

lemma flatten_over:
  assumes "flatten_entry n source dest mode [] s = (Inr f, t)"
  shows "\<exists>out'. flatten_entry n source dest mode out s = (Inr out', t) \<and>
    map_of out' = map_of out ++ map_of f \<and> (bt_sorted out \<longrightarrow> bt_sorted out')"
proof -
  obtain r u where r: "inserts (flatten_entry n source dest mode) s r u"
    using flatten_inserts by blast
  with assms obtain ins where "r = Inr ins" "f = bt_add ins []" "u = t"
    by (cases r) (auto simp: inserts_def)
  with r show ?thesis
    by (simp add: inserts_def map_of_bt_add) (simp add: bt_add_def bt_fold_sorted)
qed

lemma flatten_sorted: "flatten_entry n source dest mode [] s = (Inr f, t) \<Longrightarrow> bt_sorted f"
  using flatten_over [of n source dest mode s f t "[]"] by auto

lemma flatten_fails_anyway:
  "flatten_entry n source dest mode out s = (Inr f', t) \<Longrightarrow>
   \<exists>f. flatten_entry n source dest mode [] s = (Inr f, t)"
proof -
  assume ok: "flatten_entry n source dest mode out s = (Inr f', t)"
  obtain r u where r: "inserts (flatten_entry n source dest mode) s r u"
    using flatten_inserts by blast
  with ok obtain ins where "r = Inr ins" "u = t"
    by (cases r) (auto simp: inserts_def)
  with r show ?thesis by (simp add: inserts_def)
qed

section \<open>The list of entries\<close>

text \<open>What one entry flattens to on its own, on a disk without faults.\<close>

definition flat_of :: "nat \<Rightarrow> path \<Rightarrow> 'x fs_scheme \<Rightarrow> layer_file \<Rightarrow> io_error + flat_entry btree" where
  "flat_of n d s e =
     fst (flatten_entry n (tar_resolve d (lf_source e)) (normalise_dest (lf_dest e)) (lf_mode e) [] s)"

definition flat_keys :: "nat \<Rightarrow> path \<Rightarrow> 'x fs_scheme \<Rightarrow> layer_file \<Rightarrow> string list" where
  "flat_keys n d s e = (case flat_of n d s e of Inr f \<Rightarrow> map fst f | Inl _ \<Rightarrow> [])"

definition flat_list :: "nat \<Rightarrow> path \<Rightarrow> 'x fs_scheme \<Rightarrow> layer_file \<Rightarrow> flat_entry btree" where
  "flat_list n d s e = (case flat_of n d s e of Inr f \<Rightarrow> f | Inl _ \<Rightarrow> [])"

lemma keeps_here_reads:
  assumes "fs_faults s = []"
  shows "keeps (\<lambda>t. t = s) (fs_metadata p)" "keeps (\<lambda>t. t = s) (fs_read p)"
    "keeps (\<lambda>t. t = s) (fs_read_dir p)" "keeps (\<lambda>t. t = s) (fs_open p)"
  using assms
  by (simp_all add: keeps_def fs_metadata_def fs_read_def fs_read_dir_def fs_open_def
      fs_call_reads io_bind_def io_return_def split: prod.split sum.split)

lemma keeps_here_flatten:
  "fs_faults s = [] \<Longrightarrow> keeps (\<lambda>t. t = s) (flatten_entry n source dest mode out)"
proof (induction n arbitrary: source dest out)
  case 0
  then show ?case by (simp add: flatten_entry.simps(1))
next
  case (Suc n)
  show ?case
    unfolding flatten_entry.simps(2)
    by (rule keeps_bind [OF keeps_here_reads(1) [OF Suc.prems]])
      (auto split: fnode.split intro!: keeps_bind keeps_fold keeps_here_reads Suc.prems
        simp: Suc.IH Suc.prems)
qed

lemma flatten_all_no_fault:
  assumes "fs_faults s = []" and "\<And>e. e \<in> set es \<Longrightarrow> is_ok (flat_of n d s e)"
  shows "\<exists>flat. io_fold (\<lambda>entry flat. flatten_entry n (tar_resolve d (lf_source entry))
             (normalise_dest (lf_dest entry)) (lf_mode entry) flat) es out s = (Inr flat, s) \<and>
    map_of flat = map_of out ++ map_of (rev (concat (map (\<lambda>e. rev (flat_list n d s e)) es))) \<and>
    (bt_sorted out \<longrightarrow> bt_sorted flat)"
  using assms(2)
proof (induction es arbitrary: out)
  case Nil
  then show ?case by (simp add: io_return_def)
next
  case (Cons e es)
  let ?m = "\<lambda>out. flatten_entry n (tar_resolve d (lf_source e)) (normalise_dest (lf_dest e)) (lf_mode e) out"
  obtain f where f: "flat_of n d s e = Inr f"
    using Cons.prems by (auto simp: is_ok_iff)
  have "snd (?m [] s) = s"
    using keeps_here_flatten [OF assms(1)] by (auto simp: keeps_def)
  with f have "?m [] s = (Inr f, s)"
    unfolding flat_of_def by (metis prod.collapse)
  from flatten_over [OF this, of out] obtain out' where
    out': "?m out s = (Inr out', s)" "map_of out' = map_of out ++ map_of f"
      "bt_sorted out \<longrightarrow> bt_sorted out'" by blast
  with Cons.IH [of out'] Cons.prems f show ?case
    by (auto simp: io_bind_def flat_list_def)
qed

lemma flatten_all_ok_parts:
  assumes "fs_faults s = []"
    and "io_fold (\<lambda>entry flat. flatten_entry n (tar_resolve d (lf_source entry))
             (normalise_dest (lf_dest entry)) (lf_mode entry) flat) es out s = (Inr flat, t)"
    and "e \<in> set es"
  shows "is_ok (flat_of n d s e)"
  using assms(2,3)
proof (induction es arbitrary: out)
  case Nil
  then show ?case by simp
next
  case (Cons e' es)
  let ?m = "\<lambda>out. flatten_entry n (tar_resolve d (lf_source e')) (normalise_dest (lf_dest e')) (lf_mode e') out"
  from Cons.prems(1) obtain out' u where step: "?m out s = (Inr out', u)"
    and rest: "io_fold (\<lambda>entry flat. flatten_entry n (tar_resolve d (lf_source entry))
             (normalise_dest (lf_dest entry)) (lf_mode entry) flat) es out' u = (Inr flat, t)"
    by (auto elim: io_bind_InrE)
  have "u = s"
    using keeps_here_flatten [OF assms(1)] step by (auto simp: keeps_def) (metis snd_conv)
  from flatten_fails_anyway [OF step] have "is_ok (flat_of n d s e')"
    by (auto simp: flat_of_def)
  with Cons.IH [of out'] Cons.prems(2) rest \<open>u = s\<close> show ?case by auto
qed

text \<open>Without clashes, the order of the entries does not matter.\<close>

lemma map_of_perm:
  assumes "mset xs = mset ys" and "distinct (map fst xs)"
  shows "map_of xs = map_of ys"
proof -
  have "distinct (map fst ys)"
    using assms by (metis mset_eq_imp_distinct_iff mset_map)
  moreover have "set xs = set ys" using assms(1) by (rule mset_eq_setD)
  ultimately show ?thesis using assms(2) by (simp add: map_of_inject_set)
qed

lemma flatten_all_perm:
  assumes "fs_faults s = []" and perm: "mset es = mset es'"
    and clash: "distinct (concat (map (flat_keys n d s) es))"
    and ok: "flatten_all n es d s = (Inr flat, t)"
  shows "flatten_all n es' d s = (Inr flat, t)"
proof -
  have parts: "is_ok (flat_of n d s e)" if "e \<in> set es" for e
    by (rule flatten_all_ok_parts [OF assms(1) ok [unfolded flatten_all_def] that])
  have parts': "is_ok (flat_of n d s e)" if "e \<in> set es'" for e
    using parts that mset_eq_setD [OF perm] by simp
  obtain f where f: "flatten_all n es d s = (Inr f, s)" "bt_sorted f"
      "map_of f = map_of (rev (concat (map (\<lambda>e. rev (flat_list n d s e)) es)))"
    using flatten_all_no_fault [OF assms(1), of es n d "[]"] parts
    by (auto simp: flatten_all_def)
  obtain f' where f': "flatten_all n es' d s = (Inr f', s)" "bt_sorted f'"
      "map_of f' = map_of (rev (concat (map (\<lambda>e. rev (flat_list n d s e)) es')))"
    using flatten_all_no_fault [OF assms(1), of es' n d "[]"] parts'
    by (auto simp: flatten_all_def)
  have m: "mset (rev (concat (map (\<lambda>e. rev (flat_list n d s e)) xs))) =
      (\<Sum>e \<in># mset xs. mset (flat_list n d s e))" for xs
    by (induction xs) simp_all
  have keys: "mset (map fst (concat (map (\<lambda>e. rev (flat_list n d s e)) es))) =
      mset (concat (map (flat_keys n d s) es))"
    by (induction es) (simp_all add: flat_list_def flat_keys_def rev_map [symmetric] split: sum.split)
  then have "distinct (map fst (concat (map (\<lambda>e. rev (flat_list n d s e)) es)))"
    using clash mset_eq_imp_distinct_iff by blast
  then have "map_of f = map_of f'"
    unfolding f(3) f'(3)
    by (intro map_of_perm) (simp_all add: m perm rev_map [symmetric] del: mset_rev)
  then have "f = f'" using f(2) f'(2) by (intro bt_sorted_map_of_eq)
  with f f' ok show ?thesis by simp
qed

section \<open>The members of the archive\<close>

fun entry_mode :: "flat_entry \<Rightarrow> 32 word" where
  "entry_mode (FlatDir m) = m"
| "entry_mode (FlatFile m _) = m"

definition modes_in :: "32 word set \<Rightarrow> flat_entry btree \<Rightarrow> bool" where
  "modes_in ms f \<longleftrightarrow> (\<forall>kv \<in> set f. entry_mode (snd kv) \<in> ms)"

lemma modes_in_insert: "modes_in ms f \<Longrightarrow> entry_mode v \<in> ms \<Longrightarrow> modes_in ms (bt_insert k v f)"
  using bt_insert_ran [of k v f] by (auto simp: modes_in_def)

lemma flatten_modes:
  assumes "mode \<in> ms"
  shows "modes_in ms out \<Longrightarrow>
    triple (\<lambda>_. True)
      (flatten_entry n source dest mode out :: ('x fs_scheme, io_error, flat_entry btree) io)
      (\<lambda>f _. modes_in ms f) (\<lambda>_ _. True)"
proof (induction n arbitrary: source dest out)
  case 0
  then show ?case by (simp add: flatten_entry.simps(1) triple_fail)
next
  case (Suc n)
  have loop: "triple (\<lambda>_. modes_in ms b)
      (io_fold (\<lambda>name out. if name = ''..'' then
                   io_fail (invalid_input [Txt ''child of '', Txt source, Txt '' has no filename''])
                 else if \<not> valid_utf8 name then
                   io_fail (invalid_input [Txt ''non-UTF8 filename under '', Txt source,
                     Txt '' cannot land in a tar layer''])
                 else flatten_entry n (path_join source name)
                        (dir_dest_of dest @ ''/'' @ name) mode out) xs b
         :: ('x fs_scheme, io_error, flat_entry btree) io)
      (\<lambda>f _. modes_in ms f) (\<lambda>_ _. True)" for xs b
  proof (rule triple_fold [where I = "\<lambda>_ f _. modes_in ms f"], intro triple_if)
    fix ys x zs c
    show "triple (\<lambda>_. modes_in ms c)
        (flatten_entry n (path_join source x) (dir_dest_of dest @ ''/'' @ x) mode c
           :: ('x fs_scheme, io_error, flat_entry btree) io)
        (\<lambda>f _. modes_in ms f) (\<lambda>_ _. True)"
      by (rule triple_pure) (rule Suc.IH)
  qed (auto intro: triple_fail)
  have ins: "modes_in ms (bt_insert k (FlatDir mode) out)"
    "modes_in ms (bt_insert k (FlatFile mode p) out)" for k p
    using Suc.prems assms by (simp_all add: modes_in_insert)
  show ?case
    unfolding flatten_entry.simps(2)
    by (rule triple_bind [OF triple_any])
      (auto split: fnode.split intro!: triple_return triple_fail triple_bind [OF triple_any]
        triple_pre [OF loop] simp: ins)
qed

lemma flatten_all_modes:
  "triple (\<lambda>_. True) (flatten_all n es d) (\<lambda>f _. modes_in (lf_mode ` set es) f) (\<lambda>_ _. True)"
proof -
  let ?ms = "lf_mode ` set es"
  have "triple (\<lambda>_. modes_in ?ms b) (io_fold (\<lambda>entry flat.
        flatten_entry n (tar_resolve d (lf_source entry)) (normalise_dest (lf_dest entry))
          (lf_mode entry) flat) es b) (\<lambda>f _. modes_in ?ms f) (\<lambda>_ _. True)" for b
  proof (rule triple_fold [where I = "\<lambda>_ f _. modes_in ?ms f"])
    fix ys x zs c
    assume "es = ys @ x # zs"
    then have "lf_mode x \<in> ?ms" by simp
    from flatten_modes [OF this]
    show "triple (\<lambda>_. modes_in ?ms c)
        (flatten_entry n (tar_resolve d (lf_source x)) (normalise_dest (lf_dest x)) (lf_mode x) c)
        (\<lambda>f _. modes_in ?ms f) (\<lambda>_ _. True)"
      by (rule triple_pure)
  qed
  from this [of "[]"] show ?thesis
    by (simp add: flatten_all_def modes_in_def)
qed

text \<open>The member an entry becomes, and the archive of a list of entries.\<close>

definition member_of :: "nodes \<Rightarrow> string \<times> flat_entry \<Rightarrow> io_error + (tar_header \<times> string \<times> bytes)" where
  "member_of m e =
     (case e of
        (p, FlatDir mode) \<Rightarrow> Inr (dir_header mode, dir_tar_path p, [])
      | (p, FlatFile mode source) \<Rightarrow>
          (case look source m of
             None \<Rightarrow> Inl (IoError NotFound [])
           | Some (FileNode c) \<Rightarrow> Inr (file_header (length c) mode, p, c)
           | Some _ \<Rightarrow> Inl (invalid_input [Txt ''tar source '', Txt source,
                         Txt '' is not a regular file''])))"

fun append_members ::
  "'b tar_lib \<Rightarrow> nodes \<Rightarrow> flat_entry btree \<Rightarrow> 'b \<Rightarrow> io_error + 'b" where
  "append_members lib m [] b = Inr b"
| "append_members lib m (e # es) b =
     and_then (member_of m e) (\<lambda>(h, p, c).
     and_then (tar_append_data lib h p (Inr c) b) (append_members lib m es))"

lemma append_entry_no_fault:
  assumes "fs_faults s = []"
  shows "append_entry lib e b s =
    (and_then (member_of (fs_nodes s) e) (\<lambda>(h, p, c). tar_append_data lib h p (Inr c) b), s)"
proof -
  obtain p fe where e: "e = (p, fe)" by (cases e)
  show ?thesis
  proof (cases fe)
    case (FlatDir mode)
    then show ?thesis by (simp add: e append_entry_def member_of_def io_lift_def)
  next
    case (FlatFile mode source)
    then show ?thesis
      using assms
      by (auto simp: e append_entry_def member_of_def io_bind_def metadata_no_fault fs_open_def
          io_try_def read_no_fault io_lift_def io_return_def io_fail_def
          split: option.split fnode.split)
  qed
qed

lemma append_all_no_fault:
  assumes "fs_faults s = []"
  shows "io_fold (append_entry lib) flat b s = (append_members lib (fs_nodes s) flat b, s)"
proof (induction flat arbitrary: b)
  case Nil
  then show ?case by (simp add: io_return_def)
next
  case (Cons e flat)
  show ?case
    by (cases "member_of (fs_nodes s) e")
      (auto simp: io_bind_def append_entry_no_fault [OF assms] Cons.IH split: sum.split)
qed

lemma no_fault_flatten_all:
  assumes "fs_faults s = []" and "flatten_all n es d s = (r, t)"
  shows "t = s"
proof -
  have "keeps (\<lambda>t. t = s) (flatten_all n es d)"
    unfolding flatten_all_def by (intro keeps_fold keeps_here_flatten assms(1))
  with assms(2) show ?thesis unfolding keeps_def by (metis snd_conv)
qed

section \<open>Concrete inputs\<close>

text \<open>A builder that keeps its members, and a small tree listed in two orders.\<close>

definition listing_lib :: "(tar_header \<times> string \<times> bytes) list tar_lib" where
  "listing_lib =
     \<lparr>tar_new = [],
      tar_append_data = (\<lambda>h p data b. and_then data (\<lambda>c. Inr (b @ [(h, p, c)]))),
      tar_finish = (\<lambda>b. Inr (concat (map (\<lambda>(h, p, c). p @ ''='' @ c @ '';'') b)))\<rparr>"

definition keys_tree :: nodes where
  "keys_tree =
     [[''/''] \<mapsto> DirNode, [''/'', ''d''] \<mapsto> DirNode, [''/'', ''d'', ''keys''] \<mapsto> DirNode,
      [''/'', ''d'', ''keys'', ''a''] \<mapsto> FileNode ''1'', [''/'', ''d'', ''keys'', ''b''] \<mapsto> FileNode ''2'',
      [''/'', ''d'', ''app''] \<mapsto> FileNode ''3'']"

definition keys_fs :: "string list \<Rightarrow> fs" where
  "keys_fs ord =
     \<lparr>fs_nodes = keys_tree, fs_faults = [], fs_seen = [], fs_order = (\<lambda>_. ord)\<rparr>"

definition keys_entry :: "string \<Rightarrow> layer_file" where
  "keys_entry dest = \<lparr>lf_source = ''keys'', lf_dest = dest, lf_mode = 0x180\<rparr>"

definition app_entry :: "string \<Rightarrow> layer_file" where
  "app_entry dest = \<lparr>lf_source = ''app'', lf_dest = dest, lf_mode = 0x1A4\<rparr>"

lemma keys_flat:
  "flatten_all 2 [keys_entry ''/etc/keys/'', app_entry ''/bin/app''] ''/d'' (keys_fs [''b'', ''a'']) =
     (Inr [(''bin/app'', FlatFile 0x1A4 ''/d/app''), (''etc/keys'', FlatDir 0x180),
           (''etc/keys/a'', FlatFile 0x180 ''/d/keys/a''),
           (''etc/keys/b'', FlatFile 0x180 ''/d/keys/b'')], keys_fs [''b'', ''a''])"
proof -
  have "fst (flatten_all 2 [keys_entry ''/etc/keys/'', app_entry ''/bin/app''] ''/d'' (keys_fs [''b'', ''a''])) =
     Inr [(''bin/app'', FlatFile 0x1A4 ''/d/app''), (''etc/keys'', FlatDir 0x180),
           (''etc/keys/a'', FlatFile 0x180 ''/d/keys/a''),
           (''etc/keys/b'', FlatFile 0x180 ''/d/keys/b'')]"
    by code_simp
  from run_eq [OF this] no_fault_flatten_all [OF _ run_eq [OF this]] show ?thesis
    by (simp add: keys_fs_def)
qed

section \<open>Where the documentation and the code part\<close>

text \<open>
  The module comment promises tar paths without a leading slash. A directory placed at
  \<open>/\<close> gives its children one, and so does a destination that starts with a backslash.
\<close>

lemma root_dest_keeps_leading_slash:
  "fst (flatten_all 2 [keys_entry ''/''] ''/d'' (keys_fs [''a''])) =
     Inr [([], FlatDir 0x180), (''/a'', FlatFile 0x180 ''/d/keys/a'')]"
  by code_simp

lemma backslash_dest_keeps_leading_slash: "normalise_dest (CHR 0x5C # ''etc'') = ''/etc''"
  by code_simp

text \<open>Two entries for the same tar path: the later one wins, so their order matters.\<close>

lemma clashing_entries_depend_on_order:
  "fst (flatten_all 2 [app_entry ''/x'', (app_entry ''/x'')\<lparr>lf_mode := 0x180\<rparr>] ''/d'' (keys_fs [])) \<noteq>
   fst (flatten_all 2 [(app_entry ''/x'')\<lparr>lf_mode := 0x180\<rparr>, app_entry ''/x''] ''/d'' (keys_fs []))"
  by code_simp

section \<open>Properties\<close>



text \<open>
  Reordering the entries of a file list does not change the archive, as long as no two
  entries flatten to the same tar path (without faults).
\<close>

theorem tar_entry_order_irrelevant:
  assumes "fs_faults s = []" and "mset es = mset es'"
    and "distinct (concat (map (flat_keys n d s) es))"
    and "is_ok (fst (flatten_all n es d s))"
  shows "build_deterministic_tar lib n es' d s = build_deterministic_tar lib n es d s"
proof -
  obtain flat t where flat: "flatten_all n es d s = (Inr flat, t)"
    using assms(4) by (cases "flatten_all n es d s") (auto simp: is_ok_iff)
  from flatten_all_perm [OF assms(1-3) this] flat show ?thesis
    by (simp add: build_deterministic_tar_def io_bind_def)
qed

theorem tar_entry_order_irrelevant_witness:
  "build_deterministic_tar listing_lib 2 [app_entry ''/bin/app'', keys_entry ''/etc/keys/''] ''/d''
     (keys_fs [''b'', ''a'']) =
   build_deterministic_tar listing_lib 2 [keys_entry ''/etc/keys/'', app_entry ''/bin/app''] ''/d''
     (keys_fs [''b'', ''a''])"
proof (rule tar_entry_order_irrelevant)
  show "distinct (concat (map (flat_keys 2 ''/d'' (keys_fs [''b'', ''a'']))
      [keys_entry ''/etc/keys/'', app_entry ''/bin/app'']))"
    by code_simp
  show "fs_faults (keys_fs [''b'', ''a'']) = []" by (simp add: keys_fs_def)
qed (simp_all add: keys_flat)

text \<open>
  C19: What is in the archive (without faults): the members are appended in strictly increasing
  order of their tar path, each is a directory or the content of the source file at that
  moment, the size field is the length of the content, owner, group and modification time are
  zero, and every mode is one the specification gave, never one found on disk.
\<close>

theorem tar_members_pinned:
  assumes "fs_faults s = []" and "flatten_all n es d s = (Inr flat, t)"
  shows "sorted_wrt (<) (map fst flat) \<and>
    fst (build_deterministic_tar lib n es d s) =
      and_then (append_members lib (fs_nodes s) flat (tar_new lib)) (tar_finish lib) \<and>
    (\<forall>x \<in> set flat. \<forall>h p c. member_of (fs_nodes s) x = Inr (h, p, c) \<longrightarrow>
       th_size h = length c \<and> th_uid h = 0 \<and> th_gid h = 0 \<and> th_mtime h = 0 \<and>
       th_mode h \<in> lf_mode ` set es)"
proof (intro conjI ballI allI impI)
  have parts: "is_ok (flat_of n d s e)" if "e \<in> set es" for e
    by (rule flatten_all_ok_parts [OF assms(1) assms(2) [unfolded flatten_all_def] that])
  have "bt_sorted flat"
    using flatten_all_no_fault [OF assms(1), of es n d "[]"] parts assms(2)
    by (auto simp: flatten_all_def)
  then show "sorted_wrt (<) (map fst flat)" by (simp add: bt_sorted_def)
  have "t = s" by (rule no_fault_flatten_all [OF assms])
  then show "fst (build_deterministic_tar lib n es d s) =
      and_then (append_members lib (fs_nodes s) flat (tar_new lib)) (tar_finish lib)"
    using assms
    by (simp add: build_deterministic_tar_def io_bind_def append_all_no_fault io_lift_def
        and_then_def split: sum.split)
next
  fix x h p c
  assume x: "x \<in> set flat" and m: "member_of (fs_nodes s) x = Inr (h, p, c)"
  have modes: "modes_in (lf_mode ` set es) flat"
    by (rule triple_InrD [OF flatten_all_modes TrueI assms(2)])
  from m have hdr: "th_size h = length c \<and> th_uid h = 0 \<and> th_gid h = 0 \<and> th_mtime h = 0 \<and>
      th_mode h = entry_mode (snd x)"
    by (auto simp: member_of_def dir_header_def file_header_def
        split: prod.splits flat_entry.splits option.splits fnode.splits)
  then show "th_size h = length c" "th_uid h = 0" "th_gid h = 0" "th_mtime h = 0" by simp_all
  show "th_mode h \<in> lf_mode ` set es"
    using hdr modes x by (simp add: modes_in_def)
qed

theorem tar_members_pinned_witness:
  "fst (build_deterministic_tar listing_lib 2 [keys_entry ''/etc/keys/'', app_entry ''/bin/app'']
     ''/d'' (keys_fs [''b'', ''a''])) = Inr ''bin/app=3;etc/keys/=;etc/keys/a=1;etc/keys/b=2;''"
proof -
  have nofault: "fs_faults (keys_fs [''b'', ''a'']) = []" by (simp add: keys_fs_def)
  have "and_then (append_members listing_lib keys_tree
      [(''bin/app'', FlatFile 0x1A4 ''/d/app''), (''etc/keys'', FlatDir 0x180),
       (''etc/keys/a'', FlatFile 0x180 ''/d/keys/a''), (''etc/keys/b'', FlatFile 0x180 ''/d/keys/b'')]
      (tar_new listing_lib)) (tar_finish listing_lib) =
    Inr ''bin/app=3;etc/keys/=;etc/keys/a=1;etc/keys/b=2;''"
    by code_simp
  then show ?thesis
    using tar_members_pinned [OF nofault keys_flat, of listing_lib] by (simp add: keys_fs_def)
qed



end
