(* ===== verification/Oci_Build.thy ===== *)
theory Oci_Build
  imports Oci_Types Tar_Builder
begin

text \<open>
  \<open>core/layer.rs\<close>, \<open>core/oci_assembly.rs\<close> and \<open>saf/build.rs\<close> of the crate \<open>build\<close>: from a
  loaded specification to an OCI image layout on disk. The crates \<open>cas\<close>, \<open>flate2\<close>,
  \<open>zstd\<close>, \<open>tar\<close> and the text of \<open>serde_json\<close> are parameters, the fields of
  \<open>build_lib\<close>.
\<close>

section \<open>The libraries\<close>

text \<open>
  A \<open>Read\<close> is what reading it to the end gives. \<open>put_stream\<close> returns the digest and the
  bytes it has drawn from its reader; \<open>Encoder::new\<close> of zstd can fail before any read.
\<close>

type_synonym reader = "io_error + bytes"

record ('s, 'h, 'd, 'c, 'j, 'b) build_lib =
  cas_new :: "path \<Rightarrow> ('s, 'c, 'h) io"
  cas_put :: "'h \<Rightarrow> bytes \<Rightarrow> ('s, 'c, 'd) io"
  cas_put_stream :: "'h \<Rightarrow> reader \<Rightarrow> ('s, 'c, 'd \<times> bytes) io"
  digest_to_string :: "'d \<Rightarrow> string"
  gz_encoder :: "reader \<Rightarrow> reader"
  zstd_encoder :: "reader \<Rightarrow> io_error + reader"
  json_to_vec :: "json \<Rightarrow> 'j + bytes"
  lib_tar :: "'b tar_lib"

section \<open>Layers\<close>

record 'd layer_result =
  lr_digest :: 'd
  lr_size :: nat
  lr_descriptor :: oci_descriptor

text \<open>The counter of \<open>CountingReader\<close> holds the number of bytes the store has drawn.\<close>

definition put_counted ::
  "('s, 'h, 'd, 'c, 'j, 'b) build_lib \<Rightarrow> reader \<Rightarrow> 'h \<Rightarrow> nat \<Rightarrow>
   ('s, ('c, 'j) build_error, 'd \<times> nat) io" where
  "put_counted lib rd cas position =
     io_bind (io_map_err (LayerWrite position) (cas_put_stream lib cas rd)) (\<lambda>(digest, drawn).
     io_return (digest, length drawn))"

definition stream_through_compression ::
  "('s, 'h, 'd, 'c, 'j, 'b) build_lib \<Rightarrow> compression \<Rightarrow> reader \<Rightarrow> nat \<Rightarrow> 'h \<Rightarrow>
   ('s, ('c, 'j) build_error, 'd \<times> nat) io" where
  "stream_through_compression lib compr source position cas =
     (case compr of
        CompressionNone \<Rightarrow> put_counted lib source cas position
      | Gzip \<Rightarrow> put_counted lib (gz_encoder lib source) cas position
      | Zstd \<Rightarrow>
          io_bind (io_lift (map_err (LayerCompression position) (zstd_encoder lib source)))
            (\<lambda>encoder. put_counted lib encoder cas position))"

definition assemble_layer ::
  "('x fs_scheme, 'h, 'd, 'c, 'j, 'b) build_lib \<Rightarrow> nat \<Rightarrow> layer \<Rightarrow> nat \<Rightarrow> path \<Rightarrow> 'h \<Rightarrow>
   ('x fs_scheme, ('c, 'j) build_error, 'd layer_result) io" where
  "assemble_layer lib fuel l position spec_dir cas =
     io_bind
       (case ly_source l of
          Blob p \<Rightarrow>
            (let resolved = (if path_is_absolute p then p else path_join spec_dir p) in
             io_bind (io_map_err (BuildIo resolved) (fs_open resolved)) (\<lambda>_.
             io_bind (io_try (fs_read resolved)) (\<lambda>file.
             stream_through_compression lib (ly_compression l) file position cas)))
        | Files entries \<Rightarrow>
            io_bind (io_map_err (TarBuild position)
              (build_deterministic_tar (lib_tar lib) fuel entries spec_dir)) (\<lambda>tar_bytes.
            stream_through_compression lib (ly_compression l) (Inr tar_bytes) position cas))
       (\<lambda>(digest, size).
          io_return
            \<lparr>lr_digest = digest, lr_size = size,
             lr_descriptor =
               \<lparr>od_media_type = media_type_as_str (ly_media_type l),
                od_digest = digest_to_string lib digest, od_size = size, od_annotations = []\<rparr>\<rparr>)"

section \<open>Image configuration\<close>

definition string_array :: "json \<Rightarrow> string list" where
  "string_array v = (case v of JArray items \<Rightarrow> List.map_filter json_as_str items | _ \<Rightarrow> [])"

definition env_strings :: "(string \<times> json) list \<Rightarrow> string list" where
  "env_strings env_map =
     sort (List.map_filter (\<lambda>(ek, ev). map_option (\<lambda>s. ek @ ''='' @ s) (json_as_str ev)) env_map)"

definition label_map :: "(string \<times> json) list \<Rightarrow> string btree" where
  "label_map m =
     bt_of_list (List.map_filter (\<lambda>(lk, lv). map_option (\<lambda>s. (lk, s)) (json_as_str lv)) m)"

text \<open>One turn of the loop over the \<open>[config]\<close> table.\<close>

definition lift_config_key ::
  "string \<times> json \<Rightarrow> oci_runtime_config \<times> json btree \<Rightarrow> oci_runtime_config \<times> json btree" where
  "lift_config_key kv st =
     (case (kv, st) of ((k, v), (runtime, extra)) \<Rightarrow>
        if k = ''entrypoint'' then (runtime\<lparr>orc_entrypoint := string_array v\<rparr>, extra)
        else if k = ''cmd'' then (runtime\<lparr>orc_cmd := string_array v\<rparr>, extra)
        else if k = ''env'' then
          (case v of
             JObject env_map \<Rightarrow> (runtime\<lparr>orc_env := env_strings env_map\<rparr>, extra)
           | _ \<Rightarrow> (runtime, extra))
        else if k = ''labels'' then
          (case v of
             JObject m \<Rightarrow> (runtime\<lparr>orc_labels := label_map m\<rparr>, extra)
           | _ \<Rightarrow> (runtime, extra))
        else (runtime, bt_insert k v extra))"

definition empty_runtime :: oci_runtime_config where
  "empty_runtime = \<lparr>orc_env = [], orc_entrypoint = [], orc_cmd = [], orc_labels = []\<rparr>"

definition unwrap_or_unknown :: "string option \<Rightarrow> string" where
  "unwrap_or_unknown x = (case x of Some s \<Rightarrow> s | None \<Rightarrow> ''unknown'')"

definition build_image_config :: "spec \<Rightarrow> oci_image_config" where
  "build_image_config sp =
     (let (runtime, extra) =
            (case sp_config sp of ConfigBlob v \<Rightarrow>
               (case v of
                  JObject m \<Rightarrow> fold lift_config_key m (empty_runtime, [])
                | _ \<Rightarrow> (empty_runtime, [])))
      in \<lparr>oic_architecture = unwrap_or_unknown (pf_arch (sp_platform sp)),
          oic_os = unwrap_or_unknown (pf_os (sp_platform sp)),
          oic_config =
            (if orc_env runtime = [] \<and> orc_entrypoint runtime = [] \<and> orc_cmd runtime = [] \<and>
                orc_labels runtime = []
             then None else Some runtime),
          oic_extra = extra\<rparr>)"

section \<open>Configuration blob and manifest\<close>

record 'd assembled_manifest =
  am_config_digest :: 'd
  am_manifest_digest :: 'd
  am_manifest_descriptor :: oci_descriptor

definition assemble_config_and_manifest ::
  "('s, 'h, 'd, 'c, 'j, 'b) build_lib \<Rightarrow> spec \<Rightarrow> oci_descriptor list \<Rightarrow> 'h \<Rightarrow>
   ('s, ('c, 'j) build_error, 'd assembled_manifest) io" where
  "assemble_config_and_manifest lib sp layer_descriptors cas =
     io_bind (io_lift (map_err BuildJson
       (json_to_vec lib (image_config_to_json (build_image_config sp))))) (\<lambda>config_bytes.
     io_bind (io_map_err ManifestWrite (cas_put lib cas config_bytes)) (\<lambda>config_digest.
     io_bind (io_lift (map_err BuildJson (json_to_vec lib (manifest_to_json
       \<lparr>om_schema_version = 2,
        om_media_type = media_type_oci_manifest,
        om_config =
          \<lparr>od_media_type = media_type_oci_config,
           od_digest = digest_to_string lib config_digest,
           od_size = length config_bytes, od_annotations = []\<rparr>,
        om_layers = layer_descriptors,
        om_annotations = sp_annotations sp\<rparr>)))) (\<lambda>manifest_bytes.
     io_bind (io_map_err ManifestWrite (cas_put lib cas manifest_bytes)) (\<lambda>manifest_digest.
     io_return
       \<lparr>am_config_digest = config_digest,
        am_manifest_digest = manifest_digest,
        am_manifest_descriptor =
          \<lparr>od_media_type = media_type_oci_manifest,
           od_digest = digest_to_string lib manifest_digest,
           od_size = length manifest_bytes, od_annotations = []\<rparr>\<rparr>))))"

definition post_assembly_rule :: "kind \<Rightarrow> nat \<Rightarrow> string \<times> bool" where
  "post_assembly_rule k actual =
     (case k of
        OciArtifact \<Rightarrow> (''>=1'', 1 \<le> actual)
      | VmImage \<Rightarrow> (''3'', actual = 3)
      | RawImage \<Rightarrow> (''1'', actual = 1))"

definition check_layer_count_post_assembly :: "kind \<Rightarrow> nat \<Rightarrow> ('c, 'j) build_error + unit" where
  "check_layer_count_post_assembly k actual =
     (case post_assembly_rule k actual of (expected, ok) \<Rightarrow>
        if ok then Inr ()
        else Inl (BuildSpec (WrongLayerCount (kind_as_str k) expected actual)))"

section \<open>The build\<close>

definition partial_path :: "path \<Rightarrow> path" where
  "partial_path output_dir = output_dir @ ''.partial''"

definition clear_partial :: "path \<Rightarrow> ('x fs_scheme, ('c, 'j) build_error, unit) io" where
  "clear_partial partial =
     io_bind (fs_exists partial) (\<lambda>stale.
       if stale then io_map_err (BuildIo partial) (fs_remove_dir_all partial)
       else io_return ())"

text \<open>Everything that is staged in the partial directory.\<close>

definition stage_layout ::
  "('x fs_scheme, 'h, 'd, 'c, 'j, 'b) build_lib \<Rightarrow> nat \<Rightarrow> loaded_spec \<Rightarrow> path \<Rightarrow>
   ('x fs_scheme, ('c, 'j) build_error, 'd assembled_manifest \<times> 'd list) io" where
  "stage_layout lib fuel loaded partial =
     io_bind (clear_partial partial) (\<lambda>_.
     io_bind (io_map_err (BuildIo partial) (fs_create_dir_all partial)) (\<lambda>_.
     io_bind (io_map_err ManifestWrite (cas_new lib partial)) (\<lambda>cas.
     io_bind (io_collect (\<lambda>position l. assemble_layer lib fuel l position (ls_spec_dir loaded) cas)
       (sp_layers (ls_spec loaded))) (\<lambda>results.
     io_bind (io_lift (check_layer_count_post_assembly (sp_kind (ls_spec loaded))
       (length (map lr_descriptor results)))) (\<lambda>_.
     io_bind (assemble_config_and_manifest lib (ls_spec loaded) (map lr_descriptor results) cas)
       (\<lambda>assembled.
     io_bind (io_lift (map_err BuildJson (json_to_vec lib (layout_to_json oci_layout_pinned))))
       (\<lambda>layout_bytes.
     io_bind (io_map_err (BuildIo (path_join partial ''oci-layout''))
       (fs_write (path_join partial ''oci-layout'') layout_bytes)) (\<lambda>_.
     io_bind (io_lift (map_err BuildJson (json_to_vec lib (index_to_json
       \<lparr>oi_schema_version = 2, oi_media_type = media_type_oci_index,
        oi_manifests = [am_manifest_descriptor assembled], oi_annotations = []\<rparr>))))
       (\<lambda>index_bytes.
     io_bind (io_map_err (BuildIo (path_join partial ''index.json''))
       (fs_write (path_join partial ''index.json'') index_bytes)) (\<lambda>_.
     io_return (assembled, map lr_digest results)))))))))))"

definition build ::
  "('x fs_scheme, 'h, 'd, 'c, 'j, 'b) build_lib \<Rightarrow> nat \<Rightarrow> loaded_spec \<Rightarrow> path \<Rightarrow>
   ('x fs_scheme, ('c, 'j) build_error, 'd build_output) io" where
  "build lib fuel loaded output_dir =
     io_bind (fs_exists output_dir) (\<lambda>present.
     if present then
       io_fail (BuildIo output_dir (IoError AlreadyExists
         [Txt ''output_dir already exists; remove it before rebuilding'']))
     else
     io_bind (stage_layout lib fuel loaded (partial_path output_dir)) (\<lambda>(assembled, layer_digests).
     io_bind (io_map_err (BuildIo output_dir) (fs_rename (partial_path output_dir) output_dir)) (\<lambda>_.
     io_return
       \<lparr>bo_manifest_digest = am_manifest_digest assembled,
        bo_config_digest = am_config_digest assembled,
        bo_layer_digests = layer_digests,
        bo_output_dir = output_dir\<rparr>)))"

end
