(* ===== verification/Build_Atomicity.thy ===== *)
theory Build_Atomicity
  imports Oci_Build
begin

text \<open>
  What \<open>build\<close> promises (\<open>saf/build.rs\<close>, "Atomicity contract"): the output directory
  appears in one step and complete, or not at all; and the layout it then holds is
  self-consistent. The statements hold for every implementation of the store that meets
  \<open>cas_contract\<close>, the documented behaviour of the crate \<open>cas\<close>, and under any faults.
\<close>

section \<open>Regions of the file system\<close>

definition absent :: "fkey \<Rightarrow> nodes \<Rightarrow> bool" where
  "absent K m \<longleftrightarrow> (\<forall>k. under K k \<longrightarrow> m k = None)"

definition agree_outside :: "fkey \<Rightarrow> nodes \<Rightarrow> nodes \<Rightarrow> bool" where
  "agree_outside K m m' \<longleftrightarrow> (\<forall>k. \<not> (under K k \<and> k \<noteq> K) \<longrightarrow> m' k = m k)"

definition confined :: "fkey \<Rightarrow> ('x fs_scheme, 'e, 'a) io \<Rightarrow> bool" where
  "confined K c \<longleftrightarrow>
     (\<forall>s. agree_outside K (fs_nodes s) (fs_nodes (snd (c s))) \<and>
          (\<forall>m \<in> set (fs_seen (snd (c s))) - set (fs_seen s). agree_outside K (fs_nodes s) m))"

text \<open>The output directory and its partial sibling: \<open>k/n\<close> and \<open>k/n.partial\<close>.\<close>

definition sibling_partial :: "path \<Rightarrow> bool" where
  "sibling_partial out \<longleftrightarrow>
     out \<noteq> [] \<and> fs_key out \<noteq> [] \<and>
     fs_key (partial_path out) = butlast (fs_key out) @ [last (fs_key out) @ ''.partial'']"

lemma under_append [simp]: "under k (k @ x)"
  by (simp add: under_def)

lemma under_iff: "under k k' \<longleftrightarrow> (\<exists>x. k' = k @ x)"
  unfolding under_def by (metis append_eq_conv_conj append_take_drop_id)

lemma not_under_partial:
  assumes "sibling_partial out" and "under (fs_key out) k"
  shows "\<not> under (fs_key (partial_path out)) k"
proof
  assume p: "under (fs_key (partial_path out)) k"
  obtain K n where out: "fs_key out = K @ [n]"
    using assms(1) by (metis append_butlast_last_id sibling_partial_def)
  then have part: "fs_key (partial_path out) = K @ [n @ ''.partial'']"
    using assms(1) by (simp add: sibling_partial_def)
  from assms(2) out obtain x where "k = K @ n # x" by (auto simp: under_iff)
  moreover from p part obtain y where "k = K @ (n @ ''.partial'') # y" by (auto simp: under_iff)
  ultimately show False by simp
qed

lemma not_prefix_of_partial:
  assumes "sibling_partial out" and "k \<in> set (prefixes_of (fs_key (partial_path out)))"
  shows "\<not> under (fs_key out) k"
proof
  assume u: "under (fs_key out) k"
  from assms(2) obtain i where i: "k = take i (fs_key (partial_path out))"
    by (auto simp: prefixes_of_def)
  obtain K n where out: "fs_key out = K @ [n]"
    using assms(1) by (metis append_butlast_last_id sibling_partial_def)
  then have part: "fs_key (partial_path out) = K @ [n @ ''.partial'']"
    using assms(1) by (simp add: sibling_partial_def)
  from u out obtain x where k: "k = K @ n # x" by (auto simp: under_iff)
  with i part have "K @ n # x = take i (K @ [n @ ''.partial''])" by simp
  then have "n # x = take (i - length K) [n @ ''.partial'']"
    by (cases "i \<le> length K") (auto dest: arg_cong [of _ _ length])
  then show False by (cases "i - length K") auto
qed

lemma absent_outside:
  assumes "sibling_partial out" and "absent (fs_key out) m"
    and "agree_outside (fs_key (partial_path out)) m m'"
  shows "absent (fs_key out) m'"
  using assms not_under_partial [OF assms(1)] by (auto simp: absent_def agree_outside_def)

section \<open>The store\<close>

definition blob_key :: "fkey \<Rightarrow> string \<Rightarrow> fkey" where
  "blob_key K hex = K @ [''blobs'', ''sha256'', hex]"

text \<open>
  The contract of a store opened at \<open>root\<close>, with handles \<open>hs\<close>, content digest \<open>dig\<close> and
  file name \<open>hex\<close> of a digest: it writes below its root only; a \<open>put\<close> that succeeds returns
  the digest of the content and leaves the content at its place; \<open>put_stream\<close> does the same
  with all its reader gives, and fails when the reader does; what is stored stays.
\<close>

definition keeps_blobs ::
  "fkey \<Rightarrow> (bytes \<Rightarrow> 'd) \<Rightarrow> ('d \<Rightarrow> string) \<Rightarrow> ('x fs_scheme, 'e, 'a) io \<Rightarrow> bool" where
  "keeps_blobs K dig hex c \<longleftrightarrow>
     (\<forall>s b. fs_nodes s (blob_key K (hex (dig b))) = Some (FileNode b) \<longrightarrow>
            fs_nodes (snd (c s)) (blob_key K (hex (dig b))) = Some (FileNode b))"

definition cas_contract ::
  "('x fs_scheme, 'h, 'd, 'c, 'j, 'b) build_lib \<Rightarrow> path \<Rightarrow> 'h set \<Rightarrow> (bytes \<Rightarrow> 'd) \<Rightarrow>
   ('d \<Rightarrow> string) \<Rightarrow> bool" where
  "cas_contract lib root hs dig hex \<longleftrightarrow>
     confined (fs_key root) (cas_new lib root) \<and>
     keeps_blobs (fs_key root) dig hex (cas_new lib root) \<and>
     (\<forall>s h t. cas_new lib root s = (Inr h, t) \<longrightarrow> h \<in> hs) \<and>
     (\<forall>h \<in> hs. \<forall>b. confined (fs_key root) (cas_put lib h b) \<and>
        keeps_blobs (fs_key root) dig hex (cas_put lib h b) \<and>
        (\<forall>s d t. cas_put lib h b s = (Inr d, t) \<longrightarrow>
           d = dig b \<and> fs_nodes t (blob_key (fs_key root) (hex d)) = Some (FileNode b))) \<and>
     (\<forall>h \<in> hs. \<forall>rd. confined (fs_key root) (cas_put_stream lib h rd) \<and>
        keeps_blobs (fs_key root) dig hex (cas_put_stream lib h rd) \<and>
        (\<forall>s d drawn t. cas_put_stream lib h rd s = (Inr (d, drawn), t) \<longrightarrow>
           rd = Inr drawn \<and> d = dig drawn \<and>
           fs_nodes t (blob_key (fs_key root) (hex d)) = Some (FileNode drawn)))"

section \<open>The invariant of the staging phase\<close>

text \<open>
  Nothing at the output, now or at any visible moment; the partial directory is there (once
  it is), with the blobs of the contents in \<open>cs\<close>.
\<close>

definition staging ::
  "path \<Rightarrow> (bytes \<Rightarrow> 'd) \<Rightarrow> ('d \<Rightarrow> string) \<Rightarrow> bool \<Rightarrow> bytes set \<Rightarrow> nodes \<Rightarrow> bool" where
  "staging out dig hex made cs m \<longleftrightarrow>
     absent (fs_key out) m \<and>
     (made \<longrightarrow> m (fs_key (partial_path out)) = Some DirNode) \<and>
     (\<forall>b \<in> cs. m (blob_key (fs_key (partial_path out)) (hex (dig b))) = Some (FileNode b))"

abbreviation stg ::
  "path \<Rightarrow> (bytes \<Rightarrow> 'd) \<Rightarrow> ('d \<Rightarrow> string) \<Rightarrow> bool \<Rightarrow> bytes set \<Rightarrow> 'x fs_scheme \<Rightarrow> bool" where
  "stg out dig hex made cs \<equiv> disk (staging out dig hex made cs) (absent (fs_key out))"

abbreviation clean :: "path \<Rightarrow> 'x fs_scheme \<Rightarrow> bool" where
  "clean out \<equiv> disk (absent (fs_key out)) (absent (fs_key out))"

lemma stg_clean: "stg out dig hex made cs s \<Longrightarrow> clean out s"
  by (auto simp: disk_def staging_def)

lemma stg_mono: "stg out dig hex made cs s \<Longrightarrow> cs' \<subseteq> cs \<Longrightarrow> stg out dig hex made cs' s"
  by (auto simp: disk_def staging_def)

lemma confined_stg:
  assumes "sibling_partial out" and "confined (fs_key (partial_path out)) c"
    and "keeps_blobs (fs_key (partial_path out)) dig hex c"
    and "stg out dig hex made cs s"
  shows "stg out dig hex made cs (snd (c s))"
proof -
  let ?K = "fs_key (partial_path out)" and ?t = "snd (c s)"
  have agree: "agree_outside ?K (fs_nodes s) (fs_nodes ?t)"
    and seen: "m \<in> set (fs_seen ?t) \<Longrightarrow> m \<notin> set (fs_seen s) \<Longrightarrow> agree_outside ?K (fs_nodes s) m" for m
    using assms(2) by (auto simp: confined_def)
  have now: "absent (fs_key out) (fs_nodes s)" and old: "\<forall>m \<in> set (fs_seen s). absent (fs_key out) m"
    using assms(4) by (auto simp: disk_def staging_def)
  have "absent (fs_key out) (fs_nodes ?t)"
    by (rule absent_outside [OF assms(1) now agree])
  moreover have "absent (fs_key out) m" if "m \<in> set (fs_seen ?t)" for m
    using that seen old absent_outside [OF assms(1) now] by blast
  moreover have "made \<longrightarrow> fs_nodes ?t ?K = Some DirNode"
    using assms(4) agree by (auto simp: disk_def staging_def agree_outside_def)
  moreover have "\<forall>b \<in> cs. fs_nodes ?t (blob_key ?K (hex (dig b))) = Some (FileNode b)"
    using assms(3,4) by (auto simp: disk_def staging_def keeps_blobs_def)
  ultimately show ?thesis by (simp add: disk_def staging_def)
qed

lemma triple_confined:
  assumes "sibling_partial out" and "confined (fs_key (partial_path out)) c"
    and "keeps_blobs (fs_key (partial_path out)) dig hex c"
  shows "triple (stg out dig hex made cs) c (\<lambda>_. stg out dig hex made cs) (\<lambda>_. clean out)"
proof (rule tripleI)
  fix s x t
  assume "stg out dig hex made cs s" "c s = (Inr x, t)"
  with confined_stg [OF assms this(1)] show "stg out dig hex made cs t" by simp
next
  fix s e t
  assume "stg out dig hex made cs s" "c s = (Inl e, t)"
  with confined_stg [OF assms this(1)] show "clean out t" by (auto intro: stg_clean)
qed

lemma triple_reads_stg:
  fixes g :: "'a syscall"
  assumes "reads g"
  shows "triple (stg out dig hex made cs) (fs_call g :: ('x fs_scheme, io_error, 'a) io)
    (\<lambda>_. stg out dig hex made cs) (\<lambda>_. clean out)"
  by (rule triple_conseq [OF triple_fs_call [where Q = "\<lambda>_. staging out dig hex made cs"
        and E = "\<lambda>_. absent (fs_key out)"]])
    (use assms in \<open>auto simp: reads_def staging_def split: sum.split, (metis snd_conv empty_iff set_empty)+\<close>)

lemma triple_reads_stg_same:
  fixes g :: "'a syscall"
  assumes "reads g"
  shows "triple (stg out dig hex made cs) (fs_call g :: ('x fs_scheme, io_error, 'a) io)
    (\<lambda>_. stg out dig hex made cs) (\<lambda>_. stg out dig hex made cs)"
  using assms
  by (auto simp: triple_def fs_call_reads disk_def split: prod.split sum.split)

lemma triple_exists_stg:
  "triple (stg out dig hex made cs) (fs_exists p :: ('x fs_scheme, 'e, bool) io)
     (\<lambda>_. stg out dig hex made cs) E"
  unfolding fs_exists_def by (rule triple_fs_query, rule triple_reads_stg_same) simp

lemma triple_try_read_stg:
  "triple (stg out dig hex made cs) (io_try (fs_read p) :: ('x fs_scheme, 'e, _) io)
     (\<lambda>_. stg out dig hex made cs) E"
  unfolding fs_read_def by (rule triple_try, rule triple_reads_stg_same) simp

lemma triple_open_stg:
  "triple (stg out dig hex made cs) (fs_open p :: ('x fs_scheme, io_error, unit) io)
     (\<lambda>_. stg out dig hex made cs) (\<lambda>_. clean out)"
  unfolding fs_open_def fs_metadata_def
  by (rule triple_bind [OF triple_reads_stg]) (auto intro: triple_return)

lemma confined_keeps_tar:
  "triple (stg out dig hex made cs) (build_deterministic_tar lib n entries d :: ('x fs_scheme, io_error, bytes) io)
     (\<lambda>_. stg out dig hex made cs) (\<lambda>_. clean out)"
proof -
  have st: "keeps (still m h) (build_deterministic_tar lib n entries d :: ('x fs_scheme, io_error, bytes) io)"
    for m h
    unfolding build_deterministic_tar_def flatten_all_def append_entry_def
    by (intro keeps_bind keeps_fold keeps_still_flatten keeps_simps)
      (auto split: prod.split flat_entry.split fnode.split
        intro!: keeps_bind keeps_try keeps_still_reads)
  show ?thesis
  proof (rule tripleI)
    fix s t :: "'x fs_scheme" and x
    assume "stg out dig hex made cs s" "build_deterministic_tar lib n entries d s = (Inr x, t)"
    moreover from this(2) have "still (fs_nodes s) (fs_seen s) t"
      using st [of "fs_nodes s" "fs_seen s"] unfolding keeps_def still_def by (metis snd_conv)
    ultimately show "stg out dig hex made cs t" by (simp add: disk_def still_def)
  next
    fix s t :: "'x fs_scheme" and e
    assume "stg out dig hex made cs s" "build_deterministic_tar lib n entries d s = (Inl e, t)"
    moreover from this(2) have "still (fs_nodes s) (fs_seen s) t"
      using st [of "fs_nodes s" "fs_seen s"] unfolding keeps_def still_def by (metis snd_conv)
    ultimately show "clean out t" by (simp add: disk_def still_def staging_def)
  qed
qed

section \<open>One layer\<close>

definition layer_stored ::
  "('s, 'h, 'd, 'c, 'j, 'b) build_lib \<Rightarrow> (bytes \<Rightarrow> 'd) \<Rightarrow> layer \<Rightarrow> 'd layer_result \<Rightarrow> bytes \<Rightarrow> bool" where
  "layer_stored lib dig l r c \<longleftrightarrow>
     lr_digest r = dig c \<and> lr_size r = length c \<and>
     lr_descriptor r =
       \<lparr>od_media_type = media_type_as_str (ly_media_type l),
        od_digest = digest_to_string lib (dig c), od_size = length c, od_annotations = []\<rparr>"

lemma triple_put_counted:
  fixes lib :: "('x fs_scheme, 'h, 'd, 'c, 'j, 'b) build_lib"
  assumes "sibling_partial out" and "cas_contract lib (partial_path out) hs dig hex" and "h \<in> hs"
  shows "triple (stg out dig hex made cs) (put_counted lib rd h i)
    (\<lambda>(d, n) s. \<exists>c. d = dig c \<and> n = length c \<and> stg out dig hex made (insert c cs) s)
    (\<lambda>_. clean out)"
proof -
  let ?K = "fs_key (partial_path out)"
  have conf: "confined ?K (cas_put_stream lib h rd)"
    and keep: "keeps_blobs ?K dig hex (cas_put_stream lib h rd)"
    and stored: "cas_put_stream lib h rd s = (Inr (d, drawn), t) \<Longrightarrow>
      d = dig drawn \<and> fs_nodes t (blob_key ?K (hex d)) = Some (FileNode drawn)" for s t :: "'x fs_scheme" and d drawn
    using assms(2,3) unfolding cas_contract_def by blast+
  have "triple (stg out dig hex made cs) (cas_put_stream lib h rd)
      (\<lambda>(d, drawn) s. d = dig drawn \<and> stg out dig hex made (insert drawn cs) s) (\<lambda>_. clean out)"
  proof (rule tripleI)
    fix s t :: "'x fs_scheme" and x
    assume s: "stg out dig hex made cs s" and run: "cas_put_stream lib h rd s = (Inr x, t)"
    obtain d drawn where x: "x = (d, drawn)" by (cases x)
    from triple_InrD [OF triple_confined [OF assms(1) conf keep] s run]
    have "stg out dig hex made cs t" .
    with stored [of s d drawn t] run x
    show "(case x of (d, drawn) \<Rightarrow> \<lambda>s. d = dig drawn \<and> stg out dig hex made (insert drawn cs) s) t"
      by (auto simp: disk_def staging_def)
  next
    fix s t :: "'x fs_scheme" and e
    assume "stg out dig hex made cs s" "cas_put_stream lib h rd s = (Inl e, t)"
    then show "clean out t"
      using triple_InlD [OF triple_confined [OF assms(1) conf keep]] by blast
  qed
  then show ?thesis
    unfolding put_counted_def
    by (intro triple_bind [OF triple_map_err]) (auto split: prod.split intro!: triple_return)
qed

lemma triple_compress:
  assumes "sibling_partial out" and "cas_contract lib (partial_path out) hs dig hex" and "h \<in> hs"
  shows "triple (stg out dig hex made cs) (stream_through_compression lib compr rd i h)
    (\<lambda>(d, n) s. \<exists>c. d = dig c \<and> n = length c \<and> stg out dig hex made (insert c cs) s)
    (\<lambda>_. clean out)"
proof (cases compr)
  case Zstd
  then show ?thesis
    unfolding stream_through_compression_def
    by (simp, intro triple_bind_fact [OF triple_lift_fact] triple_put_counted [OF assms])
      (rule stg_clean)
qed (simp_all add: stream_through_compression_def triple_put_counted [OF assms])

lemma triple_assemble_layer:
  assumes "sibling_partial out" and "cas_contract lib (partial_path out) hs dig hex" and "h \<in> hs"
  shows "triple (stg out dig hex made cs) (assemble_layer lib fuel l i d h)
    (\<lambda>r s. \<exists>c. layer_stored lib dig l r c \<and> stg out dig hex made (insert c cs) s)
    (\<lambda>_. clean out)"
proof -
  let ?post = "\<lambda>(d, n) s. \<exists>c. d = dig c \<and> n = length c \<and> stg out dig hex made (insert c cs) s"
  let ?src = "case ly_source l of
      Blob p \<Rightarrow> (let resolved = (if path_is_absolute p then p else path_join d p) in
         io_bind (io_map_err (BuildIo resolved) (fs_open resolved)) (\<lambda>_.
         io_bind (io_try (fs_read resolved)) (\<lambda>file.
         stream_through_compression lib (ly_compression l) file i h)))
    | Files entries \<Rightarrow> io_bind (io_map_err (TarBuild i)
         (build_deterministic_tar (lib_tar lib) fuel entries d)) (\<lambda>tar_bytes.
         stream_through_compression lib (ly_compression l) (Inr tar_bytes) i h)"
  have "triple (stg out dig hex made cs) ?src ?post (\<lambda>_. clean out)"
    by (cases "ly_source l")
      (auto simp: Let_def intro!: triple_bind [OF triple_map_err_const [OF triple_open_stg]]
        triple_bind [OF triple_try_read_stg] triple_bind [OF triple_map_err_const [OF confined_keeps_tar]]
        triple_compress [OF assms])
  then show ?thesis
    unfolding assemble_layer_def
    by (rule triple_bind) (auto split: prod.split intro!: triple_return simp: layer_stored_def)
qed

section \<open>All layers, configuration and manifest\<close>

definition layers_stored ::
  "('s, 'h, 'd, 'c, 'j, 'b) build_lib \<Rightarrow> (bytes \<Rightarrow> 'd) \<Rightarrow> layer list \<Rightarrow>
   ('d layer_result \<times> bytes) list \<Rightarrow> bool" where
  "layers_stored lib dig = list_all2 (\<lambda>l rc. layer_stored lib dig l (fst rc) (snd rc))"

lemma triple_assemble_layers:
  assumes "sibling_partial out" and "cas_contract lib (partial_path out) hs dig hex" and "h \<in> hs"
  shows "triple (stg out dig hex made cs)
    (io_collect (\<lambda>i l. assemble_layer lib fuel l i d h) ls)
    (\<lambda>rs s. \<exists>rcs. rs = map fst rcs \<and> layers_stored lib dig ls rcs \<and>
       stg out dig hex made (snd ` set rcs \<union> cs) s) (\<lambda>_. clean out)"
proof -
  have "triple (stg out dig hex made cs)
      (io_collect_from k (\<lambda>i l. assemble_layer lib fuel l i d h) ls)
      (\<lambda>rs s. \<exists>rcs. rs = map fst rcs \<and> layers_stored lib dig ls rcs \<and>
         stg out dig hex made (snd ` set rcs \<union> cs) s) (\<lambda>_. clean out)" for k cs
  proof (induction ls arbitrary: k cs)
    case Nil
    show ?case
      by (simp add: layers_stored_def) (rule triple_return, simp)
  next
    case (Cons l ls)
    show ?case
      unfolding io_collect_from.simps
    proof (rule triple_bind [OF triple_assemble_layer [OF assms]], rule triple_pre_ex,
        rule triple_pre_imp, rule triple_bind [OF Cons.IH], rule triple_pre_ex)
      fix r c rs rcs
      assume "layer_stored lib dig l r c"
      then show "triple (\<lambda>s. rs = map fst rcs \<and> layers_stored lib dig ls rcs \<and>
            stg out dig hex made (snd ` set rcs \<union> insert c cs) s) (io_return (r # rs))
          (\<lambda>rs s. \<exists>rcs. rs = map fst rcs \<and> layers_stored lib dig (l # ls) rcs \<and>
            stg out dig hex made (snd ` set rcs \<union> cs) s) (\<lambda>_. clean out)"
        by (intro triple_return exI [of _ "(r, c) # rcs"]) (simp add: layers_stored_def)
    qed
  qed
  then show ?thesis by (simp add: io_collect_def)
qed

lemma triple_put:
  fixes lib :: "('x fs_scheme, 'h, 'd, 'c, 'j, 'b) build_lib"
  assumes "sibling_partial out" and "cas_contract lib (partial_path out) hs dig hex" and "h \<in> hs"
  shows "triple (stg out dig hex made cs) (cas_put lib h b)
    (\<lambda>d s. stg out dig hex made (insert b cs) s \<and> d = dig b) (\<lambda>_. clean out)"
proof -
  let ?K = "fs_key (partial_path out)"
  have conf: "confined ?K (cas_put lib h b)" and keep: "keeps_blobs ?K dig hex (cas_put lib h b)"
    and stored: "cas_put lib h b s = (Inr d, t) \<Longrightarrow>
      d = dig b \<and> fs_nodes t (blob_key ?K (hex d)) = Some (FileNode b)"
    for s t :: "'x fs_scheme" and d
    using assms(2,3) unfolding cas_contract_def by blast+
  show ?thesis
  proof (rule tripleI)
    fix s t :: "'x fs_scheme" and d
    assume s: "stg out dig hex made cs s" and run: "cas_put lib h b s = (Inr d, t)"
    from triple_InrD [OF triple_confined [OF assms(1) conf keep] s run] stored [OF run]
    show "stg out dig hex made (insert b cs) t \<and> d = dig b"
      by (auto simp: disk_def staging_def)
  next
    fix s t :: "'x fs_scheme" and e
    assume "stg out dig hex made cs s" "cas_put lib h b s = (Inl e, t)"
    then show "clean out t"
      using triple_InlD [OF triple_confined [OF assms(1) conf keep]] by blast
  qed
qed

text \<open>The two documents, as they are stored.\<close>

definition manifest_for ::
  "('s, 'h, 'd, 'c, 'j, 'b) build_lib \<Rightarrow> (bytes \<Rightarrow> 'd) \<Rightarrow> spec \<Rightarrow> bytes \<Rightarrow>
   oci_descriptor list \<Rightarrow> oci_manifest" where
  "manifest_for lib dig sp config_bytes layers =
     \<lparr>om_schema_version = 2, om_media_type = media_type_oci_manifest,
      om_config = \<lparr>od_media_type = media_type_oci_config,
        od_digest = digest_to_string lib (dig config_bytes),
        od_size = length config_bytes, od_annotations = []\<rparr>,
      om_layers = layers, om_annotations = sp_annotations sp\<rparr>"

definition documents_stored ::
  "('s, 'h, 'd, 'c, 'j, 'b) build_lib \<Rightarrow> (bytes \<Rightarrow> 'd) \<Rightarrow> spec \<Rightarrow> oci_descriptor list \<Rightarrow>
   'd assembled_manifest \<Rightarrow> bytes \<Rightarrow> bytes \<Rightarrow> bool" where
  "documents_stored lib dig sp layers a cb mb \<longleftrightarrow>
     json_to_vec lib (image_config_to_json (build_image_config sp)) = Inr cb \<and>
     json_to_vec lib (manifest_to_json (manifest_for lib dig sp cb layers)) = Inr mb \<and>
     am_config_digest a = dig cb \<and> am_manifest_digest a = dig mb \<and>
     am_manifest_descriptor a =
       \<lparr>od_media_type = media_type_oci_manifest, od_digest = digest_to_string lib (dig mb),
        od_size = length mb, od_annotations = []\<rparr>"

lemma triple_assemble_documents:
  assumes "sibling_partial out" and "cas_contract lib (partial_path out) hs dig hex" and "h \<in> hs"
  shows "triple (stg out dig hex made cs) (assemble_config_and_manifest lib sp layers h)
    (\<lambda>a s. \<exists>cb mb. documents_stored lib dig sp layers a cb mb \<and>
       stg out dig hex made (insert cb (insert mb cs)) s) (\<lambda>_. clean out)"
  unfolding assemble_config_and_manifest_def
proof (rule triple_bind_fact [OF triple_lift_fact], erule stg_clean,
    rule triple_bind [OF triple_map_err_const [OF triple_put [OF assms]]])
  fix cb cd
  assume cb: "map_err BuildJson (json_to_vec lib (image_config_to_json (build_image_config sp))) = Inr cb"
  let ?rest = "\<lambda>cd. io_bind (io_lift (map_err BuildJson (json_to_vec lib (manifest_to_json
       \<lparr>om_schema_version = 2, om_media_type = media_type_oci_manifest,
        om_config = \<lparr>od_media_type = media_type_oci_config, od_digest = digest_to_string lib cd,
           od_size = length cb, od_annotations = []\<rparr>,
        om_layers = layers, om_annotations = sp_annotations sp\<rparr>)))) (\<lambda>mb.
     io_bind (io_map_err ManifestWrite (cas_put lib h mb)) (\<lambda>md.
     io_return
       \<lparr>am_config_digest = cd, am_manifest_digest = md,
        am_manifest_descriptor =
          \<lparr>od_media_type = media_type_oci_manifest, od_digest = digest_to_string lib md,
           od_size = length mb, od_annotations = []\<rparr>\<rparr>))"
  have "triple (stg out dig hex made (insert cb cs)) (?rest (dig cb))
      (\<lambda>a s. \<exists>cb mb. documents_stored lib dig sp layers a cb mb \<and>
         stg out dig hex made (insert cb (insert mb cs)) s) (\<lambda>_. clean out)"
    using cb
    by (intro triple_bind_fact [OF triple_lift_fact]
        triple_bind [OF triple_map_err_const [OF triple_put [OF assms]]] triple_return)
      (auto simp: documents_stored_def manifest_for_def insert_commute intro: stg_clean)
  then show "triple (\<lambda>s. stg out dig hex made (insert cb cs) s \<and> cd = dig cb) (?rest cd)
      (\<lambda>a s. \<exists>cb mb. documents_stored lib dig sp layers a cb mb \<and>
         stg out dig hex made (insert cb (insert mb cs)) s) (\<lambda>_. clean out)"
    by (auto simp: triple_def)
qed

section \<open>Directories and files of the staging phase\<close>

lemma make_dirs_last:
  "last (m # make_dirs ks m) = (\<lambda>k. if k \<in> set ks then Some DirNode else m k)"
proof (induction ks arbitrary: m)
  case Nil
  then show ?case by simp
next
  case (Cons k ks)
  have "last (m # make_dirs (k # ks) m) = last (m(k \<mapsto> DirNode) # make_dirs ks (m(k \<mapsto> DirNode)))"
    by (simp add: Let_def)
  also have "\<dots> = (\<lambda>k'. if k' \<in> set ks then Some DirNode else (m(k \<mapsto> DirNode)) k')"
    by (rule Cons.IH)
  finally show ?case by (auto simp: fun_eq_iff)
qed

lemma make_dirs_mem:
  "m' \<in> set (make_dirs ks m) \<Longrightarrow> m' k = m k \<or> (k \<in> set ks \<and> m' k = Some DirNode)"
proof (induction ks arbitrary: m)
  case Nil
  then show ?case by simp
next
  case (Cons k' ks)
  from Cons.prems consider "m' = m(k' \<mapsto> DirNode)" | "m' \<in> set (make_dirs ks (m(k' \<mapsto> DirNode)))"
    by (auto simp: Let_def)
  then show ?case
  proof cases
    case 1
    then show ?thesis by simp
  next
    case 2
    from Cons.IH [OF this] show ?thesis by (cases "k = k'") auto
  qed
qed

lemma absent_make_dirs:
  assumes "absent K m" and "\<And>k. k \<in> set ks \<Longrightarrow> \<not> under K k" and "m' \<in> set (m # make_dirs ks m)"
  shows "absent K m'"
  unfolding absent_def
proof (intro allI impI)
  fix k
  assume u: "under K k"
  then have "m k = None" "k \<notin> set ks" using assms(1,2) by (auto simp: absent_def)
  with assms(3) make_dirs_mem [of m' ks m k] show "m' k = None" by auto
qed

lemma triple_create_partial:
  assumes "sibling_partial out"
  shows "triple (clean out) (fs_create_dir_all (partial_path out))
    (\<lambda>_. stg out dig hex True {}) (\<lambda>_. clean out)"
  unfolding fs_create_dir_all_def
proof (rule triple_fs_call)
  fix ord f r and m :: nodes and ms :: "nodes list"
  let ?K = "fs_key (partial_path out)"
  let ?ks = "prefixes_of ?K" and ?new = "filter (\<lambda>k. m k = None) (prefixes_of ?K)"
  assume m: "absent (fs_key out) m"
    and call: "call_create_dir_all (partial_path out) ord m f = (r, ms)"
  have clean_dirs: "absent (fs_key out) m'" if "m' \<in> set (m # make_dirs ks m)" "set ks \<subseteq> set ?ks" for m' ks
    by (rule absent_make_dirs [OF m _ that(1)]) (use that(2) not_prefix_of_partial [OF assms] in blast)
  have sub: "set (take n ?new) \<subseteq> set ?ks" for n
    by (meson filter_is_subset set_take_subset subset_trans)
  have mem: "?K \<in> set ?ks"
    unfolding prefixes_of_def set_map
    by (rule image_eqI [of _ _ "length ?K"])
      (use assms in \<open>auto simp: sibling_partial_def Suc_le_eq\<close>)
  have nonempty: "partial_path out \<noteq> []" by (simp add: partial_path_def)
  have ne: "m' \<in> set ms \<Longrightarrow> absent (fs_key out) m'" for m'
    using call clean_dirs [of m' "?new"] clean_dirs [of m' "take n ?new" for n] sub
    by (auto simp: call_create_dir_all_def Let_def nonempty io_err_def
        split: if_splits option.splits io_fault.splits)
  have last_ok: "absent (fs_key out) (last (m # ms))"
    using ne m by (cases "ms = []") auto
  have made: "r = Inr u \<Longrightarrow> last (m # ms) ?K = Some DirNode" for u
  proof -
    assume "r = Inr u"
    then have ms: "ms = make_dirs ?new m"
      and dirs: "\<not> list_ex (\<lambda>k. m k \<noteq> None \<and> m k \<noteq> Some DirNode) ?ks"
      using call
      by (auto simp: call_create_dir_all_def Let_def nonempty io_err_def
          split: if_splits option.splits io_fault.splits)
    from dirs mem have "m ?K = None \<or> m ?K = Some DirNode" by (auto simp: list_ex_iff)
    then show ?thesis
      unfolding ms make_dirs_last using mem by auto
  qed
  show "(\<forall>m' \<in> set ms. absent (fs_key out) m') \<and>
      (case r of Inr x \<Rightarrow> staging out dig hex True {} (last (m # ms))
       | Inl e \<Rightarrow> absent (fs_key out) (last (m # ms)))"
    using ne last_ok made by (cases r) (auto simp: staging_def)
qed

lemma triple_clear_partial:
  "triple (clean out) (clear_partial p) (\<lambda>_. clean out) (\<lambda>_. clean out)"
proof -
  have "triple (clean out) (fs_remove_dir_all p) (\<lambda>_. clean out) (\<lambda>_. clean out)"
    unfolding fs_remove_dir_all_def
    by (rule triple_fs_call)
      (auto simp: call_remove_dir_all_def absent_def io_err_def
        split: option.splits io_fault.splits fnode.splits if_splits)
  moreover have "triple (clean out) (fs_exists p) (\<lambda>_. clean out) (\<lambda>_. clean out)"
    unfolding fs_exists_def
    by (rule triple_fs_query)
      (simp add: triple_def fs_call_reads disk_def split: prod.split sum.split)
  ultimately show ?thesis
    unfolding clear_partial_def
    by (auto intro!: triple_bind triple_map_err_const triple_return triple_if)
qed

lemma triple_write_file:
  assumes "p \<noteq> []" and "\<And>m v. P m \<Longrightarrow> P (m(fs_key p \<mapsto> v))" and "\<And>m. P m \<Longrightarrow> J m"
  shows "triple (disk P J) (fs_write p bs)
    (\<lambda>_. disk (\<lambda>m. P m \<and> m (fs_key p) = Some (FileNode bs)) J) (\<lambda>_. disk P J)"
  unfolding fs_write_def
proof (rule triple_fs_call)
  fix ord f r and m :: nodes and ms :: "nodes list"
  assume m: "P m" and call: "call_write p bs ord m f = (r, ms)"
  have wr: "m' \<in> set (written (fs_key p) bs n m) \<Longrightarrow> P m'" for m' n
    using assms(2) [OF m] by (auto simp: written_def)
  have last_wr: "last (m # written (fs_key p) bs n m) = m(fs_key p \<mapsto> FileNode (take n bs))" for n
    by (simp add: written_def)
  from call have "(\<exists>e. r = Inl e \<and> ms = []) \<or> (\<exists>e n. r = Inl e \<and> ms = written (fs_key p) bs n m) \<or>
      (r = Inr () \<and> ms = written (fs_key p) bs (length bs) m)"
    by (auto simp: call_write_def Let_def io_err_def split: if_splits option.splits io_fault.splits)
  then show "(\<forall>m' \<in> set ms. J m') \<and>
      (case r of Inr x \<Rightarrow> P (last (m # ms)) \<and> last (m # ms) (fs_key p) = Some (FileNode bs)
       | Inl e \<Rightarrow> P (last (m # ms)))"
    using m wr assms(2) [OF m] assms(3) by (auto simp: last_wr last_ConsL simp del: last.simps)
qed

section \<open>The staged layout\<close>

definition layout_at ::
  "fkey \<Rightarrow> (bytes \<Rightarrow> 'd) \<Rightarrow> ('d \<Rightarrow> string) \<Rightarrow> bytes set \<Rightarrow> bytes \<Rightarrow> bytes \<Rightarrow> nodes \<Rightarrow> bool" where
  "layout_at K dig hex cs lb ib m \<longleftrightarrow>
     m K = Some DirNode \<and>
     m (K @ [''oci-layout'']) = Some (FileNode lb) \<and>
     m (K @ [''index.json'']) = Some (FileNode ib) \<and>
     (\<forall>b \<in> cs. m (blob_key K (hex (dig b))) = Some (FileNode b))"

text \<open>
  What the stage has produced: every layer in order, the configuration and the manifest that
  lists them, the index that names the manifest, and the layout marker.
\<close>

definition build_result ::
  "('s, 'h, 'd, 'c, 'j, 'b) build_lib \<Rightarrow> (bytes \<Rightarrow> 'd) \<Rightarrow> spec \<Rightarrow> 'd assembled_manifest \<Rightarrow>
   'd list \<Rightarrow> bytes set \<Rightarrow> bytes \<Rightarrow> bytes \<Rightarrow> bool" where
  "build_result lib dig sp a ds cs lb ib \<longleftrightarrow>
     (\<exists>rcs cb mb.
        layers_stored lib dig (sp_layers sp) rcs \<and> ds = map (lr_digest \<circ> fst) rcs \<and>
        documents_stored lib dig sp (map (lr_descriptor \<circ> fst) rcs) a cb mb \<and>
        cs = insert cb (insert mb (snd ` set rcs)) \<and>
        json_to_vec lib (layout_to_json oci_layout_pinned) = Inr lb \<and>
        json_to_vec lib (index_to_json
          \<lparr>oi_schema_version = 2, oi_media_type = media_type_oci_index,
           oi_manifests = [am_manifest_descriptor a], oi_annotations = []\<rparr>) = Inr ib)"

definition ready ::
  "path \<Rightarrow> (bytes \<Rightarrow> 'd) \<Rightarrow> ('d \<Rightarrow> string) \<Rightarrow> bytes set \<Rightarrow> bytes \<Rightarrow> bytes \<Rightarrow> nodes \<Rightarrow> bool" where
  "ready out dig hex cs lb ib m \<longleftrightarrow>
     absent (fs_key out) m \<and> layout_at (fs_key (partial_path out)) dig hex cs lb ib m"

lemma staging_absent: "staging out dig hex made cs m \<Longrightarrow> absent (fs_key out) m"
  by (simp add: staging_def)

lemma staged_ready:
  "staging out dig hex True cs m \<Longrightarrow>
   m (fs_key (partial_path out) @ [''oci-layout'']) = Some (FileNode lb) \<Longrightarrow>
   m (fs_key (partial_path out) @ [''index.json'']) = Some (FileNode ib) \<Longrightarrow>
   ready out dig hex cs lb ib m"
  by (simp add: staging_def ready_def layout_at_def)

lemma staging_upd:
  assumes "sibling_partial out" and "staging out dig hex made cs m"
  shows "staging out dig hex made cs (m(fs_key (partial_path out) @ [x] \<mapsto> v))"
  using assms(2) not_under_partial [OF assms(1), of "fs_key (partial_path out) @ [x]"]
  by (auto simp: staging_def absent_def blob_key_def)

lemma triple_stage:
  assumes "sibling_partial out" and "cas_contract lib (partial_path out) hs dig hex"
  shows "triple (clean out) (stage_layout lib fuel loaded (partial_path out))
    (\<lambda>(a, ds) s. \<exists>cs lb ib. build_result lib dig (ls_spec loaded) a ds cs lb ib \<and>
       disk (ready out dig hex cs lb ib) (absent (fs_key out)) s)
    (\<lambda>_. clean out)"
proof -
  let ?p = "partial_path out"
  let ?K = "fs_key ?p" and ?ls = "sp_layers (ls_spec loaded)" and ?sp = "ls_spec loaded"
  let ?post = "\<lambda>(a, ds) s. \<exists>cs lb ib. build_result lib dig ?sp a ds cs lb ib \<and>
       disk (ready out dig hex cs lb ib) (absent (fs_key out)) s"
  have keys: "fs_key (path_join ?p ''oci-layout'') = ?K @ [''oci-layout'']"
    "fs_key (path_join ?p ''index.json'') = ?K @ [''index.json'']"
    by (simp_all add: fs_key_join_plain plain_name_def)
  have new: "triple (stg out dig hex True {}) (cas_new lib ?p)
      (\<lambda>h s. stg out dig hex True {} s \<and> h \<in> hs) (\<lambda>_. clean out)"
    by (rule triple_result [OF triple_confined [OF assms(1)]])
      (use assms(2) in \<open>auto simp: cas_contract_def\<close>)
  have write_layout: "triple (stg out dig hex True cs)
      (io_map_err (BuildIo (path_join ?p ''oci-layout'')) (fs_write (path_join ?p ''oci-layout'') lb))
      (\<lambda>_. disk (\<lambda>m. staging out dig hex True cs m \<and> m (?K @ [''oci-layout'']) = Some (FileNode lb))
         (absent (fs_key out))) (\<lambda>_. clean out)" for cs lb
    by (rule triple_map_err_const, rule triple_conseq [OF triple_write_file [of _ "staging out dig hex True cs"
          "absent (fs_key out)" lb]])
      (auto simp: path_join_not_Nil keys staging_upd [OF assms(1)] stg_clean staging_absent)
  have write_index: "triple
      (disk (\<lambda>m. staging out dig hex True cs m \<and> m (?K @ [''oci-layout'']) = Some (FileNode lb))
         (absent (fs_key out)))
      (io_map_err (BuildIo (path_join ?p ''index.json'')) (fs_write (path_join ?p ''index.json'') ib))
      (\<lambda>_. disk (ready out dig hex cs lb ib) (absent (fs_key out))) (\<lambda>_. clean out)" for cs lb ib
    by (rule triple_map_err_const, rule triple_conseq [OF triple_write_file [of _
          "\<lambda>m. staging out dig hex True cs m \<and> m (?K @ [''oci-layout'']) = Some (FileNode lb)"
          "absent (fs_key out)" ib]])
      (auto simp: path_join_not_Nil keys staging_upd [OF assms(1)] staging_absent disk_def
        staged_ready)
  show ?thesis
    unfolding stage_layout_def
  proof (rule triple_bind [OF triple_clear_partial],
      rule triple_bind [OF triple_map_err_const [OF triple_create_partial [OF assms(1)]]],
      rule triple_bind_fact [OF triple_map_err_const [OF new]],
      rule triple_bind [OF triple_assemble_layers [OF assms]], assumption,
      rule triple_pre_ex, rule triple_pre_imp, rule triple_pre_imp,
      rule triple_bind_fact [OF triple_lift_fact], erule stg_clean,
      rule triple_bind [OF triple_assemble_documents [OF assms]], assumption,
      rule triple_pre_ex, rule triple_pre_ex, rule triple_pre_imp,
      rule triple_bind_fact [OF triple_lift_fact], erule stg_clean,
      rule triple_bind [OF write_layout],
      rule triple_bind_fact [OF triple_lift_fact], simp add: disk_def staging_def,
      rule triple_bind [OF write_index], rule triple_return)
    fix h rs rcs u a cb mb lb u2 ib u3 s
    assume rs: "rs = map fst rcs" "layers_stored lib dig ?ls rcs"
      and docs: "documents_stored lib dig ?sp (map lr_descriptor rs) a cb mb"
      and lb: "map_err BuildJson (json_to_vec lib (layout_to_json oci_layout_pinned)) = Inr lb"
      and ib: "map_err BuildJson (json_to_vec lib (index_to_json
          \<lparr>oi_schema_version = 2, oi_media_type = media_type_oci_index,
           oi_manifests = [am_manifest_descriptor a], oi_annotations = []\<rparr>)) = Inr ib"
      and s: "disk (ready out dig hex (insert cb (insert mb (snd ` set rcs \<union> {}))) lb ib)
         (absent (fs_key out)) s"
    have "build_result lib dig ?sp a (map lr_digest rs) (insert cb (insert mb (snd ` set rcs))) lb ib"
      unfolding build_result_def
      by (intro exI [of _ rcs] exI [of _ cb] exI [of _ mb])
        (use rs docs lb ib in \<open>simp add: comp_def\<close>)
    with s show "?post (a, map lr_digest rs) s" by auto
  qed
qed

section \<open>The promotion\<close>

lemma rename_partial:
  assumes "sibling_partial out" and "disk (ready out dig hex cs lb ib) (absent (fs_key out)) s"
    and run: "fs_rename (partial_path out) out s = (r, t)"
  shows "(r = Inr () \<and> layout_at (fs_key out) dig hex cs lb ib (fs_nodes t) \<and>
          absent (fs_key (partial_path out)) (fs_nodes t) \<and>
          fs_seen t = fs_seen s @ [fs_nodes t]) \<or>
         (\<not> is_ok r \<and> fs_nodes t = fs_nodes s \<and> fs_seen t = fs_seen s)"
proof -
  let ?K = "fs_key (partial_path out)" and ?O = "fs_key out" and ?m = "fs_nodes s"
  have rdy: "absent ?O ?m" "layout_at ?K dig hex cs lb ib ?m"
    using assms(2) by (simp_all add: disk_def ready_def)
  have dir: "look (partial_path out) ?m = Some DirNode"
    using rdy(2) by (simp add: look_def layout_at_def partial_path_def)
  have none: "look out ?m = None"
    using rdy(1) by (simp add: look_def absent_def under_def)
  have diff: "?K \<noteq> ?O"
    using not_under_partial [OF assms(1), of ?O] by (auto simp: under_def)
  obtain r' ms where call: "call_rename (partial_path out) out (fs_order s) ?m (next_fault s) = (r', ms)"
    by (cases "call_rename (partial_path out) out (fs_order s) ?m (next_fault s)")
  from run call have t: "r' = r" "fs_nodes t = last (?m # ms)" "fs_seen t = fs_seen s @ ms"
    by (auto simp: fs_rename_def fs_call_def next_fault_def)
  from call dir none diff consider "\<not> is_ok r'" "ms = []" | "r' = Inr ()" "ms = [moved ?K ?O ?m]"
    by (auto simp: call_rename_def Let_def io_err_def split: option.splits io_fault.splits if_splits)
  then show ?thesis
  proof cases
    case 1
    with t show ?thesis by simp
  next
    case 2
    have at: "moved ?K ?O ?m (?O @ x) = ?m (?K @ x)" for x
      by (simp add: moved_def)
    have "layout_at ?O dig hex cs lb ib (moved ?K ?O ?m)"
      using rdy(2) at [of "[]"] by (simp add: layout_at_def blob_key_def at)
    moreover have "absent ?K (moved ?K ?O ?m)"
      using not_under_partial [OF assms(1)] by (auto simp: absent_def moved_def)
    ultimately show ?thesis using 2 t by simp
  qed
qed

text \<open>The build, seen from before and after its last call.\<close>

lemma build_cases:
  fixes lib :: "('x fs_scheme, 'h, 'd, 'c, 'j, 'b) build_lib"
  assumes "sibling_partial out" and "cas_contract lib (partial_path out) hs dig hex"
    and "clean out s" and run: "build lib fuel loaded out s = (r, t)"
  shows "(\<not> is_ok r \<and> clean out t) \<or>
    (\<exists>o' a ds cs lb ib. r = Inr o' \<and> build_result lib dig (ls_spec loaded) a ds cs lb ib \<and>
       o' = \<lparr>bo_manifest_digest = am_manifest_digest a, bo_config_digest = am_config_digest a,
             bo_layer_digests = ds, bo_output_dir = out\<rparr> \<and>
       layout_at (fs_key out) dig hex cs lb ib (fs_nodes t) \<and>
       absent (fs_key (partial_path out)) (fs_nodes t) \<and>
       (\<forall>m \<in> set (fs_seen t). absent (fs_key out) m \<or> m = fs_nodes t))"
proof -
  let ?ex = "fs_exists out :: ('x fs_scheme, ('c, 'j) build_error, bool) io"
  obtain present u where ex: "?ex s = (Inr present, u)"
    by (cases "?ex s") (auto simp: fs_exists_def fs_query_def split: prod.splits sum.splits)
  have "triple (clean out) ?ex (\<lambda>_. clean out) (\<lambda>_. clean out)"
    unfolding fs_exists_def
    by (rule triple_fs_query)
      (simp add: triple_def fs_call_reads disk_def split: prod.split sum.split)
  from triple_InrD [OF this assms(3) ex] have u: "clean out u" .
  show ?thesis
  proof (cases present)
    case True
    with run ex u show ?thesis by (auto simp: build_def io_bind_def io_fail_def)
  next
    case False
    obtain sr v where st: "stage_layout lib fuel loaded (partial_path out) u = (sr, v)"
      by (cases "stage_layout lib fuel loaded (partial_path out) u")
    show ?thesis
    proof (cases sr)
      case (Inl e)
      with triple_InlD [OF triple_stage [OF assms(1,2)] u] st have "clean out v" by blast
      with run ex False st Inl show ?thesis by (auto simp: build_def io_bind_def)
    next
      case (Inr ads)
      obtain a ds where ads: "ads = (a, ds)" by (cases ads)
      with triple_InrD [OF triple_stage [OF assms(1,2)] u] st Inr obtain cs lb ib where
        res: "build_result lib dig (ls_spec loaded) a ds cs lb ib"
        and v: "disk (ready out dig hex cs lb ib) (absent (fs_key out)) v"
        by fastforce
      obtain rr w where rn: "fs_rename (partial_path out) out v = (rr, w)"
        by (cases "fs_rename (partial_path out) out v")
      from rename_partial [OF assms(1) v rn] show ?thesis
      proof (elim disjE conjE)
        assume ok: "rr = Inr ()" and lay: "layout_at (fs_key out) dig hex cs lb ib (fs_nodes w)"
          and gone: "absent (fs_key (partial_path out)) (fs_nodes w)"
          and seen: "fs_seen w = fs_seen v @ [fs_nodes w]"
        have "t = w" "r = Inr \<lparr>bo_manifest_digest = am_manifest_digest a,
            bo_config_digest = am_config_digest a, bo_layer_digests = ds, bo_output_dir = out\<rparr>"
          using run ex False st Inr ads rn ok
          by (simp_all add: build_def io_bind_def io_map_err_def io_return_def)
        moreover have "\<forall>m \<in> set (fs_seen w). absent (fs_key out) m \<or> m = fs_nodes w"
          using v seen by (auto simp: disk_def)
        ultimately show ?thesis using res lay gone by blast
      next
        assume "\<not> is_ok rr" "fs_nodes w = fs_nodes v" "fs_seen w = fs_seen v"
        moreover from this(1) have "\<not> is_ok r \<and> t = w"
          using run ex False st Inr ads rn
          by (cases rr) (auto simp: build_def io_bind_def io_map_err_def)
        ultimately show ?thesis
          using v by (auto simp: disk_def ready_def)
      qed
    qed
  qed
qed

section \<open>Concrete inputs\<close>

text \<open>
  A store that names a blob by its content and writes it in one step, with a serialiser that
  gives the same bytes for every document.
\<close>

definition tiny_put :: "path \<Rightarrow> bytes \<Rightarrow> (fs, unit, bytes) io" where
  "tiny_put h b = (\<lambda>s.
     let m = (fs_nodes s)(blob_key (fs_key h) (CHR ''h'' # b) \<mapsto> FileNode b)
     in (Inr b, s\<lparr>fs_nodes := m, fs_seen := fs_seen s @ [m]\<rparr>))"

definition tiny_lib ::
  "(fs, path, bytes, unit, unit, (tar_header \<times> string \<times> bytes) list) build_lib" where
  "tiny_lib =
     \<lparr>cas_new = (\<lambda>root. io_return root),
      cas_put = tiny_put,
      cas_put_stream = (\<lambda>h rd. case rd of
         Inl _ \<Rightarrow> io_fail ()
       | Inr b \<Rightarrow> io_bind (tiny_put h b) (\<lambda>d. io_return (d, b))),
      digest_to_string = (\<lambda>d. ''sha256:h'' @ d),
      gz_encoder = (\<lambda>rd. rd), zstd_encoder = Inr,
      json_to_vec = (\<lambda>_. Inr ''{}''),
      lib_tar = listing_lib\<rparr>"

lemma tiny_put_confined: "confined (fs_key root) (tiny_put root b)"
  by (auto simp: confined_def tiny_put_def Let_def agree_outside_def blob_key_def)

lemma tiny_put_keeps: "keeps_blobs (fs_key root) id ((#) (CHR ''h'')) (tiny_put root b)"
  by (auto simp: keeps_blobs_def tiny_put_def Let_def blob_key_def)

lemma tiny_contract: "cas_contract tiny_lib root {root} id ((#) (CHR ''h''))"
proof -
  have ret: "confined (fs_key root) (io_return x :: (fs, 'e, 'a) io)"
    "keeps_blobs (fs_key root) id ((#) (CHR ''h'')) (io_return x :: (fs, 'e, 'a) io)"
    "confined (fs_key root) (io_fail y :: (fs, 'e, 'a) io)"
    "keeps_blobs (fs_key root) id ((#) (CHR ''h'')) (io_fail y :: (fs, 'e, 'a) io)" for x y
    by (simp_all add: confined_def keeps_blobs_def io_return_def io_fail_def agree_outside_def)
  have bind: "snd (io_bind (tiny_put root b) (\<lambda>d. io_return (d, b)) s) = snd (tiny_put root b s)" for b s
    by (simp add: io_bind_def tiny_put_def Let_def io_return_def)
  have stream: "confined (fs_key root) (io_bind (tiny_put root b) (\<lambda>d. io_return (d, b)))"
    "keeps_blobs (fs_key root) id ((#) (CHR ''h'')) (io_bind (tiny_put root b) (\<lambda>d. io_return (d, b)))" for b
    using tiny_put_confined [of root b] tiny_put_keeps [of root b]
    by (simp_all add: confined_def keeps_blobs_def bind)
  have runs: "tiny_put root b s = (Inr d, t) \<longleftrightarrow> d = b \<and> t = snd (tiny_put root b s)"
    "fs_nodes (snd (tiny_put root b s)) (blob_key (fs_key root) (CHR ''h'' # b)) = Some (FileNode b)"
    "io_bind (tiny_put root b) (\<lambda>d. io_return (d, b)) s = (Inr dd, t) \<longleftrightarrow>
       dd = (b, b) \<and> t = snd (tiny_put root b s)"
    "(io_return root :: (fs, unit, path) io) s = (Inr h, t) \<longleftrightarrow> h = root \<and> t = s"
    "\<not> ((io_fail () :: (fs, unit, bytes \<times> bytes) io) s = (Inr dd, t))" for b s d t dd h
    by (auto simp: tiny_put_def Let_def io_bind_def io_return_def io_fail_def)
  show ?thesis
    unfolding cas_contract_def tiny_lib_def
    by (auto simp: ret stream tiny_put_confined tiny_put_keeps runs split: sum.split)
qed

definition built_spec :: loaded_spec where
  "built_spec = \<lparr>ls_spec = sample_spec, ls_spec_dir = ''/d''\<rparr>"

text \<open>
  An output path with a trailing slash puts the partial directory inside the output: the
  build leaves a half-written output directory behind and fails. The comment of \<open>build\<close> says
  that the final directory is never created on a failed build.
\<close>

lemma trailing_slash_leaves_half_written_output:
  "let (r, t) = build tiny_lib 1 built_spec ''/o/'' (sample_fs\<lparr>fs_order := (\<lambda>_. [''.partial''])\<rparr>)
   in r = Inl (BuildIo ''/o/'' (IoError DirectoryNotEmpty [])) \<and>
      fs_nodes t [''/'', ''o''] = Some DirNode \<and>
      fs_nodes t [''/'', ''o'', ''index.json''] = None"
  by code_simp

section \<open>Properties\<close>


lemma tiny_build_runs:
  "is_ok (fst (build tiny_lib 1 built_spec ''/out'' sample_fs)) \<and>
   fs_nodes (snd (build tiny_lib 1 built_spec ''/out'' sample_fs)) [''/'', ''out''] = Some DirNode"
  by code_simp

lemma out_sibling: "sibling_partial ''/out''"
  by code_simp

lemma out_absent: "absent (fs_key ''/out'') (fs_nodes sample_fs)"
proof -
  have "fs_key ''/out'' = [''/'', ''out'']" by code_simp
  then show ?thesis by (auto simp: absent_def sample_fs_def under_iff)
qed


text \<open>
  C21: A successful build is complete and self-consistent: the output directory holds the
  layout marker, an index with exactly one descriptor that names the manifest by digest and
  size, the manifest blob, the configuration blob it names, and one blob per layer of the
  specification, in order, with the media types verbatim and each digest and size those of
  the stored bytes; the digests returned are these; the partial directory is gone.
\<close>

theorem build_complete:
  assumes "sibling_partial out" and "cas_contract lib (partial_path out) hs dig hex"
    and "absent (fs_key out) (fs_nodes s)" and "fs_seen s = []"
    and "build lib fuel loaded out s = (Inr res, t)"
  shows "\<exists>a cs lb ib.
    build_result lib dig (ls_spec loaded) a (bo_layer_digests res) cs lb ib \<and>
    bo_manifest_digest res = am_manifest_digest a \<and> bo_config_digest res = am_config_digest a \<and>
    bo_output_dir res = out \<and>
    layout_at (fs_key out) dig hex cs lb ib (fs_nodes t) \<and>
    absent (fs_key (partial_path out)) (fs_nodes t)"
proof -
  have "clean out s" using assms(3,4) by (simp add: disk_def)
  from build_cases [OF assms(1,2) this assms(5)] obtain a ds cs lb ib where
    "build_result lib dig (ls_spec loaded) a ds cs lb ib"
    "res = \<lparr>bo_manifest_digest = am_manifest_digest a, bo_config_digest = am_config_digest a,
       bo_layer_digests = ds, bo_output_dir = out\<rparr>"
    "layout_at (fs_key out) dig hex cs lb ib (fs_nodes t)"
    "absent (fs_key (partial_path out)) (fs_nodes t)"
    by auto
  then show ?thesis
    by (intro exI [of _ a] exI [of _ cs] exI [of _ lb] exI [of _ ib]) simp
qed

theorem build_complete_witness:
  "\<exists>cs lb ib. layout_at (fs_key ''/out'') id ((#) (CHR ''h'')) cs lb ib
     (fs_nodes (snd (build tiny_lib 1 built_spec ''/out'' sample_fs)))"
proof -
  obtain res where "fst (build tiny_lib 1 built_spec ''/out'' sample_fs) = Inr res"
    using tiny_build_runs by (auto simp: is_ok_iff)
  from build_complete [OF out_sibling tiny_contract out_absent _ run_eq [OF this]]
  show ?thesis by (auto simp: sample_fs_def)
qed

text \<open>
  An existing output is never touched: without faults, \<open>build\<close> refuses it and changes
  nothing at all.
\<close>

theorem build_refuses_existing:
  assumes "fs_faults s = []" and "look out (fs_nodes s) \<noteq> None"
  shows "build lib fuel loaded out s = (Inl (BuildIo out (IoError AlreadyExists
    [Txt ''output_dir already exists; remove it before rebuilding''])), s)"
  using assms by (simp add: build_def io_bind_def exists_no_fault io_fail_def)

theorem build_refuses_existing_witness:
  "snd (build tiny_lib 1 built_spec ''/d'' sample_fs) = sample_fs"
proof -
  have "look ''/d'' (fs_nodes sample_fs) \<noteq> None" by code_simp
  from build_refuses_existing [OF no_faults_sample this, of tiny_lib] show ?thesis by simp
qed

end
