(* ===== verification/Referrers.thy ===== *)
theory Referrers
  imports Cli_Error Hex
begin

text \<open>
  \<open>cli/src/referrers.rs\<close>: the outputs of an attestation become referrer manifests of the
  image directory, and \<open>index.json\<close> is rewritten to list them. A \<open>Value\<close> made by \<open>json!\<close>
  is a \<open>Map\<close> filled by insertions. SHA-256, the parser and the printer are fields of
  \<open>referrer_lib\<close>.
\<close>

record referrer_lib =
  rf_value :: "bytes \<Rightarrow> message + json"
  rf_to_vec :: "json \<Rightarrow> message + bytes"
  rf_sha256 :: "bytes \<Rightarrow> bytes"
  rf_pid :: nat

definition ref_media_type_oci_manifest :: string where
  "ref_media_type_oci_manifest = ''application/vnd.oci.image.manifest.v1+json''"

definition ref_media_type_oci_index :: string where
  "ref_media_type_oci_index = ''application/vnd.oci.image.index.v1+json''"

definition empty_config_bytes :: bytes where
  "empty_config_bytes = ''{}''"

definition empty_config_media_type :: string where
  "empty_config_media_type = ''application/vnd.oci.empty.v1+json''"

section \<open>Blobs\<close>

definition ref_hex_sha256 :: "referrer_lib \<Rightarrow> bytes \<Rightarrow> string" where
  "ref_hex_sha256 lib bs = hex_of_bytes (rf_sha256 lib bs)"

definition write_blob_if_absent ::
  "referrer_lib \<Rightarrow> path \<Rightarrow> bytes \<Rightarrow> ('x fs_scheme, ('c, 'j) cli_error, unit) io" where
  "write_blob_if_absent lib image_dir bs =
     (let hex = ref_hex_sha256 lib bs;
          blob_dir = path_join (path_join image_dir ''blobs'') ''sha256'';
          blob_path = path_join blob_dir hex;
          tmp_path = path_join blob_dir (''.'' @ hex @ ''.tmp-'' @ dec_of_nat (rf_pid lib)) in
      io_bind (io_map_err (CliIo blob_dir) (fs_create_dir_all blob_dir)) (\<lambda>_.
      io_bind (fs_is_file blob_path) (\<lambda>present.
      if present then io_return () else
      io_bind (io_map_err (CliIo tmp_path) (fs_write tmp_path bs)) (\<lambda>_.
      io_map_err (CliIo blob_path) (fs_rename tmp_path blob_path)))))"

section \<open>One referrer manifest\<close>

definition json_descriptor :: "string \<Rightarrow> string \<Rightarrow> nat \<Rightarrow> json" where
  "json_descriptor media_type digest sz =
     json_map [(''mediaType'', JString media_type), (''digest'', JString digest),
       (''size'', JInt (int sz))]"

definition referrer_manifest_value ::
  "string \<Rightarrow> json \<Rightarrow> string \<Rightarrow> nat \<Rightarrow> string \<Rightarrow> json \<Rightarrow> json" where
  "referrer_manifest_value artifact_type layer_descriptor config_digest config_size config_media_type subject =
     json_map
       [(''schemaVersion'', JInt 2),
        (''mediaType'', JString ref_media_type_oci_manifest),
        (''artifactType'', JString artifact_type),
        (''config'', json_descriptor config_media_type config_digest config_size),
        (''layers'', JArray [layer_descriptor]),
        (''subject'', subject)]"

definition build_and_write_referrer_manifest ::
  "referrer_lib \<Rightarrow> path \<Rightarrow> string \<Rightarrow> json \<Rightarrow> string \<Rightarrow> nat \<Rightarrow> string \<Rightarrow> json \<Rightarrow>
   ('x fs_scheme, ('c, 'j) cli_error, json) io" where
  "build_and_write_referrer_manifest lib image_dir artifact_type layer_descriptor
     config_digest config_size config_media_type subject =
     io_bind (io_lift (map_err (\<lambda>e. Cli (Txt ''failed to serialise referrer manifest: '' # e))
       (rf_to_vec lib (referrer_manifest_value artifact_type layer_descriptor
          config_digest config_size config_media_type subject)))) (\<lambda>manifest_bytes.
     io_bind (write_blob_if_absent lib image_dir manifest_bytes) (\<lambda>_.
     io_return (json_map
       [(''mediaType'', JString ref_media_type_oci_manifest),
        (''digest'', JString (''sha256:'' @ ref_hex_sha256 lib manifest_bytes)),
        (''size'', JInt (int (length manifest_bytes))),
        (''artifactType'', JString artifact_type)])))"

section \<open>The index\<close>

text \<open>The outputs in the order of the code: type, digest and size of each payload.\<close>

definition output_rows :: "'d digest_ops \<Rightarrow> 'd attestation_outputs \<Rightarrow> (string \<times> string \<times> nat) list" where
  "output_rows ops outputs =
     (case ao_slsa outputs of
        Some sl \<Rightarrow> [(ss_media_type sl, dg_text ops (ss_blob_digest sl), ss_size sl)] | None \<Rightarrow> []) @
     (case ao_sbom outputs of
        Some sm \<Rightarrow> [(sbom_media_type_as_str (sm_media_type sm), dg_text ops (sm_blob_digest sm), sm_size sm)]
      | None \<Rightarrow> []) @
     (case ao_signature outputs of
        Some sn \<Rightarrow> [(sn_media_type sn, dg_text ops (sn_bundle_digest sn), sn_size sn)] | None \<Rightarrow> [])"

definition write_referrer_row ::
  "referrer_lib \<Rightarrow> path \<Rightarrow> json \<Rightarrow> string \<times> string \<times> nat \<Rightarrow> json list \<Rightarrow>
   ('x fs_scheme, ('c, 'j) cli_error, json list) io" where
  "write_referrer_row lib image_dir subject row manifests =
     (case row of (media_type, digest, sz) \<Rightarrow>
        io_bind (build_and_write_referrer_manifest lib image_dir media_type
          (json_descriptor media_type digest sz)
          (''sha256:'' @ ref_hex_sha256 lib empty_config_bytes) (length empty_config_bytes)
          empty_config_media_type subject) (\<lambda>referrer_desc.
        io_return (manifests @ [referrer_desc])))"

definition manifests_array :: "json \<Rightarrow> ((string \<times> json) list \<times> json list) option" where
  "manifests_array index =
     (case index of
        JObject m \<Rightarrow> (case map_of m ''manifests'' of Some (JArray vs) \<Rightarrow> Some (m, vs) | _ \<Rightarrow> None)
      | _ \<Rightarrow> None)"

text \<open>The pushed manifests, and the media type when the index has none.\<close>

definition updated_index :: "(string \<times> json) list \<Rightarrow> json list \<Rightarrow> json" where
  "updated_index m manifests =
     (let m' = bt_insert ''manifests'' (JArray manifests) m in
      JObject (if map_of m' ''mediaType'' = None
        then bt_insert ''mediaType'' (JString ref_media_type_oci_index) m' else m'))"

definition rewrite_index ::
  "referrer_lib \<Rightarrow> path \<Rightarrow> json \<Rightarrow> ('x fs_scheme, ('c, 'j) cli_error, unit) io" where
  "rewrite_index lib index_path index =
     (let tmp_path = with_extension index_path ''json.tmp'' in
      io_bind (io_lift (map_err (\<lambda>e. Cli (Txt ''failed to serialise index.json: '' # e))
        (rf_to_vec lib index))) (\<lambda>serialised.
      io_bind (io_map_err (CliIo tmp_path) (fs_write tmp_path serialised)) (\<lambda>_.
      io_map_err (CliIo index_path) (fs_rename tmp_path index_path))))"

definition write_referrers_into_image_dir ::
  "referrer_lib \<Rightarrow> 'd digest_ops \<Rightarrow> path \<Rightarrow> 'd attestation_outputs \<Rightarrow> string \<Rightarrow> nat \<Rightarrow>
   ('x fs_scheme, ('c, 'j) cli_error, unit) io" where
  "write_referrers_into_image_dir lib ops image_dir outputs primary_manifest_digest primary_manifest_size =
     (let index_path = path_join image_dir ''index.json'';
          primary_subject = json_descriptor ref_media_type_oci_manifest primary_manifest_digest
            primary_manifest_size in
      io_bind (io_map_err (CliIo index_path) (fs_read index_path)) (\<lambda>index_bytes.
      io_bind (io_lift (map_err
        (\<lambda>e. Cli ([Txt ''malformed index.json at '', Txt index_path, Txt '': ''] @ e))
        (rf_value lib index_bytes))) (\<lambda>index.
      io_bind (write_blob_if_absent lib image_dir empty_config_bytes) (\<lambda>_.
      case manifests_array index of
        None \<Rightarrow> io_fail (Cli [Txt ''index.json has no manifests[] array''])
      | Some (m, manifests) \<Rightarrow>
          io_bind (io_fold (write_referrer_row lib image_dir primary_subject)
            (output_rows ops outputs) manifests) (\<lambda>manifests'.
          rewrite_index lib index_path (updated_index m manifests'))))))"

end
