(* ===== verification/Referrers_Commit.thy ===== *)
theory Referrers_Commit
  imports Referrers Pull_Commit
begin

text \<open>
  The referrer writer adds and never half-writes: blobs are only added, under the digest of
  their bytes, and the index is replaced in one step after every manifest it gains is there.
\<close>

section \<open>What the writer may change\<close>

definition ref_blob :: "referrer_lib \<Rightarrow> fkey \<Rightarrow> bytes \<Rightarrow> fkey" where
  "ref_blob lib K b = K @ [''blobs'', ''sha256'', ref_hex_sha256 lib b]"

definition ref_index :: "fkey \<Rightarrow> fkey" where
  "ref_index K = K @ [''index.json'']"

definition ref_temps :: "fkey \<Rightarrow> fkey set" where
  "ref_temps K = {K @ [''blobs'', ''sha256'', n] | n. starts_with n ''.''} \<union> {K @ [''index.json.tmp'']}"

definition added :: "referrer_lib \<Rightarrow> fkey \<Rightarrow> nodes \<Rightarrow> nodes \<Rightarrow> bool" where
  "added lib K m0 m \<longleftrightarrow>
     (\<forall>k. k \<notin> ref_temps K \<and> k \<noteq> ref_index K \<longrightarrow> m k = m0 k \<or>
        (k \<in> set (prefixes_of (K @ [''blobs'', ''sha256''])) \<and> m0 k = None \<and> m k = Some DirNode) \<or>
        (\<exists>b. k = ref_blob lib K b \<and> m k = Some (FileNode b)))"

definition holds_blob :: "referrer_lib \<Rightarrow> fkey \<Rightarrow> nodes \<Rightarrow> bytes \<Rightarrow> bool" where
  "holds_blob lib K m b \<longleftrightarrow> is_file_node (m (ref_blob lib K b))"

definition grown :: "referrer_lib \<Rightarrow> fkey \<Rightarrow> nodes \<Rightarrow> bytes set \<Rightarrow> nodes \<Rightarrow> bool" where
  "grown lib K m0 D m \<longleftrightarrow>
     added lib K m0 m \<and> m (ref_index K) = m0 (ref_index K) \<and> (\<forall>b \<in> D. holds_blob lib K m b)"

lemma grown_mono: "grown lib K m0 D m \<Longrightarrow> D' \<subseteq> D \<Longrightarrow> grown lib K m0 D' m"
  by (auto simp: grown_def)

lemma grown_refl: "grown lib K m {} m"
  by (simp add: grown_def added_def)

lemma ref_hex: "length (rf_sha256 lib b) = 32 \<Longrightarrow> sha256_digest (''sha256:'' @ ref_hex_sha256 lib b) (ref_hex_sha256 lib b)"
  by (simp add: sha256_digest_def ref_hex_sha256_def hex_of_bytes_lower)

lemma hex_no_dot: "list_all is_lower_hex h \<Longrightarrow> h \<noteq> [] \<Longrightarrow> \<not> starts_with h ''.''"
  by (cases h) (auto simp: ascii_defs)

lemma ref_blob_not_temp:
  "length (rf_sha256 lib b) = 32 \<Longrightarrow> ref_blob lib K b \<notin> ref_temps K"
proof -
  assume "length (rf_sha256 lib b) = 32"
  then have "ref_hex_sha256 lib b \<noteq> []" "list_all is_lower_hex (ref_hex_sha256 lib b)"
    using ref_hex [of lib b] by (auto simp: sha256_digest_def)
  then show ?thesis using hex_no_dot by (auto simp: ref_blob_def ref_temps_def)
qed

lemma ref_blob_index [simp]: "ref_blob lib K b \<noteq> ref_index K" "ref_index K \<noteq> ref_blob lib K b"
  by (simp_all add: ref_blob_def ref_index_def)

lemma ref_index_not_temp [simp]: "ref_index K \<notin> ref_temps K"
  by (simp add: ref_index_def ref_temps_def)

lemma ref_blob_prefix [simp]: "ref_blob lib K b \<notin> set (prefixes_of (K @ [''blobs'', ''sha256'']))"
  by (auto simp: prefixes_of_def ref_blob_def dest!: arg_cong [where f = length])

lemma ref_index_prefix [simp]: "ref_index K \<notin> set (prefixes_of (K @ [''blobs'', ''sha256'']))"
proof
  assume "ref_index K \<in> set (prefixes_of (K @ [''blobs'', ''sha256'']))"
  then obtain i where i: "K @ [''index.json''] = take i (K @ [''blobs'', ''sha256''])"
    unfolding prefixes_of_def ref_index_def set_map by blast
  from arg_cong [OF i, of length] have "i = Suc (length K)" by simp
  with i show False by simp
qed

section \<open>The steps that keep it\<close>

lemma grown_temps:
  assumes "grown lib K m0 D m1" and "only (ref_temps K) m1 m"
    and "\<And>b. length (rf_sha256 lib b) = 32"
  shows "grown lib K m0 D m"
  using assms ref_blob_not_temp [OF assms(3)]
  by (auto simp: grown_def added_def only_def holds_blob_def)

lemma grown_dirs:
  assumes "grown lib K m0 D m1"
    and "\<And>k. m k \<noteq> m1 k \<Longrightarrow>
      k \<in> set (prefixes_of (K @ [''blobs'', ''sha256''])) \<and> m1 k = None \<and> m k = Some DirNode"
  shows "grown lib K m0 D m"
proof -
  have "m (ref_index K) = m1 (ref_index K)" "m (ref_blob lib K b) = m1 (ref_blob lib K b)" for b
    using assms(2) ref_index_prefix ref_blob_prefix by metis+
  moreover have "added lib K m0 m"
    unfolding added_def
  proof (intro allI impI)
    fix k assume k: "k \<notin> ref_temps K \<and> k \<noteq> ref_index K"
    show "m k = m0 k \<or>
        (k \<in> set (prefixes_of (K @ [''blobs'', ''sha256''])) \<and> m0 k = None \<and> m k = Some DirNode) \<or>
        (\<exists>b. k = ref_blob lib K b \<and> m k = Some (FileNode b))"
    proof (cases "m k = m1 k")
      case True
      with assms(1) k show ?thesis by (simp add: grown_def added_def)
    next
      case False
      from assms(2) [OF this] have "k \<in> set (prefixes_of (K @ [''blobs'', ''sha256'']))"
        "m1 k = None" "m k = Some DirNode" by auto
      moreover from this(2) assms(1) k have "m0 k = None"
        by (auto simp: grown_def added_def)
      ultimately show ?thesis by simp
    qed
  qed
  ultimately show ?thesis using assms(1) by (auto simp: grown_def holds_blob_def)
qed

lemma grown_blob:
  assumes "grown lib K m0 D m1" and "touched (ref_temps K) (ref_blob lib K b) b m1 m"
    and sha: "\<And>b. length (rf_sha256 lib b) = 32"
  shows "grown lib K m0 D m" "m (ref_blob lib K b) = Some (FileNode b) \<Longrightarrow> grown lib K m0 (insert b D) m"
proof -
  have other: "m k = m1 k" if "k \<notin> ref_temps K" "k \<noteq> ref_blob lib K b" for k
    using assms(2) that by (simp add: touched_def only_def)
  have here: "m (ref_blob lib K b) = m1 (ref_blob lib K b) \<or> m (ref_blob lib K b) = Some (FileNode b)"
    using assms(2) by (simp add: touched_def)
  have "added lib K m0 m"
    unfolding added_def
  proof (intro allI impI)
    fix k assume k: "k \<notin> ref_temps K \<and> k \<noteq> ref_index K"
    show "m k = m0 k \<or>
        (k \<in> set (prefixes_of (K @ [''blobs'', ''sha256''])) \<and> m0 k = None \<and> m k = Some DirNode) \<or>
        (\<exists>b. k = ref_blob lib K b \<and> m k = Some (FileNode b))"
      using assms(1) here other [of k] k
      by (cases "k = ref_blob lib K b") (auto simp: grown_def added_def)
  qed
  moreover have "holds_blob lib K m b'" if "b' \<in> D" for b'
    using that assms(1) here other [OF ref_blob_not_temp [where b = b' and K = K, OF sha]]
    by (cases "ref_blob lib K b' = ref_blob lib K b")
      (auto simp: grown_def holds_blob_def is_file_node_def)
  ultimately show "grown lib K m0 D m"
    using assms(1) other [of "ref_index K"] by (simp add: grown_def)
  then show "m (ref_blob lib K b) = Some (FileNode b) \<Longrightarrow> grown lib K m0 (insert b D) m"
    by (simp add: grown_def holds_blob_def is_file_node_def)
qed

lemma make_dirs_only:
  "m' \<in> set (make_dirs ks m) \<Longrightarrow> m' k \<noteq> m k \<Longrightarrow> k \<in> set ks \<and> m' k = Some DirNode"
proof (induction ks arbitrary: m)
  case Nil
  then show ?case by simp
next
  case (Cons x ks)
  let ?m = "m(x \<mapsto> DirNode)"
  show ?case
  proof (cases "m' = ?m")
    case True
    with Cons.prems show ?thesis by (simp split: if_splits)
  next
    case False
    with Cons.prems have later: "m' \<in> set (make_dirs ks ?m)" by (simp add: Let_def)
    show ?thesis
    proof (cases "m' k = ?m k")
      case True
      with Cons.prems show ?thesis by (simp split: if_splits)
    next
      case False
      from Cons.IH [OF later this] show ?thesis by simp
    qed
  qed
qed

lemma triple_add_dirs:
  assumes P: "\<And>m. (\<And>k. m k \<noteq> m0 k \<Longrightarrow>
      k \<in> set (prefixes_of (fs_key p)) \<and> m0 k = None \<and> m k = Some DirNode) \<Longrightarrow> P m"
    and J: "\<And>m. P m \<Longrightarrow> J m"
  shows "triple (disk ((=) m0) J) (fs_create_dir_all p) (\<lambda>_. disk P J) (\<lambda>_. disk P J)"
  unfolding fs_create_dir_all_def
proof (rule triple_fs_call)
  fix ord m f r ms
  assume m: "m0 = m" and run: "call_create_dir_all p ord m f = (r, ms)"
  let ?new = "filter (\<lambda>k. m k = None) (prefixes_of (fs_key p))"
  have "\<exists>n. ms = make_dirs (take n ?new) m"
    using run
    by (auto simp: call_create_dir_all_def io_err_def Let_def split: if_splits option.splits io_fault.splits
        intro: exI [of _ "0::nat"] exI [of _ "length ?new"])
  then obtain n where ms: "ms = make_dirs (take n ?new) m" ..
  have new: "set (take n ?new) \<subseteq> {k \<in> set (prefixes_of (fs_key p)). m k = None}"
    using set_take_subset [of n ?new] by auto
  have later: "P m'" if "m' \<in> set ms" for m'
  proof (rule P)
    fix k assume "m' k \<noteq> m0 k"
    then have "m' k \<noteq> m k" by (simp add: m)
    moreover have "m' \<in> set (make_dirs (take n ?new) m)" using that by (simp only: ms)
    ultimately have "k \<in> set (take n ?new)" and "m' k = Some DirNode"
      using make_dirs_only by blast+
    with new show "k \<in> set (prefixes_of (fs_key p)) \<and> m0 k = None \<and> m' k = Some DirNode"
      unfolding m by blast
  qed
  have "P m" by (rule P) (simp add: m)
  with later have "P (last (m # ms))"
    using last_in_set [of ms] by (cases "ms = []") auto
  with later J show "(\<forall>m' \<in> set ms. J m') \<and>
      (case r of Inr x \<Rightarrow> P (last (m # ms)) | Inl e \<Rightarrow> P (last (m # ms)))"
    by (auto split: sum.split)
qed

lemma ref_paths:
  fixes lib dir b
  assumes "length (rf_sha256 lib b) = 32"
  defines "d \<equiv> path_join (path_join dir ''blobs'') ''sha256''"
  shows "fs_key d = fs_key dir @ [''blobs'', ''sha256'']"
    "fs_key (path_join d (ref_hex_sha256 lib b)) = ref_blob lib (fs_key dir) b"
    "fs_key (path_join d (''.'' @ ref_hex_sha256 lib b @ ''.tmp-'' @ dec_of_nat n)) \<in> ref_temps (fs_key dir)"
proof -
  have names: "plain_name ''blobs''" "plain_name ''sha256''" by (simp_all add: plain_name_def)
  then show d: "fs_key d = fs_key dir @ [''blobs'', ''sha256'']"
    by (simp add: d_def fs_key_join_plain)
  have hex: "plain_name (ref_hex_sha256 lib b)"
    using sha256_digest_plain [OF ref_hex [OF assms(1)]] .
  then show "fs_key (path_join d (ref_hex_sha256 lib b)) = ref_blob lib (fs_key dir) b"
    by (simp add: fs_key_join_plain d ref_blob_def)
  have "plain_name (''.'' @ ref_hex_sha256 lib b @ ''.tmp-'' @ dec_of_nat n)"
    using hex dec_of_nat_digits [of "CHR ''/''" n] by (auto simp: plain_name_def)
  then show "fs_key (path_join d (''.'' @ ref_hex_sha256 lib b @ ''.tmp-'' @ dec_of_nat n)) \<in> ref_temps (fs_key dir)"
    by (simp add: fs_key_join_plain d ref_temps_def)
qed

lemma triple_write_blob_if_absent:
  fixes lib dir m0
  defines "P \<equiv> grown lib (fs_key dir) m0"
  assumes sha: "\<And>b. length (rf_sha256 lib b) = 32" and J: "\<And>D m. P D m \<Longrightarrow> J m"
  shows "triple (disk (P D) J)
    (write_blob_if_absent lib dir b :: ('x fs_scheme, ('c, 'j) cli_error, unit) io)
    (\<lambda>_. disk (P (insert b D)) J) (\<lambda>_. disk (P {}) J)"
  unfolding write_blob_if_absent_def Let_def
proof (rule triple_bind)
  let ?T = "ref_temps (fs_key dir)"
  let ?d = "path_join (path_join dir ''blobs'') ''sha256''"
  let ?p = "path_join ?d (ref_hex_sha256 lib b)"
  let ?tmp = "path_join ?d (''.'' @ ref_hex_sha256 lib b @ ''.tmp-'' @ dec_of_nat (rf_pid lib))"
  have keys: "fs_key ?d = fs_key dir @ [''blobs'', ''sha256'']" "fs_key ?p = ref_blob lib (fs_key dir) b"
    "fs_key ?tmp \<in> ref_temps (fs_key dir)"
    by (rule ref_paths [OF sha])+
  have less: "disk (P {}) J s" if "disk (P D) J s" for s :: "'x fs_scheme" and D
    using that by (rule disk_mono) (auto simp: P_def intro: grown_mono)
  show "triple (disk (P D) J) (io_map_err (CliIo ?d) (fs_create_dir_all ?d) :: ('x fs_scheme, ('c, 'j) cli_error, unit) io)
    (\<lambda>_. disk (P D) J) (\<lambda>_. disk (P {}) J)"
  proof (rule triple_map_err_const, rule triple_from)
    fix m1 assume m1: "P D m1"
    have "P D m" if "\<And>k. m k \<noteq> m1 k \<Longrightarrow> k \<in> set (prefixes_of (fs_key ?d)) \<and> m1 k = None \<and> m k = Some DirNode" for m
      using grown_dirs [of lib "fs_key dir" m0 D m1 m] m1 that by (simp add: P_def keys)
    then have "triple (disk ((=) m1) J) (fs_create_dir_all ?d :: ('x fs_scheme, io_error, unit) io) (\<lambda>_. disk (P D) J) (\<lambda>_. disk (P D) J)"
      by (rule triple_add_dirs) (assumption, rule J)
    then show "triple (disk ((=) m1) J) (fs_create_dir_all ?d :: ('x fs_scheme, io_error, unit) io) (\<lambda>_. disk (P D) J) (\<lambda>_. disk (P {}) J)"
      by (rule triple_conseq) (auto intro: less)
  qed
  show "triple (disk (P D) J)
    (io_bind (fs_is_file ?p) (\<lambda>present. if present then io_return ()
      else io_bind (io_map_err (CliIo ?tmp) (fs_write ?tmp b)) (\<lambda>_. io_map_err (CliIo ?p) (fs_rename ?tmp ?p)))
      :: ('x fs_scheme, ('c, 'j) cli_error, unit) io)
    (\<lambda>_. disk (P (insert b D)) J) (\<lambda>_. disk (P {}) J)"
  proof (rule triple_bind [OF triple_is_file_disk], rule triple_if)
    fix present :: bool
    let ?R = "\<lambda>m. P D m \<and> (present \<longrightarrow> is_file_node (look ?p m))"
    show "present \<Longrightarrow> triple (disk ?R J) (io_return () :: ('x fs_scheme, ('c, 'j) cli_error, unit) io)
        (\<lambda>_. disk (P (insert b D)) J) (\<lambda>_. disk (P {}) J)"
      by (rule triple_return, erule disk_mono)
        (auto simp: P_def grown_def holds_blob_def look_def keys is_file_node_def split: if_splits)
    have writing: "triple (disk ((=) m1) J)
        (io_bind (io_map_err (CliIo ?tmp) (fs_write ?tmp b)) (\<lambda>_. io_map_err (CliIo ?p) (fs_rename ?tmp ?p))
          :: ('x fs_scheme, ('c, 'j) cli_error, unit) io)
        (\<lambda>_. disk (P (insert b D)) J) (\<lambda>_. disk (P {}) J)" if m1: "P D m1" for m1
    proof -
      have tmp: "fs_key ?tmp \<in> ?T" and p: "fs_key ?p \<notin> ?T"
        using keys ref_blob_not_temp [OF sha] by auto
      have on: "P D m" if "only ?T m1 m" for m
        using grown_temps [OF _ that sha] m1 by (simp add: P_def)
      have to: "P D m" if "touched ?T (fs_key ?p) b m1 m" for m
        using grown_blob(1) [OF _ _ sha] m1 that by (simp add: P_def keys)
      have "triple (disk ((=) m1) J) (io_map_err (CliIo ?tmp) (fs_write ?tmp b) :: ('x fs_scheme, ('c, 'j) cli_error, unit) io)
          (\<lambda>_. disk (\<lambda>m. only ?T m1 m \<and> m (fs_key ?tmp) = Some (FileNode b)) J) (\<lambda>_. disk (P {}) J)"
        by (rule triple_map_err_const, rule triple_conseq [OF triple_write_temp [OF tmp, of m1 J]])
          (use on J in \<open>auto simp: disk_def P_def intro: grown_mono\<close>)
      moreover have "triple (disk (\<lambda>m. only ?T m1 m \<and> m (fs_key ?tmp) = Some (FileNode b)) J)
          (io_map_err (CliIo ?p) (fs_rename ?tmp ?p) :: ('x fs_scheme, ('c, 'j) cli_error, unit) io)
          (\<lambda>_. disk (P (insert b D)) J) (\<lambda>_. disk (P {}) J)"
        by (rule triple_map_err_const, rule triple_conseq [OF triple_rename_temp [OF tmp p, of b m1 J]])
          (use on to J m1 grown_blob(2) [where lib = lib and K = "fs_key dir" and ?m0.0 = m0 and D = D and ?m1.0 = m1 and b = b, OF _ _ sha] in
            \<open>auto simp: disk_def P_def keys intro: grown_mono\<close>)
      ultimately show ?thesis by (rule triple_bind)
    qed
    show "triple (disk ?R J)
        (io_bind (io_map_err (CliIo ?tmp) (fs_write ?tmp b)) (\<lambda>_. io_map_err (CliIo ?p) (fs_rename ?tmp ?p))
          :: ('x fs_scheme, ('c, 'j) cli_error, unit) io)
        (\<lambda>_. disk (P (insert b D)) J) (\<lambda>_. disk (P {}) J)"
      by (rule triple_from) (use writing in blast)
  qed
qed

section \<open>The manifests of the rows\<close>

definition row_value :: "referrer_lib \<Rightarrow> json \<Rightarrow> string \<times> string \<times> nat \<Rightarrow> json" where
  "row_value lib subject row =
     (case row of (t, d, n) \<Rightarrow>
        referrer_manifest_value t (json_descriptor t d n)
          (''sha256:'' @ ref_hex_sha256 lib empty_config_bytes) (length empty_config_bytes)
          empty_config_media_type subject)"

definition row_desc :: "referrer_lib \<Rightarrow> string \<times> string \<times> nat \<Rightarrow> bytes \<Rightarrow> json" where
  "row_desc lib row b =
     json_map
       [(''mediaType'', JString ref_media_type_oci_manifest),
        (''digest'', JString (''sha256:'' @ ref_hex_sha256 lib b)),
        (''size'', JInt (int (length b))),
        (''artifactType'', JString (fst row))]"

definition row_manifests ::
  "referrer_lib \<Rightarrow> json \<Rightarrow> (string \<times> string \<times> nat) list \<Rightarrow> bytes list \<Rightarrow> bool" where
  "row_manifests lib subject rows bs \<longleftrightarrow>
     list_all2 (\<lambda>row b. rf_to_vec lib (row_value lib subject row) = Inr b) rows bs"

text \<open>The new index, over manifests that are all in place.\<close>

definition complete_index ::
  "referrer_lib \<Rightarrow> fkey \<Rightarrow> json \<Rightarrow> (string \<times> string \<times> nat) list \<Rightarrow> nodes \<Rightarrow> nodes \<Rightarrow> bool" where
  "complete_index lib K subject rows m0 m \<longleftrightarrow>
     (\<exists>ib im vs bs doc.
        m0 (ref_index K) = Some (FileNode ib) \<and> rf_value lib ib = Inr (JObject im) \<and>
        map_of im ''manifests'' = Some (JArray vs) \<and> row_manifests lib subject rows bs \<and>
        (\<forall>b \<in> insert empty_config_bytes (set bs). holds_blob lib K m b) \<and>
        rf_to_vec lib (updated_index im (vs @ map2 (row_desc lib) rows bs)) = Inr doc \<and>
        m (ref_index K) = Some (FileNode doc))"

definition sound_refs ::
  "referrer_lib \<Rightarrow> fkey \<Rightarrow> json \<Rightarrow> (string \<times> string \<times> nat) list \<Rightarrow> nodes \<Rightarrow> nodes \<Rightarrow> bool" where
  "sound_refs lib K subject rows m0 m \<longleftrightarrow>
     added lib K m0 m \<and>
     (m (ref_index K) = m0 (ref_index K) \<or> complete_index lib K subject rows m0 m)"

lemma grown_sound: "grown lib K m0 D m \<Longrightarrow> sound_refs lib K subject rows m0 m"
  by (simp add: grown_def sound_refs_def)

lemma triple_row:
  fixes lib dir m0
  defines "P \<equiv> grown lib (fs_key dir) m0"
  assumes sha: "\<And>b. length (rf_sha256 lib b) = 32" and J: "\<And>D m. P D m \<Longrightarrow> J m"
  shows "triple (disk (P D) J)
    (write_referrer_row lib dir subject row vs :: ('x fs_scheme, ('c, 'j) cli_error, json list) io)
    (\<lambda>vs' s. \<exists>b. rf_to_vec lib (row_value lib subject row) = Inr b \<and> vs' = vs @ [row_desc lib row b] \<and>
       disk (P (insert b D)) J s) (\<lambda>_. disk (P {}) J)"
proof -
  obtain t d n where row: "row = (t, d, n)" by (cases row)
  have less: "disk (P {}) J s" if "disk (P D) J s" for s :: "'x fs_scheme"
    using that by (rule disk_mono) (auto simp: P_def intro: grown_mono)
  have wb: "triple (disk (P D) J) (write_blob_if_absent lib dir b :: ('x fs_scheme, ('c, 'j) cli_error, unit) io)
      (\<lambda>_. disk (P (insert b D)) J) (\<lambda>_. disk (P {}) J)" for b
    unfolding P_def by (rule triple_write_blob_if_absent [OF sha]) (rule J [unfolded P_def])
  show ?thesis
    unfolding write_referrer_row_def row prod.case build_and_write_referrer_manifest_def io_bind_assoc
    by (rule triple_bind_fact [OF triple_lift_fact], erule less, rule triple_bind [OF wb],
        simp only: io_bind_simps, rule triple_return)
      (auto simp: row_value_def row_desc_def)
qed

lemma triple_rows:
  fixes lib dir m0
  defines "P \<equiv> grown lib (fs_key dir) m0"
  assumes sha: "\<And>b. length (rf_sha256 lib b) = 32" and J: "\<And>D m. P D m \<Longrightarrow> J m"
  shows "triple (disk (P D) J)
    (io_fold (write_referrer_row lib dir subject) rows vs :: ('x fs_scheme, ('c, 'j) cli_error, json list) io)
    (\<lambda>vs' s. \<exists>bs. row_manifests lib subject rows bs \<and> vs' = vs @ map2 (row_desc lib) rows bs \<and>
       disk (P (set bs \<union> D)) J s) (\<lambda>_. disk (P {}) J)"
proof (induction rows arbitrary: vs D)
  case Nil
  show ?case by (auto intro!: triple_return simp: row_manifests_def)
next
  case (Cons row rows)
  let ?Q = "\<lambda>vs' s. \<exists>bs. row_manifests lib subject (row # rows) bs \<and>
      vs' = vs @ map2 (row_desc lib) (row # rows) bs \<and> disk (P (set bs \<union> D)) J s"
  have rest: "triple (disk (P (insert b D)) J) (io_fold (write_referrer_row lib dir subject) rows (vs @ [row_desc lib row b])
        :: ('x fs_scheme, ('c, 'j) cli_error, json list) io)
      ?Q (\<lambda>_. disk (P {}) J)"
    if "rf_to_vec lib (row_value lib subject row) = Inr b" for b
  proof (rule triple_conseq [OF Cons.IH])
    fix vs' and s :: "'x fs_scheme"
    assume "\<exists>bs. row_manifests lib subject rows bs \<and>
      vs' = (vs @ [row_desc lib row b]) @ map2 (row_desc lib) rows bs \<and> disk (P (set bs \<union> insert b D)) J s"
    then obtain bs where "row_manifests lib subject rows bs"
      "vs' = vs @ row_desc lib row b # map2 (row_desc lib) rows bs" "disk (P (insert b (set bs \<union> D))) J s"
      by auto
    with that show "?Q vs' s" by (intro exI [of _ "b # bs"]) (simp add: row_manifests_def)
  qed
  have one: "triple (disk (P D) J) (write_referrer_row lib dir subject row vs :: ('x fs_scheme, ('c, 'j) cli_error, json list) io)
      (\<lambda>vs' s. \<exists>b. rf_to_vec lib (row_value lib subject row) = Inr b \<and> vs' = vs @ [row_desc lib row b] \<and>
         disk (P (insert b D)) J s) (\<lambda>_. disk (P {}) J)"
    unfolding P_def by (rule triple_row [OF sha]) (rule J [unfolded P_def])
  show ?case
    unfolding io_fold.simps
    by (rule triple_bind [OF one], rule triple_pre_ex, rule triple_pre_imp, rule triple_pre_imp)
      (simp add: rest)
qed

section \<open>The index\<close>

lemma ref_index_paths:
  "fs_key (path_join dir ''index.json'') = ref_index (fs_key dir)"
  "fs_key (with_extension (path_join dir ''index.json'') ''json.tmp'') \<in> ref_temps (fs_key dir)"
proof -
  have plain: "plain_name ''index.json''" "plain_name ''index.json.tmp''"
    by (simp_all add: plain_name_def)
  have "file_stem ''index.json'' = ''index''" by code_simp
  then have "with_extension (path_join dir ''index.json'') ''json.tmp'' = path_join dir ''index.json.tmp''"
    using with_extension_join [OF plain(1), of dir "''json.tmp''"] by simp
  with plain show "fs_key (with_extension (path_join dir ''index.json'') ''json.tmp'') \<in> ref_temps (fs_key dir)"
    "fs_key (path_join dir ''index.json'') = ref_index (fs_key dir)"
    by (simp_all add: fs_key_join_plain ref_temps_def ref_index_def)
qed

lemma index_replaced:
  assumes grown: "grown lib K m0 D m1" and sha: "\<And>b. length (rf_sha256 lib b) = 32"
    and touched: "touched (ref_temps K) (ref_index K) doc m1 m"
    and index: "m0 (ref_index K) = Some (FileNode ib)" "rf_value lib ib = Inr (JObject im)"
      "map_of im ''manifests'' = Some (JArray vs)" "row_manifests lib subject rows bs"
      "insert empty_config_bytes (set bs) \<subseteq> D"
      "rf_to_vec lib (updated_index im (vs @ map2 (row_desc lib) rows bs)) = Inr doc"
  shows "sound_refs lib K subject rows m0 m"
    "m (ref_index K) = Some (FileNode doc) \<Longrightarrow> complete_index lib K subject rows m0 m"
proof -
  have other: "m k = m1 k" if "k \<notin> ref_temps K" "k \<noteq> ref_index K" for k
    using touched that by (simp add: touched_def only_def)
  have "holds_blob lib K m b" if "b \<in> D" for b
    using that grown other [OF ref_blob_not_temp [where b = b, OF sha]] by (simp add: grown_def holds_blob_def)
  then have "\<forall>b \<in> insert empty_config_bytes (set bs). holds_blob lib K m b"
    using index(5) by auto
  then show complete: "m (ref_index K) = Some (FileNode doc) \<Longrightarrow> complete_index lib K subject rows m0 m"
    unfolding complete_index_def using index by blast
  have "m (ref_index K) = m0 (ref_index K) \<or> m (ref_index K) = Some (FileNode doc)"
    using touched grown by (auto simp: touched_def grown_def)
  moreover have "added lib K m0 m"
    using grown other by (simp add: grown_def added_def)
  ultimately show "sound_refs lib K subject rows m0 m"
    using complete by (auto simp: sound_refs_def)
qed

lemma triple_rewrite_index:
  fixes lib dir m0 subject rows
  defines "K \<equiv> fs_key dir"
  defines "S \<equiv> sound_refs lib K subject rows m0"
  assumes sha: "\<And>b. length (rf_sha256 lib b) = 32"
    and index: "m0 (ref_index K) = Some (FileNode ib)" "rf_value lib ib = Inr (JObject im)"
      "map_of im ''manifests'' = Some (JArray vs)" "row_manifests lib subject rows bs"
      "insert empty_config_bytes (set bs) \<subseteq> D"
  shows "triple (disk (grown lib K m0 D) S)
    (rewrite_index lib (path_join dir ''index.json'') (updated_index im (vs @ map2 (row_desc lib) rows bs))
      :: ('x fs_scheme, ('c, 'j) cli_error, unit) io)
    (\<lambda>_. disk (\<lambda>m. S m \<and> complete_index lib K subject rows m0 m) S) (\<lambda>_. disk (grown lib K m0 {}) S)"
  unfolding rewrite_index_def Let_def
proof (rule triple_bind_fact [OF triple_lift_fact])
  let ?p = "path_join dir ''index.json''" and ?tmp = "with_extension (path_join dir ''index.json'') ''json.tmp''"
  let ?T = "ref_temps K"
  have less: "disk (grown lib K m0 {}) S s" if "disk (grown lib K m0 D) S s" for s :: "'x fs_scheme" and D
    using that by (rule disk_mono) (auto intro: grown_mono)
  then show "disk (grown lib K m0 {}) S s" if "disk (grown lib K m0 D) S s" for s :: "'x fs_scheme"
    using that by blast
  fix doc
  assume "map_err (\<lambda>e. Cli (Txt ''failed to serialise index.json: '' # e))
      (rf_to_vec lib (updated_index im (vs @ map2 (row_desc lib) rows bs))) = Inr doc"
  then have doc: "rf_to_vec lib (updated_index im (vs @ map2 (row_desc lib) rows bs)) = Inr doc" by simp
  have keys: "fs_key ?p = ref_index K" "fs_key ?tmp \<in> ?T" using ref_index_paths by (simp_all add: K_def)
  show "triple (disk (grown lib K m0 D) S)
      (io_bind (io_map_err (CliIo ?tmp) (fs_write ?tmp doc)) (\<lambda>_. io_map_err (CliIo ?p) (fs_rename ?tmp ?p))
        :: ('x fs_scheme, ('c, 'j) cli_error, unit) io)
      (\<lambda>_. disk (\<lambda>m. S m \<and> complete_index lib K subject rows m0 m) S) (\<lambda>_. disk (grown lib K m0 {}) S)"
  proof (rule triple_from)
    fix m1 assume m1: "grown lib K m0 D m1"
    have on: "grown lib K m0 D m" if "only ?T m1 m" for m
      using grown_temps [OF m1 that sha] .
    note to = index_replaced [OF m1 sha _ index doc]
    have "triple (disk ((=) m1) S) (io_map_err (CliIo ?tmp) (fs_write ?tmp doc) :: ('x fs_scheme, ('c, 'j) cli_error, unit) io)
        (\<lambda>_. disk (\<lambda>m. only ?T m1 m \<and> m (fs_key ?tmp) = Some (FileNode doc)) S) (\<lambda>_. disk (grown lib K m0 {}) S)"
      by (rule triple_map_err_const, rule triple_conseq [OF triple_write_temp [OF keys(2), of m1 S]])
        (use on in \<open>auto simp: disk_def S_def intro: grown_mono grown_sound\<close>)
    moreover have "triple (disk (\<lambda>m. only ?T m1 m \<and> m (fs_key ?tmp) = Some (FileNode doc)) S)
        (io_map_err (CliIo ?p) (fs_rename ?tmp ?p) :: ('x fs_scheme, ('c, 'j) cli_error, unit) io)
        (\<lambda>_. disk (\<lambda>m. S m \<and> complete_index lib K subject rows m0 m) S) (\<lambda>_. disk (grown lib K m0 {}) S)"
      by (rule triple_map_err_const,
          rule triple_conseq [OF triple_rename_temp [OF keys(2), of ?p doc m1 S]])
        (use on to in \<open>auto simp: disk_def S_def keys intro: grown_mono\<close>)
    ultimately show "triple (disk ((=) m1) S)
        (io_bind (io_map_err (CliIo ?tmp) (fs_write ?tmp doc)) (\<lambda>_. io_map_err (CliIo ?p) (fs_rename ?tmp ?p))
          :: ('x fs_scheme, ('c, 'j) cli_error, unit) io)
        (\<lambda>_. disk (\<lambda>m. S m \<and> complete_index lib K subject rows m0 m) S) (\<lambda>_. disk (grown lib K m0 {}) S)"
      by (rule triple_bind)
  qed
qed

section \<open>The property\<close>

lemma triple_write_referrers:
  fixes lib dir m0 digest n ops outputs
  defines "K \<equiv> fs_key dir"
  defines "subject \<equiv> json_descriptor ref_media_type_oci_manifest digest n"
  defines "S \<equiv> sound_refs lib K subject (output_rows ops outputs) m0"
  assumes sha: "\<And>b. length (rf_sha256 lib b) = 32"
  shows "triple (disk ((=) m0) S)
    (write_referrers_into_image_dir lib ops dir outputs digest n :: ('x fs_scheme, ('c, 'j) cli_error, unit) io)
    (\<lambda>_. disk (\<lambda>m. S m \<and> complete_index lib K subject (output_rows ops outputs) m0 m) S)
    (\<lambda>_. disk (grown lib K m0 {}) S)"
  unfolding write_referrers_into_image_dir_def Let_def subject_def [symmetric]
proof (rule triple_bind)
  let ?p = "path_join dir ''index.json''"
  let ?P = "\<lambda>D. grown lib K m0 D"
  have J: "?P D m \<Longrightarrow> S m" for D m by (simp add: S_def grown_sound)
  have less: "disk (?P {}) S s" if "disk (?P D) S s" for s :: "'x fs_scheme" and D
    using that by (rule disk_mono) (auto intro: grown_mono)
  show "triple (disk ((=) m0) S) (io_map_err (CliIo ?p) (fs_read ?p) :: ('x fs_scheme, ('c, 'j) cli_error, bytes) io)
      (\<lambda>ib s. m0 (ref_index K) = Some (FileNode ib) \<and> disk (?P {}) S s) (\<lambda>_. disk (?P {}) S)"
    by (rule triple_map_err_const, rule triple_conseq [OF triple_read_disk])
      (auto simp: disk_def grown_def added_def look_def ref_index_paths K_def split: if_splits)
  fix ib
  show "triple (\<lambda>s. m0 (ref_index K) = Some (FileNode ib) \<and> disk (?P {}) S s)
    (io_bind (io_lift (map_err (\<lambda>e. Cli ([Txt ''malformed index.json at '', Txt ?p, Txt '': ''] @ e)) (rf_value lib ib)))
      (\<lambda>index. io_bind (write_blob_if_absent lib dir empty_config_bytes) (\<lambda>_.
        case manifests_array index of
          None \<Rightarrow> io_fail (Cli [Txt ''index.json has no manifests[] array''])
        | Some (m, manifests) \<Rightarrow>
            io_bind (io_fold (write_referrer_row lib dir subject) (output_rows ops outputs) manifests) (\<lambda>manifests'.
            rewrite_index lib ?p (updated_index m manifests'))))
      :: ('x fs_scheme, ('c, 'j) cli_error, unit) io)
    (\<lambda>_. disk (\<lambda>m. S m \<and> complete_index lib K subject (output_rows ops outputs) m0 m) S) (\<lambda>_. disk (?P {}) S)"
  proof (rule triple_pre_imp, rule triple_bind_fact [OF triple_lift_fact], assumption, rule triple_bind)
    fix index
    assume ib: "m0 (ref_index K) = Some (FileNode ib)"
      and "map_err (\<lambda>e. Cli ([Txt ''malformed index.json at '', Txt ?p, Txt '': ''] @ e)) (rf_value lib ib) = Inr index"
    then have index: "rf_value lib ib = Inr index" by simp
    show "triple (disk (?P {}) S) (write_blob_if_absent lib dir empty_config_bytes :: ('x fs_scheme, ('c, 'j) cli_error, unit) io)
        (\<lambda>_. disk (?P {empty_config_bytes}) S) (\<lambda>_. disk (?P {}) S)"
      unfolding K_def by (rule triple_write_blob_if_absent [OF sha]) (rule J [unfolded K_def])
    fix u :: unit
    show "triple (disk (?P {empty_config_bytes}) S)
      ((case manifests_array index of
          None \<Rightarrow> io_fail (Cli [Txt ''index.json has no manifests[] array''])
        | Some (m, manifests) \<Rightarrow>
            io_bind (io_fold (write_referrer_row lib dir subject) (output_rows ops outputs) manifests) (\<lambda>manifests'.
            rewrite_index lib ?p (updated_index m manifests')))
        :: ('x fs_scheme, ('c, 'j) cli_error, unit) io)
      (\<lambda>_. disk (\<lambda>m. S m \<and> complete_index lib K subject (output_rows ops outputs) m0 m) S) (\<lambda>_. disk (?P {}) S)"
    proof (cases "manifests_array index")
      case None
      then show ?thesis by (auto intro: triple_fail less)
    next
      case (Some mv)
      then obtain im vs where mv: "mv = (im, vs)" and im: "index = JObject im"
        "map_of im ''manifests'' = Some (JArray vs)"
        by (auto simp: manifests_array_def split: json.splits option.splits)
      have rows: "triple (disk (?P {empty_config_bytes}) S)
          (io_fold (write_referrer_row lib dir subject) (output_rows ops outputs) vs :: ('x fs_scheme, ('c, 'j) cli_error, json list) io)
          (\<lambda>vs' s. \<exists>bs. row_manifests lib subject (output_rows ops outputs) bs \<and>
             vs' = vs @ map2 (row_desc lib) (output_rows ops outputs) bs \<and>
             disk (?P (set bs \<union> {empty_config_bytes})) S s) (\<lambda>_. disk (?P {}) S)"
        unfolding K_def by (rule triple_rows [OF sha]) (rule J [unfolded K_def])
      show ?thesis
        unfolding Some mv option.case prod.case
        by (rule triple_bind [OF rows], rule triple_pre_ex, rule triple_pre_imp, rule triple_pre_imp,
            simp only:, unfold S_def K_def, rule triple_rewrite_index [OF sha])
          (use ib index im in \<open>auto simp: K_def\<close>)
    qed
  qed
qed


definition sample_ref_lib :: referrer_lib where
  "sample_ref_lib =
     \<lparr>rf_value = (\<lambda>_. Inr (JObject [(''manifests'', JArray [JNull])])),
      rf_to_vec = (\<lambda>j. Inr (case json_get ''layers'' j of Some _ \<Rightarrow> ''m'' | None \<Rightarrow> ''i'')),
      rf_sha256 = (\<lambda>b. take 32 (b @ replicate 32 (CHR ''x''))),
      rf_pid = 7\<rparr>"

definition sample_outputs :: "string attestation_outputs" where
  "sample_outputs =
     \<lparr>ao_slsa = Some \<lparr>ss_blob_digest = ''sha256:0'', ss_size = 5, ss_media_type = in_toto_media_type,
        ss_predicate_type = slsa_provenance_v1\<rparr>,
      ao_sbom = None, ao_signature = None\<rparr>"

definition sample_text_digests :: "string digest_ops" where
  "sample_text_digests = \<lparr>dg_algorithm = (\<lambda>_. ''sha256''), dg_hex = drop 7, dg_text = id\<rparr>"

definition sample_ref_fs :: fs where
  "sample_ref_fs =
     \<lparr>fs_nodes = map_of [([''d''], DirNode), ([''d'', ''blobs''], DirNode), ([''d'', ''blobs'', ''sha256''], DirNode),
        ([''d'', ''index.json''], FileNode ''I'')],
      fs_faults = [], fs_seen = [], fs_order = (\<lambda>_. [])\<rparr>"

definition sample_ref_run :: "((unit, unit) cli_error + unit) \<times> fs" where
  "sample_ref_run = write_referrers_into_image_dir sample_ref_lib sample_text_digests ''d'' sample_outputs
     ''sha256:1'' 9 sample_ref_fs"

lemma sample_ref_run_ok: "is_ok (fst sample_ref_run)"
  by code_simp


end
