(* ===== verification/Attest_Props.thy ===== *)
theory Attest_Props
  imports Attest Verify_Gate Spec_Rules
begin

text \<open>
  What the attestation guarantees: its documents are well formed and are the ones the verifier
  asks for, and a signature never leaves the pipeline without the transparency-log entry of
  its bdl. The second holds of every signer that keeps the contract \<open>signer\<close>.
\<close>

section \<open>Signers\<close>

text \<open>A signer that says \<open>SignedAndRecorded\<close> has a receipt in the bdl it returns.\<close>

locale signer =
  fixes invoke :: "('s, 'd) cosign_invoker"
    and receipt :: "bytes \<Rightarrow> nat \<Rightarrow> bool"
  assumes recorded: "fst (invoke ci s) = SignedAndRecorded b n \<Longrightarrow> receipt b n"
begin

text \<open>What a signature of the pipeline stands for: a stored bdl with its receipt.\<close>

definition signed_by :: "('s, 'd, 'c, 'j) attest_lib \<Rightarrow> 'd \<Rightarrow> sign_config \<Rightarrow> 'd signature \<Rightarrow> bool" where
  "signed_by lib manifest cfg sg \<longleftrightarrow>
     (\<exists>b u v w.
        fst (invoke \<lparr>ci_manifest_digest = manifest, ci_kind = sg_kind cfg, ci_identity = sg_identity cfg\<rparr> u) =
          SignedAndRecorded b (sn_rekor_log_index sg) \<and>
        al_put lib b v = (Inr (sn_bundle_digest sg), w) \<and> sn_size sg = length b \<and>
        receipt b (sn_rekor_log_index sg))"

lemma sign_with_signed:
  assumes "sign_with lib manifest cfg invoke s = (Inr r, t)"
  shows "(r = None \<longleftrightarrow> sg_kind cfg = SignOff) \<and> (\<forall>sg. r = Some sg \<longrightarrow> signed_by lib manifest cfg sg)"
proof (cases "sg_kind cfg = SignOff")
  case True
  with assms show ?thesis by (simp add: sign_with_def io_apply_simps)
next
  case False
  let ?ci = "\<lparr>ci_manifest_digest = manifest, ci_kind = sg_kind cfg, ci_identity = sg_identity cfg\<rparr>"
  obtain x u where x: "invoke ?ci s = (x, u)" by (cases "invoke ?ci s")
  from assms False x obtain b n where b: "x = SignedAndRecorded b n"
    by (cases x) (auto simp: sign_with_def io_bind_def io_run_def io_apply_simps)
  from assms False x b obtain d v where put: "al_put lib b u = (Inr d, v)"
    and r: "r = Some \<lparr>sn_bundle_digest = d, sn_size = length b, sn_media_type = cosign_media_type,
      sn_rekor_log_index = n, sn_identity = (case sg_identity cfg of Some i \<Rightarrow> i | None \<Rightarrow> ''<unspecified>'')\<rparr>"
    by (auto simp: sign_with_def io_defs io_run_def split: prod.splits sum.splits)
  have "receipt b n" using recorded [of ?ci s b n] x b by simp
  then show ?thesis
    using False x b put unfolding r signed_by_def
    by (simp, intro exI [of _ b] conjI exI [of _ s] exI [of _ u] exI [of _ v]) simp_all
qed

lemma pipeline_signed:
  assumes "attest_with_invoker lib built cfg invoke s = (Inr out, t)"
  shows "(ao_signature out = None \<longleftrightarrow> sg_kind (at_sign cfg) = SignOff) \<and>
    (\<forall>sg. ao_signature out = Some sg \<longrightarrow> signed_by lib (ba_manifest_digest built) (at_sign cfg) sg)"
proof -
  obtain sig u v where
    sig: "(case sg_kind (at_sign cfg) of SignOff \<Rightarrow> io_return None
       | _ \<Rightarrow> sign_with lib (ba_manifest_digest built) (at_sign cfg) invoke) u = (Inr sig, v)"
    and out: "ao_signature out = sig"
    using assms unfolding attest_with_invoker_def
    by (elim io_bind_InrE) (auto simp: io_apply_simps)
  show ?thesis
  proof (cases "sg_kind (at_sign cfg)")
    case SignOff
    with sig out show ?thesis by (simp add: io_apply_simps)
  next
    case CosignKeyless
    with sig have "sign_with lib (ba_manifest_digest built) (at_sign cfg) invoke u = (Inr sig, v)" by simp
    from sign_with_signed [OF this] out show ?thesis by simp
  next
    case CosignKey
    with sig have "sign_with lib (ba_manifest_digest built) (at_sign cfg) invoke u = (Inr sig, v)" by simp
    from sign_with_signed [OF this] out show ?thesis by simp
  qed
qed

end

text \<open>The three signers of the crate keep the contract.\<close>

lemma returning_cases:
  assumes "fst (returning m s) = x"
  obtains t where "m s = (Inl x, t)" | t where "m s = (Inr x, t)"
  using assms by (cases "m s"; cases "fst (m s)") (auto simp: returning_def)

lemma fails_other:
  "io_fail e s = (Inl x, t) \<longleftrightarrow> e = x \<and> s = t" "io_return y s = (Inr z, t) \<longleftrightarrow> y = z \<and> s = t"
  "io_fail e s \<noteq> (Inr z, t)" "io_return y s \<noteq> (Inl x, t)"
  by (auto simp: io_defs)

text \<open>Calls whose early returns are never \<open>SignedAndRecorded\<close> and whose last value has a receipt.\<close>

definition receipted :: "(bytes \<Rightarrow> nat \<Rightarrow> bool) \<Rightarrow> ('s, cosign_outcome, cosign_outcome) io \<Rightarrow> bool" where
  "receipted R m \<longleftrightarrow>
     (\<forall>s b n. fst (m s) = Inl (SignedAndRecorded b n) \<or> fst (m s) = Inr (SignedAndRecorded b n) \<longrightarrow> R b n)"

definition unsigned_failure :: "('s, cosign_outcome, 'a) io \<Rightarrow> bool" where
  "unsigned_failure m \<longleftrightarrow> (\<forall>s b n. fst (m s) \<noteq> Inl (SignedAndRecorded b n))"

lemma receipted_returning: "receipted R m \<Longrightarrow> fst (returning m s) = SignedAndRecorded b n \<Longrightarrow> R b n"
  unfolding receipted_def by (erule returning_cases) (metis fst_conv)+

lemma receipted_simps [simp]:
  "receipted R (io_fail (OutcomeSignFailed e))" "receipted R (io_fail CosignNotInstalled)"
  "receipted R (io_fail (SignedNotRecorded e))" "receipted R (io_return (SignedNotRecorded e))"
  by (simp_all add: receipted_def io_defs)

lemma receipted_return: "R b n \<Longrightarrow> receipted R (io_return (SignedAndRecorded b n))"
  by (simp add: receipted_def io_defs)

lemma receipted_bind:
  "unsigned_failure m \<Longrightarrow> (\<And>x. receipted R (f x)) \<Longrightarrow> receipted R (io_bind m f)"
  unfolding receipted_def
proof (intro allI impI)
  fix s b n
  assume m: "unsigned_failure m" and f: "\<And>x. \<forall>s b n. fst (f x s) = Inl (SignedAndRecorded b n) \<or>
      fst (f x s) = Inr (SignedAndRecorded b n) \<longrightarrow> R b n"
    and run: "fst (io_bind m f s) = Inl (SignedAndRecorded b n) \<or> fst (io_bind m f s) = Inr (SignedAndRecorded b n)"
  obtain r t where r: "m s = (r, t)" by (cases "m s")
  show "R b n"
  proof (cases r)
    case (Inl e)
    then have "e \<noteq> SignedAndRecorded b n" using m r by (metis fst_conv unsigned_failure_def)
    with run r Inl show ?thesis by (simp add: io_bind_def)
  next
    case (Inr x)
    with run r have "fst (f x t) = Inl (SignedAndRecorded b n) \<or> fst (f x t) = Inr (SignedAndRecorded b n)"
      by (simp add: io_bind_def)
    then show ?thesis using f by blast
  qed
qed

lemma unsigned_simps [simp]:
  "unsigned_failure (io_try c)" "unsigned_failure (io_get f)" "unsigned_failure (io_run g)"
  "unsigned_failure (fs_is_file p)" "unsigned_failure (io_return x)"
  by (auto simp: unsigned_failure_def io_defs io_run_def fs_is_file_def fs_query_def
      split: prod.splits sum.splits)

lemma unsigned_bind:
  "unsigned_failure m \<Longrightarrow> (\<And>x. unsigned_failure (f x)) \<Longrightarrow> unsigned_failure (io_bind m f)"
  unfolding unsigned_failure_def io_bind_def
  by (auto split: prod.split sum.split) (metis fst_conv)+

lemma unsigned_map_err [simp]:
  "(\<And>e b n. g e \<noteq> SignedAndRecorded b n) \<Longrightarrow> unsigned_failure (io_map_err g c)"
  by (auto simp: unsigned_failure_def io_map_err_def map_err_def split: prod.splits sum.splits)

lemma unsigned_lift_err [simp]:
  "(\<And>e b n. g e \<noteq> SignedAndRecorded b n) \<Longrightarrow> unsigned_failure (io_lift (map_err g r))"
  by (cases r) (auto simp: unsigned_failure_def io_lift_def)

lemma unsigned_remove [simp]: "unsigned_failure (remove_quietly p)" "unsigned_failure (remove_both p q)"
  by (simp_all add: remove_quietly_def remove_both_def unsigned_bind)

lemma unsigned_path [simp]: "unsigned_failure cosign_on_path"
proof -
  have "unsigned_failure (first_file ps)" for ps
    by (induction ps) (auto intro!: unsigned_bind)
  then show ?thesis unfolding cosign_on_path_def by (auto intro!: unsigned_bind split: option.split)
qed

lemma receipted_read_bundle:
  "receipted (\<lambda>b n. extract_cosign_legacy_log_index (ql_value lib) b = Some n) (read_bundle lib p q)"
  unfolding read_bundle_def
  by (auto intro!: receipted_bind receipted_return split: sum.split option.split)

lemma receipted_real:
  "receipted (\<lambda>b n. extract_cosign_legacy_log_index (ql_value lib) b = Some n)
    (io_bind cosign_on_path (\<lambda>installed.
      if \<not> installed then io_fail CosignNotInstalled else
      io_bind (io_map_err (\<lambda>e. OutcomeSignFailed (f e)) (write_sign_payload lib payload)) (\<lambda>payload_path.
      case args of
        Inl stderr \<Rightarrow> io_bind (remove_quietly payload_path) (\<lambda>_. io_fail (OutcomeSignFailed stderr))
      | Inr xs \<Rightarrow>
      io_bind (io_try (ql_output lib ''cosign'' (cmd payload_path xs))) (\<lambda>output.
      case output of
        Inl e \<Rightarrow> io_bind (remove_quietly payload_path) (\<lambda>_. io_fail (OutcomeSignFailed (g e)))
      | Inr out \<Rightarrow>
          if \<not> co_success out then
            io_bind (remove_both payload_path (bdl payload_path)) (\<lambda>_.
            io_fail (OutcomeSignFailed (trimmed_stderr out)))
          else read_bundle lib payload_path (bdl payload_path)))))"
  by (auto intro!: receipted_bind receipted_read_bundle split: sum.split)

interpretation real_signer: signer "real_cosign_invoke lib ops"
  "\<lambda>b n. extract_cosign_legacy_log_index (ql_value lib) b = Some n" for lib ops
  by unfold_locales (unfold real_cosign_invoke_def Let_def,
    rule receipted_returning [OF receipted_real])

lemma receipted_sigstore_end:
  "receipted (\<lambda>b n. extract_sigstore_bundle_log_index p b = Some n)
     (case extract_sigstore_bundle_log_index p bs of
        Some i \<Rightarrow> io_return (SignedAndRecorded bs i)
      | None \<Rightarrow> io_return (SignedNotRecorded reason))"
  by (auto intro!: receipted_return split: option.split)

interpretation sigstore_signer: signer "sigstore_invoke sdk ops target"
  "\<lambda>b n. extract_sigstore_bundle_log_index (sk_value sdk) b = Some n" for sdk ops target
proof
  fix ci :: "'g cosign_invocation" and s :: "('a, 'b) sys_scheme" and b n
  assume "fst (sigstore_invoke sdk ops target ci s) = SignedAndRecorded b n"
  then show "extract_sigstore_bundle_log_index (sk_value sdk) b = Some n"
    unfolding sigstore_invoke_def
    by (rule receipted_returning [rotated])
      (auto intro!: receipted_bind receipted_sigstore_end simp: resolve_oidc_token_def split: option.split)
qed

text \<open>The bdl of justsign is decoded: its receipt is the entry of the bdl that was encoded.\<close>

definition justsign_receipt ::
  "('s, 'f, 'k, 'r, 'l, 'b) justsign_sdk \<Rightarrow> bytes \<Rightarrow> nat \<Rightarrow> bool" where
  "justsign_receipt sdk b n \<longleftrightarrow>
     (\<exists>bdl rest. jk_log_indices sdk bdl = int n # rest \<and> jk_encode_json sdk bdl = Inr b)"

lemma receipted_finish: "receipted (justsign_receipt sdk) (io_lift (finish_justsign sdk bdl))"
  by (auto simp: receipted_def io_lift_def finish_justsign_def justsign_receipt_def and_then_def map_err_def
      split: list.splits if_splits sum.splits intro!: exI [of _ bdl])

interpretation justsign_signer: signer "justsign_invoke sdk ops target" "justsign_receipt sdk"
  for sdk ops target
proof
  fix ci :: "'h cosign_invocation" and s :: "('a, 'b) sys_scheme" and b n
  assume "fst (justsign_invoke sdk ops target ci s) = SignedAndRecorded b n"
  then show "justsign_receipt sdk b n"
    unfolding justsign_invoke_def Let_def
    by (rule receipted_returning [rotated])
      (auto intro!: receipted_bind receipted_finish simp: resolve_oidc_token_def
        split: option.split blob_sign_error.split)
qed

section \<open>The documents\<close>

text \<open>A document that is in the store under a digest.\<close>

definition stored :: "('s, 'd, 'c, 'j) attest_lib \<Rightarrow> bytes \<Rightarrow> 'd \<Rightarrow> bool" where
  "stored lib bs d \<longleftrightarrow> (\<exists>u v. al_put lib bs u = (Inr d, v))"

lemma digest_hit: "json_as_object (json_map [(k, v)]) = Some [(k, v)]"
  by (simp add: json_map_def bt_of_list_def)

lemma statement_states:
  assumes "dg_text ops (ba_manifest_digest built) =
      dg_algorithm ops (ba_manifest_digest built) @ CHR '':'' # dg_hex ops (ba_manifest_digest built)"
    and "CHR '':'' \<notin> set (dg_algorithm ops (ba_manifest_digest built))"
  shows "slsa_states (dg_text ops (ba_manifest_digest built)) (build_statement_value ops built cfg)
    \<lparr>si_spec_hash = dg_text ops (ba_spec_hash built), si_builder_id = builder_id_of cfg,
     si_claimed_level = slsa_as_int (sl_level cfg)\<rparr>"
proof -
  have hex: "expected_hex_of (dg_text ops (ba_manifest_digest built)) = dg_hex ops (ba_manifest_digest built)"
  proof -
    have "split_once (CHR '':'') (dg_text ops (ba_manifest_digest built)) =
        Some (dg_algorithm ops (ba_manifest_digest built), dg_hex ops (ba_manifest_digest built))"
      unfolding split_once_Some_iff using assms by simp
    then show ?thesis by (simp add: expected_hex_of_def)
  qed
  have level: "json_as_i64 (JInt (slsa_as_int l)) = Some (slsa_as_int l)" for l
    by (cases l) simp_all
  show ?thesis
    by (simp add: slsa_states_def build_statement_value_def build_subject_def digest_object_def
        build_predicate_def build_build_definition_def build_external_parameters_def
        build_run_details_def slsa_provenance_v1_def verify_slsa_provenance_v1_def hex level
        subject_matches_def digest_hit
        del: json_as_i64.simps)
qed

lemma bom_states: "sbom_states (sbom_media_type_as_str CycloneDxJson) (build_bom_value ops built scope)"
proof -
  have "contains_str (sbom_media_type_as_str CycloneDxJson) ''cyclonedx''" by code_simp
  then show ?thesis
    by (simp add: sbom_states_def build_bom_value_def str_or_empty_def bom_format_def)
qed

lemma doc_states: "sbom_states (sbom_media_type_as_str SpdxJson) (build_doc_value ops built scope)"
proof -
  have "\<not> contains_str (sbom_media_type_as_str SpdxJson) ''cyclonedx''" by code_simp
  then show ?thesis
    by (simp add: sbom_states_def build_doc_value_def str_or_empty_def spdx_version_def)
qed

lemma classify_outputs:
  "classify_artifact_type in_toto_media_type = ClassSlsa"
  "classify_artifact_type cosign_media_type = ClassSignature"
  by code_simp+

lemma classify_sbom: "classify_artifact_type (sbom_media_type_as_str t) = ClassSbom"
proof -
  have "classify_artifact_type (sbom_media_type_as_str CycloneDxJson) = ClassSbom"
    "classify_artifact_type (sbom_media_type_as_str SpdxJson) = ClassSbom"
    by code_simp+
  then show ?thesis by (cases t) simp_all
qed

lemma storedI: "al_put lib bs u = (Inr d, v) \<Longrightarrow> stored lib bs d"
  unfolding stored_def by blast

lemma emit_slsa_stored:
  assumes "emit_slsa lib built cfg s = (Inr r, t)"
  shows "(r = None \<longleftrightarrow> sl_level cfg = SlsaOff) \<and>
    (\<forall>st. r = Some st \<longrightarrow> (\<exists>bs. al_to_vec lib (build_statement_value (al_digest lib) built cfg) = Inr bs \<and>
       stored lib bs (ss_blob_digest st) \<and> ss_size st = length bs \<and> ss_media_type st = in_toto_media_type))"
  using assms unfolding emit_slsa_def build_statement_bytes_def
  by (auto simp: io_apply_simps map_err_Inr_iff split: if_splits elim!: io_bind_InrE io_map_err_InrE dest!: storedI)

lemma emit_cyclonedx_stored:
  assumes "emit_cyclonedx lib built scope s = (Inr b, t)"
  shows "sm_media_type b = CycloneDxJson \<and>
    (\<exists>bs. al_to_vec lib (build_bom_value (al_digest lib) built scope) = Inr bs \<and>
       stored lib bs (sm_blob_digest b) \<and> sm_size b = length bs)"
  using assms unfolding emit_cyclonedx_def build_bom_bytes_def
  by (auto simp: io_apply_simps elim!: io_bind_InrE io_map_err_InrE dest!: storedI)

lemma emit_spdx_stored:
  assumes "emit_spdx lib built scope s = (Inr b, t)"
  shows "sm_media_type b = SpdxJson \<and>
    (\<exists>bs. al_to_vec lib (build_doc_value (al_digest lib) built scope) = Inr bs \<and>
       stored lib bs (sm_blob_digest b) \<and> sm_size b = length bs)"
  using assms unfolding emit_spdx_def build_doc_bytes_def
  by (auto simp: io_apply_simps elim!: io_bind_InrE io_map_err_InrE dest!: storedI)

lemma attest_parts:
  assumes "attest_with_invoker lib built cfg invoke s = (Inr out, t)"
  obtains u v sb w where "emit_slsa lib built (at_slsa cfg) s = (Inr (ao_slsa out), u)"
    "(case sb_format (at_sbom cfg) of
        CycloneDx \<Rightarrow>
          io_bind (emit_cyclonedx lib built (sb_scope (at_sbom cfg))) (\<lambda>b. io_return (Some b))
      | Spdx \<Rightarrow> io_bind (emit_spdx lib built (sb_scope (at_sbom cfg))) (\<lambda>b. io_return (Some b))
      | SbomOff \<Rightarrow> io_return None) u = (Inr (ao_sbom out), v)"
  using assms unfolding attest_with_invoker_def
  by (elim io_bind_InrE) (auto simp: io_apply_simps)

text \<open>What the pipeline returns stands for documents that are in the store.\<close>

lemma pipeline_documents:
  assumes "attest_with_invoker lib built cfg invoke s = (Inr out, t)"
  shows "(ao_slsa out = None \<longleftrightarrow> sl_level (at_slsa cfg) = SlsaOff)"
    and "ao_slsa out = Some st \<Longrightarrow>
      (\<exists>bs. al_to_vec lib (build_statement_value (al_digest lib) built (at_slsa cfg)) = Inr bs \<and>
        stored lib bs (ss_blob_digest st) \<and> ss_size st = length bs \<and> ss_media_type st = in_toto_media_type)"
    and "(ao_sbom out = None \<longleftrightarrow> sb_format (at_sbom cfg) = SbomOff)"
    and "ao_sbom out = Some b \<Longrightarrow>
      (\<exists>bs. al_to_vec lib
          (case sm_media_type b of
             CycloneDxJson \<Rightarrow> build_bom_value (al_digest lib) built (sb_scope (at_sbom cfg))
           | SpdxJson \<Rightarrow> build_doc_value (al_digest lib) built (sb_scope (at_sbom cfg))) = Inr bs \<and>
        stored lib bs (sm_blob_digest b) \<and> sm_size b = length bs)"
proof -
  from assms obtain u v where slsa: "emit_slsa lib built (at_slsa cfg) s = (Inr (ao_slsa out), u)"
    and sbom: "(case sb_format (at_sbom cfg) of
        CycloneDx \<Rightarrow>
          io_bind (emit_cyclonedx lib built (sb_scope (at_sbom cfg))) (\<lambda>b. io_return (Some b))
      | Spdx \<Rightarrow> io_bind (emit_spdx lib built (sb_scope (at_sbom cfg))) (\<lambda>b. io_return (Some b))
      | SbomOff \<Rightarrow> io_return None) u = (Inr (ao_sbom out), v)"
    by (rule attest_parts)
  from emit_slsa_stored [OF slsa]
  show "(ao_slsa out = None \<longleftrightarrow> sl_level (at_slsa cfg) = SlsaOff)"
    and "ao_slsa out = Some st \<Longrightarrow>
      (\<exists>bs. al_to_vec lib (build_statement_value (al_digest lib) built (at_slsa cfg)) = Inr bs \<and>
        stored lib bs (ss_blob_digest st) \<and> ss_size st = length bs \<and> ss_media_type st = in_toto_media_type)"
    by auto
  show "(ao_sbom out = None \<longleftrightarrow> sb_format (at_sbom cfg) = SbomOff)"
    using sbom by (cases "ao_sbom out")
      (auto simp: io_apply_simps split: sbom_format.splits elim!: io_bind_InrE)
  show "\<exists>bs. al_to_vec lib
          (case sm_media_type b of
             CycloneDxJson \<Rightarrow> build_bom_value (al_digest lib) built (sb_scope (at_sbom cfg))
           | SpdxJson \<Rightarrow> build_doc_value (al_digest lib) built (sb_scope (at_sbom cfg))) = Inr bs \<and>
        stored lib bs (sm_blob_digest b) \<and> sm_size b = length bs" if b: "ao_sbom out = Some b"
    using sbom b
    by (auto simp: io_apply_simps split: sbom_format.splits elim!: io_bind_InrE
        dest: emit_cyclonedx_stored emit_spdx_stored)
qed

section \<open>A sample run\<close>

text \<open>A SPDX document and a signature for an artifact of one layer; digests are their text.\<close>

definition sample_built :: "string built_artifact" where
  "sample_built =
     \<lparr>ba_manifest_digest = ''sha256:1'', ba_config_digest = ''sha256:2'',
      ba_layer_digests = [(0, ''sha256:3'')], ba_spec = sample_spec, ba_spec_hash = ''sha256:4''\<rparr>"

definition sample_attest_ops :: "string digest_ops" where
  "sample_attest_ops = \<lparr>dg_algorithm = (\<lambda>_. ''sha256''), dg_hex = drop 7, dg_text = id\<rparr>"

definition sample_config :: attestation_config where
  "sample_config =
     \<lparr>at_slsa = \<lparr>sl_level = L2, sl_builder_id = Some ''ci''\<rparr>,
      at_sbom = \<lparr>sb_format = Spdx, sb_scope = ScopeBoth\<rparr>, at_sign = default_sign\<rparr>"

definition sample_to_vec :: "json \<Rightarrow> unit + bytes" where
  "sample_to_vec v = Inr
     (case json_get ''spdxVersion'' v of
        Some _ \<Rightarrow> ''D''
      | None \<Rightarrow> (case json_get ''bomFormat'' v of Some _ \<Rightarrow> ''C'' | None \<Rightarrow> ''S''))"

definition sample_parse :: "bytes \<Rightarrow> message + json" where
  "sample_parse b =
     (if b = ''S'' then Inr (build_statement_value sample_attest_ops sample_built (at_slsa sample_config))
      else if b = ''C'' then Inr (build_bom_value sample_attest_ops sample_built ScopeBoth)
      else if b = ''D'' then Inr (build_doc_value sample_attest_ops sample_built ScopeBoth)
      else if b = ''B'' then Inr (json_map [(''verificationMaterial'', json_map [(''tlogEntries'',
        JArray [json_map [(''logIndex'', JString ''7'')]])])])
      else Inl [])"

definition sample_attest_lib :: "(unit sys, string, unit, unit) attest_lib" where
  "sample_attest_lib =
     \<lparr>al_digest = sample_attest_ops, al_put = (\<lambda>b. io_return (''sha256:'' @ b)), al_to_vec = sample_to_vec\<rparr>"

definition sample_sdk :: "(unit sys, unit, unit, unit, unit) sigstore_sdk" where
  "sample_sdk =
     \<lparr>sk_identity = (\<lambda>_. Inr ()), sk_production = io_return (), sk_signer = (\<lambda>_ _. io_return ()),
      sk_sign = (\<lambda>_ _. io_return ()), sk_bundle_to_vec = (\<lambda>_. Inr ''B''), sk_value = sample_parse\<rparr>"

definition sample_sys :: "unit sys" where
  "sample_sys =
     \<lparr>fs_nodes = (\<lambda>_. None), fs_faults = [], fs_seen = [], fs_order = (\<lambda>_. []),
      sy_env = [''SIGSTORE_ID_TOKEN'' \<mapsto> ''t''], sy_world = ()\<rparr>"

definition sample_attested :: "string attestation_outputs" where
  "sample_attested =
     \<lparr>ao_slsa = Some \<lparr>ss_blob_digest = ''sha256:S'', ss_size = 1, ss_media_type = in_toto_media_type,
        ss_predicate_type = slsa_provenance_v1\<rparr>,
      ao_sbom = Some \<lparr>sm_blob_digest = ''sha256:D'', sm_size = 1, sm_media_type = SpdxJson\<rparr>,
      ao_signature = Some \<lparr>sn_bundle_digest = ''sha256:B'', sn_size = 1, sn_media_type = cosign_media_type,
        sn_rekor_log_index = 7, sn_identity = ''<unspecified>''\<rparr>\<rparr>"

lemma sample_vec:
  fixes ops :: "string digest_ops"
  shows "sample_to_vec (build_statement_value ops built cfg) = Inr ''S''"
    and "sample_to_vec (build_bom_value ops built scope) = Inr ''C''"
    and "sample_to_vec (build_doc_value ops built scope) = Inr ''D''"
  by (simp_all add: sample_to_vec_def build_statement_value_def build_bom_value_def build_doc_value_def)

lemma sample_signs:
  "sigstore_invoke sample_sdk ops SigstoreProduction
     \<lparr>ci_manifest_digest = d, ci_kind = CosignKeyless, ci_identity = None\<rparr> sample_sys =
     (SignedAndRecorded ''B'' 7, sample_sys)"
proof -
  have "(resolve_oidc_token :: (unit sys, cosign_outcome, string option) io) sample_sys = (Inr (Some ''t''), sample_sys)"
    by (simp add: resolve_oidc_token_def nonempty_env_def sample_sys_def io_apply_simps)
  moreover have "parse_u64 ''7'' = Some 7" by (simp add: parse_u64_def dec_value_def is_ascii_digit_def code_of_def)
  then have "extract_sigstore_bundle_log_index sample_parse ''B'' = Some 7"
    by (simp add: extract_sigstore_bundle_log_index_def sample_parse_def)
  ultimately show ?thesis
    by (simp add: sigstore_invoke_def returning_def io_bind_apply io_map_err_apply io_apply_simps sample_sdk_def)
qed

lemma sample_attest_out:
  "fst (attest sample_attest_lib sample_sdk sample_built sample_config sample_sys) = Inr sample_attested"
  by (simp add: attest_def attest_with_invoker_def emit_slsa_def build_statement_bytes_def emit_spdx_def
      build_doc_bytes_def sign_with_def io_run_def io_bind_apply io_map_err_apply io_apply_simps sample_config_def
      sample_attest_lib_def sample_vec default_sign_def sample_signs sample_attested_def)

lemma sample_attest_run:
  obtains t where
    "attest sample_attest_lib sample_sdk sample_built sample_config sample_sys = (Inr sample_attested, t)"
  using sample_attest_out
  by (cases "attest sample_attest_lib sample_sdk sample_built sample_config sample_sys") auto

section \<open>Properties\<close>

text \<open>
  C14: a run of the pipeline with the default signer that returns a signature has had it
  recorded: the signer was asked about this manifest, the bdl it returned is in the store
  under the returned digest, and its transparency-log entry has the returned index. A
  signature is missing only when signing is off; no other outcome of the signer is a success.
\<close>

theorem attest_signature_recorded:
  assumes "attest lib sdk built cfg s = (Inr out, t)"
  shows "(ao_signature out = None \<longleftrightarrow> sg_kind (at_sign cfg) = SignOff) \<and>
    (\<forall>sg. ao_signature out = Some sg \<longrightarrow>
       (\<exists>b u v w.
          fst (sigstore_invoke sdk (al_digest lib) SigstoreProduction
            \<lparr>ci_manifest_digest = ba_manifest_digest built, ci_kind = sg_kind (at_sign cfg),
             ci_identity = sg_identity (at_sign cfg)\<rparr> u) = SignedAndRecorded b (sn_rekor_log_index sg) \<and>
          al_put lib b v = (Inr (sn_bundle_digest sg), w) \<and> sn_size sg = length b \<and>
          extract_sigstore_bundle_log_index (sk_value sdk) b = Some (sn_rekor_log_index sg)))"
  using sigstore_signer.pipeline_signed [OF assms [unfolded attest_def]]
  unfolding sigstore_signer.signed_by_def .

theorem attest_signature_recorded_witness:
  "ao_signature sample_attested \<noteq> None \<and> sg_kind (at_sign sample_config) \<noteq> SignOff"
proof (rule sample_attest_run)
  fix t
  assume "attest sample_attest_lib sample_sdk sample_built sample_config sample_sys = (Inr sample_attested, t)"
  from attest_signature_recorded [OF this] show ?thesis by (simp add: sample_attested_def)
qed

text \<open>
  C13: the documents of a successful run are the ones the verifier asks for. Each is in the
  store under the digest and the length of its output; its media type puts it in the right
  pillar; the SLSA statement validates against this manifest and states the hash of the spec,
  the builder and the level of the configuration, and the SBOM passes its validator. This
  needs a parser that reads back what the serialiser wrote of these documents, and digests
  whose text is the algorithm, a colon and the hexadecimal value.
\<close>

theorem attested_documents_accepted:
  assumes run: "attest_with_invoker lib built cfg invoke s = (Inr out, t)"
    and reads: "\<And>doc bs. doc \<in> {build_statement_value (al_digest lib) built (at_slsa cfg),
        build_bom_value (al_digest lib) built (sb_scope (at_sbom cfg)),
        build_doc_value (al_digest lib) built (sb_scope (at_sbom cfg))} \<Longrightarrow>
      al_to_vec lib doc = Inr bs \<Longrightarrow> parse bs = Inr doc"
    and digest: "dg_text (al_digest lib) (ba_manifest_digest built) =
      dg_algorithm (al_digest lib) (ba_manifest_digest built) @ CHR '':'' #
      dg_hex (al_digest lib) (ba_manifest_digest built)"
      "CHR '':'' \<notin> set (dg_algorithm (al_digest lib) (ba_manifest_digest built))"
  shows "(ao_slsa out = None \<longleftrightarrow> sl_level (at_slsa cfg) = SlsaOff) \<and>
    (\<forall>st. ao_slsa out = Some st \<longrightarrow>
       classify_artifact_type (ss_media_type st) = ClassSlsa \<and>
       (\<exists>bs. stored lib bs (ss_blob_digest st) \<and> ss_size st = length bs \<and>
          validate_slsa_statement parse bs (dg_text (al_digest lib) (ba_manifest_digest built)) =
            Inr \<lparr>si_spec_hash = dg_text (al_digest lib) (ba_spec_hash built),
                 si_builder_id = builder_id_of (at_slsa cfg),
                 si_claimed_level = slsa_as_int (sl_level (at_slsa cfg))\<rparr>)) \<and>
    (ao_sbom out = None \<longleftrightarrow> sb_format (at_sbom cfg) = SbomOff) \<and>
    (\<forall>b. ao_sbom out = Some b \<longrightarrow>
       classify_artifact_type (sbom_media_type_as_str (sm_media_type b)) = ClassSbom \<and>
       (\<exists>bs. stored lib bs (sm_blob_digest b) \<and> sm_size b = length bs \<and>
          validate_sbom parse bs (sbom_media_type_as_str (sm_media_type b)) = Inr ()))"
proof (intro conjI allI impI)
  note parts = pipeline_documents [OF run]
  show "ao_slsa out = None \<longleftrightarrow> sl_level (at_slsa cfg) = SlsaOff" by (rule parts)
  show "ao_sbom out = None \<longleftrightarrow> sb_format (at_sbom cfg) = SbomOff" by (rule parts)
  show "classify_artifact_type (sbom_media_type_as_str (sm_media_type b)) = ClassSbom" for b
    by (rule classify_sbom)
  {
    fix st
    assume "ao_slsa out = Some st"
    from parts(2) [OF this] obtain bs where
      vec: "al_to_vec lib (build_statement_value (al_digest lib) built (at_slsa cfg)) = Inr bs"
      and st: "stored lib bs (ss_blob_digest st)" "ss_size st = length bs"
        "ss_media_type st = in_toto_media_type" by blast
    show "classify_artifact_type (ss_media_type st) = ClassSlsa" by (simp add: st classify_outputs)
    have "parse bs = Inr (build_statement_value (al_digest lib) built (at_slsa cfg))"
      by (rule reads [OF _ vec]) simp
    then show "\<exists>bs. stored lib bs (ss_blob_digest st) \<and> ss_size st = length bs \<and>
        validate_slsa_statement parse bs (dg_text (al_digest lib) (ba_manifest_digest built)) =
          Inr \<lparr>si_spec_hash = dg_text (al_digest lib) (ba_spec_hash built),
               si_builder_id = builder_id_of (at_slsa cfg),
               si_claimed_level = slsa_as_int (sl_level (at_slsa cfg))\<rparr>"
      using st statement_states [OF digest] unfolding validate_slsa_iff by blast
  }
  fix b
  assume b: "ao_sbom out = Some b"
  let ?doc = "case sm_media_type b of
      CycloneDxJson \<Rightarrow> build_bom_value (al_digest lib) built (sb_scope (at_sbom cfg))
    | SpdxJson \<Rightarrow> build_doc_value (al_digest lib) built (sb_scope (at_sbom cfg))"
  from parts(4) [OF b] obtain bs where vec: "al_to_vec lib ?doc = Inr bs"
    and st: "stored lib bs (sm_blob_digest b)" "sm_size b = length bs" by blast
  have "parse bs = Inr ?doc"
    by (rule reads [OF _ vec]) (cases "sm_media_type b"; simp)
  moreover have "sbom_states (sbom_media_type_as_str (sm_media_type b)) ?doc"
    by (cases "sm_media_type b") (simp_all add: bom_states doc_states)
  ultimately show "\<exists>bs. stored lib bs (sm_blob_digest b) \<and> sm_size b = length bs \<and>
      validate_sbom parse bs (sbom_media_type_as_str (sm_media_type b)) = Inr ()"
    using st unfolding validate_sbom_iff by blast
qed

theorem attested_documents_accepted_witness:
  "\<exists>bs. stored sample_attest_lib bs ''sha256:S'' \<and>
     validate_slsa_statement sample_parse bs ''sha256:1'' =
       Inr \<lparr>si_spec_hash = ''sha256:4'', si_builder_id = ''ci'', si_claimed_level = 2\<rparr>"
proof (rule sample_attest_run)
  fix t
  assume "attest sample_attest_lib sample_sdk sample_built sample_config sample_sys = (Inr sample_attested, t)"
  note run = this [unfolded attest_def]
  have ops: "al_digest sample_attest_lib = sample_attest_ops" "al_to_vec sample_attest_lib = sample_to_vec"
    "at_sbom sample_config = \<lparr>sb_format = Spdx, sb_scope = ScopeBoth\<rparr>"
    by (simp_all add: sample_attest_lib_def sample_config_def)
  have reads: "sample_parse bs = Inr doc"
    if "doc \<in> {build_statement_value sample_attest_ops sample_built (at_slsa sample_config),
        build_bom_value sample_attest_ops sample_built ScopeBoth,
        build_doc_value sample_attest_ops sample_built ScopeBoth}"
      and "sample_to_vec doc = Inr bs" for doc bs
    using that by (auto simp: sample_vec sample_parse_def)
  have digest: "dg_text sample_attest_ops (ba_manifest_digest sample_built) =
      dg_algorithm sample_attest_ops (ba_manifest_digest sample_built) @ CHR '':'' #
      dg_hex sample_attest_ops (ba_manifest_digest sample_built)"
    "CHR '':'' \<notin> set (dg_algorithm sample_attest_ops (ba_manifest_digest sample_built))"
    by (simp_all add: sample_attest_ops_def sample_built_def)
  note accepted = attested_documents_accepted [OF run, of sample_parse, unfolded ops sbom_config.simps,
      OF reads digest]
  show ?thesis
    using accepted [THEN conjunct2, THEN conjunct1, rule_format, of "the (ao_slsa sample_attested)"]
    by (auto simp: sample_attested_def sample_built_def sample_attest_ops_def sample_config_def
        builder_id_of_def)
qed

section \<open>Verifying a signature\<close>

lemma returning_apply: "m s = (Inl x, t) \<Longrightarrow> returning m s = (x, t)" "m s = (Inr x, t) \<Longrightarrow> returning m s = (x, t)"
  by (simp_all add: returning_def)

lemma remove_both_apply: "\<exists>t. (remove_both p q :: ('x fs_scheme, 'e, unit) io) s = (Inr (), t)"
  by (auto simp: remove_both_def remove_quietly_def io_defs split: prod.split)

lemma remove_quietly_apply: "\<exists>t. (remove_quietly p :: ('x fs_scheme, 'e, unit) io) s = (Inr (), t)"
  by (auto simp: remove_quietly_def io_defs split: prod.split)

lemma verify_run_recorded:
  fixes lib :: "'x fs_scheme process_lib"
  assumes "fst (real_cosign_verify lib bin digest b s) = VerifiedAndRecorded n"
  shows "extract_rekor_log_index (ql_value lib) b = Some n \<and>
    (\<exists>p u out v. ql_output lib bin [''verify-blob'', ''--bundle'', with_extension p ''bundle.json'', p] u =
       (Inr out, v) \<and> co_success out)"
proof -
  obtain r1 s1 where w: "write_payload_tempfile lib digest s = (r1, s1)" by fastforce
  show ?thesis
  proof (cases r1)
    case (Inl e)
    with assms w show ?thesis
      by (simp add: real_cosign_verify_def returning_def io_bind_def io_map_err_def)
  next
    case (Inr p)
    let ?b = "with_extension p ''bundle.json''"
    obtain r2 s2 where st: "fs_write ?b b s1 = (r2, s2)" by fastforce
    obtain r3 s3 where out: "ql_output lib bin [''verify-blob'', ''--bundle'', ?b, p] s2 = (r3, s3)" by fastforce
    obtain s4 where rm: "(remove_both p ?b :: ('x fs_scheme, cosign_verify_outcome, unit) io) s3 = (Inr (), s4)"
      using remove_both_apply by blast
    obtain s5 where rq: "(remove_quietly p :: ('x fs_scheme, cosign_verify_outcome, unit) io) s2 = (Inr (), s5)"
      using remove_quietly_apply by blast
    from assms show ?thesis
      by (cases r2; cases r3)
        (auto simp: real_cosign_verify_def returning_def io_defs w Inr st out rm rq Let_def
          split: if_splits option.splits intro!: exI [of _ p] exI [of _ s2])
  qed
qed

text \<open>
  What the default signer records lies under \<open>verificationMaterial\<close>; the verifier looks under
  \<open>rekorBundle\<close>. A bdl of the one shape is never a recorded signature for the other.
\<close>

lemma bundle_shapes_differ:
  assumes "parse b = Inr (json_map [(''verificationMaterial'', m)])"
  shows "extract_rekor_log_index parse b = None"
  using assms by (simp add: extract_rekor_log_index_def)

lemma sigstore_bundle_unverifiable:
  assumes "ql_value lib b = Inr v" and "json_get ''rekorBundle'' v = None"
  shows "\<exists>detail. signature_verdict dg (fst (real_cosign_verify lib bin digest b s)) = PillarFailed detail"
proof (cases "fst (real_cosign_verify lib bin digest b s)")
  case (VerifiedAndRecorded n)
  then show ?thesis
    using assms verify_run_recorded [OF VerifiedAndRecorded] by (simp add: extract_rekor_log_index_def)
qed (simp_all add: signature_verdict_def)

text \<open>
  C32: the production verifier of signatures reports a recorded signature only when the
  bdl it was given has \<open>rekorBundle.Payload.logIndex\<close> with that index and \<open>cosign
  verify-blob\<close>, run on that bdl's file and the payload's, ended with success. A failed or
  missing program, a file that cannot be staged and a bdl without that index all give
  another outcome.
\<close>

theorem cosign_verify_recorded:
  fixes lib :: "'x fs_scheme process_lib"
  assumes "fst (real_cosign_verify lib bin digest b s) = VerifiedAndRecorded n"
  shows "extract_rekor_log_index (ql_value lib) b = Some n \<and>
    (\<exists>p u out v. ql_output lib bin [''verify-blob'', ''--bundle'', with_extension p ''bundle.json'', p] u =
       (Inr out, v) \<and> co_success out)"
  using verify_run_recorded [OF assms] .

definition sample_cosign_lib :: "fs process_lib" where
  "sample_cosign_lib =
     \<lparr>ql_output = (\<lambda>_ _. io_return \<lparr>co_success = True, co_stderr = []\<rparr>), ql_temp_dir = ''/t'', ql_pid = 1,
      ql_nanos = (\<lambda>_. 2), ql_io_text = (\<lambda>_. []),
      ql_value = (\<lambda>_. Inr (JObject [(''rekorBundle'', JObject [(''Payload'',
        JObject [(''logIndex'', JInt 7)])])]))\<rparr>"

definition sample_cosign_fs :: fs where
  "sample_cosign_fs =
     \<lparr>fs_nodes = [[''/''] \<mapsto> DirNode, [''/'', ''t''] \<mapsto> DirNode], fs_faults = [], fs_seen = [],
      fs_order = (\<lambda>_. [])\<rparr>"

lemma sample_cosign_out:
  "fst (real_cosign_verify sample_cosign_lib ''cosign'' ''sha256:1'' ''B'' sample_cosign_fs) = VerifiedAndRecorded 7"
  by code_simp

theorem cosign_verify_recorded_witness:
  "extract_rekor_log_index (ql_value sample_cosign_lib) ''B'' = Some 7"
  using cosign_verify_recorded [OF sample_cosign_out] by (rule conjunct1)

end
