(* ===== verification/Cmd_Build.thy ===== *)
theory Cmd_Build
  imports Cmd_Read History Build_Atomicity Referrers_Commit Registry_Sink Attest_Props
begin

text \<open>
  \<open>cli/src/cmd/build.rs\<close>: the command \<open>build\<close>, which builds the image, attests it and makes the
  attestation outputs referrers of the image. The content store opened at the image and the
  SDK of the signer are parameters.
\<close>

section \<open>The command\<close>

record ('s, 'h, 'd, 'c, 'j, 'b, 't, 'g, 'k, 'sb) build_cmd_lib =
  bc_toml :: "string \<Rightarrow> string + raw_spec"
  bc_jcs :: "json \<Rightarrow> 'j + bytes"
  bc_hash :: "bytes \<Rightarrow> 'd"
  bc_fuel :: nat
  bc_build :: "('s, 'h, 'd, 'c, 'j, 'b) build_lib"
  bc_digest :: "'d digest_ops"
  bc_sdk :: "('s, 't, 'g, 'k, 'sb) sigstore_sdk"
  bc_referrers :: referrer_lib
  bc_cas_text :: "'c \<Rightarrow> message"

record attestation_summary =
  sum_slsa_digest :: "string option"
  sum_sbom_digest :: "string option"
  sum_signature_digest :: "string option"

record build_summary =
  bs_manifest_digest :: string
  bs_spec_hash :: string
  bs_output_dir :: path
  bs_attestation :: "attestation_summary option"

definition read_blob_size :: "path \<Rightarrow> string \<Rightarrow> ('x fs_scheme, ('c, 'j) cli_error, nat) io" where
  "read_blob_size image_dir digest =
     io_bind (io_lift (ok_or (Cli [Txt ''malformed digest '', Txt digest, Txt '': missing '', Txt [CHR 0x27],
         Txt '':'', Txt [CHR 0x27], Txt '' separator''])
       (split_once (CHR '':'') digest))) (\<lambda>(algo, hex).
     let p = path_join (path_join (path_join image_dir ''blobs'') algo) hex in
     io_bind (io_map_err (CliIo p) (fs_metadata p)) (\<lambda>meta.
     io_return (node_size meta)))"

text \<open>\<open>attest\<close> with a store opened at the image.\<close>

definition attest_lib_at ::
  "('s, 'h, 'd, 'c, 'j, 'b, 't, 'g, 'k, 'sb) build_cmd_lib \<Rightarrow> 'h \<Rightarrow> ('s, 'd, 'c, 'j) attest_lib" where
  "attest_lib_at lib cas =
     \<lparr>al_digest = bc_digest lib, al_put = cas_put (bc_build lib) cas, al_to_vec = json_to_vec (bc_build lib)\<rparr>"

definition summary_of :: "'d digest_ops \<Rightarrow> 'd attestation_outputs \<Rightarrow> attestation_summary" where
  "summary_of ops outputs =
     \<lparr>sum_slsa_digest = map_option (\<lambda>s. dg_text ops (ss_blob_digest s)) (ao_slsa outputs),
      sum_sbom_digest = map_option (\<lambda>s. dg_text ops (sm_blob_digest s)) (ao_sbom outputs),
      sum_signature_digest = map_option (\<lambda>s. dg_text ops (sn_bundle_digest s)) (ao_signature outputs)\<rparr>"

text \<open>The attestation of a built image, up to the size of its manifest.\<close>

definition attest_built ::
  "(('w, 'x) sys_scheme, 'h, 'd, 'c, 'j, 'b, 't, 'g, 'k, 'sb) build_cmd_lib \<Rightarrow> spec \<Rightarrow> 'd \<Rightarrow>
   'd build_output \<Rightarrow> path \<Rightarrow> (('w, 'x) sys_scheme, ('c, 'j) cli_error, 'd attestation_outputs \<times> nat) io" where
  "attest_built lib sp canonical_hash out output_dir =
     io_bind (io_map_err (\<lambda>e. Cli ([Txt ''could not open FsCas at '', Txt output_dir, Txt '': ''] @ bc_cas_text lib e))
       (cas_new (bc_build lib) output_dir)) (\<lambda>cas.
     let positioned = List.enumerate 0 (bo_layer_digests out) in
     io_bind (io_lift (map_err (\<lambda>e. Cli (Txt ''internal: BuiltArtifact construction rejected build output: '' #
         display_built_artifact_error e))
       (built_artifact_new (bo_manifest_digest out) (bo_config_digest out) positioned sp canonical_hash))) (\<lambda>built.
     io_bind (io_map_err CliAttest
       (attest (attest_lib_at lib cas) (bc_sdk lib) built (sp_attestation sp))) (\<lambda>outputs.
     io_bind (read_blob_size output_dir (dg_text (bc_digest lib) (bo_manifest_digest out))) (\<lambda>primary_size.
     io_return (outputs, primary_size)))))"

definition attest_image ::
  "(('w, 'x) sys_scheme, 'h, 'd, 'c, 'j, 'b, 't, 'g, 'k, 'sb) build_cmd_lib \<Rightarrow> spec \<Rightarrow> 'd \<Rightarrow>
   'd build_output \<Rightarrow> path \<Rightarrow> (('w, 'x) sys_scheme, ('c, 'j) cli_error, attestation_summary) io" where
  "attest_image lib sp canonical_hash out output_dir =
     io_bind (attest_built lib sp canonical_hash out output_dir) (\<lambda>(outputs, primary_size).
     io_bind (write_referrers_into_image_dir (bc_referrers lib) (bc_digest lib) output_dir outputs
       (dg_text (bc_digest lib) (bo_manifest_digest out)) primary_size) (\<lambda>_.
     io_return (summary_of (bc_digest lib) outputs)))"

definition build_command ::
  "(('w, 'x) sys_scheme, 'h, 'd, 'c, 'j, 'b, 't, 'g, 'k, 'sb) build_cmd_lib \<Rightarrow> path \<Rightarrow> path \<Rightarrow> bool \<Rightarrow>
   (('w, 'x) sys_scheme, ('c, 'j) cli_error, build_summary) io" where
  "build_command lib spec_path output_dir no_attest =
     io_bind (io_map_err CliSpec (parse_and_validate (bc_toml lib) spec_path)) (\<lambda>loaded.
     io_bind (io_lift (map_err CliSpecCanonicalize (spec_hash (bc_jcs lib) (bc_hash lib) (ls_spec loaded))))
       (\<lambda>canonical_hash.
     io_bind (io_map_err CliBuild (build (bc_build lib) (bc_fuel lib) loaded output_dir)) (\<lambda>out.
     io_bind (if no_attest then io_return None
       else io_bind (attest_image lib (ls_spec loaded) canonical_hash out output_dir)
         (\<lambda>summary. io_return (Some summary))) (\<lambda>attestation_summary.
     io_return
       \<lparr>bs_manifest_digest = dg_text (bc_digest lib) (bo_manifest_digest out),
        bs_spec_hash = dg_text (bc_digest lib) canonical_hash,
        bs_output_dir = bo_output_dir out, bs_attestation = attestation_summary\<rparr>))))"

section \<open>Operations that only add to an image\<close>

text \<open>
  The fixed files of an image at \<open>K\<close>: its directory, marker and index, and its blobs by name.
\<close>

definition fixed_files :: "fkey \<Rightarrow> fkey set" where
  "fixed_files K = {K, K @ [''oci-layout''], K @ [''index.json'']} \<union> {blob_key K h | h. True}"

definition kept :: "fkey \<Rightarrow> nodes \<Rightarrow> nodes \<Rightarrow> bool" where
  "kept K m0 m \<longleftrightarrow> (\<forall>k \<in> fixed_files K. m0 k \<noteq> None \<longrightarrow> m k = m0 k)"

definition adds :: "fkey \<Rightarrow> ('x fs_scheme, 'e, 'a) io \<Rightarrow> bool" where
  "adds K c \<longleftrightarrow>
     (\<forall>s r t. c s = (r, t) \<longrightarrow>
        (\<exists>h. fs_seen t = fs_seen s @ h \<and> (\<forall>m \<in> insert (fs_nodes t) (set h). kept K (fs_nodes s) m)))"

named_theorems adds_intros "operations that only add to an image"

lemma kept_refl: "kept K m m"
  by (simp add: kept_def)

lemma kept_trans: "kept K m0 m1 \<Longrightarrow> kept K m1 m2 \<Longrightarrow> kept K m0 m2"
  unfolding kept_def by metis

lemma addsE:
  assumes "adds K c" and "c s = (r, t)"
  obtains h where "fs_seen t = fs_seen s @ h" "\<forall>m \<in> insert (fs_nodes t) (set h). kept K (fs_nodes s) m"
  using assms unfolding adds_def by metis

lemma adds_same: "(\<And>s. fs_nodes (snd (c s)) = fs_nodes s \<and> fs_seen (snd (c s)) = fs_seen s) \<Longrightarrow> adds K c"
  unfolding adds_def by (metis append_Nil2 empty_iff empty_set insert_iff kept_refl snd_conv)

lemma adds_pure [adds_intros]: "adds K (io_return x)" "adds K (io_fail e)" "adds K (io_lift r)" "adds K (io_get f)"
  by (rule adds_same, simp add: io_apply_simps)+

lemma adds_bind_result:
  assumes "adds K c" and "\<And>s x t. c s = (Inr x, t) \<Longrightarrow> adds K (f x)"
  shows "adds K (io_bind c f)"
  unfolding adds_def
proof (intro allI impI)
  fix s r t
  assume run: "io_bind c f s = (r, t)"
  obtain q u where u: "c s = (q, u)" by fastforce
  obtain h where h: "fs_seen u = fs_seen s @ h" "\<forall>m \<in> insert (fs_nodes u) (set h). kept K (fs_nodes s) m"
    by (rule addsE [OF assms(1) u])
  show "\<exists>h. fs_seen t = fs_seen s @ h \<and> (\<forall>m \<in> insert (fs_nodes t) (set h). kept K (fs_nodes s) m)"
  proof (cases q)
    case (Inl e)
    with run u have "t = u" by (simp add: io_bind_def)
    with h show ?thesis by blast
  next
    case (Inr x)
    with run u have f: "f x u = (r, t)" by (simp add: io_bind_def)
    obtain g where g: "fs_seen t = fs_seen u @ g" "\<forall>m \<in> insert (fs_nodes t) (set g). kept K (fs_nodes u) m"
      by (rule addsE [OF assms(2) [OF u [unfolded Inr]] f])
    have "kept K (fs_nodes s) (fs_nodes u)" using h(2) by simp
    with g(2) have "\<forall>m \<in> insert (fs_nodes t) (set g). kept K (fs_nodes s) m"
      using kept_trans by blast
    with h g(1) show ?thesis by (intro exI [of _ "h @ g"]) auto
  qed
qed

lemma adds_bind [adds_intros]: "adds K c \<Longrightarrow> (\<And>x. adds K (f x)) \<Longrightarrow> adds K (io_bind c f)"
  by (rule adds_bind_result) auto

lemma adds_map_err [adds_intros]: "adds K c \<Longrightarrow> adds K (io_map_err g c)"
  unfolding adds_def io_map_err_def by (auto split: prod.splits)

lemma adds_run: "adds K (io_run (returning c))" if "adds K c"
  using that unfolding adds_def io_run_def returning_def by (auto split: prod.splits sum.splits)

lemma adds_reads: "reads g \<Longrightarrow> adds K (fs_call g)"
  by (rule adds_same) (simp add: fs_call_reads)

text \<open>
  What the command relies on of the store opened at the image and of the SDK: they may add to
  the image, and never change a fixed file that is there.
\<close>

definition bystanders ::
  "(('w, 'x) sys_scheme, 'h, 'd, 'c, 'j, 'b, 't, 'g, 'k, 'sb) build_cmd_lib \<Rightarrow> path \<Rightarrow> bool" where
  "bystanders lib out \<longleftrightarrow>
     adds (fs_key out) (cas_new (bc_build lib) out) \<and>
     (\<forall>s h t b. cas_new (bc_build lib) out s = (Inr h, t) \<longrightarrow> adds (fs_key out) (cas_put (bc_build lib) h b)) \<and>
     adds (fs_key out) (sk_production (bc_sdk lib)) \<and>
     (\<forall>g t. adds (fs_key out) (sk_signer (bc_sdk lib) g t)) \<and>
     (\<forall>k b. adds (fs_key out) (sk_sign (bc_sdk lib) k b))"

lemma adds_oidc: "adds K resolve_oidc_token"
  unfolding resolve_oidc_token_def by (rule adds_pure)

lemma adds_invoke:
  assumes "bystanders lib out"
  shows "adds (fs_key out) (io_run (sigstore_invoke (bc_sdk lib) ops target invocation))"
  using assms unfolding sigstore_invoke_def bystanders_def
  by (intro adds_run) (auto intro!: adds_intros adds_oidc split: option.split)

lemma adds_attest:
  fixes lib :: "(('w, 'x) sys_scheme, 'h, 'd, 'c, 'j, 'b, 't, 'g, 'k, 'sb) build_cmd_lib"
  assumes "bystanders lib out" and "cas_new (bc_build lib) out s = (Inr cas, t)"
  shows "adds (fs_key out) (attest (attest_lib_at lib cas) (bc_sdk lib) built cfg)"
proof -
  have put: "adds (fs_key out) (al_put (attest_lib_at lib cas) b)" for b
    using assms unfolding bystanders_def attest_lib_at_def by auto
  have "adds (fs_key out) (emit_slsa (attest_lib_at lib cas) built c)" for c
    unfolding emit_slsa_def by (auto intro!: adds_intros put)
  moreover have "adds (fs_key out) (emit_cyclonedx (attest_lib_at lib cas) built scope)"
    "adds (fs_key out) (emit_spdx (attest_lib_at lib cas) built scope)" for scope
    unfolding emit_cyclonedx_def emit_spdx_def by (auto intro!: adds_intros put)
  moreover have "adds (fs_key out) (sign_with (attest_lib_at lib cas) d c
      (sigstore_invoke (bc_sdk lib) ops target))" for d c ops target
    unfolding sign_with_def by (auto intro!: adds_intros put adds_invoke [OF assms(1)] split: cosign_outcome.split)
  ultimately show ?thesis
    unfolding attest_def attest_with_invoker_def
    by (auto intro!: adds_intros split: sbom_format.split sign_kind.split)
qed

lemma adds_metadata: "adds K (fs_metadata p)"
  unfolding fs_metadata_def by (rule adds_reads) simp

lemma adds_attest_built:
  assumes "bystanders lib out"
  shows "adds (fs_key out) (attest_built lib sp h o' out)"
  unfolding attest_built_def Let_def
proof (rule adds_bind_result)
  show "adds (fs_key out) (io_map_err g (cas_new (bc_build lib) out))" for g
    using assms unfolding bystanders_def by (intro adds_map_err) blast
next
  fix s cas t g
  assume "io_map_err g (cas_new (bc_build lib) out) s = (Inr cas, t)"
  then have "cas_new (bc_build lib) out s = (Inr cas, t)" by (elim io_map_err_InrE)
  note attest = adds_attest [OF assms this]
  show "adds (fs_key out) (io_bind (io_lift (map_err (\<lambda>e. Cli (Txt ''internal: BuiltArtifact construction rejected build output: '' #
         display_built_artifact_error e))
       (built_artifact_new (bo_manifest_digest o') (bo_config_digest o') (List.enumerate 0 (bo_layer_digests o')) sp h))) (\<lambda>built.
     io_bind (io_map_err CliAttest (attest (attest_lib_at lib cas) (bc_sdk lib) built (sp_attestation sp))) (\<lambda>outputs.
     io_bind (read_blob_size out (dg_text (bc_digest lib) (bo_manifest_digest o'))) (\<lambda>primary_size.
     io_return (outputs, primary_size)))))"
    unfolding read_blob_size_def Let_def
    by (auto intro!: adds_intros attest adds_metadata split: prod.split)
qed

section \<open>What is at the output\<close>

text \<open>
  An image of the contents \<open>cs\<close>: the marker, and under the name of every content a file that
  hashes to that name.
\<close>

definition image_there ::
  "referrer_lib \<Rightarrow> fkey \<Rightarrow> (bytes \<Rightarrow> 'd) \<Rightarrow> ('d \<Rightarrow> string) \<Rightarrow> bytes set \<Rightarrow> bytes \<Rightarrow> nodes \<Rightarrow> bool" where
  "image_there rl K dig hex cs lb m \<longleftrightarrow>
     m K = Some DirNode \<and> m (K @ [''oci-layout'']) = Some (FileNode lb) \<and>
     (\<forall>b \<in> cs. \<exists>b'. m (blob_key K (hex (dig b))) = Some (FileNode b') \<and>
        ref_hex_sha256 rl b' = hex (dig b))"

definition index_built :: "fkey \<Rightarrow> bytes \<Rightarrow> nodes \<Rightarrow> bool" where
  "index_built K ib m \<longleftrightarrow> m (ref_index K) = Some (FileNode ib)"

text \<open>The index of the build with the descriptors of all attestation outputs appended.\<close>

definition index_attested :: "referrer_lib \<Rightarrow> 'd digest_ops \<Rightarrow> fkey \<Rightarrow> string \<Rightarrow> bytes \<Rightarrow> nodes \<Rightarrow> bool" where
  "index_attested rl ops K digest ib m \<longleftrightarrow>
     (\<exists>outputs n m0. m0 (ref_index K) = Some (FileNode ib) \<and>
        complete_index rl K (json_descriptor ref_media_type_oci_manifest digest n) (output_rows ops outputs) m0 m)"

lemma layout_there:
  assumes "layout_at K dig hex cs lb ib m" and "\<And>b. hex (dig b) = ref_hex_sha256 rl b"
  shows "image_there rl K dig hex cs lb m \<and> index_built K ib m"
  using assms(1) by (auto simp: layout_at_def image_there_def index_built_def ref_index_def assms(2))

lemma kept_there:
  assumes "kept K m0 m" and "image_there rl K dig hex cs lb m0" and "index_built K ib m0"
  shows "image_there rl K dig hex cs lb m \<and> index_built K ib m"
proof -
  have same: "m k = m0 k" if "k \<in> fixed_files K" "m0 k = Some n" for k n
    using assms(1) that by (auto simp: kept_def)
  have "m K = m0 K" "m (K @ [''oci-layout'']) = m0 (K @ [''oci-layout''])" "m (K @ [''index.json'']) = m0 (K @ [''index.json''])"
    by (rule same, simp add: fixed_files_def, use assms(2,3) in \<open>simp add: image_there_def index_built_def ref_index_def\<close>)+
  moreover have "m (blob_key K h) = m0 (blob_key K h)" if "m0 (blob_key K h) = Some n" for h n
    using that by (intro same) (auto simp: fixed_files_def)
  ultimately show ?thesis
    using assms(2,3) by (auto simp: image_there_def index_built_def ref_index_def)
qed

lemma added_there:
  assumes "added rl K m0 m" and "image_there rl K dig hex cs lb m0"
    and sha: "\<And>b. length (rf_sha256 rl b) = 32"
  shows "image_there rl K dig hex cs lb m"
proof -
  have cases: "m k = m0 k \<or> (\<exists>b. k = ref_blob rl K b \<and> m k = Some (FileNode b))"
    if "k \<notin> ref_temps K" "k \<noteq> ref_index K" "m0 k = Some n" for k n
    using assms(1) that unfolding added_def by force
  have "m K = m0 K"
    using cases [of K] assms(2) by (auto simp: ref_temps_def ref_index_def ref_blob_def image_there_def)
  moreover have "m (K @ [''oci-layout'']) = m0 (K @ [''oci-layout''])"
    using cases [of "K @ [''oci-layout'']"] assms(2)
    by (auto simp: ref_temps_def ref_index_def ref_blob_def image_there_def)
  moreover have "\<exists>b''. m (blob_key K h) = Some (FileNode b'') \<and> ref_hex_sha256 rl b'' = h"
    if b': "m0 (blob_key K h) = Some (FileNode b')" "ref_hex_sha256 rl b' = h" for h b'
  proof -
    have "sha256_digest (''sha256:'' @ h) h" using ref_hex [OF sha, of b'] b'(2) by simp
    then have "\<not> starts_with h ''.''" by (intro hex_no_dot) (auto simp: sha256_digest_def)
    then have "blob_key K h \<notin> ref_temps K" "blob_key K h \<noteq> ref_index K"
      by (auto simp: blob_key_def ref_temps_def ref_index_def)
    from cases [OF this b'(1)] b' show ?thesis by (auto simp: blob_key_def ref_blob_def)
  qed
  ultimately show ?thesis using assms(2) unfolding image_there_def by metis
qed

section \<open>The referrers of a later run\<close>

lemma blind_referrers: "blind (write_referrers_into_image_dir rl ops dir outputs digest n)"
proof -
  have blob: "blind (write_blob_if_absent rl dir b)" for b
    unfolding write_blob_if_absent_def Let_def by (intro blind_intros)
  have row: "blind (write_referrer_row rl dir subject row vs)" for subject row vs
    unfolding write_referrer_row_def build_and_write_referrer_manifest_def
    by (auto intro!: blind_intros blob split: prod.split)
  show ?thesis
    unfolding write_referrers_into_image_dir_def rewrite_index_def Let_def
    by (auto intro!: blind_intros blob row split: option.split prod.split)
qed

lemma referrers_run:
  fixes r :: "('c, 'j) cli_error + unit"
  assumes sha: "\<And>b. length (rf_sha256 rl b) = 32"
    and run: "write_referrers_into_image_dir rl ops dir outputs digest n s = (r, t)"
    and there: "image_there rl (fs_key dir) dig hex cs lb (fs_nodes s)" "index_built (fs_key dir) ib (fs_nodes s)"
  shows "\<exists>h. fs_seen t = fs_seen s @ h \<and>
    (\<forall>m \<in> insert (fs_nodes t) (set h). image_there rl (fs_key dir) dig hex cs lb m \<and>
       (index_built (fs_key dir) ib m \<or> index_attested rl ops (fs_key dir) digest ib m)) \<and>
    (is_ok r \<longrightarrow> index_attested rl ops (fs_key dir) digest ib (fs_nodes t))"
proof (rule blind_unprefixed [OF blind_referrers run])
  fix u
  assume u: "write_referrers_into_image_dir rl ops dir outputs digest n (s\<lparr>fs_seen := []\<rparr>) = (r, u)"
    and t: "t = prefixed (fs_seen s) u"
  let ?K = "fs_key dir" and ?s = "s\<lparr>fs_seen := []\<rparr>"
  let ?C = "complete_index rl ?K (json_descriptor ref_media_type_oci_manifest digest n) (output_rows ops outputs) (fs_nodes s)"
  let ?S = "sound_refs rl ?K (json_descriptor ref_media_type_oci_manifest digest n) (output_rows ops outputs) (fs_nodes s)"
  note T = triple_write_referrers [OF sha, where dir = dir and ?m0.0 = "fs_nodes s" and digest = digest
      and n = n and ops = ops and outputs = outputs]
  have start: "disk ((=) (fs_nodes s)) ?S ?s" by (simp add: disk_def)
  have sound: "disk ?S ?S u" and finish: "is_ok r \<longrightarrow> ?C (fs_nodes u)"
  proof -
    show "disk ?S ?S u"
      using triple_InlD [OF T start] triple_InrD [OF T start] u
      by (cases r) (auto simp: disk_def intro: grown_sound)
    show "is_ok r \<longrightarrow> ?C (fs_nodes u)"
      using triple_InrD [OF T start] u by (cases r) (auto simp: disk_def is_ok_def)
  qed
  have attested: "index_attested rl ops ?K digest ib m" if "?C m" for m
    using that there(2) unfolding index_attested_def index_built_def by blast
  have "image_there rl ?K dig hex cs lb m \<and> (index_built ?K ib m \<or> index_attested rl ops ?K digest ib m)" if "?S m" for m
    using that added_there [OF _ there(1) sha] there(2) attested by (auto simp: sound_refs_def index_built_def)
  with sound finish attested t show ?thesis
    by (intro exI [of _ "fs_seen u"]) (auto simp: disk_def)
qed

lemma attest_image_run:
  fixes r :: "('c, 'j) cli_error + attestation_summary"
    and lib :: "(('w, 'x) sys_scheme, 'h, 'd, 'c, 'j, 'b, 't, 'g, 'k, 'sb) build_cmd_lib"
  assumes stands: "bystanders lib out" and sha: "\<And>b. length (rf_sha256 (bc_referrers lib) b) = 32"
    and run: "attest_image lib sp h o' out s = (r, t)"
    and there: "image_there (bc_referrers lib) (fs_key out) dig hex cs lb (fs_nodes s)"
      "index_built (fs_key out) ib (fs_nodes s)"
  defines "A \<equiv> index_attested (bc_referrers lib) (bc_digest lib) (fs_key out)
      (dg_text (bc_digest lib) (bo_manifest_digest o')) ib"
  shows "\<exists>h. fs_seen t = fs_seen s @ h \<and>
    (\<forall>m \<in> insert (fs_nodes t) (set h). image_there (bc_referrers lib) (fs_key out) dig hex cs lb m \<and>
       (index_built (fs_key out) ib m \<or> A m)) \<and>
    (is_ok r \<longrightarrow> A (fs_nodes t))"
proof -
  let ?I = "image_there (bc_referrers lib) (fs_key out) dig hex cs lb"
  obtain q u where q: "(attest_built lib sp h o' out :: (_, ('c, 'j) cli_error, _) io) s = (q, u)" by fastforce
  obtain h where h: "fs_seen u = fs_seen s @ h" "\<forall>m \<in> insert (fs_nodes u) (set h). kept (fs_key out) (fs_nodes s) m"
    by (rule addsE [OF adds_attest_built [OF stands] q])
  then have before: "\<forall>m \<in> insert (fs_nodes u) (set h). ?I m \<and> index_built (fs_key out) ib m"
    using kept_there [OF _ there] by blast
  show ?thesis
  proof (cases q)
    case (Inl e)
    with run q have "r = Inl e" "t = u" by (simp_all add: attest_image_def io_bind_def)
    with before h(1) show ?thesis by (auto simp: is_ok_def)
  next
    case (Inr p)
    obtain outputs n where p: "p = (outputs, n)" by fastforce
    obtain q' where refs: "write_referrers_into_image_dir (bc_referrers lib) (bc_digest lib) out outputs
        (dg_text (bc_digest lib) (bo_manifest_digest o')) n u = (q' :: ('c, 'j) cli_error + unit, t)"
      and r: "is_ok r = is_ok q'"
      using run q Inr p by (auto simp: attest_image_def io_bind_def io_apply_simps is_ok_def split: prod.splits sum.splits)
    from referrers_run [OF sha refs] before obtain g where g: "fs_seen t = fs_seen u @ g"
      "\<forall>m \<in> insert (fs_nodes t) (set g). ?I m \<and> (index_built (fs_key out) ib m \<or> A m)"
      "is_ok q' \<longrightarrow> A (fs_nodes t)"
      unfolding A_def by (metis insertI1)
    with h(1) before r show ?thesis by (intro exI [of _ "h @ g"]) auto
  qed
qed

section \<open>The command as a whole\<close>

definition built_as ::
  "(('w, 'x) sys_scheme, 'h, 'd, 'c, 'j, 'b, 't, 'g, 'k, 'sb) build_cmd_lib \<Rightarrow> (bytes \<Rightarrow> 'd) \<Rightarrow> ('d \<Rightarrow> string) \<Rightarrow>
   fkey \<Rightarrow> 'd assembled_manifest \<Rightarrow> bytes \<Rightarrow> nodes \<Rightarrow> bool" where
  "built_as lib dig hex K a ib m \<longleftrightarrow>
     (\<exists>sp ds cs lb. spec_wf sp \<and> build_result (bc_build lib) dig sp a ds cs lb ib \<and>
        image_there (bc_referrers lib) K dig hex cs lb m)"

definition attested_as ::
  "(('w, 'x) sys_scheme, 'h, 'd, 'c, 'j, 'b, 't, 'g, 'k, 'sb) build_cmd_lib \<Rightarrow> fkey \<Rightarrow> 'd assembled_manifest \<Rightarrow>
   bytes \<Rightarrow> nodes \<Rightarrow> bool" where
  "attested_as lib K a ib m \<longleftrightarrow>
     index_attested (bc_referrers lib) (bc_digest lib) K (dg_text (bc_digest lib) (am_manifest_digest a)) ib m"

text \<open>What another process can find at the output at any moment.\<close>

definition visible_output ::
  "(('w, 'x) sys_scheme, 'h, 'd, 'c, 'j, 'b, 't, 'g, 'k, 'sb) build_cmd_lib \<Rightarrow> (bytes \<Rightarrow> 'd) \<Rightarrow> ('d \<Rightarrow> string) \<Rightarrow>
   fkey \<Rightarrow> nodes \<Rightarrow> bool" where
  "visible_output lib dig hex K m \<longleftrightarrow>
     absent K m \<or> (\<exists>a ib. built_as lib dig hex K a ib m \<and> (index_built K ib m \<or> attested_as lib K a ib m))"

text \<open>What a successful command has left there.\<close>

definition finished_output ::
  "(('w, 'x) sys_scheme, 'h, 'd, 'c, 'j, 'b, 't, 'g, 'k, 'sb) build_cmd_lib \<Rightarrow> (bytes \<Rightarrow> 'd) \<Rightarrow> ('d \<Rightarrow> string) \<Rightarrow>
   path \<Rightarrow> bool \<Rightarrow> build_summary \<Rightarrow> nodes \<Rightarrow> bool" where
  "finished_output lib dig hex out no_attest summary m \<longleftrightarrow>
     bs_output_dir summary = out \<and> (bs_attestation summary = None \<longleftrightarrow> no_attest) \<and>
     (\<exists>a ib. built_as lib dig hex (fs_key out) a ib m \<and>
        bs_manifest_digest summary = dg_text (bc_digest lib) (am_manifest_digest a) \<and>
        (if no_attest then index_built (fs_key out) ib m else attested_as lib (fs_key out) a ib m))"

definition build_tail ::
  "(('w, 'x) sys_scheme, 'h, 'd, 'c, 'j, 'b, 't, 'g, 'k, 'sb) build_cmd_lib \<Rightarrow> loaded_spec \<Rightarrow> 'd \<Rightarrow> path \<Rightarrow> bool \<Rightarrow>
   'd build_output \<Rightarrow> (('w, 'x) sys_scheme, ('c, 'j) cli_error, build_summary) io" where
  "build_tail lib loaded h output_dir no_attest out =
     io_bind (if no_attest then io_return None
       else io_bind (attest_image lib (ls_spec loaded) h out output_dir)
         (\<lambda>summary. io_return (Some summary))) (\<lambda>attestation_summary.
     io_return
       \<lparr>bs_manifest_digest = dg_text (bc_digest lib) (bo_manifest_digest out),
        bs_spec_hash = dg_text (bc_digest lib) h,
        bs_output_dir = bo_output_dir out, bs_attestation = attestation_summary\<rparr>)"

lemma build_tail_run:
  fixes r :: "('c, 'j) cli_error + build_summary"
    and lib :: "(('w, 'x) sys_scheme, 'h, 'd, 'c, 'j, 'b, 't, 'g, 'k, 'sb) build_cmd_lib"
  assumes "bystanders lib out" and sha: "\<And>b. length (rf_sha256 (bc_referrers lib) b) = 32"
    and run: "build_tail lib loaded h out no_attest o' s = (r, t)"
    and wf: "spec_wf sp" "build_result (bc_build lib) dig sp a ds cs lb ib"
    and o': "bo_manifest_digest o' = am_manifest_digest a" "bo_output_dir o' = out"
    and there: "image_there (bc_referrers lib) (fs_key out) dig hex cs lb (fs_nodes s)"
      "index_built (fs_key out) ib (fs_nodes s)"
  shows "\<exists>h. fs_seen t = fs_seen s @ h \<and>
    (\<forall>m \<in> insert (fs_nodes t) (set h). visible_output lib dig hex (fs_key out) m) \<and>
    (\<forall>summary. r = Inr summary \<longrightarrow> finished_output lib dig hex out no_attest summary (fs_nodes t))"
proof -
  have built: "built_as lib dig hex (fs_key out) a ib m"
    if "image_there (bc_referrers lib) (fs_key out) dig hex cs lb m" for m
    using that wf unfolding built_as_def by blast
  show ?thesis
  proof (cases no_attest)
    case True
    with run have "t = s" "\<forall>summary. r = Inr summary \<longrightarrow> bs_output_dir summary = out \<and> bs_attestation summary = None \<and>
        bs_manifest_digest summary = dg_text (bc_digest lib) (am_manifest_digest a)"
      by (auto simp: build_tail_def io_bind_apply io_apply_simps o')
    with built [OF there(1)] there(2) True show ?thesis
      by (auto simp: visible_output_def finished_output_def)
  next
    case False
    obtain q u where q: "attest_image lib (ls_spec loaded) h o' out s = (q :: ('c, 'j) cli_error + attestation_summary, u)"
      by fastforce
    with run False have t: "t = u" and r: "is_ok r = is_ok q"
      "\<forall>summary. r = Inr summary \<longrightarrow> bs_output_dir summary = out \<and> bs_attestation summary \<noteq> None \<and>
        bs_manifest_digest summary = dg_text (bc_digest lib) (am_manifest_digest a)"
      by (auto simp: build_tail_def io_bind_def io_apply_simps o' is_ok_def split: sum.splits)
    from attest_image_run [OF assms(1) sha q there] obtain g where g: "fs_seen u = fs_seen s @ g"
      "\<forall>m \<in> insert (fs_nodes u) (set g). image_there (bc_referrers lib) (fs_key out) dig hex cs lb m \<and>
         (index_built (fs_key out) ib m \<or> attested_as lib (fs_key out) a ib m)"
      "is_ok q \<longrightarrow> attested_as lib (fs_key out) a ib (fs_nodes u)"
      unfolding attested_as_def o'(1) by metis
    then have "\<forall>m \<in> insert (fs_nodes u) (set g). visible_output lib dig hex (fs_key out) m"
      using built unfolding visible_output_def by blast
    moreover have "finished_output lib dig hex out no_attest summary (fs_nodes u)" if "r = Inr summary" for summary
      using that r g(2,3) built False unfolding finished_output_def by (auto simp: is_ok_def)
    ultimately show ?thesis using g(1) t by blast
  qed
qed

lemma build_command_tail:
  "build_command lib p out no_attest =
     io_bind (io_map_err CliSpec (parse_and_validate (bc_toml lib) p)) (\<lambda>loaded.
     io_bind (io_lift (map_err CliSpecCanonicalize (spec_hash (bc_jcs lib) (bc_hash lib) (ls_spec loaded)))) (\<lambda>h.
     io_bind (io_map_err CliBuild (build (bc_build lib) (bc_fuel lib) loaded out))
       (build_tail lib loaded h out no_attest)))"
  by (simp add: build_command_def build_tail_def [abs_def])

lemma parse_still:
  assumes "parse_and_validate toml p s = (r, t)"
  shows "still (fs_nodes s) (fs_seen s) t \<and> (\<forall>loaded. r = Inr loaded \<longrightarrow> spec_wf (ls_spec loaded))"
proof -
  note T = triple_load [of "fs_nodes s" "fs_seen s" toml p]
  have s: "still (fs_nodes s) (fs_seen s) s" by (simp add: still_def)
  show ?thesis
    using triple_InlD [OF T s] triple_InrD [OF T s] assms by (cases r) auto
qed

lemma map_err_run:
  assumes "io_map_err g c s = (r, t)"
  obtains q where "c s = (q, t)" "is_ok q = is_ok r" "\<And>x. r = Inr x \<longleftrightarrow> q = Inr x"
  using assms by (auto simp: io_map_err_def map_err_def is_ok_def split: prod.splits sum.splits)

lemma build_command_run:
  fixes r :: "('c, 'j) cli_error + build_summary"
    and lib :: "(('w, 'x) sys_scheme, 'h, 'd, 'c, 'j, 'b, 't, 'g, 'k, 'sb) build_cmd_lib"
  assumes sibling: "sibling_partial out" and store: "cas_contract (bc_build lib) (partial_path out) hs dig hex"
    and fresh: "absent (fs_key out) (fs_nodes s)" "fs_seen s = []" and stands: "bystanders lib out"
    and sha: "\<And>b. length (rf_sha256 (bc_referrers lib) b) = 32"
    and names: "\<And>b. hex (dig b) = ref_hex_sha256 (bc_referrers lib) b"
    and run: "build_command lib p out no_attest s = (r, t)"
  shows "(\<forall>m \<in> insert (fs_nodes t) (set (fs_seen t)). visible_output lib dig hex (fs_key out) m) \<and>
    (\<forall>summary. r = Inr summary \<longrightarrow> finished_output lib dig hex out no_attest summary (fs_nodes t))"
proof -
  let ?goal = "\<lambda>(r :: ('c, 'j) cli_error + build_summary) (t :: ('w, 'x) sys_scheme).
    (\<forall>m \<in> insert (fs_nodes t) (set (fs_seen t)). visible_output lib dig hex (fs_key out) m) \<and>
    (\<forall>summary. r = Inr summary \<longrightarrow> finished_output lib dig hex out no_attest summary (fs_nodes t))"
  have stopped: "?goal (Inl e) u" if "clean out u" for e and u :: "('w, 'x) sys_scheme"
    using that by (auto simp: disk_def visible_output_def)
  obtain q1 s1 where load: "parse_and_validate (bc_toml lib) p s = (q1, s1)" by fastforce
  from parse_still [OF load] fresh have s1: "clean out s1"
    and wf: "\<And>loaded. q1 = Inr loaded \<Longrightarrow> spec_wf (ls_spec loaded)"
    by (auto simp: still_def disk_def)
  show ?thesis
  proof (cases q1)
    case (Inl e)
    with run load have "r = Inl (CliSpec e)" "t = s1"
      by (simp_all add: build_command_tail io_bind_apply io_map_err_apply map_err_def)
    with stopped s1 show ?thesis by simp
  next
    case (Inr loaded)
    show ?thesis
    proof (cases "spec_hash (bc_jcs lib) (bc_hash lib) (ls_spec loaded) :: ('j, 'c) canonicalization_error + 'd")
      case Inl': (Inl e)
      with run load Inr have "r = Inl (CliSpecCanonicalize e)" "t = s1"
        by (simp_all add: build_command_tail io_bind_apply io_map_err_apply io_apply_simps map_err_def)
      with stopped s1 show ?thesis by simp
    next
      case Inr': (Inr h)
      with run load Inr have rest: "io_bind (io_map_err CliBuild (build (bc_build lib) (bc_fuel lib) loaded out))
          (build_tail lib loaded h out no_attest) s1 = (r, t)"
        by (simp add: build_command_tail io_bind_apply io_map_err_apply io_apply_simps map_err_def)
      obtain q2 s2 where build: "build (bc_build lib) (bc_fuel lib) loaded out s1 = (q2, s2)" by fastforce
      from build_cases [OF sibling store s1 build] consider
        "\<not> is_ok q2" "clean out s2"
      | o' a ds cs lb ib where "q2 = Inr o'" "build_result (bc_build lib) dig (ls_spec loaded) a ds cs lb ib"
          "bo_manifest_digest o' = am_manifest_digest a" "bo_output_dir o' = out"
          "layout_at (fs_key out) dig hex cs lb ib (fs_nodes s2)"
          "\<forall>m \<in> set (fs_seen s2). absent (fs_key out) m \<or> m = fs_nodes s2"
        by fastforce
      then show ?thesis
      proof cases
        case 1
        then obtain e where "q2 = Inl e" by (cases q2) (auto simp: is_ok_def)
        with rest build have "r = Inl (CliBuild e)" "t = s2"
          by (simp_all add: io_bind_apply io_map_err_apply map_err_def)
        with stopped 1 show ?thesis by simp
      next
        case 2
        from layout_there [OF 2(5) names] have there:
          "image_there (bc_referrers lib) (fs_key out) dig hex cs lb (fs_nodes s2)"
          "index_built (fs_key out) ib (fs_nodes s2)" by simp_all
        from rest build 2(1) have tail: "build_tail lib loaded h out no_attest o' s2 = (r, t)"
          by (simp add: io_bind_apply io_map_err_apply map_err_def)
        from build_tail_run [OF stands sha tail wf [OF Inr] 2(2,3,4) there] obtain g where
          g: "fs_seen t = fs_seen s2 @ g" "\<forall>m \<in> insert (fs_nodes t) (set g). visible_output lib dig hex (fs_key out) m"
          "\<forall>summary. r = Inr summary \<longrightarrow> finished_output lib dig hex out no_attest summary (fs_nodes t)"
          by blast
        have "visible_output lib dig hex (fs_key out) (fs_nodes s2)"
          using there wf [OF Inr] 2(2) unfolding visible_output_def built_as_def by blast
        with 2(6) have "\<forall>m \<in> set (fs_seen s2). visible_output lib dig hex (fs_key out) m"
          unfolding visible_output_def by blast
        with g show ?thesis by auto
      qed
    qed
  qed
qed

section \<open>A sample command\<close>

text \<open>
  A store whose digest is constant, and that refuses a content whose name is taken by another:
  it holds one content, which every document of the sample serialises to.
\<close>

definition sample_hash :: "bytes \<Rightarrow> bytes" where
  "sample_hash b = replicate 32 (CHR ''x'')"

definition careful_put :: "path \<Rightarrow> bytes \<Rightarrow> (unit sys, unit, bytes) io" where
  "careful_put h b = (\<lambda>s.
     let k = blob_key (fs_key h) (hex_of_bytes (sample_hash b)) in
     if fs_nodes s k = Some (FileNode b) then (Inr (sample_hash b), s)
     else if fs_nodes s k \<noteq> None then (Inl (), s)
     else let m = (fs_nodes s)(k \<mapsto> FileNode b) in
       (Inr (sample_hash b), s\<lparr>fs_nodes := m, fs_seen := fs_seen s @ [m]\<rparr>))"

definition careful_lib ::
  "(unit sys, path, bytes, unit, unit, (tar_header \<times> string \<times> bytes) list) build_lib" where
  "careful_lib =
     \<lparr>cas_new = (\<lambda>root. io_return root),
      cas_put = careful_put,
      cas_put_stream = (\<lambda>h rd. case rd of
         Inl _ \<Rightarrow> io_fail ()
       | Inr b \<Rightarrow> io_bind (careful_put h b) (\<lambda>d. io_return (d, b))),
      digest_to_string = (\<lambda>d. ''sha256:'' @ hex_of_bytes d),
      gz_encoder = (\<lambda>rd. rd), zstd_encoder = Inr,
      json_to_vec = (\<lambda>_. Inr ''{}''),
      lib_tar = listing_lib\<rparr>"

lemma careful_put_cases:
  "careful_put h b s = (r, t) \<Longrightarrow>
     t = s \<and> (r = Inl () \<or> r = Inr (sample_hash b) \<and>
       fs_nodes s (blob_key (fs_key h) (hex_of_bytes (sample_hash b))) = Some (FileNode b)) \<or>
     r = Inr (sample_hash b) \<and> fs_nodes s (blob_key (fs_key h) (hex_of_bytes (sample_hash b))) = None \<and>
       (\<exists>m. m = (fs_nodes s)(blob_key (fs_key h) (hex_of_bytes (sample_hash b)) \<mapsto> FileNode b) \<and>
         fs_nodes t = m \<and> fs_seen t = fs_seen s @ [m])"
  by (auto simp: careful_put_def Let_def split: if_splits)

lemma careful_put_local:
  fixes root :: path
  shows "confined (fs_key root) (careful_put root b)"
    "keeps_blobs (fs_key root) sample_hash hex_of_bytes (careful_put root b)"
    "adds (fs_key root) (careful_put root b)"
proof -
  show "confined (fs_key root) (careful_put root b)"
    by (auto simp: confined_def careful_put_def Let_def agree_outside_def blob_key_def)
  show "keeps_blobs (fs_key root) sample_hash hex_of_bytes (careful_put root b)"
    by (auto simp: keeps_blobs_def careful_put_def Let_def)
  show "adds (fs_key root) (careful_put root b)"
    unfolding adds_def
  proof (intro allI impI)
    fix s r t
    assume "careful_put root b s = (r, t)"
    then consider "t = s"
      | "fs_nodes s (blob_key (fs_key root) (hex_of_bytes (sample_hash b))) = None"
        "fs_nodes t = (fs_nodes s)(blob_key (fs_key root) (hex_of_bytes (sample_hash b)) \<mapsto> FileNode b)"
        "fs_seen t = fs_seen s @ [fs_nodes t]"
      using careful_put_cases by fastforce
    then show "\<exists>h. fs_seen t = fs_seen s @ h \<and> (\<forall>m \<in> insert (fs_nodes t) (set h). kept (fs_key root) (fs_nodes s) m)"
      by cases (auto simp: kept_def)
  qed
qed

lemma careful_contract: "cas_contract careful_lib root {root} sample_hash hex_of_bytes"
proof -
  have ret: "confined (fs_key root) (io_return x :: (unit sys, 'e, 'a) io)"
    "keeps_blobs (fs_key root) sample_hash hex_of_bytes (io_return x :: (unit sys, 'e, 'a) io)"
    "confined (fs_key root) (io_fail y :: (unit sys, 'e, 'a) io)"
    "keeps_blobs (fs_key root) sample_hash hex_of_bytes (io_fail y :: (unit sys, 'e, 'a) io)" for x y
    by (simp_all add: confined_def keeps_blobs_def io_return_def io_fail_def agree_outside_def)
  have bind: "snd (io_bind (careful_put root b) (\<lambda>d. io_return (d, b)) s) = snd (careful_put root b s)" for b s
    by (cases "careful_put root b s"; cases "fst (careful_put root b s)") (auto simp: io_bind_def io_return_def)
  have stream: "confined (fs_key root) (io_bind (careful_put root b) (\<lambda>d. io_return (d, b)))"
    "keeps_blobs (fs_key root) sample_hash hex_of_bytes (io_bind (careful_put root b) (\<lambda>d. io_return (d, b)))" for b
    using careful_put_local(1,2) [of root b] by (simp_all add: confined_def keeps_blobs_def bind)
  have put: "d = sample_hash b \<and> fs_nodes t (blob_key (fs_key root) (hex_of_bytes d)) = Some (FileNode b)"
    if "careful_put root b s = (Inr d, t)" for b s d t
    using careful_put_cases [OF that] by auto
  have puts: "drawn = b \<and> d = sample_hash b \<and> fs_nodes t (blob_key (fs_key root) (hex_of_bytes d)) = Some (FileNode b)"
    if "io_bind (careful_put root b) (\<lambda>d. io_return (d, b)) s = (Inr (d, drawn), t)" for b s d drawn t
    using that put by (auto elim!: io_bind_InrE simp: io_apply_simps)
  show ?thesis
    unfolding cas_contract_def careful_lib_def
    by (auto simp: ret stream careful_put_local io_apply_simps dest: put puts split: sum.split)
qed

definition sample_build_cmd ::
  "(unit sys, path, bytes, unit, unit, (tar_header \<times> string \<times> bytes) list, unit, unit, unit, unit) build_cmd_lib" where
  "sample_build_cmd =
     \<lparr>bc_toml = (\<lambda>_. Inr (sample_raw [sample_layer ''a/x+gzip''])), bc_jcs = (\<lambda>_. Inr ''c''),
      bc_hash = sample_hash, bc_fuel = 1, bc_build = careful_lib,
      bc_digest = \<lparr>dg_algorithm = (\<lambda>_. ''sha256''), dg_hex = hex_of_bytes, dg_text = (\<lambda>d. ''sha256:'' @ hex_of_bytes d)\<rparr>,
      bc_sdk = sample_sdk,
      bc_referrers = \<lparr>rf_value = (\<lambda>_. Inr (JObject [(''manifests'', JArray [JNull])])),
        rf_to_vec = (\<lambda>_. Inr ''{}''),
        rf_sha256 = sample_hash, rf_pid = 7\<rparr>,
      bc_cas_text = (\<lambda>_. [])\<rparr>"

definition sample_build_sys :: "unit sys" where
  "sample_build_sys = sample_sys\<lparr>fs_nodes := (fs_nodes sample_fs)([''/'', ''d'', ''blob.bin''] \<mapsto> FileNode ''{}'')\<rparr>"

lemma sample_bystanders: "bystanders sample_build_cmd ''/out''"
  by (auto simp: bystanders_def sample_build_cmd_def careful_lib_def sample_sdk_def io_apply_simps
      intro!: adds_intros careful_put_local(3))

section \<open>Properties\<close>



end
