(* ===== verification/Cli_Main.thy ===== *)
theory Cli_Main
  imports Cmd_Verify Cmd_Build
begin

text \<open>
  \<open>cli/src/main.rs\<close>: the dispatch of a parsed command line, what each command prints, and the
  exit code. The parser of the command line (\<open>clap\<close>) is not part of the model: a command is
  the value it gives. Standard output is a field of the state; when it cannot be written,
  \<open>write_all\<close> is an error and \<open>println!\<close> panics. What goes to standard error is left out.
\<close>

section \<open>Standard output\<close>

datatype printed = Line message | Raw bytes

record 'w console = "'w pull" +
  co_stdout :: "printed list"
  co_stdout_error :: "io_error option"

definition println :: "message \<Rightarrow> (('w, 'x) console_scheme, ('c, 'j) cmd_stop, unit) io" where
  "println t = (\<lambda>s.
     case co_stdout_error s of
       None \<Rightarrow> (Inr (), s\<lparr>co_stdout := co_stdout s @ [Line t]\<rparr>)
     | Some _ \<Rightarrow> (Inl (Panicked ''failed printing to stdout''), s))"

definition write_stdout :: "bytes \<Rightarrow> (('w, 'x) console_scheme, ('c, 'j) cmd_stop, unit) io" where
  "write_stdout bs = (\<lambda>s.
     case co_stdout_error s of
       None \<Rightarrow> (Inr (), s\<lparr>co_stdout := co_stdout s @ [Raw bs]\<rparr>)
     | Some e \<Rightarrow> (Inl (Failed (CliIo ''<stdout>'' e)), s))"

definition print_all :: "message list \<Rightarrow> (('w, 'x) console_scheme, ('c, 'j) cmd_stop, unit) io" where
  "print_all ts = io_fold (\<lambda>t _. println t) ts ()"

section \<open>What the commands print\<close>

definition pillar_detail :: "pillar_verdict \<Rightarrow> string" where
  "pillar_detail v =
     (case v of
        PillarMissing \<Rightarrow> ''(no referrer found)''
      | PillarFound detail \<Rightarrow> detail
      | PillarFailed detail \<Rightarrow> detail)"

definition or_off :: "string option \<Rightarrow> string" where
  "or_off d = (case d of Some x \<Rightarrow> x | None \<Rightarrow> ''(off)'')"

definition build_lines :: "build_summary \<Rightarrow> message list" where
  "build_lines summary =
     [[Txt ''manifest_digest: '', Txt (bs_manifest_digest summary)],
      [Txt ''spec_hash:       '', Txt (bs_spec_hash summary)],
      [Txt ''output_dir:      '', Txt (bs_output_dir summary)]] @
     (case bs_attestation summary of
        None \<Rightarrow> [[Txt ''attestation:     skipped: --no-attest'']]
      | Some a \<Rightarrow>
          [[Txt ''slsa:            '', Txt (or_off (sum_slsa_digest a))],
           [Txt ''sbom:            '', Txt (or_off (sum_sbom_digest a))],
           [Txt ''signature:       '', Txt (or_off (sum_signature_digest a))]])"

definition publish_lines :: "publish_outcome \<Rightarrow> message list" where
  "publish_lines outcome =
     map (\<lambda>d. [Txt ''pushed:  '', Txt d]) (digests_pushed outcome) @
     map (\<lambda>d. [Txt ''skipped: '', Txt d]) (digests_skipped outcome) @
     [[Txt ''bytes:   '', Txt (dec_of_nat (bytes_uploaded outcome))]]"

definition pillar_line :: "string \<Rightarrow> pillar_verdict \<Rightarrow> message" where
  "pillar_line name v = [Txt name, Txt (verdict_label v), Txt ''  '', Txt (pillar_detail v)]"

definition verify_lines :: "verify_report \<Rightarrow> message list" where
  "verify_lines report =
     [[Txt ''manifest: '', Txt (vr_manifest_digest report)],
      pillar_line ''slsa:      '' (vr_slsa report),
      pillar_line ''sbom:      '' (vr_sbom report),
      pillar_line ''signature: '' (vr_signature report)]"

definition layer_line :: "nat \<Rightarrow> layer_info \<Rightarrow> message" where
  "layer_line i l = [Txt ''layer['', Txt (dec_of_nat i), Txt '']:  '', Txt (li_digest l), Txt '' ('',
     Txt (li_media_type l), Txt '', '', Txt (dec_of_nat (li_size l)), Txt '' bytes)'']"

definition referrer_line :: "referrer_info \<Rightarrow> message" where
  "referrer_line r = [Txt ''referrer: '', Txt (ri_digest r), Txt ''  '', Txt (ri_artifact_type r), Txt '' ('',
     Txt (dec_of_nat (ri_size r)), Txt '' bytes)'']"

definition print_inspection :: "inspect_output \<Rightarrow> (('w, 'x) console_scheme, ('c, 'j) cmd_stop, unit) io" where
  "print_inspection out =
     (case out of
        InspectSpec canonical h \<Rightarrow>
          io_bind (write_stdout canonical) (\<lambda>_.
          print_all [[], [Txt ''spec_hash: '', Txt h]])
      | InspectImage manifest_digest config_digest config_media_type layers referrers \<Rightarrow>
          print_all
            ([[Txt ''manifest_digest: '', Txt manifest_digest],
              [Txt ''config:          '', Txt config_digest, Txt '' ('', Txt config_media_type, Txt '')'']] @
             map (\<lambda>(i, l). layer_line i l) (List.enumerate 0 layers) @ map referrer_line referrers))"

section \<open>The command line\<close>

record auth_flags =
  af_no_auth :: bool
  af_mode :: string
  af_username :: "string option"
  af_password :: "string option"
  af_token :: "string option"
  af_vault_base_path :: string
  af_docker_config_path :: "path option"

datatype command =
    CmdBuild path path bool
  | CmdPublish path string auth_flags
  | CmdVerify string "path option" auth_flags bool
  | CmdSbom path "path option" string
  | CmdInspect path

record ('w, 'x, 'u, 'v, 'h, 'd, 'c, 'j, 'b, 't, 'g, 'k, 'sb) main_lib =
  ml_features :: features
  ml_build :: "(('w, 'x) console_scheme, 'h, 'd, 'c, 'j, 'b, 't, 'g, 'k, 'sb) build_cmd_lib"
  ml_publish :: "('w, 'x console_ext pull_ext, 'u, 'v) publish_lib"
  ml_verify :: "('w, 'x console_ext, 'u, 'v) verify_cmd_lib"
  ml_read :: "(('w, 'x) console_scheme, 'd, 'c, 'j) read_lib"

text \<open>\<open>dispatch\<close>: the command runs, and what it gives is printed.\<close>

definition dispatch ::
  "('w, 'x, 'u, 'v, 'h, 'd, 'c, 'j, 'b, 't, 'g, 'k, 'sb) main_lib \<Rightarrow> command \<Rightarrow>
   (('w, 'x) console_scheme, ('c, 'j) cmd_stop, unit) io" where
  "dispatch lib cmd =
     (case cmd of
        CmdBuild spec_path output no_attest \<Rightarrow>
          io_bind (io_map_err Failed (build_command (ml_build lib) spec_path output no_attest)) (\<lambda>summary.
          print_all (build_lines summary))
      | CmdPublish dir sink flags \<Rightarrow>
          io_bind (io_lift (map_err Failed (parse_publish_auth_mode (ml_features lib) (af_no_auth flags)
            (af_mode flags) (af_username flags) (af_password flags) (af_token flags)
            (af_vault_base_path flags) (af_docker_config_path flags)))) (\<lambda>auth.
          io_bind (publish_command (ml_publish lib) dir sink auth) (\<lambda>outcome.
          print_all (publish_lines outcome)))
      | CmdVerify reference policy flags strict \<Rightarrow>
          io_bind (io_lift (map_err Failed (parse_verify_auth_mode (ml_features lib) (af_no_auth flags)
            (af_mode flags) (af_username flags) (af_password flags) (af_token flags)
            (af_vault_base_path flags) (af_docker_config_path flags)))) (\<lambda>auth.
          io_bind (verify_with_options (ml_verify lib) reference policy auth
            \<lparr>vo_require_referrers = strict\<rparr>) (\<lambda>report.
          print_all (verify_lines report)))
      | CmdSbom input output fmt \<Rightarrow>
          io_bind (io_lift (map_err Failed (sbom_output_format_parse fmt))) (\<lambda>f.
          io_bind (io_map_err Failed (sbom_command (ml_read lib) input f)) (\<lambda>bs.
          case output of
            Some p \<Rightarrow>
              io_bind (io_map_err (\<lambda>e. Failed (CliIo p e)) (fs_write p bs)) (\<lambda>_.
              print_all [[Txt ''sbom: '', Txt p], [Txt ''bytes: '', Txt (dec_of_nat (length bs))]])
          | None \<Rightarrow> write_stdout bs))
      | CmdInspect input \<Rightarrow>
          io_bind (io_map_err Failed (inspect_command (ml_read lib) input)) print_inspection)"

section \<open>The exit code\<close>

text \<open>Panics that the model carries as values of an error type.\<close>

fun panics :: "('c, 'j) cli_error \<Rightarrow> bool" where
  "panics (CliSpec (IndexPanic _)) = True"
| "panics (CliPublish (PublishPanic _)) = True"
| "panics (CliRegistryPull (PullPanic _)) = True"
| "panics _ = False"

definition stop_code :: "('c, 'j) cmd_stop \<Rightarrow> nat" where
  "stop_code e = (case e of Panicked _ \<Rightarrow> 101 | Failed e \<Rightarrow> if panics e then 101 else exit_code e)"

definition main_run ::
  "('w, 'x, 'u, 'v, 'h, 'd, 'c, 'j, 'b, 't, 'g, 'k, 'sb) main_lib \<Rightarrow> command \<Rightarrow>
   ('w, 'x) console_scheme \<Rightarrow> nat \<times> ('w, 'x) console_scheme" where
  "main_run lib cmd s =
     (case dispatch lib cmd s of (Inr _, t) \<Rightarrow> (0, t) | (Inl e, t) \<Rightarrow> (stop_code e, t))"

section \<open>What success means\<close>

lemma stop_code_positive: "stop_code e \<noteq> 0"
  by (cases e; cases "panics (case e of Failed x \<Rightarrow> x)"; cases "case e of Failed x \<Rightarrow> x")
    (auto simp: stop_code_def)

lemma main_zero: "main_run lib cmd s = (0, t) \<longleftrightarrow> dispatch lib cmd s = (Inr (), t)"
  by (auto simp: main_run_def stop_code_positive split: prod.split sum.split)

lemma println_run:
  "println a s = (Inr (), t) \<longleftrightarrow> co_stdout_error s = None \<and> t = s\<lparr>co_stdout := co_stdout s @ [Line a]\<rparr>"
  by (auto simp: println_def split: option.split)

lemma print_all_run:
  "print_all ts s = (Inr (), t) \<longleftrightarrow>
   (ts \<noteq> [] \<longrightarrow> co_stdout_error s = None) \<and> t = s\<lparr>co_stdout := co_stdout s @ map Line ts\<rparr>"
proof (induction ts arbitrary: s)
  case Nil
  then show ?case by (auto simp: print_all_def io_apply_simps)
next
  case (Cons a ts)
  then show ?case
    by (auto simp: print_all_def succeeds_bind println_run)
qed

text \<open>Without a policy the verdicts do not matter: a pillar that failed is printed, and the code is 0.\<close>

lemma verify_ignores_verdicts:
  fixes lib :: "('w, 'x, 'u, 'v, 'h, 'd, 'c, 'j, 'b, 't, 'g, 'k, 'sb) main_lib"
  assumes "(parse_verify_auth_mode (ml_features lib) (af_no_auth flags) (af_mode flags) (af_username flags)
      (af_password flags) (af_token flags) (af_vault_base_path flags) (af_docker_config_path flags) ::
      ('c, 'j) cli_error + _) = Inr auth"
    and "(verify_with_options (ml_verify lib) reference None auth \<lparr>vo_require_referrers = strict\<rparr> ::
      (_, ('c, 'j) cmd_stop, _) io) s = (Inr report, u)"
    and "co_stdout_error u = None"
  shows "main_run lib (CmdVerify reference None flags strict) s =
    (0, u\<lparr>co_stdout := co_stdout u @ map Line (verify_lines report)\<rparr>)"
  using assms unfolding main_zero dispatch_def command.case succeeds_bind
  by (auto simp: io_apply_simps map_err_def print_all_run)

section \<open>Properties\<close>


text \<open>
  A machine that holds the image directory of the other samples and a standard output that
  works: \<open>justoci verify --no-auth /img\<close> exits with 0.
\<close>

definition sample_main ::
  "(unit, unit, unit, unit, unit, bytes, unit, unit, unit, unit, unit, unit, unit) main_lib" where
  "sample_main =
     \<lparr>ml_features = \<lparr>ft_vault = True, ft_docker_config = True\<rparr>,
      ml_build =
        \<lparr>bc_toml = (\<lambda>_. Inl []), bc_jcs = (\<lambda>_. Inr []), bc_hash = id, bc_fuel = 1,
         bc_build =
           \<lparr>cas_new = (\<lambda>_. io_fail ()), cas_put = (\<lambda>_. io_return),
            cas_put_stream = (\<lambda>_ _. io_fail ()), digest_to_string = id,
            gz_encoder = id, zstd_encoder = Inr, json_to_vec = (\<lambda>_. Inr []),
            lib_tar = \<lparr>tar_new = (), tar_append_data = (\<lambda>_ _ _ _. Inr ()), tar_finish = (\<lambda>_. Inr [])\<rparr>\<rparr>,
         bc_digest = \<lparr>dg_algorithm = (\<lambda>_. ''sha256''), dg_hex = id, dg_text = id\<rparr>,
         bc_sdk =
           \<lparr>sk_identity = (\<lambda>_. Inr ()), sk_production = io_return (), sk_signer = (\<lambda>_ _. io_return ()),
            sk_sign = (\<lambda>_ _. io_return ()), sk_bundle_to_vec = (\<lambda>_. Inr []), sk_value = (\<lambda>_. Inl [])\<rparr>,
         bc_referrers =
           \<lparr>rf_value = (\<lambda>_. Inl []), rf_to_vec = (\<lambda>_. Inr []), rf_sha256 = id, rf_pid = 1\<rparr>,
         bc_cas_text = (\<lambda>_. [])\<rparr>,
      ml_publish =
        \<lparr>pc_fuel = 3, pc_http = sample_http, pc_codecs = sample_codecs, pc_credentials = sample_credentials\<rparr>,
      ml_verify =
        \<lparr>vc_policy = (\<lambda>_. Inl []), vc_pull = sample_pull_lib, vc_credentials = sample_credentials,
         vc_documents = sample_verify_lib,
         vc_process = \<lparr>ql_output = (\<lambda>_ _. io_fail (IoError NotFound [])), ql_temp_dir = ''/tmp'', ql_pid = 1,
           ql_nanos = (\<lambda>_. 0), ql_io_text = (\<lambda>_. []), ql_value = (\<lambda>_. Inl [])\<rparr>,
         vc_tempdir = io_return ''/p'', vc_drop = (\<lambda>_ s. s)\<rparr>,
      ml_read =
        \<lparr>rd_toml = (\<lambda>_. Inl []), rd_jcs = (\<lambda>_. Inr []), rd_hash = id,
         rd_attest = \<lparr>al_digest = \<lparr>dg_algorithm = (\<lambda>_. ''sha256''), dg_hex = id, dg_text = id\<rparr>,
           al_put = io_return, al_to_vec = (\<lambda>_. Inr [])\<rparr>,
         rd_get = io_return, rd_cas_text = (\<lambda>_. []), rd_codecs = sample_codecs, rd_value = (\<lambda>_. Inl [])\<rparr>\<rparr>"

definition sample_console :: "unit console" where
  "sample_console =
     \<lparr>fs_nodes = sample_image_nodes, fs_faults = [], fs_seen = [],
      fs_order = (\<lambda>_. []), sy_env = (\<lambda>_. None), sy_world = (), pb_pid = 1, pb_nanos = [], pb_slept = [],
      pb_sent = [], pl_bearer = (\<lambda>_. None), co_stdout = [], co_stdout_error = None\<rparr>"

definition sample_flags :: auth_flags where
  "sample_flags =
     \<lparr>af_no_auth = True, af_mode = ''env'', af_username = None, af_password = None, af_token = None,
      af_vault_base_path = ''secret/registries'', af_docker_config_path = None\<rparr>"

lemma sample_main_verifies:
  "case (verify_with_options (ml_verify sample_main) ''/img'' None VerifyAnonymous
     \<lparr>vo_require_referrers = False\<rparr> :: (_, (unit, unit) cmd_stop, _) io) sample_console of
   (r, u) \<Rightarrow> is_ok r \<and> co_stdout_error u = None"
  by code_simp

lemma sample_flags_anonymous:
  "parse_verify_auth_mode (ml_features sample_main) (af_no_auth sample_flags) (af_mode sample_flags)
     (af_username sample_flags) (af_password sample_flags) (af_token sample_flags)
     (af_vault_base_path sample_flags) (af_docker_config_path sample_flags) =
   (Inr VerifyAnonymous :: (unit, unit) cli_error + _)"
  by (simp add: parse_verify_auth_mode_def sample_flags_def auth_was_set_def)


end
