(* ===== verification/Jcs_Fixtures.thy ===== *)
theory Jcs_Fixtures
  imports Cli_Main
begin

text \<open>
  \<open>cli/src/bin/regenerate-jcs-fixtures.rs\<close>: the tool that rewrites, or with \<open>--check\<close> only
  compares, the canonical bytes and the specification hash stored beside each test fixture.
  The command line is the list of its arguments; the current directory is a parameter.
\<close>

section \<open>The tool\<close>

record ('s, 'd, 'j) fixture_lib =
  fx_toml :: "string \<Rightarrow> string + raw_spec"
  fx_jcs :: "json \<Rightarrow> 'j + bytes"
  fx_hash :: "bytes \<Rightarrow> 'd"
  fx_text :: "'d \<Rightarrow> string"
  fx_current_dir :: "'s \<Rightarrow> path option"

datatype fixture_args = FxRun bool "path option" | FxHelp | FxUnknown string

fun parse_fixture_args :: "string list \<Rightarrow> bool \<Rightarrow> path option \<Rightarrow> fixture_args" where
  "parse_fixture_args [] check_only explicit_dir = FxRun check_only explicit_dir"
| "parse_fixture_args (a # as) check_only explicit_dir =
     (if a = ''--check'' then parse_fixture_args as True explicit_dir
      else if a = ''-h'' \<or> a = ''--help'' then FxHelp
      else if \<not> starts_with a ''--'' then parse_fixture_args as check_only (Some a)
      else FxUnknown a)"

text \<open>\<open>PathBuf::pop\<close> shortens the path, so the walk towards the root ends.\<close>

lemma trim_sep_rev_shorter: "length (trim_sep_rev s) \<le> length s"
  by (induction s rule: trim_sep_rev.induct) auto

lemma trim_sep_rev_head: "trim_sep_rev s = c # t \<Longrightarrow> c \<noteq> CHR ''/''"
  by (induction s rule: trim_sep_rev.induct) (auto split: if_splits)

lemma path_parent_shorter: "path_parent p = Some q \<Longrightarrow> length q < length p"
proof -
  assume q: "path_parent p = Some q"
  let ?t = "trim_sep_rev (rev p)" and ?f = "\<lambda>c. c \<noteq> CHR ''/''"
  let ?u = "trim_sep_rev (dropWhile ?f ?t)"
  obtain c t where t: "?t = c # t" using q by (cases ?t) (auto simp: path_parent_def)
  then have "c \<noteq> CHR ''/''" by (rule trim_sep_rev_head)
  then have rest: "dropWhile ?f ?t = dropWhile ?f t" by (simp add: t)
  have len: "length t < length p" using trim_sep_rev_shorter [of "rev p"] t by simp
  have "length ?u \<le> length (dropWhile ?f t)" unfolding rest by (rule trim_sep_rev_shorter)
  also have "\<dots> \<le> length t" by (rule length_dropWhile_le)
  finally have u: "length ?u < length p" using len by simp
  consider "q = []" | "q = ''/''" "dropWhile ?f t \<noteq> []" | "q = rev ?u"
    using q unfolding path_parent_def Let_def rest
    by (simp only: t list.distinct if_False) (auto split: if_splits)
  then show ?thesis
  proof cases
    case 2
    then have "t \<noteq> []" by auto
    with 2 len show ?thesis by (cases t) auto
  qed (use u len in \<open>auto simp: length_greater_0_conv [symmetric] simp del: length_greater_0_conv\<close>)
qed

function locate_from :: "path \<Rightarrow> ('x fs_scheme, 'e, path option) io" where
  "locate_from here =
     (let candidate = path_join (path_join (path_join here ''tests'') ''fixtures'') ''jcs'' in
      io_bind (fs_is_dir candidate) (\<lambda>d.
      if d then io_return (Some candidate)
      else case path_parent here of
        None \<Rightarrow> io_return None
      | Some up \<Rightarrow> locate_from up))"
  by pat_completeness auto

termination
  by (relation "measure length") (auto dest: path_parent_shorter)

declare locate_from.simps [simp del]

definition locate_fixtures_dir ::
  "('x fs_scheme, 'd, 'j) fixture_lib \<Rightarrow> ('x fs_scheme, 'e, path option) io" where
  "locate_fixtures_dir lib =
     io_bind (io_get (fx_current_dir lib)) (\<lambda>cwd.
     case cwd of None \<Rightarrow> io_return None | Some here \<Rightarrow> locate_from here)"

definition consider_fixture :: "path \<Rightarrow> string \<Rightarrow> path list \<Rightarrow> ('x fs_scheme, io_error, path list) io" where
  "consider_fixture root name out =
     (let p = path_join root name in
      io_bind (fs_is_dir p) (\<lambda>d.
      io_bind (if d then fs_is_file (path_join p ''spec.toml'') else io_return False) (\<lambda>f.
      io_return (if f then out @ [p] else out))))"

text \<open>Paths are compared by their components.\<close>

definition list_fixtures :: "path \<Rightarrow> ('x fs_scheme, io_error, path list) io" where
  "list_fixtures root =
     io_bind (fs_read_dir root) (\<lambda>names.
     io_bind (io_fold (consider_fixture root) names []) (\<lambda>out.
     io_return (sort_key fs_key out)))"

datatype fixture_outcome = Unchanged | Wrote | WouldChange

datatype ('j, 'c) fixture_error =
    FixtureParse path spec_error
  | FixtureCanonicalize "('j, 'c) canonicalization_error"
  | FixtureWrite path io_error

definition process_fixture ::
  "('x fs_scheme, 'd, 'j) fixture_lib \<Rightarrow> path \<Rightarrow> bool \<Rightarrow>
   ('x fs_scheme, ('j, 'c) fixture_error, fixture_outcome) io" where
  "process_fixture lib fixture check_only =
     (let spec_path = path_join fixture ''spec.toml'';
          expected_canonical = path_join fixture ''expected.canonical.json'';
          expected_hash = path_join fixture ''expected.spec_hash'' in
      io_bind (io_map_err (FixtureParse spec_path) (parse_and_validate (fx_toml lib) spec_path)) (\<lambda>loaded.
      io_bind (io_lift (map_err FixtureCanonicalize (canonical_bytes (fx_jcs lib) (ls_spec loaded)))) (\<lambda>canonical.
      io_bind (io_lift (map_err FixtureCanonicalize (spec_hash (fx_jcs lib) (fx_hash lib) (ls_spec loaded)))) (\<lambda>digest.
      let digest_str = fx_text lib digest in
      io_bind (io_try (fs_read expected_canonical)) (\<lambda>r.
      io_bind (io_try (fs_read_to_string expected_hash)) (\<lambda>h.
      let canonical_matches = (case r of Inr existing \<Rightarrow> existing = canonical | Inl _ \<Rightarrow> False);
          hash_matches = (case h of
            Inr existing \<Rightarrow> trim_end_matches (CHR 0x0A) existing = digest_str
          | Inl _ \<Rightarrow> False) in
      if canonical_matches \<and> hash_matches then io_return Unchanged
      else if check_only then io_return WouldChange
      else
        io_bind (io_map_err (FixtureWrite expected_canonical) (fs_write expected_canonical canonical)) (\<lambda>_.
        io_bind (io_map_err (FixtureWrite expected_hash) (fs_write expected_hash digest_str)) (\<lambda>_.
        io_return Wrote))))))))"

definition fixture_name :: "path \<Rightarrow> string" where
  "fixture_name p =
     (let k = fs_key p in
      if k = [] \<or> last k = ''/'' \<or> last k = ''..'' \<or> \<not> valid_utf8 (last k) then ''?'' else last k)"

text \<open>One turn of the loop: \<open>had_drift\<close> and \<open>had_error\<close>.\<close>

definition fixture_turn ::
  "(('w, 'x) console_scheme, 'd, 'j) fixture_lib \<Rightarrow> bool \<Rightarrow> path \<Rightarrow> bool \<times> bool \<Rightarrow>
   (('w, 'x) console_scheme, ('c, 'j) cmd_stop, bool \<times> bool) io" where
  "fixture_turn lib check_only fixture flags =
     (case flags of (had_drift, had_error) \<Rightarrow>
      io_bind (io_try (process_fixture lib fixture check_only :: (_, ('j, 'c) fixture_error, _) io)) (\<lambda>r.
      case r of
        Inr Unchanged \<Rightarrow>
          io_bind (println [Txt ''ok        '', Txt (fixture_name fixture)]) (\<lambda>_. io_return (had_drift, had_error))
      | Inr Wrote \<Rightarrow>
          io_bind (println [Txt ''regen     '', Txt (fixture_name fixture)]) (\<lambda>_. io_return (had_drift, had_error))
      | Inr WouldChange \<Rightarrow>
          io_bind (println [Txt ''STALE     '', Txt (fixture_name fixture), Txt ''  (run without --check to refresh)''])
            (\<lambda>_. io_return (True, had_error))
      | Inl _ \<Rightarrow> io_return (had_drift, True)))"

definition regenerate_in ::
  "(('w, 'x) console_scheme, 'd, 'j) fixture_lib \<Rightarrow> bool \<Rightarrow> path \<Rightarrow>
   (('w, 'x) console_scheme, ('c, 'j) cmd_stop, nat) io" where
  "regenerate_in lib check_only dir =
     io_bind (fs_is_dir dir) (\<lambda>d.
     if \<not> d then io_return 64 else
     io_bind (io_try (list_fixtures dir)) (\<lambda>listed.
     case listed of
       Inl _ \<Rightarrow> io_return 64
     | Inr fixtures \<Rightarrow>
         if fixtures = [] then io_return 64 else
         io_bind (io_fold (fixture_turn lib check_only) fixtures (False, False)) (\<lambda>(had_drift, had_error).
         io_return (if had_error then 2 else if check_only \<and> had_drift then 1 else 0))))"

definition fixture_usage :: message where
  "fixture_usage =
     [Txt ''regenerate-jcs-fixtures [--check] [<fixtures-dir>]'', Txt [CHR 0x0A], Txt [CHR 0x0A],
      Txt ''  --check         Verify expected files are up to date; exit non-zero'', Txt [CHR 0x0A],
      Txt ''                  if any fixture would change. Does NOT rewrite files.'', Txt [CHR 0x0A],
      Txt ''  <fixtures-dir>  Path to tests/fixtures/jcs (auto-detected if omitted).'', Txt [CHR 0x0A]]"

definition regenerate ::
  "(('w, 'x) console_scheme, 'd, 'j) fixture_lib \<Rightarrow> string list \<Rightarrow>
   (('w, 'x) console_scheme, ('c, 'j) cmd_stop, nat) io" where
  "regenerate lib args =
     (case parse_fixture_args args False None of
        FxHelp \<Rightarrow> io_bind (println fixture_usage) (\<lambda>_. io_return 0)
      | FxUnknown _ \<Rightarrow> io_return 64
      | FxRun check_only explicit_dir \<Rightarrow>
          io_bind (case explicit_dir of
              Some p \<Rightarrow> io_return (Some p)
            | None \<Rightarrow> locate_fixtures_dir lib) (\<lambda>located.
          case located of
            None \<Rightarrow> io_return 64
          | Some dir \<Rightarrow> regenerate_in lib check_only dir))"

section \<open>With \<open>--check\<close> nothing is written\<close>

lemma keeps_triple:
  assumes "triple I c Q E" and "\<And>x s. Q x s \<Longrightarrow> I s" and "\<And>e s. E e s \<Longrightarrow> I s"
  shows "keeps I c"
  unfolding keeps_iff_triple by (rule triple_conseq [OF assms(1)]) (use assms(2,3) in auto)

lemma keeps_still_queries:
  "keeps (still m h) (fs_is_dir p)" "keeps (still m h) (fs_is_file p)"
  by (auto simp: keeps_def still_def fs_is_dir_def fs_is_file_def fs_query_def fs_call_reads reads_calls
      split: sum.split)

lemma keeps_load: "keeps (still m h) (parse_and_validate toml p)"
  by (rule keeps_triple [OF triple_load]) auto

lemma keeps_println: "keeps (still m h) (println t)"
  by (auto simp: keeps_def println_def still_def split: option.split)

lemma keeps_read_to_string: "keeps (still m h) (fs_read_to_string p)"
  unfolding fs_read_to_string_def by (intro keeps_bind keeps_if keeps_still_reads keeps_still_queries) auto

lemma keeps_process: "keeps (still m h) (process_fixture lib p True)"
  unfolding process_fixture_def Let_def if_True
  by (intro keeps_bind keeps_map_err keeps_try keeps_load keeps_still_reads keeps_still_queries keeps_read_to_string keeps_if) auto

lemma keeps_turn: "keeps (still m h) (fixture_turn lib True p flags)"
  unfolding fixture_turn_def
  by (auto split: prod.split sum.split fixture_outcome.split
      intro!: keeps_bind keeps_try keeps_process keeps_println)

lemma keeps_regenerate_in: "keeps (still m h) (regenerate_in lib True dir)"
proof -
  have "keeps (still m h) (list_fixtures dir)"
    unfolding list_fixtures_def consider_fixture_def Let_def
    by (auto intro!: keeps_bind keeps_fold keeps_still_reads keeps_still_queries)
  then show ?thesis
    unfolding regenerate_in_def
    by (auto split: sum.split intro!: keeps_bind keeps_try keeps_fold keeps_turn keeps_still_reads keeps_still_queries)
qed

section \<open>What \<open>--check\<close> answers\<close>

text \<open>What a specification file stands for on a disk, without running the validation.\<close>

definition loads_as :: "(string \<Rightarrow> string + raw_spec) \<Rightarrow> nodes \<Rightarrow> path \<Rightarrow> loaded_spec \<Rightarrow> bool" where
  "loads_as toml m p l \<longleftrightarrow>
     (\<exists>b raw. look p m = Some (FileNode b) \<and> valid_utf8 b \<and> toml b = Inr raw \<and>
        raw_ok m (spec_dir_for p) raw \<and> stands_for raw (ls_spec l) \<and> ls_spec_dir l = spec_dir_for p)"

text \<open>The files beside a specification are those of the canonical form and of the hash.\<close>

definition files_match :: "('s, 'd, 'j) fixture_lib \<Rightarrow> nodes \<Rightarrow> path \<Rightarrow> bytes \<Rightarrow> bool" where
  "files_match lib m p canonical \<longleftrightarrow>
     look (path_join p ''expected.canonical.json'') m = Some (FileNode canonical) \<and>
     (\<exists>b. look (path_join p ''expected.spec_hash'') m = Some (FileNode b) \<and> valid_utf8 b \<and>
        trim_end_matches (CHR 0x0A) b = fx_text lib (fx_hash lib canonical))"

definition up_to_date :: "('s, 'd, 'j) fixture_lib \<Rightarrow> nodes \<Rightarrow> path \<Rightarrow> bool" where
  "up_to_date lib m p \<longleftrightarrow>
     (\<exists>l canonical. loads_as (fx_toml lib) m (path_join p ''spec.toml'') l \<and>
        fx_jcs lib (spec_to_json (ls_spec l)) = Inr canonical \<and> files_match lib m p canonical)"

definition fixture_at :: "nodes \<Rightarrow> path \<Rightarrow> bool" where
  "fixture_at m p \<longleftrightarrow> look p m = Some DirNode \<and> is_file_node (look (path_join p ''spec.toml'') m)"

lemma keeps_state_validate:
  assumes "fs_faults s = []"
  shows "keeps (\<lambda>t. t = s) (validate raw d)"
proof -
  have collect: "keeps (\<lambda>t. t = s) (io_collect_from k (\<lambda>i l. validate_layer i l d) ls)" for k and ls
    by (induction ls arbitrary: k) (auto intro!: keeps_bind keeps_state_layer [OF assms])
  show ?thesis
    unfolding validate_def io_collect_def
    by (intro keeps_bind collect) (auto split: option.split)
qed

lemma validate_iff:
  assumes "fs_faults s = []"
  shows "validate raw d s = (Inr sp, t) \<longleftrightarrow> t = s \<and> raw_ok (fs_nodes s) d raw \<and> stands_for raw sp"
proof
  assume run: "validate raw d s = (Inr sp, t)"
  with keeps_state_validate [OF assms, of raw d] have "t = s" by (simp add: keeps_def)
  with triple_InrD [OF triple_validate [of "fs_nodes s" "fs_seen s"] _ run]
  show "t = s \<and> raw_ok (fs_nodes s) d raw \<and> stands_for raw sp" by (simp add: still_def)
next
  assume r: "t = s \<and> raw_ok (fs_nodes s) d raw \<and> stands_for raw sp"
  with validate_no_fault [OF assms, of d raw] obtain sp' where run: "validate raw d s = (Inr sp', s)"
    by (cases "validate raw d s") (auto simp: is_ok_iff)
  from triple_InrD [OF triple_validate [of "fs_nodes s" "fs_seen s"] _ run] r
  show "validate raw d s = (Inr sp, t)"
    using run stands_for_unique by (auto simp: still_def)
qed

lemma read_to_string_iff:
  assumes "fs_faults s = []"
  shows "fs_read_to_string p s = (Inr b, t) \<longleftrightarrow> t = s \<and> look p (fs_nodes s) = Some (FileNode b) \<and> valid_utf8 b"
  by (auto simp: fs_read_to_string_def succeeds read_iff [OF assms] split: if_splits)

lemma load_iff:
  assumes "fs_faults s = []"
  shows "parse_and_validate toml p s = (Inr l, t) \<longleftrightarrow> t = s \<and> loads_as toml (fs_nodes s) p l"
  by (cases l) (auto simp: parse_and_validate_def parse_and_validate_str_def loads_as_def succeeds
      read_to_string_iff [OF assms] validate_iff [OF assms])

lemma keeps_state_reads:
  assumes "fs_faults s = []"
  shows "keeps (\<lambda>t. t = s) (fs_read p)" "keeps (\<lambda>t. t = s) (fs_read_to_string p)"
    "keeps (\<lambda>t. t = s) (parse_and_validate toml p)"
proof -
  have read: "keeps (\<lambda>t. t = s) (fs_read p :: (_, io_error, _) io)" for p
    by (simp add: keeps_def fs_read_def fs_call_no_fault assms)
  have content: "keeps (\<lambda>t. t = s) (fs_read_to_string p)" for p
    unfolding fs_read_to_string_def by (intro keeps_bind keeps_if read keeps_simps)
  show "keeps (\<lambda>t. t = s) (fs_read p)" "keeps (\<lambda>t. t = s) (fs_read_to_string p)"
    by (rule read content)+
  show "keeps (\<lambda>t. t = s) (parse_and_validate toml p)"
    unfolding parse_and_validate_def parse_and_validate_str_def
    by (intro keeps_bind keeps_map_err keeps_state_validate assms content keeps_simps)
qed

lemma try_keeps:
  assumes "keeps (\<lambda>t. t = s) c"
  shows "io_try c s = (Inr (fst (c s)), s)"
  using assms by (cases "c s") (simp add: io_try_def keeps_def)

text \<open>A fixture whose specification does not load is an error; otherwise its files are compared.\<close>

lemma process_cases:
  fixes lib :: "('x fs_scheme, 'd, 'j) fixture_lib" and s :: "'x fs_scheme"
  assumes "fs_faults s = []"
  obtains (err) e where "process_fixture lib p ck s = (Inl (e :: ('j, 'c) fixture_error), s)"
      "\<not> up_to_date lib (fs_nodes s) p"
  | (compared) l canonical where "loads_as (fx_toml lib) (fs_nodes s) (path_join p ''spec.toml'') l"
      "fx_jcs lib (spec_to_json (ls_spec l)) = Inr canonical"
      "up_to_date lib (fs_nodes s) p \<longleftrightarrow> files_match lib (fs_nodes s) p canonical"
      "(process_fixture lib p ck :: (_, ('j, 'c) fixture_error, _) io) s =
        (if files_match lib (fs_nodes s) p canonical then io_return Unchanged
         else if ck then io_return WouldChange
         else
           io_bind (io_map_err (FixtureWrite (path_join p ''expected.canonical.json''))
             (fs_write (path_join p ''expected.canonical.json'') canonical)) (\<lambda>_.
           io_bind (io_map_err (FixtureWrite (path_join p ''expected.spec_hash''))
             (fs_write (path_join p ''expected.spec_hash'') (fx_text lib (fx_hash lib canonical)))) (\<lambda>_.
           io_return Wrote))) s"
proof -
  let ?spec = "path_join p ''spec.toml''"
  obtain q where load: "parse_and_validate (fx_toml lib) ?spec s = (q, s)"
    using keeps_state_reads(3) [OF assms, of "fx_toml lib" ?spec]
    by (cases "parse_and_validate (fx_toml lib) ?spec s") (simp add: keeps_def)
  then have loads: "loads_as (fx_toml lib) (fs_nodes s) ?spec l \<longleftrightarrow> q = Inr l" for l
    using load_iff [OF assms, of "fx_toml lib" ?spec l s] by simp
  show thesis
  proof (cases q)
    case (Inl e)
    show thesis
      by (rule err [of "FixtureParse ?spec e"])
        (use Inl load loads in \<open>simp_all add: process_fixture_def Let_def io_bind_apply io_map_err_apply map_err_def up_to_date_def\<close>)
  next
    case (Inr l)
    then have only: "loads_as (fx_toml lib) (fs_nodes s) ?spec l' \<longleftrightarrow> l' = l" for l' using loads by auto
    note defs = process_fixture_def Let_def io_bind_apply io_map_err_apply map_err_def canonical_bytes_def spec_hash_def
      io_apply_simps
    show thesis
    proof (cases "fx_jcs lib (spec_to_json (ls_spec l))")
      case Inl': (Inl e)
      show thesis
        by (rule err [of "FixtureCanonicalize (JcsError e)"])
          (use Inl' Inr load only in \<open>simp_all add: defs up_to_date_def\<close>)
    next
      case Inr': (Inr canonical)
      note tries = try_keeps [OF keeps_state_reads(1) [OF assms]] try_keeps [OF keeps_state_reads(2) [OF assms]]
      obtain r h where read: "fs_read (path_join p ''expected.canonical.json'') s = (r, s)"
        and content: "fs_read_to_string (path_join p ''expected.spec_hash'') s = (h, s)"
        using keeps_state_reads(1,2) [OF assms] unfolding keeps_def by (metis prod.collapse)
      have files: "r = Inr c \<longleftrightarrow> look (path_join p ''expected.canonical.json'') (fs_nodes s) = Some (FileNode c)"
        "h = Inr c \<longleftrightarrow> look (path_join p ''expected.spec_hash'') (fs_nodes s) = Some (FileNode c) \<and> valid_utf8 c" for c
        using read_iff [OF assms, of "path_join p ''expected.canonical.json''" c s] read
          read_to_string_iff [OF assms, of "path_join p ''expected.spec_hash''" c s] content by simp_all
      have "files_match lib (fs_nodes s) p canonical \<longleftrightarrow> r = Inr canonical \<and>
          (\<exists>b. h = Inr b \<and> trim_end_matches (CHR 0x0A) b = fx_text lib (fx_hash lib canonical))"
        unfolding files_match_def files by blast
      then have test: "files_match lib (fs_nodes s) p canonical \<longleftrightarrow>
          (case r of Inr existing \<Rightarrow> existing = canonical | Inl _ \<Rightarrow> False) \<and>
          (case h of Inr existing \<Rightarrow> trim_end_matches (CHR 0x0A) existing = fx_text lib (fx_hash lib canonical)
           | Inl _ \<Rightarrow> False)"
        by (cases r; cases h) auto
      show thesis
      proof (rule compared [of l canonical])
        show "up_to_date lib (fs_nodes s) p \<longleftrightarrow> files_match lib (fs_nodes s) p canonical"
          by (auto simp: up_to_date_def only Inr')
      qed (use only Inr' Inr load read content in \<open>simp_all add: defs tries test\<close>)
    qed
  qed
qed

lemma process_check:
  fixes lib :: "('x fs_scheme, 'd, 'j) fixture_lib" and s :: "'x fs_scheme"
  assumes "fs_faults s = []"
  shows "\<exists>r :: ('j, 'c) fixture_error + _. process_fixture lib p True s = (r, s) \<and> r \<noteq> Inr Wrote \<and>
    (r = Inr Unchanged \<longleftrightarrow> up_to_date lib (fs_nodes s) p)"
  by (rule process_cases [OF assms, of lib p True, where ?'c = 'c]) (auto simp: io_apply_simps)

lemma println_then:
  assumes "co_stdout_error s = None"
  shows "\<exists>out. io_bind (println a) (\<lambda>_. io_return z) s = (Inr z, s\<lparr>co_stdout := out\<rparr>)"
proof
  show "io_bind (println a) (\<lambda>_. io_return z) s = (Inr z, s\<lparr>co_stdout := co_stdout s @ [Line a]\<rparr>)"
    using assms by (simp add: io_bind_def println_def io_return_def)
qed

lemma turn_run:
  fixes lib :: "(('w, 'x) console_scheme, 'd, 'j) fixture_lib"
  assumes "(process_fixture lib p ck :: (_, ('j, 'c) fixture_error, _) io) s = (r, u)"
  shows "r = Inl e \<Longrightarrow>
      (fixture_turn lib ck p (dr, er) :: (_, ('c, 'j) cmd_stop, _) io) s = (Inr (dr, True), u)"
    and "r = Inr x \<Longrightarrow> \<exists>a. (fixture_turn lib ck p (dr, er) :: (_, ('c, 'j) cmd_stop, _) io) s =
      io_bind (println a) (\<lambda>_. io_return (x = WouldChange \<or> dr, er)) u"
proof -
  have first: "io_bind (io_try (process_fixture lib p ck :: (_, ('j, 'c) fixture_error, _) io)) f s = f r u"
    for f :: "_ \<Rightarrow> (_, ('c, 'j) cmd_stop, bool \<times> bool) io"
    using assms by (simp add: io_bind_def io_try_def)
  show "(fixture_turn lib ck p (dr, er) :: (_, ('c, 'j) cmd_stop, _) io) s = (Inr (dr, True), u)" if "r = Inl e"
    unfolding fixture_turn_def prod.case first that by (simp add: io_return_def)
  show "\<exists>a. (fixture_turn lib ck p (dr, er) :: (_, ('c, 'j) cmd_stop, _) io) s =
      io_bind (println a) (\<lambda>_. io_return (x = WouldChange \<or> dr, er)) u" if "r = Inr x"
    unfolding fixture_turn_def prod.case first that sum.case
    by (cases x) (simp_all only: fixture_outcome.case fixture_outcome.distinct simp_thms, blast+)
qed

text \<open>One turn with \<open>--check\<close>: a line may be printed, and a flag is raised unless the fixture is up to date.\<close>

lemma turn_check:
  fixes lib :: "(('w, 'x) console_scheme, 'd, 'j) fixture_lib"
  assumes "fs_faults s = []" and "co_stdout_error s = None"
  shows "\<exists>dr' er' out. (fixture_turn lib True p (dr, er) :: (_, ('c, 'j) cmd_stop, _) io) s =
      (Inr (dr', er'), s\<lparr>co_stdout := out\<rparr>) \<and>
    (\<not> dr' \<and> \<not> er' \<longleftrightarrow> \<not> dr \<and> \<not> er \<and> up_to_date lib (fs_nodes s) p)"
proof -
  from process_check [OF assms(1), of lib p] obtain r :: "('j, 'c) fixture_error + fixture_outcome" where
    r: "process_fixture lib p True s = (r, s)" "r \<noteq> Inr Wrote" "r = Inr Unchanged \<longleftrightarrow> up_to_date lib (fs_nodes s) p"
    by blast
  show ?thesis
  proof (cases r)
    case (Inl e)
    with turn_run(1) [OF r(1), of e dr er] have
      "(fixture_turn lib True p (dr, er) :: (_, ('c, 'j) cmd_stop, _) io) s = (Inr (dr, True), s\<lparr>co_stdout := co_stdout s\<rparr>)"
      by simp
    moreover have "\<not> up_to_date lib (fs_nodes s) p" using r(3) Inl by simp
    ultimately show ?thesis by blast
  next
    case (Inr x)
    with turn_run(2) [OF r(1), of x dr er] println_then [OF assms(2)] obtain out where
      "(fixture_turn lib True p (dr, er) :: (_, ('c, 'j) cmd_stop, _) io) s =
        (Inr (x = WouldChange \<or> dr, er), s\<lparr>co_stdout := out\<rparr>)" by metis
    moreover have "up_to_date lib (fs_nodes s) p \<longleftrightarrow> x \<noteq> WouldChange"
      using r(2,3) Inr by (cases x) auto
    ultimately show ?thesis by blast
  qed
qed

lemma turns_check:
  fixes lib :: "(('w, 'x) console_scheme, 'd, 'j) fixture_lib"
  assumes "fs_faults s = []" and "co_stdout_error s = None"
  shows "\<exists>dr' er' out. (io_fold (fixture_turn lib True) ps (dr, er) :: (_, ('c, 'j) cmd_stop, _) io) s =
      (Inr (dr', er'), s\<lparr>co_stdout := out\<rparr>) \<and>
    (\<not> dr' \<and> \<not> er' \<longleftrightarrow> \<not> dr \<and> \<not> er \<and> (\<forall>p \<in> set ps. up_to_date lib (fs_nodes s) p))"
  using assms
proof (induction ps arbitrary: s dr er)
  case Nil
  then show ?case by (auto simp: io_apply_simps intro: exI [of _ "co_stdout s"])
next
  case (Cons p ps)
  from turn_check [OF Cons.prems, of lib p dr er] obtain dr1 er1 out1 where
    first: "(fixture_turn lib True p (dr, er) :: (_, ('c, 'j) cmd_stop, _) io) s = (Inr (dr1, er1), s\<lparr>co_stdout := out1\<rparr>)"
    "\<not> dr1 \<and> \<not> er1 \<longleftrightarrow> \<not> dr \<and> \<not> er \<and> up_to_date lib (fs_nodes s) p" by blast
  from Cons.IH [of "s\<lparr>co_stdout := out1\<rparr>" dr1 er1] Cons.prems obtain dr2 er2 out2 where
    "(io_fold (fixture_turn lib True) ps (dr1, er1) :: (_, ('c, 'j) cmd_stop, _) io) (s\<lparr>co_stdout := out1\<rparr>) =
      (Inr (dr2, er2), s\<lparr>co_stdout := out2\<rparr>)"
    "\<not> dr2 \<and> \<not> er2 \<longleftrightarrow> \<not> dr1 \<and> \<not> er1 \<and> (\<forall>q \<in> set ps. up_to_date lib (fs_nodes s) q)" by auto
  with first show ?case by (auto simp: io_bind_apply)
qed

lemma is_dir_no_fault: "fs_faults s = [] \<Longrightarrow> fs_is_dir p s = (Inr (look p (fs_nodes s) = Some DirNode), s)"
  unfolding fs_is_dir_def by (rule fs_query_no_fault) (simp_all add: call_defs)

lemma consider_run:
  "fs_faults s = [] \<Longrightarrow> consider_fixture root n out s =
     (Inr (if fixture_at (fs_nodes s) (path_join root n) then out @ [path_join root n] else out), s)"
  by (simp add: consider_fixture_def Let_def io_bind_apply is_dir_no_fault is_file_no_fault fixture_at_def io_apply_simps)

lemma considers_run:
  "fs_faults s = [] \<Longrightarrow> io_fold (consider_fixture root) ns out s =
     (Inr (out @ filter (fixture_at (fs_nodes s)) (map (path_join root) ns)), s)"
  by (induction ns arbitrary: out) (simp_all add: io_apply_simps io_bind_apply consider_run)

text \<open>The fixtures of a directory.\<close>

definition fixtures_of :: "path \<Rightarrow> 'x fs_scheme \<Rightarrow> path list" where
  "fixtures_of root s = sort_key fs_key
     (filter (fixture_at (fs_nodes s)) (map (path_join root) (dir_entries (fs_order s) (fs_key root) (fs_nodes s))))"

lemma list_fixtures_run:
  assumes "fs_faults s = []" and "look root (fs_nodes s) = Some DirNode"
  shows "list_fixtures root s = (Inr (fixtures_of root s), s)"
proof -
  have "fs_read_dir root s = (Inr (dir_entries (fs_order s) (fs_key root) (fs_nodes s)), s)"
    using assms by (simp add: fs_read_dir_def fs_call_no_fault call_read_dir_def)
  then show ?thesis
    by (simp add: list_fixtures_def io_bind_apply considers_run [OF assms(1)] io_apply_simps fixtures_of_def)
qed

lemma regenerate_check:
  fixes lib :: "(('w, 'x) console_scheme, 'd, 'j) fixture_lib"
  assumes "fs_faults s = []" and "co_stdout_error s = None"
  shows "\<exists>code t. (regenerate_in lib True dir :: (_, ('c, 'j) cmd_stop, _) io) s = (Inr code, t) \<and>
    (code = 0 \<longleftrightarrow> look dir (fs_nodes s) = Some DirNode \<and> fixtures_of dir s \<noteq> [] \<and>
       (\<forall>p \<in> set (fixtures_of dir s). up_to_date lib (fs_nodes s) p))"
proof (cases "look dir (fs_nodes s) = Some DirNode \<and> fixtures_of dir s \<noteq> []")
  case True
  from turns_check [OF assms, of lib "fixtures_of dir s" False False] obtain dr er out where
    "(io_fold (fixture_turn lib True) (fixtures_of dir s) (False, False) :: (_, ('c, 'j) cmd_stop, _) io) s =
      (Inr (dr, er), s\<lparr>co_stdout := out\<rparr>)"
    "\<not> dr \<and> \<not> er \<longleftrightarrow> (\<forall>p \<in> set (fixtures_of dir s). up_to_date lib (fs_nodes s) p)" by auto
  with True show ?thesis
    by (auto simp: regenerate_in_def io_bind_apply is_dir_no_fault [OF assms(1)] io_try_def
        list_fixtures_run [OF assms(1)] io_apply_simps)
next
  case False
  then show ?thesis
    by (auto simp: regenerate_in_def io_bind_apply is_dir_no_fault [OF assms(1)] io_try_def
        list_fixtures_run [OF assms(1)] io_apply_simps)
qed

section \<open>What a regeneration leaves passes the check\<close>

lemma fs_write_ok:
  assumes "fs_faults s = []" and "fs_write p bs s = (Inr u, t)"
  shows "fs_nodes t = (fs_nodes s)(fs_key p \<mapsto> FileNode bs) \<and>
    (fs_nodes s (fs_key p) = None \<or> is_file_node (fs_nodes s (fs_key p))) \<and>
    p \<noteq> [] \<and> fs_faults t = [] \<and> fs_order t = fs_order s \<and> fs.more t = fs.more s"
  using assms
  by (auto simp: fs_write_def fs_call_def call_write_def io_err_def written_def Let_def is_file_node_def
      split: if_splits option.splits fnode.split)

lemma more_stdout:
  fixes s t :: "('w, 'x) console_scheme"
  shows "fs.more t = fs.more s \<Longrightarrow> co_stdout_error t = co_stdout_error s"
  by (cases s; cases t) simp

text \<open>
  A disk grows when files appear, or change, under the names of the expected files of the
  fixtures of a directory.
\<close>

definition expected_key :: "fkey \<Rightarrow> fkey \<Rightarrow> bool" where
  "expected_key K k \<longleftrightarrow> (\<exists>n. k = K @ [n, ''expected.canonical.json''] \<or> k = K @ [n, ''expected.spec_hash''])"

definition grown_by :: "fkey \<Rightarrow> nodes \<Rightarrow> nodes \<Rightarrow> bool" where
  "grown_by K m m' \<longleftrightarrow>
     (\<forall>k. m' k = m k \<or> expected_key K k \<and> (m k = None \<or> is_file_node (m k)) \<and> is_file_node (m' k))"

lemma grown_by_refl: "grown_by K m m"
  by (simp add: grown_by_def)

lemma grown_by_trans: "grown_by K m0 m1 \<Longrightarrow> grown_by K m1 m2 \<Longrightarrow> grown_by K m0 m2"
  unfolding grown_by_def by metis

lemma grown_look:
  assumes "grown_by K m m'"
  shows "look p m \<noteq> None \<Longrightarrow> look p m' \<noteq> None" "is_file_node (look p m) \<Longrightarrow> is_file_node (look p m')"
    "\<not> expected_key K (fs_key p) \<Longrightarrow> look p m' = look p m"
  using assms unfolding grown_by_def look_def by (auto simp: is_file_node_def split: if_splits option.splits) metis+

lemma raw_ok_grown:
  assumes "raw_ok m d raw" and "grown_by K m m'"
  shows "raw_ok m' d raw"
proof -
  have "source_ok m' d l" if "source_ok m d l" for l
    using that grown_look(1,2) [OF assms(2)] unfolding source_ok_def by (auto split: option.splits)
  then show ?thesis using assms(1) unfolding raw_ok_def raw_layer_ok_def by blast
qed

lemma loads_as_grown:
  assumes "loads_as toml m p l" and "grown_by K m m'" and "\<not> expected_key K (fs_key p)"
  shows "loads_as toml m' p l"
  using assms(1) raw_ok_grown [OF _ assms(2)] grown_look(3) [OF assms(2,3)] unfolding loads_as_def by auto

lemma expected_names: "plain_name ''spec.toml''" "plain_name ''expected.canonical.json''" "plain_name ''expected.spec_hash''"
  by (simp_all add: plain_name_def)

lemma fixture_keys:
  assumes "plain_name n"
  shows "fs_key (path_join dir n) = fs_key dir @ [n]"
    "fs_key (path_join (path_join dir n) ''spec.toml'') = fs_key dir @ [n, ''spec.toml'']"
    "fs_key (path_join (path_join dir n) ''expected.canonical.json'') = fs_key dir @ [n, ''expected.canonical.json'']"
    "fs_key (path_join (path_join dir n) ''expected.spec_hash'') = fs_key dir @ [n, ''expected.spec_hash'']"
  by (simp_all add: fs_key_join_plain assms expected_names)

lemma not_expected:
  "\<not> expected_key K K" "\<not> expected_key K (K @ [n])" "\<not> expected_key K (K @ [n, ''spec.toml''])"
  by (simp_all add: expected_key_def)

text \<open>The texts of digests are one line.\<close>

definition one_line :: "('s, 'd, 'j) fixture_lib \<Rightarrow> bool" where
  "one_line lib \<longleftrightarrow> (\<forall>d. valid_utf8 (fx_text lib d) \<and> trim_end_matches (CHR 0x0A) (fx_text lib d) = fx_text lib d)"

lemma process_writes:
  fixes lib :: "('x fs_scheme, 'd, 'j) fixture_lib" and s :: "'x fs_scheme"
  assumes "fs_faults s = []" and "one_line lib" and "plain_name n"
    and run: "(process_fixture lib (path_join dir n) False :: (_, ('j, 'c) fixture_error, _) io) s = (Inr x, t)"
  shows "fs_faults t = [] \<and> fs_order t = fs_order s \<and> fs.more t = fs.more s \<and>
    grown_by (fs_key dir) (fs_nodes s) (fs_nodes t) \<and> up_to_date lib (fs_nodes t) (path_join dir n) \<and>
    x \<noteq> WouldChange \<and>
    (\<forall>k. fs_nodes t k \<noteq> fs_nodes s k \<longrightarrow> (\<exists>e. k = fs_key dir @ [n, e]))"
proof -
  let ?p = "path_join dir n"
  let ?c = "path_join ?p ''expected.canonical.json''" and ?h = "path_join ?p ''expected.spec_hash''"
  have keys: "?c \<noteq> []" "?h \<noteq> []" "fs_key ?c = fs_key dir @ [n, ''expected.canonical.json'']"
    "fs_key ?h = fs_key dir @ [n, ''expected.spec_hash'']"
    by (simp_all add: fixture_keys assms(3) path_join_not_Nil)
  show ?thesis
  proof (rule process_cases [OF assms(1), of lib ?p False, where ?'c = 'c])
    fix e assume "process_fixture lib ?p False s = (Inl (e :: ('j, 'c) fixture_error), s)"
    with run show ?thesis by simp
  next
    fix l canonical
    assume load: "loads_as (fx_toml lib) (fs_nodes s) (path_join ?p ''spec.toml'') l"
      and bytes: "fx_jcs lib (spec_to_json (ls_spec l)) = Inr canonical"
      and current: "up_to_date lib (fs_nodes s) ?p \<longleftrightarrow> files_match lib (fs_nodes s) ?p canonical"
      and proc: "(process_fixture lib ?p False :: (_, ('j, 'c) fixture_error, _) io) s =
        (if files_match lib (fs_nodes s) ?p canonical then io_return Unchanged
         else if False then io_return WouldChange
         else
           io_bind (io_map_err (FixtureWrite ?c) (fs_write ?c canonical)) (\<lambda>_.
           io_bind (io_map_err (FixtureWrite ?h) (fs_write ?h (fx_text lib (fx_hash lib canonical)))) (\<lambda>_.
           io_return Wrote))) s"
    show ?thesis
    proof (cases "files_match lib (fs_nodes s) ?p canonical")
      case True
      with run proc have "x = Unchanged" "t = s" by (simp_all add: io_apply_simps)
      with True current assms(1) show ?thesis by (simp add: grown_by_refl)
    next
      case False
      with run proc obtain u where first: "fs_write ?c canonical s = (Inr (), u)"
        and second: "fs_write ?h (fx_text lib (fx_hash lib canonical)) u = (Inr (), t)" and x: "x = Wrote"
        by (auto simp: succeeds)
      note u = fs_write_ok [OF assms(1) first]
      note t = fs_write_ok [OF _ second]
      let ?text = "fx_text lib (fx_hash lib canonical)"
      have nodes: "fs_nodes t = (fs_nodes s)(fs_key ?c \<mapsto> FileNode canonical, fs_key ?h \<mapsto> FileNode ?text)"
        using u t by simp
      have "fs_key ?h \<noteq> fs_key ?c" by (simp add: keys)
      then have old: "fs_nodes s (fs_key ?h) = None \<or> is_file_node (fs_nodes s (fs_key ?h))" using u t by simp
      have grown: "grown_by (fs_key dir) (fs_nodes s) (fs_nodes t)"
        unfolding grown_by_def nodes
        using u old by (auto simp: keys expected_key_def is_file_node_def)
      have "files_match lib (fs_nodes t) ?p canonical"
        using assms(2) by (auto simp: files_match_def look_def keys nodes one_line_def)
      moreover have "loads_as (fx_toml lib) (fs_nodes t) (path_join ?p ''spec.toml'') l"
        by (rule loads_as_grown [OF load grown]) (simp add: fixture_keys assms(3) not_expected)
      ultimately have "up_to_date lib (fs_nodes t) ?p" using bytes by (auto simp: up_to_date_def)
      then show ?thesis
        using u t grown x by (auto simp: nodes keys)
    qed
  qed
qed

lemma up_to_date_beside:
  assumes "up_to_date lib m (path_join dir q)" and "grown_by (fs_key dir) m m'" and "plain_name q" and "q \<noteq> n"
    and only: "\<forall>k. m' k \<noteq> m k \<longrightarrow> (\<exists>e. k = fs_key dir @ [n, e])"
  shows "up_to_date lib m' (path_join dir q)"
proof -
  have "m' (fs_key dir @ [q, e]) = m (fs_key dir @ [q, e])" for e using only assms(4) by fastforce
  then have "files_match lib m' (path_join dir q) c = files_match lib m (path_join dir q) c" for c
    by (simp add: files_match_def look_def fixture_keys assms(3))
  moreover have "loads_as toml m' (path_join (path_join dir q) ''spec.toml'') l"
    if "loads_as toml m (path_join (path_join dir q) ''spec.toml'') l" for toml l
    by (rule loads_as_grown [OF that assms(2)]) (simp add: fixture_keys assms(3) not_expected)
  ultimately show ?thesis using assms(1) unfolding up_to_date_def by blast
qed

text \<open>The state after some turns of a regeneration: \<open>ns\<close> are the fixtures that are up to date.\<close>

definition regenerated ::
  "(('w, 'x) console_scheme, 'd, 'j) fixture_lib \<Rightarrow> path \<Rightarrow> ('w, 'x) console_scheme \<Rightarrow> string list \<Rightarrow>
   ('w, 'x) console_scheme \<Rightarrow> bool" where
  "regenerated lib dir s ns t \<longleftrightarrow>
     fs_faults t = [] \<and> fs_order t = fs_order s \<and> grown_by (fs_key dir) (fs_nodes s) (fs_nodes t) \<and>
     co_stdout_error t = co_stdout_error s \<and> (\<forall>n \<in> set ns. up_to_date lib (fs_nodes t) (path_join dir n)) \<and>
     (ns = [] \<or> co_stdout_error s = None)"

lemma turn_error:
  assumes "(fixture_turn lib ck p (dr, True) :: (_, ('c, 'j) cmd_stop, _) io) s = (Inr fl, t)"
  shows "snd fl"
proof -
  obtain r u where run: "(process_fixture lib p ck :: (_, ('j, 'c) fixture_error, _) io) s = (r, u)" by fastforce
  show ?thesis
  proof (cases r)
    case (Inl e)
    with turn_run(1) [OF run, of e dr True] assms show ?thesis by auto
  next
    case (Inr x)
    with turn_run(2) [OF run, of x dr True] assms obtain a z where
      "(io_bind (println a) (\<lambda>_. io_return (z, True)) :: (_, ('c, 'j) cmd_stop, _) io) u = (Inr fl, t)" by metis
    then show ?thesis by (auto simp: succeeds_bind io_apply_simps)
  qed
qed

lemma turns_error:
  "(io_fold (fixture_turn lib ck) ps (dr, True) :: (_, ('c, 'j) cmd_stop, _) io) s = (Inr fl, t) \<Longrightarrow> snd fl"
proof (induction ps arbitrary: dr s)
  case (Cons p ps)
  then obtain f u where first: "(fixture_turn lib ck p (dr, True) :: (_, ('c, 'j) cmd_stop, _) io) s = (Inr f, u)"
    and rest: "(io_fold (fixture_turn lib ck) ps f :: (_, ('c, 'j) cmd_stop, _) io) u = (Inr fl, t)"
    by (auto simp only: io_fold.simps succeeds_bind)
  from turn_error [OF first] have "f = (fst f, True)" by (cases f) simp
  with rest Cons.IH show ?case by metis
qed (auto simp: io_apply_simps)

lemma turn_prints:
  assumes "(fixture_turn lib False p (dr, False) :: (_, ('c, 'j) cmd_stop, _) io) s = (Inr (dr', False), t)"
  obtains x u out where "(process_fixture lib p False :: (_, ('j, 'c) fixture_error, _) io) s = (Inr x, u)"
    "co_stdout_error u = None" "t = u\<lparr>co_stdout := out\<rparr>"
proof -
  obtain r u where run: "(process_fixture lib p False :: (_, ('j, 'c) fixture_error, _) io) s = (r, u)" by fastforce
  with assms turn_run(1) [OF run, of _ dr False] obtain x where x: "r = Inr x" by (cases r) auto
  with turn_run(2) [OF run, of x dr False] assms obtain a z where
    "io_bind (println a) (\<lambda>_. io_return z) u = (Inr (dr', False) :: ('c, 'j) cmd_stop + _, t)" by metis
  then have "co_stdout_error u = None" "t = u\<lparr>co_stdout := co_stdout u @ [Line a]\<rparr>"
    by (auto simp: println_def io_bind_def io_return_def split: option.splits)
  with run x show thesis by (intro that) auto
qed

lemma turn_regenerates:
  assumes before: "regenerated lib dir s ns u" and "one_line lib" and "plain_name n" and "\<forall>q \<in> set ns. plain_name q"
    and run: "(fixture_turn lib False (path_join dir n) (dr, False) :: (_, ('c, 'j) cmd_stop, _) io) u = (Inr (dr', False), t)"
  shows "regenerated lib dir s (n # ns) t"
proof -
  from turn_prints [OF run] obtain x v out where
    proc: "(process_fixture lib (path_join dir n) False :: (_, ('j, 'c) fixture_error, _) io) u = (Inr x, v)"
    and v: "co_stdout_error v = None" "t = v\<lparr>co_stdout := out\<rparr>" .
  have u: "fs_faults u = []" "fs_order u = fs_order s" "grown_by (fs_key dir) (fs_nodes s) (fs_nodes u)"
    "co_stdout_error u = co_stdout_error s" "\<And>q. q \<in> set ns \<Longrightarrow> up_to_date lib (fs_nodes u) (path_join dir q)"
    using before unfolding regenerated_def by blast+
  from process_writes [OF u(1) assms(2,3) proc] have w: "fs_faults v = []" "fs_order v = fs_order u"
    "fs.more v = fs.more u" "grown_by (fs_key dir) (fs_nodes u) (fs_nodes v)"
    "up_to_date lib (fs_nodes v) (path_join dir n)"
    "\<forall>k. fs_nodes v k \<noteq> fs_nodes u k \<longrightarrow> (\<exists>e. k = fs_key dir @ [n, e])" by blast+
  have "up_to_date lib (fs_nodes v) (path_join dir q)" if "q \<in> set (n # ns)" for q
  proof (cases "q = n")
    case False
    with that assms(4) have "q \<in> set ns" "plain_name q" by auto
    with False show ?thesis by (intro up_to_date_beside [OF u(5) w(4) _ _ w(6)])
  qed (use w(5) in simp)
  moreover have "co_stdout_error s = None" using more_stdout [OF w(3)] u(4) v(1) by simp
  ultimately show ?thesis
    unfolding regenerated_def v(2) using u(2) w(1,2) grown_by_trans [OF u(3) w(4)] v(1) by simp
qed

lemma turns_regenerate:
  assumes "regenerated lib dir s ns u" and "one_line lib" and "\<forall>q \<in> set (ns @ qs). plain_name q"
    and "(io_fold (fixture_turn lib False) (map (path_join dir) qs) (dr, False) :: (_, ('c, 'j) cmd_stop, _) io) u =
      (Inr (dr', False), t)"
  shows "regenerated lib dir s (rev qs @ ns) t"
  using assms
proof (induction qs arbitrary: ns u dr)
  case (Cons n qs)
  then obtain fl v where turn: "(fixture_turn lib False (path_join dir n) (dr, False) :: (_, ('c, 'j) cmd_stop, _) io) u = (Inr fl, v)"
    and rest: "(io_fold (fixture_turn lib False) (map (path_join dir) qs) fl :: (_, ('c, 'j) cmd_stop, _) io) v = (Inr (dr', False), t)"
    by (auto simp: succeeds_bind)
  obtain dr1 er1 where "fl = (dr1, er1)" by fastforce
  moreover from this have "\<not> er1" using turns_error [of lib False _ dr1 v] rest by (cases er1) auto
  ultimately have fl: "fl = (dr1, False)" by simp
  have "regenerated lib dir s (n # ns) v"
    by (rule turn_regenerates [OF Cons.prems(1,2) _ _ turn [unfolded fl]]) (use Cons.prems(3) in auto)
  from Cons.IH [OF this Cons.prems(2) _ rest [unfolded fl]] Cons.prems(3) show ?case by auto
qed (simp add: io_apply_simps)

section \<open>The process\<close>

definition fixtures_main ::
  "(('w, 'x) console_scheme, 'd, 'j) fixture_lib \<Rightarrow> string list \<Rightarrow> ('w, 'x) console_scheme \<Rightarrow>
   nat \<times> ('w, 'x) console_scheme" where
  "fixtures_main lib args s =
     (case (regenerate lib args :: (_, (unit, 'j) cmd_stop, _) io) s of
        (Inr code, t) \<Rightarrow> (code, t)
      | (Inl e, t) \<Rightarrow> (stop_code e, t))"

lemma main_runs:
  assumes "parse_fixture_args args False None = FxRun ck (Some dir)"
  shows "fixtures_main lib args s =
    (case (regenerate_in lib ck dir :: (_, (unit, 'j) cmd_stop, _) io) s of
       (Inr code, t) \<Rightarrow> (code, t) | (Inl e, t) \<Rightarrow> (stop_code e, t))"
  by (simp add: fixtures_main_def regenerate_def assms io_bind_apply io_apply_simps)

lemma main_regenerated:
  assumes "parse_fixture_args args False None = FxRun ck (Some dir)" and "fixtures_main lib args s = (0, t)"
  shows "(regenerate_in lib ck dir :: (_, (unit, 'j) cmd_stop, _) io) s = (Inr 0, t)"
  using assms(2) unfolding main_runs [OF assms(1)] by (auto simp: stop_code_positive split: prod.splits sum.splits)

text \<open>A \<open>--check\<close> in the arguments of a regeneration makes it a check of the same directory.\<close>

lemma parse_fixture_args_True: "parse_fixture_args as True e = FxRun ck d \<Longrightarrow> ck"
  by (induction as arbitrary: e) (auto split: if_splits)

lemma parse_fixture_args_check:
  "parse_fixture_args as False e = FxRun ck d \<Longrightarrow> parse_fixture_args as True e = FxRun True d"
  by (induction as arbitrary: e) (auto split: if_splits dest: parse_fixture_args_True)

lemma keeps_locate: "keeps (still m h) (locate_from p)"
proof (induction p rule: locate_from.induct)
  case (1 here)
  show ?case
    by (subst locate_from.simps) (auto simp: Let_def split: option.split intro!: keeps_bind keeps_still_reads keeps_still_queries 1 [OF refl])
qed

lemma keeps_regenerate:
  assumes "parse_fixture_args args False None = FxRun True d"
  shows "keeps (still m h) (regenerate lib args)"
  unfolding regenerate_def assms fixture_args.case locate_fixtures_dir_def
  by (auto split: option.split intro!: keeps_bind keeps_regenerate_in keeps_locate)

text \<open>The fixtures of a directory are named by its entries.\<close>

lemma fixtures_named:
  obtains qs where "fixtures_of dir s = map (path_join dir) qs" "\<forall>q \<in> set qs. plain_name q"
proof -
  have "\<exists>q. p = path_join dir q \<and> plain_name q" if "p \<in> set (fixtures_of dir s)" for p
    using that by (auto simp: fixtures_of_def dir_entries_def)
  then obtain name where "\<And>p. p \<in> set (fixtures_of dir s) \<Longrightarrow> p = path_join dir (name p) \<and> plain_name (name p)"
    by metis
  then have "fixtures_of dir s = map (path_join dir) (map name (fixtures_of dir s))"
    "\<forall>q \<in> set (map name (fixtures_of dir s)). plain_name q"
    by (auto simp: map_idI)
  then show thesis by (rule that)
qed

lemma fixture_at_grown:
  assumes "grown_by (fs_key dir) m m'" and "plain_name n"
  shows "fixture_at m' (path_join dir n) \<longleftrightarrow> fixture_at m (path_join dir n)"
  using grown_look(3) [OF assms(1), of "path_join dir n"]
    grown_look(3) [OF assms(1), of "path_join (path_join dir n) ''spec.toml''"]
  by (simp add: fixture_at_def fixture_keys assms(2) not_expected)

lemma fixtures_of_grown:
  assumes grown: "grown_by (fs_key dir) (fs_nodes s) (fs_nodes t)" and "fs_order t = fs_order s"
  shows "fixtures_of dir t = fixtures_of dir s"
proof -
  have "fs_nodes t (fs_key dir @ [n]) = fs_nodes s (fs_key dir @ [n])" for n
    using grown not_expected(2) unfolding grown_by_def by metis
  then have entries: "dir_entries (fs_order t) (fs_key dir) (fs_nodes t) = dir_entries (fs_order s) (fs_key dir) (fs_nodes s)"
    by (simp add: dir_entries_def assms(2))
  show ?thesis
    unfolding fixtures_of_def entries
    by (rule arg_cong [where f = "sort_key fs_key"], rule filter_cong)
      (auto simp: dir_entries_def fixture_at_grown [OF grown])
qed


lemma regenerate_in_run:
  assumes "fs_faults s = []"
  shows "regenerate_in lib ck dir s =
    (if look dir (fs_nodes s) = Some DirNode \<and> fixtures_of dir s \<noteq> [] then
       io_bind (io_fold (fixture_turn lib ck) (fixtures_of dir s) (False, False)) (\<lambda>(had_drift, had_error).
       io_return (if had_error then 2 else if ck \<and> had_drift then 1 else 0)) s
     else (Inr 64, s))"
  by (auto simp: regenerate_in_def io_bind_apply is_dir_no_fault [OF assms] io_try_def
      list_fixtures_run [OF assms] io_apply_simps)

lemma regenerate_in_regenerates:
  assumes "(regenerate_in lib False dir :: (_, (unit, 'j) cmd_stop, _) io) s = (Inr 0, t)"
    and "fs_faults s = []" and "one_line lib"
  shows "look dir (fs_nodes s) = Some DirNode \<and> fixtures_of dir s \<noteq> [] \<and>
    (\<exists>qs. regenerated lib dir s qs t \<and> fixtures_of dir s = map (path_join dir) (rev qs))"
proof -
  obtain qs where named: "fixtures_of dir s = map (path_join dir) qs" "\<forall>q \<in> set qs. plain_name q"
    by (rule fixtures_named)
  note run = assms(1) [unfolded regenerate_in_run [OF assms(2)]]
  then have dir: "look dir (fs_nodes s) = Some DirNode" and fixtures: "fixtures_of dir s \<noteq> []"
    by (simp_all split: if_splits)
  with run named(1) obtain fl where fold: "(io_fold (fixture_turn lib False) (map (path_join dir) qs) (False, False) ::
      (_, (unit, 'j) cmd_stop, _) io) s = (Inr fl, t)" and "\<not> snd fl"
    by (auto simp: succeeds split: if_splits)
  then obtain dr where fl: "fl = (dr, False)" by (cases fl) auto
  have "regenerated lib dir s [] s" using assms(2) by (simp add: regenerated_def grown_by_refl)
  from turns_regenerate [OF this assms(3) _ fold [unfolded fl]] named(2)
  have "regenerated lib dir s (rev qs) t" by simp
  with dir fixtures named(1) show ?thesis by (intro conjI exI [of _ "rev qs"]) simp_all
qed

section \<open>Properties\<close>

text \<open>
  With \<open>--check\<close> the tool writes nothing, whatever the operating system answers; and where
  no operation fails, it exits with 0 exactly when the directory holds at least one fixture and
  beside every fixture's specification, which loads and validates, lie its canonical form and,
  up to trailing line breaks, the text of the canonical form's hash.
\<close>

lemma fixtures_check_exact:
  fixes lib :: "(('w, 'x) console_scheme, 'd, 'j) fixture_lib"
  assumes "parse_fixture_args args False None = FxRun True (Some dir)"
  shows "fs_nodes (snd (fixtures_main lib args s)) = fs_nodes s \<and>
    fs_seen (snd (fixtures_main lib args s)) = fs_seen s \<and>
    (fs_faults s = [] \<and> co_stdout_error s = None \<longrightarrow>
      (fst (fixtures_main lib args s) = 0 \<longleftrightarrow>
        look dir (fs_nodes s) = Some DirNode \<and> fixtures_of dir s \<noteq> [] \<and>
        (\<forall>p \<in> set (fixtures_of dir s). up_to_date lib (fs_nodes s) p)))"
proof (intro conjI impI)
  obtain r t where run: "(regenerate_in lib True dir :: (_, (unit, 'j) cmd_stop, _) io) s = (r, t)" by fastforce
  have "still (fs_nodes s) (fs_seen s) s" by (simp add: still_def)
  with run keeps_regenerate_in [of "fs_nodes s" "fs_seen s" lib dir, where ?'c = unit]
  have "still (fs_nodes s) (fs_seen s) t" unfolding keeps_def by (metis snd_conv)
  moreover have "snd (fixtures_main lib args s) = t"
    unfolding main_runs [OF assms] run by (cases r) simp_all
  ultimately have "still (fs_nodes s) (fs_seen s) (snd (fixtures_main lib args s))" by simp
  then show "fs_nodes (snd (fixtures_main lib args s)) = fs_nodes s"
    "fs_seen (snd (fixtures_main lib args s)) = fs_seen s" by (simp_all add: still_def)
next
  assume "fs_faults s = [] \<and> co_stdout_error s = None"
  then have ready: "fs_faults s = []" "co_stdout_error s = None" by simp_all
  from regenerate_check [OF ready, of lib dir, where ?'c = unit] obtain code t where
    "(regenerate_in lib True dir :: (_, (unit, 'j) cmd_stop, _) io) s = (Inr code, t)"
    "code = 0 \<longleftrightarrow> look dir (fs_nodes s) = Some DirNode \<and> fixtures_of dir s \<noteq> [] \<and>
       (\<forall>p \<in> set (fixtures_of dir s). up_to_date lib (fs_nodes s) p)" by blast
  then show "fst (fixtures_main lib args s) = 0 \<longleftrightarrow>
      look dir (fs_nodes s) = Some DirNode \<and> fixtures_of dir s \<noteq> [] \<and>
      (\<forall>p \<in> set (fixtures_of dir s). up_to_date lib (fs_nodes s) p)"
    by (simp add: main_runs [OF assms])
qed


text \<open>
  A directory with one fixture whose expected files are missing: the tool is first asked whether it
  is current, then regenerates it.
\<close>

definition sample_fixture_lib :: "(unit console, bytes, unit) fixture_lib" where
  "sample_fixture_lib =
     \<lparr>fx_toml = (\<lambda>_. Inr (sample_raw [sample_layer ''a/x+gzip''])), fx_jcs = (\<lambda>_. Inr ''c''), fx_hash = id,
      fx_text = (\<lambda>_. ''sha256:c''), fx_current_dir = (\<lambda>_. None)\<rparr>"

definition sample_fixtures :: "unit console" where
  "sample_fixtures = sample_console\<lparr>fs_nodes := fs_nodes sample_fs, fs_order := (\<lambda>_. [''d''])\<rparr>"

lemma sample_fixtures_run:
  "fst (fixtures_main sample_fixture_lib [''--check'', ''/''] sample_fixtures) = 1"
  "fst (fixtures_main sample_fixture_lib [''/''] sample_fixtures) = 0"
  by code_simp+

lemma fixtures_check_stale:
  "\<not> (\<forall>p \<in> set (fixtures_of ''/'' sample_fixtures). up_to_date sample_fixture_lib (fs_nodes sample_fixtures) p)"
proof -
  have parse: "parse_fixture_args [''--check'', ''/''] False None = FxRun True (Some ''/'')"
    by code_simp
  have "fs_faults sample_fixtures = []" "co_stdout_error sample_fixtures = None"
    "look ''/'' (fs_nodes sample_fixtures) = Some DirNode" "fixtures_of ''/'' sample_fixtures \<noteq> []"
    by code_simp+
  with fixtures_check_exact [OF parse, of sample_fixture_lib sample_fixtures] sample_fixtures_run(1)
  show ?thesis by simp
qed


end
