(* ===== verification/Build_Config.thy ===== *)
theory Build_Config
  imports Build_Atomicity
begin

text \<open>
  The image configuration of \<open>core/oci_assembly.rs\<close>, and the layer count check after assembly,
  which a validated specification never fails.
\<close>

section \<open>Lifting the \<open>[config]\<close> table\<close>

definition lifted_keys :: "string set" where
  "lifted_keys = {''entrypoint'', ''cmd'', ''env'', ''labels''}"

definition runtime_of :: "json btree \<Rightarrow> oci_runtime_config \<Rightarrow> oci_runtime_config" where
  "runtime_of m r =
     \<lparr>orc_env = (case map_of m ''env'' of Some (JObject e) \<Rightarrow> env_strings e | _ \<Rightarrow> orc_env r),
      orc_entrypoint =
        (case map_of m ''entrypoint'' of Some v \<Rightarrow> string_array v | None \<Rightarrow> orc_entrypoint r),
      orc_cmd = (case map_of m ''cmd'' of Some v \<Rightarrow> string_array v | None \<Rightarrow> orc_cmd r),
      orc_labels = (case map_of m ''labels'' of Some (JObject l) \<Rightarrow> label_map l | _ \<Rightarrow> orc_labels r)\<rparr>"

lemma lift_config_fold:
  assumes "distinct (map fst m)" and "fold lift_config_key m (r, x) = (r', x')"
  shows "r' = runtime_of m r \<and>
    map_of x' = (\<lambda>k. if k \<in> lifted_keys then map_of x k
                     else case map_of m k of Some v \<Rightarrow> Some v | None \<Rightarrow> map_of x k) \<and>
    (bt_sorted x \<longrightarrow> bt_sorted x')"
  using assms
proof (induction m arbitrary: r x)
  case Nil
  then show ?case by (cases r) (auto simp: runtime_of_def fun_eq_iff)
next
  case (Cons kv m)
  obtain k v where kv: "kv = (k, v)" by (cases kv)
  obtain r1 x1 where step: "lift_config_key (k, v) (r, x) = (r1, x1)"
    by (cases "lift_config_key (k, v) (r, x)")
  have fresh: "map_of m k = None" using Cons.prems(1) by (simp add: kv map_of_eq_None_iff)
  have rest: "fold lift_config_key m (r1, x1) = (r', x')" "distinct (map fst m)"
    using Cons.prems by (simp_all add: kv step)
  note IH = Cons.IH [OF rest(2) rest(1)]
  have ex: "map_of x1 k' = (if k \<in> lifted_keys then map_of x k' else ((map_of x)(k \<mapsto> v)) k')"
    "bt_sorted x \<longrightarrow> bt_sorted x1" for k'
    using step by (auto simp: lift_config_key_def lifted_keys_def split: if_splits json.splits)
  have "runtime_of m r1 = runtime_of ((k, v) # m) r"
    using step fresh
    by (auto simp: lift_config_key_def runtime_of_def cong: option.case_cong json.case_cong
        split: if_splits json.splits)
  moreover have "(if k' \<in> lifted_keys then map_of x1 k'
        else case map_of m k' of Some v \<Rightarrow> Some v | None \<Rightarrow> map_of x1 k') =
      (if k' \<in> lifted_keys then map_of x k'
        else case map_of ((k, v) # m) k' of Some v \<Rightarrow> Some v | None \<Rightarrow> map_of x k')" for k'
    using fresh by (auto simp: ex(1) split: option.split)
  ultimately show ?case using IH ex(2) by (auto simp: kv fun_eq_iff)
qed

section \<open>The layer count after assembly\<close>

definition no_spec_error :: "('c, 'j) build_error \<Rightarrow> bool" where
  "no_spec_error e \<longleftrightarrow> (\<forall>x. e \<noteq> BuildSpec x)"

lemma no_spec_error_simps [simp]:
  "no_spec_error (LayerCompression i e)" "no_spec_error (LayerWrite i c)"
  "no_spec_error (TarBuild i e)" "no_spec_error (ManifestWrite c)" "no_spec_error (BuildIo p e)"
  "no_spec_error (BuildJson j)"
  by (simp_all add: no_spec_error_def)

lemma fails_with_True [simp]: "fails_with (\<lambda>_. True) m"
  by (simp add: fails_with_def)

lemma map_err_no_spec: "(\<And>e. no_spec_error (g e)) \<Longrightarrow> fails_with no_spec_error (io_map_err g m)"
  by (rule fails_with_map_err) simp

lemma assemble_layer_errors: "fails_with no_spec_error (assemble_layer lib fuel l i d h)"
proof -
  have put: "fails_with no_spec_error (put_counted lib rd h i)" for rd
    unfolding put_counted_def by (intro fails_with_bind map_err_no_spec) (auto split: prod.split)
  have compress: "fails_with no_spec_error (stream_through_compression lib c rd i h)" for c rd
    unfolding stream_through_compression_def
    by (auto split: compression.split intro!: fails_with_bind put simp: map_err_def split: sum.splits)
  show ?thesis
    unfolding assemble_layer_def
    by (intro fails_with_bind)
      (auto split: layer_source.split prod.split simp: Let_def
        intro!: fails_with_bind map_err_no_spec compress)
qed

lemma documents_errors: "fails_with no_spec_error (assemble_config_and_manifest lib sp ls h)"
  unfolding assemble_config_and_manifest_def
  by (intro fails_with_bind map_err_no_spec) (auto simp: map_err_def split: sum.splits)

lemma post_assembly_ok:
  "count_ok k n \<Longrightarrow> check_layer_count_post_assembly k n = (Inr () :: ('c, 'j) build_error + unit)"
  by (cases k)
    (auto simp: check_layer_count_post_assembly_def post_assembly_rule_def count_ok_def)

lemma collect_length: "io_collect f xs s = (Inr ys, t) \<Longrightarrow> length ys = length xs"
proof -
  have "io_collect_from k f xs s = (Inr ys, t) \<Longrightarrow> length ys = length xs" for k
    by (induction xs arbitrary: k s ys) (auto simp: io_return_def elim!: io_bind_InrE)
  then show "io_collect f xs s = (Inr ys, t) \<Longrightarrow> length ys = length xs"
    by (simp add: io_collect_def)
qed

lemma collect_errors:
  assumes "\<And>i x. fails_with F (f i x)"
  shows "fails_with F (io_collect f xs)"
proof -
  have "fails_with F (io_collect_from k f xs)" for k
    by (induction xs arbitrary: k) (auto intro!: fails_with_bind assms)
  then show ?thesis by (simp add: io_collect_def)
qed

lemma fails_with_bind_result:
  assumes "fails_with F m" and "\<And>s x t. m s = (Inr x, t) \<Longrightarrow> fails_with F (f x)"
  shows "fails_with F (io_bind m f)"
  unfolding fails_with_def
proof (intro allI impI)
  fix s e
  assume "fst (io_bind m f s) = Inl e"
  then obtain t where "io_bind m f s = (Inl e, t)" by (cases "io_bind m f s") auto
  then show "F e"
  proof (rule io_bind_InlE)
    assume "m s = (Inl e, t)"
    then show ?thesis by (rule fails_withD [OF assms(1)])
  next
    fix x u
    assume "m s = (Inr x, u)" "f x u = (Inl e, t)"
    then show ?thesis using fails_withD [OF assms(2)] by blast
  qed
qed

lemma clear_errors: "fails_with no_spec_error (clear_partial p)"
  unfolding clear_partial_def
  by (intro fails_with_bind fails_with_exists) (auto intro: map_err_no_spec)

lemma stage_errors:
  assumes "count_ok (sp_kind (ls_spec loaded)) (length (sp_layers (ls_spec loaded)))"
  shows "fails_with no_spec_error (stage_layout lib fuel loaded p)"
  unfolding stage_layout_def
proof (rule fails_with_bind, rule clear_errors,
    rule fails_with_bind, rule map_err_no_spec, simp,
    rule fails_with_bind, rule map_err_no_spec, simp,
    rule fails_with_bind_result [OF collect_errors [OF assemble_layer_errors]])
  fix h s rs t
  assume "io_collect (\<lambda>i l. assemble_layer lib fuel l i (ls_spec_dir loaded) h)
      (sp_layers (ls_spec loaded)) s = (Inr rs, t)"
  then have "length (map lr_descriptor rs) = length (sp_layers (ls_spec loaded))"
    by (simp add: collect_length)
  then have ok: "check_layer_count_post_assembly (sp_kind (ls_spec loaded))
      (length (map lr_descriptor rs)) = Inr ()"
    using post_assembly_ok [OF assms] by simp
  show "fails_with no_spec_error
      (io_bind (io_lift (check_layer_count_post_assembly (sp_kind (ls_spec loaded))
         (length (map lr_descriptor rs)))) (\<lambda>_.
       io_bind (assemble_config_and_manifest lib (ls_spec loaded) (map lr_descriptor rs) h)
         (\<lambda>assembled.
       io_bind (io_lift (map_err BuildJson (json_to_vec lib (layout_to_json oci_layout_pinned))))
         (\<lambda>layout_bytes.
       io_bind (io_map_err (BuildIo (path_join p ''oci-layout''))
         (fs_write (path_join p ''oci-layout'') layout_bytes)) (\<lambda>_.
       io_bind (io_lift (map_err BuildJson (json_to_vec lib (index_to_json
         \<lparr>oi_schema_version = 2, oi_media_type = media_type_oci_index,
          oi_manifests = [am_manifest_descriptor assembled], oi_annotations = []\<rparr>))))
         (\<lambda>index_bytes.
       io_bind (io_map_err (BuildIo (path_join p ''index.json''))
         (fs_write (path_join p ''index.json'') index_bytes)) (\<lambda>_.
       io_return (assembled, map lr_digest rs))))))))"
    unfolding ok
    by (intro fails_with_bind documents_errors map_err_no_spec)
      (auto simp: map_err_def split: sum.splits)
qed

section \<open>Where the documentation and the code part\<close>

definition config_spec :: "json \<Rightarrow> spec" where
  "config_spec v = sample_spec\<lparr>sp_config := ConfigBlob v\<rparr>"

text \<open>
  A key of \<open>[config]\<close> named like a field of the image configuration is written twice: the
  configuration blob then has the same key two times.
\<close>

lemma flattened_key_is_duplicated:
  "image_config_to_json (build_image_config (config_spec (JObject [(''os'', JString ''linux'')]))) =
     JObject [(''architecture'', JString ''unknown''), (''os'', JString ''unknown''),
              (''os'', JString ''linux'')]"
  by code_simp

text \<open>
  The comment of \<open>OciImageConfig\<close> promises that the whole \<open>[config]\<close> table is kept under
  \<open>extra\<close>. An \<open>env\<close> in OCI form, a list of \<open>KEY=VALUE\<close>, is kept nowhere.
\<close>

lemma env_list_is_lost:
  "image_config_to_json (build_image_config (config_spec
       (JObject [(''env'', JArray [JString ''A=1''])]))) =
     JObject [(''architecture'', JString ''unknown''), (''os'', JString ''unknown'')]"
  by code_simp

section \<open>Properties\<close>

text \<open>
  The image configuration: architecture and system come from the platform, \<open>unknown\<close> when
  absent; the four keys the OCI runtime knows are lifted, the environment as sorted
  \<open>KEY=VALUE\<close> strings; every other key of the table, and no lifted one, is passed through
  unchanged; the runtime part is left out exactly when it is empty.
\<close>

theorem image_config_exact:
  assumes "sp_config sp = ConfigBlob (JObject m)" and "bt_sorted m"
  shows "oic_architecture (build_image_config sp) = unwrap_or_unknown (pf_arch (sp_platform sp)) \<and>
    oic_os (build_image_config sp) = unwrap_or_unknown (pf_os (sp_platform sp)) \<and>
    oic_config (build_image_config sp) =
      (if runtime_of m empty_runtime = empty_runtime then None
       else Some (runtime_of m empty_runtime)) \<and>
    (\<forall>k. map_of (oic_extra (build_image_config sp)) k =
       (if k \<in> lifted_keys then None else map_of m k)) \<and>
    bt_sorted (oic_extra (build_image_config sp)) \<and>
    sorted (orc_env (runtime_of m empty_runtime))"
proof -
  obtain r x where fold: "fold lift_config_key m (empty_runtime, []) = (r, x)"
    by (cases "fold lift_config_key m (empty_runtime, [])")
  from lift_config_fold [OF bt_sorted_distinct [OF assms(2)] fold] have
    r: "r = runtime_of m empty_runtime" and
    x: "map_of x k = (if k \<in> lifted_keys then None else map_of m k)" "bt_sorted x" for k
    by (auto split: option.split)
  have config: "build_image_config sp =
      \<lparr>oic_architecture = unwrap_or_unknown (pf_arch (sp_platform sp)),
       oic_os = unwrap_or_unknown (pf_os (sp_platform sp)),
       oic_config = (if orc_env r = [] \<and> orc_entrypoint r = [] \<and> orc_cmd r = [] \<and> orc_labels r = []
          then None else Some r),
       oic_extra = x\<rparr>"
    by (simp add: build_image_config_def assms(1) fold)
  have "(orc_env r = [] \<and> orc_entrypoint r = [] \<and> orc_cmd r = [] \<and> orc_labels r = []) = (r = empty_runtime)"
    by (cases r) (simp add: empty_runtime_def)
  moreover have "sorted (orc_env (runtime_of m empty_runtime))"
    by (auto simp: runtime_of_def env_strings_def empty_runtime_def split: option.split json.split)
  ultimately show ?thesis using r x by (simp add: config)
qed

theorem image_config_exact_witness:
  "oic_config (build_image_config (config_spec
       (JObject [(''env'', JObject [(''B'', JString ''2''), (''A'', JString ''1'')]), (''init'', JString ''x'')]))) =
     Some \<lparr>orc_env = [''A=1'', ''B=2''], orc_entrypoint = [], orc_cmd = [], orc_labels = []\<rparr>"
proof -
  let ?m = "[(''env'', JObject [(''B'', JString ''2''), (''A'', JString ''1'')]), (''init'', JString ''x'')]"
  have conf: "sp_config (config_spec (JObject ?m)) = ConfigBlob (JObject ?m)"
    by (simp add: config_spec_def)
  have sorted_m: "bt_sorted ?m" by code_simp
  have "runtime_of ?m empty_runtime =
      \<lparr>orc_env = [''A=1'', ''B=2''], orc_entrypoint = [], orc_cmd = [], orc_labels = []\<rparr>"
    by code_simp
  with image_config_exact [OF conf sorted_m] show ?thesis by (simp add: empty_runtime_def)
qed

text \<open>
  The second layer count check of \<open>build\<close> is redundant: for a specification that meets the
  invariant the validation establishes, the build never reports a specification error, whatever
  faults occur.
\<close>

theorem build_reports_no_spec_error:
  assumes "spec_wf (ls_spec loaded)"
  shows "fst (build lib fuel loaded out s) \<noteq> Inl (BuildSpec e)"
proof -
  have cnt: "count_ok (sp_kind (ls_spec loaded)) (length (sp_layers (ls_spec loaded)))"
    using assms by (simp add: spec_wf_def)
  have "fails_with no_spec_error (build lib fuel loaded out)"
    unfolding build_def
    by (rule fails_with_bind [OF fails_with_exists])
      (auto intro!: fails_with_bind map_err_no_spec stage_errors [OF cnt] split: prod.split)
  then show ?thesis by (auto simp: fails_with_def no_spec_error_def)
qed

theorem build_reports_no_spec_error_witness:
  "\<forall>e. fst (build tiny_lib 1 built_spec ''/out'' sample_fs) \<noteq> Inl (BuildSpec e)"
proof -
  have "spec_wf (ls_spec built_spec)" by (simp add: built_spec_def sample_spec_wf)
  from build_reports_no_spec_error [OF this] show ?thesis by blast
qed

end
