(* ===== verification/Streaming_Sink.thy ===== *)
theory Streaming_Sink
  imports Registry_Commit Hex Json
begin

text \<open>
  \<open>core/streaming_sink.rs\<close> of the crate \<open>publish\<close>: an artifact of one layer is pushed from a
  file, without a layout on disk. The file carries its own copies of the helpers of
  \<open>core/registry_sink.rs\<close>; each copy is modelled and proved equal to the original where it
  is. \<open>Sha256\<close> and \<open>serde_json::to_vec\<close> are parameters.
\<close>

section \<open>Constants\<close>

definition stream_request_timeout :: nat where
  "stream_request_timeout = 60"

definition stream_max_retries :: nat where
  "stream_max_retries = 3"

definition stream_max_retry_backoff_ms :: nat where
  "stream_max_retry_backoff_ms = 800"

definition stream_env_allow_insecure :: string where
  "stream_env_allow_insecure = ''JUSTOCI_ALLOW_INSECURE''"

definition empty_config :: bytes where
  "empty_config = ''{}''"

definition empty_config_digest :: string where
  "empty_config_digest =
     ''sha256:44136fa355b3678a1146ad16f7e8649e94fb4fc21fe77e8310c060f61caaff8a''"

definition media_type_empty_config :: string where
  "media_type_empty_config = ''application/vnd.oci.empty.v1+json''"

text \<open>The copy of \<open>WireContext\<close>.\<close>

type_synonym wire = wire_context

section \<open>Copies of the helpers\<close>

definition stream_base64_chunk :: "bytes \<Rightarrow> string" where
  "stream_base64_chunk chunk =
     (let b0 = chunk ! 0;
          b1 = if length chunk > 1 then chunk ! 1 else CHR 0x00;
          b2 = if length chunk > 2 then chunk ! 2 else CHR 0x00;
          w = base64_triple b0 b1 b2
      in [base64_digit w 18, base64_digit w 12,
          if length chunk > 1 then base64_digit w 6 else CHR ''='',
          if length chunk > 2 then base64_digit w 0 else CHR ''=''])"

definition stream_base64_encode :: "bytes \<Rightarrow> string" where
  "stream_base64_encode input = concat (map stream_base64_chunk (chunks3 input))"

definition stream_build_client :: "'w http_lib \<Rightarrow> publish_error + unit" where
  "stream_build_client hl = map_err (\<lambda>e. Auth (SrcHttp e)) (hl_build hl stream_request_timeout)"

definition stream_env_allows_insecure :: "(('w, 'x) sys_scheme, 'e, bool) io" where
  "stream_env_allows_insecure =
     io_bind (env_var stream_env_allow_insecure) (\<lambda>v. io_return (v = Some ''1''))"

definition stream_env_credentials :: "(('w, 'x) sys_scheme, publish_error, string) io" where
  "stream_env_credentials =
     io_bind (env_var env_registry_token) (\<lambda>token.
     case token of
       Some t \<Rightarrow>
         if t \<noteq> [] then io_return (''Bearer '' @ t)
         else io_fail (Auth (SrcText [Txt env_registry_token,
           Txt '' is set but empty; unset it or provide a token'']))
     | None \<Rightarrow>
         io_bind (env_var env_registry_username) (\<lambda>u.
         io_bind (env_var env_registry_password) (\<lambda>p.
         let user = unwrap_or_default u; pass = unwrap_or_default p in
         if user = [] \<or> pass = [] then
           io_fail (Auth (SrcText [Txt ''no registry credentials in env: set '', Txt env_registry_token,
             Txt '', or both '', Txt env_registry_username, Txt '' and '', Txt env_registry_password]))
         else io_return (''Basic '' @ stream_base64_encode (user @ '':'' @ pass)))))"

definition stream_resolve_auth ::
  "'w http_lib \<Rightarrow> registry_auth option \<Rightarrow> (('w, 'x) sys_scheme, publish_error, string option) io" where
  "stream_resolve_auth hl auth =
     (case auth of
        None \<Rightarrow> io_return None
      | Some a \<Rightarrow>
          io_bind (case a of
              Bearer token \<Rightarrow> io_return (''Bearer '' @ token)
            | Basic username password \<Rightarrow>
                io_return (''Basic '' @ stream_base64_encode (username @ '':'' @ password))
            | FromEnv \<Rightarrow> stream_env_credentials) (\<lambda>header_value.
          io_bind (io_lift (map_err (\<lambda>e. Auth (SrcHeader e))
            (hl_header_value hl header_value))) (\<lambda>hv. io_return (Some hv))))"

definition stream_apply_auth :: "string option \<Rightarrow> (string \<times> string) list" where
  "stream_apply_auth auth = (case auth of Some hv \<Rightarrow> [(''authorization'', hv)] | None \<Rightarrow> [])"

definition stream_sleep_backoff :: "nat \<Rightarrow> (('w, 'x) pub_scheme, 'e, unit) io" where
  "stream_sleep_backoff attempt = sleep_millis (backoff_millis stream_max_retry_backoff_ms attempt)"

definition stream_again :: "nat \<Rightarrow> 'l \<Rightarrow> (('w, 'x) pub_scheme, 'e, 'l + 'a) io" where
  "stream_again attempt l = io_bind (stream_sleep_backoff attempt) (\<lambda>_. io_return (Inl l))"

definition stream_absolutize_location :: "string \<Rightarrow> string \<Rightarrow> string" where
  "stream_absolutize_location request_url location =
     (if starts_with location ''http://'' \<or> starts_with location ''https://'' then location
      else case find_str request_url ''://'' of
        Some scheme_end \<Rightarrow>
          let after_scheme = drop (scheme_end + 3) request_url;
              host_end = (case find_char after_scheme (CHR ''/'') of
                Some n \<Rightarrow> n | None \<Rightarrow> length after_scheme);
              host = take host_end after_scheme;
              scheme = take scheme_end request_url
          in if starts_with location ''/'' then scheme @ ''://'' @ host @ location
             else scheme @ ''://'' @ host @ ''/'' @ location
      | None \<Rightarrow> location)"

definition append_digest_param :: "string \<Rightarrow> string \<Rightarrow> string" where
  "append_digest_param location digest =
     (if contains_char location (CHR ''?'') then location @ ''&digest='' @ digest
      else location @ ''?digest='' @ digest)"

definition stream_read_body_capped :: "http_response \<Rightarrow> string" where
  "stream_read_body_capped resp = preview_body (read_capped max_registry_body_preview [] resp)"

definition http_status_text :: "http_response \<Rightarrow> err_source" where
  "http_status_text resp =
     SrcText [Txt ''registry returned HTTP '', Txt (dec_of_nat (rs_status resp))]"

section \<open>The loops\<close>

definition stream_attempts :: "nat list" where
  "stream_attempts = [0..<Suc stream_max_retries]"

definition stream_head_turn ::
  "'w http_lib \<Rightarrow> string \<Rightarrow> string option \<Rightarrow> string \<Rightarrow> nat \<Rightarrow> publish_error option \<Rightarrow>
   (('w, 'x) pub_scheme, publish_error, publish_error option + nat) io" where
  "stream_head_turn hl url auth digest attempt last_err =
     io_bind (http_send hl
       \<lparr>rq_method = MHead, rq_url = url, rq_headers = stream_apply_auth auth, rq_body = Inr []\<rparr>) (\<lambda>r.
     case r of
       Inr resp \<Rightarrow>
         let status = rs_status resp in
         if is_server_error status \<and> attempt < stream_max_retries then stream_again attempt last_err
         else io_return (Inr status)
     | Inl e \<Rightarrow>
         if attempt < stream_max_retries then
           stream_again attempt (Some (BlobUpload digest (SrcHttp e)))
         else io_return (Inl (Some (BlobUpload digest (SrcHttp e)))))"

definition stream_head_blob ::
  "'w http_lib \<Rightarrow> string \<Rightarrow> string option \<Rightarrow> string \<Rightarrow> (('w, 'x) pub_scheme, publish_error, nat) io" where
  "stream_head_blob hl url auth digest =
     io_bind (for_attempts stream_attempts (stream_head_turn hl url auth digest) None) (\<lambda>r.
     io_lift (case r of
        Inr status \<Rightarrow> Inr status
      | Inl (Some e) \<Rightarrow> Inl e
      | Inl None \<Rightarrow> Inl (PublishPanic ''loop body sets last_err on every failure'')))"

definition stream_location_of ::
  "'w http_lib \<Rightarrow> string \<Rightarrow> string \<Rightarrow> http_response \<Rightarrow> publish_error + string" where
  "stream_location_of hl url digest resp =
     and_then (ok_or (BlobUpload digest (SrcText
         [Txt ''registry accepted upload but returned no Location header'']))
       (map_of (rs_headers resp) ''location'')) (\<lambda>hv.
     and_then (map_err (\<lambda>e. BlobUpload digest (SrcHeader e)) (hl_header_text hl hv)) (\<lambda>location.
     Inr (stream_absolutize_location url location)))"

definition stream_init_turn ::
  "'w http_lib \<Rightarrow> string \<Rightarrow> string option \<Rightarrow> string \<Rightarrow> nat \<Rightarrow> unit \<Rightarrow>
   (('w, 'x) pub_scheme, publish_error, unit + string) io" where
  "stream_init_turn hl url auth digest attempt u =
     io_bind (http_send hl
       \<lparr>rq_method = MPost, rq_url = url,
        rq_headers = stream_apply_auth auth @ [(''content-length'', ''0'')], rq_body = Inr []\<rparr>) (\<lambda>r.
     case r of
       Inr resp \<Rightarrow>
         let status = rs_status resp in
         if is_server_error status \<and> attempt < stream_max_retries then stream_again attempt ()
         else if status \<noteq> 202 \<and> status \<noteq> 201 then
           io_fail (RegistryRefused status [Txt (stream_read_body_capped resp)])
         else io_bind (io_lift (stream_location_of hl url digest resp)) (\<lambda>l. io_return (Inr l))
     | Inl e \<Rightarrow>
         if attempt < stream_max_retries then stream_again attempt ()
         else io_fail (BlobUpload digest (SrcHttp e)))"

definition stream_init_blob_upload ::
  "'w http_lib \<Rightarrow> string \<Rightarrow> string option \<Rightarrow> string \<Rightarrow> (('w, 'x) pub_scheme, publish_error, string) io" where
  "stream_init_blob_upload hl url auth digest =
     io_bind (for_attempts stream_attempts (stream_init_turn hl url auth digest) ())
       (\<lambda>r. io_lift (loop_end r))"

definition stream_put_manifest_turn ::
  "'w http_lib \<Rightarrow> string \<Rightarrow> string option \<Rightarrow> bytes \<Rightarrow> nat \<Rightarrow> unit \<Rightarrow>
   (('w, 'x) pub_scheme, publish_error, unit + nat) io" where
  "stream_put_manifest_turn hl url auth bs attempt u =
     io_bind (http_send hl
       \<lparr>rq_method = MPut, rq_url = url,
        rq_headers = stream_apply_auth auth @ [(''content-type'', manifest_media_type),
          (''content-length'', dec_of_nat (length bs))], rq_body = Inr bs\<rparr>) (\<lambda>r.
     case r of
       Inr resp \<Rightarrow>
         let status = rs_status resp in
         if is_server_error status \<and> attempt < stream_max_retries then stream_again attempt ()
         else if status \<noteq> 201 \<and> status \<noteq> 200 then io_fail (ManifestUpload (http_status_text resp))
         else io_return (Inr (length bs))
     | Inl e \<Rightarrow>
         if attempt < stream_max_retries then stream_again attempt ()
         else io_fail (ManifestUpload (SrcHttp e)))"

definition stream_put_manifest ::
  "'w http_lib \<Rightarrow> string \<Rightarrow> string option \<Rightarrow> bytes \<Rightarrow> (('w, 'x) pub_scheme, publish_error, nat) io" where
  "stream_put_manifest hl url auth bs =
     io_bind (for_attempts stream_attempts (stream_put_manifest_turn hl url auth bs) ())
       (\<lambda>r. io_lift (loop_end r))"

definition stream_put_request ::
  "string \<Rightarrow> string option \<Rightarrow> nat \<Rightarrow> io_error + bytes \<Rightarrow> http_request" where
  "stream_put_request url auth len body =
     \<lparr>rq_method = MPut, rq_url = url,
      rq_headers = stream_apply_auth auth @ [(''content-type'', ''application/octet-stream''),
        (''content-length'', dec_of_nat len)], rq_body = body\<rparr>"

section \<open>The push\<close>

definition push_bytes_blob_with_skip ::
  "'w http_lib \<Rightarrow> wire \<Rightarrow> bytes \<Rightarrow> string \<Rightarrow> publish_outcome \<Rightarrow>
   (('w, 'x) pub_scheme, publish_error, publish_outcome) io" where
  "push_bytes_blob_with_skip hl w data digest outcome =
     io_bind (stream_head_blob hl (blob_url w digest) (wc_auth w) digest) (\<lambda>status.
     if status = 200 then io_return (add_skipped digest outcome)
     else
       io_bind (stream_init_blob_upload hl (uploads_url w) (wc_auth w) digest) (\<lambda>location.
       let put_url = append_digest_param location digest; len = length data in
       io_bind (http_send hl (stream_put_request put_url (wc_auth w) len (Inr data))) (\<lambda>r.
       io_bind (io_lift (map_err (\<lambda>e. BlobUpload digest (SrcHttp e)) r)) (\<lambda>resp.
       if rs_status resp \<noteq> 201 \<and> rs_status resp \<noteq> 200 then
         io_fail (BlobUpload digest (http_status_text resp))
       else io_return (add_pushed digest len outcome)))))"

definition push_file_turn ::
  "'w http_lib \<Rightarrow> string \<Rightarrow> string option \<Rightarrow> path \<Rightarrow> string \<Rightarrow> nat \<Rightarrow> publish_outcome \<Rightarrow> nat \<Rightarrow> unit \<Rightarrow>
   (('w, 'x) pub_scheme, publish_error, unit + publish_outcome) io" where
  "push_file_turn hl put_url auth p digest len outcome attempt u =
     io_bind (io_map_err PublishIo (fs_open p)) (\<lambda>_.
     io_bind (io_try (fs_read p)) (\<lambda>body.
     io_bind (http_send hl (stream_put_request put_url auth len body)) (\<lambda>r.
     case r of
       Inr resp \<Rightarrow>
         let status = rs_status resp in
         if is_server_error status \<and> attempt < stream_max_retries then stream_again attempt ()
         else if status \<noteq> 201 \<and> status \<noteq> 200 then
           io_fail (BlobUpload digest (http_status_text resp))
         else io_return (Inr (add_pushed digest len outcome))
     | Inl e \<Rightarrow>
         if attempt < stream_max_retries then stream_again attempt ()
         else io_fail (BlobUpload digest (SrcHttp e)))))"

definition push_file_blob_with_skip ::
  "'w http_lib \<Rightarrow> wire \<Rightarrow> path \<Rightarrow> string \<Rightarrow> nat \<Rightarrow> publish_outcome \<Rightarrow>
   (('w, 'x) pub_scheme, publish_error, publish_outcome) io" where
  "push_file_blob_with_skip hl w p digest len outcome =
     io_bind (stream_head_blob hl (blob_url w digest) (wc_auth w) digest) (\<lambda>status.
     if status = 200 then io_return (add_skipped digest outcome)
     else
       io_bind (stream_init_blob_upload hl (uploads_url w) (wc_auth w) digest) (\<lambda>location.
       let put_url = append_digest_param location digest in
       io_bind (for_attempts stream_attempts
         (push_file_turn hl put_url (wc_auth w) p digest len outcome) ())
         (\<lambda>r. io_lift (loop_end r))))"

definition stream_manifest :: "string \<Rightarrow> string \<Rightarrow> nat \<Rightarrow> json" where
  "stream_manifest layer_media_type layer_digest layer_size = json_map
     [(''schemaVersion'', JInt 2), (''mediaType'', JString manifest_media_type),
      (''config'', json_map
        [(''mediaType'', JString media_type_empty_config), (''digest'', JString empty_config_digest),
         (''size'', JInt 2)]),
      (''layers'', JArray [json_map
        [(''mediaType'', JString layer_media_type), (''digest'', JString layer_digest),
         (''size'', JInt (int layer_size))]])]"

definition build_manifest_json ::
  "(json \<Rightarrow> string + bytes) \<Rightarrow> string \<Rightarrow> string \<Rightarrow> nat \<Rightarrow> publish_error + bytes" where
  "build_manifest_json to_vec layer_media_type layer_digest layer_size =
     map_err (\<lambda>_. PublishPanic ''manifest JSON serialisation is infallible for known-valid inputs'')
       (to_vec (stream_manifest layer_media_type layer_digest layer_size))"

definition stream_hex_sha256 :: "(bytes \<Rightarrow> bytes) \<Rightarrow> bytes \<Rightarrow> string" where
  "stream_hex_sha256 sha256 data = hex_of_bytes (sha256 data)"

definition push_streaming ::
  "'w http_lib \<Rightarrow> (bytes \<Rightarrow> bytes) \<Rightarrow> (json \<Rightarrow> string + bytes) \<Rightarrow> wire \<Rightarrow> path \<Rightarrow> string \<Rightarrow> nat \<Rightarrow>
   string \<Rightarrow> string \<Rightarrow> (('w, 'x) pub_scheme, publish_error, publish_outcome) io" where
  "push_streaming hl sha256 to_vec w source layer_digest layer_size layer_media_type tag =
     io_bind (push_bytes_blob_with_skip hl w empty_config empty_config_digest empty_outcome) (\<lambda>o1.
     io_bind (push_file_blob_with_skip hl w source layer_digest layer_size o1) (\<lambda>o2.
     io_bind (io_lift (build_manifest_json to_vec layer_media_type layer_digest layer_size)) (\<lambda>manifest.
     let manifest_digest = ''sha256:'' @ stream_hex_sha256 sha256 manifest in
     io_bind (stream_put_manifest hl (manifest_url w tag) (wc_auth w) manifest) (\<lambda>manifest_len.
     io_return (add_pushed manifest_digest manifest_len o2)))))"

definition push_artifact_streaming ::
  "'w http_lib \<Rightarrow> (bytes \<Rightarrow> bytes) \<Rightarrow> (json \<Rightarrow> string + bytes) \<Rightarrow> path \<Rightarrow> string \<Rightarrow> nat \<Rightarrow> string \<Rightarrow>
   string \<Rightarrow> string \<Rightarrow> string \<Rightarrow> registry_auth option \<Rightarrow>
   (('w, 'x) pub_scheme, publish_error, publish_outcome) io" where
  "push_artifact_streaming hl sha256 to_vec source layer_digest_hex layer_size layer_media_type
       registry repository tag auth =
     (let layer_digest = ''sha256:'' @ layer_digest_hex in
      io_bind stream_env_allows_insecure (\<lambda>insecure.
      let scheme = (if insecure then ''http'' else ''https'');
          base_url = scheme @ ''://'' @ registry in
      io_bind (io_lift (stream_build_client hl)) (\<lambda>_.
      io_bind (stream_resolve_auth hl auth) (\<lambda>auth_header.
      push_streaming hl sha256 to_vec
        \<lparr>wc_base_url = base_url, wc_repository = repository, wc_auth = auth_header\<rparr>
        source layer_digest layer_size layer_media_type tag))))"

section \<open>The copies agree with the originals\<close>

lemma stream_consts:
  "stream_request_timeout = request_timeout" "stream_max_retries = max_retries"
  "stream_max_retry_backoff_ms = max_retry_backoff_ms" "stream_attempts = attempts"
  "stream_env_allow_insecure = env_allow_insecure"
  by (simp_all add: stream_request_timeout_def request_timeout_def stream_max_retries_def max_retries_def
      stream_max_retry_backoff_ms_def max_retry_backoff_ms_def stream_attempts_def attempts_def
      stream_env_allow_insecure_def env_allow_insecure_def)

lemma stream_base64_chunk: "stream_base64_chunk = base64_chunk"
  by (simp add: fun_eq_iff stream_base64_chunk_def base64_chunk_def)

lemma stream_base64: "stream_base64_encode = base64_encode"
  by (rule ext) (simp only: stream_base64_encode_def base64_encode_def stream_base64_chunk)

lemma stream_helpers:
  "stream_build_client = build_client"
  "stream_env_allows_insecure = env_allows_insecure"
  "stream_apply_auth = apply_auth"
  "stream_again = again"
  "stream_absolutize_location = absolutize_location"
  "append_digest_param = blob_put_url"
  by (simp_all add: fun_eq_iff stream_consts stream_build_client_def build_client_def
      stream_env_allows_insecure_def env_allows_insecure_def stream_apply_auth_def apply_auth_def
      stream_again_def again_def stream_sleep_backoff_def sleep_backoff_def
      stream_absolutize_location_def absolutize_location_def append_digest_param_def blob_put_url_def)

lemma stream_credentials: "stream_env_credentials = env_credentials"
  unfolding stream_env_credentials_def env_credentials_def stream_base64 basic_value_def ..

lemma stream_resolve: "stream_resolve_auth hl auth = resolve_auth hl auth"
  unfolding stream_resolve_auth_def resolve_auth_def stream_base64 basic_value_def stream_credentials ..

lemma stream_head_turn:
  "stream_head_turn hl url auth d = head_turn hl (head_request url auth) (\<lambda>e. BlobUpload d (SrcHttp e))"
  by (intro ext)
    (unfold stream_head_turn_def head_turn_def head_request_def stream_helpers stream_consts, rule refl)

lemma stream_head: "stream_head_blob hl url auth d = head_blob hl url auth d"
  unfolding stream_head_blob_def head_blob_def stream_consts head_end_def stream_head_turn ..

lemma stream_put_request: "stream_put_request = put_blob_request"
  by (simp add: fun_eq_iff stream_put_request_def put_blob_request_def stream_helpers)

section \<open>The loops keep the contract\<close>

lemma stream_requests:
  "\<lparr>rq_method = MPost, rq_url = url,
     rq_headers = apply_auth auth @ [(''content-length'', ''0'')], rq_body = Inr []\<rparr> = init_request url auth"
  "\<lparr>rq_method = MPut, rq_url = url,
     rq_headers = apply_auth auth @ [(''content-type'', manifest_media_type),
       (''content-length'', dec_of_nat (length bs))], rq_body = Inr bs\<rparr> = put_manifest_request url auth bs"
  by (simp_all add: init_request_def put_manifest_request_def)

interpretation stream_init_loop: attempt_loop m "stream_init_turn hl url auth digest"
  "\<lambda>q. q = init_request url auth"
  "\<lambda>q resp l. q = init_request url auth \<and> (rs_status resp = 202 \<or> rs_status resp = 201) \<and>
     stream_location_of hl url digest resp = Inr l" "\<lambda>_. False" no_panic
  for m hl url auth digest
proof
  fix a and l :: unit
  assume a: "a \<le> (3 :: nat)"
  let ?R = "\<lambda>xs ms r. length xs \<le> 1 \<and> (\<forall>x \<in> set xs. fst x = init_request url auth) \<and>
      (\<forall>e. r = Inl e \<longrightarrow> ms = [] \<and> no_panic e) \<and>
      (\<forall>l'. r = Inr (Inl l') \<longrightarrow> ms = (if a < 3 then [backoff_millis 800 a] else []) \<and> (a = 3 \<longrightarrow> False)) \<and>
      (\<forall>v. r = Inr (Inr v) \<longrightarrow> ms = [] \<and> (\<exists>q resp. xs = [(q, Inr resp)] \<and>
         q = init_request url auth \<and> (rs_status resp = 202 \<or> rs_status resp = 201) \<and>
         stream_location_of hl url digest resp = Inr v))"
  have located: "stream_location_of hl url digest resp = Inl e \<Longrightarrow> no_panic e" for resp e
    by (cases "map_of (rs_headers resp) ''location''";
        cases "hl_header_text hl (the (map_of (rs_headers resp) ''location''))")
      (auto simp: stream_location_of_def)
  show "sends m ?R (stream_init_turn hl url auth digest a l)"
    unfolding stream_init_turn_def stream_requests stream_consts stream_helpers attempts_eq(2) Let_def
  proof (rule sends_send_bind)
    fix r
    show "sends m (\<lambda>ys. ?R ((init_request url auth, r) # ys))
      (case r of
         Inl e \<Rightarrow> if a < 3 then again a () else io_fail (BlobUpload digest (SrcHttp e))
       | Inr resp \<Rightarrow> if is_server_error (rs_status resp) \<and> a < 3 then again a ()
           else if rs_status resp \<noteq> 202 \<and> rs_status resp \<noteq> 201 then
             io_fail (RegistryRefused (rs_status resp) [Txt (stream_read_body_capped resp)])
           else io_bind (io_lift (stream_location_of hl url digest resp)) (\<lambda>l. io_return (Inr l)))"
      using a by (cases r) (auto intro!: turn_intros dest: located)
  qed
qed

interpretation push_file_loop: attempt_loop m "push_file_turn hl url auth p digest len outcome"
  "\<lambda>q. \<exists>body. q = put_blob_request url auth len body \<and> blob_body m p body"
  "\<lambda>q resp v. v = add_pushed digest len outcome \<and> (rs_status resp = 201 \<or> rs_status resp = 200)"
  "\<lambda>_. False" no_panic
  for m hl url auth p digest len outcome
proof
  fix a and l :: unit
  assume a: "a \<le> (3 :: nat)"
  let ?ok = "\<lambda>q. \<exists>body. q = put_blob_request url auth len body \<and> blob_body m p body"
  let ?R = "\<lambda>xs ms r. length xs \<le> 1 \<and> (\<forall>x \<in> set xs. ?ok (fst x)) \<and>
      (\<forall>e. r = Inl e \<longrightarrow> ms = [] \<and> no_panic e) \<and>
      (\<forall>l'. r = Inr (Inl l') \<longrightarrow> ms = (if a < 3 then [backoff_millis 800 a] else []) \<and> (a = 3 \<longrightarrow> False)) \<and>
      (\<forall>v. r = Inr (Inr v) \<longrightarrow> ms = [] \<and> (\<exists>q resp. xs = [(q, Inr resp)] \<and>
         v = add_pushed digest len outcome \<and> (rs_status resp = 201 \<or> rs_status resp = 200)))"
  have opened: "silent m (\<lambda>r. \<forall>e. r = Inl e \<longrightarrow> no_panic e) (io_map_err PublishIo (fs_open p))"
    by (rule silent_map_err, rule silent_conseq [OF silent_open])
      (auto simp: map_err_def no_panic_def split: sum.splits)
  have body: "silent m (\<lambda>r. \<exists>b. r = Inr b \<and> blob_body m p b) (io_try (fs_read p))"
    by (rule silent_try, rule silent_conseq [OF silent_read]) (auto simp: blob_body_def)
  show "sends m ?R (push_file_turn hl url auth p digest len outcome a l)"
    unfolding push_file_turn_def stream_put_request stream_consts stream_helpers attempts_eq(2) Let_def
  proof (rule sends_silent_bind [OF opened], force, rule sends_silent_bind [OF body], force, rule sends_send_bind)
    fix b r
    assume "\<exists>c. Inr b = Inr c \<and> blob_body m p c"
    then have "?ok (put_blob_request url auth len b)" by blast
    then show "sends m (\<lambda>ys. ?R ((put_blob_request url auth len b, r) # ys))
      (case r of
         Inl e \<Rightarrow> if a < 3 then again a () else io_fail (BlobUpload digest (SrcHttp e))
       | Inr resp \<Rightarrow> if is_server_error (rs_status resp) \<and> a < 3 then again a ()
           else if rs_status resp \<noteq> 201 \<and> rs_status resp \<noteq> 200 then
             io_fail (BlobUpload digest (http_status_text resp))
           else io_return (Inr (add_pushed digest len outcome)))"
      using a by (cases r) (auto intro!: turn_intros)
  qed
qed

interpretation stream_manifest_loop: attempt_loop m "stream_put_manifest_turn hl url auth bs"
  "\<lambda>q. q = put_manifest_request url auth bs"
  "\<lambda>q resp v. q = put_manifest_request url auth bs \<and> v = length bs \<and>
     (rs_status resp = 201 \<or> rs_status resp = 200)" "\<lambda>_. False" no_panic
  for m hl url auth bs
proof
  fix a and l :: unit
  assume a: "a \<le> (3 :: nat)"
  let ?R = "\<lambda>xs ms r. length xs \<le> 1 \<and> (\<forall>x \<in> set xs. fst x = put_manifest_request url auth bs) \<and>
      (\<forall>e. r = Inl e \<longrightarrow> ms = [] \<and> no_panic e) \<and>
      (\<forall>l'. r = Inr (Inl l') \<longrightarrow> ms = (if a < 3 then [backoff_millis 800 a] else []) \<and> (a = 3 \<longrightarrow> False)) \<and>
      (\<forall>v. r = Inr (Inr v) \<longrightarrow> ms = [] \<and> (\<exists>q resp. xs = [(q, Inr resp)] \<and>
         q = put_manifest_request url auth bs \<and> v = length bs \<and>
         (rs_status resp = 201 \<or> rs_status resp = 200)))"
  show "sends m ?R (stream_put_manifest_turn hl url auth bs a l)"
    unfolding stream_put_manifest_turn_def stream_requests stream_consts stream_helpers attempts_eq(2) Let_def
  proof (rule sends_send_bind)
    fix r
    show "sends m (\<lambda>ys. ?R ((put_manifest_request url auth bs, r) # ys))
      (case r of
         Inl e \<Rightarrow> if a < 3 then again a () else io_fail (ManifestUpload (SrcHttp e))
       | Inr resp \<Rightarrow> if is_server_error (rs_status resp) \<and> a < 3 then again a ()
           else if rs_status resp \<noteq> 201 \<and> rs_status resp \<noteq> 200 then
             io_fail (ManifestUpload (http_status_text resp))
           else io_return (Inr (length bs)))"
      using a by (cases r) (auto intro!: turn_intros)
  qed
qed

section \<open>The commit point\<close>

definition blob_put :: "wire \<Rightarrow> (io_error + bytes \<Rightarrow> bool) \<Rightarrow> string \<Rightarrow> nat \<Rightarrow> http_request \<Rightarrow> bool" where
  "blob_put w P d n q \<longleftrightarrow>
     (\<exists>l body. q = put_blob_request (blob_put_url l d) (wc_auth w) n body \<and> P body)"

definition upload_request ::
  "wire \<Rightarrow> (io_error + bytes \<Rightarrow> bool) \<Rightarrow> string \<Rightarrow> nat \<Rightarrow> http_request \<Rightarrow> bool" where
  "upload_request w P d n q \<longleftrightarrow> q = head_request (blob_url w d) (wc_auth w) \<or>
     q = init_request (uploads_url w) (wc_auth w) \<or> blob_put w P d n q"

definition upload_confirmed ::
  "wire \<Rightarrow> (io_error + bytes \<Rightarrow> bool) \<Rightarrow> string \<Rightarrow> nat \<Rightarrow> exchange \<Rightarrow> bool" where
  "upload_confirmed w P d n x \<longleftrightarrow> (\<exists>resp. snd x = Inr resp \<and>
     (fst x = head_request (blob_url w d) (wc_auth w) \<and> rs_status resp = 200 \<or>
      blob_put w P d n (fst x) \<and> (rs_status resp = 201 \<or> rs_status resp = 200)))"

text \<open>The run for one blob, with what it adds to the outcome.\<close>

definition upload_run ::
  "wire \<Rightarrow> (io_error + bytes \<Rightarrow> bool) \<Rightarrow> string \<Rightarrow> nat \<Rightarrow> publish_outcome \<Rightarrow>
   exchange list \<Rightarrow> nat list \<Rightarrow> publish_error + publish_outcome \<Rightarrow> bool" where
  "upload_run w P d n b xs ms r \<longleftrightarrow>
     length xs \<le> 12 \<and> sum_list ms \<le> 4200 \<and> (\<forall>x \<in> set xs. upload_request w P d n (fst x)) \<and>
     (\<forall>e. r = Inl e \<longrightarrow> no_panic e) \<and>
     (\<forall>b'. r = Inr b' \<longrightarrow> (b' = add_skipped d b \<or> b' = add_pushed d n b) \<and>
        (\<exists>x \<in> set xs. upload_confirmed w P d n x))"

lemma sends_stream_init:
  "sends m (asked (\<lambda>q. q = init_request url auth) (\<lambda>_ _ _. True)) (stream_init_blob_upload hl url auth d)"
  unfolding stream_init_blob_upload_def stream_consts attempts_eq
  by (rule sends_bind [OF stream_init_loop.loop])
    (auto simp: asked_def loop_end_def intro!: sends_lift split: sum.splits)

lemma sends_stream_put_manifest:
  "sends m (asked (\<lambda>q. q = put_manifest_request url auth bs)
       (\<lambda>q resp v. v = length bs \<and> (rs_status resp = 201 \<or> rs_status resp = 200)))
     (stream_put_manifest hl url auth bs)"
  unfolding stream_put_manifest_def stream_consts attempts_eq
  by (rule sends_bind [OF stream_manifest_loop.loop])
    (auto simp: asked_def loop_end_def intro!: sends_lift split: sum.splits)

text \<open>Both pushes: \<open>HEAD\<close>, then unless it is there an upload session and the \<open>PUT\<close>.\<close>

lemma sends_upload:
  assumes "\<And>l. sends m (asked (blob_put w P d n)
      (\<lambda>q resp b'. b' = add_pushed d n b \<and> (rs_status resp = 201 \<or> rs_status resp = 200))) (put l)"
  shows "sends m (upload_run w P d n b)
    (io_bind (head_blob hl (blob_url w d) (wc_auth w) d) (\<lambda>status.
     if status = 200 then io_return (add_skipped d b)
     else io_bind (stream_init_blob_upload hl (uploads_url w) (wc_auth w) d) put))"
proof (rule sends_bind [OF sends_head_blob], goal_cases)
  case (1 xs ms e)
  then show ?case by (auto simp: upload_run_def asked_def upload_request_def)
next
  case h: (2 xs ms v)
  then have "\<forall>x \<in> set xs. upload_request w P d n (fst x)"
    by (auto simp: asked_def upload_request_def)
  note h = h this
  show ?case
  proof (rule sends_if)
    assume v: "v = 200"
    from h(1) v obtain x resp where "x \<in> set xs" "snd x = Inr resp" "rs_status resp = 200"
      "fst x = head_request (blob_url w d) (wc_auth w)" by (auto simp: asked_def)
    then have "\<exists>x \<in> set xs. upload_confirmed w P d n x" by (auto simp: upload_confirmed_def)
    with h show "sends m (\<lambda>ys ns. upload_run w P d n b (xs @ ys) (ms @ ns)) (io_return (add_skipped d b))"
      by (intro sends_return) (auto simp: upload_run_def asked_def)
  next
    show "sends m (\<lambda>ys ns. upload_run w P d n b (xs @ ys) (ms @ ns))
        (io_bind (stream_init_blob_upload hl (uploads_url w) (wc_auth w) d) put)"
    proof (rule sends_bind [OF sends_stream_init], goal_cases)
      case (1 ys ns e)
      with h show ?case by (auto simp: upload_run_def asked_def upload_request_def)
    next
      case i: (2 ys ns l)
      then have "\<forall>x \<in> set ys. upload_request w P d n (fst x)"
        by (auto simp: asked_def upload_request_def)
      note i = i this
      show ?case
      proof (rule sends_conseq [OF assms])
        fix zs ks r
        assume z: "asked (blob_put w P d n) (\<lambda>q resp b'. b' = add_pushed d n b \<and>
            (rs_status resp = 201 \<or> rs_status resp = 200)) zs ks r"
        then have req: "\<forall>x \<in> set zs. upload_request w P d n (fst x)"
          by (auto simp: asked_def upload_request_def)
        have conf: "\<exists>x \<in> set (xs @ ys @ zs). upload_confirmed w P d n x" "b' = add_pushed d n b" if "r = Inr b'" for b'
        proof -
          from z that obtain x resp where x: "x \<in> set zs" "snd x = Inr resp" "b' = add_pushed d n b"
            "rs_status resp = 201 \<or> rs_status resp = 200" by (auto simp: asked_def)
          with z have "upload_confirmed w P d n x" by (auto simp: asked_def upload_confirmed_def)
          with x show "\<exists>x \<in> set (xs @ ys @ zs). upload_confirmed w P d n x" "b' = add_pushed d n b" by auto
        qed
        have "length (xs @ ys @ zs) \<le> 12" "sum_list (ms @ ns @ ks) \<le> 4200" "\<forall>e. r = Inl e \<longrightarrow> no_panic e"
          using h(1) i(1) z by (auto simp: asked_def)
        with h(2) i(2) req conf show "upload_run w P d n b (xs @ ys @ zs) (ms @ ns @ ks) r"
          unfolding upload_run_def by auto
      qed
    qed
  qed
qed

lemma sends_push_bytes:
  "sends m (upload_run w (\<lambda>body. body = Inr data) d (length data) b) (push_bytes_blob_with_skip hl w data d b)"
  unfolding push_bytes_blob_with_skip_def stream_head stream_put_request stream_helpers Let_def
proof (rule sends_upload, rule sends_send_bind)
  fix l r
  let ?q = "put_blob_request (blob_put_url l d) (wc_auth w) (length data) (Inr data)"
  have q: "blob_put w (\<lambda>body. body = Inr data) d (length data) ?q" by (auto simp: blob_put_def)
  show "sends m (\<lambda>ys ms. asked (blob_put w (\<lambda>body. body = Inr data) d (length data))
        (\<lambda>q resp b'. b' = add_pushed d (length data) b \<and> (rs_status resp = 201 \<or> rs_status resp = 200))
        ((?q, r) # ys) ms)
      (io_bind (io_lift (map_err (\<lambda>e. BlobUpload d (SrcHttp e)) r)) (\<lambda>resp.
        if rs_status resp \<noteq> 201 \<and> rs_status resp \<noteq> 200 then io_fail (BlobUpload d (http_status_text resp))
        else io_return (add_pushed d (length data) b)))"
    using q by (cases r) (auto intro!: sends_fail sends_return simp: asked_def)
qed

lemma asked_conseq:
  assumes "asked P A xs ms r" and "\<And>q. P q \<Longrightarrow> P' q"
  shows "asked P' A xs ms r"
  using assms by (auto simp: asked_def)

lemma sends_put_file:
  "sends m (asked (\<lambda>q. \<exists>body. q = put_blob_request url auth n body \<and> blob_body m p body)
      (\<lambda>q resp b'. b' = add_pushed d n b \<and> (rs_status resp = 201 \<or> rs_status resp = 200)))
    (io_bind (for_attempts [0..<4] (push_file_turn hl url auth p d n b) ()) (\<lambda>r. io_lift (loop_end r)))"
  by (rule sends_bind [OF push_file_loop.loop])
    (auto simp: asked_def loop_end_def intro!: sends_lift split: sum.splits)

lemma sends_push_file:
  "sends m (upload_run w (blob_body m p) d n b) (push_file_blob_with_skip hl w p d n b)"
  unfolding push_file_blob_with_skip_def stream_head stream_consts stream_helpers attempts_eq Let_def
  by (rule sends_upload, rule sends_conseq [OF sends_put_file], erule asked_conseq) (auto simp: blob_put_def)

end
