(* ===== verification/Streaming_Commit.thy ===== *)
theory Streaming_Commit
  imports Streaming_Sink Registry_Liveness
begin

text \<open>
  The order of a streamed push: the empty config, then the layer, then the manifest under the
  tag. \<open>stream_run\<close> is what the requests, the delays and the result of a push look like.
\<close>

definition stream_blob_request :: "wire \<Rightarrow> nodes \<Rightarrow> path \<Rightarrow> string \<Rightarrow> nat \<Rightarrow> http_request \<Rightarrow> bool" where
  "stream_blob_request w m p d n q \<longleftrightarrow>
     upload_request w (\<lambda>body. body = Inr empty_config) empty_config_digest (length empty_config) q \<or>
     upload_request w (blob_body m p) d n q"

definition stream_blobs_confirmed :: "wire \<Rightarrow> nodes \<Rightarrow> path \<Rightarrow> string \<Rightarrow> nat \<Rightarrow> exchange list \<Rightarrow> bool" where
  "stream_blobs_confirmed w m p d n xs \<longleftrightarrow>
     (\<exists>x \<in> set xs. upload_confirmed w (\<lambda>body. body = Inr empty_config) empty_config_digest (length empty_config) x) \<and>
     (\<exists>x \<in> set xs. upload_confirmed w (blob_body m p) d n x)"

definition stream_outcome :: "string \<Rightarrow> nat \<Rightarrow> string \<Rightarrow> nat \<Rightarrow> publish_outcome \<Rightarrow> bool" where
  "stream_outcome d n md k out \<longleftrightarrow>
     (\<exists>o1 o2. o1 \<in> {add_skipped empty_config_digest empty_outcome,
                     add_pushed empty_config_digest (length empty_config) empty_outcome} \<and>
        o2 \<in> {add_skipped d o1, add_pushed d n o1} \<and> out = add_pushed md k o2)"

definition stream_run ::
  "(bytes \<Rightarrow> bytes) \<Rightarrow> string + bytes \<Rightarrow> wire \<Rightarrow> nodes \<Rightarrow> path \<Rightarrow> string \<Rightarrow> nat \<Rightarrow> string \<Rightarrow>
   exchange list \<Rightarrow> exchange list \<Rightarrow> nat list \<Rightarrow> publish_error + publish_outcome \<Rightarrow> bool" where
  "stream_run sha256 mb w m p d n tag pre post ms r \<longleftrightarrow>
     length pre \<le> 24 \<and> length post \<le> 4 \<and> sum_list ms \<le> 9800 \<and>
     (\<forall>x \<in> set pre. stream_blob_request w m p d n (fst x)) \<and>
     (post \<noteq> [] \<longrightarrow> stream_blobs_confirmed w m p d n pre) \<and>
     (\<forall>x \<in> set post. \<exists>b. mb = Inr b \<and> fst x = put_manifest_request (manifest_url w tag) (wc_auth w) b) \<and>
     (\<forall>out. r = Inr out \<longrightarrow> (\<exists>b. mb = Inr b \<and>
        stream_outcome d n (''sha256:'' @ hex_of_bytes (sha256 b)) (length b) out \<and>
        (\<exists>x \<in> set post. \<exists>resp. snd x = Inr resp \<and> (rs_status resp = 201 \<or> rs_status resp = 200)))) \<and>
     (\<forall>e. r = Inl e \<and> (\<exists>b. mb = Inr b) \<longrightarrow> no_panic e)"

lemma sends_push_streaming:
  assumes mb: "to_vec (stream_manifest mt d n) = mb"
  shows "sends m (\<lambda>xs ms r. \<exists>pre post. xs = pre @ post \<and> stream_run sha256 mb w m p d n tag pre post ms r)
    (push_streaming hl sha256 to_vec w p d n mt tag)"
  (is "sends m ?Q _")
  unfolding push_streaming_def
proof (rule sends_bind [OF sends_push_bytes], goal_cases)
  case (1 xs ms e)
  then show ?case
    by (intro exI [of _ xs] exI [of _ "[]"])
      (auto simp: stream_run_def upload_run_def stream_blob_request_def)
next
  case c: (2 xs ms o1)
  show ?case
  proof (rule sends_bind [OF sends_push_file], goal_cases)
    case (1 ys ns e)
    with c show ?case
      by (intro exI [of _ "xs @ ys"] exI [of _ "[]"])
        (auto simp: stream_run_def upload_run_def stream_blob_request_def)
  next
    case l: (2 ys ns o2)
    have pre: "length (xs @ ys) \<le> 24" "sum_list (ms @ ns) \<le> 8400"
      "\<forall>x \<in> set (xs @ ys). stream_blob_request w m p d n (fst x)"
      "stream_blobs_confirmed w m p d n (xs @ ys)"
      using c l by (auto simp: upload_run_def stream_blob_request_def stream_blobs_confirmed_def)
    show ?case
    proof (rule sends_lift_bind, goal_cases)
      case (1 e)
      with pre show ?case
        by (intro exI [of _ "xs @ ys"] exI [of _ "[]"])
          (auto simp: stream_run_def build_manifest_json_def mb map_err_def split: sum.splits)
    next
      case (2 b)
      then have b: "mb = Inr b"
        by (auto simp: build_manifest_json_def mb map_err_def split: sum.splits)
      have out: "stream_outcome d n md k (add_pushed md k o2)" for md k
        using c l unfolding stream_outcome_def upload_run_def by blast
      show ?case
        unfolding Let_def
      proof (rule sends_bind [OF sends_stream_put_manifest], goal_cases)
        case (1 zs ks e)
        with pre b show ?case
          by (intro exI [of _ "xs @ ys"] exI [of _ zs])
            (auto simp: stream_run_def asked_def)
      next
        case (2 zs ks k)
        then have "k = length b" by (auto simp: asked_def)
        with 2 pre b out show ?case
          by (intro sends_return exI [of _ "xs @ ys"] exI [of _ zs])
            (auto simp: stream_run_def asked_def stream_hex_sha256_def)
      qed
    qed
  qed
qed

section \<open>A registry that cooperates\<close>

lemma returns_stream_init:
  assumes "cooperative hl"
  shows "returns P (stream_init_blob_upload hl url auth d) (\<lambda>_. P)"
proof -
  have turn: "returns P (stream_init_turn hl url auth d a l) (\<lambda>r m. P m \<and> (\<exists>v. r = Inr v \<and> True))" for a l
    unfolding stream_init_turn_def Let_def
    by (rule returns_bind [OF returns_send [OF assms]])
      (auto simp: returns_def io_apply_simps fits_def is_server_error_def stream_location_of_def)
  show ?thesis
    unfolding stream_init_blob_upload_def stream_consts attempts_Cons
    by (rule returns_bind [OF returns_attempts [OF turn]]) (auto simp: returns_def io_apply_simps loop_end_def)
qed

lemma returns_stream_put_manifest:
  assumes "cooperative hl"
  shows "returns P (stream_put_manifest hl url auth bs) (\<lambda>_. P)"
proof -
  have turn: "returns P (stream_put_manifest_turn hl url auth bs a l) (\<lambda>r m. P m \<and> (\<exists>v. r = Inr v \<and> True))" for a l
    unfolding stream_put_manifest_turn_def Let_def
    by (rule returns_bind [OF returns_send [OF assms]])
      (auto simp: returns_def io_apply_simps fits_def is_server_error_def)
  show ?thesis
    unfolding stream_put_manifest_def stream_consts attempts_Cons
    by (rule returns_bind [OF returns_attempts [OF turn]]) (auto simp: returns_def io_apply_simps loop_end_def)
qed

lemma returns_upload:
  assumes "cooperative hl" and "\<And>l. returns ((=) m) (put l) (\<lambda>_. (=) m)"
  shows "returns ((=) m) (io_bind (head_blob hl u auth d) (\<lambda>status.
     if status = 200 then io_return b
     else io_bind (stream_init_blob_upload hl u' auth d) put)) (\<lambda>_. (=) m)"
proof (rule returns_bind [OF returns_head_blob [OF assms(1)]], rule returns_eq)
  fix v :: nat and m' assume v: "m = m' \<and> (v = 200 \<or> v = 404)"
  have "returns ((=) m) (io_bind (stream_init_blob_upload hl u' auth d) put) (\<lambda>_. (=) m)"
    by (rule returns_bind [OF returns_stream_init [OF assms(1)] assms(2)])
  with v show "returns ((=) m') (if v = 200 then io_return b
      else io_bind (stream_init_blob_upload hl u' auth d) put) (\<lambda>_. (=) m)"
    by (auto intro: returns_return)
qed

lemma returns_push_bytes:
  assumes "cooperative hl"
  shows "returns ((=) m) (push_bytes_blob_with_skip hl w data d b) (\<lambda>_. (=) m)"
  unfolding push_bytes_blob_with_skip_def stream_head Let_def
  by (rule returns_upload [OF assms], rule returns_bind [OF returns_send [OF assms]])
    (auto simp: returns_def io_apply_simps fits_def stream_put_request_def)

lemma returns_push_file:
  assumes "cooperative hl" and "look p m = Some (FileNode c)"
  shows "returns ((=) m) (push_file_blob_with_skip hl w p d n b) (\<lambda>_. (=) m)"
proof -
  have turn: "returns ((=) m) (push_file_turn hl url auth p d n b a l)
      (\<lambda>r m'. m = m' \<and> (\<exists>v. r = Inr v \<and> True))" for url auth a l
    unfolding push_file_turn_def Let_def
    by (rule returns_bind [OF returns_map_err [OF returns_open [where b = c]]], use assms(2) in blast,
        rule returns_bind [OF returns_try_read],
        rule returns_bind [OF returns_send [OF assms(1)]])
      (auto simp: returns_def io_apply_simps fits_def is_server_error_def stream_put_request_def)
  show ?thesis
    unfolding push_file_blob_with_skip_def stream_head stream_consts attempts_Cons Let_def
    by (rule returns_upload [OF assms(1)], rule returns_bind [OF returns_attempts], rule turn)
      (auto simp: returns_def io_apply_simps loop_end_def)
qed

lemma streaming_returns:
  assumes "fs_faults s = []" and "cooperative hl" and "look p (fs_nodes s) = Some (FileNode c)"
    and "resolve_auth hl auth s = (Inr hv, s)" and "to_vec (stream_manifest mt (''sha256:'' @ hex) n) = Inr b"
  obtains out t where
    "push_artifact_streaming hl hash to_vec p hex n mt registry repository tag auth s = (Inr out, t)"
proof -
  let ?w = "\<lparr>wc_base_url = (if sy_env s env_allow_insecure = Some ''1'' then ''http'' else ''https'') @
    ''://'' @ registry, wc_repository = repository, wc_auth = hv\<rparr>"
  have json: "build_manifest_json to_vec mt (''sha256:'' @ hex) n = Inr b"
    by (simp only: build_manifest_json_def assms(5) map_err_simps)
  have "returns ((=) (fs_nodes s))
      (push_streaming hl hash to_vec ?w p (''sha256:'' @ hex) n mt tag) (\<lambda>_. (=) (fs_nodes s))"
    unfolding push_streaming_def json io_bind_simps Let_def
    by (rule returns_bind [OF returns_push_bytes [OF assms(2)]],
        rule returns_bind [OF returns_push_file [OF assms(2,3)]],
        rule returns_bind [OF returns_stream_put_manifest [OF assms(2)]]) (rule returns_return)
  then obtain out t where "push_streaming hl hash to_vec ?w p (''sha256:'' @ hex) n mt tag s = (Inr out, t)"
    using assms(1) unfolding returns_def by blast
  then have "push_artifact_streaming hl hash to_vec p hex n mt registry repository tag auth s = (Inr out, t)"
    using assms(2,4)
    by (simp add: push_artifact_streaming_def stream_helpers stream_resolve env_allows_insecure_def env_var_def
        io_bind_def io_apply_simps build_client_def cooperative_def Let_def)
  then show ?thesis by (rule that)
qed

text \<open>
  C17: a streamed push commits last. Whatever the registry answers and whatever faults occur,
  at most 24 requests for the empty config and the layer come first; the manifest (the one
  that names the layer, serialised) is put under the tag only when the registry has confirmed
  both blobs, in at most four attempts; the delays sum up to at most 9.8 seconds; a push that
  succeeds has had the manifest accepted, and its outcome lists the config and the layer as
  pushed or skipped and the manifest, under the hash of the bytes that were sent, as pushed;
  and it never panics when the manifest serialises.
\<close>

theorem streaming_commit_last:
  assumes "push_artifact_streaming hl sha256 to_vec p hex n mt registry repository tag auth s = (r, t)"
  shows "\<exists>w pre post ms. wires registry repository w \<and>
    pb_sent t = pb_sent s @ pre @ post \<and> pb_slept t = pb_slept s @ ms \<and>
    stream_run sha256 (to_vec (stream_manifest mt (''sha256:'' @ hex) n)) w (fs_nodes s) p
      (''sha256:'' @ hex) n tag pre post ms r"
proof -
  let ?run = "stream_run sha256 (to_vec (stream_manifest mt (''sha256:'' @ hex) n))"
  let ?d = "''sha256:'' @ hex"
  let ?R = "\<lambda>xs ms r. \<exists>w pre post. wires registry repository w \<and> xs = pre @ post \<and>
      ?run w (fs_nodes s) p ?d n tag pre post ms r"
  have quick: "?R [] [] (Inl e)" if "no_panic e" for e
    by (rule exI [of _ "\<lparr>wc_base_url = ''http://'' @ registry, wc_repository = repository, wc_auth = None\<rparr>"],
        rule exI [of _ "[]"], rule exI [of _ "[]"])
      (use that in \<open>simp add: wires_def stream_run_def\<close>)
  have "sends (fs_nodes s) ?R
      (push_artifact_streaming hl sha256 to_vec p hex n mt registry repository tag auth)"
    unfolding push_artifact_streaming_def stream_helpers stream_resolve env_allows_insecure_def Let_def io_bind_assoc
  proof (rule sends_silent_bind [OF silent_env [where R = "\<lambda>r. \<exists>v. r = Inr v"]], blast, blast,
      unfold io_bind_simps, rule sends_lift_bind, goal_cases)
    case (1 v e)
    then show ?case by (intro quick) (auto simp: build_client_def map_err_def split: sum.splits)
  next
    case (2 v u)
    show ?case
    proof (rule sends_silent_bind [OF silent_resolve_auth], goal_cases)
      case (1 e)
      then show ?case by (intro quick) simp
    next
      case (2 hv)
      show ?case
      proof (rule sends_conseq [OF sends_push_streaming [OF refl]])
        let ?w = "\<lparr>wc_base_url = (if v = Some ''1'' then ''http'' else ''https'') @ ''://'' @ registry,
          wc_repository = repository, wc_auth = hv\<rparr>"
        have "wires registry repository ?w" by (simp add: wires_def)
        then show "?R xs ms q"
          if "\<exists>pre post. xs = pre @ post \<and> ?run ?w (fs_nodes s) p ?d n tag pre post ms q" for xs ms q
          using that by auto
      qed
    qed
  qed
  from sendsD [OF this refl assms] show ?thesis
    unfolding talks_def by metis
qed

text \<open>A push of the file \<open>/layer\<close> to the sample registry.\<close>

definition sample_layer :: "unit pub" where
  "sample_layer = sample_pub\<lparr>fs_nodes := [[''/'', ''layer''] \<mapsto> FileNode ''bytes'']\<rparr>"

theorem streaming_commit_last_witness:
  "\<exists>out t w pre post ms x.
    push_artifact_streaming sample_http rev (\<lambda>_. Inr ''json'') ''/layer'' ''00'' 5 ''mt'' ''reg'' ''app'' ''v1''
      None sample_layer = (Inr out, t) \<and>
    stream_run rev (Inr ''json'') w (fs_nodes sample_layer) ''/layer'' ''sha256:00'' 5 ''v1'' pre post ms (Inr out) \<and>
    stream_blobs_confirmed w (fs_nodes sample_layer) ''/layer'' ''sha256:00'' 5 pre \<and> x \<in> set post"
proof (rule streaming_returns [where s = sample_layer and hl = sample_http and p = "''/layer''" and c = "''bytes''"
      and auth = None and hv = None and to_vec = "\<lambda>_. Inr ''json''" and hash = rev and hex = "''00''"
      and n = 5 and mt = "''mt''" and registry = "''reg''" and repository = "''app''" and tag = "''v1''"])
  show "fs_faults sample_layer = []" "cooperative sample_http"
    "resolve_auth sample_http None sample_layer = (Inr None, sample_layer)"
    by (simp_all add: sample_layer_def sample_pub_def sample_cooperative sample_anonymous)
  show "look ''/layer'' (fs_nodes sample_layer) = Some (FileNode ''bytes'')"
    by (simp add: look_def sample_layer_def fs_key_def path_is_absolute_def names_of_def)
next
  fix out t
  assume run: "push_artifact_streaming sample_http rev (\<lambda>_. Inr ''json'') ''/layer'' ''00'' 5 ''mt'' ''reg'' ''app'' ''v1''
      None sample_layer = (Inr out, t)"
  from streaming_commit_last [OF this] obtain w pre post ms where
    r: "stream_run rev (Inr ''json'') w (fs_nodes sample_layer) ''/layer'' ''sha256:00'' 5 ''v1'' pre post ms
      (Inr out :: publish_error + publish_outcome)" by auto
  then obtain x where "x \<in> set post" unfolding stream_run_def by blast
  moreover from this r have "stream_blobs_confirmed w (fs_nodes sample_layer) ''/layer'' ''sha256:00'' 5 pre"
    unfolding stream_run_def by (metis empty_iff list.set(1))
  ultimately show ?thesis using run r by blast
qed simp

end
