(* ===== verification/Sbom_Props.thy ===== *)
theory Sbom_Props
  imports Attest_Docs Spec_Rules
begin

text \<open>
  The shape of the attestation documents: they are values as \<open>serde_json\<close> holds them, and a
  SPDX document names every element once and relates only elements it names.
\<close>

section \<open>Decimal numbers\<close>

lemma dec_digit: "d < 10 \<Longrightarrow> char_of (48 + d :: nat) = (c :: char) \<Longrightarrow> 48 \<le> code_of c \<and> code_of c \<le> 57"
  by (auto simp: code_of_def of_char_of)

lemma dec_of_nat_set: "c \<in> set (dec_of_nat n) \<Longrightarrow> 48 \<le> code_of c \<and> code_of c \<le> 57"
proof (induction n rule: dec_of_nat.induct)
  case (1 n)
  show ?case
  proof (cases "n < 10")
    case True
    with "1.prems" dec_digit [of n c] show ?thesis by (subst (asm) dec_of_nat.simps) auto
  next
    case False
    with "1.prems" have "c \<in> set (dec_of_nat (n div 10)) \<or> c = char_of (48 + n mod 10)"
      by (subst (asm) dec_of_nat.simps) auto
    with "1.IH" [OF False] dec_digit [of "n mod 10" c] show ?thesis by auto
  qed
qed

text \<open>Reading the digits back.\<close>

definition of_digits :: "string \<Rightarrow> nat" where
  "of_digits ds = foldl (\<lambda>n c. 10 * n + (code_of c - 48)) 0 ds"

lemma of_digits_dec_of_nat: "of_digits (dec_of_nat n) = n"
proof (induction n rule: dec_of_nat.induct)
  case (1 n)
  have digit: "code_of (char_of (48 + d)) - 48 = d" if "d < 10" for d :: nat
    using that by (simp add: code_of_def of_char_of)
  show ?case
  proof (cases "n < 10")
    case True
    then show ?thesis by (subst dec_of_nat.simps) (simp add: of_digits_def digit)
  next
    case False
    have "of_digits (dec_of_nat n) = 10 * of_digits (dec_of_nat (n div 10)) + n mod 10"
      using False by (subst dec_of_nat.simps) (simp add: of_digits_def digit)
    with "1.IH" [OF False] show ?thesis by simp
  qed
qed

lemma dec_of_nat_inj [simp]: "dec_of_nat m = dec_of_nat n \<longleftrightarrow> m = n"
  by (metis of_digits_dec_of_nat)

section \<open>Well-formed values\<close>

lemma json_wf_map: "json_wf (json_map kvs)" if "\<forall>kv \<in> set kvs. json_wf (snd kv)"
  using that by (auto intro!: json_wf_json_map)

lemma wf_statement: "json_wf (build_statement_value ops built cfg)"
  by (auto simp: build_statement_value_def build_subject_def digest_object_def build_predicate_def
      build_build_definition_def build_external_parameters_def build_resolved_dependencies_def
      resolved_dependency_def build_run_details_def intro!: json_wf_map)

lemma wf_bom: "json_wf (build_bom_value ops built scope)"
  by (auto simp: build_bom_value_def build_metadata_def build_components_def build_layer_component_def
      build_source_component_def property_entry_def build_hashes_def intro!: json_wf_map)

lemma wf_doc: "json_wf (build_doc_value ops built scope)"
  by (auto simp: build_doc_value_def build_creation_info_def build_packages_def build_spdx_checksums_def
      build_files_def spdx_layer_file_def spdx_source_file_def build_relationships_def
      spdx_relationship_def intro!: json_wf_map)


section \<open>The built artifact\<close>

text \<open>The recorded indices of an artifact are the positions of the layers of its spec.\<close>

lemma built_artifact_new_iff:
  "built_artifact_new m c ls sp h = Inr built \<longleftrightarrow>
     built = \<lparr>ba_manifest_digest = m, ba_config_digest = c, ba_layer_digests = ls, ba_spec = sp,
              ba_spec_hash = h\<rparr> \<and> map fst ls = [0..<length (sp_layers sp)]"
proof -
  have "order_mismatch ls = None \<longleftrightarrow> (\<forall>x \<in> set (List.enumerate 0 ls). fst x = fst (snd x))"
    unfolding order_mismatch_def option.map_disc_iff find_None_iff split_beta by blast
  also have "\<dots> \<longleftrightarrow> (\<forall>i < length ls. fst (ls ! i) = i)"
  proof (intro iffI allI impI ballI)
    fix i
    assume all: "\<forall>x \<in> set (List.enumerate 0 ls). fst x = fst (snd x)" and "i < length ls"
    then have "(i, ls ! i) \<in> set (List.enumerate 0 ls)" by (simp add: in_set_enumerate_eq)
    with all show "fst (ls ! i) = i" by force
  next
    fix x
    assume "\<forall>i < length ls. fst (ls ! i) = i" and "x \<in> set (List.enumerate 0 ls)"
    then show "fst x = fst (snd x)" by (auto simp: in_set_enumerate_eq)
  qed
  finally have find: "order_mismatch ls = None \<longleftrightarrow> (\<forall>i < length ls. fst (ls ! i) = i)" .
  have eq: "map fst ls = [0..<length (sp_layers sp)] \<longleftrightarrow>
      length ls = length (sp_layers sp) \<and> (\<forall>i < length ls. fst (ls ! i) = i)"
    by (subst list_eq_iff_nth_eq) (auto simp del: upt.simps)
  show ?thesis
    unfolding built_artifact_new_def eq find [symmetric]
    by (cases "order_mismatch ls") auto
qed

section \<open>The elements of a SPDX document\<close>

definition str_at :: "string \<Rightarrow> json \<Rightarrow> string" where
  "str_at k v = (case Option.bind (json_get k v) json_as_str of Some s \<Rightarrow> s | None \<Rightarrow> [])"

definition items_at :: "string \<Rightarrow> json \<Rightarrow> json list" where
  "items_at k v = (case Option.bind (json_get k v) json_as_array of Some vs \<Rightarrow> vs | None \<Rightarrow> [])"

text \<open>The document itself, its packages and its files, by their identifiers.\<close>

definition spdx_names :: "json \<Rightarrow> string list" where
  "spdx_names doc =
     map (str_at ''SPDXID'') (doc # items_at ''packages'' doc @ items_at ''files'' doc)"

definition spdx_related :: "json \<Rightarrow> (string \<times> string) list" where
  "spdx_related doc =
     map (\<lambda>r. (str_at ''spdxElementId'' r, str_at ''relatedSpdxElement'' r)) (items_at ''relationships'' doc)"

definition source_spdx_id :: "nat \<times> nat \<Rightarrow> string" where
  "source_spdx_id p = ''SPDXRef-Source-L'' @ dec_of_nat (fst p) @ ''-F'' @ dec_of_nat (snd p)"

lemma ids_of_rows:
  "str_at ''SPDXID'' (spdx_layer_file ops idx digest l) = layer_spdx_id idx"
  "str_at ''SPDXID'' (spdx_source_file idx file_idx e) = source_spdx_id (idx, file_idx)"
  by (simp_all add: str_at_def spdx_layer_file_def spdx_source_file_def source_spdx_id_def)

lemma no_dash: "CHR ''-'' \<notin> set (dec_of_nat n)"
  using dec_of_nat_set [of "CHR ''-''" n] by (auto simp: code_of_def)

lemma source_spdx_id_inj: "source_spdx_id p = source_spdx_id q \<longleftrightarrow> p = q"
proof -
  have "split_once (CHR ''-'') (dec_of_nat (fst p) @ CHR ''-'' # CHR ''F'' # dec_of_nat (snd p)) =
      Some (dec_of_nat (fst p), CHR ''F'' # dec_of_nat (snd p))" for p :: "nat \<times> nat"
    by (rule split_once_append [OF no_dash])
  then have "dec_of_nat (fst p) @ CHR ''-'' # CHR ''F'' # dec_of_nat (snd p) =
      dec_of_nat (fst q) @ CHR ''-'' # CHR ''F'' # dec_of_nat (snd q) \<longrightarrow> p = q"
    by (metis dec_of_nat_inj list.inject option.inject prod.collapse prod.inject)
  then show ?thesis by (auto simp: source_spdx_id_def)
qed

lemma spdx_names_doc:
  "spdx_names (build_doc_value ops built scope) =
     ''SPDXRef-DOCUMENT'' # ''SPDXRef-Package-Artifact'' #
     (if want_layers scope then map (\<lambda>r. layer_spdx_id (fst r)) (layer_rows built) else []) @
     (if want_sources scope
      then map (\<lambda>r. source_spdx_id (fst r, fst (snd r))) (source_rows built) else [])"
  by (simp add: spdx_names_def items_at_def build_doc_value_def build_packages_def build_files_def
      ids_of_rows split_beta comp_def)
    (simp add: str_at_def)

lemma spdx_related_doc:
  "spdx_related (build_doc_value ops built scope) =
     (''SPDXRef-DOCUMENT'', ''SPDXRef-Package-Artifact'') #
     (if want_layers scope
      then map (\<lambda>(idx, _). (''SPDXRef-Package-Artifact'', layer_spdx_id idx)) (ba_layer_digests built)
      else [])"
  by (simp add: spdx_related_def items_at_def build_doc_value_def build_relationships_def
      split_beta comp_def)
    (simp add: str_at_def spdx_relationship_def)

lemma source_keys_distinct:
  "distinct (map (\<lambda>r. (fst r, fst (snd r))) (source_rows built))"
proof -
  have rows: "map ((\<lambda>r. (fst r, fst (snd r))) \<circ> Pair i) (List.enumerate 0 es) =
      map (Pair i) [0..<length es]" for i :: nat and es :: "layer_file list"
  proof -
    have "map (Pair i) [0..<length es] = map (Pair i) (map fst (List.enumerate 0 es))" by simp
    then show ?thesis by (simp add: comp_def del: map_fst_enumerate)
  qed
  have keys: "map (\<lambda>r. (fst r, fst (snd r))) (source_rows built) =
      concat (map (\<lambda>x. map (Pair (fst x)) (case ly_source (snd x) of
        Files es \<Rightarrow> [0..<length es] | Blob _ \<Rightarrow> [])) (List.enumerate 0 (sp_layers (ba_spec built))))"
    unfolding source_rows_def map_concat map_map
    by (rule arg_cong [of _ _ concat], rule map_cong [OF refl])
      (simp add: split_beta rows split: layer_source.split)
  have "distinct (concat (map (\<lambda>x. map (Pair (fst x)) (g (snd x))) (List.enumerate n xs)))"
    if "\<And>x. distinct (g x)" for g :: "layer \<Rightarrow> nat list" and xs n
  proof (induction xs arbitrary: n)
    case Nil
    then show ?case by simp
  next
    case (Cons x xs)
    have "inj_on (Pair n) A" for A :: "nat set" by (simp add: inj_on_def)
    moreover have "\<forall>y \<in> set (List.enumerate (Suc n) xs). fst y \<noteq> n" by (auto simp: in_set_enumerate_eq)
    ultimately show ?case
      using Cons.IH [of "Suc n"] that [of x] by (auto simp: distinct_map)
  qed
  from this [of "\<lambda>l. case ly_source l of Files es \<Rightarrow> [0..<length es] | Blob _ \<Rightarrow> []"] show ?thesis
    unfolding keys by (simp split: layer_source.split)
qed

lemma layer_rows_fst:
  assumes "map fst (ba_layer_digests built) = [0..<length (sp_layers (ba_spec built))]"
  shows "map fst (layer_rows built) = map fst (ba_layer_digests built)"
proof -
  have "length (ba_layer_digests built) = length (sp_layers (ba_spec built))"
    using arg_cong [OF assms, of length] by simp
  then have "map fst (map fst (zip (ba_layer_digests built) (sp_layers (ba_spec built)))) =
      map fst (ba_layer_digests built)"
    by simp
  then show ?thesis by (simp add: layer_rows_def split_beta comp_def del: map_fst_zip)
qed

text \<open>
  C40: the SPDX document of an artifact that the constructor accepted names every element
  once (the document, the package, each layer by its index, each source file by its layer and
  its position), and both ends of every relationship are among them.
\<close>

theorem spdx_document_consistent:
  assumes "built_artifact_new m c ls sp h = Inr built"
  shows "distinct (spdx_names (build_doc_value ops built scope)) \<and>
    set (map fst (spdx_related (build_doc_value ops built scope))) \<union>
    set (map snd (spdx_related (build_doc_value ops built scope)))
      \<subseteq> set (spdx_names (build_doc_value ops built scope))"
proof -
  have idx: "map fst (ba_layer_digests built) = [0..<length (sp_layers (ba_spec built))]"
    using assms by (auto simp: built_artifact_new_iff)
  note fst_rows = layer_rows_fst [OF idx]
  have layers: "map (\<lambda>r. layer_spdx_id (fst r)) (layer_rows built) =
      map layer_spdx_id (map fst (ba_layer_digests built))"
    unfolding fst_rows [symmetric] by (simp add: comp_def)
  define L where "L = map layer_spdx_id (map fst (ba_layer_digests built))"
  define S where "S = map (\<lambda>r. source_spdx_id (fst r, fst (snd r))) (source_rows built)"
  have diff: "layer_spdx_id i \<noteq> source_spdx_id p" "layer_spdx_id i \<noteq> ''SPDXRef-DOCUMENT''"
    "layer_spdx_id i \<noteq> ''SPDXRef-Package-Artifact''" "source_spdx_id p \<noteq> ''SPDXRef-DOCUMENT''"
    "source_spdx_id p \<noteq> ''SPDXRef-Package-Artifact''" for i p
    by (simp_all add: layer_spdx_id_def source_spdx_id_def)
  have "distinct L"
    unfolding L_def idx by (auto simp: distinct_map inj_on_def layer_spdx_id_def)
  moreover have "distinct S"
    using source_keys_distinct [of built]
    by (auto simp: S_def distinct_map inj_on_def source_spdx_id_inj)
  moreover have "set L \<inter> set S = {}"
    using diff(1) by (auto simp: L_def S_def)
  moreover have "''SPDXRef-DOCUMENT'' \<notin> set L \<union> set S" "''SPDXRef-Package-Artifact'' \<notin> set L \<union> set S"
    using diff(2-) by (auto simp: L_def S_def dest: sym)
  ultimately have distinct: "distinct (spdx_names (build_doc_value ops built scope))"
    unfolding spdx_names_doc layers L_def [symmetric] S_def [symmetric] by auto
  have firsts: "set (map fst (spdx_related (build_doc_value ops built scope))) \<subseteq>
        {''SPDXRef-DOCUMENT'', ''SPDXRef-Package-Artifact''}"
    by (auto simp: spdx_related_doc)
  have seconds: "set (map snd (spdx_related (build_doc_value ops built scope))) \<subseteq>
        insert ''SPDXRef-Package-Artifact'' (if want_layers scope then set L else {})"
    by (cases "want_layers scope")
      (simp_all add: spdx_related_doc L_def split_beta image_image subset_insertI)
  have "{''SPDXRef-DOCUMENT'', ''SPDXRef-Package-Artifact''} \<subseteq>
      set (spdx_names (build_doc_value ops built scope))"
    by (simp add: spdx_names_doc)
  moreover have "insert ''SPDXRef-Package-Artifact'' (if want_layers scope then set L else {}) \<subseteq>
      set (spdx_names (build_doc_value ops built scope))"
    unfolding spdx_names_doc layers L_def [symmetric]
    by (cases "want_layers scope") (simp_all add: subset_insertI2)
  ultimately show ?thesis
    by (intro conjI Un_least distinct order_trans [OF firsts] order_trans [OF seconds])
qed

theorem spdx_document_consistent_witness:
  "distinct (spdx_names (build_doc_value
     \<lparr>dg_algorithm = (\<lambda>_. ''sha256''), dg_hex = drop 7, dg_text = id\<rparr>
     \<lparr>ba_manifest_digest = ''sha256:1'', ba_config_digest = ''sha256:2'',
      ba_layer_digests = [(0, ''sha256:3'')], ba_spec = sample_spec, ba_spec_hash = ''sha256:4''\<rparr> ScopeBoth))"
  by (rule spdx_document_consistent [THEN conjunct1,
        of "''sha256:1''" "''sha256:2''" "[(0, ''sha256:3'')]" sample_spec "''sha256:4''"])
    (simp add: built_artifact_new_iff sample_spec_def)

end
