(* ===== verification/Spec2Isabelle.thy ===== *)
theory Spec2Isabelle
  imports Cli_Main Jcs_Fixtures Build_Config Publish Streaming_Commit Pull_Liveness Verify_Gate Referrers_Commit Attest_Props Sbom_Props
begin

text \<open>
  A verification of justoci: the Rust workspace under \<open>src/main/features\<close> (its paths are given
  below without that prefix) that builds OCI images from a TOML specification, attests them,
  publishes them to a directory or a registry, pulls them back and verifies their attestation
  against a policy.

  \<^bold>\<open>The program and how its parts interact.\<close> The crate \<open>spec\<close> turns a TOML file into a validated
  \<open>LoadedSpec\<close> and hashes its canonical form. The crate \<open>build\<close> turns each layer into a
  deterministic tar, stores it in a content-addressed store, assembles the configuration, the
  manifest and the index in a staging directory and renames that to the output. The crate
  \<open>attest\<close> emits the SLSA statement and an SBOM of the built artifact and has the manifest
  digest signed. The crate \<open>publish\<close> opens an image directory and copies its blobs to another
  directory, or pushes them to a registry, in both cases with the reference to the image last.
  The crate \<open>cli\<close> joins them: \<open>justoci build\<close> builds, attests and rewrites the index with the
  referrers; \<open>publish\<close> resolves credentials and publishes; \<open>verify\<close> takes a path, or pulls a
  reference into a temporary directory, and judges the three pillars (SLSA, SBOM, signature)
  under a policy; \<open>inspect\<close> and \<open>sbom\<close> print; \<open>main\<close> dispatches, prints and chooses the exit
  code.

  \<^bold>\<open>How the code is represented.\<close> A function that can fail returns \<open>error + value\<close>. A function
  that touches the world is an \<open>io\<close>: from a state to a result and a state (\<open>Prelude\<close>). The
  state is a record that each layer of the program extends: \<open>fs\<close> (nodes of the file system, the
  scripted faults, the order of listings, the history of disks), \<open>sys\<close> (environment, the rest of
  the world), \<open>pub\<close> (requests sent, delays slept), \<open>pull\<close> (the bearer cache), \<open>console\<close>
  (standard output). Every file-system call takes one entry of the script of faults: it may
  fail, or stop after a part of its effect, and every disk another process could have seen is
  appended to \<open>fs_seen\<close>; that is what the atomicity statements quantify over. Strings are byte
  lists; the integers \<open>u32\<close> of file modes and of Base64 are words; sizes are \<open>nat\<close>. Panics are
  values (\<open>IndexPanic\<close>, \<open>PublishPanic\<close>, \<open>PullPanic\<close>, \<open>Panicked\<close>), so that their absence is a
  theorem. Code that is not in the repository is a field of a record of parameters
  (\<open>build_lib\<close>, \<open>tar_lib\<close>, \<open>image_codecs\<close>, \<open>http_lib\<close>, \<open>pull_lib\<close>, \<open>verify_lib\<close>, \<open>attest_lib\<close>,
  \<open>sigstore_sdk\<close>, \<open>process_lib\<close>, \<open>docker_lib\<close>, \<open>vault_lib\<close> and the records that collect them):
  the TOML and JSON parsers and printers, SHA-256, the content store, the tar framing and the
  compressors, the HTTP client, the registry, the signers, the vault client.

  \<^bold>\<open>Foundations.\<close>
  \<^item> \<open>Prelude\<close>, \<open>Rust_String\<close>, \<open>Std_Extra\<close>, \<open>Json\<close>, \<open>Hex\<close>, \<open>Base64\<close>: results, the state monad,
    the triples (\<open>triple\<close>, \<open>keeps\<close>, \<open>fails_with\<close>) that carry the invariant proofs and their
    rule collections, sorted maps, strings, JSON values, encoders.
  \<^item> \<open>System\<close>, \<open>Process\<close>, \<open>Http_Client\<close>: the file system with faults, subprocesses, requests
    and answers, and the retry loop as a locale \<open>attempt_loop\<close> with its bounds.
  \<^item> \<open>History\<close>: the history is a ghost that no operation reads.

  \<^bold>\<open>The crate \<open>spec\<close>.\<close>
  \<^item> \<open>Spec_Types\<close> (\<open>spec/src/api\<close>, \<open>core/raw.rs\<close>), \<open>Spec_Validate\<close> (\<open>core/validate.rs\<close>,
    \<open>saf/parse.rs\<close>), \<open>Spec_Canon\<close> (\<open>saf/canonicalize.rs\<close>).
  \<^item> \<open>Spec_Rules\<close> states the format as a relation \<open>stands_for\<close> between the raw and the typed
    specification; validation accepts exactly that relation, establishes \<open>spec_wf\<close> under faults,
    and names the first layer at fault. \<open>Spec_Canon\<close> shows the canonical tree injective up to
    path separators.

  \<^bold>\<open>The crate \<open>build\<close>.\<close>
  \<^item> \<open>Tar_Builder\<close> (\<open>core/tar_builder.rs\<close>): pinned members, order, independence of listings.
  \<^item> \<open>Oci_Types\<close> (\<open>api\<close>), \<open>Oci_Build\<close> (\<open>core/layer.rs\<close>, \<open>core/oci_assembly.rs\<close>,
    \<open>saf/build.rs\<close>), \<open>Build_Config\<close>, \<open>Build_Atomicity\<close>: the output is absent or complete, under
    the contract \<open>cas_contract\<close> of the store.

  \<^bold>\<open>The crate \<open>publish\<close>.\<close>
  \<^item> \<open>Publish_Types\<close> (\<open>api/error.rs\<close>, \<open>api/sink.rs\<close>), \<open>Image_Dir\<close> (\<open>api/image_dir.rs\<close>): opening
    an image accepts exactly \<open>valid_image\<close>.
  \<^item> \<open>Http_Sink\<close>, \<open>Http_Commit\<close>, \<open>Http_Liveness\<close> (\<open>core/http_sink.rs\<close>): the locale
    \<open>atomic_writer\<close>, commitment by the index, success without faults.
  \<^item> \<open>Registry_Sink\<close>, \<open>Registry_Commit\<close>, \<open>Registry_Liveness\<close> (\<open>core/registry_sink.rs\<close>) and
    \<open>Streaming_Sink\<close>, \<open>Streaming_Commit\<close> (\<open>core/streaming_sink.rs\<close>): the tag is put last, the
    loops are bounded, a registry that cooperates is published to.
  \<^item> \<open>Publish\<close> (\<open>saf/publish.rs\<close>): the entry point and its checks.

  \<^bold>\<open>The crate \<open>attest\<close>.\<close>
  \<^item> \<open>Attest_Docs\<close> (\<open>api\<close>, \<open>core/slsa.rs\<close>, \<open>core/sbom_cyclonedx.rs\<close>, \<open>core/sbom_spdx.rs\<close>),
    \<open>Attest\<close> (\<open>core/cosign.rs\<close>, \<open>core/sigstore_invoker.rs\<close>, \<open>core/justsign_invoker.rs\<close>,
    \<open>saf/attest.rs\<close>).
  \<^item> \<open>Sbom_Props\<close>, \<open>Attest_Props\<close>: the documents are well formed and are accepted by the
    validators of the verifier; the locale \<open>signer\<close>, with an interpretation for each of the three
    invokers, gives that a signature comes with its transparency-log entry.

  \<^bold>\<open>The crate \<open>cli\<close>.\<close>
  \<^item> \<open>Pull_Types\<close>, \<open>Ref_Parser\<close>, \<open>Challenge\<close>, \<open>Credentials\<close>, \<open>Docker_Config\<close>, \<open>Vault\<close>,
    \<open>Pull_Auth\<close>, \<open>Pull\<close> (\<open>src/registry\<close>): references, challenges and tokens, the providers of
    credentials (locales \<open>credential_source\<close>, \<open>credential_reader\<close>, \<open>docker_auths_backend\<close>,
    \<open>provider_chain\<close>), the pull. \<open>Pull_Commit\<close>, \<open>Pull_Integrity\<close>, \<open>Pull_Liveness\<close>: a file under
    the name of a digest hashes to it, and the index comes last, at every moment.
  \<^item> \<open>Verify_Policy\<close>, \<open>Verify_Engine\<close>, \<open>Verify_Gate\<close> (\<open>policy.rs\<close>, \<open>verify_engine.rs\<close>): what
    an accepting verification has established, in terms of the evidence on disk.
  \<^item> \<open>Referrers\<close>, \<open>Referrers_Commit\<close> (\<open>referrers.rs\<close>): the index is replaced in one step.
  \<^item> \<open>Cli_Error\<close> (\<open>error.rs\<close>), \<open>Cmd_Auth\<close>, \<open>Cmd_Publish\<close>, \<open>Cmd_Verify\<close>, \<open>Cmd_Read\<close>,
    \<open>Cmd_Build\<close> (\<open>cmd\<close>), \<open>Cli_Main\<close> (\<open>main.rs\<close>): the commands and the exit code. Here the
    properties of the crates are composed: that of \<open>build\<close> from the build, the attestation and
    the referrer writer; that of \<open>publish\<close> from the sinks and the credentials; those of \<open>verify\<close>
    and of its exit code from the pull and the gate.
  \<^item> \<open>Jcs_Fixtures\<close> (\<open>bin/regenerate-jcs-fixtures.rs\<close>): the tool that keeps the canonical bytes
    and hashes of the test fixtures: what its check answers, and that a regeneration passes it.

  \<^bold>\<open>Bounds.\<close> Two loops take a bound. \<open>flatten_entry\<close> descends a source tree: any bound above the
  depth of the tree gives the same result (shown in \<open>Tar_Builder\<close>). \<open>copy_loop\<close> reads a file in
  chunks and may be interrupted: any bound above its length and the number of scripted faults
  gives the same result (shown in \<open>Http_Commit\<close>). The retry loops have the bound of the code, four
  attempts. Everything else is structural or has its measure.

  \<^bold>\<open>Not modelled.\<close> Code outside the repository, as above; of it the theorems assume only what
  their hypotheses name. Logging (\<open>tracing\<close>), what is written to standard error, the buffering
  of standard output and the parsing of the command line by \<open>clap\<close>: a command is the value it
  gives. Debug formatting stays symbolic in messages (\<open>Dbg\<close>). Paths follow the rules of Unix
  and are text. Other processes may observe the disk but do not write to it, except through a
  fault. The benchmarks, and the stubs of the tests.
\<close>

end
